(* ===== verification/GoPrelude.thy ===== *)
theory GoPrelude
  imports Main "HOL-Library.Word" "HOL-Library.Mapping" "HOL-Library.AList_Mapping"
begin

text \<open>
  What the repository's Go code uses of the language and of its standard library, shared by every
  component theory.

  A Go \<open>string\<close> is a byte sequence and is modelled by \<open>string\<close>, a list of 8-bit characters.
  \<open>runes\<close> is the iteration order of \<open>for _, r := range s\<close>: the UTF-8 decoding with the replacement
  rune of width one for every byte that starts no valid sequence. \<open>trim_space\<close>, \<open>valid_utf8\<close>,
  \<open>replace_all\<close>, \<open>parse_int\<close> and \<open>format_int\<close> are \<open>strings.TrimSpace\<close>, \<open>utf8.ValidString\<close>,
  \<open>strings.ReplaceAll\<close> with a one- or two-byte pattern, \<open>strconv.ParseInt(s, 10, 64)\<close> and
  \<open>strconv.FormatInt(v, 10)\<close>. An instant (\<open>time.Time\<close>) is its number of nanoseconds since the Unix
  epoch; \<open>time_sub\<close> saturates as \<open>Time.Sub\<close> does. A Go map with ordered keys is a
  \<open>('k, 'v) mapping\<close> of the library. A fallible call returns a sum, the error on the left.
\<close>

named_theorems go_simps \<open>unfolding rules for the Go library layer\<close>

subsection \<open>Results\<close>

type_synonym ('e, 'a) result = "'e + 'a"

abbreviation Err :: "'e \<Rightarrow> ('e, 'a) result" where
  "Err \<equiv> Inl"

abbreviation Ok :: "'a \<Rightarrow> ('e, 'a) result" where
  "Ok \<equiv> Inr"

definition bind_res :: "('e, 'a) result \<Rightarrow> ('a \<Rightarrow> ('e, 'b) result) \<Rightarrow> ('e, 'b) result" where
  "bind_res r f = (case r of Inl e \<Rightarrow> Inl e | Inr x \<Rightarrow> f x)"

definition is_ok :: "('e, 'a) result \<Rightarrow> bool" where
  "is_ok r = (case r of Inl _ \<Rightarrow> False | Inr _ \<Rightarrow> True)"

text \<open>The first failure of a list of fallible computations, or all their values in order.\<close>

fun sequence_res :: "('e, 'a) result list \<Rightarrow> ('e, 'a list) result" where
  "sequence_res [] = Inr []"
| "sequence_res (r # rs) =
     (case r of Inl e \<Rightarrow> Inl e
      | Inr x \<Rightarrow> (case sequence_res rs of Inl e \<Rightarrow> Inl e | Inr xs \<Rightarrow> Inr (x # xs)))"

subsection \<open>Bytes, runes and UTF-8\<close>

type_synonym rune = nat

abbreviation byte_of :: "char \<Rightarrow> nat" where
  "byte_of c \<equiv> of_char c"

text \<open>\<open>utf8.RuneError\<close>.\<close>

definition rune_error :: rune where
  "rune_error = 65533"

definition in_range :: "nat \<Rightarrow> nat \<Rightarrow> char \<Rightarrow> bool" where
  "in_range lo hi c \<longleftrightarrow> lo \<le> byte_of c \<and> byte_of c \<le> hi"

definition cont_bits :: "char \<Rightarrow> nat" where
  "cont_bits c = byte_of c mod 64"

text \<open>
  \<open>utf8.DecodeRuneInString\<close>: the first rune and its width. The range of the second byte depends on
  the first (no overlong forms, no surrogates, nothing above U+10FFFF).
\<close>

definition second_range :: "nat \<Rightarrow> nat \<times> nat" where
  "second_range b0 =
     (if b0 = 224 then (160, 191) else if b0 = 237 then (128, 159)
      else if b0 = 240 then (144, 191) else if b0 = 244 then (128, 143) else (128, 191))"

definition lead_width :: "nat \<Rightarrow> nat" where
  "lead_width b0 =
     (if b0 < 128 then 1 else if 194 \<le> b0 \<and> b0 \<le> 223 then 2
      else if 224 \<le> b0 \<and> b0 \<le> 239 then 3 else if 240 \<le> b0 \<and> b0 \<le> 244 then 4 else 0)"

fun decode_rune :: "char \<Rightarrow> string \<Rightarrow> rune \<times> nat" where
  "decode_rune c0 cs =
     (let b0 = byte_of c0; w = lead_width b0; (lo, hi) = second_range b0
      in if w = 1 then (b0, 1)
         else if w = 2 \<and> 1 \<le> length cs \<and> in_range lo hi (cs ! 0)
           then ((b0 mod 32) * 64 + cont_bits (cs ! 0), 2)
         else if w = 3 \<and> 2 \<le> length cs \<and> in_range lo hi (cs ! 0) \<and> in_range 128 191 (cs ! 1)
           then ((b0 mod 16) * 4096 + cont_bits (cs ! 0) * 64 + cont_bits (cs ! 1), 3)
         else if w = 4 \<and> 3 \<le> length cs \<and> in_range lo hi (cs ! 0) \<and> in_range 128 191 (cs ! 1)
              \<and> in_range 128 191 (cs ! 2)
           then ((b0 mod 8) * 262144 + cont_bits (cs ! 0) * 4096 + cont_bits (cs ! 1) * 64
                 + cont_bits (cs ! 2), 4)
         else (rune_error, 1))"

declare decode_rune.simps [simp del]

text \<open>The runes of a string in order, each with the bytes it was decoded from.\<close>

fun runes :: "string \<Rightarrow> (rune \<times> string) list" where
  "runes [] = []"
| "runes (c # cs) =
     (case decode_rune c cs of (r, w) \<Rightarrow> (r, c # take (w - 1) cs) # runes (drop (w - 1) cs))"

definition seg_valid :: "rune \<times> string \<Rightarrow> bool" where
  "seg_valid p \<longleftrightarrow> \<not> (fst p = rune_error \<and> length (snd p) = 1)"

text \<open>\<open>utf8.ValidString\<close>.\<close>

definition valid_utf8 :: "string \<Rightarrow> bool" where
  "valid_utf8 s \<longleftrightarrow> list_all seg_valid (runes s)"

definition is_ascii :: "string \<Rightarrow> bool" where
  "is_ascii s \<longleftrightarrow> list_all (\<lambda>c. byte_of c < 128) s"

text \<open>\<open>unicode.IsSpace\<close>: the White_Space property.\<close>

definition is_space :: "rune \<Rightarrow> bool" where
  "is_space r \<longleftrightarrow>
     (9 \<le> r \<and> r \<le> 13) \<or> r = 32 \<or> r = 133 \<or> r = 160 \<or> r = 5760
     \<or> (8192 \<le> r \<and> r \<le> 8202) \<or> r = 8232 \<or> r = 8233 \<or> r = 8239 \<or> r = 8287 \<or> r = 12288"

text \<open>\<open>unicode.IsControl\<close>: the Latin-1 control characters.\<close>

definition is_control :: "rune \<Rightarrow> bool" where
  "is_control r \<longleftrightarrow> r < 32 \<or> (127 \<le> r \<and> r < 160)"

text \<open>
  \<open>strings.TrimSpace\<close>. A white-space rune starts with an ASCII or a lead byte, which is never inside
  another rune, so decoding from the right end finds the same trailing white space as decoding from
  the left does.
\<close>

definition trim_segs :: "(rune \<times> string) list \<Rightarrow> (rune \<times> string) list" where
  "trim_segs ps =
     rev (dropWhile (\<lambda>p. is_space (fst p)) (rev (dropWhile (\<lambda>p. is_space (fst p)) ps)))"

definition trim_space :: "string \<Rightarrow> string" where
  "trim_space s = concat (map snd (trim_segs (runes s)))"

text \<open>\<open>strings.ReplaceAll\<close> for a one-byte and for a two-byte pattern.\<close>

fun replace1 :: "char \<Rightarrow> string \<Rightarrow> string \<Rightarrow> string" where
  "replace1 a new [] = []"
| "replace1 a new (c # cs) = (if c = a then new @ replace1 a new cs else c # replace1 a new cs)"

fun replace2 :: "char \<Rightarrow> char \<Rightarrow> string \<Rightarrow> string \<Rightarrow> string" where
  "replace2 a b new [] = []"
| "replace2 a b new [c] = [c]"
| "replace2 a b new (c # d # cs) =
     (if c = a \<and> d = b then new @ replace2 a b new cs else c # replace2 a b new (d # cs))"

text \<open>\<open>strings.Split\<close> on a one-byte separator.\<close>

fun split_on :: "char \<Rightarrow> string \<Rightarrow> string list" where
  "split_on a [] = [[]]"
| "split_on a (c # cs) =
     (if c = a then [] # split_on a cs
      else (case split_on a cs of [] \<Rightarrow> [[c]] | w # ws \<Rightarrow> (c # w) # ws))"

text \<open>ASCII case, as \<open>strings.ToLower\<close> on an ASCII string.\<close>

definition to_lower_char :: "char \<Rightarrow> char" where
  "to_lower_char c = (if 65 \<le> byte_of c \<and> byte_of c \<le> 90 then char_of (byte_of c + 32) else c)"

definition to_lower_ascii :: "string \<Rightarrow> string" where
  "to_lower_ascii s = map to_lower_char s"

subsection \<open>Decimal integers\<close>

datatype num_error = ErrSyntax | ErrRange

definition max_uint64 :: nat where
  "max_uint64 = 18446744073709551615"

definition max_int64 :: int where
  "max_int64 = 9223372036854775807"

definition min_int64 :: int where
  "min_int64 = - 9223372036854775808"

definition is_digit :: "char \<Rightarrow> bool" where
  "is_digit c \<longleftrightarrow> 48 \<le> byte_of c \<and> byte_of c \<le> 57"

text \<open>The loop of \<open>strconv.ParseUint\<close> in base 10: a bad byte or an overflow stops at once.\<close>

fun parse_digits :: "nat \<Rightarrow> string \<Rightarrow> (num_error, nat) result" where
  "parse_digits n [] = Ok n"
| "parse_digits n (c # cs) =
     (if \<not> is_digit c then Err ErrSyntax
      else let m = 10 * n + (byte_of c - 48)
           in if m > max_uint64 then Err ErrRange else parse_digits m cs)"

definition parse_uint :: "string \<Rightarrow> (num_error, nat) result" where
  "parse_uint s = (if s = [] then Err ErrSyntax else parse_digits 0 s)"

definition parse_signed :: "bool \<Rightarrow> string \<Rightarrow> (num_error, int) result" where
  "parse_signed neg s =
     (case parse_uint s of
        Inl e \<Rightarrow> Err e
      | Inr un \<Rightarrow>
          if \<not> neg \<and> un \<ge> 9223372036854775808 then Err ErrRange
          else if neg \<and> un > 9223372036854775808 then Err ErrRange
          else Ok (if neg then - int un else int un))"

definition parse_int :: "string \<Rightarrow> (num_error, int) result" where
  "parse_int s =
     (case s of
        [] \<Rightarrow> Err ErrSyntax
      | c # cs \<Rightarrow>
          if c = CHR ''+'' then parse_signed False cs
          else if c = CHR ''-'' then parse_signed True cs
          else parse_signed False s)"

definition digit_char :: "nat \<Rightarrow> char" where
  "digit_char d = char_of (48 + d)"

fun format_nat :: "nat \<Rightarrow> string" where
  "format_nat n =
     (if n < 10 then [digit_char n] else format_nat (n div 10) @ [digit_char (n mod 10)])"

declare format_nat.simps [simp del]

definition format_int :: "int \<Rightarrow> string" where
  "format_int v = (if v < 0 then CHR ''-'' # format_nat (nat (- v)) else format_nat (nat v))"

subsection \<open>Instants and durations\<close>

type_synonym instant = int
type_synonym duration = int

text \<open>The zero \<open>time.Time\<close>: January 1 of year 1, UTC.\<close>

definition zero_time :: instant where
  "zero_time = - 62135596800000000000"

definition clamp_int64 :: "int \<Rightarrow> int" where
  "clamp_int64 v = (if v > max_int64 then max_int64 else if v < min_int64 then min_int64 else v)"

definition time_sub :: "instant \<Rightarrow> instant \<Rightarrow> duration" where
  "time_sub t u = clamp_int64 (t - u)"

text \<open>\<open>Duration.Milliseconds\<close>: division truncated towards zero.\<close>

definition milliseconds :: "duration \<Rightarrow> int" where
  "milliseconds d = (if d < 0 then - ((- d) div 1000000) else d div 1000000)"

definition unix_micro :: "instant \<Rightarrow> int" where
  "unix_micro t = t div 1000"


subsection \<open>Facts about results\<close>

lemma bind_res_simps [simp]:
  "bind_res (Inl e) f = Inl e"
  "bind_res (Inr x) f = f x"
  by (simp_all add: bind_res_def)

lemma bind_res_Ok_iff:
  "bind_res r f = Inr y \<longleftrightarrow> (\<exists>x. r = Inr x \<and> f x = Inr y)"
  by (cases r) auto

lemma is_ok_simps [simp]:
  "is_ok (Inl e) = False"
  "is_ok (Inr x) = True"
  by (simp_all add: is_ok_def)

lemma sequence_res_map_Inr [simp]: "sequence_res (map Inr xs) = Inr xs"
  by (induction xs) auto

lemma sequence_res_OkD: "sequence_res rs = Inr xs \<Longrightarrow> rs = map Inr xs"
  by (induction rs arbitrary: xs) (auto split: sum.splits)

lemma sequence_res_Ok_iff: "sequence_res rs = Inr xs \<longleftrightarrow> rs = map Inr xs"
  using sequence_res_OkD by auto

subsection \<open>Facts about runes\<close>

lemma decode_rune_ascii:
  "byte_of c < 128 \<Longrightarrow> decode_rune c cs = (byte_of c, 1)"
  by (simp add: decode_rune.simps lead_width_def Let_def split: prod.splits)

lemma decode_rune_width:
  "decode_rune c cs = (r, w) \<Longrightarrow> 1 \<le> w \<and> w - 1 \<le> length cs"
  by (auto simp: decode_rune.simps Let_def split: if_splits prod.splits)

text \<open>A prefix that still holds the whole first rune decodes to the same rune.\<close>

lemma decode_rune_take:
  assumes d: "decode_rune c cs = (r, w)" and n: "w - 1 \<le> n"
  shows "decode_rune c (take n cs) = (r, w)"
proof -
  obtain lo hi where lh: "second_range (byte_of c) = (lo, hi)" by (cases "second_range (byte_of c)")
  note step = decode_rune.simps [of c] Let_def lh prod.case
  consider "lead_width (byte_of c) = 1" | "lead_width (byte_of c) = 2"
    | "lead_width (byte_of c) = 3" | "lead_width (byte_of c) = 4" | "lead_width (byte_of c) = 0"
    unfolding lead_width_def by argo
  then show ?thesis
  proof cases
    case 1
    then show ?thesis using d by (simp add: step)
  next
    case 2
    then show ?thesis using d n by (auto simp: step split: if_splits)
  next
    case 3
    then show ?thesis using d n by (auto simp: step split: if_splits)
  next
    case 4
    then show ?thesis using d n by (auto simp: step split: if_splits)
  next
    case 5
    then show ?thesis using d by (simp add: step)
  qed
qed

lemma runes_concat: "concat (map snd (runes s)) = s"
  by (induction s rule: runes.induct) (auto split: prod.splits)

lemma runes_ascii:
  "is_ascii s \<Longrightarrow> runes s = map (\<lambda>c. (byte_of c, [c])) s"
  by (induction s) (auto simp: is_ascii_def decode_rune_ascii)

lemma runes_seg_nonempty: "p \<in> set (runes s) \<Longrightarrow> snd p \<noteq> []"
  by (induction s rule: runes.induct) (auto split: prod.splits)

lemma runes_Nil_iff [simp]: "runes s = [] \<longleftrightarrow> s = []"
  by (cases s) (auto split: prod.splits)

text \<open>Decoding a run of whole segments gives these segments back.\<close>

lemma runes_take_segs: "runes (concat (map snd (take k (runes s)))) = take k (runes s)"
proof (induction s arbitrary: k rule: runes.induct)
  case 1
  then show ?case by simp
next
  case (2 c cs)
  obtain r w where d: "decode_rune c cs = (r, w)" by (cases "decode_rune c cs")
  show ?case
  proof (cases k)
    case 0
    then show ?thesis by simp
  next
    case (Suc j)
    let ?rest = "concat (map snd (take j (runes (drop (w - 1) cs))))"
    have pre: "take (w - 1) cs @ ?rest = take (w - 1 + length ?rest) cs"
    proof -
      have "drop (w - 1) cs = ?rest @ concat (map snd (drop j (runes (drop (w - 1) cs))))"
        by (metis append_take_drop_id concat_append map_append runes_concat)
      then have "take (length ?rest) (drop (w - 1) cs) = ?rest"
        by (metis append_eq_conv_conj)
      then show ?thesis by (simp add: take_add)
    qed
    from d have w: "1 \<le> w" "w - 1 \<le> length cs" by (auto dest: decode_rune_width)
    have "decode_rune c (take (w - 1) cs @ ?rest) = (r, w)"
      unfolding pre by (rule decode_rune_take [OF d]) simp
    moreover have "runes ?rest = take j (runes (drop (w - 1) cs))"
      using "2.IH" d by simp
    ultimately show ?thesis using Suc d w by simp
  qed
qed

lemma runes_drop_segs: "runes (concat (map snd (drop k (runes s)))) = drop k (runes s)"
proof (induction k arbitrary: s)
  case 0
  then show ?case by (simp add: runes_concat)
next
  case (Suc k)
  show ?case
  proof (cases s)
    case Nil
    then show ?thesis by simp
  next
    case (Cons c cs)
    obtain r w where d: "decode_rune c cs = (r, w)" by (cases "decode_rune c cs")
    then show ?thesis using Suc.IH [of "drop (w - 1) cs"] Cons by simp
  qed
qed

lemma dropWhile_eq_drop_ex: "\<exists>k. dropWhile P xs = drop k xs"
  by (metis append_eq_conv_conj takeWhile_dropWhile_id)

lemma trim_segs_take_drop: "\<exists>k j. trim_segs ps = take j (drop k ps)"
proof -
  obtain k where k: "dropWhile (\<lambda>p. is_space (fst p)) ps = drop k ps"
    using dropWhile_eq_drop_ex by blast
  obtain m where m: "dropWhile (\<lambda>p. is_space (fst p)) (rev (drop k ps)) = drop m (rev (drop k ps))"
    using dropWhile_eq_drop_ex by blast
  have "trim_segs ps = take (length (drop k ps) - m) (drop k ps)"
    unfolding trim_segs_def k m rev_drop [of m "rev (drop k ps)"]
    by (simp only: rev_rev_ident length_rev)
  then show ?thesis by blast
qed

lemma set_trim_segs: "set (trim_segs ps) \<subseteq> set ps"
  by (metis trim_segs_take_drop set_drop_subset set_take_subset subset_trans)

lemma runes_trim_space: "runes (trim_space s) = trim_segs (runes s)"
proof -
  obtain k j where kj: "trim_segs (runes s) = take j (drop k (runes s))"
    using trim_segs_take_drop by blast
  let ?t = "concat (map snd (drop k (runes s)))"
  have "runes (concat (map snd (take j (runes ?t)))) = take j (runes ?t)"
    by (rule runes_take_segs)
  then show ?thesis by (simp add: trim_space_def kj runes_drop_segs)
qed

lemma dropWhile_hd_not: "dropWhile P xs = x # ys \<Longrightarrow> \<not> P x"
  by (metis hd_dropWhile list.distinct(1) list.sel(1))

lemma rev_dropWhile_rev_prefix: "\<exists>zs. xs = rev (dropWhile P (rev xs)) @ zs"
  by (rule exI [of _ "rev (takeWhile P (rev xs))"])
     (metis rev_append rev_rev_ident takeWhile_dropWhile_id)

lemma trim_segs_hd:
  assumes "trim_segs ps = p # qs"
  shows "\<not> is_space (fst p)"
proof -
  define l where "l = dropWhile (\<lambda>p. is_space (fst p)) ps"
  have t: "trim_segs ps = rev (dropWhile (\<lambda>p. is_space (fst p)) (rev l))"
    by (simp add: trim_segs_def l_def)
  obtain zs where "l = trim_segs ps @ zs"
    unfolding t using rev_dropWhile_rev_prefix by blast
  then have "l = p # (qs @ zs)" using assms by simp
  then show ?thesis unfolding l_def by (rule dropWhile_hd_not)
qed

lemma trim_segs_Nil [simp]: "trim_segs [] = []"
  by (simp add: trim_segs_def)

lemma trim_segs_idem: "trim_segs (trim_segs ps) = trim_segs ps"
proof (cases "trim_segs ps")
  case Nil
  then show ?thesis by simp
next
  case (Cons p qs)
  define t where "t = trim_segs ps"
  have "dropWhile (\<lambda>p. is_space (fst p)) t = t"
    using Cons trim_segs_hd [OF Cons] by (simp add: t_def)
  moreover have "dropWhile (\<lambda>p. is_space (fst p)) (rev t) = rev t"
    unfolding t_def trim_segs_def by (simp add: dropWhile_idem)
  ultimately show ?thesis unfolding t_def [symmetric] by (subst trim_segs_def) simp
qed

lemma trim_space_idem [simp]: "trim_space (trim_space s) = trim_space s"
  by (metis runes_concat runes_trim_space trim_segs_idem trim_space_def)

lemma valid_utf8_trim_space: "valid_utf8 s \<Longrightarrow> valid_utf8 (trim_space s)"
  unfolding valid_utf8_def runes_trim_space list_all_iff using set_trim_segs by blast

text \<open>An ASCII string without white space at its ends is its own trimming.\<close>

lemma trim_space_ascii_id:
  assumes "is_ascii s" and "\<forall>c \<in> set s. \<not> is_space (byte_of c)"
  shows "trim_space s = s"
proof -
  have "\<forall>p \<in> set (runes s). \<not> is_space (fst p)"
    using assms by (auto simp: runes_ascii)
  then have "dropWhile (\<lambda>p. is_space (fst p)) (runes s) = runes s"
    "dropWhile (\<lambda>p. is_space (fst p)) (rev (runes s)) = rev (runes s)"
    by (cases "runes s", auto) (cases "rev (runes s)", auto simp: rev_eq_Cons_iff)
  then show ?thesis by (simp add: trim_space_def trim_segs_def runes_concat)
qed

lemma valid_utf8_ascii: "is_ascii s \<Longrightarrow> valid_utf8 s"
  by (auto simp: valid_utf8_def runes_ascii list_all_iff seg_valid_def is_ascii_def rune_error_def)

lemma is_ascii_simps [simp]:
  "is_ascii []"
  "is_ascii (c # cs) \<longleftrightarrow> byte_of c < 128 \<and> is_ascii cs"
  "is_ascii (xs @ ys) \<longleftrightarrow> is_ascii xs \<and> is_ascii ys"
  by (auto simp: is_ascii_def)

text \<open>Bytes of a multi-byte rune are not ASCII, so an ASCII byte is a rune of its own.\<close>

lemma decode_rune_tail_not_ascii:
  assumes "decode_rune c cs = (r, w)" and "x \<in> set (take (w - 1) cs)"
  shows "128 \<le> byte_of x"
proof -
  obtain lo hi where lh: "second_range (byte_of c) = (lo, hi)" by (cases "second_range (byte_of c)")
  have lo: "128 \<le> lo" using lh by (auto simp: second_range_def split: if_splits)
  have "w = 1 \<or> w = 2 \<and> in_range lo hi (cs ! 0)
    \<or> w = 3 \<and> in_range lo hi (cs ! 0) \<and> in_range 128 191 (cs ! 1)
    \<or> w = 4 \<and> in_range lo hi (cs ! 0) \<and> in_range 128 191 (cs ! 1) \<and> in_range 128 191 (cs ! 2)"
    using assms(1) by (auto simp: decode_rune.simps Let_def lh split: if_splits)
  then have "\<forall>i < w - 1. 128 \<le> byte_of (cs ! i)"
    using lo by (auto simp: in_range_def less_Suc_eq numeral_2_eq_2 numeral_3_eq_3
        numeral_eq_Suc)
  moreover have "w - 1 \<le> length cs" using assms(1) decode_rune_width by blast
  ultimately show ?thesis using assms(2) by (auto simp: in_set_conv_nth)
qed

lemma ascii_byte_rune:
  "x \<in> set s \<Longrightarrow> byte_of x < 128 \<Longrightarrow> (byte_of x, [x]) \<in> set (runes s)"
proof (induction s rule: runes.induct)
  case 1
  then show ?case by simp
next
  case (2 c cs)
  obtain r w where d: "decode_rune c cs = (r, w)" by (cases "decode_rune c cs")
  consider "x = c" | "x \<in> set (take (w - 1) cs)" | "x \<in> set (drop (w - 1) cs)"
    using "2.prems"(1) by (metis append_take_drop_id set_ConsD set_append Un_iff)
  then show ?case
  proof cases
    case 1
    then show ?thesis using "2.prems"(2) decode_rune_ascii [of c cs] by simp
  next
    case 2
    then show ?thesis using decode_rune_tail_not_ascii [OF d] "2.prems"(2) by fastforce
  next
    case 3
    then show ?thesis using "2.IH" "2.prems"(2) d by auto
  qed
qed

text \<open>A valid rune is decoded the same whatever follows it.\<close>

lemma decode_rune_append:
  assumes d: "decode_rune c cs = (r, w)" and v: "\<not> (r = rune_error \<and> w = 1)"
  shows "decode_rune c (cs @ ys) = (r, w)"
proof -
  obtain lo hi where lh: "second_range (byte_of c) = (lo, hi)" by (cases "second_range (byte_of c)")
  note step = decode_rune.simps [of c] Let_def lh prod.case
  consider "lead_width (byte_of c) = 1" | "lead_width (byte_of c) = 2"
    | "lead_width (byte_of c) = 3" | "lead_width (byte_of c) = 4" | "lead_width (byte_of c) = 0"
    unfolding lead_width_def by argo
  then show ?thesis
  proof cases
    case 1
    then show ?thesis using d by (simp add: step)
  next
    case 2
    then show ?thesis using d v by (auto simp: step nth_append split: if_splits)
  next
    case 3
    then show ?thesis using d v by (auto simp: step nth_append split: if_splits)
  next
    case 4
    then show ?thesis using d v by (auto simp: step nth_append split: if_splits)
  next
    case 5
    then show ?thesis using d v by (simp add: step)
  qed
qed

lemma valid_utf8_Nil [simp]: "valid_utf8 []"
  by (simp add: valid_utf8_def)

lemma valid_utf8_step:
  assumes "decode_rune c cs = (r, w)"
  shows "valid_utf8 (c # cs) \<longleftrightarrow> \<not> (r = rune_error \<and> w = 1) \<and> valid_utf8 (drop (w - 1) cs)"
proof -
  have "1 \<le> w \<and> w - 1 \<le> length cs" using assms by (rule decode_rune_width)
  then have "length (c # take (w - 1) cs) = w" by simp
  then show ?thesis using assms by (simp add: valid_utf8_def seg_valid_def)
qed

lemma valid_utf8_ascii_Cons: "byte_of c < 128 \<Longrightarrow> valid_utf8 (c # cs) \<longleftrightarrow> valid_utf8 cs"
  by (simp add: valid_utf8_step [OF decode_rune_ascii] rune_error_def)

text \<open>A valid first rune can be put in front of any other valid rest.\<close>

lemma valid_utf8_swap_rest:
  assumes v: "valid_utf8 (c # cs)" and d: "decode_rune c cs = (r, w)" and t: "valid_utf8 t"
  shows "valid_utf8 (c # take (w - 1) cs @ t)"
proof -
  have ok: "\<not> (r = rune_error \<and> w = 1)" using v valid_utf8_step [OF d] by blast
  have "w - 1 \<le> length cs" using d decode_rune_width by blast
  moreover have "decode_rune c (take (w - 1) cs) = (r, w)" using decode_rune_take [OF d] by simp
  then have "decode_rune c (take (w - 1) cs @ t) = (r, w)" using decode_rune_append ok by blast
  ultimately show ?thesis using valid_utf8_step ok t by fastforce
qed

lemma replace1_id: "a \<notin> set s \<Longrightarrow> replace1 a new s = s"
  by (induction s) auto

lemma replace1_append: "replace1 a new (xs @ ys) = replace1 a new xs @ replace1 a new ys"
  by (induction xs) auto

lemma replace2_id: "a \<notin> set s \<Longrightarrow> replace2 a b new s = s"
  by (induction a b new s rule: replace2.induct) auto

lemma replace2_Cons_neq: "c \<noteq> a \<Longrightarrow> replace2 a b new (c # cs) = c # replace2 a b new cs"
  by (cases cs) auto

lemma replace2_append:
  "a \<notin> set xs \<Longrightarrow> replace2 a b new (xs @ ys) = xs @ replace2 a b new ys"
  by (induction xs) (auto simp: replace2_Cons_neq)

text \<open>Replacing ASCII patterns by ASCII text keeps UTF-8 valid.\<close>

lemma valid_utf8_replace1:
  assumes "byte_of a < 128" and "byte_of b < 128"
  shows "valid_utf8 s \<Longrightarrow> valid_utf8 (replace1 a [b] s)"
proof (induction s rule: runes.induct)
  case 1
  then show ?case by simp
next
  case (2 c cs)
  obtain r w where d: "decode_rune c cs = (r, w)" by (cases "decode_rune c cs")
  have IH: "valid_utf8 (replace1 a [b] (drop (w - 1) cs))"
    using "2.IH" "2.prems" d valid_utf8_step [OF d] by auto
  show ?case
  proof (cases "byte_of c < 128")
    case True
    then show ?thesis using IH d assms decode_rune_ascii [of c cs]
      by (simp add: valid_utf8_ascii_Cons)
  next
    case False
    then have "a \<notin> set (c # take (w - 1) cs)"
      using decode_rune_tail_not_ascii [OF d] assms(1) by fastforce
    then have "replace1 a [b] (c # cs) = c # take (w - 1) cs @ replace1 a [b] (drop (w - 1) cs)"
      by (metis append_Cons append_take_drop_id replace1_append replace1_id)
    then show ?thesis using valid_utf8_swap_rest [OF "2.prems" d IH] by simp
  qed
qed

lemma valid_utf8_replace2:
  assumes "byte_of a < 128" and "byte_of b < 128" and "byte_of x < 128"
  shows "valid_utf8 s \<Longrightarrow> valid_utf8 (replace2 a b [x] s)"
proof (induction s rule: length_induct)
  case (1 s)
  show ?case
  proof (cases s)
    case Nil
    then show ?thesis by simp
  next
    case (Cons c cs)
    obtain r w where d: "decode_rune c cs = (r, w)" by (cases "decode_rune c cs")
    have rest: "valid_utf8 (drop (w - 1) cs)" using "1.prems" Cons valid_utf8_step [OF d] by simp
    then have IH: "valid_utf8 (replace2 a b [x] (drop (w - 1) cs))"
      using "1.IH" Cons by (simp add: less_Suc_eq_le)
    show ?thesis
    proof (cases "byte_of c < 128")
      case True
      then have w: "w = 1" using d decode_rune_ascii [of c cs] by simp
      show ?thesis
      proof (cases cs)
        case Nil
        then show ?thesis using Cons True by (simp add: valid_utf8_ascii_Cons)
      next
        case (Cons e es)
        then show ?thesis using \<open>s = c # cs\<close> True IH rest w assms "1.IH"
          by (auto simp: valid_utf8_ascii_Cons)
      qed
    next
      case False
      then have "a \<notin> set (c # take (w - 1) cs)"
        using decode_rune_tail_not_ascii [OF d] assms(1) by fastforce
      then have "replace2 a b [x] s = c # take (w - 1) cs @ replace2 a b [x] (drop (w - 1) cs)"
        using Cons by (metis append_Cons append_take_drop_id replace2_append)
      then show ?thesis using valid_utf8_swap_rest [OF _ d IH] "1.prems" Cons by simp
    qed
  qed
qed

lemma byte_to_lower_char:
  "byte_of (to_lower_char c) = (if 65 \<le> byte_of c \<and> byte_of c \<le> 90 then byte_of c + 32 else byte_of c)"
  by (simp add: to_lower_char_def)

lemma to_lower_char_idem [simp]: "to_lower_char (to_lower_char c) = to_lower_char c"
  by (simp add: to_lower_char_def)

lemma to_lower_idem [simp]: "to_lower_ascii (to_lower_ascii s) = to_lower_ascii s"
  by (simp add: to_lower_ascii_def)

lemma length_to_lower [simp]: "length (to_lower_ascii s) = length s"
  by (simp add: to_lower_ascii_def)

lemma is_ascii_to_lower [simp]: "is_ascii (to_lower_ascii s) \<longleftrightarrow> is_ascii s"
  by (auto simp: is_ascii_def to_lower_ascii_def list_all_iff byte_to_lower_char)

subsection \<open>Facts about decimal numerals\<close>

lemma byte_of_char_of [simp]: "n < 256 \<Longrightarrow> byte_of (char_of n) = n"
  by simp

lemma byte_of_digit_char: "d < 10 \<Longrightarrow> byte_of (digit_char d) = 48 + d"
  by (simp add: digit_char_def)

lemma is_digit_digit_char: "d < 10 \<Longrightarrow> is_digit (digit_char d)"
  by (simp add: is_digit_def byte_of_digit_char)

lemma format_nat_not_Nil: "format_nat n \<noteq> []"
  by (subst format_nat.simps) simp

lemma format_nat_digits: "c \<in> set (format_nat n) \<Longrightarrow> is_digit c"
proof (induction n rule: format_nat.induct)
  case (1 n)
  then show ?case
    by (cases "n < 10") (auto simp: format_nat.simps [of n] is_digit_digit_char)
qed

lemma parse_digits_append:
  "parse_digits n (xs @ [c]) =
     bind_res (parse_digits n xs) (\<lambda>m. parse_digits m [c])"
  by (induction n xs rule: parse_digits.induct) (auto simp: Let_def)

lemma parse_digits_format_nat:
  "n \<le> max_uint64 \<Longrightarrow> parse_digits 0 (format_nat n) = Ok n"
proof (induction n rule: format_nat.induct)
  case (1 n)
  show ?case
  proof (cases "n < 10")
    case True
    then show ?thesis using "1.prems"
      by (simp add: format_nat.simps [of n] is_digit_digit_char byte_of_digit_char max_uint64_def)
  next
    case False
    have "n div 10 \<le> max_uint64" using "1.prems" by simp
    with "1.IH" False have "parse_digits 0 (format_nat (n div 10)) = Ok (n div 10)" by simp
    moreover have "10 * (n div 10) + n mod 10 = n" by simp
    ultimately show ?thesis using False "1.prems"
      by (simp add: format_nat.simps [of n] parse_digits_append is_digit_digit_char
          byte_of_digit_char Let_def)
  qed
qed

lemma parse_uint_format_nat:
  "n \<le> max_uint64 \<Longrightarrow> parse_uint (format_nat n) = Ok n"
  by (simp add: parse_uint_def format_nat_not_Nil parse_digits_format_nat)

lemma parse_int_format_int:
  assumes "min_int64 \<le> v" and "v \<le> max_int64"
  shows "parse_int (format_int v) = Ok v"
proof (cases "v < 0")
  case True
  then have "nat (- v) \<le> max_uint64" using assms
    by (simp add: min_int64_def max_uint64_def)
  then show ?thesis using True assms
    by (simp add: parse_int_def format_int_def parse_signed_def parse_uint_format_nat min_int64_def)
next
  case False
  let ?s = "format_nat (nat v)"
  obtain c cs where s: "?s = c # cs" using format_nat_not_Nil by (cases ?s) auto
  have "is_digit c" using format_nat_digits [of c "nat v"] s by simp
  then have c: "c \<noteq> CHR ''+''" "c \<noteq> CHR ''-''" by (auto simp: is_digit_def)
  have "nat v \<le> max_uint64" using assms by (simp add: max_int64_def max_uint64_def)
  then have "parse_signed False ?s = Ok v" using False assms
    by (simp add: parse_signed_def parse_uint_format_nat max_int64_def)
  then show ?thesis using False s c by (simp add: parse_int_def format_int_def)
qed

text \<open>Out of range the numeral is refused, so parsing never yields another number.\<close>

lemma parse_digits_format_nat_only: "parse_digits 0 (format_nat n) = Ok m \<Longrightarrow> m = n"
proof (induction n arbitrary: m rule: format_nat.induct)
  case (1 n)
  show ?case
  proof (cases "n < 10")
    case True
    then show ?thesis using "1.prems"
      by (simp add: format_nat.simps [of n] is_digit_digit_char byte_of_digit_char max_uint64_def)
  next
    case False
    then obtain k where k: "parse_digits 0 (format_nat (n div 10)) = Ok k" and m: "m = 10 * k + n mod 10"
      using "1.prems"
      by (cases "parse_digits 0 (format_nat (n div 10))")
         (auto simp: format_nat.simps [of n] parse_digits_append is_digit_digit_char byte_of_digit_char Let_def
           split: if_splits)
    then show ?thesis using "1.IH" [OF False k] by simp
  qed
qed

lemma parse_int_format_int_only:
  assumes "parse_int (format_int v) = Ok w"
  shows "w = v"
proof (cases "v < 0")
  case True
  then show ?thesis using assms
    by (auto simp: format_int_def parse_int_def parse_signed_def parse_uint_def format_nat_not_Nil
        split: sum.splits if_splits dest: parse_digits_format_nat_only)
next
  case False
  let ?s = "format_nat (nat v)"
  obtain c cs where s: "?s = c # cs" using format_nat_not_Nil by (cases ?s) auto
  have "is_digit c" using format_nat_digits [of c "nat v"] s by simp
  then have "c \<noteq> CHR ''+''" "c \<noteq> CHR ''-''" by (auto simp: is_digit_def)
  then have "parse_signed False ?s = Ok w" using assms False s by (simp add: format_int_def parse_int_def)
  then show ?thesis using False
    by (auto simp: parse_signed_def parse_uint_def format_nat_not_Nil
        split: sum.splits if_splits dest: parse_digits_format_nat_only)
qed

lemma parse_digits_bound: "parse_digits n s = Ok m \<Longrightarrow> n \<le> max_uint64 \<Longrightarrow> m \<le> max_uint64"
  by (induction n s rule: parse_digits.induct) (auto simp: Let_def split: if_splits)

lemma parse_int_bounds:
  "parse_int s = Ok v \<Longrightarrow> min_int64 \<le> v \<and> v \<le> max_int64"
  by (auto simp: parse_int_def parse_signed_def min_int64_def max_int64_def
      split: list.splits if_splits sum.splits)

lemma format_int_nonneg_digits: "0 \<le> v \<Longrightarrow> c \<in> set (format_int v) \<Longrightarrow> is_digit c"
  by (auto simp: format_int_def dest: format_nat_digits)

lemma format_int_inj:
  assumes "min_int64 \<le> v" "v \<le> max_int64" "min_int64 \<le> w" "w \<le> max_int64"
    and "format_int v = format_int w"
  shows "v = w"
  by (metis assms parse_int_format_int sum.inject(2))

subsection \<open>Facts about instants\<close>

lemma milliseconds_mono: "d \<le> e \<Longrightarrow> milliseconds d \<le> milliseconds e"
  by (auto simp: milliseconds_def zdiv_mono1)
     (smt (verit, best) pos_imp_zdiv_nonneg_iff)

lemma time_sub_mono: "t \<le> u \<Longrightarrow> time_sub t e \<le> time_sub u e"
  by (auto simp: time_sub_def clamp_int64_def max_int64_def min_int64_def)

subsection \<open>Facts about mappings\<close>

lemma lookup_update_if:
  "Mapping.lookup (Mapping.update k v m) j = (if j = k then Some v else Mapping.lookup m j)"
  by (simp add: lookup_update')

lemma lookup_delete_if:
  "Mapping.lookup (Mapping.delete k m) j = (if j = k then None else Mapping.lookup m j)"
  by (cases "j = k") (simp_all add: lookup_delete lookup_delete_neq)

lemma in_keys_iff: "k \<in> Mapping.keys m \<longleftrightarrow> Mapping.lookup m k \<noteq> None"
  by (simp add: keys_dom_lookup domIff)

end
