(* ===== verification/Identifiers.thy ===== *)
theory Identifiers
  imports GoPrelude
begin

text \<open>
  The package \<open>internal/id\<close>: the Snowflake-valued identifiers \<open>UserID\<close>, \<open>RoomID\<close> and \<open>EventID\<close>,
  each its own type over an \<open>int64\<close>, and the opaque \<open>PublicCode\<close> with its Crockford alphabet. The
  three identifier types share one contract, the locale \<open>id_codec\<close>, interpreted on each of them. A
  JSON document is taken after tokenisation (\<open>json_value\<close>); what \<open>encoding/json\<close> does when it decodes
  such a value into a Go string is \<open>json_to_string\<close>.
\<close>

unbundle bit_operations_syntax

subsection \<open>Identifier types\<close>

datatype user_id = UserID (user_int64: int)
datatype room_id = RoomID (room_int64: int)
datatype event_id = EventID (event_int64: int)

datatype id_error =
  ErrInvalidUserID | ErrInvalidRoomID | ErrInvalidEventID
  | ErrIDParse num_error | ErrIDJSON

text \<open>The zero values of the three structs; no constructor function emits one.\<close>

definition zero_user_id :: user_id where "zero_user_id = UserID 0"
definition zero_room_id :: room_id where "zero_room_id = RoomID 0"
definition zero_event_id :: event_id where "zero_event_id = EventID 0"

definition NewUserID :: "int \<Rightarrow> (id_error, user_id) result" where
  "NewUserID v = (if v \<le> 0 then Err ErrInvalidUserID else Ok (UserID v))"

definition ParseUserID :: "string \<Rightarrow> (id_error, user_id) result" where
  "ParseUserID s = (case parse_int s of Inl e \<Rightarrow> Err (ErrIDParse e) | Inr v \<Rightarrow> NewUserID v)"

definition user_is_zero :: "user_id \<Rightarrow> bool" where
  "user_is_zero u \<longleftrightarrow> user_int64 u = 0"

definition user_string :: "user_id \<Rightarrow> string" where
  "user_string u = format_int (user_int64 u)"

definition NewRoomID :: "int \<Rightarrow> (id_error, room_id) result" where
  "NewRoomID v = (if v \<le> 0 then Err ErrInvalidRoomID else Ok (RoomID v))"

definition ParseRoomID :: "string \<Rightarrow> (id_error, room_id) result" where
  "ParseRoomID s = (case parse_int s of Inl e \<Rightarrow> Err (ErrIDParse e) | Inr v \<Rightarrow> NewRoomID v)"

definition room_is_zero :: "room_id \<Rightarrow> bool" where
  "room_is_zero r \<longleftrightarrow> room_int64 r = 0"

definition room_string :: "room_id \<Rightarrow> string" where
  "room_string r = format_int (room_int64 r)"

definition NewEventID :: "int \<Rightarrow> (id_error, event_id) result" where
  "NewEventID v = (if v \<le> 0 then Err ErrInvalidEventID else Ok (EventID v))"

definition ParseEventID :: "string \<Rightarrow> (id_error, event_id) result" where
  "ParseEventID s = (case parse_int s of Inl e \<Rightarrow> Err (ErrIDParse e) | Inr v \<Rightarrow> NewEventID v)"

definition event_is_zero :: "event_id \<Rightarrow> bool" where
  "event_is_zero e \<longleftrightarrow> event_int64 e = 0"

definition event_string :: "event_id \<Rightarrow> string" where
  "event_string e = format_int (event_int64 e)"

subsection \<open>JSON form of an identifier\<close>

datatype json_value =
  JString string | JNumber string | JBool bool | JNull | JArray | JObject

text \<open>
  \<open>json.Unmarshal(data, \&s)\<close> with \<open>s\<close> a fresh string: a JSON string is stored, \<open>null\<close> leaves \<open>s\<close>
  empty without an error, any other value is a type error.
\<close>

definition json_to_string :: "json_value \<Rightarrow> string option" where
  "json_to_string j = (case j of JString s \<Rightarrow> Some s | JNull \<Rightarrow> Some [] | _ \<Rightarrow> None)"

definition user_marshal_json :: "user_id \<Rightarrow> json_value" where
  "user_marshal_json u = JString (user_string u)"

text \<open>\<open>UnmarshalJSON\<close> writes its receiver only on success, so the old value is kept on an error.\<close>

definition user_unmarshal_json :: "user_id \<Rightarrow> json_value \<Rightarrow> user_id \<times> id_error option" where
  "user_unmarshal_json u j =
     (case json_to_string j of
        None \<Rightarrow> (u, Some ErrIDJSON)
      | Some s \<Rightarrow> (case ParseUserID s of Inl e \<Rightarrow> (u, Some e) | Inr p \<Rightarrow> (p, None)))"

definition room_marshal_json :: "room_id \<Rightarrow> json_value" where
  "room_marshal_json r = JString (room_string r)"

definition room_unmarshal_json :: "room_id \<Rightarrow> json_value \<Rightarrow> room_id \<times> id_error option" where
  "room_unmarshal_json r j =
     (case json_to_string j of
        None \<Rightarrow> (r, Some ErrIDJSON)
      | Some s \<Rightarrow> (case ParseRoomID s of Inl e \<Rightarrow> (r, Some e) | Inr p \<Rightarrow> (p, None)))"

definition event_marshal_json :: "event_id \<Rightarrow> json_value" where
  "event_marshal_json e = JString (event_string e)"

definition event_unmarshal_json :: "event_id \<Rightarrow> json_value \<Rightarrow> event_id \<times> id_error option" where
  "event_unmarshal_json x j =
     (case json_to_string j of
        None \<Rightarrow> (x, Some ErrIDJSON)
      | Some s \<Rightarrow> (case ParseEventID s of Inl e \<Rightarrow> (x, Some e) | Inr p \<Rightarrow> (p, None)))"

subsection \<open>Public codes\<close>

definition crockfordAlphabet :: string where
  "crockfordAlphabet = ''0123456789ABCDEFGHJKMNPQRSTVWXYZ''"

definition crockfordSymbol :: "8 word \<Rightarrow> char" where
  "crockfordSymbol b = crockfordAlphabet ! unat (b AND 31)"

definition normalizeCrockford :: "rune \<Rightarrow> rune" where
  "normalizeCrockford r =
     (if r = 111 \<or> r = 79 then 48
      else if r = 105 \<or> r = 73 \<or> r = 108 \<or> r = 76 then 49
      else if 97 \<le> r \<and> r \<le> 122 then r - (97 - 65)
      else r)"

definition publicCodeLen :: nat where
  "publicCodeLen = 10"

definition userCodePrefix :: char where "userCodePrefix = CHR ''U''"
definition roomCodePrefix :: char where "roomCodePrefix = CHR ''R''"

datatype code_error = ErrInvalidPublicCode | ErrInvalidCodePrefix | ErrRandomSource

datatype public_code = PublicCode (code_string: string)

definition zero_public_code :: public_code where
  "zero_public_code = PublicCode []"

text \<open>\<open>strings.ContainsRune(crockfordAlphabet, n)\<close>: the alphabet is ASCII.\<close>

definition in_crockford :: "rune \<Rightarrow> bool" where
  "in_crockford n \<longleftrightarrow> n \<in> set (map byte_of crockfordAlphabet)"

text \<open>\<open>NewPublicCode\<close>; its argument is what \<open>rand.Read\<close> did with the buffer of \<open>publicCodeLen\<close> bytes.\<close>

definition NewPublicCode :: "(unit, 8 word list) result \<Rightarrow> (code_error, public_code) result" where
  "NewPublicCode rd =
     (case rd of Inl _ \<Rightarrow> Err ErrRandomSource
      | Inr buf \<Rightarrow> Ok (PublicCode (map crockfordSymbol buf)))"

fun fold_code :: "rune list \<Rightarrow> string \<Rightarrow> (code_error, public_code) result" where
  "fold_code [] acc = Ok (PublicCode acc)"
| "fold_code (r # rs) acc =
     (let n = normalizeCrockford r
      in if \<not> in_crockford n then Err ErrInvalidPublicCode
         else fold_code rs (acc @ [char_of n]))"

definition ParsePublicCode :: "string \<Rightarrow> (code_error, public_code) result" where
  "ParsePublicCode raw =
     (let trimmed = trim_space raw
      in if length trimmed \<noteq> publicCodeLen then Err ErrInvalidPublicCode
         else fold_code (map fst (runes trimmed)) [])"

definition code_is_zero :: "public_code \<Rightarrow> bool" where
  "code_is_zero p \<longleftrightarrow> code_string p = []"

definition FormatUser :: "public_code \<Rightarrow> string" where
  "FormatUser p = userCodePrefix # code_string p"

definition FormatRoom :: "public_code \<Rightarrow> string" where
  "FormatRoom p = roomCodePrefix # code_string p"

definition parsePrefixedCode :: "string \<Rightarrow> char \<Rightarrow> (code_error, public_code) result" where
  "parsePrefixedCode raw prefix =
     (case trim_space raw of
        [] \<Rightarrow> Err ErrInvalidPublicCode
      | c # rest \<Rightarrow>
          if c \<noteq> prefix \<and> byte_of c \<noteq> byte_of prefix + 32 then Err ErrInvalidCodePrefix
          else ParsePublicCode rest)"

definition ParseUserCode :: "string \<Rightarrow> (code_error, public_code) result" where
  "ParseUserCode raw = parsePrefixedCode raw userCodePrefix"

definition ParseRoomCode :: "string \<Rightarrow> (code_error, public_code) result" where
  "ParseRoomCode raw = parsePrefixedCode raw roomCodePrefix"

text \<open>The canonical codes: what a constructor can return.\<close>

definition valid_code :: "public_code \<Rightarrow> bool" where
  "valid_code p \<longleftrightarrow>
     length (code_string p) = publicCodeLen \<and> set (code_string p) \<subseteq> set crockfordAlphabet"

subsection \<open>Identifiers are ordered by their value\<close>

instantiation user_id :: linorder
begin
definition less_eq_user_id :: "user_id \<Rightarrow> user_id \<Rightarrow> bool" where
  "a \<le> b \<longleftrightarrow> user_int64 a \<le> user_int64 b"
definition less_user_id :: "user_id \<Rightarrow> user_id \<Rightarrow> bool" where
  "a < b \<longleftrightarrow> user_int64 a < user_int64 b"
instance
  by standard (auto simp: less_eq_user_id_def less_user_id_def user_id.expand)
end

instantiation room_id :: linorder
begin
definition less_eq_room_id :: "room_id \<Rightarrow> room_id \<Rightarrow> bool" where
  "a \<le> b \<longleftrightarrow> room_int64 a \<le> room_int64 b"
definition less_room_id :: "room_id \<Rightarrow> room_id \<Rightarrow> bool" where
  "a < b \<longleftrightarrow> room_int64 a < room_int64 b"
instance
  by standard (auto simp: less_eq_room_id_def less_room_id_def room_id.expand)
end

instantiation event_id :: linorder
begin
definition less_eq_event_id :: "event_id \<Rightarrow> event_id \<Rightarrow> bool" where
  "a \<le> b \<longleftrightarrow> event_int64 a \<le> event_int64 b"
definition less_event_id :: "event_id \<Rightarrow> event_id \<Rightarrow> bool" where
  "a < b \<longleftrightarrow> event_int64 a < event_int64 b"
instance
  by standard (auto simp: less_eq_event_id_def less_event_id_def event_id.expand)
end

subsection \<open>The contract of an identifier type\<close>

locale id_codec =
  fixes new :: "int \<Rightarrow> (id_error, 'a) result"
    and parse :: "string \<Rightarrow> (id_error, 'a) result"
    and int64 :: "'a \<Rightarrow> int"
    and str :: "'a \<Rightarrow> string"
    and unmarshal :: "'a \<Rightarrow> json_value \<Rightarrow> 'a \<times> id_error option"
  assumes new_pos: "0 < v \<Longrightarrow> \<exists>x. new v = Ok x \<and> int64 x = v"
    and new_nonpos: "v \<le> 0 \<Longrightarrow> \<not> is_ok (new v)"
    and int64_inj: "int64 x = int64 y \<Longrightarrow> x = y"
    and str_eq: "str x = format_int (int64 x)"
    and parse_eq: "parse s = (case parse_int s of Inl e \<Rightarrow> Err (ErrIDParse e) | Inr v \<Rightarrow> new v)"
    and unmarshal_eq: "unmarshal x j =
      (case json_to_string j of None \<Rightarrow> (x, Some ErrIDJSON)
       | Some s \<Rightarrow> (case parse s of Inl e \<Rightarrow> (x, Some e) | Inr p \<Rightarrow> (p, None)))"
begin

lemma new_Ok_iff: "new v = Ok x \<longleftrightarrow> 0 < v \<and> int64 x = v"
proof (cases "0 < v")
  case True
  then obtain y where "new v = Ok y" "int64 y = v" using new_pos by blast
  then show ?thesis using int64_inj True by auto
next
  case False
  then have "\<not> is_ok (new v)" by (simp add: new_nonpos)
  with False show ?thesis by auto
qed

lemma parse_pos: "parse s = Ok x \<Longrightarrow> 0 < int64 x \<and> int64 x \<le> max_int64"
  by (auto simp: parse_eq new_Ok_iff split: sum.splits dest: parse_int_bounds)

lemma parse_str:
  assumes "0 < int64 x" and "int64 x \<le> max_int64"
  shows "parse (str x) = Ok x"
proof -
  have "parse_int (str x) = Ok (int64 x)"
    using assms by (simp add: str_eq parse_int_format_int min_int64_def)
  then show ?thesis using assms by (simp add: parse_eq new_Ok_iff)
qed

lemma parse_str_only: "parse (str x) = Ok y \<Longrightarrow> y = x"
  by (rule int64_inj) (auto simp: parse_eq str_eq new_Ok_iff split: sum.splits dest: parse_int_format_int_only)

lemma str_inj:
  assumes "0 < int64 x" "int64 x \<le> max_int64" "0 < int64 y" "int64 y \<le> max_int64"
    and "str x = str y"
  shows "x = y"
  by (metis assms parse_str sum.inject(2))

lemma str_parse_canonical: "parse s = Ok x \<Longrightarrow> parse (str x) = Ok x"
  by (simp add: parse_pos parse_str)

lemma unmarshal_marshal:
  assumes "0 < int64 x" and "int64 x \<le> max_int64"
  shows "unmarshal y (JString (str x)) = (x, None)"
  using assms by (simp add: unmarshal_eq json_to_string_def parse_str)

lemma unmarshal_keeps_on_error: "unmarshal x j = (y, Some e) \<Longrightarrow> y = x"
  by (auto simp: unmarshal_eq split: option.splits sum.splits)

lemma unmarshal_pos: "unmarshal x j = (y, None) \<Longrightarrow> 0 < int64 y"
  by (auto simp: unmarshal_eq dest: parse_pos split: option.splits sum.splits)

end

interpretation user_codec: id_codec NewUserID ParseUserID user_int64 user_string user_unmarshal_json
  by unfold_locales
     (auto simp: NewUserID_def ParseUserID_def user_string_def user_unmarshal_json_def user_id.expand)

interpretation room_codec: id_codec NewRoomID ParseRoomID room_int64 room_string room_unmarshal_json
  by unfold_locales
     (auto simp: NewRoomID_def ParseRoomID_def room_string_def room_unmarshal_json_def room_id.expand)

interpretation event_codec:
  id_codec NewEventID ParseEventID event_int64 event_string event_unmarshal_json
  by unfold_locales
     (auto simp: NewEventID_def ParseEventID_def event_string_def event_unmarshal_json_def
       event_id.expand)

subsection \<open>Facts about public codes\<close>

lemma crockford_symbols:
  "list_all (\<lambda>n. n < 128 \<and> \<not> is_space n \<and> normalizeCrockford n = n)
     (map byte_of crockfordAlphabet)"
  by (simp add: crockfordAlphabet_def is_space_def normalizeCrockford_def)

lemma in_crockford_ascii: "in_crockford n \<Longrightarrow> n < 128"
  using crockford_symbols unfolding list_all_iff in_crockford_def by blast

lemma in_crockford_not_space: "in_crockford n \<Longrightarrow> \<not> is_space n"
  using crockford_symbols unfolding list_all_iff in_crockford_def by blast

lemma normalizeCrockford_fix: "in_crockford n \<Longrightarrow> normalizeCrockford n = n"
  using crockford_symbols unfolding list_all_iff in_crockford_def by blast

lemma normalizeCrockford_ascii: "in_crockford (normalizeCrockford r) \<Longrightarrow> r < 128"
  by (auto simp: normalizeCrockford_def split: if_splits dest: in_crockford_ascii)

lemma in_crockford_char: "in_crockford (byte_of c) \<longleftrightarrow> c \<in> set crockfordAlphabet"
  by (auto simp: in_crockford_def of_char_eq_iff)

lemma in_crockford_char_of: "in_crockford n \<Longrightarrow> char_of n \<in> set crockfordAlphabet"
  using in_crockford_ascii [of n] in_crockford_char [of "char_of n"] by simp

lemma fold_code_Ok_iff:
  "fold_code rs acc = Ok p \<longleftrightarrow>
     (\<forall>r \<in> set rs. in_crockford (normalizeCrockford r))
     \<and> p = PublicCode (acc @ map (\<lambda>r. char_of (normalizeCrockford r)) rs)"
  by (induction rs acc rule: fold_code.induct) (auto simp: Let_def)

text \<open>A rune below 128 was decoded from one byte.\<close>

lemma mod_shift:
  fixes b k q :: nat
  assumes "k * q \<le> b" and "b < k * q + k"
  shows "b mod k = b - k * q"
proof -
  obtain y where "b = k * q + y" using assms(1) le_Suc_ex by blast
  then show ?thesis using assms(2) by simp
qed

lemma mod_range_facts:
  fixes b x :: nat
  shows "194 \<le> b \<Longrightarrow> b \<le> 223 \<Longrightarrow> 2 \<le> b mod 32"
    and "224 < b \<Longrightarrow> b \<le> 239 \<Longrightarrow> 1 \<le> b mod 16"
    and "160 \<le> x \<Longrightarrow> x \<le> 191 \<Longrightarrow> 32 \<le> x mod 64"
    and "240 < b \<Longrightarrow> b \<le> 244 \<Longrightarrow> 1 \<le> b mod 8"
    and "144 \<le> x \<Longrightarrow> x \<le> 191 \<Longrightarrow> 16 \<le> x mod 64"
  using mod_shift [of 32 6 b] mod_shift [of 16 14 b] mod_shift [of 64 2 x]
    mod_shift [of 8 30 b] by simp_all

lemma decode_rune_small:
  assumes d: "decode_rune c cs = (r, w)" and r: "r < 128"
  shows "byte_of c < 128"
proof (rule ccontr)
  assume n: "\<not> byte_of c < 128"
  obtain lo hi where lh: "second_range (byte_of c) = (lo, hi)" by (cases "second_range (byte_of c)")
  note step = decode_rune.simps [of c] Let_def lh prod.case
  consider "194 \<le> byte_of c \<and> byte_of c \<le> 223" | "224 \<le> byte_of c \<and> byte_of c \<le> 239"
    | "240 \<le> byte_of c \<and> byte_of c \<le> 244" | "lead_width (byte_of c) = 0"
    using n unfolding lead_width_def by argo
  then show False
  proof cases
    case 1
    then have "lead_width (byte_of c) = 2" by (simp add: lead_width_def)
    then have "r = rune_error \<or> r \<ge> (byte_of c mod 32) * 64"
      using d by (auto simp: step split: if_splits)
    then show False using r 1 mod_range_facts(1) [of "byte_of c"] by (auto simp: rune_error_def)
  next
    case 2
    then have w: "lead_width (byte_of c) = 3" by (simp add: lead_width_def)
    have "r = rune_error \<or> (\<exists>x. lo \<le> x \<and> x \<le> hi \<and> r \<ge> (byte_of c mod 16) * 4096 + x mod 64 * 64)"
      using d w by (auto simp: step in_range_def cont_bits_def split: if_splits)
    then show False using r 2 mod_range_facts(2) [of "byte_of c"] mod_range_facts(3) lh
      by (cases "byte_of c = 224") (fastforce simp: rune_error_def second_range_def)+
  next
    case 3
    then have w: "lead_width (byte_of c) = 4" by (simp add: lead_width_def)
    have "r = rune_error
      \<or> (\<exists>x. lo \<le> x \<and> x \<le> hi \<and> r \<ge> (byte_of c mod 8) * 262144 + x mod 64 * 4096)"
      using d w by (auto simp: step in_range_def cont_bits_def split: if_splits)
    then show False using r 3 mod_range_facts(4) [of "byte_of c"] mod_range_facts(5) lh
      by (cases "byte_of c = 240") (fastforce simp: rune_error_def second_range_def)+
  next
    case 4
    then show False using d r by (simp add: step rune_error_def)
  qed
qed

lemma runes_small_ascii: "\<forall>p \<in> set (runes s). fst p < 128 \<Longrightarrow> is_ascii s"
proof (induction s rule: runes.induct)
  case 1
  then show ?case by simp
next
  case (2 c cs)
  obtain r w where d: "decode_rune c cs = (r, w)" by (cases "decode_rune c cs")
  then have "r < 128" using "2.prems" by simp
  then have c: "byte_of c < 128" using d decode_rune_small by blast
  then have "decode_rune c cs = (byte_of c, 1)" by (rule decode_rune_ascii)
  then show ?case using "2.IH" "2.prems" c by auto
qed

lemma valid_code_ascii:
  assumes "valid_code p"
  shows "is_ascii (code_string p)" and "\<forall>c \<in> set (code_string p). \<not> is_space (byte_of c)"
  using assms in_crockford_ascii in_crockford_not_space
  by (auto simp: valid_code_def is_ascii_def list_all_iff in_crockford_char [symmetric])

lemma ParsePublicCode_valid:
  assumes "ParsePublicCode raw = Ok p"
  shows "valid_code p"
proof -
  let ?t = "trim_space raw"
  have len: "length ?t = publicCodeLen" and f: "fold_code (map fst (runes ?t)) [] = Ok p"
    using assms by (auto simp: ParsePublicCode_def Let_def split: if_splits)
  from f have all: "\<forall>q \<in> set (runes ?t). in_crockford (normalizeCrockford (fst q))"
    and p: "p = PublicCode (map (\<lambda>r. char_of (normalizeCrockford r)) (map fst (runes ?t)))"
    by (auto simp: fold_code_Ok_iff)
  from all have "is_ascii ?t" by (intro runes_small_ascii) (auto dest: normalizeCrockford_ascii)
  then have "length (runes ?t) = publicCodeLen" using len by (simp add: runes_ascii)
  then show ?thesis using all by (auto simp: valid_code_def p in_crockford_char_of)
qed

lemma ParsePublicCode_string:
  assumes "valid_code p"
  shows "ParsePublicCode (code_string p) = Ok p"
proof -
  have t: "trim_space (code_string p) = code_string p"
    using valid_code_ascii [OF assms] by (rule trim_space_ascii_id)
  have r: "map fst (runes (code_string p)) = map byte_of (code_string p)"
    using valid_code_ascii(1) [OF assms] by (simp add: runes_ascii)
  have "\<forall>c \<in> set (code_string p). in_crockford (byte_of c)"
    using assms by (auto simp: valid_code_def in_crockford_char)
  then have "fold_code (map byte_of (code_string p)) [] = Ok p"
    by (auto simp: fold_code_Ok_iff normalizeCrockford_fix intro!: public_code.expand map_idI [symmetric])
  then show ?thesis using assms by (simp add: ParsePublicCode_def t r valid_code_def)
qed

lemma valid_code_not_zero: "valid_code p \<Longrightarrow> \<not> code_is_zero p"
  by (auto simp: valid_code_def code_is_zero_def publicCodeLen_def)

lemma trim_space_prefixed:
  assumes "valid_code p" and "byte_of x < 128" and "\<not> is_space (byte_of x)"
  shows "trim_space (x # code_string p) = x # code_string p"
  using assms valid_code_ascii by (intro trim_space_ascii_id) auto

lemma ParseUserCode_FormatUser:
  "valid_code p \<Longrightarrow> ParseUserCode (FormatUser p) = Ok p"
  by (simp add: ParseUserCode_def FormatUser_def parsePrefixedCode_def userCodePrefix_def
      trim_space_prefixed is_space_def ParsePublicCode_string)

lemma ParseRoomCode_FormatRoom:
  "valid_code p \<Longrightarrow> ParseRoomCode (FormatRoom p) = Ok p"
  by (simp add: ParseRoomCode_def FormatRoom_def parsePrefixedCode_def roomCodePrefix_def
      trim_space_prefixed is_space_def ParsePublicCode_string)

lemma ParseUserCode_FormatRoom:
  "valid_code p \<Longrightarrow> ParseUserCode (FormatRoom p) = Err ErrInvalidCodePrefix"
  by (simp add: ParseUserCode_def FormatRoom_def parsePrefixedCode_def roomCodePrefix_def
      userCodePrefix_def trim_space_prefixed is_space_def)

lemma ParseRoomCode_FormatUser:
  "valid_code p \<Longrightarrow> ParseRoomCode (FormatUser p) = Err ErrInvalidCodePrefix"
  by (simp add: ParseRoomCode_def FormatUser_def parsePrefixedCode_def roomCodePrefix_def
      userCodePrefix_def trim_space_prefixed is_space_def)

lemma parsePrefixedCode_valid: "parsePrefixedCode raw x = Ok p \<Longrightarrow> valid_code p"
  by (auto simp: parsePrefixedCode_def dest: ParsePublicCode_valid split: list.splits if_splits)

lemma NewPublicCode_valid:
  assumes "length buf = publicCodeLen"
  shows "\<exists>p. NewPublicCode (Ok buf) = Ok p \<and> valid_code p"
proof -
  have "crockfordSymbol b \<in> set crockfordAlphabet" for b
  proof -
    have "unat (b AND 31) \<le> unat (31 :: 8 word)"
      by (rule word_and_le1 [THEN word_le_nat_alt [THEN iffD1]])
    then have "unat (b AND 31) < length crockfordAlphabet" by (simp add: crockfordAlphabet_def)
    then show ?thesis unfolding crockfordSymbol_def by (rule nth_mem)
  qed
  then show ?thesis using assms by (auto simp: NewPublicCode_def valid_code_def)
qed

text \<open>Every symbol of the alphabet is the image of exactly eight of the 256 byte values.\<close>

lemma distinct_crockford: "distinct crockfordAlphabet"
  by (simp add: crockfordAlphabet_def)

lemma unat_and_31: "unat (b AND 31 :: 8 word) = unat b mod 32"
proof -
  have "b AND 31 = take_bit 5 b" by (simp add: take_bit_eq_mask mask_eq_exp_minus_1)
  then show ?thesis by (simp add: unsigned_take_bit_eq take_bit_eq_mod unat_mod)
qed

lemma crockford_preimage:
  assumes "k < 32"
  shows "{b. crockfordSymbol b = crockfordAlphabet ! k} = (\<lambda>j. of_nat (k + 32 * j)) ` {..<8}"
proof -
  have len: "length crockfordAlphabet = 32" by (simp add: crockfordAlphabet_def)
  have "crockfordSymbol b = crockfordAlphabet ! k \<longleftrightarrow> unat b mod 32 = k" for b
    unfolding crockfordSymbol_def unat_and_31
    using nth_eq_iff_index_eq [OF distinct_crockford] assms len by simp
  moreover have "unat b mod 32 = k \<longleftrightarrow> b \<in> (\<lambda>j. of_nat (k + 32 * j)) ` {..<8}" for b :: "8 word"
  proof
    assume m: "unat b mod 32 = k"
    have "unat b < 256" using unsigned_less [of b] by simp
    then have "unat b div 32 \<in> {..<8}" by simp
    moreover have "b = of_nat (k + 32 * (unat b div 32))"
    proof -
      have "k + 32 * (unat b div 32) = unat b" using m by auto
      then show ?thesis by (simp only: of_nat_unat) simp
    qed
    ultimately show "b \<in> (\<lambda>j. of_nat (k + 32 * j)) ` {..<8}" by blast
  next
    assume "b \<in> (\<lambda>j. of_nat (k + 32 * j)) ` {..<8}"
    then obtain j where j: "j < 8" and b: "b = of_nat (k + 32 * j)" by auto
    have "unat b = k + 32 * j" unfolding b using assms j by (intro of_nat_inverse [OF refl]) simp
    then show "unat b mod 32 = k" using assms by simp
  qed
  ultimately show ?thesis by auto
qed

end
