(* ===== verification/DomainModel.thy ===== *)
theory DomainModel
  imports Identifiers
begin

text \<open>
  The package \<open>internal/domain\<close>: text values parsed into canonical form at the boundary, room and
  user references, membership roles and their policy.

  Two things come from outside the repository and are fields of \<open>text_lib\<close>, the first argument of
  the constructors that use them: \<open>nfc\<close> is \<open>norm.NFC.String\<close> of \<open>golang.org/x/text\<close> and \<open>print_table\<close>
  is the Unicode table behind \<open>unicode.IsPrint\<close> above Latin-1. \<open>nfc_laws\<close> collects the documented
  facts about NFC the theorems rely on.
\<close>

record text_lib =
  nfc :: "string \<Rightarrow> string"
  print_table :: "rune \<Rightarrow> bool"

text \<open>
  Normal Form C: normalising keeps valid UTF-8 valid, leaves ASCII alone, and a white-space-trimmed
  piece of a normalised string is already normalised (the form is closed under substrings).
\<close>

definition nfc_laws :: "text_lib \<Rightarrow> bool" where
  "nfc_laws T \<longleftrightarrow>
     (\<forall>s. valid_utf8 s \<longrightarrow> valid_utf8 (nfc T s))
     \<and> (\<forall>s. is_ascii s \<longrightarrow> nfc T s = s)
     \<and> (\<forall>s. nfc T (trim_space (nfc T s)) = trim_space (nfc T s))"

subsection \<open>Canonical text\<close>

definition canonicalizeNewlines :: "string \<Rightarrow> string" where
  "canonicalizeNewlines s =
     replace1 (CHR 0x0D) [CHR 0x0A]
       (replace2 (CHR 0x0D) (CHR 0x0A) [CHR 0x0A] s)"

datatype domain_error =
  ErrMessageTextEmpty | ErrInvalidMessageText | ErrInvalidMessageQuery | ErrInvalidRoomName
  | ErrInvalidRoomNameQuery | ErrInvalidHandle | ErrInvalidMailAddress
  | ErrUnknownRoomStatus | ErrUnknownUserStatus | ErrUnknownMembershipRole
  | ErrRefZeroID | ErrRefZeroCode | ErrRefBlankName | ErrRefLongName

definition isBidiControl :: "rune \<Rightarrow> bool" where
  "isBidiControl r \<longleftrightarrow> (8234 \<le> r \<and> r \<le> 8238) \<or> (8294 \<le> r \<and> r \<le> 8297)"

definition isMessageTextRune :: "rune \<Rightarrow> bool" where
  "isMessageTextRune r \<longleftrightarrow>
     (if r = 10 \<or> r = 9 then True else if is_control r then False else \<not> isBidiControl r)"

definition MaxMessageTextBytes :: nat where "MaxMessageTextBytes = 4 * 1024"

datatype message_text = MessageText (text_string: string)

definition NewMessageText :: "text_lib \<Rightarrow> string \<Rightarrow> (domain_error, message_text) result" where
  "NewMessageText T raw =
     (if \<not> valid_utf8 raw then Err ErrInvalidMessageText
      else let text = trim_space (nfc T (canonicalizeNewlines raw))
           in if text = [] then Err ErrMessageTextEmpty
              else if length text > MaxMessageTextBytes then Err ErrInvalidMessageText
              else if \<not> list_all (\<lambda>p. isMessageTextRune (fst p)) (runes text)
                then Err ErrInvalidMessageText
              else Ok (MessageText text))"

definition MaxMessageQueryBytes :: nat where "MaxMessageQueryBytes = 256"

datatype message_query = MessageQuery (mquery_string: string)

definition NewMessageQuery :: "text_lib \<Rightarrow> string \<Rightarrow> (domain_error, message_query) result" where
  "NewMessageQuery T raw =
     (let trimmed = trim_space (nfc T (canonicalizeNewlines raw))
      in if trimmed = [] \<or> length trimmed > MaxMessageQueryBytes \<or> \<not> valid_utf8 trimmed
           then Err ErrInvalidMessageQuery
         else if \<not> list_all (\<lambda>p. isMessageTextRune (fst p)) (runes trimmed)
           then Err ErrInvalidMessageQuery
         else Ok (MessageQuery trimmed))"

definition mquery_is_zero :: "message_query \<Rightarrow> bool" where
  "mquery_is_zero q \<longleftrightarrow> mquery_string q = []"

text \<open>\<open>unicode.IsPrint\<close>: the Latin-1 property table, and the range table above it.\<close>

definition is_print :: "text_lib \<Rightarrow> rune \<Rightarrow> bool" where
  "is_print T r \<longleftrightarrow>
     (if r \<le> 255 then (32 \<le> r \<and> r \<le> 126) \<or> (161 \<le> r \<and> r \<noteq> 173) else print_table T r)"

definition isRoomNameRune :: "text_lib \<Rightarrow> rune \<Rightarrow> bool" where
  "isRoomNameRune T r \<longleftrightarrow>
     (if is_control r \<or> r = 8232 \<or> r = 8233 then False else is_print T r \<or> is_space r)"

definition MaxRoomNameBytes :: nat where "MaxRoomNameBytes = 64"

datatype room_name = RoomName (name_string: string)

definition NewRoomName :: "text_lib \<Rightarrow> string \<Rightarrow> (domain_error, room_name) result" where
  "NewRoomName T raw =
     (let trimmed = trim_space (nfc T raw)
      in if trimmed = [] \<or> length trimmed > MaxRoomNameBytes \<or> \<not> valid_utf8 trimmed
           then Err ErrInvalidRoomName
         else if \<not> list_all (\<lambda>p. isRoomNameRune T (fst p)) (runes trimmed)
           then Err ErrInvalidRoomName
         else Ok (RoomName trimmed))"

datatype room_name_query = RoomNameQuery (rquery_string: string)

definition NewRoomNameQuery :: "text_lib \<Rightarrow> string \<Rightarrow> (domain_error, room_name_query) result" where
  "NewRoomNameQuery T raw =
     (let trimmed = trim_space (nfc T raw)
      in if trimmed = [] \<or> length trimmed > MaxRoomNameBytes \<or> \<not> valid_utf8 trimmed
           then Err ErrInvalidRoomNameQuery
         else if \<not> list_all (\<lambda>p. isRoomNameRune T (fst p)) (runes trimmed)
           then Err ErrInvalidRoomNameQuery
         else Ok (RoomNameQuery trimmed))"

definition rquery_is_zero :: "room_name_query \<Rightarrow> bool" where
  "rquery_is_zero q \<longleftrightarrow> rquery_string q = []"

subsection \<open>Handles and mail addresses\<close>

definition minHandleLen :: nat where "minHandleLen = 3"
definition maxHandleLen :: nat where "maxHandleLen = 30"

definition isHandleChar :: "rune \<Rightarrow> bool" where
  "isHandleChar r \<longleftrightarrow>
     (97 \<le> r \<and> r \<le> 122) \<or> (65 \<le> r \<and> r \<le> 90) \<or> (48 \<le> r \<and> r \<le> 57) \<or> r = 95"

datatype handle = Handle (handle_display: string)

definition NewHandle :: "text_lib \<Rightarrow> string \<Rightarrow> (domain_error, handle) result" where
  "NewHandle T raw =
     (let trimmed = trim_space (nfc T raw)
      in if length trimmed < minHandleLen \<or> length trimmed > maxHandleLen then Err ErrInvalidHandle
         else if \<not> list_all (\<lambda>p. isHandleChar (fst p)) (runes trimmed) then Err ErrInvalidHandle
         else Ok (Handle trimmed))"

definition handle_normalized :: "handle \<Rightarrow> string" where
  "handle_normalized h = to_lower_ascii (handle_display h)"

definition MaxMailAddressBytes :: nat where "MaxMailAddressBytes = 254"
definition maxMailLocalPartBytes :: nat where "maxMailLocalPartBytes = 64"
definition maxMailDomainLabelBytes :: nat where "maxMailDomainLabelBytes = 63"

definition is_alnum :: "char \<Rightarrow> bool" where
  "is_alnum c \<longleftrightarrow> (65 \<le> byte_of c \<and> byte_of c \<le> 90) \<or> (97 \<le> byte_of c \<and> byte_of c \<le> 122)
     \<or> (48 \<le> byte_of c \<and> byte_of c \<le> 57)"

definition mail_specials :: string where
  "mail_specials = ''!#$%&'' @ [CHR 0x27] @ ''*+-/=?^_'' @ [CHR 0x60] @ ''{|}~''"

definition isMailAtext :: "char \<Rightarrow> bool" where
  "isMailAtext b \<longleftrightarrow> is_alnum b \<or> b \<in> set mail_specials"

definition isValidMailLocalPart :: "string \<Rightarrow> bool" where
  "isValidMailLocalPart s \<longleftrightarrow>
     s \<noteq> [] \<and> length s \<le> maxMailLocalPartBytes
     \<and> list_all (\<lambda>atom. atom \<noteq> [] \<and> list_all isMailAtext atom) (split_on CHR ''.'' s)"

definition label_ok :: "string \<Rightarrow> bool" where
  "label_ok label \<longleftrightarrow>
     label \<noteq> [] \<and> length label \<le> maxMailDomainLabelBytes
     \<and> list_all (\<lambda>i. is_alnum (label ! i)
          \<or> (label ! i = CHR ''-'' \<and> i \<noteq> 0 \<and> i \<noteq> length label - 1)) [0..<length label]"

definition isValidMailDomain :: "string \<Rightarrow> bool" where
  "isValidMailDomain s \<longleftrightarrow> s \<noteq> [] \<and> list_all label_ok (split_on CHR ''.'' s)"

text \<open>\<open>strings.LastIndexByte\<close> and the two slices around the match.\<close>

fun split_last :: "char \<Rightarrow> string \<Rightarrow> (string \<times> string) option" where
  "split_last a [] = None"
| "split_last a (c # cs) =
     (case split_last a cs of
        Some (l, r) \<Rightarrow> Some (c # l, r)
      | None \<Rightarrow> if c = a then Some ([], cs) else None)"

datatype mail_address = MailAddress (mail_string: string)

definition NewMailAddress :: "text_lib \<Rightarrow> string \<Rightarrow> (domain_error, mail_address) result" where
  "NewMailAddress T raw =
     (let trimmed = trim_space (nfc T raw)
      in if trimmed = [] \<or> length trimmed > MaxMailAddressBytes then Err ErrInvalidMailAddress
         else case split_last CHR ''@'' trimmed of
                None \<Rightarrow> Err ErrInvalidMailAddress
              | Some (l, d) \<Rightarrow>
                  if \<not> isValidMailLocalPart l \<or> \<not> isValidMailDomain d
                    then Err ErrInvalidMailAddress
                  else Ok (MailAddress (to_lower_ascii trimmed)))"

subsection \<open>Statuses and roles\<close>

datatype room_status = RoomStatusActive | RoomStatusArchived
datatype user_status = UserStatusPending | UserStatusActive | UserStatusDisabled
datatype membership_role = MembershipRoleOwner | MembershipRoleAdmin | MembershipRoleMember

fun room_status_label :: "room_status \<Rightarrow> string" where
  "room_status_label RoomStatusActive = ''active''"
| "room_status_label RoomStatusArchived = ''archived''"

definition ParseRoomStatus :: "string \<Rightarrow> (domain_error, room_status) result" where
  "ParseRoomStatus raw =
     (if raw = ''active'' then Ok RoomStatusActive
      else if raw = ''archived'' then Ok RoomStatusArchived
      else Err ErrUnknownRoomStatus)"

fun user_status_label :: "user_status \<Rightarrow> string" where
  "user_status_label UserStatusPending = ''pending''"
| "user_status_label UserStatusActive = ''active''"
| "user_status_label UserStatusDisabled = ''disabled''"

definition ParseUserStatus :: "string \<Rightarrow> (domain_error, user_status) result" where
  "ParseUserStatus raw =
     (if raw = ''pending'' then Ok UserStatusPending
      else if raw = ''active'' then Ok UserStatusActive
      else if raw = ''disabled'' then Ok UserStatusDisabled
      else Err ErrUnknownUserStatus)"

fun role_label :: "membership_role \<Rightarrow> string" where
  "role_label MembershipRoleOwner = ''owner''"
| "role_label MembershipRoleAdmin = ''admin''"
| "role_label MembershipRoleMember = ''member''"

definition ParseMembershipRole :: "string \<Rightarrow> (domain_error, membership_role) result" where
  "ParseMembershipRole raw =
     (if raw = ''owner'' then Ok MembershipRoleOwner
      else if raw = ''admin'' then Ok MembershipRoleAdmin
      else if raw = ''member'' then Ok MembershipRoleMember
      else Err ErrUnknownMembershipRole)"

definition CanSetRole :: "membership_role \<Rightarrow> membership_role \<Rightarrow> membership_role \<Rightarrow> bool" where
  "CanSetRole actorRole targetRole newRole =
     (if targetRole = MembershipRoleOwner \<or> newRole = MembershipRoleOwner then False
      else actorRole = MembershipRoleOwner \<or> actorRole = MembershipRoleAdmin)"

definition CanTransferOwnership :: "membership_role \<Rightarrow> bool" where
  "CanTransferOwnership actorRole \<longleftrightarrow> actorRole = MembershipRoleOwner"

subsection \<open>References\<close>

record room_ref =
  rr_id :: room_id
  rr_code :: public_code
  rr_name :: string
  rr_status :: room_status
  rr_version :: int

text \<open>\<open>RoomRefParams\<close>; its status is a Go string type and is parsed by the constructor.\<close>

record room_ref_params =
  rp_id :: room_id
  rp_code :: public_code
  rp_name :: string
  rp_status :: string
  rp_version :: int

definition NewRoomRef :: "text_lib \<Rightarrow> room_ref_params \<Rightarrow> (domain_error, room_ref) result" where
  "NewRoomRef T p =
     (if room_is_zero (rp_id p) then Err ErrRefZeroID
      else if code_is_zero (rp_code p) then Err ErrRefZeroCode
      else case ParseRoomStatus (rp_status p) of
             Inl e \<Rightarrow> Err e
           | Inr st \<Rightarrow>
               (let name = trim_space (nfc T (rp_name p))
                in if name = [] then Err ErrRefBlankName
                   else if length name > MaxRoomNameBytes then Err ErrRefLongName
                   else Ok \<lparr>rr_id = rp_id p, rr_code = rp_code p, rr_name = name,
                            rr_status = st, rr_version = rp_version p\<rparr>))"

definition maxUserNameBytes :: nat where "maxUserNameBytes = 256"

record user_ref =
  ur_id :: user_id
  ur_code :: public_code
  ur_name :: string

definition NewUserRef ::
  "text_lib \<Rightarrow> user_id \<Rightarrow> public_code \<Rightarrow> string \<Rightarrow> (domain_error, user_ref) result" where
  "NewUserRef T userID publicCode name =
     (if user_is_zero userID then Err ErrRefZeroID
      else if code_is_zero publicCode then Err ErrRefZeroCode
      else let trimmed = trim_space (nfc T name)
           in if trimmed = [] then Err ErrRefBlankName
              else if length trimmed > maxUserNameBytes then Err ErrRefLongName
              else Ok \<lparr>ur_id = userID, ur_code = publicCode, ur_name = trimmed\<rparr>)"

definition room_public_id :: "room_ref \<Rightarrow> string" where
  "room_public_id r = FormatRoom (rr_code r)"

definition user_public_id :: "user_ref \<Rightarrow> string" where
  "user_public_id u = FormatUser (ur_code u)"

subsection \<open>Facts about canonical text\<close>

lemma nfc_lawsD:
  assumes "nfc_laws T"
  shows "valid_utf8 s \<Longrightarrow> valid_utf8 (nfc T s)" and "is_ascii s \<Longrightarrow> nfc T s = s"
    and "nfc T (trim_space (nfc T s)) = trim_space (nfc T s)"
  using assms by (auto simp: nfc_laws_def)

lemma valid_utf8_canonicalizeNewlines: "valid_utf8 s \<Longrightarrow> valid_utf8 (canonicalizeNewlines s)"
  by (simp add: canonicalizeNewlines_def valid_utf8_replace1 valid_utf8_replace2)

lemma canonicalizeNewlines_id: "CHR 0x0D \<notin> set s \<Longrightarrow> canonicalizeNewlines s = s"
  by (simp add: canonicalizeNewlines_def replace1_id replace2_id)

lemma message_runes_no_cr:
  assumes "list_all (\<lambda>p. isMessageTextRune (fst p)) (runes s)"
  shows "CHR 0x0D \<notin> set s"
proof
  assume "CHR 0x0D \<in> set s"
  then have "(13, [CHR 0x0D]) \<in> set (runes s)" using ascii_byte_rune by fastforce
  then have "isMessageTextRune 13" using assms by (force simp: list_all_iff)
  then show False by (simp add: isMessageTextRune_def is_control_def)
qed

lemma NewMessageText_OkD:
  assumes "NewMessageText T raw = Ok t"
  shows "valid_utf8 raw" and "text_string t = trim_space (nfc T (canonicalizeNewlines raw))"
    and "text_string t \<noteq> []" and "length (text_string t) \<le> MaxMessageTextBytes"
    and "list_all (\<lambda>p. isMessageTextRune (fst p)) (runes (text_string t))"
  using assms by (auto simp: NewMessageText_def Let_def split: if_splits)

text \<open>Case-insensitive parsing: the grammar of a mail address does not see case.\<close>

lemma to_lower_char_eq_iff:
  "byte_of a < 65 \<Longrightarrow> to_lower_char c = a \<longleftrightarrow> c = a"
  "to_lower_char c = CHR ''@'' \<longleftrightarrow> c = CHR ''@''"
proof -
  have inj: "byte_of x = byte_of y \<longleftrightarrow> x = y" for x y :: char by simp
  show "byte_of a < 65 \<Longrightarrow> to_lower_char c = a \<longleftrightarrow> c = a"
    unfolding inj [symmetric] byte_to_lower_char by auto
  show "to_lower_char c = CHR ''@'' \<longleftrightarrow> c = CHR ''@''"
    unfolding inj [symmetric] byte_to_lower_char by auto
qed

lemma split_on_to_lower:
  "split_on CHR ''.'' (map to_lower_char s) = map (map to_lower_char) (split_on CHR ''.'' s)"
  by (induction s) (auto simp: to_lower_char_eq_iff split: list.splits)

lemma split_last_to_lower:
  "split_last CHR ''@'' (map to_lower_char s) =
     map_option (map_prod (map to_lower_char) (map to_lower_char)) (split_last CHR ''@'' s)"
  by (induction s) (auto simp: to_lower_char_eq_iff split: option.splits)

lemma is_alnum_to_lower [simp]: "is_alnum (to_lower_char c) \<longleftrightarrow> is_alnum c"
  by (auto simp: is_alnum_def byte_to_lower_char)

lemma mail_specials_fixed:
  "list_all (\<lambda>c. byte_of c < 128 \<and> \<not> (65 \<le> byte_of c \<and> byte_of c \<le> 90)
     \<and> \<not> (97 \<le> byte_of c \<and> byte_of c \<le> 122) \<and> \<not> is_space (byte_of c)) mail_specials"
  by (simp add: mail_specials_def is_space_def)

lemma isMailAtext_to_lower [simp]: "isMailAtext (to_lower_char c) \<longleftrightarrow> isMailAtext c"
proof (cases "65 \<le> byte_of c \<and> byte_of c \<le> 90")
  case True
  then show ?thesis by (auto simp: isMailAtext_def is_alnum_def byte_to_lower_char)
next
  case False
  then have "to_lower_char c = c" by (auto simp: to_lower_char_def)
  then show ?thesis by simp
qed

lemma isValidMailLocalPart_to_lower:
  "isValidMailLocalPart (map to_lower_char s) \<longleftrightarrow> isValidMailLocalPart s"
  by (auto simp: isValidMailLocalPart_def split_on_to_lower list_all_iff)

lemma label_ok_to_lower: "label_ok (map to_lower_char s) \<longleftrightarrow> label_ok s"
  by (auto simp: label_ok_def list_all_iff to_lower_char_eq_iff)

lemma isValidMailDomain_to_lower:
  "isValidMailDomain (map to_lower_char s) \<longleftrightarrow> isValidMailDomain s"
  by (auto simp: isValidMailDomain_def split_on_to_lower list_all_iff label_ok_to_lower)

lemma split_on_covers: "x \<in> set s \<Longrightarrow> x = a \<or> (\<exists>w \<in> set (split_on a s). x \<in> set w)"
proof (induction s)
  case Nil
  then show ?case by simp
next
  case (Cons c cs)
  then show ?case by (cases "split_on a cs") auto
qed

lemma split_last_Some: "split_last a s = Some (l, d) \<Longrightarrow> s = l @ a # d"
  by (induction s arbitrary: l d) (auto split: option.splits if_splits)

text \<open>Bytes an accepted address can hold.\<close>

definition mail_byte :: "char \<Rightarrow> bool" where
  "mail_byte c \<longleftrightarrow> byte_of c < 128 \<and> \<not> is_space (byte_of c)"

lemma is_alnum_mail_byte: "is_alnum c \<Longrightarrow> mail_byte c"
  by (auto simp: is_alnum_def mail_byte_def is_space_def)

lemma isMailAtext_mail_byte: "isMailAtext c \<Longrightarrow> mail_byte c"
  using mail_specials_fixed is_alnum_mail_byte
  by (auto simp: isMailAtext_def mail_byte_def list_all_iff)

lemma separators_mail_byte: "mail_byte CHR ''.''" "mail_byte CHR ''-''" "mail_byte CHR ''@''"
  by (simp_all add: mail_byte_def is_space_def)

lemma local_part_bytes: "isValidMailLocalPart l \<Longrightarrow> c \<in> set l \<Longrightarrow> mail_byte c"
  using split_on_covers [of c l "CHR ''.''"] isMailAtext_mail_byte separators_mail_byte
  by (auto simp: isValidMailLocalPart_def list_all_iff)

lemma label_bytes:
  assumes "label_ok w" and "c \<in> set w"
  shows "mail_byte c"
proof -
  obtain i where "i < length w" "c = w ! i" using assms(2) by (auto simp: in_set_conv_nth)
  then have "is_alnum c \<or> c = CHR ''-''" using assms(1) by (auto simp: label_ok_def list_all_iff)
  then show ?thesis using is_alnum_mail_byte separators_mail_byte by blast
qed

lemma domain_bytes: "isValidMailDomain d \<Longrightarrow> c \<in> set d \<Longrightarrow> mail_byte c"
  using split_on_covers [of c d "CHR ''.''"] label_bytes separators_mail_byte
  by (auto simp: isValidMailDomain_def list_all_iff)

lemma mail_byte_to_lower: "mail_byte c \<Longrightarrow> mail_byte (to_lower_char c)"
  using is_alnum_mail_byte [of "to_lower_char c"]
  by (cases "65 \<le> byte_of c \<and> byte_of c \<le> 90") (auto simp: to_lower_char_def is_alnum_def)

lemma NewMailAddress_OkD:
  assumes "NewMailAddress T raw = Ok m"
  obtains t l d where "t = trim_space (nfc T raw)" and "split_last CHR ''@'' t = Some (l, d)"
    and "isValidMailLocalPart l" and "isValidMailDomain d" and "t \<noteq> []"
    and "length t \<le> MaxMailAddressBytes" and "m = MailAddress (to_lower_ascii t)"
  using assms by (auto simp: NewMailAddress_def Let_def split: if_splits option.splits)

lemma NewHandle_OkD:
  assumes "NewHandle T raw = Ok h"
  shows "handle_display h = trim_space (nfc T raw)"
    and "minHandleLen \<le> length (handle_display h)" and "length (handle_display h) \<le> maxHandleLen"
    and "list_all (\<lambda>p. isHandleChar (fst p)) (runes (handle_display h))"
  using assms by (auto simp: NewHandle_def Let_def split: if_splits)

lemma handle_chars:
  assumes "NewHandle T raw = Ok h"
  shows "is_ascii (handle_display h)" and "c \<in> set (handle_display h) \<Longrightarrow> isHandleChar (byte_of c)"
proof -
  show a: "is_ascii (handle_display h)"
    using NewHandle_OkD(4) [OF assms]
    by (intro runes_small_ascii) (auto simp: list_all_iff isHandleChar_def)
  show "c \<in> set (handle_display h) \<Longrightarrow> isHandleChar (byte_of c)"
    using NewHandle_OkD(4) [OF assms] a by (auto simp: list_all_iff runes_ascii)
qed

subsection \<open>Facts about references\<close>

lemma ParseRoomStatus_label [simp]: "ParseRoomStatus (room_status_label st) = Ok st"
  by (cases st) (simp_all add: ParseRoomStatus_def)

lemma ParseMembershipRole_label [simp]: "ParseMembershipRole (role_label r) = Ok r"
  by (cases r) (simp_all add: ParseMembershipRole_def)

lemma ParseUserStatus_label [simp]: "ParseUserStatus (user_status_label st) = Ok st"
  by (cases st) (simp_all add: ParseUserStatus_def)

text \<open>The references a constructor can return from a positive id and a canonical code.\<close>

definition valid_user_ref :: "text_lib \<Rightarrow> user_ref \<Rightarrow> bool" where
  "valid_user_ref T u \<longleftrightarrow>
     0 < user_int64 (ur_id u) \<and> user_int64 (ur_id u) \<le> max_int64 \<and> valid_code (ur_code u)
     \<and> ur_name u \<noteq> [] \<and> length (ur_name u) \<le> maxUserNameBytes
     \<and> trim_space (nfc T (ur_name u)) = ur_name u"

definition valid_room_ref :: "text_lib \<Rightarrow> room_ref \<Rightarrow> bool" where
  "valid_room_ref T r \<longleftrightarrow>
     0 < room_int64 (rr_id r) \<and> room_int64 (rr_id r) \<le> max_int64 \<and> valid_code (rr_code r)
     \<and> rr_name r \<noteq> [] \<and> length (rr_name r) \<le> MaxRoomNameBytes
     \<and> trim_space (nfc T (rr_name r)) = rr_name r"

lemma NewUserRef_OkD:
  assumes "NewUserRef T u c n = Ok ref"
  shows "ur_id ref = u" "ur_code ref = c" "ur_name ref = trim_space (nfc T n)" "ur_name ref \<noteq> []"
    "length (ur_name ref) \<le> maxUserNameBytes"
  using assms by (auto simp: NewUserRef_def Let_def split: if_splits)

lemma NewUserRef_valid:
  assumes "nfc_laws T" and "NewUserRef T u c n = Ok ref"
    and "0 < user_int64 u" "user_int64 u \<le> max_int64" and "valid_code c"
  shows "valid_user_ref T ref"
  using assms NewUserRef_OkD [OF assms(2)] nfc_lawsD(3) [OF assms(1)]
  by (auto simp: valid_user_ref_def)

lemma NewUserRef_again:
  "valid_user_ref T u \<Longrightarrow> NewUserRef T (ur_id u) (ur_code u) (ur_name u) = Ok u"
  using valid_code_not_zero [of "ur_code u"]
  by (auto simp: NewUserRef_def valid_user_ref_def user_is_zero_def Let_def)

lemma NewRoomRef_OkD:
  assumes "NewRoomRef T p = Ok ref"
  shows "rr_id ref = rp_id p" "rr_code ref = rp_code p" "rr_name ref = trim_space (nfc T (rp_name p))"
    "rr_name ref \<noteq> []" "length (rr_name ref) \<le> MaxRoomNameBytes"
    "ParseRoomStatus (rp_status p) = Ok (rr_status ref)" "rr_version ref = rp_version p"
  using assms by (auto simp: NewRoomRef_def Let_def split: if_splits sum.splits)

lemma NewRoomRef_valid:
  assumes "nfc_laws T" and "NewRoomRef T p = Ok ref"
    and "0 < room_int64 (rp_id p)" "room_int64 (rp_id p) \<le> max_int64" and "valid_code (rp_code p)"
  shows "valid_room_ref T ref"
  using assms NewRoomRef_OkD [OF assms(2)] nfc_lawsD(3) [OF assms(1)]
  by (auto simp: valid_room_ref_def)

lemma NewRoomRef_again:
  "valid_room_ref T r \<Longrightarrow>
     NewRoomRef T \<lparr>rp_id = rr_id r, rp_code = rr_code r, rp_name = rr_name r,
       rp_status = room_status_label (rr_status r), rp_version = rr_version r\<rparr> = Ok r"
  using valid_code_not_zero [of "rr_code r"]
  by (auto simp: NewRoomRef_def valid_room_ref_def room_is_zero_def Let_def)

subsection \<open>Properties\<close>

text \<open>An instance of the text library for the witnesses: every text is already in normal form.\<close>

definition plain_text_lib :: text_lib where
  "plain_text_lib = \<lparr>nfc = (\<lambda>s. s), print_table = (\<lambda>_. True)\<rparr>"

lemma plain_nfc_laws: "nfc_laws plain_text_lib"
  by (simp add: nfc_laws_def plain_text_lib_def)

text \<open>
  An accepted message body is canonical: it is non-empty, at most 4096 bytes of valid UTF-8, free
  of control characters other than newline and tab and of bidi controls, and parsing it again (as the
  Room grain does with what the gateway already parsed) returns it unchanged.
\<close>

theorem NewMessageText_canonical:
  assumes "nfc_laws T" and "NewMessageText T raw = Ok t"
  shows "text_string t \<noteq> [] \<and> length (text_string t) \<le> MaxMessageTextBytes
    \<and> valid_utf8 (text_string t)
    \<and> list_all (\<lambda>p. isMessageTextRune (fst p)) (runes (text_string t))
    \<and> NewMessageText T (text_string t) = Ok t"
proof -
  note d = NewMessageText_OkD [OF assms(2)]
  have valid: "valid_utf8 (text_string t)"
    unfolding d(2)
    by (intro valid_utf8_trim_space nfc_lawsD(1) [OF assms(1)] valid_utf8_canonicalizeNewlines d(1))
  have "canonicalizeNewlines (text_string t) = text_string t"
    by (intro canonicalizeNewlines_id message_runes_no_cr d(5))
  moreover have "nfc T (text_string t) = text_string t"
    unfolding d(2) by (rule nfc_lawsD(3) [OF assms(1)])
  moreover have "trim_space (text_string t) = text_string t" unfolding d(2) by simp
  ultimately have "NewMessageText T (text_string t) = Ok t"
    using d(1,3-5) valid by (simp add: NewMessageText_def)
  then show ?thesis using d valid by simp
qed

lemma demo_text: "NewMessageText plain_text_lib ''hi '' = Ok (MessageText ''hi'')"
  by (simp add: NewMessageText_def plain_text_lib_def canonicalizeNewlines_def valid_utf8_ascii
      trim_space_def trim_segs_def runes_ascii is_space_def MaxMessageTextBytes_def
      isMessageTextRune_def is_control_def isBidiControl_def del: runes.simps)

theorem NewMessageText_canonical_witness:
  "text_string (MessageText ''hi'') \<noteq> [] \<and> length (text_string (MessageText ''hi'')) \<le> MaxMessageTextBytes
    \<and> valid_utf8 (text_string (MessageText ''hi''))
    \<and> list_all (\<lambda>p. isMessageTextRune (fst p)) (runes (text_string (MessageText ''hi'')))
    \<and> NewMessageText plain_text_lib (text_string (MessageText ''hi'')) = Ok (MessageText ''hi'')"
  by (rule NewMessageText_canonical [OF plain_nfc_laws demo_text])

text \<open>
  A mail address is one identity whatever its casing: an accepted address is stored as
  lower-case ASCII of at most 254 bytes without white space, parsing the stored form gives the same
  address, and an ASCII input and its lower-cased form parse alike.
\<close>

theorem NewMailAddress_canonical:
  assumes "nfc_laws T" and "NewMailAddress T raw = Ok m"
  shows "is_ascii (mail_string m) \<and> to_lower_ascii (mail_string m) = mail_string m
    \<and> length (mail_string m) \<le> MaxMailAddressBytes \<and> list_all mail_byte (mail_string m)
    \<and> NewMailAddress T (mail_string m) = Ok m
    \<and> NewMailAddress T (to_lower_ascii (trim_space (nfc T raw))) = Ok m"
proof -
  obtain t l d where t: "t = trim_space (nfc T raw)" and sp: "split_last CHR ''@'' t = Some (l, d)"
    and l: "isValidMailLocalPart l" and d: "isValidMailDomain d" and ne: "t \<noteq> []"
    and len: "length t \<le> MaxMailAddressBytes" and m: "m = MailAddress (to_lower_ascii t)"
    using assms(2) by (rule NewMailAddress_OkD)
  have bytes: "mail_byte c" if "c \<in> set t" for c
    using that split_last_Some [OF sp] local_part_bytes [OF l] domain_bytes [OF d]
      separators_mail_byte by auto
  then have low: "mail_byte c" if "c \<in> set (to_lower_ascii t)" for c
    using that mail_byte_to_lower by (auto simp: to_lower_ascii_def)
  then have asc: "is_ascii (to_lower_ascii t)" by (auto simp: is_ascii_def list_all_iff mail_byte_def)
  then have tr: "trim_space (to_lower_ascii t) = to_lower_ascii t"
    using low by (intro trim_space_ascii_id) (auto simp: mail_byte_def)
  have "NewMailAddress T (to_lower_ascii t) = Ok m"
    using sp l d ne len
    by (simp add: NewMailAddress_def nfc_lawsD(2) [OF assms(1) asc] tr m)
       (simp add: to_lower_ascii_def split_last_to_lower isValidMailLocalPart_to_lower
          isValidMailDomain_to_lower)
  then show ?thesis using asc len low by (auto simp: m t [symmetric] list_all_iff)
qed

lemma demo_mail: "NewMailAddress plain_text_lib ''Al@x.io'' = Ok (MailAddress ''al@x.io'')"
  by (simp add: NewMailAddress_def plain_text_lib_def trim_space_ascii_id is_space_def MaxMailAddressBytes_def isValidMailLocalPart_def maxMailLocalPartBytes_def
      isMailAtext_def is_alnum_def isValidMailDomain_def label_ok_def maxMailDomainLabelBytes_def
      to_lower_ascii_def to_lower_char_def char_of_eq_iff)

theorem NewMailAddress_canonical_witness:
  "is_ascii (mail_string (MailAddress ''al@x.io''))
    \<and> to_lower_ascii (mail_string (MailAddress ''al@x.io'')) = mail_string (MailAddress ''al@x.io'')
    \<and> length (mail_string (MailAddress ''al@x.io'')) \<le> MaxMailAddressBytes
    \<and> list_all mail_byte (mail_string (MailAddress ''al@x.io''))
    \<and> NewMailAddress plain_text_lib (mail_string (MailAddress ''al@x.io''))
        = Ok (MailAddress ''al@x.io'')
    \<and> NewMailAddress plain_text_lib (to_lower_ascii (trim_space (nfc plain_text_lib ''Al@x.io'')))
        = Ok (MailAddress ''al@x.io'')"
  by (rule NewMailAddress_canonical [OF plain_nfc_laws demo_mail])

text \<open>
  An accepted handle has 3 to 30 ASCII letters, digits and underscores and is its own parse; its
  uniqueness key is lower-case and accepted as a handle too.
\<close>

theorem NewHandle_canonical:
  assumes "nfc_laws T" and "NewHandle T raw = Ok h"
  shows "3 \<le> length (handle_display h) \<and> length (handle_display h) \<le> 30
    \<and> list_all (\<lambda>c. isHandleChar (byte_of c)) (handle_display h)
    \<and> NewHandle T (handle_display h) = Ok h
    \<and> NewHandle T (handle_normalized h) = Ok (Handle (handle_normalized h))
    \<and> to_lower_ascii (handle_normalized h) = handle_normalized h"
proof -
  have ok: "NewHandle T s = Ok (Handle s)"
    if "3 \<le> length s" "length s \<le> 30" "\<forall>c \<in> set s. isHandleChar (byte_of c)" for s
  proof -
    have a: "is_ascii s" using that by (auto simp: is_ascii_def list_all_iff isHandleChar_def)
    then have "trim_space s = s"
      using that by (intro trim_space_ascii_id) (auto simp: isHandleChar_def is_space_def)
    then show ?thesis using that a
      by (auto simp: NewHandle_def Let_def nfc_lawsD(2) [OF assms(1) a] runes_ascii list_all_iff
          minHandleLen_def maxHandleLen_def)
  qed
  have len: "3 \<le> length (handle_display h)" "length (handle_display h) \<le> 30"
    using NewHandle_OkD(2,3) [OF assms(2)] by (auto simp: minHandleLen_def maxHandleLen_def)
  have chars: "\<forall>c \<in> set (handle_display h). isHandleChar (byte_of c)"
    using handle_chars(2) [OF assms(2)] by blast
  then have "\<forall>c \<in> set (handle_normalized h). isHandleChar (byte_of c)"
    by (fastforce simp: handle_normalized_def to_lower_ascii_def isHandleChar_def byte_to_lower_char)
  then have "NewHandle T (handle_normalized h) = Ok (Handle (handle_normalized h))"
    using len by (intro ok) (auto simp: handle_normalized_def)
  then show ?thesis using len chars ok [of "handle_display h"]
    by (auto simp: list_all_iff handle_normalized_def)
qed

lemma demo_handle: "NewHandle plain_text_lib ''Bob_1'' = Ok (Handle ''Bob_1'')"
  by (simp add: NewHandle_def plain_text_lib_def trim_space_ascii_id runes_ascii is_space_def
      minHandleLen_def maxHandleLen_def isHandleChar_def del: runes.simps)

theorem NewHandle_canonical_witness:
  "3 \<le> length (handle_display (Handle ''Bob_1'')) \<and> length (handle_display (Handle ''Bob_1'')) \<le> 30
    \<and> list_all (\<lambda>c. isHandleChar (byte_of c)) (handle_display (Handle ''Bob_1''))
    \<and> NewHandle plain_text_lib (handle_display (Handle ''Bob_1'')) = Ok (Handle ''Bob_1'')
    \<and> NewHandle plain_text_lib (handle_normalized (Handle ''Bob_1''))
        = Ok (Handle (handle_normalized (Handle ''Bob_1'')))
    \<and> to_lower_ascii (handle_normalized (Handle ''Bob_1'')) = handle_normalized (Handle ''Bob_1'')"
  by (rule NewHandle_canonical [OF plain_nfc_laws demo_handle])

end
