(* ===== verification/ErrCode.thy ===== *)
theory ErrCode
  imports GoPrelude
begin

text \<open>
  The package \<open>internal/errcode\<close>: numeric error codes (an \<open>int32\<close>, here \<open>int\<close>) paired with their
  canonical status strings, and the parser every grain applies to an error received from another
  one. \<open>error_detail\<close> is the wire message \<open>common.ErrorDetail\<close> that carries the pair.
\<close>

type_synonym code = int

definition AuthInvalidToken :: code where "AuthInvalidToken = 1001"
definition AuthExpiredToken :: code where "AuthExpiredToken = 1002"
definition AuthMissingToken :: code where "AuthMissingToken = 1003"
definition AuthAccountPending :: code where "AuthAccountPending = 1004"
definition RoomNotMember :: code where "RoomNotMember = 2001"
definition RoomAlreadyMember :: code where "RoomAlreadyMember = 2002"
definition RoomNotFound :: code where "RoomNotFound = 2003"
definition RoomOwnerCannotLeave :: code where "RoomOwnerCannotLeave = 2004"
definition RoomPermissionDenied :: code where "RoomPermissionDenied = 2005"
definition RateLimitExceeded :: code where "RateLimitExceeded = 3001"
definition VerificationRateLimited :: code where "VerificationRateLimited = 3002"
definition InvalidRequest :: code where "InvalidRequest = 4001"
definition MissingField :: code where "MissingField = 4002"
definition PayloadTooLarge :: code where "PayloadTooLarge = 4003"
definition InvalidEmail :: code where "InvalidEmail = 4004"
definition WeakPassword :: code where "WeakPassword = 4005"
definition InternalError :: code where "InternalError = 5001"
definition ServiceUnavailable :: code where "ServiceUnavailable = 5002"
definition EmailAlreadyRegistered :: code where "EmailAlreadyRegistered = 6001"
definition HandleAlreadyTaken :: code where "HandleAlreadyTaken = 6002"
definition VerificationInvalid :: code where "VerificationInvalid = 6003"

lemmas code_defs = AuthInvalidToken_def AuthExpiredToken_def AuthMissingToken_def
  AuthAccountPending_def RoomNotMember_def RoomAlreadyMember_def RoomNotFound_def
  RoomOwnerCannotLeave_def RoomPermissionDenied_def RateLimitExceeded_def
  VerificationRateLimited_def InvalidRequest_def MissingField_def PayloadTooLarge_def
  InvalidEmail_def WeakPassword_def InternalError_def ServiceUnavailable_def
  EmailAlreadyRegistered_def HandleAlreadyTaken_def VerificationInvalid_def

datatype errcode_error = ErrUnknownCode | ErrStatusMismatch

text \<open>The arms of the switch in \<open>Code.status\<close>, in their order.\<close>

definition status_table :: "(code \<times> string) list" where
  "status_table =
    [(AuthInvalidToken, ''AUTH_INVALID_TOKEN''),
     (AuthExpiredToken, ''AUTH_EXPIRED_TOKEN''),
     (AuthMissingToken, ''AUTH_MISSING_TOKEN''),
     (AuthAccountPending, ''AUTH_ACCOUNT_PENDING''),
     (RoomNotMember, ''ROOM_NOT_MEMBER''),
     (RoomAlreadyMember, ''ROOM_ALREADY_MEMBER''),
     (RoomNotFound, ''ROOM_NOT_FOUND''),
     (RoomOwnerCannotLeave, ''ROOM_OWNER_CANNOT_LEAVE''),
     (RoomPermissionDenied, ''ROOM_PERMISSION_DENIED''),
     (RateLimitExceeded, ''RATE_LIMIT_EXCEEDED''),
     (VerificationRateLimited, ''VERIFICATION_RATE_LIMITED''),
     (InvalidRequest, ''INVALID_REQUEST''),
     (MissingField, ''MISSING_FIELD''),
     (PayloadTooLarge, ''PAYLOAD_TOO_LARGE''),
     (InvalidEmail, ''INVALID_EMAIL''),
     (WeakPassword, ''WEAK_PASSWORD''),
     (InternalError, ''INTERNAL_ERROR''),
     (ServiceUnavailable, ''SERVICE_UNAVAILABLE''),
     (EmailAlreadyRegistered, ''EMAIL_ALREADY_REGISTERED''),
     (HandleAlreadyTaken, ''HANDLE_ALREADY_TAKEN''),
     (VerificationInvalid, ''VERIFICATION_INVALID'')]"

definition code_status :: "code \<Rightarrow> string option" where
  "code_status c = map_of status_table c"

definition Status :: "code \<Rightarrow> string" where
  "Status c = (case code_status c of None \<Rightarrow> ''UNKNOWN_ERROR'' | Some s \<Rightarrow> s)"

definition parse_code :: "int \<Rightarrow> string \<Rightarrow> (errcode_error, code) result" where
  "parse_code v status =
     (case code_status v of
        None \<Rightarrow> Err ErrUnknownCode
      | Some want \<Rightarrow> if status \<noteq> want then Err ErrStatusMismatch else Ok v)"

record error_detail =
  ed_code :: int
  ed_status :: string
  ed_message :: string

definition errDetail :: "code \<Rightarrow> string \<Rightarrow> error_detail" where
  "errDetail c msg = \<lparr>ed_code = c, ed_status = Status c, ed_message = msg\<rparr>"

definition known_code :: "code \<Rightarrow> bool" where
  "known_code c \<longleftrightarrow> code_status c \<noteq> None"

lemma status_table_distinct: "distinct (map fst status_table)" "distinct (map snd status_table)"
  by (simp_all add: status_table_def code_defs)

lemma parse_code_Ok_iff:
  "parse_code v s = Ok c \<longleftrightarrow> c = v \<and> code_status v = Some s"
  by (auto simp: parse_code_def split: option.splits)

lemma parse_code_Status: "known_code c \<Longrightarrow> parse_code c (Status c) = Ok c"
  by (auto simp: parse_code_Ok_iff known_code_def Status_def)

lemma known_code_room [simp]:
  "known_code RoomNotMember" "known_code RoomAlreadyMember" "known_code RoomNotFound"
  "known_code RoomOwnerCannotLeave" "known_code RoomPermissionDenied" "known_code InvalidRequest"
  "known_code MissingField" "known_code InternalError"
  by (simp_all add: known_code_def code_status_def status_table_def code_defs)

lemma errDetail_simps [simp]:
  "ed_code (errDetail c m) = c" "ed_status (errDetail c m) = Status c" "ed_message (errDetail c m) = m"
  by (simp_all add: errDetail_def)

lemma map_of_snd_inj:
  "distinct (map snd xs) \<Longrightarrow> map_of xs a = Some v \<Longrightarrow> map_of xs b = Some v \<Longrightarrow> a = b"
  by (induction xs) (auto split: if_splits dest!: map_of_SomeD simp: image_iff)

text \<open>
  The taxonomy is a bijection between the known codes and their status strings: a pair read
  from the wire is accepted exactly when it is an entry of the table, so two accepted pairs agree on
  the code whenever they agree on the status.
\<close>

theorem parse_code_bijective:
  "(parse_code v s = Ok c \<longleftrightarrow> c = v \<and> (v, s) \<in> set status_table)
   \<and> (parse_code v s = Ok c \<and> parse_code w s = Ok d \<longrightarrow> c = d)"
proof -
  have "parse_code v s = Ok c \<longleftrightarrow> c = v \<and> (v, s) \<in> set status_table" for v c
    using status_table_distinct(1) by (auto simp: parse_code_Ok_iff code_status_def)
  moreover have "c = d" if "parse_code v s = Ok c" "parse_code w s = Ok d" for d w
    using that map_of_snd_inj [OF status_table_distinct(2)]
    by (auto simp: parse_code_Ok_iff code_status_def)
  ultimately show ?thesis by blast
qed

theorem parse_code_bijective_witness:
  "parse_code RoomNotFound ''ROOM_NOT_FOUND'' = Ok RoomNotFound
   \<and> (RoomNotFound, ''ROOM_NOT_FOUND'') \<in> set status_table"
  using parse_code_bijective [of RoomNotFound "''ROOM_NOT_FOUND''" RoomNotFound RoomNotFound]
  by (simp add: status_table_def)

end
