(* ===== verification/Wire.thy ===== *)
theory Wire
  imports DomainModel ErrCode
begin

text \<open>
  The protobuf messages the grains exchange (\<open>proto/common\<close>, \<open>proto/room\<close>, \<open>proto/user\<close>) as records, and
  the conversions between them and the domain's references. A message-typed field is a pointer and may
  be nil, so it is an option; the generated getters give the zero value of a field of a nil message.
  A \<open>google.protobuf.Timestamp\<close> holds seconds and nanoseconds, so it is the instant itself.
\<close>

subsection \<open>Messages\<close>

record proto_user_ref =
  pu_id :: string
  pu_name :: string
  pu_public_code :: string

record proto_room_ref =
  pr_room_id :: string
  pr_public_code :: string
  pr_name :: string
  pr_status :: string
  pr_metadata_version :: int

definition zero_proto_user :: proto_user_ref where
  "zero_proto_user = \<lparr>pu_id = [], pu_name = [], pu_public_code = []\<rparr>"

definition zero_proto_room :: proto_room_ref where
  "zero_proto_room = \<lparr>pr_room_id = [], pr_public_code = [], pr_name = [], pr_status = [],
     pr_metadata_version = 0\<rparr>"

definition or_zero :: "'a \<Rightarrow> 'a option \<Rightarrow> 'a" where
  "or_zero z p = (case p of None \<Rightarrow> z | Some x \<Rightarrow> x)"

datatype room_event_type = EVENT_UNSPECIFIED | EVENT_JOINED | EVENT_LEFT

record notify_request =
  nr_room :: "proto_room_ref option"
  nr_user :: "proto_user_ref option"
  nr_event_type :: room_event_type
  nr_event_id :: string
  nr_timestamp :: "instant option"

record forward_request =
  fr_room :: "proto_room_ref option"
  fr_sender :: "proto_user_ref option"
  fr_text :: string
  fr_timestamp :: "instant option"
  fr_event_id :: string

record join_response =
  jresp_error :: "error_detail option"
  jresp_room :: "proto_room_ref option"

record post_response =
  presp_timestamp :: "instant option"
  presp_error :: "error_detail option"

text \<open>The responses that carry only an error.\<close>

type_synonym ack = "error_detail option"

record set_role_request =
  sr_actor :: "proto_user_ref option"
  sr_target :: string
  sr_role :: string

record transfer_request =
  tr_actor :: "proto_user_ref option"
  tr_new_owner :: string

subsection \<open>References on the wire\<close>

definition protoUserRef :: "user_ref \<Rightarrow> proto_user_ref" where
  "protoUserRef u =
     \<lparr>pu_id = user_string (ur_id u), pu_name = ur_name u, pu_public_code = code_string (ur_code u)\<rparr>"

definition protoRoomRef :: "room_ref \<Rightarrow> proto_room_ref" where
  "protoRoomRef r =
     \<lparr>pr_room_id = room_string (rr_id r), pr_public_code = code_string (rr_code r),
      pr_name = rr_name r, pr_status = room_status_label (rr_status r),
      pr_metadata_version = rr_version r\<rparr>"

datatype ref_error = RefID id_error | RefCode code_error | RefDomain domain_error

definition parseUserRef :: "text_lib \<Rightarrow> proto_user_ref option \<Rightarrow> (ref_error, user_ref) result" where
  "parseUserRef T p =
     (let q = or_zero zero_proto_user p in
      case ParseUserID (pu_id q) of Inl e \<Rightarrow> Err (RefID e) | Inr userID \<Rightarrow>
      case ParsePublicCode (pu_public_code q) of Inl e \<Rightarrow> Err (RefCode e) | Inr code \<Rightarrow>
      case NewUserRef T userID code (pu_name q) of Inl e \<Rightarrow> Err (RefDomain e) | Inr ref \<Rightarrow> Ok ref)"

definition parseRoomRef :: "text_lib \<Rightarrow> proto_room_ref option \<Rightarrow> (ref_error, room_ref) result" where
  "parseRoomRef T p =
     (let q = or_zero zero_proto_room p in
      case ParseRoomID (pr_room_id q) of Inl e \<Rightarrow> Err (RefID e) | Inr roomID \<Rightarrow>
      case ParsePublicCode (pr_public_code q) of Inl e \<Rightarrow> Err (RefCode e) | Inr code \<Rightarrow>
      case ParseRoomStatus (pr_status q) of Inl e \<Rightarrow> Err (RefDomain e) | Inr status \<Rightarrow>
      case NewRoomRef T \<lparr>rp_id = roomID, rp_code = code, rp_name = pr_name q,
             rp_status = room_status_label status, rp_version = pr_metadata_version q\<rparr> of
        Inl e \<Rightarrow> Err (RefDomain e) | Inr ref \<Rightarrow> Ok ref)"

subsection \<open>Facts\<close>

lemma or_zero_simps [simp]: "or_zero z None = z" "or_zero z (Some x) = x"
  by (simp_all add: or_zero_def)

lemma parseUserRef_nil [simp]: "\<exists>e. parseUserRef T None = Err e"
  by (simp add: parseUserRef_def zero_proto_user_def ParseUserID_def parse_int_def)

lemma parseUserRef_OkD:
  assumes "parseUserRef T p = Ok u"
  shows "0 < user_int64 (ur_id u)" "user_int64 (ur_id u) \<le> max_int64" "valid_code (ur_code u)"
    "ParseUserID (pu_id (or_zero zero_proto_user p)) = Ok (ur_id u)"
    "nfc_laws T \<Longrightarrow> valid_user_ref T u"
proof -
  from assms obtain i c where i: "ParseUserID (pu_id (or_zero zero_proto_user p)) = Ok i"
    and c: "ParsePublicCode (pu_public_code (or_zero zero_proto_user p)) = Ok c"
    and u: "NewUserRef T i c (pu_name (or_zero zero_proto_user p)) = Ok u"
    by (auto simp: parseUserRef_def Let_def split: sum.splits)
  have pos: "0 < user_int64 i" "user_int64 i \<le> max_int64" using user_codec.parse_pos [OF i] by simp_all
  have v: "valid_code c" by (rule ParsePublicCode_valid [OF c])
  note ids = NewUserRef_OkD(1,2) [OF u]
  show "0 < user_int64 (ur_id u)" "user_int64 (ur_id u) \<le> max_int64" "valid_code (ur_code u)"
    "ParseUserID (pu_id (or_zero zero_proto_user p)) = Ok (ur_id u)"
    using pos v i ids by simp_all
  show "valid_user_ref T u" if "nfc_laws T" by (rule NewUserRef_valid [OF that u pos v])
qed

lemma parseRoomRef_OkD:
  assumes "parseRoomRef T p = Ok r"
  shows "0 < room_int64 (rr_id r)" "valid_code (rr_code r)"
    "ParseRoomID (pr_room_id (or_zero zero_proto_room p)) = Ok (rr_id r)"
    "nfc_laws T \<Longrightarrow> valid_room_ref T r"
proof -
  from assms obtain i c st where i: "ParseRoomID (pr_room_id (or_zero zero_proto_room p)) = Ok i"
    and c: "ParsePublicCode (pr_public_code (or_zero zero_proto_room p)) = Ok c"
    and r: "NewRoomRef T \<lparr>rp_id = i, rp_code = c, rp_name = pr_name (or_zero zero_proto_room p),
      rp_status = room_status_label st,
      rp_version = pr_metadata_version (or_zero zero_proto_room p)\<rparr> = Ok r"
    by (auto simp: parseRoomRef_def Let_def split: sum.splits)
  have pos: "0 < room_int64 i" "room_int64 i \<le> max_int64" using room_codec.parse_pos [OF i] by simp_all
  have v: "valid_code c" by (rule ParsePublicCode_valid [OF c])
  note ids = NewRoomRef_OkD(1,2) [OF r, simplified]
  show "0 < room_int64 (rr_id r)" "valid_code (rr_code r)"
    "ParseRoomID (pr_room_id (or_zero zero_proto_room p)) = Ok (rr_id r)"
    using pos v i ids by simp_all
  show "valid_room_ref T r" if "nfc_laws T"
    by (rule NewRoomRef_valid [OF that r]) (use pos v in simp_all)
qed

lemma parse_protoUserRef:
  "valid_user_ref T u \<Longrightarrow> parseUserRef T (Some (protoUserRef u)) = Ok u"
  using user_codec.parse_str [of "ur_id u"] ParsePublicCode_string [of "ur_code u"] NewUserRef_again [of T u]
  by (simp add: parseUserRef_def protoUserRef_def valid_user_ref_def)

lemma parse_protoRoomRef:
  "valid_room_ref T r \<Longrightarrow> parseRoomRef T (Some (protoRoomRef r)) = Ok r"
  using room_codec.parse_str [of "rr_id r"] ParsePublicCode_string [of "rr_code r"] NewRoomRef_again [of T r]
  by (simp add: parseRoomRef_def protoRoomRef_def valid_room_ref_def)

subsection \<open>Supervision\<close>

text \<open>The directives a Proto.Actor decider answers a panic with.\<close>

datatype directive = ResumeDirective | RestartDirective | StopDirective | EscalateDirective

end
