(* ===== verification/Snowflake.thy ===== *)
theory Snowflake
  imports GoPrelude
begin

text \<open>
  The package \<open>internal/snowflake\<close>: a lease-gated source of 63-bit time-ordered identifiers. The
  injected clock \<open>now\<close> is a function from the number of the reading to the instant read, so that a
  call that reads the clock several times (the busy wait on an exhausted millisecond) is modelled
  reading by reading. The busy wait may run for ever on a clock that stands still; it is a
  \<open>partial_function\<close> whose value \<open>None\<close> is "does not return". The identifier is assembled on
  \<open>64 word\<close> exactly as the code shifts and ors the three fields.
\<close>

unbundle bit_operations_syntax

subsection \<open>Constants and state\<close>

definition timestampBits :: nat where "timestampBits = 41"
definition workerIDBits :: nat where "workerIDBits = 10"
definition sequenceBits :: nat where "sequenceBits = 12"

definition MaxWorkerID :: int where "MaxWorkerID = 2 ^ workerIDBits - 1"
definition maxSequence :: int where "maxSequence = 2 ^ sequenceBits - 1"
definition maxTimestamp :: int where "maxTimestamp = 2 ^ timestampBits - 1"

definition timestampShift :: nat where "timestampShift = workerIDBits + sequenceBits"
definition workerIDShift :: nat where "workerIDShift = sequenceBits"

text \<open>2026-01-01T00:00:00Z in nanoseconds since the Unix epoch.\<close>

definition defaultEpoch :: instant where
  "defaultEpoch = 1767225600000000000"

datatype mint_error =
  ErrLeaseExpired | ErrClockRegression | ErrEpochExhausted | ErrClockBeforeEpoch
  | ErrWorkerIDRange | ErrNotStarted

record generator =
  workerID :: int
  epoch :: instant
  lastMillis :: int
  sequence :: int
  leaseDeadline :: instant

type_synonym clock = "nat \<Rightarrow> instant"

subsection \<open>Operations\<close>

text \<open>\<open>NewGenerator\<close> with the \<open>WithEpoch\<close> option as an argument; the clock is passed to each call.\<close>

definition NewGenerator :: "int \<Rightarrow> instant \<Rightarrow> (mint_error, generator) result" where
  "NewGenerator w e =
     (if w < 0 \<or> w > MaxWorkerID then Err ErrWorkerIDRange
      else Ok \<lparr>workerID = w, epoch = e, lastMillis = - 1, sequence = 0, leaseDeadline = zero_time\<rparr>)"

definition Renew :: "generator \<Rightarrow> instant \<Rightarrow> generator" where
  "Renew g deadline = g\<lparr>leaseDeadline := deadline\<rparr>"

definition millisSinceEpoch :: "generator \<Rightarrow> instant \<Rightarrow> int" where
  "millisSinceEpoch g t = milliseconds (time_sub t (epoch g))"

partial_function (option) spinNextMillis ::
  "clock \<Rightarrow> generator \<Rightarrow> int \<Rightarrow> nat \<Rightarrow> ((mint_error, int) result \<times> nat) option" where
  "spinNextMillis now g after i =
     (if \<not> now i < leaseDeadline g then Some (Err ErrLeaseExpired, Suc i)
      else if millisSinceEpoch g (now i) > after then Some (Ok (millisSinceEpoch g (now i)), Suc i)
      else spinNextMillis now g after (Suc i))"

definition compose_id :: "int \<Rightarrow> int \<Rightarrow> int \<Rightarrow> int" where
  "compose_id millis w seq =
     sint (push_bit timestampShift (word_of_int millis) OR push_bit workerIDShift (word_of_int w)
           OR word_of_int seq :: 64 word)"

text \<open>
  The tail of \<open>Next\<close> once millisecond and sequence are resolved: range check, assembly, positivity
  check, commit.
\<close>

definition commit_id :: "generator \<Rightarrow> int \<Rightarrow> int \<Rightarrow> (mint_error, int) result \<times> generator" where
  "commit_id g millis seq =
     (if millis > maxTimestamp then (Err ErrEpochExhausted, g)
      else let v = compose_id millis (workerID g) seq
           in if v \<le> 0 then (Err ErrClockBeforeEpoch, g)
              else (Ok v, g\<lparr>lastMillis := millis, sequence := seq\<rparr>))"

definition Next ::
  "clock \<Rightarrow> generator \<Rightarrow> nat \<Rightarrow> (((mint_error, int) result \<times> generator) \<times> nat) option" where
  "Next now g i =
     (let t = now i; millis = millisSinceEpoch g t
      in if \<not> t < leaseDeadline g then Some ((Err ErrLeaseExpired, g), Suc i)
         else if millis < 0 then Some ((Err ErrClockBeforeEpoch, g), Suc i)
         else if millis < lastMillis g then Some ((Err ErrClockRegression, g), Suc i)
         else if millis = lastMillis g then
           (let seq = sequence g + 1
            in if seq > maxSequence then
                 (case spinNextMillis now g (lastMillis g) (Suc i) of
                    None \<Rightarrow> None
                  | Some (Inl e, j) \<Rightarrow> Some ((Err e, g), j)
                  | Some (Inr m, j) \<Rightarrow> Some (commit_id g m 0, j))
               else Some (commit_id g millis seq, Suc i))
         else Some (commit_id g millis 0, Suc i))"

subsection \<open>Runs of a generator\<close>

datatype gen_op = OpNext | OpRenew instant

text \<open>
  Calls in the order the mutex serialises them: the identifiers minted, the generator and the clock
  position after the last one; \<open>None\<close> if one of the calls does not return.
\<close>

fun run_gen :: "clock \<Rightarrow> gen_op list \<Rightarrow> generator \<Rightarrow> nat \<Rightarrow> (int list \<times> generator \<times> nat) option" where
  "run_gen now [] g i = Some ([], g, i)"
| "run_gen now (OpRenew d # ops) g i = run_gen now ops (Renew g d) i"
| "run_gen now (OpNext # ops) g i =
     (case Next now g i of
        None \<Rightarrow> None
      | Some ((r, g'), j) \<Rightarrow>
          (case run_gen now ops g' j of
             None \<Rightarrow> None
           | Some (ids, g'', k) \<Rightarrow>
               Some ((case r of Inl _ \<Rightarrow> ids | Inr v \<Rightarrow> v # ids), g'', k)))"

text \<open>What holds of every generator that \<open>NewGenerator\<close> built and the operations changed.\<close>

definition gen_inv :: "generator \<Rightarrow> bool" where
  "gen_inv g \<longleftrightarrow>
     0 \<le> workerID g \<and> workerID g \<le> MaxWorkerID
     \<and> - 1 \<le> lastMillis g \<and> lastMillis g \<le> maxTimestamp
     \<and> 0 \<le> sequence g \<and> sequence g \<le> maxSequence"

text \<open>The last identifier minted, 0 before the first.\<close>

definition high_water :: "generator \<Rightarrow> int" where
  "high_water g =
     (if lastMillis g < 0 then 0 else compose_id (lastMillis g) (workerID g) (sequence g))"

text \<open>The fields of an identifier.\<close>

definition id_millis :: "int \<Rightarrow> int" where "id_millis v = v div 2 ^ timestampShift"
definition id_worker :: "int \<Rightarrow> int" where
  "id_worker v = v div 2 ^ workerIDShift mod 2 ^ workerIDBits"
definition id_sequence :: "int \<Rightarrow> int" where "id_sequence v = v mod 2 ^ sequenceBits"

subsection \<open>The contract of an identifier source\<close>

text \<open>
  What \<open>EventIDSource\<close> promises its clients: a successful \<open>mint\<close> returns a value above every value
  returned before; a failed one, and what the environment does to the source between the calls
  (\<open>env\<close>, here the lease renewals), leave the high-water mark alone.
\<close>

locale id_source =
  fixes mint :: "'s \<Rightarrow> ((mint_error, int) result \<times> 's) option"
    and invar :: "'s \<Rightarrow> bool"
    and high :: "'s \<Rightarrow> int"
    and env :: "'s \<Rightarrow> 's \<Rightarrow> bool"
  assumes high_nonneg: "invar s \<Longrightarrow> 0 \<le> high s"
    and mint_ok: "invar s \<Longrightarrow> mint s = Some (Inr v, s') \<Longrightarrow> high s < v \<and> high s' = v \<and> invar s'"
    and mint_err: "invar s \<Longrightarrow> mint s = Some (Inl e, s') \<Longrightarrow> high s' = high s \<and> invar s'"
    and env_keeps: "invar s \<Longrightarrow> env s s' \<Longrightarrow> high s' = high s \<and> invar s'"
begin

inductive mints :: "'s \<Rightarrow> int list \<Rightarrow> 's \<Rightarrow> bool" where
  mints_done: "mints s [] s"
| mints_ok: "mint s = Some (Inr v, s') \<Longrightarrow> mints s' vs s'' \<Longrightarrow> mints s (v # vs) s''"
| mints_err: "mint s = Some (Inl e, s') \<Longrightarrow> mints s' vs s'' \<Longrightarrow> mints s vs s''"
| mints_env: "env s s' \<Longrightarrow> mints s' vs s'' \<Longrightarrow> mints s vs s''"

lemma mints_above:
  "mints s vs s' \<Longrightarrow> invar s \<Longrightarrow>
     invar s' \<and> high s \<le> high s' \<and> (\<forall>v \<in> set vs. high s < v \<and> v \<le> high s') \<and> sorted_wrt (<) vs"
proof (induction rule: mints.induct)
  case (mints_done s)
  then show ?case by simp
next
  case (mints_ok s v s' vs s'')
  have "high s < v" "high s' = v" "invar s'" using mint_ok [OF mints_ok.prems mints_ok.hyps(1)] by auto
  with mints_ok.IH show ?case by auto
next
  case (mints_err s e s' vs s'')
  have "high s' = high s" "invar s'" using mint_err [OF mints_err.prems mints_err.hyps(1)] by auto
  with mints_err.IH show ?case by auto
next
  case (mints_env s s' vs s'')
  have "high s' = high s" "invar s'" using env_keeps [OF mints_env.prems mints_env.hyps(1)] by auto
  with mints_env.IH show ?case by auto
qed

lemma mints_positive_distinct:
  assumes "mints s vs s'" and "invar s"
  shows "(\<forall>v \<in> set vs. 0 < v) \<and> distinct vs"
proof -
  have "sorted_wrt (<) vs" and "\<forall>v \<in> set vs. high s < v" using mints_above [OF assms] by auto
  then show ?thesis using high_nonneg [OF assms(2)] strict_sorted_iff by fastforce
qed

end

subsection \<open>The assembled identifier\<close>

lemmas layout_defs = timestampShift_def workerIDShift_def timestampBits_def workerIDBits_def
  sequenceBits_def

lemmas bound_defs = MaxWorkerID_def maxSequence_def maxTimestamp_def layout_defs

lemma bit_below:
  fixes x :: int
  assumes "0 \<le> x" and "x < 2 ^ k" and "bit x n"
  shows "n < k"
proof -
  have "take_bit k x = x" using assms by (simp add: take_bit_int_eq_self)
  then show ?thesis using assms(3) by (metis bit_take_bit_iff)
qed

lemma or_fields:
  fixes a b :: int
  assumes "0 \<le> b" and "b < 2 ^ k"
  shows "push_bit k a OR b = a * 2 ^ k + b"
proof -
  have "push_bit k a AND b = 0"
    by (rule bit_eqI) (auto simp: bit_simps dest: bit_below [OF assms])
  then show ?thesis by (simp add: disjunctive_add_eq_or push_bit_eq_mult)
qed

lemma sint_of_int_small: "0 \<le> v \<Longrightarrow> v < 2 ^ 63 \<Longrightarrow> sint (word_of_int v :: 64 word) = v"
  by (simp add: signed_of_int signed_take_bit_int_eq_self)

lemma compose_id_eq:
  assumes m: "0 \<le> m" "m \<le> maxTimestamp" and w: "0 \<le> w" "w \<le> MaxWorkerID"
    and s: "0 \<le> s" "s \<le> maxSequence"
  shows "compose_id m w s = m * 2 ^ 22 + w * 2 ^ 12 + s"
proof -
  let ?v = "m * 2 ^ 22 + w * 2 ^ 12 + s"
  have ws: "push_bit 12 w OR s = w * 2 ^ 12 + s" using s by (intro or_fields) (auto simp: bound_defs)
  have "push_bit 22 m OR (w * 2 ^ 12 + s) = m * 2 ^ 22 + (w * 2 ^ 12 + s)"
    using w s by (intro or_fields) (auto simp: bound_defs)
  then have v: "push_bit 22 m OR (push_bit 12 w OR s) = ?v" by (simp add: ws)
  have b: "0 \<le> ?v" "?v < 2 ^ 63" using m w s by (auto simp: bound_defs)
  have "(push_bit 22 (word_of_int m) OR (push_bit 12 (word_of_int w) OR word_of_int s) :: 64 word)
    = word_of_int ?v"
    unfolding v [symmetric] by (rule bit_word_eqI) (auto simp: bit_simps)
  then have "compose_id m w s = sint (word_of_int ?v :: 64 word)"
    by (simp only: compose_id_def layout_defs or.assoc) simp
  also have "\<dots> = ?v" by (rule sint_of_int_small [OF b])
  finally show ?thesis .
qed

lemma compose_id_bounds:
  assumes "0 \<le> m" "m \<le> maxTimestamp" "0 \<le> w" "w \<le> MaxWorkerID" "0 \<le> s" "s \<le> maxSequence"
  shows "0 \<le> compose_id m w s \<and> compose_id m w s \<le> max_int64"
  using assms by (auto simp: compose_id_eq bound_defs max_int64_def)

lemma compose_id_fields:
  assumes "0 \<le> m" "m \<le> maxTimestamp" "0 \<le> w" "w \<le> MaxWorkerID" "0 \<le> s" "s \<le> maxSequence"
  shows "id_millis (compose_id m w s) = m" and "id_worker (compose_id m w s) = w"
    and "id_sequence (compose_id m w s) = s"
proof -
  note eq = compose_id_eq [OF assms]
  have low: "0 \<le> w * 2 ^ 12 + s" "w * 2 ^ 12 + s < 2 ^ 22" and s: "s < 2 ^ 12" and w: "w < 2 ^ 10"
    using assms by (auto simp: bound_defs)
  have "(m * 2 ^ 22 + (w * 2 ^ 12 + s)) div 2 ^ 22 = m" using low by (subst div_add1_eq) simp
  then show "id_millis (compose_id m w s) = m" by (simp add: id_millis_def eq layout_defs)
  have "((m * 2 ^ 10 + w) * 2 ^ 12 + s) div 2 ^ 12 = m * 2 ^ 10 + w"
    using assms s by (subst div_add1_eq) simp
  then have "compose_id m w s div 2 ^ 12 = m * 2 ^ 10 + w" by (simp add: eq algebra_simps)
  then show "id_worker (compose_id m w s) = w"
    using assms w by (simp add: id_worker_def layout_defs)
  have "(k * 2 ^ 12 + s) mod 2 ^ 12 = s" for k using assms s by simp
  from this [of "m * 2 ^ 10 + w"] have "((m * 2 ^ 10 + w) * 2 ^ 12 + s) mod 2 ^ 12 = s" .
  then show "id_sequence (compose_id m w s) = s"
    by (simp add: id_sequence_def eq layout_defs algebra_simps)
qed

lemma compose_id_mono:
  assumes "0 \<le> m" "m' \<le> maxTimestamp" "0 \<le> w" "w \<le> MaxWorkerID"
    and "0 \<le> s" "s \<le> maxSequence" "0 \<le> s'" "s' \<le> maxSequence"
    and "m < m' \<or> m = m' \<and> s < s'"
  shows "compose_id m w s < compose_id m' w s'"
  using assms by (auto simp: compose_id_eq bound_defs)

subsection \<open>One call\<close>

lemma NewGenerator_inv: "NewGenerator w e = Ok g \<Longrightarrow> gen_inv g \<and> high_water g = 0"
  by (auto simp: NewGenerator_def gen_inv_def high_water_def bound_defs split: if_splits)

lemma Renew_simps [simp]:
  "gen_inv (Renew g d) = gen_inv g" "high_water (Renew g d) = high_water g"
  "lastMillis (Renew g d) = lastMillis g" "sequence (Renew g d) = sequence g"
  "workerID (Renew g d) = workerID g" "epoch (Renew g d) = epoch g"
  "leaseDeadline (Renew g d) = d"
  by (simp_all add: Renew_def gen_inv_def high_water_def)

lemma high_water_nonneg: "gen_inv g \<Longrightarrow> 0 \<le> high_water g"
  using compose_id_bounds [of "lastMillis g" "workerID g" "sequence g"]
  by (auto simp: high_water_def gen_inv_def)

lemma commit_id_Ok:
  assumes "gen_inv g" and "commit_id g m s = (Ok v, g')"
    and "lastMillis g < m \<or> lastMillis g = m \<and> sequence g < s" and "0 \<le> m"
    and "0 \<le> s" and "s \<le> maxSequence"
  shows "gen_inv g' \<and> high_water g < v \<and> high_water g' = v \<and> v = compose_id m (workerID g) s
    \<and> m \<le> maxTimestamp \<and> workerID g' = workerID g \<and> 0 < v \<and> v \<le> max_int64"
proof -
  from assms(2) have m: "m \<le> maxTimestamp" and v: "v = compose_id m (workerID g) s" "0 < v"
    and g': "g' = g\<lparr>lastMillis := m, sequence := s\<rparr>"
    by (auto simp: commit_id_def Let_def split: if_splits)
  have "high_water g < v"
    using assms m v by (auto simp: high_water_def gen_inv_def intro!: compose_id_mono)
  moreover have "v \<le> max_int64"
    using assms m compose_id_bounds [of m "workerID g" s] by (auto simp: v gen_inv_def)
  ultimately show ?thesis
    using assms m v by (auto simp: g' gen_inv_def high_water_def)
qed

lemma commit_id_Err: "commit_id g m s = (Err e, g') \<Longrightarrow> g' = g"
  by (auto simp: commit_id_def Let_def split: if_splits)

lemma spin_raw:
  assumes "spinNextMillis now g a i = Some (r, j)"
  shows "i < j \<and> (case r of Inl e \<Rightarrow> e = ErrLeaseExpired \<and> \<not> now (j - 1) < leaseDeadline g
     | Inr m \<Rightarrow> a < m \<and> m = millisSinceEpoch g (now (j - 1)) \<and> now (j - 1) < leaseDeadline g)"
proof -
  define P where "P = (\<lambda>now g a i (rj :: (mint_error, int) result \<times> nat). i < snd rj \<and>
    (case fst rj of Inl e \<Rightarrow> e = ErrLeaseExpired \<and> \<not> now (snd rj - 1) < leaseDeadline g
     | Inr m \<Rightarrow> a < m \<and> m = millisSinceEpoch g (now (snd rj - 1))
         \<and> now (snd rj - 1) < leaseDeadline g))"
  have "P now g a i (r, j)"
  proof (rule spinNextMillis.raw_induct [where P = P, OF _ assms])
    fix f and now :: clock and g a i rj
    assume IH: "\<And>now g a i rj. f now g a i = Some rj \<Longrightarrow> P now g a i rj"
      and eq: "(if \<not> now i < leaseDeadline g then Some (Err ErrLeaseExpired, Suc i)
        else if millisSinceEpoch g (now i) > a then Some (Ok (millisSinceEpoch g (now i)), Suc i)
        else f now g a (Suc i)) = Some rj"
    from eq show "P now g a i rj"
      by (auto simp: P_def split: if_splits dest!: IH [unfolded P_def])
  qed
  then show ?thesis by (cases r) (auto simp: P_def)
qed

text \<open>Which instant a successful call stamped its identifier with, and under which lease.\<close>

lemma Next_Ok:
  assumes inv: "gen_inv g" and n: "Next now g i = Some ((Ok v, g'), j)"
  shows "gen_inv g' \<and> high_water g < v \<and> high_water g' = v \<and> 0 < v \<and> v \<le> max_int64
    \<and> workerID g' = workerID g \<and> id_worker v = workerID g
    \<and> (\<exists>k. i \<le> k \<and> k < j \<and> now k < leaseDeadline g \<and> id_millis v = millisSinceEpoch g (now k))"
proof -
  have fields: "gen_inv g' \<and> high_water g < v \<and> high_water g' = v \<and> 0 < v \<and> v \<le> max_int64
      \<and> workerID g' = workerID g \<and> id_worker v = workerID g \<and> id_millis v = m"
    if "commit_id g m s = (Ok v, g')" "lastMillis g < m \<or> lastMillis g = m \<and> sequence g < s"
      "0 \<le> m" "0 \<le> s" "s \<le> maxSequence" for m s
  proof -
    have c: "gen_inv g' \<and> high_water g < v \<and> high_water g' = v \<and> v = compose_id m (workerID g) s
      \<and> m \<le> maxTimestamp \<and> workerID g' = workerID g \<and> 0 < v \<and> v \<le> max_int64"
      by (rule commit_id_Ok [OF inv that])
    then show ?thesis
      using compose_id_fields [of m "workerID g" s] that inv by (auto simp: gen_inv_def)
  qed
  let ?m = "millisSinceEpoch g (now i)"
  have live: "now i < leaseDeadline g" and nonneg: "0 \<le> ?m" and ge: "lastMillis g \<le> ?m"
    using n by (auto simp: Next_def Let_def split: if_splits)
  have seq: "0 \<le> sequence g" "(0::int) \<le> maxSequence" using inv by (auto simp: gen_inv_def bound_defs)
  consider (fresh) "lastMillis g < ?m" | (same) "lastMillis g = ?m" "sequence g + 1 \<le> maxSequence"
    | (full) "lastMillis g = ?m" "maxSequence < sequence g + 1" using ge by fastforce
  then show ?thesis
  proof cases
    case fresh
    then have "commit_id g ?m 0 = (Ok v, g')" and j: "j = Suc i"
      using n live nonneg by (auto simp: Next_def Let_def)
    from fields [OF this(1)] fresh nonneg seq live j show ?thesis by auto
  next
    case same
    then have "commit_id g ?m (sequence g + 1) = (Ok v, g')" and j: "j = Suc i"
      using n live nonneg by (auto simp: Next_def Let_def)
    from fields [OF this(1)] same nonneg seq live j show ?thesis by auto
  next
    case full
    then obtain m where sp: "spinNextMillis now g (lastMillis g) (Suc i) = Some (Ok m, j)"
      and c: "commit_id g m 0 = (Ok v, g')"
      using n live nonneg by (auto simp: Next_def Let_def split: option.splits sum.splits)
    have "Suc i < j" "lastMillis g < m" "m = millisSinceEpoch g (now (j - 1))"
      "now (j - 1) < leaseDeadline g" using spin_raw [OF sp] by auto
    moreover have "0 \<le> m" using full(1) nonneg calculation(2) by simp
    ultimately show ?thesis using fields [OF c] seq by (intro conjI exI [of _ "j - 1"]) auto
  qed
qed

lemma Next_Err: "Next now g i = Some ((Err e, g'), j) \<Longrightarrow> g' = g"
  by (auto simp: Next_def Let_def split: if_splits option.splits sum.splits dest: commit_id_Err)

subsection \<open>The generator is an identifier source\<close>

definition gen_mint :: "clock \<Rightarrow> generator \<times> nat \<Rightarrow>
    ((mint_error, int) result \<times> generator \<times> nat) option" where
  "gen_mint now s = map_option (\<lambda>((r, g), j). (r, g, j)) (Next now (fst s) (snd s))"

definition gen_env :: "generator \<times> nat \<Rightarrow> generator \<times> nat \<Rightarrow> bool" where
  "gen_env s s' \<longleftrightarrow> (\<exists>d. s' = (Renew (fst s) d, snd s))"

interpretation sf: id_source "gen_mint now" "\<lambda>s. gen_inv (fst s)" "\<lambda>s. high_water (fst s)" gen_env
  for now
proof unfold_locales
  fix s :: "generator \<times> nat" and v s'
  assume "gen_inv (fst s)" and "gen_mint now s = Some (Inr v, s')"
  then show "high_water (fst s) < v \<and> high_water (fst s') = v \<and> gen_inv (fst s')"
    by (auto simp: gen_mint_def dest: Next_Ok)
next
  fix s :: "generator \<times> nat" and e s'
  assume "gen_inv (fst s)" and "gen_mint now s = Some (Inl e, s')"
  then show "high_water (fst s') = high_water (fst s) \<and> gen_inv (fst s')"
    by (auto simp: gen_mint_def dest: Next_Err)
next
  fix s s' :: "generator \<times> nat"
  assume "gen_inv (fst s)" and "gen_env s s'"
  then show "high_water (fst s') = high_water (fst s) \<and> gen_inv (fst s')"
    by (auto simp: gen_env_def)
qed (simp add: high_water_nonneg)

lemma run_gen_mints:
  "run_gen now ops g i = Some (ids, g', k) \<Longrightarrow> sf.mints now (g, i) ids (g', k)"
proof (induction now ops g i arbitrary: ids rule: run_gen.induct)
  case (1 now g i)
  then show ?case by (auto intro: sf.mints.intros)
next
  case (2 now d ops g i)
  have "gen_env (g, i) (Renew g d, i)" by (auto simp: gen_env_def)
  then show ?case using "2.IH" "2.prems" sf.mints_env by simp
next
  case (3 now ops g i)
  then obtain r g1 j ids1 where n: "Next now g i = Some ((r, g1), j)"
    and run: "run_gen now ops g1 j = Some (ids1, g', k)"
    and ids: "ids = (case r of Inl _ \<Rightarrow> ids1 | Inr v \<Rightarrow> v # ids1)"
    by (auto split: option.splits)
  have "sf.mints now (g1, j) ids1 (g', k)" using "3.IH" n run by auto
  moreover have "gen_mint now (g, i) = Some (r, g1, j)" using n by (simp add: gen_mint_def)
  ultimately show ?case unfolding ids
    by (cases r) (auto intro: sf.mints_ok sf.mints_err)
qed

lemma run_gen_worker:
  "run_gen now ops g i = Some (ids, g', k) \<Longrightarrow> gen_inv g \<Longrightarrow>
     \<forall>v \<in> set ids. 0 < v \<and> v \<le> max_int64 \<and> id_worker v = workerID g"
proof (induction now ops g i arbitrary: ids rule: run_gen.induct)
  case (1 now g i)
  then show ?case by simp
next
  case (2 now d ops g i)
  then show ?case by fastforce
next
  case (3 now ops g i)
  then obtain r g1 j ids1 where n: "Next now g i = Some ((r, g1), j)"
    and run: "run_gen now ops g1 j = Some (ids1, g', k)"
    and ids: "ids = (case r of Inl _ \<Rightarrow> ids1 | Inr v \<Rightarrow> v # ids1)"
    by (auto split: option.splits)
  have g1: "gen_inv g1 \<and> workerID g1 = workerID g"
    using n "3.prems"(2) by (cases r) (auto dest: Next_Ok Next_Err)
  then have rest: "\<forall>v \<in> set ids1. 0 < v \<and> v \<le> max_int64 \<and> id_worker v = workerID g"
    using "3.IH" n run by auto
  show ?case
  proof (cases r)
    case (Inl e)
    then show ?thesis using ids rest by simp
  next
    case (Inr v)
    then have "0 < v \<and> v \<le> max_int64 \<and> id_worker v = workerID g"
      using n "3.prems"(2) Next_Ok by blast
    then show ?thesis using ids rest Inr by simp
  qed
qed

lemma spin_terminates:
  assumes "i \<le> k" and "leaseDeadline g \<le> now k \<or> a < millisSinceEpoch g (now k)"
  shows "\<exists>r j. spinNextMillis now g a i = Some (r, j)"
  using assms
proof (induction "k - i" arbitrary: i)
  case 0
  then show ?case by (subst spinNextMillis.simps) auto
next
  case (Suc n)
  then show ?case by (subst spinNextMillis.simps) fastforce
qed

subsection \<open>Properties\<close>

text \<open>
  C18. The identifiers a generator mints over any interleaving of \<open>Next\<close> and \<open>Renew\<close> calls, whatever
  the clock does, are strictly increasing, positive, within \<open>int64\<close>, and carry the generator's
  worker id.
\<close>

theorem run_gen_strictly_increasing:
  assumes "NewGenerator w e = Ok g" and "run_gen now ops g i = Some (ids, g', k)"
  shows "sorted_wrt (<) ids
    \<and> list_all (\<lambda>v. 0 < v \<and> v \<le> max_int64 \<and> id_worker v = w) ids"
proof -
  have g: "gen_inv g" "workerID g = w"
    using assms(1) NewGenerator_inv by (auto simp: NewGenerator_def split: if_splits)
  have "sorted_wrt (<) ids" using sf.mints_above [OF run_gen_mints [OF assms(2)]] g by simp
  then show ?thesis using run_gen_worker [OF assms(2)] g by (simp add: list_all_iff)
qed

definition demo_clock :: clock where
  "demo_clock n = defaultEpoch + 5000000"

definition demo_gen :: generator where
  "demo_gen = \<lparr>workerID = 7, epoch = defaultEpoch, lastMillis = - 1, sequence = 0,
     leaseDeadline = zero_time\<rparr>"

lemma demo_gen_new: "NewGenerator 7 defaultEpoch = Ok demo_gen"
  by (simp add: NewGenerator_def demo_gen_def bound_defs)

lemma demo_millis: "milliseconds (time_sub (defaultEpoch + 5000000) defaultEpoch) = 5"
  by (simp add: milliseconds_def time_sub_def clamp_int64_def max_int64_def min_int64_def)

lemma demo_run:
  "run_gen demo_clock [OpRenew (defaultEpoch + 10000000), OpNext, OpNext] demo_gen 0 =
     Some ([20971520 + 28672, 20971520 + 28673],
       demo_gen\<lparr>lastMillis := 5, sequence := 1, leaseDeadline := defaultEpoch + 10000000\<rparr>, 2)"
  by (simp add: demo_clock_def demo_gen_def Next_def Let_def millisSinceEpoch_def Renew_def
      demo_millis commit_id_def compose_id_eq bound_defs)

theorem run_gen_strictly_increasing_witness:
  "sorted_wrt (<) [20971520 + 28672, 20971520 + 28673 :: int]
    \<and> list_all (\<lambda>v. 0 < v \<and> v \<le> max_int64 \<and> id_worker v = 7) [20971520 + 28672, 20971520 + 28673]"
  by (rule run_gen_strictly_increasing [OF demo_gen_new demo_run])

text \<open>
  Generators with different worker ids never mint the same identifier, whatever their clocks
  and leases do.
\<close>

theorem workers_mint_disjoint:
  assumes "NewGenerator w e = Ok g" and "run_gen now ops g i = Some (ids, g', k)"
    and "NewGenerator w2 e2 = Ok h" and "run_gen now2 ops2 h i2 = Some (ids2, h', k2)"
    and "w \<noteq> w2"
  shows "set ids \<inter> set ids2 = {}"
proof -
  have g: "gen_inv g" "workerID g = w" "gen_inv h" "workerID h = w2"
    using assms(1,3) NewGenerator_inv by (auto simp: NewGenerator_def split: if_splits)
  show ?thesis
    using run_gen_worker [OF assms(2) g(1)] run_gen_worker [OF assms(4) g(3)] g(2,4) assms(5) by auto
qed

theorem workers_mint_disjoint_witness:
  "set [20971520 + 28672, 20971520 + 28673 :: int] \<inter> set [20971520 + 32768] = {}"
proof -
  have h: "NewGenerator 8 defaultEpoch = Ok (demo_gen\<lparr>workerID := 8\<rparr>)"
    by (simp add: NewGenerator_def demo_gen_def bound_defs)
  have run: "run_gen demo_clock [OpRenew (defaultEpoch + 10000000), OpNext]
      (demo_gen\<lparr>workerID := 8\<rparr>) 0 = Some ([20971520 + 32768], demo_gen\<lparr>workerID := 8,
        lastMillis := 5, sequence := 0, leaseDeadline := defaultEpoch + 10000000\<rparr>, 1)"
    by (simp add: demo_clock_def demo_gen_def Next_def Let_def millisSinceEpoch_def Renew_def
        demo_millis commit_id_def compose_id_eq bound_defs)
  show ?thesis by (rule workers_mint_disjoint [OF demo_gen_new demo_run h run]) simp
qed

text \<open>
  Minting is fail-closed. A successful call stamps the identifier with a clock reading taken
  during the call that lies strictly before the lease deadline; a failed call leaves the generator
  as it was; and from the deadline on every call fails.
\<close>

theorem Next_fail_closed:
  assumes "gen_inv g" and "Next now g i = Some ((r, g'), j)"
  shows "(case r of
      Inl e \<Rightarrow> g' = g
    | Inr v \<Rightarrow> (\<exists>k. i \<le> k \<and> k < j \<and> now k < leaseDeadline g
                 \<and> id_millis v = millisSinceEpoch g (now k)))
    \<and> (leaseDeadline g \<le> now i \<longrightarrow> r = Err ErrLeaseExpired)"
proof -
  have "leaseDeadline g \<le> now i \<longrightarrow> r = Err ErrLeaseExpired"
    using assms(2) by (auto simp: Next_def)
  then show ?thesis
    using assms Next_Ok [OF assms(1)] Next_Err by (cases r) auto
qed

theorem Next_fail_closed_witness:
  "gen_inv demo_gen \<and> Next demo_clock demo_gen 0 = Some ((Err ErrLeaseExpired, demo_gen), 1)
    \<and> leaseDeadline demo_gen \<le> demo_clock 0"
proof -
  have n: "Next demo_clock demo_gen 0 = Some ((Err ErrLeaseExpired, demo_gen), 1)"
    by (simp add: demo_clock_def demo_gen_def Next_def Let_def zero_time_def defaultEpoch_def)
  have g: "gen_inv demo_gen" by (simp add: demo_gen_def gen_inv_def bound_defs)
  show ?thesis using Next_fail_closed [OF g n] g n
    by (simp add: demo_gen_def demo_clock_def zero_time_def defaultEpoch_def)
qed

text \<open>
  \<open>Next\<close> returns. It can only wait in the busy loop on an exhausted millisecond, and the loop
  ends as soon as one later clock reading reaches the lease deadline or a new millisecond.
\<close>

theorem Next_returns:
  assumes "i < k" and "leaseDeadline g \<le> now k \<or> lastMillis g < millisSinceEpoch g (now k)"
  shows "\<exists>r g' j. Next now g i = Some ((r, g'), j)"
proof -
  obtain r j where "spinNextMillis now g (lastMillis g) (Suc i) = Some (r, j)"
    using spin_terminates [of "Suc i" k g now "lastMillis g"] assms by auto
  then show ?thesis by (cases r) (auto simp: Next_def Let_def prod_eq_iff)
qed

theorem Next_returns_witness:
  "\<exists>r g' j. Next demo_clock (demo_gen\<lparr>lastMillis := 5, sequence := 4095\<rparr>) 0 = Some ((r, g'), j)"
  by (rule Next_returns [of 0 1]) (simp_all add: demo_gen_def demo_clock_def zero_time_def defaultEpoch_def)

text \<open>
  At the epoch itself only worker 0 is refused: every other worker mints there, although the comment
  on \<open>ErrClockBeforeEpoch\<close> announces a refusal for a clock at or before the epoch.
\<close>

lemma Next_at_epoch_mints:
  "Next (\<lambda>_. defaultEpoch) (Renew demo_gen (defaultEpoch + 1)) 0 =
     Some ((Ok 28672, (Renew demo_gen (defaultEpoch + 1))\<lparr>lastMillis := 0, sequence := 0\<rparr>), 1)"
  by (simp add: demo_gen_def Next_def Let_def millisSinceEpoch_def Renew_def milliseconds_def
      time_sub_def clamp_int64_def max_int64_def min_int64_def commit_id_def compose_id_eq bound_defs)

end
