(* ===== verification/Database.thy ===== *)
theory Database
  imports DomainModel Snowflake "HOL-Library.Product_Lexorder"
begin

text \<open>
  The tables of \<open>internal/persistence/schema.sql\<close> the grains read and write, and the layer below every
  repository: \<open>postgres.Transactor\<close> and the SQL statements, whose text is in the repositories. A table
  is a list of rows; its constraints are checked by the statements that insert or update, and
  \<open>db_inv\<close> collects them. An enum column holds the enum value and \<open>status::text\<close> is its label.
  The counters \<open>attempts\<close> and \<open>resend_count\<close> are \<open>INT\<close> columns and integers here: each starts at 0 and rises
  by one per compared PIN or per mail sent, the first past its cap only by requests that were in flight
  together (at most a pool of connections per gateway), the second never past its cap, so neither comes near
  \<open>2 ^ 31\<close>.

  What the network and the server may do to one statement or to a commit is an \<open>outcome\<close>: it is
  acknowledged, it fails and has no effect, or it fails for the caller although the server applied it
  (a timeout, a lost connection). A statement inside a transaction that fails in either way has no
  effect, since the transaction is rolled back.

  The theory also holds \<open>UserRepo\<close> and \<open>RoomRepo\<close> with their row parsers.
\<close>

subsection \<open>Tables\<close>

record service_user =
  su_id :: int
  su_public_code :: string
  su_mail_address :: string
  su_handle :: string
  su_handle_norm :: string
  su_display_name :: string
  su_password_hash :: string
  su_status :: user_status
  su_created_at :: instant
  su_updated_at :: instant

record room_row =
  rm_id :: int
  rm_public_code :: string
  rm_display_name :: string
  rm_created_by :: int
  rm_status :: room_status
  rm_created_at :: instant
  rm_updated_at :: instant

record membership_row =
  mb_room :: int
  mb_user :: int
  mb_role :: membership_role
  mb_joined_at :: instant

datatype event_type = EvMessagePosted | EvMemberJoined | EvMemberLeft

datatype event_payload = MessagePayload string | MemberEventPayload string

record event_row =
  ev_id :: int
  ev_room :: int
  ev_type :: event_type
  ev_user :: int
  ev_occurred_at :: instant
  ev_payload :: event_payload

record verification_row =
  vr_user_id :: int
  vr_pin_hash :: string
  vr_expires_at :: instant
  vr_attempts :: int
  vr_resend_count :: int
  vr_last_sent_at :: "instant option"
  vr_created_at :: instant

record db =
  t_users :: "service_user list"
  t_rooms :: "room_row list"
  t_memberships :: "membership_row list"
  t_events :: "event_row list"
  t_verifications :: "verification_row list"

text \<open>The schema's constraints.\<close>

definition one_owner :: "membership_row list \<Rightarrow> bool" where
  "one_owner ms \<longleftrightarrow> distinct (map mb_room (filter (\<lambda>m. mb_role m = MembershipRoleOwner) ms))"

definition db_inv :: "db \<Rightarrow> bool" where
  "db_inv d \<longleftrightarrow>
     distinct (map su_id (t_users d)) \<and> distinct (map su_public_code (t_users d))
     \<and> distinct (map su_mail_address (t_users d)) \<and> distinct (map su_handle_norm (t_users d))
     \<and> distinct (map rm_id (t_rooms d)) \<and> distinct (map rm_public_code (t_rooms d))
     \<and> distinct (map (\<lambda>m. (mb_room m, mb_user m)) (t_memberships d)) \<and> one_owner (t_memberships d)
     \<and> mb_room ` set (t_memberships d) \<subseteq> rm_id ` set (t_rooms d)
     \<and> mb_user ` set (t_memberships d) \<subseteq> su_id ` set (t_users d)
     \<and> distinct (map ev_id (t_events d))
     \<and> ev_room ` set (t_events d) \<subseteq> rm_id ` set (t_rooms d)
     \<and> ev_user ` set (t_events d) \<subseteq> su_id ` set (t_users d)"

subsection \<open>Statements and transactions\<close>

datatype row_error =
  RowID id_error | RowCreatedBy id_error | RowCode code_error | RowDomain domain_error | RowHandleNorm

datatype store_error =
  ErrConn | ErrUnique string | ErrForeignKey | ErrCheck | ErrNoRows
  | ErrBeginTx | ErrCommitTx
  | ErrRow row_error | ErrMintID mint_error | ErrMintedID id_error | ErrMintCode code_error
  | ErrUserNotFound | ErrRoomNotFound
  | ErrUserPublicCodeCollision | ErrMailAddressTaken | ErrHandleTaken | ErrRoomPublicCodeCollision
  | ErrUnknownMemberEventKind
  | ErrMembershipNotFound | ErrOwnerCannotLeave | ErrTransferTargetNotMember | ErrTransferNotOwner
  | ErrRolePermissionDenied
  | ErrVerificationNotFound | ErrVerificationRateLimited
  | ErrGeneratePIN | ErrHashPIN | ErrHashPassword | ErrMailAddressInsertRace

datatype outcome = Acked | Lost | Unacked

type_synonym 'a stmt = "db \<Rightarrow> (store_error, 'a) result \<times> db"

text \<open>One statement against the pool, committing by itself.\<close>

definition run_stmt :: "outcome \<Rightarrow> 'a stmt \<Rightarrow> 'a stmt" where
  "run_stmt oc s d =
     (case oc of Acked \<Rightarrow> s d | Lost \<Rightarrow> (Err ErrConn, d) | Unacked \<Rightarrow> (Err ErrConn, snd (s d)))"

record txenv =
  tx_begin :: bool
  tx_stmt :: "nat \<Rightarrow> outcome"
  tx_commit :: outcome
  tx_now :: instant
  tx_mint :: "(mint_error, int) result"

definition WithinTx :: "txenv \<Rightarrow> 'a stmt \<Rightarrow> 'a stmt" where
  "WithinTx env fn d =
     (if \<not> tx_begin env then (Err ErrBeginTx, d)
      else case fn d of
             (Inl e, d') \<Rightarrow> (Err e, d)
           | (Inr x, d') \<Rightarrow>
               (case tx_commit env of
                  Acked \<Rightarrow> (Ok x, d')
                | Lost \<Rightarrow> (Err ErrCommitTx, d)
                | Unacked \<Rightarrow> (Err ErrCommitTx, d')))"

text \<open>The next statement runs on the tables the previous one left; an error ends the function.\<close>

definition then_stmt :: "'a stmt \<Rightarrow> ('a \<Rightarrow> 'b stmt) \<Rightarrow> 'b stmt" where
  "then_stmt s k d = (case s d of (Inl e, d') \<Rightarrow> (Err e, d') | (Inr x, d') \<Rightarrow> k x d')"

definition return_stmt :: "'a \<Rightarrow> 'a stmt" where
  "return_stmt x d = (Ok x, d)"

definition fail_stmt :: "store_error \<Rightarrow> 'a stmt" where
  "fail_stmt e d = (Err e, d)"

subsection \<open>Users\<close>

record user =
  usr_ID :: user_id
  usr_PublicCode :: public_code
  usr_MailAddress :: mail_address
  usr_Handle :: handle
  usr_DisplayName :: string
  usr_PasswordHash :: string
  usr_Status :: user_status
  usr_CreatedAt :: instant
  usr_UpdatedAt :: instant

definition userRow_toDomain :: "text_lib \<Rightarrow> service_user \<Rightarrow> (store_error, user) result" where
  "userRow_toDomain T ur =
     (case NewUserID (su_id ur) of Inl e \<Rightarrow> Err (ErrRow (RowID e)) | Inr userID \<Rightarrow>
      case ParsePublicCode (su_public_code ur) of Inl e \<Rightarrow> Err (ErrRow (RowCode e)) | Inr code \<Rightarrow>
      case ParseUserStatus (user_status_label (su_status ur)) of
        Inl e \<Rightarrow> Err (ErrRow (RowDomain e)) | Inr status \<Rightarrow>
      case NewMailAddress T (su_mail_address ur) of Inl e \<Rightarrow> Err (ErrRow (RowDomain e)) | Inr mail \<Rightarrow>
      case NewHandle T (su_handle ur) of Inl e \<Rightarrow> Err (ErrRow (RowDomain e)) | Inr h \<Rightarrow>
      if su_handle_norm ur \<noteq> handle_normalized h then Err (ErrRow RowHandleNorm)
      else Ok \<lparr>usr_ID = userID, usr_PublicCode = code, usr_MailAddress = mail, usr_Handle = h,
               usr_DisplayName = su_display_name ur, usr_PasswordHash = su_password_hash ur,
               usr_Status = status, usr_CreatedAt = su_created_at ur,
               usr_UpdatedAt = su_updated_at ur\<rparr>)"

definition userPublicCodeConstraint :: string where
  "userPublicCodeConstraint = ''service_user_public_code_key''"
definition mailAddressConstraint :: string where
  "mailAddressConstraint = ''service_user_mail_address_key''"
definition handleNormConstraint :: string where
  "handleNormConstraint = ''service_user_handle_norm_key''"

text \<open>
  \<open>userInsertSQL\<close>: the two checks of the row, then the unique indexes in the order the schema declares
  them.
\<close>

definition handle_check :: "service_user \<Rightarrow> bool" where
  "handle_check u \<longleftrightarrow>
     3 \<le> length (su_handle u) \<and> length (su_handle u) \<le> 30
     \<and> list_all (\<lambda>c. is_alnum c \<or> c = CHR ''_'') (su_handle u)
     \<and> su_handle_norm u = to_lower_ascii (su_handle u)"

definition userInsertSQL :: "service_user \<Rightarrow> service_user stmt" where
  "userInsertSQL u d =
     (if \<not> handle_check u then (Err ErrCheck, d)
      else if su_id u \<in> su_id ` set (t_users d) then (Err (ErrUnique ''service_user_pkey''), d)
      else if su_public_code u \<in> su_public_code ` set (t_users d)
        then (Err (ErrUnique userPublicCodeConstraint), d)
      else if su_mail_address u \<in> su_mail_address ` set (t_users d)
        then (Err (ErrUnique mailAddressConstraint), d)
      else if su_handle_norm u \<in> su_handle_norm ` set (t_users d)
        then (Err (ErrUnique handleNormConstraint), d)
      else (Ok u, d\<lparr>t_users := t_users d @ [u]\<rparr>))"

definition classifyCreateError :: "store_error \<Rightarrow> store_error" where
  "classifyCreateError e =
     (case e of
        ErrUnique c \<Rightarrow>
          if c = userPublicCodeConstraint then ErrUserPublicCodeCollision
          else if c = mailAddressConstraint then ErrMailAddressTaken
          else if c = handleNormConstraint then ErrHandleTaken
          else e
      | _ \<Rightarrow> e)"

record user_create_params =
  ucp_MailAddress :: mail_address
  ucp_Handle :: handle
  ucp_DisplayName :: string
  ucp_PasswordHash :: string
  ucp_Status :: user_status

text \<open>\<open>UserRepo.Create\<close>: the minted id, the random bytes and the clock are arguments.\<close>

definition UserRepo_Create ::
  "text_lib \<Rightarrow> (mint_error, int) result \<Rightarrow> (unit, 8 word list) result \<Rightarrow> instant \<Rightarrow> outcome
     \<Rightarrow> user_create_params \<Rightarrow> user stmt" where
  "UserRepo_Create T mint rnd now oc p d =
     (case mint of Inl e \<Rightarrow> (Err (ErrMintID e), d) | Inr rawID \<Rightarrow>
      case NewUserID rawID of Inl e \<Rightarrow> (Err (ErrMintedID e), d) | Inr userID \<Rightarrow>
      case NewPublicCode rnd of Inl e \<Rightarrow> (Err (ErrMintCode e), d) | Inr code \<Rightarrow>
      case run_stmt oc (userInsertSQL
             \<lparr>su_id = user_int64 userID, su_public_code = code_string code,
              su_mail_address = mail_string (ucp_MailAddress p),
              su_handle = handle_display (ucp_Handle p),
              su_handle_norm = handle_normalized (ucp_Handle p),
              su_display_name = ucp_DisplayName p, su_password_hash = ucp_PasswordHash p,
              su_status = ucp_Status p, su_created_at = now, su_updated_at = now\<rparr>) d of
        (Inl e, d') \<Rightarrow> (Err (classifyCreateError e), d')
      | (Inr row, d') \<Rightarrow>
          (case userRow_toDomain T row of
             Inl e \<Rightarrow> (Err (classifyCreateError e), d') | Inr u \<Rightarrow> (Ok u, d')))"

text \<open>\<open>findOne\<close> with its \<open>WHERE\<close> clause as a predicate on rows.\<close>

definition user_findOne :: "text_lib \<Rightarrow> outcome \<Rightarrow> (service_user \<Rightarrow> bool) \<Rightarrow> db \<Rightarrow> (store_error, user) result" where
  "user_findOne T oc p d =
     (if oc \<noteq> Acked then Err ErrConn
      else case find p (t_users d) of
             None \<Rightarrow> Err ErrUserNotFound
           | Some row \<Rightarrow> userRow_toDomain T row)"

definition FindByEmail :: "text_lib \<Rightarrow> outcome \<Rightarrow> mail_address \<Rightarrow> db \<Rightarrow> (store_error, user) result" where
  "FindByEmail T oc mail = user_findOne T oc (\<lambda>u. su_mail_address u = mail_string mail)"

definition UserRepo_FindByID :: "text_lib \<Rightarrow> outcome \<Rightarrow> user_id \<Rightarrow> db \<Rightarrow> (store_error, user) result" where
  "UserRepo_FindByID T oc userID = user_findOne T oc (\<lambda>u. su_id u = user_int64 userID)"

definition ResolveByPublicCode :: "outcome \<Rightarrow> public_code \<Rightarrow> db \<Rightarrow> (store_error, user_id) result" where
  "ResolveByPublicCode oc code d =
     (if oc \<noteq> Acked then Err ErrConn
      else case find (\<lambda>u. su_public_code u = code_string code) (t_users d) of
             None \<Rightarrow> Err ErrUserNotFound
           | Some row \<Rightarrow>
               (case NewUserID (su_id row) of Inl e \<Rightarrow> Err (ErrRow (RowID e)) | Inr u \<Rightarrow> Ok u))"

text \<open>An \<open>UPDATE \<dots> WHERE id = $1\<close> and the number of rows it changed.\<close>

definition update_user_sql :: "int \<Rightarrow> (service_user \<Rightarrow> service_user) \<Rightarrow> nat stmt" where
  "update_user_sql uid f d =
     (Ok (length (filter (\<lambda>u. su_id u = uid) (t_users d))),
      d\<lparr>t_users := map (\<lambda>u. if su_id u = uid then f u else u) (t_users d)\<rparr>)"

definition SetStatus :: "outcome \<Rightarrow> instant \<Rightarrow> user_id \<Rightarrow> user_status \<Rightarrow> unit stmt" where
  "SetStatus oc now userID status d =
     (case run_stmt oc (update_user_sql (user_int64 userID)
             (\<lambda>u. u\<lparr>su_status := status, su_updated_at := now\<rparr>)) d of
        (Inl e, d') \<Rightarrow> (Err e, d')
      | (Inr n, d') \<Rightarrow> (if n = 0 then Err ErrUserNotFound else Ok (), d'))"

definition SetPasswordHash :: "outcome \<Rightarrow> instant \<Rightarrow> user_id \<Rightarrow> string \<Rightarrow> unit stmt" where
  "SetPasswordHash oc now userID hash d =
     (case run_stmt oc (update_user_sql (user_int64 userID)
             (\<lambda>u. u\<lparr>su_password_hash := hash, su_updated_at := now\<rparr>)) d of
        (Inl e, d') \<Rightarrow> (Err e, d')
      | (Inr n, d') \<Rightarrow> (if n = 0 then Err ErrUserNotFound else Ok (), d'))"

subsection \<open>Rooms\<close>

record room =
  room_ID :: room_id
  room_PublicCode :: public_code
  room_DisplayName :: string
  room_CreatedBy :: user_id
  room_Status :: room_status
  room_CreatedAt :: instant
  room_UpdatedAt :: instant

definition roomRow_toDomain :: "room_row \<Rightarrow> (store_error, room) result" where
  "roomRow_toDomain rr =
     (case NewRoomID (rm_id rr) of Inl e \<Rightarrow> Err (ErrRow (RowID e)) | Inr roomID \<Rightarrow>
      case NewUserID (rm_created_by rr) of Inl e \<Rightarrow> Err (ErrRow (RowCreatedBy e)) | Inr createdBy \<Rightarrow>
      case ParsePublicCode (rm_public_code rr) of Inl e \<Rightarrow> Err (ErrRow (RowCode e)) | Inr code \<Rightarrow>
      case ParseRoomStatus (room_status_label (rm_status rr)) of
        Inl e \<Rightarrow> Err (ErrRow (RowDomain e)) | Inr status \<Rightarrow>
      Ok \<lparr>room_ID = roomID, room_PublicCode = code, room_DisplayName = rm_display_name rr,
          room_CreatedBy = createdBy, room_Status = status, room_CreatedAt = rm_created_at rr,
          room_UpdatedAt = rm_updated_at rr\<rparr>)"

definition roomPublicCodeConstraint :: string where
  "roomPublicCodeConstraint = ''room_public_code_key''"

definition roomInsertSQL :: "room_row \<Rightarrow> room_row stmt" where
  "roomInsertSQL r d =
     (if rm_id r \<in> rm_id ` set (t_rooms d) then (Err (ErrUnique ''room_pkey''), d)
      else if rm_public_code r \<in> rm_public_code ` set (t_rooms d)
        then (Err (ErrUnique roomPublicCodeConstraint), d)
      else if rm_created_by r \<notin> su_id ` set (t_users d) then (Err ErrForeignKey, d)
      else (Ok r, d\<lparr>t_rooms := t_rooms d @ [r]\<rparr>))"

definition isPublicCodeCollision :: "store_error \<Rightarrow> bool" where
  "isPublicCodeCollision e \<longleftrightarrow> e = ErrUnique roomPublicCodeConstraint"

record room_create_params =
  rcp_Name :: room_name
  rcp_CreatedBy :: user_id

definition RoomRepo_Create ::
  "(mint_error, int) result \<Rightarrow> (unit, 8 word list) result \<Rightarrow> instant \<Rightarrow> outcome
     \<Rightarrow> room_create_params \<Rightarrow> room stmt" where
  "RoomRepo_Create mint rnd now oc p d =
     (case mint of Inl e \<Rightarrow> (Err (ErrMintID e), d) | Inr rawID \<Rightarrow>
      case NewRoomID rawID of Inl e \<Rightarrow> (Err (ErrMintedID e), d) | Inr roomID \<Rightarrow>
      case NewPublicCode rnd of Inl e \<Rightarrow> (Err (ErrMintCode e), d) | Inr code \<Rightarrow>
      case run_stmt oc (roomInsertSQL
             \<lparr>rm_id = room_int64 roomID, rm_public_code = code_string code,
              rm_display_name = name_string (rcp_Name p),
              rm_created_by = user_int64 (rcp_CreatedBy p), rm_status = RoomStatusActive,
              rm_created_at = now, rm_updated_at = now\<rparr>) d of
        (Inl e, d') \<Rightarrow> (Err (if isPublicCodeCollision e then ErrRoomPublicCodeCollision else e), d')
      | (Inr row, d') \<Rightarrow> (roomRow_toDomain row, d'))"

definition FindByPublicCode :: "outcome \<Rightarrow> public_code \<Rightarrow> db \<Rightarrow> (store_error, room) result" where
  "FindByPublicCode oc code d =
     (if oc \<noteq> Acked then Err ErrConn
      else case find (\<lambda>r. rm_public_code r = code_string code \<and> rm_status r = RoomStatusActive)
                  (t_rooms d) of
             None \<Rightarrow> Err ErrRoomNotFound
           | Some row \<Rightarrow> roomRow_toDomain row)"

definition RoomRepo_FindByID :: "outcome \<Rightarrow> room_id \<Rightarrow> db \<Rightarrow> (store_error, room) result" where
  "RoomRepo_FindByID oc roomID d =
     (if oc \<noteq> Acked then Err ErrConn
      else case find (\<lambda>r. rm_id r = room_int64 roomID) (t_rooms d) of
             None \<Rightarrow> Err ErrRoomNotFound
           | Some row \<Rightarrow> roomRow_toDomain row)"

subsection \<open>Facts about statements and transactions\<close>

lemma run_stmt_simps [simp]:
  "run_stmt Acked s d = s d"
  "run_stmt Lost s d = (Err ErrConn, d)"
  "run_stmt Unacked s d = (Err ErrConn, snd (s d))"
  by (simp_all add: run_stmt_def)

lemma run_stmt_Ok: "run_stmt oc s d = (Ok x, d') \<longleftrightarrow> oc = Acked \<and> s d = (Ok x, d')"
  by (cases oc) auto

lemma then_stmt_Ok:
  "then_stmt s k d = (Ok y, d2) \<longleftrightarrow> (\<exists>x d1. s d = (Ok x, d1) \<and> k x d1 = (Ok y, d2))"
  by (auto simp: then_stmt_def split: prod.splits sum.splits)

text \<open>A transaction that reports success ran its body to the end and committed it.\<close>

lemma WithinTx_Ok:
  "WithinTx env fn d = (Ok x, d') \<longleftrightarrow> tx_begin env \<and> tx_commit env = Acked \<and> fn d = (Ok x, d')"
  by (auto simp: WithinTx_def split: prod.splits sum.splits outcome.splits)

text \<open>One that reports an error changed nothing, unless only the commit's reply was lost.\<close>

lemma WithinTx_Err:
  "WithinTx env fn d = (Err e, d') \<Longrightarrow>
     d' = d \<or> (e = ErrCommitTx \<and> tx_commit env = Unacked \<and> (\<exists>x. fn d = (Ok x, d')))"
  by (auto simp: WithinTx_def split: prod.splits sum.splits outcome.splits if_splits)

text \<open>An invariant that the body keeps when it succeeds is kept by the transaction, however it ends.\<close>

lemma WithinTx_inv:
  assumes "I d" and "\<And>x d1. fn d = (Ok x, d1) \<Longrightarrow> I d1"
  shows "I (snd (WithinTx env fn d))"
  using assms by (auto simp: WithinTx_def split: prod.splits sum.splits outcome.splits)

lemma run_stmt_inv:
  assumes "I d" and "I (snd (s d))"
  shows "I (snd (run_stmt oc s d))"
  using assms by (cases oc) simp_all

subsection \<open>Facts about row parsing\<close>

lemma NewUserID_Ok [simp]: "NewUserID v = Ok u \<longleftrightarrow> 0 < v \<and> u = UserID v"
  by (auto simp: NewUserID_def)

lemma NewRoomID_Ok [simp]: "NewRoomID v = Ok r \<longleftrightarrow> 0 < v \<and> r = RoomID v"
  by (auto simp: NewRoomID_def)

lemma NewEventID_Ok [simp]: "NewEventID v = Ok r \<longleftrightarrow> 0 < v \<and> r = EventID v"
  by (auto simp: NewEventID_def)

lemma roomRow_toDomain_Ok:
  "roomRow_toDomain rr = Ok r \<Longrightarrow>
     rm_id rr = room_int64 (room_ID r) \<and> 0 < rm_id rr \<and> room_Status r = rm_status rr
     \<and> valid_code (room_PublicCode r) \<and> room_UpdatedAt r = rm_updated_at rr
     \<and> room_DisplayName r = rm_display_name rr"
  by (auto simp: roomRow_toDomain_def ParsePublicCode_valid split: sum.splits)

lemma userRow_toDomain_Ok:
  "userRow_toDomain T ur = Ok u \<Longrightarrow>
     su_id ur = user_int64 (usr_ID u) \<and> 0 < su_id ur \<and> usr_Status u = su_status ur
     \<and> valid_code (usr_PublicCode u) \<and> usr_DisplayName u = su_display_name ur
     \<and> ParsePublicCode (su_public_code ur) = Ok (usr_PublicCode u)
     \<and> NewMailAddress T (su_mail_address ur) = Ok (usr_MailAddress u)
     \<and> NewHandle T (su_handle ur) = Ok (usr_Handle u)"
  by (auto simp: userRow_toDomain_def ParsePublicCode_valid split: sum.splits if_splits)

end
