(* ===== verification/Membership.thy ===== *)
theory Membership
  imports Database
begin

text \<open>
  Durable membership and the room timeline: \<open>persistence.MembershipRepo\<close> and \<open>persistence.Journal\<close>, the
  Room grain's ports \<open>membershipStore\<close> and \<open>messageStore\<close> over them, and the two activation-time
  readers (\<open>roomRepoLoader\<close>, \<open>joinedRoomLoader\<close>) and the User grain's directory.

  \<open>membership_store\<close> is the contract the Room grain relies on; it is interpreted on the store built
  from the repository, the journal and the transaction.
\<close>

subsection \<open>The repository\<close>

record member =
  mem_User :: user_ref
  mem_Role :: membership_role
  mem_JoinedAt :: instant

definition memberRow_toDomain ::
  "text_lib \<Rightarrow> membership_row \<times> service_user \<Rightarrow> (store_error, member) result" where
  "memberRow_toDomain T row =
     (case row of (m, u) \<Rightarrow>
      case NewUserID (mb_user m) of Inl e \<Rightarrow> Err (ErrRow (RowID e)) | Inr userID \<Rightarrow>
      case ParsePublicCode (su_public_code u) of Inl e \<Rightarrow> Err (ErrRow (RowCode e)) | Inr code \<Rightarrow>
      case NewUserRef T userID code (su_display_name u) of
        Inl e \<Rightarrow> Err (ErrRow (RowDomain e)) | Inr ref \<Rightarrow>
      case ParseMembershipRole (role_label (mb_role m)) of
        Inl e \<Rightarrow> Err (ErrRow (RowDomain e)) | Inr role \<Rightarrow>
      Ok \<lparr>mem_User = ref, mem_Role = role, mem_JoinedAt = mb_joined_at m\<rparr>)"

definition joinedRoomRow_toDomain :: "text_lib \<Rightarrow> room_row \<Rightarrow> (store_error, room_ref) result" where
  "joinedRoomRow_toDomain T jr =
     (case NewRoomID (rm_id jr) of Inl e \<Rightarrow> Err (ErrRow (RowID e)) | Inr roomID \<Rightarrow>
      case ParsePublicCode (rm_public_code jr) of Inl e \<Rightarrow> Err (ErrRow (RowCode e)) | Inr code \<Rightarrow>
      case ParseRoomStatus (room_status_label (rm_status jr)) of
        Inl e \<Rightarrow> Err (ErrRow (RowDomain e)) | Inr status \<Rightarrow>
      case NewRoomRef T \<lparr>rp_id = roomID, rp_code = code, rp_name = rm_display_name jr,
             rp_status = room_status_label status, rp_version = unix_micro (rm_updated_at jr)\<rparr> of
        Inl e \<Rightarrow> Err (ErrRow (RowDomain e)) | Inr ref \<Rightarrow> Ok ref)"

text \<open>\<open>listByRoomSQL\<close>: the join with \<open>service_user\<close>, ordered by join time, then id.\<close>

definition listByRoomSQL :: "int \<Rightarrow> db \<Rightarrow> (membership_row \<times> service_user) list" where
  "listByRoomSQL rid d =
     [(m, u). m \<leftarrow> sort_key (\<lambda>m. (mb_joined_at m, mb_user m))
                      (filter (\<lambda>m. mb_room m = rid) (t_memberships d)),
              u \<leftarrow> filter (\<lambda>u. su_id u = mb_user m) (t_users d)]"

definition ListByRoom :: "text_lib \<Rightarrow> outcome \<Rightarrow> room_id \<Rightarrow> db \<Rightarrow> (store_error, member list) result" where
  "ListByRoom T oc roomID d =
     (if oc \<noteq> Acked then Err ErrConn
      else sequence_res (map (memberRow_toDomain T) (listByRoomSQL (room_int64 roomID) d)))"

definition listByUserSQL :: "int \<Rightarrow> db \<Rightarrow> room_row list" where
  "listByUserSQL uid d =
     sort_key rm_id [r. m \<leftarrow> filter (\<lambda>m. mb_user m = uid) (t_memberships d),
                        r \<leftarrow> filter (\<lambda>r. rm_id r = mb_room m \<and> rm_status r = RoomStatusActive) (t_rooms d)]"

definition ListByUser :: "text_lib \<Rightarrow> outcome \<Rightarrow> user_id \<Rightarrow> db \<Rightarrow> (store_error, room_ref list) result" where
  "ListByUser T oc userID d =
     (if oc \<noteq> Acked then Err ErrConn
      else sequence_res (map (joinedRoomRow_toDomain T) (listByUserSQL (user_int64 userID) d)))"

definition is_row :: "int \<Rightarrow> int \<Rightarrow> membership_row \<Rightarrow> bool" where
  "is_row rid uid m \<longleftrightarrow> mb_room m = rid \<and> mb_user m = uid"

definition addSQL :: "instant \<Rightarrow> int \<Rightarrow> int \<Rightarrow> membership_role \<Rightarrow> unit stmt" where
  "addSQL now rid uid role d =
     (if \<exists>m \<in> set (t_memberships d). is_row rid uid m
        then (Err (ErrUnique ''room_membership_pkey''), d)
      else if role = MembershipRoleOwner
            \<and> (\<exists>m \<in> set (t_memberships d). mb_room m = rid \<and> mb_role m = MembershipRoleOwner)
        then (Err (ErrUnique ''room_membership_one_owner_idx''), d)
      else if rid \<notin> rm_id ` set (t_rooms d) \<or> uid \<notin> su_id ` set (t_users d)
        then (Err ErrForeignKey, d)
      else (Ok (), d\<lparr>t_memberships := t_memberships d
                       @ [\<lparr>mb_room = rid, mb_user = uid, mb_role = role, mb_joined_at = now\<rparr>]\<rparr>))"

definition Add :: "outcome \<Rightarrow> instant \<Rightarrow> room_id \<Rightarrow> user_ref \<Rightarrow> membership_role \<Rightarrow> unit stmt" where
  "Add oc now roomID ref role =
     run_stmt oc (addSQL now (room_int64 roomID) (user_int64 (ur_id ref)) role)"

text \<open>\<open>removeSQL\<close>: whether the row existed and whether the guarded \<open>DELETE\<close> removed it.\<close>

definition removeSQL :: "int \<Rightarrow> int \<Rightarrow> (bool \<times> bool) stmt" where
  "removeSQL rid uid d =
     (let gone = (\<lambda>m. is_row rid uid m \<and> mb_role m \<noteq> MembershipRoleOwner)
      in (Ok (\<exists>m \<in> set (t_memberships d). is_row rid uid m, \<exists>m \<in> set (t_memberships d). gone m),
          d\<lparr>t_memberships := filter (\<lambda>m. \<not> gone m) (t_memberships d)\<rparr>))"

definition Remove :: "outcome \<Rightarrow> room_id \<Rightarrow> user_id \<Rightarrow> unit stmt" where
  "Remove oc roomID userID d =
     (case run_stmt oc (removeSQL (room_int64 roomID) (user_int64 userID)) d of
        (Inl e, d') \<Rightarrow> (Err e, d')
      | (Inr (existed, deleted), d') \<Rightarrow>
          (if \<not> existed then Err ErrMembershipNotFound
           else if \<not> deleted then Err ErrOwnerCannotLeave
           else Ok (), d'))"

definition GetRole :: "outcome \<Rightarrow> room_id \<Rightarrow> user_id \<Rightarrow> membership_role stmt" where
  "GetRole oc roomID userID d =
     (if oc \<noteq> Acked then (Err ErrConn, d)
      else case find (is_row (room_int64 roomID) (user_int64 userID)) (t_memberships d) of
             None \<Rightarrow> (Err ErrMembershipNotFound, d)
           | Some m \<Rightarrow>
               (case ParseMembershipRole (role_label (mb_role m)) of
                  Inl e \<Rightarrow> (Err (ErrRow (RowDomain e)), d)
                | Inr role \<Rightarrow> (Ok role, d)))"

definition set_role :: "int \<Rightarrow> int \<Rightarrow> membership_role \<Rightarrow> membership_row list \<Rightarrow> membership_row list" where
  "set_role rid uid role = map (\<lambda>m. if is_row rid uid m then m\<lparr>mb_role := role\<rparr> else m)"

text \<open>\<open>updateRoleSQL\<close> and the number of rows it changed; the partial unique index guards the owner.\<close>

definition updateRoleSQL :: "int \<Rightarrow> int \<Rightarrow> membership_role \<Rightarrow> nat stmt" where
  "updateRoleSQL rid uid role d =
     (let ms = set_role rid uid role (t_memberships d)
      in if \<not> one_owner ms then (Err (ErrUnique ''room_membership_one_owner_idx''), d)
         else (Ok (length (filter (is_row rid uid) (t_memberships d))), d\<lparr>t_memberships := ms\<rparr>))"

definition UpdateRole :: "outcome \<Rightarrow> room_id \<Rightarrow> user_id \<Rightarrow> membership_role \<Rightarrow> unit stmt" where
  "UpdateRole oc roomID userID role d =
     (case run_stmt oc (updateRoleSQL (room_int64 roomID) (user_int64 userID) role) d of
        (Inl e, d') \<Rightarrow> (Err e, d')
      | (Inr n, d') \<Rightarrow> (if n = 0 then Err ErrMembershipNotFound else Ok (), d'))"

text \<open>
  \<open>transferOwnershipSQL\<close>. The membership of the target gates the demotion and the demotion gates the
  promotion; the result says whether the target exists and whether it was promoted.
\<close>

definition transferOwnershipSQL :: "int \<Rightarrow> int \<Rightarrow> int \<Rightarrow> (bool \<times> bool) stmt" where
  "transferOwnershipSQL rid from to d =
     (let ms = t_memberships d;
          target = (\<exists>m \<in> set ms. is_row rid to m);
          demoted = (target \<and> (\<exists>m \<in> set ms. is_row rid from m \<and> mb_role m = MembershipRoleOwner))
      in (Ok (target, demoted),
          d\<lparr>t_memberships :=
              (if demoted then set_role rid to MembershipRoleOwner
                                 (set_role rid from MembershipRoleAdmin ms) else ms)\<rparr>))"

definition TransferOwnership :: "outcome \<Rightarrow> room_id \<Rightarrow> user_id \<Rightarrow> user_id \<Rightarrow> unit stmt" where
  "TransferOwnership oc roomID from to d =
     (if from = to then (Ok (), d)
      else case run_stmt oc (transferOwnershipSQL (room_int64 roomID) (user_int64 from)
                               (user_int64 to)) d of
             (Inl e, d') \<Rightarrow> (Err e, d')
           | (Inr (targetExists, promoted), d') \<Rightarrow>
               (if \<not> targetExists then Err ErrTransferTargetNotMember
                else if \<not> promoted then Err ErrTransferNotOwner
                else Ok (), d'))"

subsection \<open>The journal\<close>

text \<open>The kind is a Go \<open>int\<close>; its zero value is no kind.\<close>

type_synonym member_event_kind = int

definition MemberJoined :: member_event_kind where "MemberJoined = 1"
definition MemberLeft :: member_event_kind where "MemberLeft = 2"

definition eventType :: "member_event_kind \<Rightarrow> (store_error, event_type) result" where
  "eventType k =
     (if k = MemberJoined then Ok EvMemberJoined
      else if k = MemberLeft then Ok EvMemberLeft
      else Err ErrUnknownMemberEventKind)"

text \<open>The \<open>INSERT\<close> of \<open>appendMessageSQL\<close> and \<open>appendMembershipSQL\<close>.\<close>

definition appendEventSQL :: "event_row \<Rightarrow> instant stmt" where
  "appendEventSQL e d =
     (if ev_id e \<in> ev_id ` set (t_events d) then (Err (ErrUnique ''event_pkey''), d)
      else if ev_room e \<notin> rm_id ` set (t_rooms d) \<or> ev_user e \<notin> su_id ` set (t_users d)
        then (Err ErrForeignKey, d)
      else (Ok (ev_occurred_at e), d\<lparr>t_events := t_events d @ [e]\<rparr>))"

definition AppendMessage ::
  "(mint_error, int) result \<Rightarrow> instant \<Rightarrow> outcome \<Rightarrow> room_id \<Rightarrow> user_id \<Rightarrow> string
     \<Rightarrow> (event_id \<times> instant) stmt" where
  "AppendMessage mint now oc roomID author text d =
     (case mint of Inl e \<Rightarrow> (Err (ErrMintID e), d) | Inr rawID \<Rightarrow>
      case NewEventID rawID of Inl e \<Rightarrow> (Err (ErrMintedID e), d) | Inr eventID \<Rightarrow>
      case run_stmt oc (appendEventSQL
             \<lparr>ev_id = event_int64 eventID, ev_room = room_int64 roomID, ev_type = EvMessagePosted,
              ev_user = user_int64 author, ev_occurred_at = now,
              ev_payload = MessagePayload text\<rparr>) d of
        (Inl e, d') \<Rightarrow> (Err e, d')
      | (Inr occurredAt, d') \<Rightarrow> (Ok (eventID, occurredAt), d'))"

definition AppendMembership ::
  "(mint_error, int) result \<Rightarrow> instant \<Rightarrow> outcome \<Rightarrow> room_id \<Rightarrow> user_ref \<Rightarrow> member_event_kind
     \<Rightarrow> (event_id \<times> instant) stmt" where
  "AppendMembership mint now oc roomID actor kind d =
     (case eventType kind of Inl e \<Rightarrow> (Err e, d) | Inr ty \<Rightarrow>
      case mint of Inl e \<Rightarrow> (Err (ErrMintID e), d) | Inr rawID \<Rightarrow>
      case NewEventID rawID of Inl e \<Rightarrow> (Err (ErrMintedID e), d) | Inr eventID \<Rightarrow>
      case run_stmt oc (appendEventSQL
             \<lparr>ev_id = event_int64 eventID, ev_room = room_int64 roomID, ev_type = ty,
              ev_user = user_int64 (ur_id actor), ev_occurred_at = now,
              ev_payload = MemberEventPayload (ur_name actor)\<rparr>) d of
        (Inl e, d') \<Rightarrow> (Err e, d')
      | (Inr occurredAt, d') \<Rightarrow> (Ok (eventID, occurredAt), d'))"

subsection \<open>The Room grain's stores\<close>

record durable_event =
  de_ID :: event_id
  de_OccurredAt :: instant

definition zero_event :: durable_event where
  "zero_event = \<lparr>de_ID = zero_event_id, de_OccurredAt = zero_time\<rparr>"

definition evt_is_zero :: "durable_event \<Rightarrow> bool" where
  "evt_is_zero evt \<longleftrightarrow> de_OccurredAt evt = zero_time"

definition LoadMembers :: "text_lib \<Rightarrow> outcome \<Rightarrow> room_id \<Rightarrow> db \<Rightarrow> (store_error, user_ref list) result" where
  "LoadMembers T oc roomID d =
     (case ListByRoom T oc roomID d of Inl e \<Rightarrow> Err e | Inr members \<Rightarrow> Ok (map mem_User members))"

text \<open>\<open>record\<close>: the row write and the journal append in one transaction.\<close>

definition record_transition ::
  "txenv \<Rightarrow> room_id \<Rightarrow> user_ref \<Rightarrow> member_event_kind \<Rightarrow> (outcome \<Rightarrow> unit stmt) \<Rightarrow> durable_event stmt" where
  "record_transition env roomID actor kind mutate =
     WithinTx env
       (then_stmt (mutate (tx_stmt env 0))
          (\<lambda>_. then_stmt (AppendMembership (tx_mint env) (tx_now env) (tx_stmt env 1) roomID actor kind)
             (\<lambda>(eventID, occurredAt). return_stmt \<lparr>de_ID = eventID, de_OccurredAt = occurredAt\<rparr>)))"

definition RecordJoin :: "txenv \<Rightarrow> room_id \<Rightarrow> user_ref \<Rightarrow> durable_event stmt" where
  "RecordJoin env roomID actor =
     record_transition env roomID actor MemberJoined
       (\<lambda>oc. Add oc (tx_now env) roomID actor MembershipRoleMember)"

definition RecordLeave :: "txenv \<Rightarrow> room_id \<Rightarrow> user_ref \<Rightarrow> durable_event stmt" where
  "RecordLeave env roomID actor =
     record_transition env roomID actor MemberLeft (\<lambda>oc. Remove oc roomID (ur_id actor))"

definition RecordRoleChange ::
  "txenv \<Rightarrow> room_id \<Rightarrow> user_id \<Rightarrow> user_id \<Rightarrow> membership_role \<Rightarrow> unit stmt" where
  "RecordRoleChange env roomID actor target role =
     WithinTx env
       (then_stmt (GetRole (tx_stmt env 0) roomID actor) (\<lambda>actorRole.
        then_stmt (GetRole (tx_stmt env 1) roomID target) (\<lambda>targetRole.
        if \<not> CanSetRole actorRole targetRole role then fail_stmt ErrRolePermissionDenied
        else UpdateRole (tx_stmt env 2) roomID target role)))"

definition RecordOwnershipTransfer ::
  "txenv \<Rightarrow> room_id \<Rightarrow> user_id \<Rightarrow> user_id \<Rightarrow> unit stmt" where
  "RecordOwnershipTransfer env roomID actor newOwner =
     WithinTx env
       (then_stmt (GetRole (tx_stmt env 0) roomID actor) (\<lambda>actorRole.
        if \<not> CanTransferOwnership actorRole then fail_stmt ErrRolePermissionDenied
        else if actor = newOwner then return_stmt ()
        else then_stmt (GetRole (tx_stmt env 1) roomID newOwner) (\<lambda>_.
             TransferOwnership (tx_stmt env 2) roomID actor newOwner)))"

definition RecordMessage ::
  "txenv \<Rightarrow> room_id \<Rightarrow> user_id \<Rightarrow> string \<Rightarrow> durable_event stmt" where
  "RecordMessage env roomID author text d =
     (case AppendMessage (tx_mint env) (tx_now env) (tx_stmt env 0) roomID author text d of
        (Inl e, d') \<Rightarrow> (Err e, d')
      | (Inr (eventID, occurredAt), d') \<Rightarrow> (Ok \<lparr>de_ID = eventID, de_OccurredAt = occurredAt\<rparr>, d'))"

subsection \<open>Activation-time readers\<close>

definition LoadRoom :: "text_lib \<Rightarrow> outcome \<Rightarrow> room_id \<Rightarrow> db \<Rightarrow> (store_error, room_ref) result" where
  "LoadRoom T oc roomID d =
     (case RoomRepo_FindByID oc roomID d of
        Inl e \<Rightarrow> Err e
      | Inr r \<Rightarrow>
          (case NewRoomRef T \<lparr>rp_id = room_ID r, rp_code = room_PublicCode r,
                  rp_name = room_DisplayName r, rp_status = room_status_label (room_Status r),
                  rp_version = unix_micro (room_UpdatedAt r)\<rparr> of
             Inl e \<Rightarrow> Err (ErrRow (RowDomain e)) | Inr ref \<Rightarrow> Ok ref))"

text \<open>\<open>ErrProfileNotFound\<close> of the User grain is \<open>ErrUserNotFound\<close> here.\<close>

definition Resolve :: "text_lib \<Rightarrow> outcome \<Rightarrow> user_id \<Rightarrow> db \<Rightarrow> (store_error, user_ref) result" where
  "Resolve T oc userID d =
     (case UserRepo_FindByID T oc userID d of
        Inl e \<Rightarrow> Err e
      | Inr u \<Rightarrow>
          (case NewUserRef T userID (usr_PublicCode u) (usr_DisplayName u) of
             Inl e \<Rightarrow> Err (ErrRow (RowDomain e)) | Inr ref \<Rightarrow> Ok ref))"

definition ListJoinedRooms :: "text_lib \<Rightarrow> outcome \<Rightarrow> user_id \<Rightarrow> db \<Rightarrow> (store_error, room_ref list) result" where
  "ListJoinedRooms T oc userID = ListByUser T oc userID"

subsection \<open>The abstract roster\<close>

text \<open>Who belongs to a room and in what role: the view of the tables the store promises to maintain.\<close>

definition row_role :: "membership_row list \<Rightarrow> int \<Rightarrow> int \<Rightarrow> membership_role option" where
  "row_role ms rid uid = map_option mb_role (find (is_row rid uid) ms)"

definition role_of :: "db \<Rightarrow> room_id \<Rightarrow> user_id \<Rightarrow> membership_role option" where
  "role_of d r u = row_role (t_memberships d) (room_int64 r) (user_int64 u)"

definition keys_distinct :: "membership_row list \<Rightarrow> bool" where
  "keys_distinct ms \<longleftrightarrow> distinct (map (\<lambda>m. (mb_room m, mb_user m)) ms)"

lemma is_row_simps [simp]:
  "is_row rid uid \<lparr>mb_room = r, mb_user = u, mb_role = ro, mb_joined_at = t\<rparr> \<longleftrightarrow> r = rid \<and> u = uid"
  "is_row rid uid (m\<lparr>mb_role := ro\<rparr>) = is_row rid uid m"
  by (simp_all add: is_row_def)

lemma keys_distinctD:
  "keys_distinct ms \<Longrightarrow> m \<in> set ms \<Longrightarrow> n \<in> set ms \<Longrightarrow> is_row rid uid m \<Longrightarrow> is_row rid uid n \<Longrightarrow> m = n"
  by (auto simp: keys_distinct_def is_row_def distinct_map inj_on_def)

lemma row_role_None: "row_role ms rid uid = None \<longleftrightarrow> (\<forall>m \<in> set ms. \<not> is_row rid uid m)"
  by (auto simp: row_role_def find_None_iff)

lemma find_is_row:
  "find (is_row rid uid) ms = Some m \<Longrightarrow> m \<in> set ms \<and> is_row rid uid m"
  by (auto simp: find_Some_iff)

lemma row_role_Some:
  assumes "keys_distinct ms"
  shows "row_role ms rid uid = Some ro \<longleftrightarrow> (\<exists>m \<in> set ms. is_row rid uid m \<and> mb_role m = ro)"
proof (cases "find (is_row rid uid) ms")
  case None
  then have "\<forall>m \<in> set ms. \<not> is_row rid uid m" by (simp add: find_None_iff)
  then show ?thesis using None by (auto simp: row_role_def)
next
  case (Some m)
  then show ?thesis using find_is_row [OF Some] keys_distinctD [OF assms] by (auto simp: row_role_def)
qed

lemma row_role_append:
  "row_role (ms @ [m]) rid uid =
     (case row_role ms rid uid of Some ro \<Rightarrow> Some ro
      | None \<Rightarrow> if is_row rid uid m then Some (mb_role m) else None)"
  by (induction ms) (auto simp: row_role_def)

text \<open>The two-row update of a role, and the deletion of one row, seen through the roster.\<close>

lemma row_role_set_role:
  "row_role (set_role r u ro ms) rid uid =
     (if rid = r \<and> uid = u then map_option (\<lambda>_. ro) (row_role ms rid uid) else row_role ms rid uid)"
  by (induction ms) (auto simp: row_role_def set_role_def is_row_def)

lemma row_role_filter:
  assumes "keys_distinct ms"
  shows "row_role (filter (\<lambda>m. is_row r u m \<longrightarrow> mb_role m = MembershipRoleOwner) ms) rid uid =
     (if rid = r \<and> uid = u \<and> row_role ms rid uid \<noteq> Some MembershipRoleOwner then None
      else row_role ms rid uid)"
  using assms
proof (induction ms)
  case Nil
  then show ?case by (simp add: row_role_def)
next
  case (Cons m ms)
  have "keys_distinct ms" and "is_row r u m \<Longrightarrow> row_role ms r u = None"
    using Cons.prems by (auto simp: keys_distinct_def row_role_None is_row_def image_iff)
  moreover have "is_row rid uid m \<and> is_row r u m \<Longrightarrow> rid = r \<and> uid = u" by (auto simp: is_row_def)
  ultimately show ?case using Cons.IH by (auto simp: row_role_def split: if_splits)
qed

lemma keys_distinct_set_role [simp]: "keys_distinct (set_role r u ro ms) = keys_distinct ms"
proof -
  have "map (\<lambda>m. (mb_room m, mb_user m)) (set_role r u ro ms) = map (\<lambda>m. (mb_room m, mb_user m)) ms"
    by (simp add: set_role_def)
  then show ?thesis by (simp add: keys_distinct_def)
qed

lemma set_role_keys [simp]:
  "mb_room ` set (set_role r u ro ms) = mb_room ` set ms"
  "mb_user ` set (set_role r u ro ms) = mb_user ` set ms"
proof -
  have "map mb_room (set_role r u ro ms) = map mb_room ms"
    "map mb_user (set_role r u ro ms) = map mb_user ms"
    by (simp_all add: set_role_def)
  then show "mb_room ` set (set_role r u ro ms) = mb_room ` set ms"
    "mb_user ` set (set_role r u ro ms) = mb_user ` set ms"
    by (metis set_map)+
qed

text \<open>The partial unique index, seen through the roster.\<close>

lemma one_owner_roles:
  assumes "keys_distinct ms"
  shows "one_owner ms \<longleftrightarrow>
    (\<forall>r u v. row_role ms r u = Some MembershipRoleOwner \<longrightarrow> row_role ms r v = Some MembershipRoleOwner
       \<longrightarrow> u = v)" (is "_ \<longleftrightarrow> ?R")
proof
  assume o: "one_owner ms"
  show ?R
  proof (intro allI impI)
    fix r u v
    assume "row_role ms r u = Some MembershipRoleOwner" "row_role ms r v = Some MembershipRoleOwner"
    then obtain m n where "m \<in> set ms" "is_row r u m" "mb_role m = MembershipRoleOwner"
      "n \<in> set ms" "is_row r v n" "mb_role n = MembershipRoleOwner"
      using row_role_Some [OF assms] by metis
    moreover from this have "m = n"
      using o by (auto simp: one_owner_def distinct_map inj_on_def is_row_def)
    ultimately show "u = v" by (auto simp: is_row_def)
  qed
next
  assume R: ?R
  have "distinct ms" using assms by (auto simp: keys_distinct_def distinct_map)
  moreover have "inj_on mb_room {m \<in> set ms. mb_role m = MembershipRoleOwner}"
  proof (rule inj_onI)
    fix m n
    assume mn: "m \<in> {m \<in> set ms. mb_role m = MembershipRoleOwner}"
      "n \<in> {m \<in> set ms. mb_role m = MembershipRoleOwner}" "mb_room m = mb_room n"
    then have "row_role ms (mb_room m) (mb_user m) = Some MembershipRoleOwner"
      "row_role ms (mb_room m) (mb_user n) = Some MembershipRoleOwner"
      using row_role_Some [OF assms] by (auto simp: is_row_def)
    then have "mb_user m = mb_user n" using R by blast
    then show "m = n" using mn keys_distinctD [OF assms, of m n] by (auto simp: is_row_def)
  qed
  ultimately show "one_owner ms" by (simp add: one_owner_def distinct_map)
qed

lemma db_inv_keys: "db_inv d \<Longrightarrow> keys_distinct (t_memberships d)"
  by (simp add: db_inv_def keys_distinct_def)

lemma db_inv_owner:
  "db_inv d \<Longrightarrow> role_of d r u = Some MembershipRoleOwner \<Longrightarrow> role_of d r v = Some MembershipRoleOwner
     \<Longrightarrow> u = v"
  using one_owner_roles [OF db_inv_keys, of d]
  by (auto simp: role_of_def db_inv_def user_id.expand)

subsection \<open>What each repository operation does when it succeeds\<close>

lemma db_inv_memberships:
  "db_inv d \<Longrightarrow> keys_distinct ms \<Longrightarrow> one_owner ms
     \<Longrightarrow> mb_room ` set ms \<subseteq> rm_id ` set (t_rooms d) \<Longrightarrow> mb_user ` set ms \<subseteq> su_id ` set (t_users d)
     \<Longrightarrow> db_inv (d\<lparr>t_memberships := ms\<rparr>)"
  by (simp add: db_inv_def keys_distinct_def)

lemma role_of_memberships: "role_of (d\<lparr>t_memberships := ms\<rparr>) r u = row_role ms (room_int64 r) (user_int64 u)"
  by (simp add: role_of_def)

lemma role_of_events [simp]: "role_of (d\<lparr>t_events := es\<rparr>) = role_of d"
  by (simp add: role_of_def fun_eq_iff)

lemma id_eq_iff:
  "room_int64 r = room_int64 r' \<longleftrightarrow> r = r'" "user_int64 u = user_int64 u' \<longleftrightarrow> u = u'"
  by (auto simp: room_id.expand user_id.expand)

lemma Add_Ok:
  assumes inv: "db_inv d" and ok: "Add oc now r ref ro d = (Ok (), d')"
  shows "db_inv d'" "t_events d' = t_events d" "role_of d r (ur_id ref) = None"
    "role_of d' = (role_of d)(r := (role_of d r)(ur_id ref \<mapsto> ro))"
proof -
  let ?x = "\<lparr>mb_room = room_int64 r, mb_user = user_int64 (ur_id ref), mb_role = ro, mb_joined_at = now\<rparr>"
  let ?ms = "t_memberships d"
  from ok have new: "\<forall>m \<in> set ?ms. \<not> is_row (room_int64 r) (user_int64 (ur_id ref)) m"
    and own: "ro = MembershipRoleOwner \<Longrightarrow>
      \<forall>m \<in> set ?ms. mb_room m = room_int64 r \<longrightarrow> mb_role m \<noteq> MembershipRoleOwner"
    and fk: "room_int64 r \<in> rm_id ` set (t_rooms d)" "user_int64 (ur_id ref) \<in> su_id ` set (t_users d)"
    and d': "d' = d\<lparr>t_memberships := ?ms @ [?x]\<rparr>"
    by (auto simp: Add_def run_stmt_Ok addSQL_def split: if_splits)
  have "keys_distinct (?ms @ [?x])"
    using db_inv_keys [OF inv] new by (auto simp: keys_distinct_def is_row_def)
  moreover have "one_owner (?ms @ [?x])"
    using inv own by (auto simp: one_owner_def db_inv_def)
  ultimately show "db_inv d'"
    using inv fk unfolding d' by (intro db_inv_memberships) (auto simp: db_inv_def)
  show "t_events d' = t_events d" by (simp add: d')
  show none: "role_of d r (ur_id ref) = None" using new by (simp add: role_of_def row_role_None)
  show "role_of d' = (role_of d)(r := (role_of d r)(ur_id ref \<mapsto> ro))"
    using none
    by (auto simp: d' fun_eq_iff role_of_memberships row_role_append role_of_def id_eq_iff
        split: option.splits)
qed

lemma Remove_Ok:
  assumes inv: "db_inv d" and ok: "Remove oc r u d = (Ok (), d')"
  shows "db_inv d'" "t_events d' = t_events d"
    "\<exists>ro. role_of d r u = Some ro \<and> ro \<noteq> MembershipRoleOwner"
    "role_of d' = (role_of d)(r := (role_of d r)(u := None))"
proof -
  let ?gone = "\<lambda>m. is_row (room_int64 r) (user_int64 u) m \<and> mb_role m \<noteq> MembershipRoleOwner"
  let ?ms = "filter (\<lambda>m. \<not> ?gone m) (t_memberships d)"
  from ok have ex: "\<exists>m \<in> set (t_memberships d). ?gone m" and d': "d' = d\<lparr>t_memberships := ?ms\<rparr>"
    by (auto simp: Remove_def run_stmt_Ok removeSQL_def Let_def split: prod.splits sum.splits if_splits
        dest!: run_stmt_Ok [THEN iffD1])
  have "keys_distinct ?ms" using db_inv_keys [OF inv] by (auto simp: keys_distinct_def distinct_map_filter)
  moreover have "one_owner ?ms"
    using inv by (auto simp: one_owner_def db_inv_def filter_filter conj_commute distinct_map inj_on_def)
  ultimately show "db_inv d'"
    using inv unfolding d' by (intro db_inv_memberships) (auto simp: db_inv_def)
  show "t_events d' = t_events d" by (simp add: d')
  show r: "\<exists>ro. role_of d r u = Some ro \<and> ro \<noteq> MembershipRoleOwner"
    using ex row_role_Some [OF db_inv_keys [OF inv]] unfolding role_of_def by blast
  show "role_of d' = (role_of d)(r := (role_of d r)(u := None))"
    using r by (auto simp: d' fun_eq_iff role_of_memberships row_role_filter [OF db_inv_keys [OF inv]]
        role_of_def id_eq_iff)
qed

lemma GetRole_Ok: "GetRole oc r u d = (Ok ro, d') \<Longrightarrow> d' = d \<and> role_of d r u = Some ro"
  by (auto simp: GetRole_def role_of_def row_role_def split: if_splits option.splits)

lemma UpdateRole_Ok:
  assumes inv: "db_inv d" and ok: "UpdateRole oc r u ro d = (Ok (), d')"
  shows "db_inv d'" "t_events d' = t_events d" "role_of d r u \<noteq> None"
    "role_of d' = (role_of d)(r := (role_of d r)(u \<mapsto> ro))"
proof -
  let ?ms = "set_role (room_int64 r) (user_int64 u) ro (t_memberships d)"
  from ok have own: "one_owner ?ms" and d': "d' = d\<lparr>t_memberships := ?ms\<rparr>"
    and ex: "\<exists>m \<in> set (t_memberships d). is_row (room_int64 r) (user_int64 u) m"
    by (auto simp: UpdateRole_def updateRoleSQL_def Let_def filter_empty_conv
        split: prod.splits sum.splits if_splits dest!: run_stmt_Ok [THEN iffD1])
  show "db_inv d'" using inv own unfolding d'
    by (intro db_inv_memberships) (simp_all add: db_inv_keys, simp_all add: db_inv_def)
  show "t_events d' = t_events d" by (simp add: d')
  show r: "role_of d r u \<noteq> None" using ex by (auto simp: role_of_def row_role_None)
  show "role_of d' = (role_of d)(r := (role_of d r)(u \<mapsto> ro))"
    using r by (auto simp: d' fun_eq_iff role_of_memberships row_role_set_role role_of_def id_eq_iff)
qed

lemma TransferOwnership_Ok:
  assumes inv: "db_inv d" and ok: "TransferOwnership oc r u v d = (Ok (), d')" and ne: "u \<noteq> v"
  shows "db_inv d'" "t_events d' = t_events d" "role_of d r u = Some MembershipRoleOwner"
    "role_of d r v \<noteq> None"
    "role_of d' = (role_of d)(r := (role_of d r)(u \<mapsto> MembershipRoleAdmin, v \<mapsto> MembershipRoleOwner))"
proof -
  let ?ms = "t_memberships d"
  let ?ms' = "set_role (room_int64 r) (user_int64 v) MembershipRoleOwner
                (set_role (room_int64 r) (user_int64 u) MembershipRoleAdmin ?ms)"
  from ok ne have d': "d' = d\<lparr>t_memberships := ?ms'\<rparr>"
    and exv: "\<exists>m \<in> set ?ms. is_row (room_int64 r) (user_int64 v) m"
    and exu: "\<exists>m \<in> set ?ms. is_row (room_int64 r) (user_int64 u) m \<and> mb_role m = MembershipRoleOwner"
    by (auto simp: TransferOwnership_def transferOwnershipSQL_def Let_def
        split: prod.splits sum.splits if_splits dest!: run_stmt_Ok [THEN iffD1])
  show u: "role_of d r u = Some MembershipRoleOwner"
    using exu row_role_Some [OF db_inv_keys [OF inv]] by (auto simp: role_of_def)
  show v: "role_of d r v \<noteq> None" using exv by (auto simp: role_of_def row_role_None)
  show upd: "role_of d' = (role_of d)(r := (role_of d r)(u \<mapsto> MembershipRoleAdmin, v \<mapsto> MembershipRoleOwner))"
    using u v by (auto simp: d' fun_eq_iff role_of_memberships row_role_set_role role_of_def id_eq_iff)
  have keys: "keys_distinct ?ms'" using db_inv_keys [OF inv] by simp
  have "one_owner ?ms'" unfolding one_owner_roles [OF keys]
  proof (intro allI impI)
    fix rid a b
    assume a: "row_role ?ms' rid a = Some MembershipRoleOwner"
      and b: "row_role ?ms' rid b = Some MembershipRoleOwner"
    have "one_owner ?ms" using inv by (simp add: db_inv_def)
    then have old: "row_role ?ms rid x = Some MembershipRoleOwner \<Longrightarrow>
        row_role ?ms rid y = Some MembershipRoleOwner \<Longrightarrow> x = y" for x y
      using one_owner_roles [OF db_inv_keys [OF inv]] by blast
    show "a = b"
    proof (cases "rid = room_int64 r")
      case True
      have "x = user_int64 v" if "row_role ?ms' rid x = Some MembershipRoleOwner" for x
        using that old [of x "user_int64 u"] u True
        by (auto simp: row_role_set_role role_of_def split: if_splits)
      then show ?thesis using a b by metis
    next
      case False
      then show ?thesis using a b old by (simp add: row_role_set_role)
    qed
  qed
  then show "db_inv d'" using inv keys unfolding d'
    by (intro db_inv_memberships) (simp_all add: db_inv_def)
  show "t_events d' = t_events d" by (simp add: d')
qed

subsection \<open>The abstract roster machine\<close>

text \<open>
  The specification of durable membership: a join admits a non-member as an ordinary member, a leave
  removes a member who does not own the room, a role change is one the policy of \<open>CanSetRole\<close> permits,
  and a transfer hands the owner role to another member and keeps the former owner as an admin.
\<close>

type_synonym roster = "room_id \<Rightarrow> user_id \<Rightarrow> membership_role option"

inductive roster_step :: "roster \<Rightarrow> roster \<Rightarrow> bool" where
  join: "\<rho> r u = None \<Longrightarrow> roster_step \<rho> (\<rho>(r := (\<rho> r)(u \<mapsto> MembershipRoleMember)))"
| leave: "\<rho> r u = Some ro \<Longrightarrow> ro \<noteq> MembershipRoleOwner \<Longrightarrow> roster_step \<rho> (\<rho>(r := (\<rho> r)(u := None)))"
| change: "\<rho> r a = Some ra \<Longrightarrow> \<rho> r t = Some rt \<Longrightarrow> CanSetRole ra rt ro
     \<Longrightarrow> roster_step \<rho> (\<rho>(r := (\<rho> r)(t \<mapsto> ro)))"
| transfer: "\<rho> r a = Some MembershipRoleOwner \<Longrightarrow> \<rho> r n = Some rn \<Longrightarrow> a \<noteq> n
     \<Longrightarrow> roster_step \<rho> (\<rho>(r := (\<rho> r)(a \<mapsto> MembershipRoleAdmin, n \<mapsto> MembershipRoleOwner)))"

inductive_cases roster_stepE: "roster_step \<rho> \<rho>'"

definition owned :: "roster \<Rightarrow> room_id \<Rightarrow> bool" where
  "owned \<rho> r \<longleftrightarrow> (\<exists>!u. \<rho> r u = Some MembershipRoleOwner)"

lemma owned_member_step:
  assumes "owned \<rho> r" and "r' = r \<Longrightarrow> \<rho> r u \<noteq> Some MembershipRoleOwner" and "x \<noteq> Some MembershipRoleOwner"
  shows "owned (\<rho>(r' := (\<rho> r')(u := x))) r"
proof -
  have "(\<rho>(r' := (\<rho> r')(u := x))) r v = Some MembershipRoleOwner \<longleftrightarrow> \<rho> r v = Some MembershipRoleOwner" for v
    using assms by auto
  then show ?thesis using assms(1) by (simp add: owned_def)
qed

lemma roster_step_owned: "roster_step \<rho> \<rho>' \<Longrightarrow> owned \<rho> r \<Longrightarrow> owned \<rho>' r"
proof (induction rule: roster_step.induct)
  case (join \<rho> r0 u)
  then show ?case by (intro owned_member_step) auto
next
  case (leave \<rho> r0 u ro)
  then show ?case by (intro owned_member_step) auto
next
  case (change \<rho> r0 a ra t rt ro)
  then show ?case by (intro owned_member_step) (auto simp: CanSetRole_def)
next
  case (transfer \<rho> r0 a n rn)
  then show ?case by (cases "r0 = r") (auto simp: owned_def)
qed

lemma roster_steps_owned: "roster_step\<^sup>*\<^sup>* \<rho> \<rho>' \<Longrightarrow> owned \<rho> r \<Longrightarrow> owned \<rho>' r"
  by (induction rule: rtranclp_induct) (auto intro: roster_step_owned)

subsection \<open>The contract of the store\<close>

text \<open>
  What the Room grain relies on. A call that reports success performed its transition; a call that
  reports an error changed nothing, unless the reply to a commit was lost (\<open>lost\<close>), in which case the
  tables are those of the transition.
\<close>

locale membership_store =
  fixes inv :: "'db \<Rightarrow> bool"
    and roles :: "'db \<Rightarrow> roster"
    and lost :: "'env \<Rightarrow> bool"
    and rec_join :: "'env \<Rightarrow> room_id \<Rightarrow> user_ref \<Rightarrow> 'db \<Rightarrow> (store_error, durable_event) result \<times> 'db"
    and rec_leave :: "'env \<Rightarrow> room_id \<Rightarrow> user_ref \<Rightarrow> 'db \<Rightarrow> (store_error, durable_event) result \<times> 'db"
    and rec_change :: "'env \<Rightarrow> room_id \<Rightarrow> user_id \<Rightarrow> user_id \<Rightarrow> membership_role \<Rightarrow> 'db \<Rightarrow> (store_error, unit) result \<times> 'db"
    and rec_transfer :: "'env \<Rightarrow> room_id \<Rightarrow> user_id \<Rightarrow> user_id \<Rightarrow> 'db \<Rightarrow> (store_error, unit) result \<times> 'db"
  assumes join_Ok: "inv d \<Longrightarrow> rec_join env r ref d = (Ok e, d') \<Longrightarrow>
      inv d' \<and> roles d r (ur_id ref) = None
      \<and> roles d' = (roles d)(r := (roles d r)(ur_id ref \<mapsto> MembershipRoleMember))"
    and join_Err: "rec_join env r ref d = (Err x, d') \<Longrightarrow>
      d' = d \<or> (lost env \<and> (\<exists>env' e. rec_join env' r ref d = (Ok e, d')))"
    and leave_Ok: "inv d \<Longrightarrow> rec_leave env r ref d = (Ok e, d') \<Longrightarrow>
      inv d' \<and> (\<exists>ro. roles d r (ur_id ref) = Some ro \<and> ro \<noteq> MembershipRoleOwner)
      \<and> roles d' = (roles d)(r := (roles d r)(ur_id ref := None))"
    and leave_Err: "rec_leave env r ref d = (Err x, d') \<Longrightarrow>
      d' = d \<or> (lost env \<and> (\<exists>env' e. rec_leave env' r ref d = (Ok e, d')))"
    and change_Ok: "inv d \<Longrightarrow> rec_change env r a t ro d = (Ok (), d') \<Longrightarrow>
      inv d' \<and> (\<exists>ra rt. roles d r a = Some ra \<and> roles d r t = Some rt \<and> CanSetRole ra rt ro)
      \<and> roles d' = (roles d)(r := (roles d r)(t \<mapsto> ro))"
    and change_Err: "rec_change env r a t ro d = (Err x, d') \<Longrightarrow>
      d' = d \<or> (lost env \<and> (\<exists>env'. rec_change env' r a t ro d = (Ok (), d')))"
    and transfer_Ok: "inv d \<Longrightarrow> rec_transfer env r a n d = (Ok (), d') \<Longrightarrow>
      inv d' \<and> roles d r a = Some MembershipRoleOwner \<and> roles d r n \<noteq> None
      \<and> roles d' = (if a = n then roles d
           else (roles d)(r := (roles d r)(a \<mapsto> MembershipRoleAdmin, n \<mapsto> MembershipRoleOwner)))"
    and transfer_Err: "rec_transfer env r a n d = (Err x, d') \<Longrightarrow>
      d' = d \<or> (lost env \<and> (\<exists>env'. rec_transfer env' r a n d = (Ok (), d')))"
begin

text \<open>Every call, whatever it reports, is a step of the roster machine or leaves the roster alone.\<close>

lemma join_step:
  assumes "inv d" and "rec_join env r a d = (res, d')"
  shows "inv d' \<and> roster_step\<^sup>*\<^sup>* (roles d) (roles d')"
proof -
  have ok: "inv d' \<and> roster_step\<^sup>*\<^sup>* (roles d) (roles d')" if "rec_join env' r a d = (Ok e, d')" for env' e
    using join_Ok [OF assms(1) that] roster_step.join [of "roles d" r "ur_id a"] by auto
  show ?thesis using assms join_Err ok by (cases res) blast+
qed

lemma leave_step:
  assumes "inv d" and "rec_leave env r a d = (res, d')"
  shows "inv d' \<and> roster_step\<^sup>*\<^sup>* (roles d) (roles d')"
proof -
  have ok: "inv d' \<and> roster_step\<^sup>*\<^sup>* (roles d) (roles d')" if "rec_leave env' r a d = (Ok e, d')" for env' e
    using leave_Ok [OF assms(1) that] roster_step.leave [of "roles d" r "ur_id a"] by auto
  show ?thesis using assms leave_Err ok by (cases res) blast+
qed

lemma change_step:
  assumes "inv d" and "rec_change env r a t ro d = (res, d')"
  shows "inv d' \<and> roster_step\<^sup>*\<^sup>* (roles d) (roles d')"
proof -
  have ok: "inv d' \<and> roster_step\<^sup>*\<^sup>* (roles d) (roles d')" if "rec_change env' r a t ro d = (Ok (), d')" for env'
    using change_Ok [OF assms(1) that] roster_step.change [of "roles d" r a _ t _ ro] by auto
  show ?thesis using assms change_Err ok by (cases res) (metis (full_types) rtranclp.rtrancl_refl unit.exhaust)+
qed

lemma transfer_step:
  assumes "inv d" and "rec_transfer env r a n d = (res, d')"
  shows "inv d' \<and> roster_step\<^sup>*\<^sup>* (roles d) (roles d')"
proof -
  have ok: "inv d' \<and> roster_step\<^sup>*\<^sup>* (roles d) (roles d')" if "rec_transfer env' r a n d = (Ok (), d')" for env'
    using transfer_Ok [OF assms(1) that] roster_step.transfer [of "roles d" r a n] by auto
  show ?thesis using assms transfer_Err ok by (cases res) (metis (full_types) rtranclp.rtrancl_refl unit.exhaust)+
qed

end

subsection \<open>The store meets its contract\<close>

definition transition_row ::
  "room_id \<Rightarrow> user_ref \<Rightarrow> event_type \<Rightarrow> durable_event \<Rightarrow> event_row" where
  "transition_row r a ty e =
     \<lparr>ev_id = event_int64 (de_ID e), ev_room = room_int64 r, ev_type = ty,
      ev_user = user_int64 (ur_id a), ev_occurred_at = de_OccurredAt e,
      ev_payload = MemberEventPayload (ur_name a)\<rparr>"

lemma db_inv_append_event:
  "db_inv d \<Longrightarrow> ev_id e \<notin> ev_id ` set (t_events d) \<Longrightarrow> ev_room e \<in> rm_id ` set (t_rooms d)
     \<Longrightarrow> ev_user e \<in> su_id ` set (t_users d) \<Longrightarrow> db_inv (d\<lparr>t_events := t_events d @ [e]\<rparr>)"
  by (simp add: db_inv_def)

lemma AppendMembership_Ok:
  assumes "AppendMembership mint now oc r a k d = (Ok (eid, t), d')"
  shows "oc = Acked" "mint = Ok (event_int64 eid)" "0 < event_int64 eid" "t = now"
    "\<exists>ty. eventType k = Ok ty
       \<and> d' = d\<lparr>t_events := t_events d @ [transition_row r a ty \<lparr>de_ID = eid, de_OccurredAt = t\<rparr>]\<rparr>"
    "event_int64 eid \<notin> ev_id ` set (t_events d)" "db_inv d \<Longrightarrow> db_inv d'"
proof -
  from assms obtain ty where "oc = Acked" "mint = Ok (event_int64 eid)" "0 < event_int64 eid" "t = now"
    and ty: "eventType k = Ok ty"
    and d': "d' = d\<lparr>t_events := t_events d @ [transition_row r a ty \<lparr>de_ID = eid, de_OccurredAt = t\<rparr>]\<rparr>"
    and new: "event_int64 eid \<notin> ev_id ` set (t_events d)" "room_int64 r \<in> rm_id ` set (t_rooms d)"
      "user_int64 (ur_id a) \<in> su_id ` set (t_users d)"
    by (auto simp: AppendMembership_def appendEventSQL_def transition_row_def
        split: sum.splits prod.splits if_splits dest!: run_stmt_Ok [THEN iffD1])
  then show "oc = Acked" "mint = Ok (event_int64 eid)" "0 < event_int64 eid" "t = now"
    "\<exists>ty. eventType k = Ok ty
       \<and> d' = d\<lparr>t_events := t_events d @ [transition_row r a ty \<lparr>de_ID = eid, de_OccurredAt = t\<rparr>]\<rparr>"
    "event_int64 eid \<notin> ev_id ` set (t_events d)" by blast+
  show "db_inv d \<Longrightarrow> db_inv d'"
    unfolding d' using new by (intro db_inv_append_event) (auto simp: transition_row_def)
qed

text \<open>A recorded transition is the row write followed by the event, both in the tables.\<close>

lemma record_transition_Ok:
  assumes "record_transition env r a k mutate d = (Ok e, d')"
  obtains d1 where "mutate (tx_stmt env 0) d = (Ok (), d1)"
    "AppendMembership (tx_mint env) (tx_now env) (tx_stmt env 1) r a k d1
       = (Ok (de_ID e, de_OccurredAt e), d')"
  using assms
  by (auto simp: record_transition_def WithinTx_Ok then_stmt_Ok return_stmt_def)

lemma WithinTx_lost:
  assumes "WithinTx env fn d = (Err e, d')"
  shows "d' = d \<or> (tx_commit env = Unacked \<and> (\<exists>x. WithinTx (env\<lparr>tx_commit := Acked\<rparr>) fn d = (Ok x, d')))"
  using assms by (auto simp: WithinTx_def split: prod.splits sum.splits outcome.splits if_splits)

lemma record_transition_Err:
  assumes "record_transition env r a k mutate d = (Err e, d')"
  shows "d' = d \<or> (tx_commit env = Unacked
    \<and> (\<exists>x. record_transition (env\<lparr>tx_commit := Acked\<rparr>) r a k mutate d = (Ok x, d')))"
  using assms WithinTx_lost by (fastforce simp: record_transition_def)

lemma RecordJoin_Ok:
  assumes inv: "db_inv d" and ok: "RecordJoin env r a d = (Ok e, d')"
  shows "db_inv d'" "role_of d r (ur_id a) = None"
    "role_of d' = (role_of d)(r := (role_of d r)(ur_id a \<mapsto> MembershipRoleMember))"
    "t_events d' = t_events d @ [transition_row r a EvMemberJoined e]"
    "event_int64 (de_ID e) \<notin> ev_id ` set (t_events d)" "0 < event_int64 (de_ID e)"
    "de_OccurredAt e = tx_now env"
proof -
  obtain d1 where add: "Add (tx_stmt env 0) (tx_now env) r a MembershipRoleMember d = (Ok (), d1)"
    and app: "AppendMembership (tx_mint env) (tx_now env) (tx_stmt env 1) r a MemberJoined d1
       = (Ok (de_ID e, de_OccurredAt e), d')"
    using record_transition_Ok [OF ok [unfolded RecordJoin_def]] by blast
  note A = Add_Ok [OF inv add] and B = AppendMembership_Ok [OF app]
  have d': "d' = d1\<lparr>t_events := t_events d1 @ [transition_row r a EvMemberJoined e]\<rparr>"
    using B(5) by (auto simp: eventType_def transition_row_def)
  show "db_inv d'" using A(1) B(7) by blast
  show "role_of d r (ur_id a) = None" by (rule A(3))
  show "role_of d' = (role_of d)(r := (role_of d r)(ur_id a \<mapsto> MembershipRoleMember))"
    using A(4) d' by simp
  show "t_events d' = t_events d @ [transition_row r a EvMemberJoined e]" using d' A(2) by simp
  show "event_int64 (de_ID e) \<notin> ev_id ` set (t_events d)" using B(6) A(2) by simp
  show "0 < event_int64 (de_ID e)" "de_OccurredAt e = tx_now env" using B(3,4) by simp_all
qed

lemma RecordLeave_Ok:
  assumes inv: "db_inv d" and ok: "RecordLeave env r a d = (Ok e, d')"
  shows "db_inv d'" "\<exists>ro. role_of d r (ur_id a) = Some ro \<and> ro \<noteq> MembershipRoleOwner"
    "role_of d' = (role_of d)(r := (role_of d r)(ur_id a := None))"
    "t_events d' = t_events d @ [transition_row r a EvMemberLeft e]"
    "event_int64 (de_ID e) \<notin> ev_id ` set (t_events d)" "0 < event_int64 (de_ID e)"
    "de_OccurredAt e = tx_now env"
proof -
  obtain d1 where rem: "Remove (tx_stmt env 0) r (ur_id a) d = (Ok (), d1)"
    and app: "AppendMembership (tx_mint env) (tx_now env) (tx_stmt env 1) r a MemberLeft d1
       = (Ok (de_ID e, de_OccurredAt e), d')"
    using record_transition_Ok [OF ok [unfolded RecordLeave_def]] by blast
  note A = Remove_Ok [OF inv rem] and B = AppendMembership_Ok [OF app]
  have d': "d' = d1\<lparr>t_events := t_events d1 @ [transition_row r a EvMemberLeft e]\<rparr>"
    using B(5) by (auto simp: eventType_def MemberJoined_def MemberLeft_def transition_row_def)
  show "db_inv d'" using A(1) B(7) by blast
  show "\<exists>ro. role_of d r (ur_id a) = Some ro \<and> ro \<noteq> MembershipRoleOwner" by (rule A(3))
  show "role_of d' = (role_of d)(r := (role_of d r)(ur_id a := None))" using A(4) d' by simp
  show "t_events d' = t_events d @ [transition_row r a EvMemberLeft e]" using d' A(2) by simp
  show "event_int64 (de_ID e) \<notin> ev_id ` set (t_events d)" using B(6) A(2) by simp
  show "0 < event_int64 (de_ID e)" "de_OccurredAt e = tx_now env" using B(3,4) by simp_all
qed

lemma RecordJoin_Err:
  assumes "RecordJoin env r a d = (Err e, d')"
  shows "d' = d \<or> (tx_commit env = Unacked \<and> (\<exists>env' x. RecordJoin env' r a d = (Ok x, d')))"
proof -
  have "RecordJoin (env\<lparr>tx_commit := Acked\<rparr>) r a =
      record_transition (env\<lparr>tx_commit := Acked\<rparr>) r a MemberJoined
        (\<lambda>oc. Add oc (tx_now env) r a MembershipRoleMember)"
    by (simp add: RecordJoin_def)
  then show ?thesis using record_transition_Err [OF assms [unfolded RecordJoin_def]] by metis
qed

lemma RecordLeave_Err:
  assumes "RecordLeave env r a d = (Err e, d')"
  shows "d' = d \<or> (tx_commit env = Unacked \<and> (\<exists>env' x. RecordLeave env' r a d = (Ok x, d')))"
  using record_transition_Err [OF assms [unfolded RecordLeave_def]] unfolding RecordLeave_def by metis

lemma RecordRoleChange_Ok:
  assumes inv: "db_inv d" and ok: "RecordRoleChange env r a t ro d = (Ok (), d')"
  shows "db_inv d'" "\<exists>ra rt. role_of d r a = Some ra \<and> role_of d r t = Some rt \<and> CanSetRole ra rt ro"
    "role_of d' = (role_of d)(r := (role_of d r)(t \<mapsto> ro))" "t_events d' = t_events d"
proof -
  from ok obtain ra rt where "role_of d r a = Some ra" "role_of d r t = Some rt" "CanSetRole ra rt ro"
    and upd: "UpdateRole (tx_stmt env 2) r t ro d = (Ok (), d')"
    by (auto simp: RecordRoleChange_def WithinTx_Ok then_stmt_Ok fail_stmt_def
        split: if_splits dest!: GetRole_Ok)
  then show "\<exists>ra rt. role_of d r a = Some ra \<and> role_of d r t = Some rt \<and> CanSetRole ra rt ro" by blast
  show "db_inv d'" "role_of d' = (role_of d)(r := (role_of d r)(t \<mapsto> ro))" "t_events d' = t_events d"
    using UpdateRole_Ok [OF inv upd] by simp_all
qed

lemma RecordRoleChange_Err:
  assumes "RecordRoleChange env r a t ro d = (Err e, d')"
  shows "d' = d \<or> (tx_commit env = Unacked \<and> (\<exists>env'. RecordRoleChange env' r a t ro d = (Ok (), d')))"
proof -
  have eq: "RecordRoleChange (env\<lparr>tx_commit := Acked\<rparr>) r a t ro =
      WithinTx (env\<lparr>tx_commit := Acked\<rparr>)
       (then_stmt (GetRole (tx_stmt env 0) r a) (\<lambda>actorRole.
        then_stmt (GetRole (tx_stmt env 1) r t) (\<lambda>targetRole.
        if \<not> CanSetRole actorRole targetRole ro then fail_stmt ErrRolePermissionDenied
        else UpdateRole (tx_stmt env 2) r t ro)))"
    by (simp add: RecordRoleChange_def cong: if_cong)
  show ?thesis using WithinTx_lost [OF assms [unfolded RecordRoleChange_def]] unfolding eq [symmetric] by auto
qed

lemma RecordOwnershipTransfer_Ok:
  assumes inv: "db_inv d" and ok: "RecordOwnershipTransfer env r a n d = (Ok (), d')"
  shows "db_inv d'" "role_of d r a = Some MembershipRoleOwner" "role_of d r n \<noteq> None"
    "role_of d' = (if a = n then role_of d
       else (role_of d)(r := (role_of d r)(a \<mapsto> MembershipRoleAdmin, n \<mapsto> MembershipRoleOwner)))"
    "t_events d' = t_events d"
proof -
  from ok have owner: "role_of d r a = Some MembershipRoleOwner"
    and eq: "a = n \<Longrightarrow> d' = d"
    and tr: "a \<noteq> n \<Longrightarrow> TransferOwnership (tx_stmt env 2) r a n d = (Ok (), d')"
    by (auto simp: RecordOwnershipTransfer_def WithinTx_Ok then_stmt_Ok fail_stmt_def return_stmt_def
        CanTransferOwnership_def split: if_splits dest!: GetRole_Ok)
  note T = TransferOwnership_Ok [OF inv tr]
  show "db_inv d'" using inv eq T(1) by (cases "a = n") auto
  show "role_of d r a = Some MembershipRoleOwner" by (rule owner)
  show "role_of d r n \<noteq> None" using owner T(4) by (cases "a = n") auto
  show "role_of d' = (if a = n then role_of d
       else (role_of d)(r := (role_of d r)(a \<mapsto> MembershipRoleAdmin, n \<mapsto> MembershipRoleOwner)))"
    using eq T(5) by (cases "a = n") auto
  show "t_events d' = t_events d" using eq T(2) by (cases "a = n") auto
qed

lemma RecordOwnershipTransfer_Err:
  assumes "RecordOwnershipTransfer env r a n d = (Err e, d')"
  shows "d' = d \<or> (tx_commit env = Unacked \<and> (\<exists>env'. RecordOwnershipTransfer env' r a n d = (Ok (), d')))"
proof -
  have eq: "RecordOwnershipTransfer (env\<lparr>tx_commit := Acked\<rparr>) r a n =
      WithinTx (env\<lparr>tx_commit := Acked\<rparr>)
       (then_stmt (GetRole (tx_stmt env 0) r a) (\<lambda>actorRole.
        if \<not> CanTransferOwnership actorRole then fail_stmt ErrRolePermissionDenied
        else if a = n then return_stmt ()
        else then_stmt (GetRole (tx_stmt env 1) r n) (\<lambda>_.
             TransferOwnership (tx_stmt env 2) r a n)))"
    by (simp add: RecordOwnershipTransfer_def cong: if_cong)
  show ?thesis using WithinTx_lost [OF assms [unfolded RecordOwnershipTransfer_def]] unfolding eq [symmetric] by auto
qed

interpretation store: membership_store db_inv role_of "\<lambda>env. tx_commit env = Unacked"
  RecordJoin RecordLeave RecordRoleChange RecordOwnershipTransfer
proof unfold_locales
  show "db_inv d' \<and> role_of d r (ur_id ref) = None
      \<and> role_of d' = (role_of d)(r := (role_of d r)(ur_id ref \<mapsto> MembershipRoleMember))"
    if "db_inv d" "RecordJoin env r ref d = (Ok e, d')" for d env r ref e d'
    using RecordJoin_Ok [OF that] by simp
  show "db_inv d' \<and> (\<exists>ro. role_of d r (ur_id ref) = Some ro \<and> ro \<noteq> MembershipRoleOwner)
      \<and> role_of d' = (role_of d)(r := (role_of d r)(ur_id ref := None))"
    if "db_inv d" "RecordLeave env r ref d = (Ok e, d')" for d env r ref e d'
    using RecordLeave_Ok [OF that] by simp
  show "db_inv d' \<and> (\<exists>ra rt. role_of d r a = Some ra \<and> role_of d r t = Some rt \<and> CanSetRole ra rt ro)
      \<and> role_of d' = (role_of d)(r := (role_of d r)(t \<mapsto> ro))"
    if "db_inv d" "RecordRoleChange env r a t ro d = (Ok (), d')" for d env r a t ro d'
    using RecordRoleChange_Ok [OF that] by simp
  show "db_inv d' \<and> role_of d r a = Some MembershipRoleOwner \<and> role_of d r n \<noteq> None
      \<and> role_of d' = (if a = n then role_of d
           else (role_of d)(r := (role_of d r)(a \<mapsto> MembershipRoleAdmin, n \<mapsto> MembershipRoleOwner)))"
    if "db_inv d" "RecordOwnershipTransfer env r a n d = (Ok (), d')" for d env r a n d'
    using RecordOwnershipTransfer_Ok [OF that] by simp
qed (fact RecordJoin_Err RecordLeave_Err RecordRoleChange_Err RecordOwnershipTransfer_Err)+

subsection \<open>The roster that an activation loads\<close>

lemma filter_unique_key:
  "distinct (map f us) \<Longrightarrow> x \<in> f ` set us \<Longrightarrow> \<exists>u. filter (\<lambda>u. f u = x) us = [u] \<and> f u = x"
proof (induction us)
  case (Cons a us)
  then show ?case by (cases "f a = x") (auto simp: filter_empty_conv image_iff)
qed simp

lemma listByRoomSQL_keys:
  assumes inv: "db_inv d"
  shows "map (\<lambda>p. mb_user (fst p)) (listByRoomSQL rid d) =
    map mb_user (sort_key (\<lambda>m. (mb_joined_at m, mb_user m)) (filter (\<lambda>m. mb_room m = rid) (t_memberships d)))"
proof -
  let ?us = "t_users d"
  have key: "map (\<lambda>p. mb_user (fst p)) [(m, u). m \<leftarrow> ms, u \<leftarrow> filter (\<lambda>u. su_id u = mb_user m) ?us] = map mb_user ms"
    if "mb_user ` set ms \<subseteq> su_id ` set ?us" for ms
    using that
  proof (induction ms)
    case (Cons m ms)
    moreover obtain u where "filter (\<lambda>u. su_id u = mb_user m) ?us = [u]"
      using filter_unique_key [of su_id ?us "mb_user m"] inv Cons.prems by (auto simp: db_inv_def)
    ultimately show ?case by simp
  qed simp
  have "mb_user ` set (t_memberships d) \<subseteq> su_id ` set ?us" using inv by (simp add: db_inv_def)
  then show ?thesis unfolding listByRoomSQL_def by (intro key) auto
qed

lemma memberRow_toDomain_Ok:
  "memberRow_toDomain T p = Ok m \<Longrightarrow> ur_id (mem_User m) = UserID (mb_user (fst p)) \<and> 0 < mb_user (fst p)"
  by (auto simp: memberRow_toDomain_def dest: NewUserRef_OkD split: prod.splits sum.splits)

lemma LoadMembers_ids:
  assumes "LoadMembers T oc r d = Ok refs"
  shows "map ur_id refs = map (\<lambda>p. UserID (mb_user (fst p))) (listByRoomSQL (room_int64 r) d)"
proof -
  obtain ms where ms: "map (memberRow_toDomain T) (listByRoomSQL (room_int64 r) d) = map Inr ms"
    and refs: "refs = map mem_User ms"
    using assms by (auto simp: LoadMembers_def ListByRoom_def sequence_res_Ok_iff split: if_splits sum.splits)
  have "map (\<lambda>m. ur_id (mem_User m)) ms = map (\<lambda>p. UserID (mb_user (fst p))) ps"
    if "map (memberRow_toDomain T) ps = map Inr ms" for ps
    using that by (induction ps arbitrary: ms) (auto dest: memberRow_toDomain_Ok)
  from this [OF ms] show ?thesis by (simp add: refs comp_def)
qed

lemma LoadMembers_roster:
  assumes inv: "db_inv d" and ld: "LoadMembers T oc r d = Ok refs"
  shows "distinct (map ur_id refs)" "set (map ur_id refs) = {u. role_of d r u \<noteq> None}"
proof -
  let ?ms = "filter (\<lambda>m. mb_room m = room_int64 r) (t_memberships d)"
  have ids: "map ur_id refs = map UserID (map mb_user (sort_key (\<lambda>m. (mb_joined_at m, mb_user m)) ?ms))"
    using LoadMembers_ids [OF ld] arg_cong [OF listByRoomSQL_keys [OF inv, of "room_int64 r"], of "map UserID"]
    by (simp add: comp_def)
  have "inj_on mb_user (set ?ms)" "distinct ?ms"
    using db_inv_keys [OF inv] by (auto simp: keys_distinct_def distinct_map inj_on_def)
  then have "inj_on (\<lambda>m. UserID (mb_user m)) (set ?ms)" "distinct ?ms" by (simp_all add: inj_on_def)
  then show "distinct (map ur_id refs)" unfolding ids by (simp add: distinct_map comp_def)
  show "set (map ur_id refs) = {u. role_of d r u \<noteq> None}"
    unfolding ids
    by (auto simp: role_of_def row_role_None is_row_def image_iff) (metis user_id.collapse)
qed

subsection \<open>Sequences of calls\<close>

datatype store_call =
  CallJoin room_id user_ref | CallLeave room_id user_ref
  | CallSetRole room_id user_id user_id membership_role | CallTransfer room_id user_id user_id
  | CallMessage room_id user_id string

fun run_call :: "txenv \<Rightarrow> store_call \<Rightarrow> db \<Rightarrow> db" where
  "run_call env (CallJoin r a) d = snd (RecordJoin env r a d)"
| "run_call env (CallLeave r a) d = snd (RecordLeave env r a d)"
| "run_call env (CallSetRole r a t ro) d = snd (RecordRoleChange env r a t ro d)"
| "run_call env (CallTransfer r a n) d = snd (RecordOwnershipTransfer env r a n d)"
| "run_call env (CallMessage r u text) d = snd (RecordMessage env r u text d)"

fun run_calls :: "(txenv \<times> store_call) list \<Rightarrow> db \<Rightarrow> db" where
  "run_calls [] d = d"
| "run_calls ((env, c) # cs) d = run_calls cs (run_call env c d)"

lemma RecordMessage_tables:
  assumes "db_inv d" and "RecordMessage env r u text d = (res, d')"
  shows "db_inv d'" "role_of d' = role_of d"
proof -
  have "d' = d \<or> (\<exists>e. d' = d\<lparr>t_events := t_events d @ [e]\<rparr> \<and> ev_id e \<notin> ev_id ` set (t_events d)
      \<and> ev_room e \<in> rm_id ` set (t_rooms d) \<and> ev_user e \<in> su_id ` set (t_users d))"
    using assms(2)
    by (cases "tx_stmt env 0")
       (auto simp: RecordMessage_def AppendMessage_def appendEventSQL_def
          split: prod.splits sum.splits if_splits)
  then show "db_inv d'" "role_of d' = role_of d" using assms(1) db_inv_append_event by auto
qed

lemma run_call_step:
  assumes "db_inv d"
  shows "db_inv (run_call env c d) \<and> roster_step\<^sup>*\<^sup>* (role_of d) (role_of (run_call env c d))"
proof (cases c)
  case (CallJoin r a)
  then show ?thesis using store.join_step [OF assms prod.collapse [symmetric]] by simp
next
  case (CallLeave r a)
  then show ?thesis using store.leave_step [OF assms prod.collapse [symmetric]] by simp
next
  case (CallSetRole r a t ro)
  then show ?thesis using store.change_step [OF assms prod.collapse [symmetric]] by simp
next
  case (CallTransfer r a n)
  then show ?thesis using store.transfer_step [OF assms prod.collapse [symmetric]] by simp
next
  case (CallMessage r u body)
  then show ?thesis using RecordMessage_tables [OF assms prod.collapse [symmetric]] by simp
qed

lemma run_calls_steps:
  "db_inv d \<Longrightarrow> db_inv (run_calls cs d) \<and> roster_step\<^sup>*\<^sup>* (role_of d) (role_of (run_calls cs d))"
proof (induction cs d rule: run_calls.induct)
  case (2 env c cs d)
  then show ?case using run_call_step [of d env c] by (auto intro: rtranclp_trans)
qed simp

subsection \<open>Properties\<close>

definition healthy_env :: "instant \<Rightarrow> (mint_error, int) result \<Rightarrow> txenv" where
  "healthy_env now mint =
     \<lparr>tx_begin = True, tx_stmt = (\<lambda>_. Acked), tx_commit = Acked, tx_now = now, tx_mint = mint\<rparr>"

lemma healthy_env_simps [simp]:
  "tx_begin (healthy_env now mint)" "tx_stmt (healthy_env now mint) n = Acked"
  "tx_commit (healthy_env now mint) = Acked" "tx_now (healthy_env now mint) = now"
  "tx_mint (healthy_env now mint) = mint"
  by (simp_all add: healthy_env_def)

lemma GetRole_healthy:
  "GetRole Acked r u d =
     (case role_of d r u of None \<Rightarrow> (Err ErrMembershipNotFound, d) | Some ro \<Rightarrow> (Ok ro, d))"
  by (simp add: GetRole_def role_of_def row_role_def split: option.splits)

lemma role_of_exists: "role_of d r u \<noteq> None \<longleftrightarrow> (\<exists>m \<in> set (t_memberships d). is_row (room_int64 r) (user_int64 u) m)"
  by (auto simp: role_of_def row_role_None)

lemma one_owner_set_role:
  assumes "keys_distinct ms" and "one_owner ms" and "ro \<noteq> MembershipRoleOwner"
  shows "one_owner (set_role rid uid ro ms)"
proof -
  have "row_role ms r u = Some MembershipRoleOwner"
    if "row_role (set_role rid uid ro ms) r u = Some MembershipRoleOwner" for r u
    using that assms(3) by (auto simp: row_role_set_role split: if_splits)
  then show ?thesis
    using one_owner_roles [of ms] one_owner_roles [of "set_role rid uid ro ms"] assms(1,2)
    unfolding keys_distinct_set_role by blast
qed

definition demo_user :: "int \<Rightarrow> string \<Rightarrow> string \<Rightarrow> service_user" where
  "demo_user i code h =
     \<lparr>su_id = i, su_public_code = code, su_mail_address = h @ ''@x.io'', su_handle = h,
      su_handle_norm = h, su_display_name = h, su_password_hash = [], su_status = UserStatusActive,
      su_created_at = 0, su_updated_at = 0\<rparr>"

definition demo_db :: db where
  "demo_db =
     \<lparr>t_users = [demo_user 1 ''0000000001'' ''ann'', demo_user 2 ''0000000002'' ''bob'',
                 demo_user 3 ''0000000003'' ''cyd''],
      t_rooms = [\<lparr>rm_id = 4, rm_public_code = ''0000000004'', rm_display_name = ''den'',
                  rm_created_by = 1, rm_status = RoomStatusActive, rm_created_at = 0,
                  rm_updated_at = 0\<rparr>],
      t_memberships =
        [\<lparr>mb_room = 4, mb_user = 1, mb_role = MembershipRoleOwner, mb_joined_at = 0\<rparr>,
         \<lparr>mb_room = 4, mb_user = 2, mb_role = MembershipRoleMember, mb_joined_at = 1\<rparr>],
      t_events = [], t_verifications = []\<rparr>"

definition demo_ref :: "int \<Rightarrow> user_ref" where
  "demo_ref i = \<lparr>ur_id = UserID i, ur_code = PublicCode ''0000000003'', ur_name = ''cyd''\<rparr>"

lemma demo_db_inv: "db_inv demo_db"
  by (simp add: db_inv_def demo_db_def demo_user_def one_owner_def)

lemma demo_roles:
  "role_of demo_db (RoomID 4) u =
     (if u = UserID 1 then Some MembershipRoleOwner
      else if u = UserID 2 then Some MembershipRoleMember else None)"
  by (cases u) (simp add: role_of_def row_role_def demo_db_def is_row_def)

lemma demo_owned: "owned (role_of demo_db) (RoomID 4)"
  unfolding owned_def by (rule ex1I [of _ "UserID 1"]) (auto simp: demo_roles split: if_splits)

lemmas demo_eval = demo_db_def demo_user_def demo_ref_def is_row_def

text \<open>
  C1. The durable membership store refines the roster machine. After any sequence of calls to the
  store, whatever statements, commits or replies fail on the way, the schema's constraints hold and
  the roster was reached by joins of non-members, leaves of non-owners, role changes the policy
  permits and ownership transfers by the owner, and by nothing else.
\<close>

theorem store_refines_roster:
  assumes "db_inv d"
  shows "db_inv (run_calls cs d) \<and> roster_step\<^sup>*\<^sup>* (role_of d) (role_of (run_calls cs d))"
  by (rule run_calls_steps [OF assms])

theorem store_refines_roster_witness:
  "db_inv demo_db
   \<and> db_inv (run_calls [(healthy_env 9 (Ok 77), CallJoin (RoomID 4) (demo_ref 3))] demo_db)
   \<and> role_of (run_calls [(healthy_env 9 (Ok 77), CallJoin (RoomID 4) (demo_ref 3))] demo_db)
       (RoomID 4) (UserID 3) = Some MembershipRoleMember
   \<and> roster_step\<^sup>*\<^sup>* (role_of demo_db)
       (role_of (run_calls [(healthy_env 9 (Ok 77), CallJoin (RoomID 4) (demo_ref 3))] demo_db))"
proof -
  have "role_of (run_calls [(healthy_env 9 (Ok 77), CallJoin (RoomID 4) (demo_ref 3))] demo_db)
       (RoomID 4) (UserID 3) = Some MembershipRoleMember"
    by (simp add: RecordJoin_def record_transition_def WithinTx_def then_stmt_def return_stmt_def Add_def
        addSQL_def AppendMembership_def eventType_def appendEventSQL_def NewEventID_def demo_eval
        role_of_def row_role_def)
  then show ?thesis using store_refines_roster [OF demo_db_inv] demo_db_inv by blast
qed

text \<open>
  C2. A room never loses its owner and never has two: if a room has exactly one owner, it has exactly
  one owner after any sequence of store calls, including calls that fail at any point and commits
  whose reply is lost.
\<close>

theorem room_keeps_one_owner:
  assumes "db_inv d" and "owned (role_of d) r"
  shows "owned (role_of (run_calls cs d)) r"
  using run_calls_steps [OF assms(1)] roster_steps_owned assms(2) by blast

theorem room_keeps_one_owner_witness:
  "owned (role_of demo_db) (RoomID 4)
   \<and> owned (role_of (run_calls
        [((healthy_env 9 (Ok 77))\<lparr>tx_commit := Unacked\<rparr>, CallTransfer (RoomID 4) (UserID 1) (UserID 2)),
         (healthy_env 10 (Ok 78), CallLeave (RoomID 4) (demo_ref 1))] demo_db)) (RoomID 4)"
  using room_keeps_one_owner [OF demo_db_inv demo_owned] demo_owned by blast

text \<open>
  A join is atomic. Whatever fails, either the tables are untouched and the caller got an error,
  or the user was not a member, is now an ordinary member, nobody else's role changed, and exactly
  one \<open>member_joined\<close> event with a fresh id was appended to the timeline.
\<close>

theorem RecordJoin_atomic:
  assumes "db_inv d" and "RecordJoin env r a d = (res, d')"
  shows "(d' = d \<and> \<not> is_ok res)
    \<or> (role_of d r (ur_id a) = None
       \<and> role_of d' = (role_of d)(r := (role_of d r)(ur_id a \<mapsto> MembershipRoleMember))
       \<and> (\<exists>e. t_events d' = t_events d @ [transition_row r a EvMemberJoined e]
              \<and> event_int64 (de_ID e) \<notin> ev_id ` set (t_events d) \<and> (is_ok res = (res = Ok e))))"
proof (cases res)
  case (Inr e)
  then show ?thesis using RecordJoin_Ok [OF assms(1)] assms(2) by (intro disjI2) force
next
  case (Inl x)
  show ?thesis
  proof (cases "d' = d")
    case True
    then show ?thesis using Inl by simp
  next
    case False
    then obtain env' e where ok: "RecordJoin env' r a d = (Ok e, d')"
      using RecordJoin_Err [of env r a d x d'] assms(2) Inl by blast
    show ?thesis
      by (rule disjI2, intro conjI exI [of _ e]) (use RecordJoin_Ok [OF assms(1) ok] Inl in simp_all)
  qed
qed

theorem RecordJoin_atomic_witness:
  "db_inv demo_db
   \<and> RecordJoin ((healthy_env 9 (Ok 77))\<lparr>tx_commit := Lost\<rparr>) (RoomID 4) (demo_ref 3) demo_db
       = (Err ErrCommitTx, demo_db)"
proof -
  have c: "RecordJoin ((healthy_env 9 (Ok 77))\<lparr>tx_commit := Lost\<rparr>) (RoomID 4) (demo_ref 3) demo_db
       = (Err ErrCommitTx, demo_db)"
    by (simp add: RecordJoin_def record_transition_def WithinTx_def then_stmt_def return_stmt_def Add_def
        addSQL_def AppendMembership_def eventType_def appendEventSQL_def NewEventID_def demo_eval)
  then show ?thesis using RecordJoin_atomic [OF demo_db_inv c] demo_db_inv by blast
qed

text \<open>
  A leave is atomic and never removes an owner: either the tables are untouched and the caller
  got an error, or the user was a member other than the owner, is a member no more, nobody else's
  role changed, and exactly one \<open>member_left\<close> event with a fresh id was appended.
\<close>

theorem RecordLeave_atomic:
  assumes "db_inv d" and "RecordLeave env r a d = (res, d')"
  shows "(d' = d \<and> \<not> is_ok res)
    \<or> ((\<exists>ro. role_of d r (ur_id a) = Some ro \<and> ro \<noteq> MembershipRoleOwner)
       \<and> role_of d' = (role_of d)(r := (role_of d r)(ur_id a := None))
       \<and> (\<exists>e. t_events d' = t_events d @ [transition_row r a EvMemberLeft e]
              \<and> event_int64 (de_ID e) \<notin> ev_id ` set (t_events d) \<and> (is_ok res = (res = Ok e))))"
proof (cases res)
  case (Inr e)
  then show ?thesis using RecordLeave_Ok [OF assms(1)] assms(2) by (intro disjI2) force
next
  case (Inl x)
  show ?thesis
  proof (cases "d' = d")
    case True
    then show ?thesis using Inl by simp
  next
    case False
    then obtain env' e where ok: "RecordLeave env' r a d = (Ok e, d')"
      using RecordLeave_Err [of env r a d x d'] assms(2) Inl by blast
    show ?thesis
      by (rule disjI2, intro conjI exI [of _ e]) (use RecordLeave_Ok [OF assms(1) ok] Inl in simp_all)
  qed
qed

theorem RecordLeave_atomic_witness:
  "db_inv demo_db
   \<and> RecordLeave (healthy_env 9 (Ok 77)) (RoomID 4) (demo_ref 1) demo_db
       = (Err ErrOwnerCannotLeave, demo_db)"
proof -
  have c: "RecordLeave (healthy_env 9 (Ok 77)) (RoomID 4) (demo_ref 1) demo_db
       = (Err ErrOwnerCannotLeave, demo_db)"
    by (simp add: RecordLeave_def record_transition_def WithinTx_def then_stmt_def Remove_def removeSQL_def
        Let_def demo_eval)
  then show ?thesis using RecordLeave_atomic [OF demo_db_inv c] demo_db_inv by blast
qed

text \<open>
  A role change is decided by the roles read in its own transaction. With a healthy database it
  succeeds exactly when actor and target are members and \<open>CanSetRole\<close> permits it, and then sets the
  target's role and nothing else; it is refused with \<open>ErrRolePermissionDenied\<close> when the policy
  refuses, and reports a missing member otherwise, both without a change.
\<close>

theorem RecordRoleChange_decided:
  assumes "db_inv d"
  shows "RecordRoleChange (healthy_env now mint) r a t ro d =
    (case role_of d r a of None \<Rightarrow> (Err ErrMembershipNotFound, d) | Some ra \<Rightarrow>
     case role_of d r t of None \<Rightarrow> (Err ErrMembershipNotFound, d) | Some rt \<Rightarrow>
     if \<not> CanSetRole ra rt ro then (Err ErrRolePermissionDenied, d)
     else (Ok (), d\<lparr>t_memberships := set_role (room_int64 r) (user_int64 t) ro (t_memberships d)\<rparr>))"
proof -
  have ok: "UpdateRole Acked r t ro d =
      (Ok (), d\<lparr>t_memberships := set_role (room_int64 r) (user_int64 t) ro (t_memberships d)\<rparr>)"
    if "role_of d r t = Some rt" "CanSetRole ra rt ro" for ra rt
  proof -
    have "ro \<noteq> MembershipRoleOwner" using that(2) by (auto simp: CanSetRole_def)
    then have "one_owner (set_role (room_int64 r) (user_int64 t) ro (t_memberships d))"
      using assms by (intro one_owner_set_role) (auto simp: db_inv_def keys_distinct_def)
    moreover have "filter (is_row (room_int64 r) (user_int64 t)) (t_memberships d) \<noteq> []"
      using that(1) role_of_exists [of d r t] by (auto simp: filter_empty_conv)
    ultimately show ?thesis by (simp add: UpdateRole_def updateRoleSQL_def Let_def)
  qed
  show ?thesis
    by (auto simp: RecordRoleChange_def WithinTx_def then_stmt_def fail_stmt_def GetRole_healthy ok
        split: option.splits)
qed

theorem RecordRoleChange_decided_witness:
  "db_inv demo_db
   \<and> RecordRoleChange (healthy_env 9 (Ok 77)) (RoomID 4) (UserID 2) (UserID 2) MembershipRoleAdmin demo_db
       = (Err ErrRolePermissionDenied, demo_db)"
  using RecordRoleChange_decided [OF demo_db_inv, of 9 "Ok 77" "RoomID 4" "UserID 2" "UserID 2"
      MembershipRoleAdmin] demo_db_inv
  by (simp add: demo_roles CanSetRole_def)

text \<open>
  An ownership transfer is decided the same way. With a healthy database it succeeds exactly when
  the actor owns the room and the new owner is a member; the former owner becomes an admin and the new
  owner the owner, nobody else changes, and a transfer to oneself is a successful no-op.
\<close>

theorem RecordOwnershipTransfer_decided:
  "RecordOwnershipTransfer (healthy_env now mint) r a n d =
    (case role_of d r a of None \<Rightarrow> (Err ErrMembershipNotFound, d) | Some ra \<Rightarrow>
     if ra \<noteq> MembershipRoleOwner then (Err ErrRolePermissionDenied, d)
     else if a = n then (Ok (), d)
     else case role_of d r n of None \<Rightarrow> (Err ErrMembershipNotFound, d) | Some rn \<Rightarrow>
     (Ok (), d\<lparr>t_memberships :=
        set_role (room_int64 r) (user_int64 n) MembershipRoleOwner
          (set_role (room_int64 r) (user_int64 a) MembershipRoleAdmin (t_memberships d))\<rparr>))"
proof -
  have "TransferOwnership Acked r a n d =
      (Ok (), d\<lparr>t_memberships :=
        set_role (room_int64 r) (user_int64 n) MembershipRoleOwner
          (set_role (room_int64 r) (user_int64 a) MembershipRoleAdmin (t_memberships d))\<rparr>)"
    if owner: "role_of d r a = Some MembershipRoleOwner" and "role_of d r n = Some rn" "a \<noteq> n" for rn
  proof -
    obtain m where "find (is_row (room_int64 r) (user_int64 a)) (t_memberships d) = Some m"
      "mb_role m = MembershipRoleOwner" using owner by (auto simp: role_of_def row_role_def)
    then have "\<exists>m \<in> set (t_memberships d).
        is_row (room_int64 r) (user_int64 a) m \<and> mb_role m = MembershipRoleOwner"
      using find_is_row by blast
    then show ?thesis using that role_of_exists [of d r n]
      by (simp add: TransferOwnership_def transferOwnershipSQL_def Let_def)
  qed
  then show ?thesis
    by (auto simp: RecordOwnershipTransfer_def WithinTx_def then_stmt_def fail_stmt_def return_stmt_def
        GetRole_healthy CanTransferOwnership_def split: option.splits)
qed

end
