(* ===== verification/RoomGrain.thy ===== *)
theory RoomGrain
  imports Wire Membership
begin

text \<open>
  The Room grain (\<open>internal/grain/room\<close>): the in-memory state, activation, the five commands with every
  branch, the fan-out payloads and the fan-out worker.

  A command is a function of the request, the environment of its database call, the grain and the
  tables; it returns the response, the grain, the tables and the jobs handed to the fan-out child.
  \<open>Init\<close> returns an error where the code panics and the activation fails. The User grain on the other
  side of a fan-out call is reached through the cluster, so \<open>notifier\<close> is a parameter: a delivery
  succeeds, fails with an error, or panics in the worker.
\<close>

subsection \<open>State\<close>

definition maxRecentMessages :: int where "maxRecentMessages = 100"

record chat_message =
  cm_senderID :: user_id
  cm_text :: string
  cm_timestamp :: instant

record room_state =
  rs_ref :: room_ref
  rs_refLoaded :: bool
  rs_members :: "(user_id, user_ref) mapping"
  rs_recentMessages :: "chat_message list"
  rs_maxRecentMessages :: int

text \<open>The zero \<open>RoomRef\<close>. Its status is no label of the enum; nothing reads it before a room is loaded.\<close>

definition zero_room_ref :: room_ref where
  "zero_room_ref = \<lparr>rr_id = zero_room_id, rr_code = zero_public_code, rr_name = [],
     rr_status = RoomStatusArchived, rr_version = 0\<rparr>"

definition newRoomState :: room_state where
  "newRoomState = \<lparr>rs_ref = zero_room_ref, rs_refLoaded = False, rs_members = Mapping.empty,
     rs_recentMessages = [], rs_maxRecentMessages = maxRecentMessages\<rparr>"

definition loadRoom_state :: "room_ref \<Rightarrow> room_state \<Rightarrow> room_state" where
  "loadRoom_state ref s = s\<lparr>rs_ref := ref, rs_refLoaded := True\<rparr>"

definition isLoaded :: "room_state \<Rightarrow> bool" where
  "isLoaded s = rs_refLoaded s"

definition addMember :: "user_ref \<Rightarrow> room_state \<Rightarrow> bool \<times> room_state" where
  "addMember ref s =
     (case Mapping.lookup (rs_members s) (ur_id ref) of
        Some _ \<Rightarrow> (False, s)
      | None \<Rightarrow> (True, s\<lparr>rs_members := Mapping.update (ur_id ref) ref (rs_members s)\<rparr>))"

definition refreshMember :: "user_ref \<Rightarrow> room_state \<Rightarrow> room_state" where
  "refreshMember ref s =
     (case Mapping.lookup (rs_members s) (ur_id ref) of
        Some _ \<Rightarrow> s\<lparr>rs_members := Mapping.update (ur_id ref) ref (rs_members s)\<rparr>
      | None \<Rightarrow> s)"

definition memberRef :: "user_id \<Rightarrow> room_state \<Rightarrow> user_ref option" where
  "memberRef u s = Mapping.lookup (rs_members s) u"

definition removeMember :: "user_id \<Rightarrow> room_state \<Rightarrow> bool \<times> room_state" where
  "removeMember u s =
     (case Mapping.lookup (rs_members s) u of
        None \<Rightarrow> (False, s)
      | Some _ \<Rightarrow> (True, s\<lparr>rs_members := Mapping.delete u (rs_members s)\<rparr>))"

definition isMember :: "user_id \<Rightarrow> room_state \<Rightarrow> bool" where
  "isMember u s \<longleftrightarrow> Mapping.lookup (rs_members s) u \<noteq> None"

definition recordMessage_state :: "chat_message \<Rightarrow> room_state \<Rightarrow> room_state" where
  "recordMessage_state msg s =
     (let bound = (if rs_maxRecentMessages s \<le> 0 then maxRecentMessages else rs_maxRecentMessages s);
          kept = (if int (length (rs_recentMessages s)) \<ge> bound
                  then drop 1 (rs_recentMessages s) else rs_recentMessages s)
      in s\<lparr>rs_recentMessages := kept @ [msg]\<rparr>)"

definition memberIDs :: "room_state \<Rightarrow> user_id list" where
  "memberIDs s = Mapping.ordered_keys (rs_members s)"

subsection \<open>Fan-out payloads and jobs\<close>

definition applyMembershipEvent :: "durable_event \<Rightarrow> notify_request \<Rightarrow> notify_request" where
  "applyMembershipEvent evt req =
     (if evt_is_zero evt then req
      else req\<lparr>nr_event_id := event_string (de_ID evt), nr_timestamp := Some (de_OccurredAt evt)\<rparr>)"

definition buildJoinedEvent :: "room_ref \<Rightarrow> user_ref \<Rightarrow> durable_event \<Rightarrow> notify_request" where
  "buildJoinedEvent room joiner evt =
     applyMembershipEvent evt
       \<lparr>nr_room = Some (protoRoomRef room), nr_user = Some (protoUserRef joiner),
        nr_event_type = EVENT_JOINED, nr_event_id = [], nr_timestamp = None\<rparr>"

definition buildLeftEvent :: "room_ref \<Rightarrow> user_ref \<Rightarrow> durable_event \<Rightarrow> notify_request" where
  "buildLeftEvent room leaver evt =
     applyMembershipEvent evt
       \<lparr>nr_room = Some (protoRoomRef room), nr_user = Some (protoUserRef leaver),
        nr_event_type = EVENT_LEFT, nr_event_id = [], nr_timestamp = None\<rparr>"

definition buildForwardMessage ::
  "room_ref \<Rightarrow> user_ref \<Rightarrow> string \<Rightarrow> instant \<Rightarrow> string \<Rightarrow> forward_request" where
  "buildForwardMessage room sender body timestamp eventID =
     \<lparr>fr_room = Some (protoRoomRef room), fr_sender = Some (protoUserRef sender), fr_text = body,
      fr_timestamp = Some timestamp, fr_event_id = eventID\<rparr>"

datatype fanout_payload = NotifyPayload notify_request | ForwardPayload forward_request

record fanout_job =
  fj_recipients :: "user_id list"
  fj_payload :: fanout_payload
  fj_msgType :: string
  fj_grainKind :: string
  fj_grainID :: string

record grain_ctx =
  cx_kind :: string
  cx_identity :: string

definition fanOutNotify :: "grain_ctx \<Rightarrow> user_id list \<Rightarrow> notify_request \<Rightarrow> string \<Rightarrow> fanout_job" where
  "fanOutNotify ctx recipients payload msgType =
     \<lparr>fj_recipients = recipients, fj_payload = NotifyPayload payload, fj_msgType = msgType,
      fj_grainKind = cx_kind ctx, fj_grainID = cx_identity ctx\<rparr>"

definition fanOutForward :: "grain_ctx \<Rightarrow> user_id list \<Rightarrow> forward_request \<Rightarrow> string \<Rightarrow> fanout_job" where
  "fanOutForward ctx recipients payload msgType =
     \<lparr>fj_recipients = recipients, fj_payload = ForwardPayload payload, fj_msgType = msgType,
      fj_grainKind = cx_kind ctx, fj_grainID = cx_identity ctx\<rparr>"

subsection \<open>The grain\<close>

text \<open>\<open>g_membership\<close>, \<open>g_messages\<close> and \<open>g_fanout\<close> say whether the store or the dispatcher is wired (not nil).\<close>

record grain =
  g_state :: room_state
  g_membership :: bool
  g_messages :: bool
  g_fanout :: bool

definition hydrate ::
  "text_lib \<Rightarrow> outcome \<Rightarrow> grain_ctx \<Rightarrow> grain \<Rightarrow> db \<Rightarrow> (store_error, bool \<times> grain) result" where
  "hydrate T oc ctx g d =
     (case ParseRoomID (cx_identity ctx) of
        Inl e \<Rightarrow> Ok (False, g)
      | Inr roomID \<Rightarrow>
          (case LoadRoom T oc roomID d of
             Inr ref \<Rightarrow>
               if rr_status ref = RoomStatusActive
               then Ok (True, g\<lparr>g_state := loadRoom_state ref (g_state g)\<rparr>)
               else Ok (False, g)
           | Inl e \<Rightarrow> if e = ErrRoomNotFound then Ok (False, g) else Err e))"

definition loadMembers :: "text_lib \<Rightarrow> outcome \<Rightarrow> grain \<Rightarrow> db \<Rightarrow> (store_error, grain) result" where
  "loadMembers T oc g d =
     (if \<not> g_membership g then Ok g
      else case LoadMembers T oc (rr_id (rs_ref (g_state g))) d of
             Inl e \<Rightarrow> Err e
           | Inr members \<Rightarrow>
               Ok (g\<lparr>g_state := fold (\<lambda>ref s. snd (addMember ref s)) members (g_state g)\<rparr>))"

definition Init ::
  "text_lib \<Rightarrow> outcome \<Rightarrow> outcome \<Rightarrow> grain_ctx \<Rightarrow> grain \<Rightarrow> db \<Rightarrow> (store_error, grain) result" where
  "Init T oc1 oc2 ctx g d =
     (case hydrate T oc1 ctx (g\<lparr>g_state := newRoomState\<rparr>) d of
        Inl e \<Rightarrow> Err e
      | Inr (usable, g1) \<Rightarrow>
          if \<not> usable then Ok g1
          else (case loadMembers T oc2 g1 d of
                  Inl e \<Rightarrow> Err e
                | Inr g2 \<Rightarrow> Ok (g2\<lparr>g_fanout := True\<rparr>)))"

definition recordJoin_grain :: "txenv \<Rightarrow> user_ref \<Rightarrow> grain \<Rightarrow> durable_event stmt" where
  "recordJoin_grain env joiner g d =
     (if \<not> g_membership g then (Ok zero_event, d)
      else RecordJoin env (rr_id (rs_ref (g_state g))) joiner d)"

definition recordLeave_grain :: "txenv \<Rightarrow> user_ref \<Rightarrow> grain \<Rightarrow> durable_event stmt" where
  "recordLeave_grain env leaver g d =
     (if \<not> g_membership g then (Ok zero_event, d)
      else RecordLeave env (rr_id (rs_ref (g_state g))) leaver d)"

definition recordMessage_grain :: "txenv \<Rightarrow> user_id \<Rightarrow> string \<Rightarrow> grain \<Rightarrow> durable_event stmt" where
  "recordMessage_grain env author body g d =
     (if \<not> g_messages g then (Ok zero_event, d)
      else RecordMessage env (rr_id (rs_ref (g_state g))) author body d)"

definition joinErr :: "code \<Rightarrow> string \<Rightarrow> join_response" where
  "joinErr c msg = \<lparr>jresp_error = Some (errDetail c msg), jresp_room = None\<rparr>"

definition joinErrWithRoom :: "code \<Rightarrow> string \<Rightarrow> proto_room_ref \<Rightarrow> join_response" where
  "joinErrWithRoom c msg room = (joinErr c msg)\<lparr>jresp_room := Some room\<rparr>"

definition leaveErr :: "code \<Rightarrow> string \<Rightarrow> ack" where
  "leaveErr c msg = Some (errDetail c msg)"

definition postErr :: "code \<Rightarrow> string \<Rightarrow> post_response" where
  "postErr c msg = \<lparr>presp_timestamp = None, presp_error = Some (errDetail c msg)\<rparr>"

definition setRoleErr :: "code \<Rightarrow> string \<Rightarrow> ack" where
  "setRoleErr c msg = Some (errDetail c msg)"

definition transferErr :: "code \<Rightarrow> string \<Rightarrow> ack" where
  "transferErr c msg = Some (errDetail c msg)"

definition Join ::
  "text_lib \<Rightarrow> txenv \<Rightarrow> grain_ctx \<Rightarrow> proto_user_ref option \<Rightarrow> grain \<Rightarrow> db
     \<Rightarrow> join_response \<times> grain \<times> db \<times> fanout_job list" where
  "Join T env ctx user g d =
     (if \<not> isLoaded (g_state g) then (joinErr RoomNotFound ''room not found'', g, d, [])
      else let roomRef = rs_ref (g_state g); room = protoRoomRef roomRef in
        case parseUserRef T user of
          Inl _ \<Rightarrow>
            (joinErrWithRoom InvalidRequest ''user id and display name are required'' room, g, d, [])
        | Inr joiner \<Rightarrow>
            if isMember (ur_id joiner) (g_state g)
            then (joinErrWithRoom RoomAlreadyMember ''already a member of this room'' room, g, d, [])
            else case recordJoin_grain env joiner g d of
              (Inl e, d') \<Rightarrow>
                (joinErrWithRoom InternalError ''failed to record membership'' room, g, d', [])
            | (Inr evt, d') \<Rightarrow>
                (let st = snd (addMember joiner (g_state g))
                 in (\<lparr>jresp_error = None, jresp_room = Some room\<rparr>, g\<lparr>g_state := st\<rparr>, d',
                     [fanOutNotify ctx (memberIDs st) (buildJoinedEvent roomRef joiner evt)
                        ''Join.fanout''])))"

definition Leave ::
  "txenv \<Rightarrow> grain_ctx \<Rightarrow> string \<Rightarrow> grain \<Rightarrow> db \<Rightarrow> ack \<times> grain \<times> db \<times> fanout_job list" where
  "Leave env ctx user_id g d =
     (if \<not> isLoaded (g_state g) then (leaveErr RoomNotFound ''room not found'', g, d, [])
      else case ParseUserID user_id of
        Inl _ \<Rightarrow> (leaveErr InvalidRequest ''user_id is required'', g, d, [])
      | Inr userID \<Rightarrow>
          (case memberRef userID (g_state g) of
             None \<Rightarrow> (leaveErr RoomNotMember ''not a member of this room'', g, d, [])
           | Some leaver \<Rightarrow>
               (case recordLeave_grain env leaver g d of
                  (Inl e, d') \<Rightarrow>
                    if e = ErrOwnerCannotLeave
                    then (leaveErr RoomOwnerCannotLeave ''transfer ownership before leaving the room'',
                          g, d', [])
                    else (leaveErr InternalError ''failed to record membership'', g, d', [])
                | (Inr evt, d') \<Rightarrow>
                    (None, g\<lparr>g_state := snd (removeMember userID (g_state g))\<rparr>, d',
                     [fanOutNotify ctx (memberIDs (g_state g))
                        (buildLeftEvent (rs_ref (g_state g)) leaver evt) ''Leave.fanout'']))))"

definition PostMessage ::
  "text_lib \<Rightarrow> txenv \<Rightarrow> instant \<Rightarrow> grain_ctx \<Rightarrow> proto_user_ref option \<Rightarrow> string \<Rightarrow> grain \<Rightarrow> db
     \<Rightarrow> post_response \<times> grain \<times> db \<times> fanout_job list" where
  "PostMessage T env now ctx user raw g d =
     (if \<not> isLoaded (g_state g) then (postErr RoomNotFound ''room not found'', g, d, [])
      else case parseUserRef T user of
        Inl _ \<Rightarrow> (postErr InvalidRequest ''user id and display name are required'', g, d, [])
      | Inr sender \<Rightarrow>
          (case NewMessageText T raw of
             Inl e \<Rightarrow>
               if e = ErrMessageTextEmpty then (postErr MissingField ''text is required'', g, d, [])
               else (postErr InvalidRequest
                 ''text must be at most 4096 bytes of valid UTF-8 without control characters other than newline and tab'',
                 g, d, [])
           | Inr msgText \<Rightarrow>
               let body = text_string msgText; userID = ur_id sender in
               if \<not> isMember userID (g_state g)
               then (postErr RoomNotMember ''not a member of this room'', g, d, [])
               else case recordMessage_grain env userID body g d of
                 (Inl e, d') \<Rightarrow> (postErr InternalError ''failed to record message'', g, d', [])
               | (Inr evt, d') \<Rightarrow>
                   (let timestamp = (if evt_is_zero evt then now else de_OccurredAt evt);
                        eventID = (if evt_is_zero evt then [] else event_string (de_ID evt));
                        st = recordMessage_state
                               \<lparr>cm_senderID = userID, cm_text = body, cm_timestamp = timestamp\<rparr>
                               (refreshMember sender (g_state g))
                    in (\<lparr>presp_timestamp = Some timestamp, presp_error = None\<rparr>,
                        g\<lparr>g_state := st\<rparr>, d',
                        [fanOutForward ctx (memberIDs st)
                           (buildForwardMessage (rs_ref st) sender body timestamp eventID)
                           ''PostMessage.fanout'']))))"

definition SetMemberRole ::
  "text_lib \<Rightarrow> txenv \<Rightarrow> set_role_request \<Rightarrow> grain \<Rightarrow> db \<Rightarrow> ack \<times> grain \<times> db" where
  "SetMemberRole T env req g d =
     (if \<not> isLoaded (g_state g) then (setRoleErr RoomNotFound ''room not found'', g, d)
      else case parseUserRef T (sr_actor req) of
        Inl _ \<Rightarrow> (setRoleErr InvalidRequest ''actor id and display name are required'', g, d)
      | Inr actor \<Rightarrow>
      case ParseUserID (sr_target req) of
        Inl _ \<Rightarrow> (setRoleErr InvalidRequest ''target_user_id is required'', g, d)
      | Inr targetID \<Rightarrow>
      case ParseMembershipRole (sr_role req) of
        Inl _ \<Rightarrow> (setRoleErr InvalidRequest ''role must be admin or member'', g, d)
      | Inr role \<Rightarrow>
        if role = MembershipRoleOwner
        then (setRoleErr InvalidRequest ''role must be admin or member'', g, d)
        else if \<not> isMember (ur_id actor) (g_state g)
        then (setRoleErr RoomNotMember ''not a member of this room'', g, d)
        else if \<not> isMember targetID (g_state g)
        then (setRoleErr RoomNotMember ''target is not a member of this room'', g, d)
        else if \<not> g_membership g
        then (setRoleErr InternalError ''role management unavailable'', g, d)
        else case RecordRoleChange env (rr_id (rs_ref (g_state g))) (ur_id actor) targetID role d of
          (Inl e, d') \<Rightarrow>
            if e = ErrRolePermissionDenied
            then (setRoleErr RoomPermissionDenied ''your role does not permit changing member roles'', g, d')
            else (setRoleErr InternalError ''failed to record role change'', g, d')
        | (Inr _, d') \<Rightarrow> (None, g, d'))"

definition TransferOwnership_cmd ::
  "text_lib \<Rightarrow> txenv \<Rightarrow> transfer_request \<Rightarrow> grain \<Rightarrow> db \<Rightarrow> ack \<times> grain \<times> db" where
  "TransferOwnership_cmd T env req g d =
     (if \<not> isLoaded (g_state g) then (transferErr RoomNotFound ''room not found'', g, d)
      else case parseUserRef T (tr_actor req) of
        Inl _ \<Rightarrow> (transferErr InvalidRequest ''actor id and display name are required'', g, d)
      | Inr actor \<Rightarrow>
      case ParseUserID (tr_new_owner req) of
        Inl _ \<Rightarrow> (transferErr InvalidRequest ''new_owner_user_id is required'', g, d)
      | Inr newOwnerID \<Rightarrow>
        if \<not> isMember (ur_id actor) (g_state g)
        then (transferErr RoomNotMember ''not a member of this room'', g, d)
        else if \<not> isMember newOwnerID (g_state g)
        then (transferErr RoomNotMember ''new owner is not a member of this room'', g, d)
        else if \<not> g_membership g
        then (transferErr InternalError ''role management unavailable'', g, d)
        else case RecordOwnershipTransfer env (rr_id (rs_ref (g_state g))) (ur_id actor) newOwnerID d of
          (Inl e, d') \<Rightarrow>
            if e = ErrRolePermissionDenied
            then (transferErr RoomPermissionDenied ''only the owner can transfer ownership'', g, d')
            else (transferErr InternalError ''failed to record ownership transfer'', g, d')
        | (Inr _, d') \<Rightarrow> (None, g, d'))"

subsection \<open>The fan-out worker\<close>

datatype delivery = Delivered | DeliveryFailed | DeliveryPanicked

text \<open>
  \<open>runNotify\<close> and \<open>runForward\<close>: one call per recipient in order. A failed call is logged and skipped; a
  panic leaves the loop. The result is the recipients that were called.
\<close>

fun run_recipients :: "(user_id \<Rightarrow> fanout_payload \<Rightarrow> delivery) \<Rightarrow> fanout_payload \<Rightarrow> user_id list \<Rightarrow> user_id list \<times> bool" where
  "run_recipients notifier payload [] = ([], True)"
| "run_recipients notifier payload (u # us) =
     (case notifier u payload of
        DeliveryPanicked \<Rightarrow> ([u], False)
      | _ \<Rightarrow> (case run_recipients notifier payload us of (called, ok) \<Rightarrow> (u # called, ok)))"

definition runNotify :: "(user_id \<Rightarrow> fanout_payload \<Rightarrow> delivery) \<Rightarrow> fanout_job \<Rightarrow> user_id list \<times> bool" where
  "runNotify notifier job = run_recipients notifier (fj_payload job) (fj_recipients job)"

definition classifyFanoutFailure :: directive where
  "classifyFanoutFailure = RestartDirective"

text \<open>
  The child's mailbox: a job that panics is dropped, the directive of the supervisor decides whether
  the worker goes on with the rest of the mailbox.
\<close>

fun fanout_mailbox :: "(user_id \<Rightarrow> fanout_payload \<Rightarrow> delivery) \<Rightarrow> fanout_job list \<Rightarrow> (user_id \<times> fanout_payload) list" where
  "fanout_mailbox notifier [] = []"
| "fanout_mailbox notifier (job # jobs) =
     (case runNotify notifier job of
        (called, ok) \<Rightarrow>
          map (\<lambda>u. (u, fj_payload job)) called
          @ (if ok \<or> classifyFanoutFailure = RestartDirective then fanout_mailbox notifier jobs else []))"

subsection \<open>Commands in sequence\<close>

datatype room_cmd =
  CmdJoin "proto_user_ref option" | CmdLeave string | CmdPost "proto_user_ref option" string
  | CmdSetRole set_role_request | CmdTransfer transfer_request

text \<open>A command with the outcome of its database call and the grain's clock; the error of the response.\<close>

fun run_cmd ::
  "text_lib \<Rightarrow> grain_ctx \<Rightarrow> txenv \<times> instant \<times> room_cmd \<Rightarrow> grain \<Rightarrow> db \<Rightarrow> ack \<times> grain \<times> db \<times> fanout_job list" where
  "run_cmd T ctx (env, now, CmdJoin user) g d =
     (case Join T env ctx user g d of (resp, g', d', jobs) \<Rightarrow> (jresp_error resp, g', d', jobs))"
| "run_cmd T ctx (env, now, CmdLeave uid) g d = Leave env ctx uid g d"
| "run_cmd T ctx (env, now, CmdPost user raw) g d =
     (case PostMessage T env now ctx user raw g d of
        (resp, g', d', jobs) \<Rightarrow> (presp_error resp, g', d', jobs))"
| "run_cmd T ctx (env, now, CmdSetRole req) g d =
     (case SetMemberRole T env req g d of (e, g', d') \<Rightarrow> (e, g', d', []))"
| "run_cmd T ctx (env, now, CmdTransfer req) g d =
     (case TransferOwnership_cmd T env req g d of (e, g', d') \<Rightarrow> (e, g', d', []))"

fun run_cmds ::
  "text_lib \<Rightarrow> grain_ctx \<Rightarrow> (txenv \<times> instant \<times> room_cmd) list \<Rightarrow> grain \<Rightarrow> db \<Rightarrow> grain \<times> db \<times> fanout_job list" where
  "run_cmds T ctx [] g d = (g, d, [])"
| "run_cmds T ctx (c # cs) g d =
     (case run_cmd T ctx c g d of
        (_, g1, d1, jobs1) \<Rightarrow> (case run_cmds T ctx cs g1 d1 of (g2, d2, jobs2) \<Rightarrow> (g2, d2, jobs1 @ jobs2)))"

subsection \<open>The member cache and the tables\<close>

definition roster_ids :: "db \<Rightarrow> room_id \<Rightarrow> user_id set" where
  "roster_ids d r = {u. role_of d r u \<noteq> None}"

definition state_inv :: "room_state \<Rightarrow> bool" where
  "state_inv s \<longleftrightarrow> finite (Mapping.keys (rs_members s))
     \<and> (\<forall>u ref. Mapping.lookup (rs_members s) u = Some ref \<longrightarrow> ur_id ref = u)
     \<and> rs_maxRecentMessages s = maxRecentMessages
     \<and> int (length (rs_recentMessages s)) \<le> maxRecentMessages"

definition coherent :: "grain \<Rightarrow> db \<Rightarrow> bool" where
  "coherent g d \<longleftrightarrow> state_inv (g_state g)
     \<and> (isLoaded (g_state g) \<longrightarrow> g_fanout g
          \<and> Mapping.keys (rs_members (g_state g)) = roster_ids d (rr_id (rs_ref (g_state g))))"

lemma isMember_keys: "isMember u s \<longleftrightarrow> u \<in> Mapping.keys (rs_members s)"
  by (simp add: isMember_def in_keys_iff)

lemma addMember_keys [simp]:
  "Mapping.keys (rs_members (snd (addMember ref s))) = insert (ur_id ref) (Mapping.keys (rs_members s))"
  by (auto simp: addMember_def in_keys_iff insert_absorb split: option.splits)

lemma addMember_frame [simp]:
  "rs_ref (snd (addMember ref s)) = rs_ref s" "rs_refLoaded (snd (addMember ref s)) = rs_refLoaded s"
  "rs_recentMessages (snd (addMember ref s)) = rs_recentMessages s"
  "rs_maxRecentMessages (snd (addMember ref s)) = rs_maxRecentMessages s"
  by (simp_all add: addMember_def split: option.splits)

lemma addMember_inv: "state_inv s \<Longrightarrow> state_inv (snd (addMember ref s))"
  by (auto simp: state_inv_def addMember_def lookup_update_if split: option.splits if_splits)

lemma removeMember_keys [simp]:
  "Mapping.keys (rs_members (snd (removeMember u s))) = Mapping.keys (rs_members s) - {u}"
  by (auto simp: removeMember_def in_keys_iff split: option.splits)

lemma removeMember_frame [simp]:
  "rs_ref (snd (removeMember u s)) = rs_ref s" "rs_refLoaded (snd (removeMember u s)) = rs_refLoaded s"
  by (simp_all add: removeMember_def split: option.splits)

lemma removeMember_inv: "state_inv s \<Longrightarrow> state_inv (snd (removeMember u s))"
  by (auto simp: state_inv_def removeMember_def lookup_delete_if split: option.splits if_splits)

lemma refreshMember_keys [simp]:
  "Mapping.keys (rs_members (refreshMember ref s)) = Mapping.keys (rs_members s)"
  by (auto simp: refreshMember_def in_keys_iff split: option.splits)

lemma refreshMember_frame [simp]:
  "rs_ref (refreshMember ref s) = rs_ref s" "rs_refLoaded (refreshMember ref s) = rs_refLoaded s"
  by (simp_all add: refreshMember_def split: option.splits)

lemma refreshMember_inv: "state_inv s \<Longrightarrow> state_inv (refreshMember ref s)"
  by (auto simp: state_inv_def refreshMember_def lookup_update_if split: option.splits if_splits)

lemma recordMessage_frame [simp]:
  "rs_ref (recordMessage_state m s) = rs_ref s" "rs_refLoaded (recordMessage_state m s) = rs_refLoaded s"
  "rs_members (recordMessage_state m s) = rs_members s"
  by (simp_all add: recordMessage_state_def Let_def)

lemma recordMessage_inv: "state_inv s \<Longrightarrow> state_inv (recordMessage_state m s)"
  by (auto simp: state_inv_def recordMessage_state_def Let_def maxRecentMessages_def)

lemma newRoomState_inv: "state_inv newRoomState"
  by (simp add: state_inv_def newRoomState_def maxRecentMessages_def)

lemma fold_addMember:
  "Mapping.keys (rs_members (fold (\<lambda>ref s. snd (addMember ref s)) refs s))
     = ur_id ` set refs \<union> Mapping.keys (rs_members s)"
  "rs_ref (fold (\<lambda>ref s. snd (addMember ref s)) refs s) = rs_ref s"
  "rs_refLoaded (fold (\<lambda>ref s. snd (addMember ref s)) refs s) = rs_refLoaded s"
  "state_inv s \<Longrightarrow> state_inv (fold (\<lambda>ref s. snd (addMember ref s)) refs s)"
  by (induction refs arbitrary: s) (auto simp: addMember_inv)

lemma memberIDs_facts:
  assumes "state_inv s"
  shows "sorted_wrt (<) (memberIDs s)" "set (memberIDs s) = Mapping.keys (rs_members s)"
  using assms
  by (simp_all add: memberIDs_def ordered_keys_def state_inv_def strict_sorted_iff)

text \<open>An activation that serves commands starts from the roster in the tables.\<close>

lemma Init_coherent:
  assumes inv: "db_inv d" and init: "Init T oc1 oc2 ctx g0 d = Ok g" and ms: "g_membership g0"
  shows "coherent g d" "g_membership g"
proof -
  obtain usable g1 where h: "hydrate T oc1 ctx (g0\<lparr>g_state := newRoomState\<rparr>) d = Ok (usable, g1)"
    using init by (auto simp: Init_def split: sum.splits prod.splits)
  have g1: "state_inv (g_state g1)" "g_membership g1" "Mapping.keys (rs_members (g_state g1)) = {}"
    "usable \<longleftrightarrow> isLoaded (g_state g1)"
    using h ms newRoomState_inv
    by (auto simp: hydrate_def loadRoom_state_def state_inv_def newRoomState_def isLoaded_def
        split: sum.splits if_splits)
  show "coherent g d" "g_membership g"
  proof (atomize (full), cases usable)
    case False
    then show "coherent g d \<and> g_membership g" using init h g1 by (auto simp: Init_def coherent_def)
  next
    case True
    then obtain refs where ld: "LoadMembers T oc2 (rr_id (rs_ref (g_state g1))) d = Ok refs"
      and g: "g = g1\<lparr>g_state := fold (\<lambda>ref s. snd (addMember ref s)) refs (g_state g1), g_fanout := True\<rparr>"
      using init h g1 by (auto simp: Init_def loadMembers_def split: sum.splits if_splits)
    show "coherent g d \<and> g_membership g"
      using g1 LoadMembers_roster(2) [OF inv ld]
      by (simp add: g coherent_def fold_addMember roster_ids_def)
  qed
qed

subsection \<open>What each command does\<close>

text \<open>The two ways a command can end: refused, or carried out.\<close>

lemma Join_cases:
  assumes "Join T env ctx user g d = (resp, g', d', jobs)"
  obtains
    (refused) e where "jresp_error resp = Some e" "g' = g" "jobs = []" "d' = d"
  | (failed) e joiner x where "jresp_error resp = Some e" "g' = g" "jobs = []" "g_membership g"
      "RecordJoin env (rr_id (rs_ref (g_state g))) joiner d = (Err x, d')"
  | (joined) joiner evt where "jresp_error resp = None" "isLoaded (g_state g)"
      "parseUserRef T user = Ok joiner" "\<not> isMember (ur_id joiner) (g_state g)"
      "recordJoin_grain env joiner g d = (Ok evt, d')"
      "g' = g\<lparr>g_state := snd (addMember joiner (g_state g))\<rparr>"
      "jobs = [fanOutNotify ctx (memberIDs (snd (addMember joiner (g_state g))))
                 (buildJoinedEvent (rs_ref (g_state g)) joiner evt) ''Join.fanout'']"
      "jresp_room resp = Some (protoRoomRef (rs_ref (g_state g)))"
proof -
  consider "\<not> isLoaded (g_state g)" | e where "isLoaded (g_state g)" "parseUserRef T user = Inl e"
    | joiner where "isLoaded (g_state g)" "parseUserRef T user = Ok joiner"
        "isMember (ur_id joiner) (g_state g)"
    | joiner where "isLoaded (g_state g)" "parseUserRef T user = Ok joiner"
        "\<not> isMember (ur_id joiner) (g_state g)"
    by (cases "parseUserRef T user") auto
  then show thesis
  proof cases
    case (4 joiner)
    obtain r d1 where r: "recordJoin_grain env joiner g d = (r, d1)" by fastforce
    show thesis
    proof (cases r)
      case (Inl x)
      then have "g_membership g" using r by (auto simp: recordJoin_grain_def split: if_splits)
      then show thesis using failed assms 4 r Inl
        by (auto simp: Join_def Let_def joinErrWithRoom_def joinErr_def recordJoin_grain_def)
    next
      case (Inr evt)
      then show thesis using joined assms 4 r by (auto simp: Join_def Let_def)
    qed
  qed (use refused assms in \<open>auto simp: Join_def Let_def joinErrWithRoom_def joinErr_def\<close>)
qed

lemma Leave_cases:
  assumes "Leave env ctx uid g d = (err, g', d', jobs)"
  obtains
    (refused) e where "err = Some e" "g' = g" "jobs = []" "d' = d"
  | (failed) e leaver x where "err = Some e" "g' = g" "jobs = []" "g_membership g"
      "RecordLeave env (rr_id (rs_ref (g_state g))) leaver d = (Err x, d')"
  | (left) userID leaver evt where "err = None" "isLoaded (g_state g)" "ParseUserID uid = Ok userID"
      "memberRef userID (g_state g) = Some leaver" "recordLeave_grain env leaver g d = (Ok evt, d')"
      "g' = g\<lparr>g_state := snd (removeMember userID (g_state g))\<rparr>"
      "jobs = [fanOutNotify ctx (memberIDs (g_state g))
                 (buildLeftEvent (rs_ref (g_state g)) leaver evt) ''Leave.fanout'']"
proof -
  consider "\<not> isLoaded (g_state g)" | e where "isLoaded (g_state g)" "ParseUserID uid = Inl e"
    | userID where "isLoaded (g_state g)" "ParseUserID uid = Ok userID" "memberRef userID (g_state g) = None"
    | userID leaver where "isLoaded (g_state g)" "ParseUserID uid = Ok userID"
        "memberRef userID (g_state g) = Some leaver"
    by (cases "ParseUserID uid"; cases "memberRef (projr (ParseUserID uid)) (g_state g)") auto
  then show thesis
  proof cases
    case (4 userID leaver)
    obtain r d1 where r: "recordLeave_grain env leaver g d = (r, d1)" by fastforce
    show thesis
    proof (cases r)
      case (Inl x)
      then have "g_membership g" using r by (auto simp: recordLeave_grain_def split: if_splits)
      then show thesis using failed assms 4 r Inl
        by (auto simp: Leave_def leaveErr_def recordLeave_grain_def split: if_splits)
    next
      case (Inr evt)
      then show thesis using left assms 4 r by (auto simp: Leave_def)
    qed
  qed (use refused assms in \<open>auto simp: Leave_def leaveErr_def\<close>)
qed

lemma PostMessage_cases:
  assumes "PostMessage T env now ctx user raw g d = (resp, g', d', jobs)"
  obtains
    (refused) e where "presp_error resp = Some e" "g' = g" "jobs = []" "d' = d"
  | (failed) e u body x where "presp_error resp = Some e" "g' = g" "jobs = []" "g_messages g"
      "RecordMessage env (rr_id (rs_ref (g_state g))) u body d = (Err x, d')"
  | (posted) sender msg evt timestamp eventID st where "presp_error resp = None" "isLoaded (g_state g)"
      "parseUserRef T user = Ok sender" "NewMessageText T raw = Ok msg"
      "isMember (ur_id sender) (g_state g)"
      "recordMessage_grain env (ur_id sender) (text_string msg) g d = (Ok evt, d')"
      "timestamp = (if evt_is_zero evt then now else de_OccurredAt evt)"
      "eventID = (if evt_is_zero evt then [] else event_string (de_ID evt))"
      "st = recordMessage_state
         \<lparr>cm_senderID = ur_id sender, cm_text = text_string msg, cm_timestamp = timestamp\<rparr>
         (refreshMember sender (g_state g))"
      "g' = g\<lparr>g_state := st\<rparr>"
      "jobs = [fanOutForward ctx (memberIDs st)
         (buildForwardMessage (rs_ref (g_state g)) sender (text_string msg) timestamp eventID)
         ''PostMessage.fanout'']"
      "presp_timestamp resp = Some timestamp"
proof -
  consider "\<not> isLoaded (g_state g)" | e where "isLoaded (g_state g)" "parseUserRef T user = Inl e"
    | sender e where "isLoaded (g_state g)" "parseUserRef T user = Ok sender" "NewMessageText T raw = Inl e"
    | sender msg where "isLoaded (g_state g)" "parseUserRef T user = Ok sender"
        "NewMessageText T raw = Ok msg" "\<not> isMember (ur_id sender) (g_state g)"
    | sender msg where "isLoaded (g_state g)" "parseUserRef T user = Ok sender"
        "NewMessageText T raw = Ok msg" "isMember (ur_id sender) (g_state g)"
    by (cases "parseUserRef T user"; cases "NewMessageText T raw") auto
  then show thesis
  proof cases
    case (5 sender msg)
    obtain r d1 where r: "recordMessage_grain env (ur_id sender) (text_string msg) g d = (r, d1)" by fastforce
    show thesis
    proof (cases r)
      case (Inl x)
      then have "g_messages g" using r by (auto simp: recordMessage_grain_def split: if_splits)
      then show thesis using failed assms 5 r Inl
        by (auto simp: PostMessage_def Let_def postErr_def recordMessage_grain_def)
    next
      case (Inr evt)
      then show thesis using posted [OF _ 5(1-4)] assms 5 r
        by (auto simp: PostMessage_def Let_def)
    qed
  qed (use refused assms in \<open>auto simp: PostMessage_def Let_def postErr_def split: if_splits\<close>)
qed

lemma SetMemberRole_cases:
  assumes "SetMemberRole T env req g d = (err, g', d')"
  obtains
    (refused) e where "err = Some e" "g' = g" "d' = d"
  | (decided) actor target role res where "g' = g" "g_membership g" "isLoaded (g_state g)"
      "isMember (ur_id actor) (g_state g)" "isMember target (g_state g)" "role \<noteq> MembershipRoleOwner"
      "RecordRoleChange env (rr_id (rs_ref (g_state g))) (ur_id actor) target role d = (res, d')"
      "err = None \<longleftrightarrow> is_ok res"
      "parseUserRef T (sr_actor req) = Ok actor" "ParseUserID (sr_target req) = Ok target"
      "ParseMembershipRole (sr_role req) = Ok role"
  using assms
  by (auto simp: SetMemberRole_def setRoleErr_def split: sum.splits if_splits prod.splits)

lemma TransferOwnership_cmd_cases:
  assumes "TransferOwnership_cmd T env req g d = (err, g', d')"
  obtains
    (refused) e where "err = Some e" "g' = g" "d' = d"
  | (decided) actor newOwner res where "g' = g" "g_membership g" "isLoaded (g_state g)"
      "isMember (ur_id actor) (g_state g)" "isMember newOwner (g_state g)"
      "RecordOwnershipTransfer env (rr_id (rs_ref (g_state g))) (ur_id actor) newOwner d = (res, d')"
      "err = None \<longleftrightarrow> is_ok res"
      "parseUserRef T (tr_actor req) = Ok actor" "ParseUserID (tr_new_owner req) = Ok newOwner"
  using assms
  by (auto simp: TransferOwnership_cmd_def transferErr_def split: sum.splits if_splits prod.splits)

lemma roster_ids_update:
  assumes "role_of d' = (role_of d)(r := m)"
  shows "roster_ids d' r = {u. m u \<noteq> None}"
  using assms by (simp add: roster_ids_def)

text \<open>Commands keep the cache equal to the roster, unless the reply to a commit was lost.\<close>

lemma Join_coherent:
  assumes inv: "db_inv d" and coh: "coherent g d" and ms: "g_membership g" and lost: "tx_commit env \<noteq> Unacked"
    and run: "Join T env ctx user g d = (resp, g', d', jobs)"
  shows "db_inv d' \<and> coherent g' d' \<and> g_membership g'"
  using run
proof (cases rule: Join_cases)
  case (failed e joiner x)
  then show ?thesis using inv coh ms RecordJoin_Err lost by blast
next
  case (joined joiner evt)
  then have ok: "RecordJoin env (rr_id (rs_ref (g_state g))) joiner d = (Ok evt, d')"
    using ms by (simp add: recordJoin_grain_def)
  note J = RecordJoin_Ok [OF inv ok]
  show ?thesis using joined(2,6) coh ms J(1) roster_ids_update [OF J(3)]
    by (auto simp: coherent_def addMember_inv isLoaded_def roster_ids_def)
qed (use inv coh ms in auto)

lemma Leave_coherent:
  assumes inv: "db_inv d" and coh: "coherent g d" and ms: "g_membership g" and lost: "tx_commit env \<noteq> Unacked"
    and run: "Leave env ctx uid g d = (err, g', d', jobs)"
  shows "db_inv d' \<and> coherent g' d' \<and> g_membership g'"
  using run
proof (cases rule: Leave_cases)
  case (failed e leaver x)
  then show ?thesis using inv coh ms RecordLeave_Err lost by blast
next
  case (left userID leaver evt)
  then have ok: "RecordLeave env (rr_id (rs_ref (g_state g))) leaver d = (Ok evt, d')"
    and u: "ur_id leaver = userID"
    using ms coh by (auto simp: recordLeave_grain_def memberRef_def coherent_def state_inv_def)
  note J = RecordLeave_Ok [OF inv ok]
  show ?thesis using left(2,6) coh ms J(1) roster_ids_update [OF J(3)] u
    by (auto simp: coherent_def removeMember_inv isLoaded_def roster_ids_def)
qed (use inv coh ms in auto)

lemma PostMessage_coherent:
  assumes inv: "db_inv d" and coh: "coherent g d" and ms: "g_membership g"
    and run: "PostMessage T env now ctx user raw g d = (resp, g', d', jobs)"
  shows "db_inv d' \<and> coherent g' d' \<and> g_membership g'"
  using run
proof (cases rule: PostMessage_cases)
  case (failed e u body x)
  then show ?thesis using RecordMessage_tables [OF inv failed(5)] coh ms
    by (auto simp: coherent_def roster_ids_def)
next
  case (posted sender msg evt timestamp eventID st)
  have "db_inv d' \<and> role_of d' = role_of d"
    using posted(6) inv RecordMessage_tables [OF inv]
    by (auto simp: recordMessage_grain_def split: if_splits)
  then show ?thesis using posted(2,9,10) coh ms
    by (auto simp: coherent_def recordMessage_inv refreshMember_inv isLoaded_def roster_ids_def)
qed (use inv coh ms in auto)

lemma SetMemberRole_coherent:
  assumes inv: "db_inv d" and coh: "coherent g d" and ms: "g_membership g" and lost: "tx_commit env \<noteq> Unacked"
    and run: "SetMemberRole T env req g d = (err, g', d')"
  shows "db_inv d' \<and> coherent g' d' \<and> g_membership g'"
  using run
proof (cases rule: SetMemberRole_cases)
  case (decided actor target role res)
  show ?thesis
  proof (cases res)
    case (Inl x)
    then show ?thesis using decided inv coh ms RecordRoleChange_Err lost by blast
  next
    case (Inr v)
    then have ok: "RecordRoleChange env (rr_id (rs_ref (g_state g))) (ur_id actor) target role d = (Ok (), d')"
      using decided by simp
    note J = RecordRoleChange_Ok [OF inv ok]
    have "roster_ids d' (rr_id (rs_ref (g_state g))) = roster_ids d (rr_id (rs_ref (g_state g)))"
      using J(2) roster_ids_update [OF J(3)] by (auto simp: roster_ids_def)
    then show ?thesis using J(1) decided coh ms by (auto simp: coherent_def)
  qed
qed (use inv coh ms in auto)

lemma TransferOwnership_cmd_coherent:
  assumes inv: "db_inv d" and coh: "coherent g d" and ms: "g_membership g" and lost: "tx_commit env \<noteq> Unacked"
    and run: "TransferOwnership_cmd T env req g d = (err, g', d')"
  shows "db_inv d' \<and> coherent g' d' \<and> g_membership g'"
  using run
proof (cases rule: TransferOwnership_cmd_cases)
  case (decided actor newOwner res)
  show ?thesis
  proof (cases res)
    case (Inl x)
    then show ?thesis using decided inv coh ms RecordOwnershipTransfer_Err lost by blast
  next
    case (Inr v)
    then have ok: "RecordOwnershipTransfer env (rr_id (rs_ref (g_state g))) (ur_id actor) newOwner d = (Ok (), d')"
      using decided by simp
    note J = RecordOwnershipTransfer_Ok [OF inv ok]
    have "roster_ids d' (rr_id (rs_ref (g_state g))) = roster_ids d (rr_id (rs_ref (g_state g)))"
      using J(2,3,4) by (auto simp: roster_ids_def)
    then show ?thesis using J(1) decided coh ms by (auto simp: coherent_def)
  qed
qed (use inv coh ms in auto)

lemma run_cmd_coherent:
  assumes "db_inv d" and "coherent g d" and "g_membership g" and "tx_commit env \<noteq> Unacked"
    and run: "run_cmd T ctx (env, now, c) g d = (err, g', d', jobs)"
  shows "db_inv d' \<and> coherent g' d' \<and> g_membership g'"
proof (cases c)
  case (CmdJoin user)
  then show ?thesis using run Join_coherent [OF assms(1-4)] by (auto split: prod.splits)
next
  case (CmdLeave uid)
  then show ?thesis using run Leave_coherent [OF assms(1-4)] by simp
next
  case (CmdPost user raw)
  then show ?thesis using run PostMessage_coherent [OF assms(1-3)] by (auto split: prod.splits)
next
  case (CmdSetRole req)
  then show ?thesis using run SetMemberRole_coherent [OF assms(1-4)] by (auto split: prod.splits)
next
  case (CmdTransfer req)
  then show ?thesis using run TransferOwnership_cmd_coherent [OF assms(1-4)] by (auto split: prod.splits)
qed

lemma run_cmds_coherent:
  assumes "db_inv d" "coherent g d" "g_membership g" "list_all (\<lambda>c. tx_commit (fst c) \<noteq> Unacked) cs"
    and "run_cmds T ctx cs g d = (g', d', jobs)"
  shows "db_inv d' \<and> coherent g' d' \<and> g_membership g'"
  using assms
proof (induction cs arbitrary: g d g' d' jobs)
  case (Cons c cs)
  obtain env now cmd where c: "c = (env, now, cmd)" by (cases c)
  obtain e g1 d1 js where s: "run_cmd T ctx c g d = (e, g1, d1, js)" by (metis prod_cases4)
  obtain g2 d2 js2 where r: "run_cmds T ctx cs g1 d1 = (g2, d2, js2)" by (metis prod_cases3)
  have "db_inv d1 \<and> coherent g1 d1 \<and> g_membership g1"
    using run_cmd_coherent [OF Cons.prems(1-3)] Cons.prems(4) s c by auto
  then show ?case using Cons.IH [of d1 g1] Cons.prems(4,5) s r by simp
qed simp

text \<open>Each successful join, leave and post hands one job to the fan-out child.\<close>

lemma Join_fanout:
  assumes "db_inv d" and "coherent g d" and "g_membership g"
    and r: "Join T env ctx user g d = (resp, g', d', jobs)" "jresp_error resp = None"
  shows "\<exists>job. jobs = [job] \<and> sorted_wrt (<) (fj_recipients job)
    \<and> set (fj_recipients job) = roster_ids d (rr_id (rs_ref (g_state g)))
                              \<union> roster_ids d' (rr_id (rs_ref (g_state g)))
    \<and> fj_grainID job = cx_identity ctx"
  using r(1)
proof (cases rule: Join_cases)
  case (joined joiner evt)
  then have ok: "RecordJoin env (rr_id (rs_ref (g_state g))) joiner d = (Ok evt, d')"
    using assms(3) by (simp add: recordJoin_grain_def)
  note J = roster_ids_update [OF RecordJoin_Ok(3) [OF assms(1) ok]]
  have "state_inv (snd (addMember joiner (g_state g)))" using assms(2) by (simp add: coherent_def addMember_inv)
  from memberIDs_facts [OF this] show ?thesis using joined(2,7) assms(2) J
    by (auto simp: coherent_def fanOutNotify_def roster_ids_def)
qed (use r(2) in auto)

lemma Leave_fanout:
  assumes "db_inv d" and "coherent g d" and "g_membership g"
    and r: "Leave env ctx uid g d = (None, g', d', jobs)"
  shows "\<exists>job. jobs = [job] \<and> sorted_wrt (<) (fj_recipients job)
    \<and> set (fj_recipients job) = roster_ids d (rr_id (rs_ref (g_state g)))
                              \<union> roster_ids d' (rr_id (rs_ref (g_state g)))
    \<and> fj_grainID job = cx_identity ctx"
  using r
proof (cases rule: Leave_cases)
  case (left userID leaver evt)
  then have ok: "RecordLeave env (rr_id (rs_ref (g_state g))) leaver d = (Ok evt, d')"
    using assms(3) by (simp add: recordLeave_grain_def)
  note J = roster_ids_update [OF RecordLeave_Ok(3) [OF assms(1) ok]]
  have "state_inv (g_state g)" using assms(2) by (simp add: coherent_def)
  from memberIDs_facts [OF this] show ?thesis using left(2,7) assms(2) J
    by (auto simp: coherent_def fanOutNotify_def roster_ids_def)
qed auto

lemma PostMessage_fanout:
  assumes "db_inv d" and "coherent g d"
    and r: "PostMessage T env now ctx user raw g d = (resp, g', d', jobs)" "presp_error resp = None"
  shows "\<exists>job. jobs = [job] \<and> sorted_wrt (<) (fj_recipients job)
    \<and> set (fj_recipients job) = roster_ids d (rr_id (rs_ref (g_state g)))
                              \<union> roster_ids d' (rr_id (rs_ref (g_state g)))
    \<and> fj_grainID job = cx_identity ctx"
  using r(1)
proof (cases rule: PostMessage_cases)
  case (posted sender msg evt timestamp eventID st)
  have "role_of d' = role_of d"
    using posted(6) RecordMessage_tables [OF assms(1)]
    by (auto simp: recordMessage_grain_def split: if_splits)
  moreover have "state_inv st"
    using posted(9) assms(2) by (simp add: coherent_def recordMessage_inv refreshMember_inv)
  ultimately show ?thesis using memberIDs_facts [of st] posted(2,9,11) assms(2)
    by (auto simp: coherent_def fanOutForward_def roster_ids_def)
qed (use r(2) in auto)

subsection \<open>Properties\<close>

definition demo_ctx :: grain_ctx where
  "demo_ctx = \<lparr>cx_kind = ''RoomGrain'', cx_identity = ''4''\<rparr>"

definition demo_grain0 :: grain where
  "demo_grain0 = \<lparr>g_state = newRoomState, g_membership = True, g_messages = True, g_fanout = False\<rparr>"

definition demo_room_ref :: room_ref where
  "demo_room_ref = \<lparr>rr_id = RoomID 4, rr_code = PublicCode ''0000000004'', rr_name = ''den'',
     rr_status = RoomStatusActive, rr_version = 0\<rparr>"

definition demo_member :: "int \<Rightarrow> string \<Rightarrow> string \<Rightarrow> user_ref" where
  "demo_member i c n = \<lparr>ur_id = UserID i, ur_code = PublicCode c, ur_name = n\<rparr>"

definition demo_grain :: grain where
  "demo_grain = demo_grain0\<lparr>g_fanout := True, g_state :=
     snd (addMember (demo_member 2 ''0000000002'' ''bob'')
       (snd (addMember (demo_member 1 ''0000000001'' ''ann'')
         (loadRoom_state demo_room_ref newRoomState))))\<rparr>"

lemma demo_codes:
  "ParsePublicCode ''0000000001'' = Ok (PublicCode ''0000000001'')"
  "ParsePublicCode ''0000000002'' = Ok (PublicCode ''0000000002'')"
  "ParsePublicCode ''0000000003'' = Ok (PublicCode ''0000000003'')"
  "ParsePublicCode ''0000000004'' = Ok (PublicCode ''0000000004'')"
  using ParsePublicCode_string [of "PublicCode ''0000000001''"]
    ParsePublicCode_string [of "PublicCode ''0000000002''"]
    ParsePublicCode_string [of "PublicCode ''0000000003''"]
    ParsePublicCode_string [of "PublicCode ''0000000004''"]
  by (simp_all add: valid_code_def publicCodeLen_def crockfordAlphabet_def)

lemma demo_names:
  "trim_space ''ann'' = ''ann''" "trim_space ''bob'' = ''bob''" "trim_space ''cyd'' = ''cyd''"
  "trim_space ''den'' = ''den''"
  by (simp_all add: trim_space_ascii_id is_space_def)

lemma demo_ids:
  "ParseRoomID ''4'' = Ok (RoomID 4)" "ParseUserID ''1'' = Ok (UserID 1)"
  "ParseUserID ''2'' = Ok (UserID 2)" "ParseUserID ''3'' = Ok (UserID 3)"
  by (simp_all add: ParseRoomID_def ParseUserID_def parse_int_def parse_signed_def parse_uint_def
      is_digit_def Let_def max_uint64_def)

lemmas demo_parse = demo_codes demo_names demo_ids

lemma demo_LoadRoom: "LoadRoom plain_text_lib Acked (RoomID 4) demo_db = Ok demo_room_ref"
  by (simp add: LoadRoom_def RoomRepo_FindByID_def demo_db_def demo_parse roomRow_toDomain_def NewRoomRef_def
      room_is_zero_def code_is_zero_def plain_text_lib_def MaxRoomNameBytes_def Let_def unix_micro_def
      NewRoomID_def NewUserID_def demo_room_ref_def ParseRoomStatus_def)

lemma demo_LoadMembers:
  "LoadMembers plain_text_lib Acked (RoomID 4) demo_db =
     Ok [demo_member 1 ''0000000001'' ''ann'', demo_member 2 ''0000000002'' ''bob'']"
  by (simp add: LoadMembers_def ListByRoom_def listByRoomSQL_def demo_db_def demo_user_def demo_parse
      memberRow_toDomain_def NewUserRef_def user_is_zero_def code_is_zero_def plain_text_lib_def
      maxUserNameBytes_def Let_def NewUserID_def demo_member_def ParseMembershipRole_def)

lemma demo_Init: "Init plain_text_lib Acked Acked demo_ctx demo_grain0 demo_db = Ok demo_grain"
proof -
  have r: "rr_id demo_room_ref = RoomID 4" "rr_status demo_room_ref = RoomStatusActive"
    by (simp_all add: demo_room_ref_def)
  show ?thesis
    by (simp add: Init_def hydrate_def demo_ctx_def demo_ids demo_LoadRoom r loadMembers_def
        demo_grain0_def demo_grain_def loadRoom_state_def demo_LoadMembers)
qed

lemma demo_coherent: "coherent demo_grain demo_db" "g_membership demo_grain"
  using Init_coherent [OF demo_db_inv demo_Init] by (simp_all add: demo_grain0_def)

lemma demo_keys: "Mapping.keys (rs_members (g_state demo_grain)) = {UserID 1, UserID 2}"
  by (auto simp: demo_grain_def demo_member_def newRoomState_def loadRoom_state_def)

lemma demo_loaded: "isLoaded (g_state demo_grain)" "rs_ref (g_state demo_grain) = demo_room_ref"
  by (simp_all add: demo_grain_def isLoaded_def loadRoom_state_def)

lemma demo_parse_cyd:
  "parseUserRef plain_text_lib
     (Some \<lparr>pu_id = ''3'', pu_name = ''cyd'', pu_public_code = ''0000000003''\<rparr>) = Ok (demo_ref 3)"
  by (simp add: parseUserRef_def demo_parse NewUserRef_def user_is_zero_def code_is_zero_def
      plain_text_lib_def maxUserNameBytes_def demo_ref_def)

text \<open>
  C12. The member cache is the roster. After an activation and any sequence of commands, with any
  failures of statements and transactions in which no commit is applied without its reply, the members
  the grain works with are exactly the users the membership table holds for the room.
\<close>

theorem member_cache_is_roster:
  assumes "db_inv d" and "Init T oc1 oc2 ctx g0 d = Ok g" and "g_membership g0"
    and "list_all (\<lambda>c. tx_commit (fst c) \<noteq> Unacked) cs"
    and "run_cmds T ctx cs g d = (g', d', jobs)" and "isLoaded (g_state g')"
  shows "db_inv d' \<and> Mapping.keys (rs_members (g_state g')) = roster_ids d' (rr_id (rs_ref (g_state g')))"
  using run_cmds_coherent [OF assms(1) Init_coherent [OF assms(1-3)] assms(4,5)] assms(6)
  by (simp add: coherent_def)

theorem member_cache_is_roster_witness:
  "Init plain_text_lib Acked Acked demo_ctx demo_grain0 demo_db = Ok demo_grain
   \<and> isLoaded (g_state demo_grain)
   \<and> Mapping.keys (rs_members (g_state demo_grain)) = roster_ids demo_db (RoomID 4)"
  using member_cache_is_roster [OF demo_db_inv demo_Init, of "[]" demo_grain demo_db "[]"] demo_Init demo_loaded
  by (simp add: demo_grain0_def demo_room_ref_def)

text \<open>
  C26. Commands are fail-closed: when the response carries an error, the grain's state is unchanged,
  nothing is handed to the fan-out, and the tables are unchanged unless the database applied a
  statement or commit whose reply was lost.
\<close>

theorem command_fail_closed:
  assumes "run_cmd T ctx (env, now, c) g d = (Some err, g', d', jobs)"
  shows "g' = g \<and> jobs = [] \<and> (d' = d \<or> tx_commit env = Unacked \<or> tx_stmt env 0 = Unacked)"
proof (cases c)
  case (CmdJoin user)
  then obtain resp where r: "Join T env ctx user g d = (resp, g', d', jobs)" "jresp_error resp = Some err"
    using assms by (auto split: prod.splits)
  from r(1) show ?thesis by (cases rule: Join_cases) (use r(2) in \<open>auto dest: RecordJoin_Err\<close>)
next
  case (CmdLeave uid)
  then have "Leave env ctx uid g d = (Some err, g', d', jobs)" using assms by simp
  then show ?thesis by (cases rule: Leave_cases) (auto dest: RecordLeave_Err)
next
  case (CmdPost user raw)
  then obtain resp where r: "PostMessage T env now ctx user raw g d = (resp, g', d', jobs)"
    "presp_error resp = Some err" using assms by (auto split: prod.splits)
  from r(1) show ?thesis
  proof (cases rule: PostMessage_cases)
    case (failed e u body x)
    then have "tx_stmt env 0 \<noteq> Unacked \<Longrightarrow> d' = d"
      by (cases "tx_stmt env 0") (auto simp: RecordMessage_def AppendMessage_def appendEventSQL_def
          split: prod.splits sum.splits if_splits)
    then show ?thesis using failed by auto
  qed (use r(2) in auto)
next
  case (CmdSetRole req)
  then have r: "SetMemberRole T env req g d = (Some err, g', d')" "jobs = []"
    using assms by (auto split: prod.splits)
  from r(1) show ?thesis
  proof (cases rule: SetMemberRole_cases)
    case (decided actor target role res)
    then obtain x where "res = Inl x" by (cases res) auto
    then show ?thesis using decided RecordRoleChange_Err r(2) by blast
  qed (use r(2) in auto)
next
  case (CmdTransfer req)
  then have r: "TransferOwnership_cmd T env req g d = (Some err, g', d')" "jobs = []"
    using assms by (auto split: prod.splits)
  from r(1) show ?thesis
  proof (cases rule: TransferOwnership_cmd_cases)
    case (decided actor newOwner res)
    then obtain x where "res = Inl x" by (cases res) auto
    then show ?thesis using decided RecordOwnershipTransfer_Err r(2) by blast
  qed (use r(2) in auto)
qed

text \<open>The witness: a join of a user who is a member already, at the demonstration room.\<close>

definition demo_bob :: "proto_user_ref option" where
  "demo_bob = Some \<lparr>pu_id = ''2'', pu_name = ''bob'', pu_public_code = ''0000000002''\<rparr>"

lemma demo_parse_bob: "parseUserRef plain_text_lib demo_bob = Ok (demo_member 2 ''0000000002'' ''bob'')"
  by (simp add: parseUserRef_def demo_bob_def demo_parse NewUserRef_def user_is_zero_def code_is_zero_def
      plain_text_lib_def maxUserNameBytes_def demo_member_def)

lemma demo_join_bob:
  "run_cmd plain_text_lib demo_ctx (healthy_env 9 (Ok 77), 9, CmdJoin demo_bob) demo_grain demo_db
     = (Some (errDetail RoomAlreadyMember ''already a member of this room''), demo_grain, demo_db, [])"
  by (simp add: Join_def demo_loaded demo_parse_bob isMember_keys demo_keys demo_member_def
      joinErrWithRoom_def joinErr_def Let_def)

theorem command_fail_closed_witness:
  "run_cmd plain_text_lib demo_ctx (healthy_env 9 (Ok 77), 9, CmdJoin demo_bob) demo_grain demo_db
     = (Some (errDetail RoomAlreadyMember ''already a member of this room''), demo_grain, demo_db, [])
   \<and> demo_grain = demo_grain \<and> ([] :: fanout_job list) = []"
  using command_fail_closed [OF demo_join_bob] demo_join_bob by blast

text \<open>
  C29. Fan-out reaches the roster. At a grain that has its membership store and whose cached members are those
  of the table (\<open>coherent\<close>: so after every activation and every command, C12, until a commit is applied while its
  reply is lost, after which the cache is stale until the next activation), over tables that satisfy the
  schema's constraints: a successful join, leave or post hands exactly one job to the
  fan-out child, addressed in ascending order without repetition to everyone who is in the membership
  table before or after the command: the joiner and the leaver included.
\<close>

theorem fanout_reaches_roster:
  assumes "db_inv d" and "coherent g d" and "g_membership g"
    and "run_cmd T ctx (env, now, c) g d = (None, g', d', jobs)"
    and "(case c of CmdJoin _ \<Rightarrow> True | CmdLeave _ \<Rightarrow> True | CmdPost _ _ \<Rightarrow> True | _ \<Rightarrow> False)"
  shows "\<exists>job. jobs = [job] \<and> sorted_wrt (<) (fj_recipients job)
    \<and> set (fj_recipients job) = roster_ids d (rr_id (rs_ref (g_state g)))
                              \<union> roster_ids d' (rr_id (rs_ref (g_state g)))
    \<and> fj_grainID job = cx_identity ctx"
proof (cases c)
  case (CmdJoin user)
  then show ?thesis using Join_fanout [OF assms(1-3)] assms(4) by (auto split: prod.splits)
next
  case (CmdLeave uid)
  then show ?thesis using Leave_fanout [OF assms(1-3)] assms(4) by simp
next
  case (CmdPost user raw)
  then show ?thesis using PostMessage_fanout [OF assms(1,2)] assms(4) by (auto split: prod.splits)
qed (use assms(5) in auto)

definition demo_cyd :: "proto_user_ref option" where
  "demo_cyd = Some \<lparr>pu_id = ''3'', pu_name = ''cyd'', pu_public_code = ''0000000003''\<rparr>"

lemma demo_join_cyd:
  "fst (run_cmd plain_text_lib demo_ctx (healthy_env 9 (Ok 77), 9, CmdJoin demo_cyd) demo_grain demo_db) = None"
proof -
  have "fst (recordJoin_grain (healthy_env 9 (Ok 77)) (demo_ref 3) demo_grain demo_db)
      = Ok \<lparr>de_ID = EventID 77, de_OccurredAt = 9\<rparr>"
    by (simp add: recordJoin_grain_def demo_coherent(2) demo_loaded(2) demo_room_ref_def RecordJoin_def
        record_transition_def WithinTx_def then_stmt_def return_stmt_def Add_def addSQL_def
        AppendMembership_def eventType_def appendEventSQL_def NewEventID_def demo_eval)
  moreover have "\<not> isMember (ur_id (demo_ref 3)) (g_state demo_grain)"
    by (simp add: isMember_keys demo_keys demo_ref_def)
  ultimately show ?thesis
    by (auto simp: Join_def demo_loaded demo_cyd_def demo_parse_cyd Let_def split: prod.splits sum.splits)
qed

theorem fanout_reaches_roster_witness:
  "coherent demo_grain demo_db \<and> g_membership demo_grain
   \<and> (case run_cmd plain_text_lib demo_ctx (healthy_env 9 (Ok 77), 9, CmdJoin demo_cyd) demo_grain demo_db of
        (err, g', d', jobs) \<Rightarrow> err = None
          \<and> (\<exists>job. jobs = [job]
               \<and> set (fj_recipients job) = roster_ids demo_db (RoomID 4) \<union> roster_ids d' (RoomID 4)))"
proof -
  obtain err g' d' jobs where r:
    "run_cmd plain_text_lib demo_ctx (healthy_env 9 (Ok 77), 9, CmdJoin demo_cyd) demo_grain demo_db
       = (err, g', d', jobs)" by (metis prod_cases4)
  then have e: "err = None" using demo_join_cyd by simp
  from fanout_reaches_roster [OF demo_db_inv demo_coherent r [unfolded e]] r e
  show ?thesis by (auto simp: demo_loaded demo_room_ref_def demo_coherent)
qed

text \<open>
  C19. A message is durable before anyone sees it. With the message store wired and a database clock
  that is not the zero time, a successful post appended exactly one \<open>message_posted\<close> event by the
  sender with the canonical text; the response, the cached message and the fan-out payload carry the
  same text, the event's id and its timestamp.
\<close>

theorem post_durable_before_visible:
  assumes "PostMessage T env now ctx user raw g d = (resp, g', d', jobs)" and "presp_error resp = None"
    and "g_messages g" and "tx_now env \<noteq> zero_time"
  shows "\<exists>sender msg eid.
      parseUserRef T user = Ok sender \<and> NewMessageText T raw = Ok msg
    \<and> isMember (ur_id sender) (g_state g)
    \<and> tx_mint env = Ok (event_int64 eid)
    \<and> d' = d\<lparr>t_events := t_events d @
        [\<lparr>ev_id = event_int64 eid, ev_room = room_int64 (rr_id (rs_ref (g_state g))),
          ev_type = EvMessagePosted, ev_user = user_int64 (ur_id sender),
          ev_occurred_at = tx_now env, ev_payload = MessagePayload (text_string msg)\<rparr>]\<rparr>
    \<and> presp_timestamp resp = Some (tx_now env)
    \<and> last (rs_recentMessages (g_state g'))
        = \<lparr>cm_senderID = ur_id sender, cm_text = text_string msg, cm_timestamp = tx_now env\<rparr>
    \<and> map fj_payload jobs = [ForwardPayload
        \<lparr>fr_room = Some (protoRoomRef (rs_ref (g_state g))), fr_sender = Some (protoUserRef sender),
         fr_text = text_string msg, fr_timestamp = Some (tx_now env),
         fr_event_id = event_string eid\<rparr>]"
  using assms(1)
proof (cases rule: PostMessage_cases)
  case (posted sender msg evt timestamp eventID st)
  then have "RecordMessage env (rr_id (rs_ref (g_state g))) (ur_id sender) (text_string msg) d = (Ok evt, d')"
    using assms(3) by (simp add: recordMessage_grain_def)
  then have e: "tx_mint env = Ok (event_int64 (de_ID evt))" "de_OccurredAt evt = tx_now env"
    "d' = d\<lparr>t_events := t_events d @
        [\<lparr>ev_id = event_int64 (de_ID evt), ev_room = room_int64 (rr_id (rs_ref (g_state g))),
          ev_type = EvMessagePosted, ev_user = user_int64 (ur_id sender),
          ev_occurred_at = tx_now env, ev_payload = MessagePayload (text_string msg)\<rparr>]\<rparr>"
    by (auto simp: RecordMessage_def AppendMessage_def appendEventSQL_def
        split: prod.splits sum.splits if_splits dest!: run_stmt_Ok [THEN iffD1])
  then have t: "timestamp = tx_now env" "eventID = event_string (de_ID evt)"
    using posted(7,8) assms(4) by (simp_all add: evt_is_zero_def)
  show ?thesis
    by (intro exI [of _ sender] exI [of _ msg] exI [of _ "de_ID evt"])
       (use posted(3-5,9-12) e t in \<open>simp add: fanOutForward_def buildForwardMessage_def
          recordMessage_state_def Let_def\<close>)
qed (use assms(2) in auto)

lemma demo_post:
  "PostMessage plain_text_lib (healthy_env 9 (Ok 77)) 9 demo_ctx demo_bob ''hi '' demo_grain demo_db =
     (let st = recordMessage_state \<lparr>cm_senderID = UserID 2, cm_text = ''hi'', cm_timestamp = 9\<rparr>
                 (refreshMember (demo_member 2 ''0000000002'' ''bob'') (g_state demo_grain))
      in (\<lparr>presp_timestamp = Some 9, presp_error = None\<rparr>, demo_grain\<lparr>g_state := st\<rparr>,
          demo_db\<lparr>t_events := [\<lparr>ev_id = 77, ev_room = 4, ev_type = EvMessagePosted, ev_user = 2,
             ev_occurred_at = 9, ev_payload = MessagePayload ''hi''\<rparr>]\<rparr>,
          [fanOutForward demo_ctx (memberIDs st)
             (buildForwardMessage demo_room_ref (demo_member 2 ''0000000002'' ''bob'') ''hi'' 9
                (event_string (EventID 77))) ''PostMessage.fanout'']))"
proof -
  have "recordMessage_grain (healthy_env 9 (Ok 77)) (UserID 2) ''hi'' demo_grain demo_db =
      (Ok \<lparr>de_ID = EventID 77, de_OccurredAt = 9\<rparr>,
       demo_db\<lparr>t_events := [\<lparr>ev_id = 77, ev_room = 4, ev_type = EvMessagePosted, ev_user = 2,
             ev_occurred_at = 9, ev_payload = MessagePayload ''hi''\<rparr>]\<rparr>)"
    by (simp add: recordMessage_grain_def demo_loaded demo_room_ref_def RecordMessage_def AppendMessage_def
        appendEventSQL_def NewEventID_def demo_db_def demo_user_def demo_grain_def demo_grain0_def
        loadRoom_state_def)
  then show ?thesis
    by (simp add: PostMessage_def demo_loaded demo_parse_bob demo_text isMember_keys demo_keys
        demo_member_def Let_def evt_is_zero_def zero_time_def)
qed

theorem post_durable_before_visible_witness:
  "g_messages demo_grain \<and> tx_now (healthy_env 9 (Ok 77)) \<noteq> zero_time
   \<and> (\<exists>sender msg. parseUserRef plain_text_lib demo_bob = Ok sender
        \<and> NewMessageText plain_text_lib ''hi '' = Ok msg \<and> isMember (ur_id sender) (g_state demo_grain))"
proof -
  have m: "g_messages demo_grain" by (simp add: demo_grain_def demo_grain0_def)
  have z: "tx_now (healthy_env 9 (Ok 77)) \<noteq> zero_time" by (simp add: zero_time_def)
  show ?thesis
    using post_durable_before_visible [OF demo_post [unfolded Let_def] _ m z] m z by auto
qed

lemma recent_step:
  assumes "rs_maxRecentMessages s = maxRecentMessages"
    and "rs_recentMessages s = drop (length ms - 100) ms"
  shows "rs_recentMessages (recordMessage_state m s) = drop (length (ms @ [m]) - 100) (ms @ [m])"
    and "rs_maxRecentMessages (recordMessage_state m s) = maxRecentMessages"
proof -
  have "Suc (length ms - 100) = length ms - 99" if "100 \<le> length ms" using that by simp
  then show "rs_recentMessages (recordMessage_state m s) = drop (length (ms @ [m]) - 100) (ms @ [m])"
    using assms by (cases "100 \<le> length ms") (simp_all add: recordMessage_state_def Let_def maxRecentMessages_def)
  show "rs_maxRecentMessages (recordMessage_state m s) = maxRecentMessages"
    using assms by (simp add: recordMessage_state_def Let_def)
qed

lemma recent_fold:
  "rs_recentMessages (fold recordMessage_state ms newRoomState) = drop (length ms - 100) ms
   \<and> rs_maxRecentMessages (fold recordMessage_state ms newRoomState) = maxRecentMessages"
proof (induction ms rule: rev_induct)
  case (snoc m ms)
  then show ?case using recent_step [of "fold recordMessage_state ms newRoomState" ms m] by simp
qed (simp add: newRoomState_def)

text \<open>
  The recent-message window holds the last hundred messages, in order: after any sequence of
  messages on a fresh state it is the sequence itself or its last hundred entries.
\<close>

theorem recent_window:
  "rs_recentMessages (fold recordMessage_state ms newRoomState) = drop (length ms - 100) ms"
  using recent_fold by blast

lemma run_recipients_all:
  "list_all (\<lambda>u. notifier u payload \<noteq> DeliveryPanicked) us \<Longrightarrow> run_recipients notifier payload us = (us, True)"
  by (induction us) (auto split: delivery.splits)

lemma fanout_mailbox_append:
  "fanout_mailbox notifier (js @ ks) = fanout_mailbox notifier js @ fanout_mailbox notifier ks"
  by (induction js) (auto simp: classifyFanoutFailure_def split: prod.splits)

text \<open>
  The fan-out worker isolates failures. A recipient whose call fails does not keep the job from
  the others, jobs are carried out in order, and a job that makes the worker panic costs only the
  rest of that job: every job none of whose calls panics reaches all its recipients, whatever the
  jobs before and after it do.
\<close>

theorem fanout_worker_isolates:
  assumes "list_all (\<lambda>u. notifier u (fj_payload job) \<noteq> DeliveryPanicked) (fj_recipients job)"
  shows "fanout_mailbox notifier (before @ job # rest) =
    fanout_mailbox notifier before
    @ map (\<lambda>u. (u, fj_payload job)) (fj_recipients job)
    @ fanout_mailbox notifier rest"
  using run_recipients_all [of notifier "fj_payload job" "fj_recipients job"] assms
  by (simp add: fanout_mailbox_append runNotify_def)

definition demo_job :: "user_id list \<Rightarrow> fanout_job" where
  "demo_job us = \<lparr>fj_recipients = us, fj_payload = ForwardPayload
     \<lparr>fr_room = None, fr_sender = None, fr_text = ''x'', fr_timestamp = None, fr_event_id = []\<rparr>,
     fj_msgType = [], fj_grainKind = [], fj_grainID = []\<rparr>"

theorem fanout_worker_isolates_witness:
  "fanout_mailbox (\<lambda>u _. if u = UserID 1 then DeliveryPanicked else DeliveryFailed)
      ([demo_job [UserID 1, UserID 2]] @ demo_job [UserID 2, UserID 3] # [])
   = [(UserID 1, fj_payload (demo_job [])), (UserID 2, fj_payload (demo_job [])),
      (UserID 3, fj_payload (demo_job []))]"
  by (subst fanout_worker_isolates) (simp_all add: demo_job_def runNotify_def)

text \<open>
  A room that does not exist or is not active serves no command: when the room table holds no
  active row for the identity, an activation that succeeds leaves the grain unloaded, and every
  command is answered with \<open>ROOM_NOT_FOUND\<close> and changes nothing.
\<close>

theorem inactive_room_rejects:
  assumes "list_all (\<lambda>row. RoomID (rm_id row) \<noteq> r \<or> rm_status row \<noteq> RoomStatusActive) (t_rooms d)"
    and "ParseRoomID (cx_identity ctx) = Ok r"
    and "Init T oc1 oc2 ctx g0 d = Ok g"
  shows "run_cmd T ctx c g d' = (Some (errDetail RoomNotFound ''room not found''), g, d', [])"
proof -
  have "\<not> rr_status ref = RoomStatusActive" if l: "LoadRoom T oc1 r d = Ok ref" for ref
  proof -
    obtain row rm where "find (\<lambda>x. rm_id x = room_int64 r) (t_rooms d) = Some row"
      and rm: "roomRow_toDomain row = Ok rm" and st: "rr_status ref = room_Status rm"
      using l by (auto simp: LoadRoom_def RoomRepo_FindByID_def split: sum.splits if_splits option.splits
          dest: NewRoomRef_OkD(6))
    then have "row \<in> set (t_rooms d)" "RoomID (rm_id row) = r"
      by (auto simp: find_Some_iff)
    then have "rm_status row \<noteq> RoomStatusActive" using assms(1) by (auto simp: list_all_iff)
    then show ?thesis using st roomRow_toDomain_Ok [OF rm] by simp
  qed
  then have "\<not> isLoaded (g_state g)"
    using assms(2,3)
    by (auto simp: Init_def hydrate_def isLoaded_def newRoomState_def split: sum.splits if_splits)
  moreover obtain env now cmd where "c = (env, now, cmd)" by (cases c)
  ultimately show ?thesis
    by (cases cmd) (auto simp: Join_def joinErr_def Leave_def leaveErr_def PostMessage_def postErr_def
        SetMemberRole_def setRoleErr_def TransferOwnership_cmd_def transferErr_def)
qed

definition demo_archived :: db where
  "demo_archived = demo_db\<lparr>t_rooms := map (\<lambda>r. r\<lparr>rm_status := RoomStatusArchived\<rparr>) (t_rooms demo_db)\<rparr>"

lemma demo_archived_Init:
  "Init plain_text_lib Acked Acked demo_ctx demo_grain0 demo_archived = Ok demo_grain0"
proof -
  have "LoadRoom plain_text_lib Acked (RoomID 4) demo_archived
      = Ok (demo_room_ref\<lparr>rr_status := RoomStatusArchived\<rparr>)"
    by (simp add: LoadRoom_def RoomRepo_FindByID_def demo_archived_def demo_db_def demo_parse
        roomRow_toDomain_def NewRoomRef_def room_is_zero_def code_is_zero_def plain_text_lib_def
        MaxRoomNameBytes_def Let_def unix_micro_def NewRoomID_def NewUserID_def demo_room_ref_def
        ParseRoomStatus_def)
  then show ?thesis
    by (simp add: Init_def hydrate_def demo_ctx_def demo_ids demo_grain0_def)
qed

theorem inactive_room_rejects_witness:
  "run_cmd plain_text_lib demo_ctx (healthy_env 9 (Ok 77), 9, CmdJoin demo_cyd) demo_grain0 demo_archived
     = (Some (errDetail RoomNotFound ''room not found''), demo_grain0, demo_archived, [])"
proof -
  have "list_all (\<lambda>row. RoomID (rm_id row) \<noteq> RoomID 4 \<or> rm_status row \<noteq> RoomStatusActive)
      (t_rooms demo_archived)" by (simp add: demo_archived_def demo_db_def)
  then show ?thesis
    using inactive_room_rejects [OF _ _ demo_archived_Init, of "RoomID 4"]
    by (simp only: demo_ctx_def grain_ctx.simps demo_ids)
qed

text \<open>
  Joining works. On a healthy database, a well-formed request of a registered user who is not a
  member of a loaded room is accepted: the response has no error and carries the room's reference, the
  joiner is in the cache, and the tables hold the membership.
\<close>

theorem join_admits:
  assumes "db_inv d" and "coherent g d" and "g_membership g" and "isLoaded (g_state g)"
    and "parseUserRef T user = Ok joiner" and "\<not> isMember (ur_id joiner) (g_state g)"
    and "room_int64 (rr_id (rs_ref (g_state g))) \<in> rm_id ` set (t_rooms d)"
    and "user_int64 (ur_id joiner) \<in> su_id ` set (t_users d)"
    and "0 < v" and "v \<notin> ev_id ` set (t_events d)"
    and "Join T (healthy_env now (Ok v)) ctx user g d = (resp, g', d', jobs)"
  shows "resp = \<lparr>jresp_error = None, jresp_room = Some (protoRoomRef (rs_ref (g_state g)))\<rparr>
    \<and> isMember (ur_id joiner) (g_state g')
    \<and> role_of d' (rr_id (rs_ref (g_state g))) (ur_id joiner) = Some MembershipRoleMember"
proof -
  let ?r = "rr_id (rs_ref (g_state g))"
  have "role_of d ?r (ur_id joiner) = None"
    using assms(2,4,6) by (auto simp: coherent_def isMember_keys roster_ids_def)
  then have "\<forall>m \<in> set (t_memberships d). \<not> is_row (room_int64 ?r) (user_int64 (ur_id joiner)) m"
    by (simp add: role_of_def row_role_None)
  then have "\<exists>d2. RecordJoin (healthy_env now (Ok v)) ?r joiner d
      = (Ok \<lparr>de_ID = EventID v, de_OccurredAt = now\<rparr>, d2)"
    using assms(7-10)
    by (auto simp: RecordJoin_def record_transition_def WithinTx_def then_stmt_def return_stmt_def Add_def
        addSQL_def AppendMembership_def eventType_def appendEventSQL_def NewEventID_def)
  then obtain d2 where ok: "RecordJoin (healthy_env now (Ok v)) ?r joiner d
      = (Ok \<lparr>de_ID = EventID v, de_OccurredAt = now\<rparr>, d2)" by blast
  then have "resp = \<lparr>jresp_error = None, jresp_room = Some (protoRoomRef (rs_ref (g_state g)))\<rparr>"
    "g' = g\<lparr>g_state := snd (addMember joiner (g_state g))\<rparr>" "d' = d2"
    using assms(3-6,11) by (auto simp: Join_def Let_def recordJoin_grain_def)
  then show ?thesis using RecordJoin_Ok(3) [OF assms(1) ok] by (simp add: isMember_keys)
qed

theorem join_admits_witness:
  "(case Join plain_text_lib (healthy_env 9 (Ok 77)) demo_ctx demo_cyd demo_grain demo_db of
      (resp, g', d', jobs) \<Rightarrow> jresp_error resp = None \<and> isMember (UserID 3) (g_state g')
        \<and> role_of d' (RoomID 4) (UserID 3) = Some MembershipRoleMember)"
proof -
  obtain resp g' d' jobs where r:
    "Join plain_text_lib (healthy_env 9 (Ok 77)) demo_ctx demo_cyd demo_grain demo_db = (resp, g', d', jobs)"
    by (metis prod_cases4)
  have n: "\<not> isMember (ur_id (demo_ref 3)) (g_state demo_grain)"
    by (simp add: isMember_keys demo_keys demo_ref_def)
  have p: "parseUserRef plain_text_lib demo_cyd = Ok (demo_ref 3)"
    unfolding demo_cyd_def by (rule demo_parse_cyd)
  show ?thesis
    using join_admits [OF demo_db_inv demo_coherent demo_loaded(1) p n _ _ _ _ r] r
    by (simp add: demo_loaded(2) demo_room_ref_def demo_db_def demo_user_def demo_ref_def)
qed

end
