(* ===== verification/UserGrain.thy ===== *)
theory UserGrain
  imports Wire Membership "HOL-Library.List_Lexorder" "HOL-Library.Char_ord"
begin

text \<open>
  The User grain (\<open>internal/grain/user\<close>): the connection set, the joined-rooms projection, activation,
  the commands it routes to Room grains, the fan-out to its connections, and the eviction of
  terminated connections.

  The Room grains are reached through \<open>roomClient\<close>, an interface of the code: here a record of
  operations on a world \<open>'w\<close>, where a call may fail in transport. \<open>room_service\<close> states what the User
  grain relies on. The theory of the cluster interprets it on the Room grain.
\<close>

subsection \<open>State\<close>

record pid =
  pid_address :: string
  pid_id :: string

definition pidKey :: "pid \<Rightarrow> string" where
  "pidKey p = pid_address p @ ''/'' @ pid_id p"

record user_state =
  us_connections :: "(string, pid) mapping"
  us_joinedRooms :: "(room_id, room_ref) mapping"

definition newUserState :: user_state where
  "newUserState = \<lparr>us_connections = Mapping.empty, us_joinedRooms = Mapping.empty\<rparr>"

definition addConnection :: "pid \<Rightarrow> user_state \<Rightarrow> user_state" where
  "addConnection p s = s\<lparr>us_connections := Mapping.update (pidKey p) p (us_connections s)\<rparr>"

definition removeConnection :: "pid \<Rightarrow> user_state \<Rightarrow> user_state" where
  "removeConnection p s = s\<lparr>us_connections := Mapping.delete (pidKey p) (us_connections s)\<rparr>"

definition connectionPIDs :: "user_state \<Rightarrow> pid list" where
  "connectionPIDs s =
     List.map_filter (Mapping.lookup (us_connections s)) (Mapping.ordered_keys (us_connections s))"

definition joinRoom_state :: "room_ref \<Rightarrow> user_state \<Rightarrow> user_state" where
  "joinRoom_state ref s = s\<lparr>us_joinedRooms := Mapping.update (rr_id ref) ref (us_joinedRooms s)\<rparr>"

definition leaveRoom_state :: "room_id \<Rightarrow> user_state \<Rightarrow> user_state" where
  "leaveRoom_state r s = s\<lparr>us_joinedRooms := Mapping.delete r (us_joinedRooms s)\<rparr>"

definition joinedRoomIDs :: "user_state \<Rightarrow> room_id list" where
  "joinedRoomIDs s = Mapping.ordered_keys (us_joinedRooms s)"

text \<open>The values sorted by \<open>RoomID\<close>: every value is keyed by its own id, so this is the order of the keys.\<close>

definition joinedRoomRefs :: "user_state \<Rightarrow> room_ref list" where
  "joinedRoomRefs s =
     List.map_filter (Mapping.lookup (us_joinedRooms s)) (Mapping.ordered_keys (us_joinedRooms s))"

subsection \<open>The interface to Room grains\<close>

record 'w room_client =
  rc_Join :: "room_id \<Rightarrow> proto_user_ref option \<Rightarrow> 'w \<Rightarrow> (unit, join_response) result \<times> 'w"
  rc_Leave :: "room_id \<Rightarrow> string \<Rightarrow> 'w \<Rightarrow> (unit, ack) result \<times> 'w"
  rc_PostMessage :: "room_id \<Rightarrow> proto_user_ref option \<Rightarrow> string \<Rightarrow> 'w \<Rightarrow> (unit, post_response) result \<times> 'w"
  rc_SetMemberRole :: "room_id \<Rightarrow> set_role_request \<Rightarrow> 'w \<Rightarrow> (unit, ack) result \<times> 'w"
  rc_TransferOwnership :: "room_id \<Rightarrow> transfer_request \<Rightarrow> 'w \<Rightarrow> (unit, ack) result \<times> 'w"

subsection \<open>The grain\<close>

record user_grain =
  ug_state :: user_state
  ug_self :: proto_user_ref
  ug_directory :: bool
  ug_joinedLoader :: bool

definition resolveSelf :: "text_lib \<Rightarrow> outcome \<Rightarrow> string \<Rightarrow> user_grain \<Rightarrow> db \<Rightarrow> proto_user_ref" where
  "resolveSelf T oc identity g d =
     (let fallback = \<lparr>pu_id = identity, pu_name = identity, pu_public_code = []\<rparr> in
      case ParseUserID identity of
        Inl _ \<Rightarrow> fallback
      | Inr uid \<Rightarrow>
          if ug_directory g then
            (case Resolve T oc uid d of
               Inr ref \<Rightarrow> \<lparr>pu_id = user_string (ur_id ref), pu_name = ur_name ref,
                          pu_public_code = code_string (ur_code ref)\<rparr>
             | Inl _ \<Rightarrow> fallback)
          else fallback)"

text \<open>The error is the panic that makes the activation fail.\<close>

definition hydrateJoinedRooms ::
  "text_lib \<Rightarrow> outcome \<Rightarrow> string \<Rightarrow> user_grain \<Rightarrow> db \<Rightarrow> (store_error, user_grain) result" where
  "hydrateJoinedRooms T oc identity g d =
     (if \<not> ug_joinedLoader g then Ok g
      else case ParseUserID identity of
        Inl _ \<Rightarrow> Ok g
      | Inr userID \<Rightarrow>
          (case ListJoinedRooms T oc userID d of
             Inl e \<Rightarrow> Err e
           | Inr refs \<Rightarrow> Ok (g\<lparr>ug_state := fold joinRoom_state refs (ug_state g)\<rparr>)))"

definition Init_user ::
  "text_lib \<Rightarrow> outcome \<Rightarrow> outcome \<Rightarrow> string \<Rightarrow> user_grain \<Rightarrow> db \<Rightarrow> (store_error, user_grain) result" where
  "Init_user T oc1 oc2 identity g d =
     (let g1 = g\<lparr>ug_state := newUserState\<rparr>;
          g2 = g1\<lparr>ug_self := resolveSelf T oc1 identity g1 d\<rparr>
      in hydrateJoinedRooms T oc2 identity g2 d)"

datatype grain_message = WatchedTerminated pid | OtherMessage

definition ReceiveDefault :: "grain_message \<Rightarrow> user_grain \<Rightarrow> user_grain" where
  "ReceiveDefault msg g =
     (case msg of
        WatchedTerminated who \<Rightarrow> g\<lparr>ug_state := removeConnection who (ug_state g)\<rparr>
      | OtherMessage \<Rightarrow> g)"

record register_response =
  rg_error :: "error_detail option"
  rg_grain_pid :: "pid option"

text \<open>The response, the grain, and the processes it starts to watch.\<close>

definition RegisterConnection ::
  "pid \<Rightarrow> pid option \<Rightarrow> user_grain \<Rightarrow> register_response \<times> user_grain \<times> pid list" where
  "RegisterConnection self req g =
     (case req of
        None \<Rightarrow> (\<lparr>rg_error = Some (errDetail InvalidRequest ''requester_pid is required''),
                 rg_grain_pid = None\<rparr>, g, [])
      | Some p \<Rightarrow>
          if pid_address p = [] \<or> pid_id p = [] then
            (\<lparr>rg_error = Some (errDetail InvalidRequest
                ''requester_pid.address and requester_pid.id are required''),
              rg_grain_pid = None\<rparr>, g, [])
          else (\<lparr>rg_error = None, rg_grain_pid = Some self\<rparr>,
                g\<lparr>ug_state := addConnection p (ug_state g)\<rparr>, [p]))"

definition parseRoomError :: "error_detail \<Rightarrow> code \<times> error_detail" where
  "parseRoomError detail =
     (case parse_code (ed_code detail) (ed_status detail) of
        Inl _ \<Rightarrow> (InternalError, errDetail InternalError ''room operation failed'')
      | Inr c \<Rightarrow> (c, errDetail c (ed_message detail)))"

definition JoinRoom ::
  "text_lib \<Rightarrow> 'w room_client \<Rightarrow> string \<Rightarrow> user_grain \<Rightarrow> 'w \<Rightarrow> ack \<times> user_grain \<times> 'w" where
  "JoinRoom T rooms room_id g w =
     (case ParseRoomID room_id of
        Inl _ \<Rightarrow> (Some (errDetail InvalidRequest ''room_id is required''), g, w)
      | Inr roomID \<Rightarrow>
          (case rc_Join rooms roomID (Some (ug_self g)) w of
             (Inl _, w') \<Rightarrow> (Some (errDetail InternalError ''failed to reach room''), g, w')
           | (Inr resp, w') \<Rightarrow>
               let cached =
                 (case parseRoomRef T (jresp_room resp) of
                    Inl _ \<Rightarrow> (Some (errDetail InternalError ''room operation failed''), g, w')
                  | Inr roomRef \<Rightarrow> (None, g\<lparr>ug_state := joinRoom_state roomRef (ug_state g)\<rparr>, w'))
               in case jresp_error resp of
                    None \<Rightarrow> cached
                  | Some roomErr \<Rightarrow>
                      (case parseRoomError roomErr of
                         (c, detail) \<Rightarrow>
                           if c \<noteq> RoomAlreadyMember then (Some detail, g, w') else cached)))"

definition LeaveRoom ::
  "'w room_client \<Rightarrow> string \<Rightarrow> string \<Rightarrow> user_grain \<Rightarrow> 'w \<Rightarrow> ack \<times> user_grain \<times> 'w" where
  "LeaveRoom rooms identity room_id g w =
     (case ParseRoomID room_id of
        Inl _ \<Rightarrow> (Some (errDetail InvalidRequest ''room_id is required''), g, w)
      | Inr roomID \<Rightarrow>
          (case rc_Leave rooms roomID identity w of
             (Inl _, w') \<Rightarrow> (Some (errDetail InternalError ''failed to reach room''), g, w')
           | (Inr roomErr, w') \<Rightarrow>
               let dropped = (None, g\<lparr>ug_state := leaveRoom_state roomID (ug_state g)\<rparr>, w')
               in case roomErr of
                    None \<Rightarrow> dropped
                  | Some err \<Rightarrow>
                      (case parseRoomError err of
                         (c, detail) \<Rightarrow> if c \<noteq> RoomNotMember then (Some detail, g, w') else dropped)))"

definition SendMessage ::
  "'w room_client \<Rightarrow> string \<Rightarrow> string \<Rightarrow> user_grain \<Rightarrow> 'w \<Rightarrow> post_response \<times> user_grain \<times> 'w" where
  "SendMessage rooms room_id body g w =
     (let failure = (\<lambda>e. \<lparr>presp_timestamp = None, presp_error = Some e\<rparr>) in
      case ParseRoomID room_id of
        Inl _ \<Rightarrow> (failure (errDetail InvalidRequest ''room_id is required''), g, w)
      | Inr roomID \<Rightarrow>
          if trim_space body = [] then (failure (errDetail MissingField ''text is required''), g, w)
          else (case rc_PostMessage rooms roomID (Some (ug_self g)) body w of
                  (Inl _, w') \<Rightarrow> (failure (errDetail InternalError ''failed to reach room''), g, w')
                | (Inr resp, w') \<Rightarrow>
                    (case presp_error resp of
                       Some roomErr \<Rightarrow> (failure (snd (parseRoomError roomErr)), g, w')
                     | None \<Rightarrow> (\<lparr>presp_timestamp = presp_timestamp resp, presp_error = None\<rparr>, g, w'))))"

text \<open>The two role commands relay the room's verdict.\<close>

definition relay_ack :: "(unit, ack) result \<times> 'w \<Rightarrow> user_grain \<Rightarrow> ack \<times> user_grain \<times> 'w" where
  "relay_ack res g =
     (case res of
        (Inl _, w') \<Rightarrow> (Some (errDetail InternalError ''failed to reach room''), g, w')
      | (Inr (Some roomErr), w') \<Rightarrow> (Some (snd (parseRoomError roomErr)), g, w')
      | (Inr None, w') \<Rightarrow> (None, g, w'))"

definition SetRoomMemberRole ::
  "'w room_client \<Rightarrow> string \<Rightarrow> string \<Rightarrow> string \<Rightarrow> user_grain \<Rightarrow> 'w \<Rightarrow> ack \<times> user_grain \<times> 'w" where
  "SetRoomMemberRole rooms room_id target role g w =
     (case ParseRoomID room_id of
        Inl _ \<Rightarrow> (Some (errDetail InvalidRequest ''room_id is required''), g, w)
      | Inr roomID \<Rightarrow>
          relay_ack (rc_SetMemberRole rooms roomID
            \<lparr>sr_actor = Some (ug_self g), sr_target = target, sr_role = role\<rparr> w) g)"

definition TransferRoomOwnership ::
  "'w room_client \<Rightarrow> string \<Rightarrow> string \<Rightarrow> user_grain \<Rightarrow> 'w \<Rightarrow> ack \<times> user_grain \<times> 'w" where
  "TransferRoomOwnership rooms room_id newOwner g w =
     (case ParseRoomID room_id of
        Inl _ \<Rightarrow> (Some (errDetail InvalidRequest ''room_id is required''), g, w)
      | Inr roomID \<Rightarrow>
          relay_ack (rc_TransferOwnership rooms roomID
            \<lparr>tr_actor = Some (ug_self g), tr_new_owner = newOwner\<rparr> w) g)"

subsection \<open>Fan-out to connections\<close>

datatype connection_message = ConnForward forward_request | ConnNotify notify_request

definition fanOut :: "pid list \<Rightarrow> connection_message \<Rightarrow> (pid \<times> connection_message) list" where
  "fanOut pids msg = map (\<lambda>p. (p, msg)) pids"

definition ForwardMessage :: "forward_request \<Rightarrow> user_grain \<Rightarrow> (pid \<times> connection_message) list" where
  "ForwardMessage req g = fanOut (connectionPIDs (ug_state g)) (ConnForward req)"

definition NotifyRoomEvent :: "notify_request \<Rightarrow> user_grain \<Rightarrow> (pid \<times> connection_message) list" where
  "NotifyRoomEvent req g = fanOut (connectionPIDs (ug_state g)) (ConnNotify req)"

definition GetJoinedRooms :: "user_grain \<Rightarrow> proto_room_ref list" where
  "GetJoinedRooms g = map protoRoomRef (joinedRoomRefs (ug_state g))"

subsection \<open>Facts about the connection set\<close>

definition plain_pid :: "pid \<Rightarrow> bool" where
  "plain_pid p \<longleftrightarrow> CHR ''/'' \<notin> set (pid_address p)"

text \<open>Node addresses hold no slash, so the key of the map determines the process.\<close>

lemma pidKey_inj:
  assumes "plain_pid p" and "plain_pid q" and "pidKey p = pidKey q"
  shows "p = q"
proof -
  have "takeWhile (\<lambda>c. c \<noteq> CHR ''/'') (pidKey x) = pid_address x" if "plain_pid x" for x
    using that unfolding pidKey_def plain_pid_def by (auto simp: takeWhile_append)
  then have "pid_address p = pid_address q" using assms by metis
  moreover from this have "pid_id p = pid_id q" using assms(3) by (simp add: pidKey_def)
  ultimately show ?thesis by simp
qed

definition conn_inv :: "user_state \<Rightarrow> bool" where
  "conn_inv s \<longleftrightarrow> finite (Mapping.keys (us_connections s))
     \<and> (\<forall>k p. Mapping.lookup (us_connections s) k = Some p \<longrightarrow> k = pidKey p \<and> plain_pid p)"

definition connected :: "user_state \<Rightarrow> pid set" where
  "connected s = {p. Mapping.lookup (us_connections s) (pidKey p) = Some p}"

lemma newUserState_conn: "conn_inv newUserState" "connected newUserState = {}"
  by (simp_all add: conn_inv_def connected_def newUserState_def lookup_empty)

lemma addConnection_conn:
  assumes "conn_inv s" and "plain_pid p"
  shows "conn_inv (addConnection p s)" "connected (addConnection p s) = insert p (connected s)"
  using assms pidKey_inj
  by (auto simp: conn_inv_def connected_def addConnection_def lookup_update_if split: if_splits)

lemma removeConnection_conn:
  assumes "conn_inv s"
  shows "conn_inv (removeConnection p s)"
    "plain_pid p \<Longrightarrow> connected (removeConnection p s) = connected s - {p}"
  using assms pidKey_inj
  by (auto simp: conn_inv_def connected_def removeConnection_def lookup_delete_if split: if_splits)

lemma set_map_filter_lookup:
  "set (List.map_filter (Mapping.lookup m) (Mapping.ordered_keys m))
     = {v. finite (Mapping.keys m) \<and> (\<exists>k. Mapping.lookup m k = Some v)}"
  by (force simp: List.map_filter_def ordered_keys_def in_keys_iff image_iff)

lemma connectionPIDs_set: "conn_inv s \<Longrightarrow> set (connectionPIDs s) = connected s"
  by (auto simp: connectionPIDs_def set_map_filter_lookup conn_inv_def connected_def)

lemma connectionPIDs_distinct:
  assumes "conn_inv s"
  shows "distinct (connectionPIDs s)"
proof -
  have "inj_on (\<lambda>k. the (Mapping.lookup (us_connections s) k)) (Mapping.keys (us_connections s))"
  proof (rule inj_onI)
    fix x y
    assume "x \<in> Mapping.keys (us_connections s)" "y \<in> Mapping.keys (us_connections s)"
      "the (Mapping.lookup (us_connections s) x) = the (Mapping.lookup (us_connections s) y)"
    then obtain p where "Mapping.lookup (us_connections s) x = Some p" "Mapping.lookup (us_connections s) y = Some p"
      by (auto simp: in_keys_iff)
    then have "x = pidKey p" "y = pidKey p" using assms unfolding conn_inv_def by blast+
    then show "x = y" by simp
  qed
  moreover have "filter (\<lambda>k. Mapping.lookup (us_connections s) k \<noteq> None) (Mapping.ordered_keys (us_connections s))
      = Mapping.ordered_keys (us_connections s)"
    by (rule filter_True) (auto simp: ordered_keys_def in_keys_iff split: if_splits)
  ultimately show ?thesis using assms
    by (simp add: connectionPIDs_def List.map_filter_def distinct_map conn_inv_def ordered_keys_def comp_def)
qed

subsection \<open>Facts about the joined rooms\<close>

definition rooms_inv :: "user_state \<Rightarrow> bool" where
  "rooms_inv s \<longleftrightarrow> finite (Mapping.keys (us_joinedRooms s))
     \<and> (\<forall>r ref. Mapping.lookup (us_joinedRooms s) r = Some ref \<longrightarrow> rr_id ref = r)"

lemma newUserState_rooms: "rooms_inv newUserState"
  by (simp add: rooms_inv_def newUserState_def lookup_empty)

lemma joinRoom_rooms:
  "rooms_inv s \<Longrightarrow> rooms_inv (joinRoom_state ref s)"
  "Mapping.keys (us_joinedRooms (joinRoom_state ref s)) = insert (rr_id ref) (Mapping.keys (us_joinedRooms s))"
  by (auto simp: rooms_inv_def joinRoom_state_def lookup_update_if split: if_splits)

lemma leaveRoom_rooms:
  "rooms_inv s \<Longrightarrow> rooms_inv (leaveRoom_state r s)"
  "Mapping.keys (us_joinedRooms (leaveRoom_state r s)) = Mapping.keys (us_joinedRooms s) - {r}"
  by (auto simp: rooms_inv_def leaveRoom_state_def lookup_delete_if split: if_splits)

lemma rooms_state_connections [simp]:
  "us_connections (joinRoom_state ref s) = us_connections s"
  "us_connections (leaveRoom_state r s) = us_connections s"
  by (simp_all add: joinRoom_state_def leaveRoom_state_def)

lemma fold_joinRoom:
  "Mapping.keys (us_joinedRooms (fold joinRoom_state refs s)) = rr_id ` set refs \<union> Mapping.keys (us_joinedRooms s)"
  "rooms_inv s \<Longrightarrow> rooms_inv (fold joinRoom_state refs s)"
  by (induction refs arbitrary: s) (auto simp: joinRoom_rooms)

lemma joinedRoomRefs_ids:
  assumes "rooms_inv s"
  shows "map rr_id (joinedRoomRefs s) = joinedRoomIDs s"
proof -
  have keys: "\<forall>k \<in> set (Mapping.ordered_keys (us_joinedRooms s)).
      \<exists>ref. Mapping.lookup (us_joinedRooms s) k = Some ref \<and> rr_id ref = k"
    using assms unfolding rooms_inv_def ordered_keys_def by (auto simp: in_keys_iff)
  have "map rr_id (List.map_filter (Mapping.lookup (us_joinedRooms s)) ks) = ks"
    if "\<forall>k \<in> set ks. \<exists>ref. Mapping.lookup (us_joinedRooms s) k = Some ref \<and> rr_id ref = k" for ks
    using that by (induction ks) (auto simp: List.map_filter_simps)
  from this [OF keys] show ?thesis by (simp add: joinedRoomRefs_def joinedRoomIDs_def)
qed

subsection \<open>What the User grain relies on, and what follows from it\<close>

definition err_code :: "ack \<Rightarrow> code option" where
  "err_code a = map_option (\<lambda>e. fst (parseRoomError e)) a"

text \<open>The ids a parsed room id can have.\<close>

definition routable :: "room_id \<Rightarrow> bool" where
  "routable r \<longleftrightarrow> 0 < room_int64 r \<and> room_int64 r \<le> max_int64"

locale room_service =
  fixes T :: text_lib
    and rooms :: "'w room_client"
    and ok :: "'w \<Rightarrow> bool"
    and member :: "'w \<Rightarrow> room_id \<Rightarrow> user_id \<Rightarrow> bool"
  assumes join_keeps: "ok w \<Longrightarrow> routable r \<Longrightarrow> rc_Join rooms r self w = (jres, w') \<Longrightarrow> ok w'"
    and leave_keeps: "ok w \<Longrightarrow> routable r \<Longrightarrow> rc_Leave rooms r uid w = (lres, w') \<Longrightarrow> ok w'"
    and join_confirms: "ok w \<Longrightarrow> routable r \<Longrightarrow> rc_Join rooms r self w = (Ok resp, w')
      \<Longrightarrow> err_code (jresp_error resp) \<in> {None, Some RoomAlreadyMember}
      \<Longrightarrow> \<exists>u ref. parseUserRef T self = Ok u \<and> member w' r (ur_id u)
            \<and> parseRoomRef T (jresp_room resp) = Ok ref \<and> rr_id ref = r"
    and leave_confirms: "ok w \<Longrightarrow> routable r \<Longrightarrow> rc_Leave rooms r uid w = (Ok ans, w')
      \<Longrightarrow> err_code ans \<in> {None, Some RoomNotMember}
      \<Longrightarrow> \<exists>u. ParseUserID uid = Ok u \<and> \<not> member w' r u"
    and join_frame: "ok w \<Longrightarrow> routable r \<Longrightarrow> rc_Join rooms r self w = (jres, w')
      \<Longrightarrow> member w' r' v \<noteq> member w r' v \<Longrightarrow> r' = r \<and> (\<exists>u. parseUserRef T self = Ok u \<and> v = ur_id u)"
    and leave_frame: "ok w \<Longrightarrow> routable r \<Longrightarrow> rc_Leave rooms r uid w = (lres, w')
      \<Longrightarrow> member w' r' v \<noteq> member w r' v \<Longrightarrow> r' = r \<and> ParseUserID uid = Ok v"
begin

text \<open>An acknowledged join or leave leaves the projection and the durable membership in agreement.\<close>

lemma join_sync:
  assumes "ok w" and "JoinRoom T rooms room_id g w = (None, g', w')"
  shows "\<exists>r u. ParseRoomID room_id = Ok r \<and> parseUserRef T (Some (ug_self g)) = Ok u
    \<and> member w' r (ur_id u) \<and> Mapping.keys (us_joinedRooms (ug_state g'))
         = insert r (Mapping.keys (us_joinedRooms (ug_state g)))"
proof -
  from assms(2) obtain r resp ref where r: "ParseRoomID room_id = Ok r"
    and call: "rc_Join rooms r (Some (ug_self g)) w = (Ok resp, w')"
    and good: "err_code (jresp_error resp) \<in> {None, Some RoomAlreadyMember}"
    and ref: "parseRoomRef T (jresp_room resp) = Ok ref"
    and g': "g' = g\<lparr>ug_state := joinRoom_state ref (ug_state g)\<rparr>"
    by (auto simp: JoinRoom_def Let_def err_code_def split: sum.splits prod.splits option.splits if_splits)
  have "routable r" using room_codec.parse_pos [OF r] by (simp add: routable_def)
  from join_confirms [OF assms(1) this call good] ref obtain u where
    "parseUserRef T (Some (ug_self g)) = Ok u" "member w' r (ur_id u)" "rr_id ref = r" by auto
  then show ?thesis using r g' by (auto simp: joinRoom_rooms)
qed

lemma leave_sync:
  assumes "ok w" and "LeaveRoom rooms identity room_id g w = (None, g', w')"
  shows "\<exists>r u. ParseRoomID room_id = Ok r \<and> ParseUserID identity = Ok u \<and> \<not> member w' r u
    \<and> Mapping.keys (us_joinedRooms (ug_state g')) = Mapping.keys (us_joinedRooms (ug_state g)) - {r}"
proof -
  from assms(2) obtain r ans where r: "ParseRoomID room_id = Ok r"
    and call: "rc_Leave rooms r identity w = (Ok ans, w')"
    and good: "err_code ans \<in> {None, Some RoomNotMember}"
    and g': "g' = g\<lparr>ug_state := leaveRoom_state r (ug_state g)\<rparr>"
    by (auto simp: LeaveRoom_def Let_def err_code_def split: sum.splits prod.splits option.splits if_splits)
  have "routable r" using room_codec.parse_pos [OF r] by (simp add: routable_def)
  from leave_confirms [OF assms(1) this call good] show ?thesis using r g' by (auto simp: leaveRoom_rooms)
qed

end

subsection \<open>Properties\<close>

datatype conn_op = ConnRegister pid | ConnTerminate pid

fun run_conn :: "pid \<Rightarrow> conn_op list \<Rightarrow> user_grain \<Rightarrow> user_grain" where
  "run_conn self [] g = g"
| "run_conn self (ConnRegister p # ops) g =
     run_conn self ops (fst (snd (RegisterConnection self (Some p) g)))"
| "run_conn self (ConnTerminate p # ops) g = run_conn self ops (ReceiveDefault (WatchedTerminated p) g)"

text \<open>The processes that registered and have not terminated since.\<close>

fun live_pids :: "conn_op list \<Rightarrow> pid set \<Rightarrow> pid set" where
  "live_pids [] S = S"
| "live_pids (ConnRegister p # ops) S =
     live_pids ops (if pid_address p = [] \<or> pid_id p = [] then S else insert p S)"
| "live_pids (ConnTerminate p # ops) S = live_pids ops (S - {p})"

definition op_pid :: "conn_op \<Rightarrow> pid" where
  "op_pid c = (case c of ConnRegister p \<Rightarrow> p | ConnTerminate p \<Rightarrow> p)"

lemma run_conn_connected:
  "conn_inv (ug_state g) \<Longrightarrow> list_all (\<lambda>c. plain_pid (op_pid c)) ops \<Longrightarrow>
     conn_inv (ug_state (run_conn self ops g))
     \<and> connected (ug_state (run_conn self ops g)) = live_pids ops (connected (ug_state g))"
proof (induction self ops g rule: run_conn.induct)
  case (2 self p ops g)
  then show ?case
    using addConnection_conn [of "ug_state g" p] by (auto simp: RegisterConnection_def op_pid_def)
next
  case (3 self p ops g)
  then show ?case
    using removeConnection_conn [of "ug_state g" p] by (auto simp: ReceiveDefault_def op_pid_def)
qed simp

text \<open>
  Messages reach exactly the live connections. After any sequence of registrations and
  terminations, a forwarded message is sent once to every connection that registered and has not
  terminated since, to no other process, and unchanged.
\<close>

theorem forward_reaches_live_connections:
  assumes "list_all (\<lambda>c. plain_pid (op_pid c)) ops"
  shows "distinct (map fst (ForwardMessage req (run_conn self ops (g\<lparr>ug_state := newUserState\<rparr>))))
    \<and> set (ForwardMessage req (run_conn self ops (g\<lparr>ug_state := newUserState\<rparr>)))
        = live_pids ops {} \<times> {ConnForward req}"
proof -
  let ?g = "run_conn self ops (g\<lparr>ug_state := newUserState\<rparr>)"
  have c: "conn_inv (ug_state ?g)" "connected (ug_state ?g) = live_pids ops {}"
    using run_conn_connected [of "g\<lparr>ug_state := newUserState\<rparr>" ops self] assms newUserState_conn by auto
  then show ?thesis
    using connectionPIDs_set [OF c(1)] connectionPIDs_distinct [OF c(1)]
    by (auto simp: ForwardMessage_def fanOut_def comp_def)
qed

definition demo_pid :: "string \<Rightarrow> pid" where
  "demo_pid n = \<lparr>pid_address = ''n1'', pid_id = n\<rparr>"

definition demo_forward :: forward_request where
  "demo_forward = \<lparr>fr_room = None, fr_sender = None, fr_text = ''hi'', fr_timestamp = None, fr_event_id = []\<rparr>"

definition demo_ug :: user_grain where
  "demo_ug = \<lparr>ug_state = newUserState,
     ug_self = \<lparr>pu_id = ''3'', pu_name = ''cyd'', pu_public_code = ''0000000003''\<rparr>,
     ug_directory = True, ug_joinedLoader = True\<rparr>"

theorem forward_reaches_live_connections_witness:
  "set (ForwardMessage demo_forward (run_conn (demo_pid ''u'')
      [ConnRegister (demo_pid ''a''), ConnRegister (demo_pid ''b''), ConnTerminate (demo_pid ''a'')]
      (demo_ug\<lparr>ug_state := newUserState\<rparr>)))
   = {(demo_pid ''b'', ConnForward demo_forward)}"
  using forward_reaches_live_connections [of "[ConnRegister (demo_pid ''a''), ConnRegister (demo_pid ''b''),
      ConnTerminate (demo_pid ''a'')]" demo_forward "demo_pid ''u''" demo_ug]
  by (simp add: op_pid_def plain_pid_def demo_pid_def) auto

definition canonical_error :: "ack \<Rightarrow> bool" where
  "canonical_error a =
     (case a of None \<Rightarrow> True | Some e \<Rightarrow> parse_code (ed_code e) (ed_status e) = Ok (ed_code e))"

lemma canonical_errDetail: "known_code c \<Longrightarrow> canonical_error (Some (errDetail c m))"
  by (simp add: canonical_error_def parse_code_Status)

lemma canonical_parseRoomError: "canonical_error (Some (snd (parseRoomError e)))"
proof (cases "parse_code (ed_code e) (ed_status e)")
  case (Inl x)
  then show ?thesis by (simp add: parseRoomError_def canonical_errDetail)
next
  case (Inr c)
  then have "known_code c" by (auto simp: parse_code_Ok_iff known_code_def)
  then show ?thesis using Inr by (simp add: parseRoomError_def canonical_errDetail)
qed

lemma canonical_None [simp]: "canonical_error None"
  by (simp add: canonical_error_def)

lemma canonical_relay: "canonical_error (fst (relay_ack res g))"
  by (auto simp: relay_ack_def canonical_errDetail canonical_parseRoomError
      split: prod.splits sum.splits option.splits)

text \<open>
  Errors stay in the taxonomy. Whatever a Room grain answers, an error that a command of the User
  grain returns is a known code with its own status string, so the parser of the next hop accepts it.
\<close>

theorem user_errors_canonical:
  "canonical_error (fst (JoinRoom T rooms room_id g w))
   \<and> canonical_error (fst (LeaveRoom rooms identity room_id g w))
   \<and> canonical_error (presp_error (fst (SendMessage rooms room_id body g w)))
   \<and> canonical_error (fst (SetRoomMemberRole rooms room_id target role g w))
   \<and> canonical_error (fst (TransferRoomOwnership rooms room_id newOwner g w))"
proof (intro conjI)
  have snd: "canonical_error (Some d)" if "parseRoomError e = (c, d)" for c d e
    using canonical_parseRoomError [of e] that by simp
  note simps = canonical_errDetail canonical_parseRoomError snd
  show "canonical_error (fst (JoinRoom T rooms room_id g w))"
    by (auto simp: JoinRoom_def Let_def simps split: sum.splits prod.splits option.splits)
  show "canonical_error (fst (LeaveRoom rooms identity room_id g w))"
    by (auto simp: LeaveRoom_def Let_def simps split: sum.splits prod.splits option.splits)
  show "canonical_error (presp_error (fst (SendMessage rooms room_id body g w)))"
    by (auto simp: SendMessage_def Let_def simps split: sum.splits prod.splits option.splits)
  show "canonical_error (fst (SetRoomMemberRole rooms room_id target role g w))"
    by (simp add: SetRoomMemberRole_def simps canonical_relay split: sum.splits)
  show "canonical_error (fst (TransferRoomOwnership rooms room_id newOwner g w))"
    by (simp add: TransferRoomOwnership_def simps canonical_relay split: sum.splits)
qed

text \<open>
  The joined-rooms list is faithful: the references \<open>GetJoinedRooms\<close> puts on the wire parse back
  to the cached references, in strictly ascending order of room id.
\<close>

theorem joined_rooms_roundtrip:
  assumes "rooms_inv (ug_state g)" and "list_all (valid_room_ref T) (joinedRoomRefs (ug_state g))"
  shows "map (\<lambda>p. parseRoomRef T (Some p)) (GetJoinedRooms g) = map Ok (joinedRoomRefs (ug_state g))
    \<and> sorted_wrt (<) (map rr_id (joinedRoomRefs (ug_state g)))"
proof -
  have "sorted_wrt (<) (joinedRoomIDs (ug_state g))"
    using assms(1) by (simp add: joinedRoomIDs_def ordered_keys_def rooms_inv_def strict_sorted_iff)
  then show ?thesis using assms
    by (simp add: GetJoinedRooms_def joinedRoomRefs_ids list_all_iff parse_protoRoomRef)
qed

lemma demo_den_valid:
  "valid_room_ref plain_text_lib \<lparr>rr_id = RoomID 4, rr_code = PublicCode ''0000000004'', rr_name = ''den'',
     rr_status = RoomStatusActive, rr_version = 0\<rparr>"
  by (simp add: valid_room_ref_def max_int64_def valid_code_def publicCodeLen_def crockfordAlphabet_def
      MaxRoomNameBytes_def plain_text_lib_def trim_space_ascii_id is_space_def)

theorem joined_rooms_roundtrip_witness:
  "map (\<lambda>p. parseRoomRef plain_text_lib (Some p))
     (GetJoinedRooms (demo_ug\<lparr>ug_state := joinRoom_state \<lparr>rr_id = RoomID 4, rr_code = PublicCode ''0000000004'',
        rr_name = ''den'', rr_status = RoomStatusActive, rr_version = 0\<rparr> newUserState\<rparr>))
   = [Ok \<lparr>rr_id = RoomID 4, rr_code = PublicCode ''0000000004'', rr_name = ''den'',
        rr_status = RoomStatusActive, rr_version = 0\<rparr>]"
proof -
  let ?ref = "\<lparr>rr_id = RoomID 4, rr_code = PublicCode ''0000000004'', rr_name = ''den'',
        rr_status = RoomStatusActive, rr_version = 0\<rparr>"
  let ?g = "demo_ug\<lparr>ug_state := joinRoom_state ?ref newUserState\<rparr>"
  have refs: "joinedRoomRefs (ug_state ?g) = [?ref]"
    by (simp add: joinedRoomRefs_def joinRoom_state_def newUserState_def ordered_keys_def List.map_filter_simps
        lookup_update_if)
  have inv: "rooms_inv (ug_state ?g)" using joinRoom_rooms(1) [OF newUserState_rooms] by simp
  show ?thesis
    using joined_rooms_roundtrip [OF inv, of plain_text_lib] demo_den_valid unfolding refs by simp
qed

end
