(* ===== verification/Cluster.thy ===== *)
theory Cluster
  imports RoomGrain UserGrain
begin

text \<open>
  The two grains together. \<open>clusterRoomClient\<close> (\<open>internal/grain/user/room_client.go\<close>) routes a call of
  the User grain to the Room grain of the given id. The cluster may lose the request or the reply, and
  may activate the grain anew before it handles the request; the database call of the handler has an
  environment of its own. All of that is the \<open>rpc_env\<close> of a call.

  The interpretation of \<open>room_service\<close> shows that the Room grain keeps what the User grain relies on,
  as long as no commit is applied without its reply.
\<close>

record rpc_env =
  re_activate :: bool
  re_load_room :: outcome
  re_load_members :: outcome
  re_deliver :: bool
  re_reply :: bool
  re_tx :: txenv
  re_now :: instant

record world =
  w_grains :: "room_id \<Rightarrow> grain"
  w_db :: db
  w_env :: "nat \<Rightarrow> rpc_env"
  w_jobs :: "fanout_job list"

definition room_ctx :: "room_id \<Rightarrow> grain_ctx" where
  "room_ctx r = \<lparr>cx_kind = ''RoomGrain'', cx_identity = room_string r\<rparr>"

definition activate :: "text_lib \<Rightarrow> rpc_env \<Rightarrow> room_id \<Rightarrow> grain \<Rightarrow> db \<Rightarrow> (store_error, grain) result" where
  "activate T e r g d =
     (if re_activate e then Init T (re_load_room e) (re_load_members e) (room_ctx r) g d else Ok g)"

definition grain_call ::
  "text_lib \<Rightarrow> room_id \<Rightarrow> (rpc_env \<Rightarrow> grain \<Rightarrow> db \<Rightarrow> 'r \<times> grain \<times> db \<times> fanout_job list) \<Rightarrow> world
     \<Rightarrow> (unit, 'r) result \<times> world" where
  "grain_call T r handler w =
     (let e = w_env w 0; w1 = w\<lparr>w_env := (\<lambda>n. w_env w (Suc n))\<rparr> in
      if \<not> re_deliver e then (Err (), w1)
      else case activate T e r (w_grains w r) (w_db w) of
        Inl _ \<Rightarrow> (Err (), w1)
      | Inr g \<Rightarrow>
          (case handler e g (w_db w) of
             (resp, g', d', jobs) \<Rightarrow>
               (if re_reply e then Ok resp else Err (),
                w1\<lparr>w_grains := (w_grains w)(r := g'), w_db := d', w_jobs := w_jobs w @ jobs\<rparr>)))"

definition clusterRoomClient :: "text_lib \<Rightarrow> world room_client" where
  "clusterRoomClient T =
     \<lparr>rc_Join = (\<lambda>r user. grain_call T r (\<lambda>e. Join T (re_tx e) (room_ctx r) user)),
      rc_Leave = (\<lambda>r uid. grain_call T r (\<lambda>e. Leave (re_tx e) (room_ctx r) uid)),
      rc_PostMessage = (\<lambda>r user body.
        grain_call T r (\<lambda>e. PostMessage T (re_tx e) (re_now e) (room_ctx r) user body)),
      rc_SetMemberRole = (\<lambda>r req. grain_call T r (\<lambda>e g d.
        case SetMemberRole T (re_tx e) req g d of (a, g', d') \<Rightarrow> (a, g', d', []))),
      rc_TransferOwnership = (\<lambda>r req. grain_call T r (\<lambda>e g d.
        case TransferOwnership_cmd T (re_tx e) req g d of (a, g', d') \<Rightarrow> (a, g', d', [])))\<rparr>"

subsection \<open>The invariant of the world\<close>

definition good_grain :: "text_lib \<Rightarrow> room_id \<Rightarrow> grain \<Rightarrow> db \<Rightarrow> bool" where
  "good_grain T r g d \<longleftrightarrow> coherent g d \<and> g_membership g
     \<and> (isLoaded (g_state g) \<longrightarrow> rr_id (rs_ref (g_state g)) = r \<and> valid_room_ref T (rs_ref (g_state g)))"

text \<open>
  The condition of the end-to-end theorems: Unicode normalisation is idempotent, the tables satisfy the
  schema's constraints, every routable room's grain, if loaded, caches its own room and the members the table
  has, and no transaction is applied while the reply to its commit is lost (\<open>Unacked\<close>). The last is a
  restriction on the network, not on the code: after such a commit the grain still holds the old members,
  and keeps answering from them until it is activated again.
\<close>

definition world_ok :: "text_lib \<Rightarrow> world \<Rightarrow> bool" where
  "world_ok T w \<longleftrightarrow> nfc_laws T \<and> db_inv (w_db w)
     \<and> (\<forall>r. routable r \<longrightarrow> good_grain T r (w_grains w r) (w_db w))
     \<and> (\<forall>n. tx_commit (re_tx (w_env w n)) \<noteq> Unacked)"

definition world_member :: "world \<Rightarrow> room_id \<Rightarrow> user_id \<Rightarrow> bool" where
  "world_member w r u \<longleftrightarrow> role_of (w_db w) r u \<noteq> None"

lemma LoadRoom_ref:
  assumes "nfc_laws T" and "routable r" and "LoadRoom T oc r d = Ok ref"
  shows "rr_id ref = r" "valid_room_ref T ref"
proof -
  from assms(3) obtain row rm where row: "find (\<lambda>x. rm_id x = room_int64 r) (t_rooms d) = Some row"
    and rm: "roomRow_toDomain row = Ok rm"
    and ref: "NewRoomRef T \<lparr>rp_id = room_ID rm, rp_code = room_PublicCode rm,
        rp_name = room_DisplayName rm, rp_status = room_status_label (room_Status rm),
        rp_version = unix_micro (room_UpdatedAt rm)\<rparr> = Ok ref"
    by (auto simp: LoadRoom_def RoomRepo_FindByID_def split: sum.splits if_splits option.splits)
  have "rm_id row = room_int64 r" using row by (auto simp: find_Some_iff)
  then have id: "room_ID rm = r" using roomRow_toDomain_Ok [OF rm] by (auto simp: id_eq_iff)
  then show "rr_id ref = r" using NewRoomRef_OkD(1) [OF ref] by simp
  show "valid_room_ref T ref"
    by (rule NewRoomRef_valid [OF assms(1) ref])
       (use roomRow_toDomain_Ok [OF rm] assms(2) id in \<open>simp_all add: routable_def\<close>)
qed

lemma activate_good:
  assumes "nfc_laws T" and "db_inv d" and "routable r" and "good_grain T r g d"
    and "activate T e r g d = Ok g'"
  shows "good_grain T r g' d"
proof (cases "re_activate e")
  case False
  then show ?thesis using assms(4,5) by (simp add: activate_def)
next
  case True
  then have init: "Init T (re_load_room e) (re_load_members e) (room_ctx r) g d = Ok g'"
    using assms(5) by (simp add: activate_def)
  have r: "ParseRoomID (room_string r) = Ok r"
    using room_codec.parse_str [of r] assms(3) by (simp add: routable_def)
  have "rr_id (rs_ref (g_state g')) = r \<and> valid_room_ref T (rs_ref (g_state g'))" if "isLoaded (g_state g')"
    using init r that LoadRoom_ref [OF assms(1,3)]
    by (auto simp: Init_def hydrate_def loadMembers_def isLoaded_def newRoomState_def room_ctx_def
        loadRoom_state_def fold_addMember split: sum.splits if_splits)
  then show ?thesis
    using Init_coherent [OF assms(2) init] assms(4) by (simp add: good_grain_def)
qed

subsection \<open>What a response of the Room grain confirms\<close>

lemma parseRoomError_errDetail: "known_code c \<Longrightarrow> parseRoomError (errDetail c m) = (c, errDetail c m)"
  by (simp add: parseRoomError_def parse_code_Status)

lemma err_code_errDetail [simp]:
  "known_code c \<Longrightarrow> err_code (Some (errDetail c m)) = Some c" "err_code None = None"
  by (simp_all add: err_code_def parseRoomError_errDetail)

lemma Join_confirms:
  assumes "Join T env ctx user g d = (resp, g', d', jobs)"
    and "err_code (jresp_error resp) \<in> {None, Some RoomAlreadyMember}"
  shows "isLoaded (g_state g) \<and> jresp_room resp = Some (protoRoomRef (rs_ref (g_state g)))
    \<and> (\<exists>u. parseUserRef T user = Ok u \<and> isMember (ur_id u) (g_state g'))"
proof -
  have codes: "RoomNotFound \<noteq> RoomAlreadyMember" "InvalidRequest \<noteq> RoomAlreadyMember"
    "InternalError \<noteq> RoomAlreadyMember" by (simp_all add: code_defs)
  show ?thesis using assms codes
    by (auto simp: Join_def Let_def joinErr_def joinErrWithRoom_def isMember_keys
        split: if_splits sum.splits prod.splits)
qed

lemma Leave_confirms:
  assumes "Leave env ctx uid g d = (ans, g', d', jobs)"
    and "err_code ans \<in> {None, Some RoomNotMember}"
  shows "isLoaded (g_state g) \<and> (\<exists>u. ParseUserID uid = Ok u \<and> \<not> isMember u (g_state g'))"
proof -
  have codes: "RoomNotFound \<noteq> RoomNotMember" "InvalidRequest \<noteq> RoomNotMember"
    "InternalError \<noteq> RoomNotMember" "RoomOwnerCannotLeave \<noteq> RoomNotMember" by (simp_all add: code_defs)
  show ?thesis using assms codes
    by (auto simp: Leave_def leaveErr_def isMember_def memberRef_def removeMember_def lookup_delete_if
        split: if_splits sum.splits prod.splits option.splits)
qed

lemma Join_roles:
  assumes "db_inv d" and "g_membership g" and "tx_commit env \<noteq> Unacked"
    and "Join T env ctx user g d = (resp, g', d', jobs)"
  shows "role_of d' = role_of d \<or> (\<exists>u. parseUserRef T user = Ok u \<and> isLoaded (g_state g)
     \<and> role_of d' = (role_of d)(rr_id (rs_ref (g_state g)) :=
         (role_of d (rr_id (rs_ref (g_state g))))(ur_id u \<mapsto> MembershipRoleMember)))"
  using assms(4)
proof (cases rule: Join_cases)
  case (failed e joiner x)
  then show ?thesis using RecordJoin_Err assms(3) by blast
next
  case (joined joiner evt)
  then show ?thesis using RecordJoin_Ok(3) [OF assms(1)] assms(2) by (auto simp: recordJoin_grain_def)
qed auto

lemma Leave_roles:
  assumes "db_inv d" and "g_membership g" and "tx_commit env \<noteq> Unacked" and "coherent g d"
    and "Leave env ctx uid g d = (ans, g', d', jobs)"
  shows "role_of d' = role_of d \<or> (\<exists>u. ParseUserID uid = Ok u \<and> isLoaded (g_state g)
     \<and> role_of d' = (role_of d)(rr_id (rs_ref (g_state g)) :=
         (role_of d (rr_id (rs_ref (g_state g))))(u := None)))"
  using assms(5)
proof (cases rule: Leave_cases)
  case (failed e leaver x)
  then show ?thesis using RecordLeave_Err assms(3) by blast
next
  case (left userID leaver evt)
  have "ur_id leaver = userID"
    using left(4) assms(4) by (auto simp: coherent_def state_inv_def memberRef_def)
  then show ?thesis using left RecordLeave_Ok(3) [OF assms(1)] assms(2) by (auto simp: recordLeave_grain_def)
qed auto

subsection \<open>Calls keep the world\<close>

lemma grain_call_cases:
  assumes ok: "world_ok T w" and r: "routable r" and call: "grain_call T r h w = (res, w')"
  obtains
    (lost) "res = Err ()" "w_db w' = w_db w" "w_grains w' = w_grains w"
      "w_env w' = (\<lambda>n. w_env w (Suc n))" "w_jobs w' = w_jobs w"
  | (handled) g resp g' d' jobs where "good_grain T r g (w_db w)"
      "h (w_env w 0) g (w_db w) = (resp, g', d', jobs)" "res = (if re_reply (w_env w 0) then Ok resp else Err ())"
      "w_db w' = d'" "w_grains w' = (w_grains w)(r := g')" "w_env w' = (\<lambda>n. w_env w (Suc n))"
      "w_jobs w' = w_jobs w @ jobs"
proof (cases "re_deliver (w_env w 0) \<and> is_ok (activate T (w_env w 0) r (w_grains w r) (w_db w))")
  case False
  then show thesis using call lost
    by (auto simp: grain_call_def Let_def split: sum.splits if_splits prod.splits)
next
  case True
  then obtain g where g: "activate T (w_env w 0) r (w_grains w r) (w_db w) = Ok g"
    by (cases "activate T (w_env w 0) r (w_grains w r) (w_db w)") auto
  have good: "good_grain T r g (w_db w)"
    using activate_good [OF _ _ r _ g] ok r by (simp add: world_ok_def)
  obtain resp g' d' jobs where "h (w_env w 0) g (w_db w) = (resp, g', d', jobs)" by (metis prod_cases4)
  then show thesis using handled [OF good] call True g by (auto simp: grain_call_def Let_def)
qed

text \<open>A handler keeps the world when it keeps its own grain and touches no other room.\<close>

definition keeps_room :: "text_lib \<Rightarrow> room_id \<Rightarrow> grain \<Rightarrow> db \<Rightarrow> db \<Rightarrow> bool" where
  "keeps_room T r g' d d' \<longleftrightarrow> db_inv d' \<and> good_grain T r g' d'
     \<and> (\<forall>r'. r' \<noteq> r \<longrightarrow> role_of d' r' = role_of d r')"

lemma good_grain_frame:
  "good_grain T r g d \<Longrightarrow> role_of d' r = role_of d r \<Longrightarrow> good_grain T r g d'"
  by (auto simp: good_grain_def coherent_def roster_ids_def)

lemma grain_call_keeps:
  assumes ok: "world_ok T w" and r: "routable r" and call: "grain_call T r h w = (res, w')"
    and h: "\<And>g resp g' d' jobs. good_grain T r g (w_db w) \<Longrightarrow>
      h (w_env w 0) g (w_db w) = (resp, g', d', jobs) \<Longrightarrow> keeps_room T r g' (w_db w) d'"
  shows "world_ok T w'"
  using ok r call
proof (cases rule: grain_call_cases)
  case lost
  then show ?thesis using ok by (simp add: world_ok_def)
next
  case (handled g resp g' d' jobs)
  have k: "keeps_room T r g' (w_db w) d'" by (rule h [OF handled(1,2)])
  then have "good_grain T r' (((w_grains w)(r := g')) r') d'" if "routable r'" for r'
    using that ok good_grain_frame [of T r' "w_grains w r'" "w_db w" d']
    by (auto simp: keeps_room_def world_ok_def)
  then show ?thesis using k handled ok by (simp add: world_ok_def keeps_room_def)
qed

lemma Join_keeps:
  assumes "db_inv d" and good: "good_grain T r g d" and lost: "tx_commit env \<noteq> Unacked"
    and run: "Join T env ctx user g d = (resp, g', d', jobs)"
  shows "keeps_room T r g' d d'"
proof -
  have g: "coherent g d" "g_membership g" using good by (simp_all add: good_grain_def)
  have "rs_ref (g_state g') = rs_ref (g_state g) \<and> isLoaded (g_state g') = isLoaded (g_state g)"
    using run by (cases rule: Join_cases) (auto simp: isLoaded_def)
  moreover have "\<forall>r'. r' \<noteq> r \<longrightarrow> role_of d' r' = role_of d r'"
    using Join_roles [OF assms(1) g(2) lost run] good by (auto simp: good_grain_def)
  ultimately show ?thesis
    using Join_coherent [OF assms(1) g lost run] good by (auto simp: keeps_room_def good_grain_def)
qed

lemma Leave_keeps:
  assumes "db_inv d" and good: "good_grain T r g d" and lost: "tx_commit env \<noteq> Unacked"
    and run: "Leave env ctx uid g d = (ans, g', d', jobs)"
  shows "keeps_room T r g' d d'"
proof -
  have g: "coherent g d" "g_membership g" using good by (simp_all add: good_grain_def)
  have "rs_ref (g_state g') = rs_ref (g_state g) \<and> isLoaded (g_state g') = isLoaded (g_state g)"
    using run by (cases rule: Leave_cases) (auto simp: isLoaded_def)
  moreover have "\<forall>r'. r' \<noteq> r \<longrightarrow> role_of d' r' = role_of d r'"
    using Leave_roles [OF assms(1) g(2) lost g(1) run] good by (auto simp: good_grain_def)
  ultimately show ?thesis
    using Leave_coherent [OF assms(1) g lost run] good by (auto simp: keeps_room_def good_grain_def)
qed

text \<open>Membership in the world is what the grain's cache says after the call.\<close>

lemma good_member:
  "good_grain T r g d \<Longrightarrow> isLoaded (g_state g) \<Longrightarrow> isMember u (g_state g) \<longleftrightarrow> role_of d r u \<noteq> None"
  by (auto simp: good_grain_def coherent_def roster_ids_def isMember_keys)

lemma join_call_confirms:
  assumes ok: "world_ok T w" and r: "routable r"
    and call: "rc_Join (clusterRoomClient T) r self w = (Ok resp, w')"
    and good: "err_code (jresp_error resp) \<in> {None, Some RoomAlreadyMember}"
  shows "\<exists>u ref. parseUserRef T self = Ok u \<and> world_member w' r (ur_id u)
    \<and> parseRoomRef T (jresp_room resp) = Ok ref \<and> rr_id ref = r"
proof -
  have "grain_call T r (\<lambda>e. Join T (re_tx e) (room_ctx r) self) w = (Ok resp, w')"
    using call by (simp add: clusterRoomClient_def)
  with ok r show ?thesis
  proof (cases rule: grain_call_cases)
    case (handled g resp' g' d' jobs)
    then have run: "Join T (re_tx (w_env w 0)) (room_ctx r) self g (w_db w) = (resp, g', d', jobs)"
      by (auto split: if_splits)
    have inv: "db_inv (w_db w)" "tx_commit (re_tx (w_env w 0)) \<noteq> Unacked" using ok by (simp_all add: world_ok_def)
    from Join_confirms [OF run good] obtain u where l: "isLoaded (g_state g)"
      and room: "jresp_room resp = Some (protoRoomRef (rs_ref (g_state g)))"
      and u: "parseUserRef T self = Ok u" "isMember (ur_id u) (g_state g')" by blast
    have g': "good_grain T r g' d'" using Join_keeps [OF inv(1) handled(1) inv(2) run] by (simp add: keeps_room_def)
    have "isLoaded (g_state g')" using run l by (cases rule: Join_cases) (auto simp: isLoaded_def)
    then have "world_member w' r (ur_id u)" using good_member [OF g'] u(2) handled(4) by (simp add: world_member_def)
    moreover have "parseRoomRef T (jresp_room resp) = Ok (rs_ref (g_state g))" "rr_id (rs_ref (g_state g)) = r"
      using handled(1) l room by (simp_all add: good_grain_def parse_protoRoomRef)
    ultimately show ?thesis using u(1) by blast
  qed simp
qed

lemma leave_call_confirms:
  assumes ok: "world_ok T w" and r: "routable r"
    and call: "rc_Leave (clusterRoomClient T) r uid w = (Ok ans, w')"
    and good: "err_code ans \<in> {None, Some RoomNotMember}"
  shows "\<exists>u. ParseUserID uid = Ok u \<and> \<not> world_member w' r u"
proof -
  have "grain_call T r (\<lambda>e. Leave (re_tx e) (room_ctx r) uid) w = (Ok ans, w')"
    using call by (simp add: clusterRoomClient_def)
  with ok r show ?thesis
  proof (cases rule: grain_call_cases)
    case (handled g ans' g' d' jobs)
    then have run: "Leave (re_tx (w_env w 0)) (room_ctx r) uid g (w_db w) = (ans, g', d', jobs)"
      by (auto split: if_splits)
    have inv: "db_inv (w_db w)" "tx_commit (re_tx (w_env w 0)) \<noteq> Unacked" using ok by (simp_all add: world_ok_def)
    from Leave_confirms [OF run good] obtain u where l: "isLoaded (g_state g)"
      and u: "ParseUserID uid = Ok u" "\<not> isMember u (g_state g')" by blast
    have g': "good_grain T r g' d'" using Leave_keeps [OF inv(1) handled(1) inv(2) run] by (simp add: keeps_room_def)
    have "isLoaded (g_state g')" using run l by (cases rule: Leave_cases) (auto simp: isLoaded_def)
    then have "\<not> world_member w' r u" using good_member [OF g'] u(2) handled(4) by (simp add: world_member_def)
    then show ?thesis using u(1) by blast
  qed simp
qed

lemma join_call_frame:
  assumes ok: "world_ok T w" and r: "routable r"
    and call: "rc_Join (clusterRoomClient T) r self w = (res, w')"
    and diff: "world_member w' r' v \<noteq> world_member w r' v"
  shows "r' = r \<and> (\<exists>u. parseUserRef T self = Ok u \<and> v = ur_id u)"
proof -
  have "grain_call T r (\<lambda>e. Join T (re_tx e) (room_ctx r) self) w = (res, w')"
    using call by (simp add: clusterRoomClient_def)
  with ok r show ?thesis
  proof (cases rule: grain_call_cases)
    case (handled g resp g' d' jobs)
    have inv: "db_inv (w_db w)" "tx_commit (re_tx (w_env w 0)) \<noteq> Unacked" "g_membership g"
      using ok handled(1) by (simp_all add: world_ok_def good_grain_def)
    show ?thesis using Join_roles [OF inv(1,3,2) handled(2)] diff handled(1,4)
      by (auto simp: world_member_def good_grain_def fun_upd_def split: if_splits)
  qed (use diff in \<open>simp add: world_member_def\<close>)
qed

lemma leave_call_frame:
  assumes ok: "world_ok T w" and r: "routable r"
    and call: "rc_Leave (clusterRoomClient T) r uid w = (res, w')"
    and diff: "world_member w' r' v \<noteq> world_member w r' v"
  shows "r' = r \<and> ParseUserID uid = Ok v"
proof -
  have "grain_call T r (\<lambda>e. Leave (re_tx e) (room_ctx r) uid) w = (res, w')"
    using call by (simp add: clusterRoomClient_def)
  with ok r show ?thesis
  proof (cases rule: grain_call_cases)
    case (handled g ans g' d' jobs)
    have inv: "db_inv (w_db w)" "tx_commit (re_tx (w_env w 0)) \<noteq> Unacked" "g_membership g" "coherent g (w_db w)"
      using ok handled(1) by (simp_all add: world_ok_def good_grain_def)
    show ?thesis using Leave_roles [OF inv(1,3,2,4) handled(2)] diff handled(1,4)
      by (auto simp: world_member_def good_grain_def fun_upd_def split: if_splits)
  qed (use diff in \<open>simp add: world_member_def\<close>)
qed

lemma join_call_keeps:
  assumes ok: "world_ok T w" and r: "routable r" and call: "rc_Join (clusterRoomClient T) r self w = (res, w')"
  shows "world_ok T w'"
proof (rule grain_call_keeps [OF ok r])
  show "grain_call T r (\<lambda>e. Join T (re_tx e) (room_ctx r) self) w = (res, w')" using call by (simp add: clusterRoomClient_def)
  show "keeps_room T r g' (w_db w) d'"
    if "good_grain T r g (w_db w)" "Join T (re_tx (w_env w 0)) (room_ctx r) self g (w_db w) = (resp, g', d', jobs)"
    for g resp g' d' jobs
    by (rule Join_keeps [OF _ that(1) _ that(2)]) (use ok in \<open>simp_all add: world_ok_def\<close>)
qed

lemma leave_call_keeps:
  assumes ok: "world_ok T w" and r: "routable r" and call: "rc_Leave (clusterRoomClient T) r uid w = (res, w')"
  shows "world_ok T w'"
proof (rule grain_call_keeps [OF ok r])
  show "grain_call T r (\<lambda>e. Leave (re_tx e) (room_ctx r) uid) w = (res, w')" using call by (simp add: clusterRoomClient_def)
  show "keeps_room T r g' (w_db w) d'"
    if "good_grain T r g (w_db w)" "Leave (re_tx (w_env w 0)) (room_ctx r) uid g (w_db w) = (resp, g', d', jobs)"
    for g resp g' d' jobs
    by (rule Leave_keeps [OF _ that(1) _ that(2)]) (use ok in \<open>simp_all add: world_ok_def\<close>)
qed

interpretation cluster: room_service T "clusterRoomClient T" "world_ok T" world_member
  by unfold_locales
     (fact join_call_keeps leave_call_keeps join_call_confirms leave_call_confirms join_call_frame
        leave_call_frame)+

subsection \<open>Properties\<close>

definition demo_env :: rpc_env where
  "demo_env = \<lparr>re_activate = True, re_load_room = Acked, re_load_members = Acked, re_deliver = True,
     re_reply = True, re_tx = healthy_env 9 (Ok 77), re_now = 9\<rparr>"

definition demo_world :: world where
  "demo_world = \<lparr>w_grains = (\<lambda>_. demo_grain0), w_db = demo_db, w_env = (\<lambda>_. demo_env), w_jobs = []\<rparr>"

lemma demo_world_ok: "world_ok plain_text_lib demo_world"
proof -
  have "\<not> isLoaded (g_state demo_grain0)" "g_membership demo_grain0" "state_inv (g_state demo_grain0)"
    using newRoomState_inv by (simp_all add: demo_grain0_def isLoaded_def newRoomState_def)
  then show ?thesis
    by (simp add: world_ok_def plain_nfc_laws demo_db_inv demo_world_def good_grain_def coherent_def demo_env_def)
qed

lemma demo_activate:
  "activate plain_text_lib demo_env (RoomID 4) demo_grain0 demo_db = Ok demo_grain"
proof -
  have "format_int 4 = ''4''"
    by (simp add: format_int_def format_nat.simps digit_char_def char_of_eq_iff)
  then have "room_ctx (RoomID 4) = demo_ctx" by (simp add: room_ctx_def demo_ctx_def room_string_def)
  then show ?thesis using demo_Init by (simp add: activate_def demo_env_def)
qed

lemma demo_cyd_self: "Some (ug_self demo_ug) = demo_cyd"
  by (simp add: demo_ug_def demo_cyd_def)

text \<open>
  C3. An acknowledged join is durable, in a world that satisfies \<open>world_ok\<close>: every loaded Room grain's cached
  members are those of the table, and no commit is applied while its reply is lost. When the User grain then
  reports success for a join, whatever calls between the grains were lost and whatever activations happened on
  the way, the membership table holds the user's membership of the requested room, and the grain's joined rooms
  are the former ones and that room. Without the condition it can fail: after a leave whose commit was applied
  and whose reply was lost, the room still caches the leaver, and answers the next join as one of a member
  although the table has no row (\<open>lost_leave_example\<close> and \<open>stale_join_example\<close>).
\<close>

theorem acknowledged_join_is_durable:
  assumes "world_ok T w" and "JoinRoom T (clusterRoomClient T) room_id g w = (None, g', w')"
  shows "\<exists>r u. ParseRoomID room_id = Ok r \<and> parseUserRef T (Some (ug_self g)) = Ok u
    \<and> role_of (w_db w') r (ur_id u) \<noteq> None
    \<and> Mapping.keys (us_joinedRooms (ug_state g')) = insert r (Mapping.keys (us_joinedRooms (ug_state g)))"
  using cluster.join_sync [OF assms] by (simp add: world_member_def)

lemma demo_join_world:
  "\<exists>g' w'. JoinRoom plain_text_lib (clusterRoomClient plain_text_lib) ''4'' demo_ug demo_world = (None, g', w')"
proof -
  have adm: "\<exists>g' d' jobs. Join plain_text_lib (healthy_env 9 (Ok 77)) (room_ctx (RoomID 4)) demo_cyd demo_grain demo_db
      = (\<lparr>jresp_error = None, jresp_room = Some (protoRoomRef demo_room_ref)\<rparr>, g', d', jobs)"
  proof -
    obtain e d2 where "recordJoin_grain (healthy_env 9 (Ok 77)) (demo_ref 3) demo_grain demo_db = (Ok e, d2)"
      using demo_join_cyd demo_parse_cyd
      by (fastforce simp: Join_def demo_loaded demo_cyd_def Let_def isMember_keys demo_keys demo_ref_def
          joinErrWithRoom_def joinErr_def split: prod.splits sum.splits)
    moreover have "\<not> isMember (ur_id (demo_ref 3)) (g_state demo_grain)"
      by (simp add: isMember_keys demo_keys demo_ref_def)
    ultimately show ?thesis
      using demo_parse_cyd by (simp add: Join_def demo_loaded demo_cyd_def Let_def)
  qed
  have ref: "parseRoomRef plain_text_lib (Some (protoRoomRef demo_room_ref)) = Ok demo_room_ref"
    using demo_den_valid by (intro parse_protoRoomRef) (simp add: demo_room_ref_def)
  from adm obtain g' d' js where
    "Join plain_text_lib (healthy_env 9 (Ok 77)) (room_ctx (RoomID 4)) demo_cyd demo_grain demo_db
      = (\<lparr>jresp_error = None, jresp_room = Some (protoRoomRef demo_room_ref)\<rparr>, g', d', js)" by blast
  then show ?thesis using demo_activate ref
    by (simp add: JoinRoom_def demo_ids clusterRoomClient_def grain_call_def demo_world_def
        demo_cyd_self Let_def) (simp add: demo_env_def)
qed

theorem acknowledged_join_is_durable_witness:
  "world_ok plain_text_lib demo_world
   \<and> (\<exists>g' w'. JoinRoom plain_text_lib (clusterRoomClient plain_text_lib) ''4'' demo_ug demo_world = (None, g', w')
        \<and> role_of (w_db w') (RoomID 4) (UserID 3) \<noteq> None)"
proof -
  obtain g' w' where j: "JoinRoom plain_text_lib (clusterRoomClient plain_text_lib) ''4'' demo_ug demo_world
      = (None, g', w')" using demo_join_world by blast
  have "parseUserRef plain_text_lib (Some (ug_self demo_ug)) = Ok (demo_ref 3)"
    using demo_parse_cyd by (simp add: demo_cyd_self demo_cyd_def)
  then show ?thesis using acknowledged_join_is_durable [OF demo_world_ok j] demo_world_ok j
    by (auto simp: demo_ids demo_ref_def)
qed

text \<open>The exception of C3: bob leaves, the commit is applied and its reply lost, and he joins again.\<close>

definition bob_ug :: user_grain where
  "bob_ug = demo_ug\<lparr>ug_self := \<lparr>pu_id = ''2'', pu_name = ''bob'', pu_public_code = ''0000000002''\<rparr>\<rparr>"

lemma lost_leave_example:
  "\<exists>d. Leave (healthy_env 9 (Ok 77)\<lparr>tx_commit := Unacked\<rparr>) demo_ctx ''2'' demo_grain demo_db
        = (leaveErr InternalError ''failed to record membership'', demo_grain, d, [])
     \<and> role_of d (RoomID 4) (UserID 2) = None"
proof -
  obtain leaver where l: "memberRef (UserID 2) (g_state demo_grain) = Some leaver" "ur_id leaver = UserID 2"
    using demo_keys demo_coherent(1) in_keys_iff [of "UserID 2" "rs_members (g_state demo_grain)"]
    by (fastforce simp: memberRef_def coherent_def state_inv_def)
  obtain d where "recordLeave_grain (healthy_env 9 (Ok 77)\<lparr>tx_commit := Unacked\<rparr>) leaver demo_grain demo_db = (Err ErrCommitTx, d)"
      "role_of d (RoomID 4) (UserID 2) = None"
    by (simp add: recordLeave_grain_def demo_coherent(2) demo_loaded(2) demo_room_ref_def RecordLeave_def
        record_transition_def WithinTx_def then_stmt_def return_stmt_def Remove_def removeSQL_def l(2)
        AppendMembership_def eventType_def MemberJoined_def MemberLeft_def appendEventSQL_def NewEventID_def demo_eval Let_def role_of_def row_role_def)
  then show ?thesis by (simp add: Leave_def demo_loaded demo_ids l leaveErr_def)
qed

lemma stale_join_example:
  assumes "role_of d (RoomID 4) (UserID 2) = None"
  shows "\<exists>g' w'. JoinRoom plain_text_lib (clusterRoomClient plain_text_lib) ''4'' bob_ug
      (demo_world\<lparr>w_grains := (\<lambda>_. demo_grain), w_db := d, w_env := (\<lambda>_. demo_env\<lparr>re_activate := False\<rparr>)\<rparr>) = (None, g', w')
    \<and> role_of (w_db w') (RoomID 4) (UserID 2) = None"
proof -
  have "Join plain_text_lib (healthy_env 9 (Ok 77)) (room_ctx (RoomID 4)) demo_bob demo_grain d
      = (joinErrWithRoom RoomAlreadyMember ''already a member of this room'' (protoRoomRef demo_room_ref), demo_grain, d, [])"
    by (simp add: Join_def demo_loaded demo_parse_bob isMember_keys demo_keys demo_member_def Let_def)
  moreover have "parseRoomRef plain_text_lib (Some (protoRoomRef demo_room_ref)) = Ok demo_room_ref"
    using demo_den_valid by (intro parse_protoRoomRef) (simp add: demo_room_ref_def)
  moreover have "Some (ug_self bob_ug) = demo_bob" by (simp add: bob_ug_def demo_bob_def)
  ultimately show ?thesis using assms
    by (simp add: JoinRoom_def demo_ids clusterRoomClient_def grain_call_def demo_world_def activate_def demo_env_def Let_def
        joinErrWithRoom_def joinErr_def parseRoomError_errDetail)
qed

text \<open>
  An acknowledged leave is durable. When the User grain reports success for a leave, the
  membership table holds no membership of the user in the requested room, and the room is gone from
  the grain's joined rooms, no other being touched.
\<close>

theorem acknowledged_leave_is_durable:
  assumes "world_ok T w" and "LeaveRoom (clusterRoomClient T) identity room_id g w = (None, g', w')"
  shows "\<exists>r u. ParseRoomID room_id = Ok r \<and> ParseUserID identity = Ok u
    \<and> role_of (w_db w') r u = None
    \<and> Mapping.keys (us_joinedRooms (ug_state g')) = Mapping.keys (us_joinedRooms (ug_state g)) - {r}"
  using cluster.leave_sync [OF assms] by (simp add: world_member_def)

lemma demo_leave_world:
  "\<exists>g' w'. LeaveRoom (clusterRoomClient plain_text_lib) ''3'' ''4'' demo_ug demo_world = (None, g', w')"
proof -
  have "memberRef (UserID 3) (g_state demo_grain) = None"
    using in_keys_iff [of "UserID 3" "rs_members (g_state demo_grain)"] demo_keys by (simp add: memberRef_def)
  then have "Leave (healthy_env 9 (Ok 77)) (room_ctx (RoomID 4)) ''3'' demo_grain demo_db
      = (Some (errDetail RoomNotMember ''not a member of this room''), demo_grain, demo_db, [])"
    by (simp add: Leave_def demo_loaded demo_ids leaveErr_def)
  then show ?thesis using demo_activate
    by (simp add: LeaveRoom_def demo_ids clusterRoomClient_def grain_call_def demo_world_def Let_def
        parseRoomError_errDetail) (simp add: demo_env_def parseRoomError_errDetail)
qed

theorem acknowledged_leave_is_durable_witness:
  "world_ok plain_text_lib demo_world
   \<and> (\<exists>g' w'. LeaveRoom (clusterRoomClient plain_text_lib) ''3'' ''4'' demo_ug demo_world = (None, g', w')
        \<and> role_of (w_db w') (RoomID 4) (UserID 3) = None)"
proof -
  obtain g' w' where l: "LeaveRoom (clusterRoomClient plain_text_lib) ''3'' ''4'' demo_ug demo_world
      = (None, g', w')" using demo_leave_world by blast
  show ?thesis using acknowledged_leave_is_durable [OF demo_world_ok l] demo_world_ok l
    by (auto simp: demo_ids)
qed

lemma ParsePublicCode_empty: "\<exists>e. ParsePublicCode [] = Err e"
  using ParsePublicCode_valid [of "[]"]
  by (cases "ParsePublicCode []") (auto simp: ParsePublicCode_def valid_code_def publicCodeLen_def Let_def
      trim_space_def)

lemma unresolved_self: "pu_public_code self = [] \<Longrightarrow> \<exists>e. parseUserRef T (Some self) = Err e"
  using ParsePublicCode_empty by (auto simp: parseUserRef_def split: sum.splits)

text \<open>A handler that refuses leaves the tables and the fan-out queue alone.\<close>

lemma grain_call_refused:
  assumes "\<And>e g d. \<exists>resp. h e g d = (resp, g, d, []) \<and> bad resp"
    and "grain_call T r h w = (res, w')"
  shows "w_db w' = w_db w \<and> w_jobs w' = w_jobs w \<and> (case res of Inl _ \<Rightarrow> True | Inr resp \<Rightarrow> bad resp)"
proof -
  have call: "grain_call T r h w = (res, w')" by (rule assms(2))
  show ?thesis
  proof (cases "re_deliver (w_env w 0) \<and> is_ok (activate T (w_env w 0) r (w_grains w r) (w_db w))")
    case False
    then show ?thesis using call
      by (auto simp: grain_call_def Let_def split: sum.splits if_splits prod.splits)
  next
    case True
    then obtain g where g: "activate T (w_env w 0) r (w_grains w r) (w_db w) = Ok g"
      by (cases "activate T (w_env w 0) r (w_grains w r) (w_db w)") auto
    obtain resp where "h (w_env w 0) g (w_db w) = (resp, g, w_db w, [])" "bad resp" using assms(1) by blast
    then show ?thesis using call True g by (auto simp: grain_call_def Let_def split: if_splits)
  qed
qed

text \<open>
  A user without a public identity cannot act. When the directory could not resolve the user, the
  grain's own reference carries no public code; then a join or a message is answered with an error,
  and no table changes and nothing is fanned out, so the internal id never reaches a client.
\<close>

theorem unresolved_identity_cannot_act:
  assumes "pu_public_code (ug_self g) = []"
    and "JoinRoom T (clusterRoomClient T) room_id g w = (jerr, g1, w1)"
    and "SendMessage (clusterRoomClient T) room_id body g w = (sresp, g2, w2)"
  shows "jerr \<noteq> None \<and> w_db w1 = w_db w \<and> w_jobs w1 = w_jobs w
    \<and> presp_error sresp \<noteq> None \<and> w_db w2 = w_db w \<and> w_jobs w2 = w_jobs w"
proof -
  obtain x where x: "parseUserRef T (Some (ug_self g)) = Err x" using unresolved_self [OF assms(1)] by blast
  have codes: "known_code RoomNotFound" "known_code InvalidRequest" "RoomNotFound \<noteq> RoomAlreadyMember"
    "InvalidRequest \<noteq> RoomAlreadyMember" by (simp_all, simp_all add: code_defs)
  define badj where "badj = (\<lambda>resp :: join_response. \<exists>c m. jresp_error resp = Some (errDetail c m)
      \<and> known_code c \<and> c \<noteq> RoomAlreadyMember)"
  have j: "\<exists>resp. Join T (re_tx e) (room_ctx r) (Some (ug_self g)) g' d = (resp, g', d, []) \<and> badj resp" for e r g' d
    using x codes by (auto simp: Join_def badj_def joinErr_def joinErrWithRoom_def Let_def)
  have p: "\<exists>resp. PostMessage T (re_tx e) (re_now e) (room_ctx r) (Some (ug_self g)) body g' d
      = (resp, g', d, []) \<and> presp_error resp \<noteq> None" for e r g' d
    using x by (auto simp: PostMessage_def postErr_def)
  have "jerr \<noteq> None \<and> w_db w1 = w_db w \<and> w_jobs w1 = w_jobs w"
  proof (cases "ParseRoomID room_id")
    case (Inr r)
    obtain res w' where c: "grain_call T r (\<lambda>e. Join T (re_tx e) (room_ctx r) (Some (ug_self g))) w = (res, w')"
      by fastforce
    show ?thesis using grain_call_refused [OF j c] assms(2) Inr c
      by (auto simp: JoinRoom_def clusterRoomClient_def badj_def parseRoomError_errDetail
          split: sum.splits dest: sym)
  qed (use assms(2) in \<open>auto simp: JoinRoom_def\<close>)
  moreover have "presp_error sresp \<noteq> None \<and> w_db w2 = w_db w \<and> w_jobs w2 = w_jobs w"
  proof (cases "ParseRoomID room_id")
    case (Inr r)
    obtain res w' where c: "grain_call T r (\<lambda>e. PostMessage T (re_tx e) (re_now e) (room_ctx r)
        (Some (ug_self g)) body) w = (res, w')" by fastforce
    show ?thesis using grain_call_refused [OF p c] assms(3) Inr c
      by (auto simp: SendMessage_def clusterRoomClient_def Let_def split: sum.splits option.splits if_splits)
  qed (use assms(3) in \<open>auto simp: SendMessage_def Let_def\<close>)
  ultimately show ?thesis by blast
qed

theorem unresolved_identity_cannot_act_witness:
  "pu_public_code (ug_self (demo_ug\<lparr>ug_self := \<lparr>pu_id = ''3'', pu_name = ''3'', pu_public_code = []\<rparr>\<rparr>)) = []
   \<and> fst (JoinRoom plain_text_lib (clusterRoomClient plain_text_lib) ''4''
       (demo_ug\<lparr>ug_self := \<lparr>pu_id = ''3'', pu_name = ''3'', pu_public_code = []\<rparr>\<rparr>) demo_world) \<noteq> None"
proof -
  let ?g = "demo_ug\<lparr>ug_self := \<lparr>pu_id = ''3'', pu_name = ''3'', pu_public_code = []\<rparr>\<rparr>"
  obtain jerr g1 w1 where j: "JoinRoom plain_text_lib (clusterRoomClient plain_text_lib) ''4'' ?g demo_world
      = (jerr, g1, w1)" by (metis prod_cases3)
  obtain sresp g2 w2 where s: "SendMessage (clusterRoomClient plain_text_lib) ''4'' ''hi'' ?g demo_world
      = (sresp, g2, w2)" by (metis prod_cases3)
  have c: "pu_public_code (ug_self ?g) = []" by simp
  show ?thesis using unresolved_identity_cannot_act [OF c j s] c j by simp
qed

end
