(* ===== verification/Connection.thy ===== *)
theory Connection
  imports UserGrain
begin

text \<open>
  The UserConnection actor (\<open>internal/actor/connection\<close>): one per WebSocket. The behaviours installed
  with \<open>Become\<close> are the phases of the state; a handler returns whether it returned or panicked
  together with the state at that point, since a panic in \<open>sendOutbound\<close> unwinds out of the handler and
  leaves the fields as they are. Timers are the flags that say whether a cancel handle is pending: a
  timer's message can arrive at any time.

  The authenticator, the cluster and the JSON decoder are parameters (\<open>conn_env\<close>, the arguments of
  \<open>decodeInboundFrame\<close>). \<open>conn_sys\<close> puts the actor together with the write pump; the pump's step and the
  delivery of a message interleave in any order.
\<close>

subsection \<open>Messages\<close>

record client_ref =
  cr_ID :: string
  cr_Name :: string

datatype outbound =
  OAuthSucceeded
  | OAuthFailed code string
  | OChatDelivered string client_ref string instant string
  | ORoomJoined string client_ref string instant
  | ORoomLeft string client_ref string instant
  | OErrorResponse code string
  | OAppPing
  | OCloseConnection string

datatype conn_msg =
  MStarted | MStopping | MStopped
  | MConnectionClosed string | MReadPumpPanicked string | MWritePumpFailed string string
  | MWritePumpClosed string
  | MAppPingTick | MAppPongReceived | MPongTimeoutExpired
  | MInboundAuth string | MAuthTimeoutExpired | MDecodeFailed string | MProtocolViolation string
  | MForward forward_request | MNotify notify_request | MTerminated pid | MReregisterRetry

datatype token_error = ErrEmptyAuthToken

definition NewAuthToken :: "string \<Rightarrow> (token_error, string) result" where
  "NewAuthToken value =
     (let v = trim_space value in if v = [] then Err ErrEmptyAuthToken else Ok v)"

text \<open>
  \<open>decodeInboundFrame\<close>. The two arguments after the frame are what \<open>json.Unmarshal\<close> gives for it: the
  \<open>type\<close> field of the envelope, and the \<open>token\<close> field of the auth frame, or an error.
\<close>

definition decodeInboundFrame :: "string \<Rightarrow> string option \<Rightarrow> string option \<Rightarrow> conn_msg" where
  "decodeInboundFrame data env_type auth_token =
     (if data = [] then MDecodeFailed ''malformed_json''
      else case env_type of
        None \<Rightarrow> MDecodeFailed ''malformed_json''
      | Some ty \<Rightarrow>
          if ty = ''auth'' then
            (case auth_token of
               None \<Rightarrow> MDecodeFailed ''malformed_json''
             | Some tok \<Rightarrow>
                 (case NewAuthToken tok of
                    Inl _ \<Rightarrow> MProtocolViolation ''missing_token''
                  | Inr t \<Rightarrow> MInboundAuth t))
          else if ty = ''pong'' then MAppPongReceived
          else MDecodeFailed ''unknown_type'')"

subsection \<open>The read pump\<close>

text \<open>
  What one pass of \<open>runReadPump\<close> meets: the error \<open>ReadMessage\<close> returned, by the classes
  \<open>classifyReadErr\<close> tells apart, or a frame with what the JSON decoder gives for it, or a panic; the
  flags say whether the context was cancelled before the read and when its error is looked at.
\<close>

datatype read_error = ReadCloseError | ReadTimeout | ReadOther

datatype read_result =
  ReadFailed read_error | ReadText string "string option" "string option" | ReadBinary | ReadPanic string

definition classifyReadErr :: "read_error \<Rightarrow> string" where
  "classifyReadErr e =
     (case e of ReadCloseError \<Rightarrow> ''closed_by_peer'' | ReadTimeout \<Rightarrow> ''read_timeout'' | ReadOther \<Rightarrow> ''read_error'')"

fun runReadPump :: "(bool \<times> read_result \<times> bool) list \<Rightarrow> conn_msg list" where
  "runReadPump [] = []"
| "runReadPump ((done_before, r, done_after) # rest) =
     (if done_before then []
      else case r of
        ReadPanic cause \<Rightarrow> [MReadPumpPanicked cause]
      | ReadFailed e \<Rightarrow> if done_after then [] else [MConnectionClosed (classifyReadErr e)]
      | ReadBinary \<Rightarrow> runReadPump rest
      | ReadText data ty tok \<Rightarrow> decodeInboundFrame data ty tok # runReadPump rest)"

subsection \<open>Frames\<close>

datatype frame_field = FStr string | FNum int | FRef client_ref

type_synonym frame = "(string \<times> frame_field) list"

definition timestampMillis :: "instant \<Rightarrow> int" where
  "timestampMillis t = (if t = zero_time then 0 else t div 1000000)"

definition encodeAuthError :: "code \<Rightarrow> string \<Rightarrow> frame" where
  "encodeAuthError c msg =
     [(''type'', FStr ''auth_error''), (''code'', FNum c), (''status'', FStr (Status c)),
      (''message'', FStr msg)]"

definition encodeError :: "code \<Rightarrow> string \<Rightarrow> frame" where
  "encodeError c msg =
     [(''type'', FStr ''error''), (''code'', FNum c), (''status'', FStr (Status c)),
      (''message'', FStr msg)]"

definition encodeMessage :: "string \<Rightarrow> client_ref \<Rightarrow> string \<Rightarrow> int \<Rightarrow> string \<Rightarrow> frame" where
  "encodeMessage roomID sender body ts eventID =
     [(''type'', FStr ''message''), (''room_id'', FStr roomID), (''event_id'', FStr eventID),
      (''sender'', FRef sender), (''text'', FStr body), (''timestamp'', FNum ts)]"

definition encodeMember :: "string \<Rightarrow> string \<Rightarrow> client_ref \<Rightarrow> string \<Rightarrow> int \<Rightarrow> frame" where
  "encodeMember kind roomID user eventID ts =
     [(''type'', FStr kind), (''room_id'', FStr roomID), (''event_id'', FStr eventID),
      (''user'', FRef user), (''timestamp'', FNum ts)]"

definition encodeOutboundMessage :: "outbound \<Rightarrow> (frame \<times> string) option" where
  "encodeOutboundMessage msg =
     (case msg of
        OAuthSucceeded \<Rightarrow> Some ([(''type'', FStr ''auth_ok'')], ''auth_ok'')
      | OAuthFailed c m \<Rightarrow> Some (encodeAuthError c m, ''auth_error'')
      | OChatDelivered room sender body t e \<Rightarrow>
          Some (encodeMessage room sender body (timestampMillis t) e, ''message'')
      | ORoomJoined room user e t \<Rightarrow> Some (encodeMember ''joined'' room user e (timestampMillis t), ''event'')
      | ORoomLeft room user e t \<Rightarrow> Some (encodeMember ''left'' room user e (timestampMillis t), ''event'')
      | OErrorResponse c m \<Rightarrow> Some (encodeError c m, ''error'')
      | OAppPing \<Rightarrow> Some ([(''type'', FStr ''ping'')], ''ping'')
      | OCloseConnection _ \<Rightarrow> None)"

subsection \<open>The actor's state\<close>

datatype phase = PhNone | PhPreAuth | PhPostAuth | PhClosing

definition outboundBufferSize :: nat where "outboundBufferSize = 64"
definition reregisterMaxAttempts :: nat where "reregisterMaxAttempts = 3"

record conn_state =
  cn_phase :: phase
  cn_userID :: user_id
  cn_grainPID :: "pid option"
  cn_attempts :: nat
  cn_retry :: bool
  cn_outbound :: "outbound list"
  cn_open :: bool
  cn_heartbeat :: bool
  cn_ping :: bool
  cn_watchdog :: bool
  cn_deadline :: bool
  cn_watched :: "pid list"
  cn_stop :: bool
  cn_dead :: bool

text \<open>\<open>NewHeartbeatCadence\<close>; the zero cadence disables the heartbeat.\<close>

datatype cadence_error = ErrPingInterval | ErrPongTimeout

definition NewHeartbeatCadence :: "duration \<Rightarrow> duration \<Rightarrow> (cadence_error, duration \<times> duration) result" where
  "NewHeartbeatCadence pingInterval pongTimeout =
     (if pingInterval \<le> 0 then Err ErrPingInterval
      else if pongTimeout \<le> pingInterval then Err ErrPongTimeout
      else Ok (pingInterval, pongTimeout))"

definition cadence_enabled :: "duration \<times> duration \<Rightarrow> bool" where
  "cadence_enabled c \<longleftrightarrow> c \<noteq> (0, 0)"

definition new_connection :: "duration \<times> duration \<Rightarrow> conn_state" where
  "new_connection c =
     \<lparr>cn_phase = PhNone, cn_userID = zero_user_id, cn_grainPID = None, cn_attempts = 0, cn_retry = False,
      cn_outbound = [], cn_open = False, cn_heartbeat = cadence_enabled c, cn_ping = False,
      cn_watchdog = False, cn_deadline = False, cn_watched = [], cn_stop = False, cn_dead = False\<rparr>"

text \<open>A handler: \<open>True\<close> when it returned, \<open>False\<close> when it panicked.\<close>

type_synonym act = "conn_state \<Rightarrow> bool \<times> conn_state"

definition skip :: act where "skip s = (True, s)"

definition update :: "(conn_state \<Rightarrow> conn_state) \<Rightarrow> act" where "update f s = (True, f s)"

definition andThen :: "act \<Rightarrow> act \<Rightarrow> act" where
  "andThen a b s = (case a s of (ok, s') \<Rightarrow> if ok then b s' else (False, s'))"

definition sendOutbound :: "outbound \<Rightarrow> act" where
  "sendOutbound m s =
     (if length (cn_outbound s) < outboundBufferSize
      then (True, s\<lparr>cn_outbound := cn_outbound s @ [m]\<rparr>)
      else (False, s))"

definition sendOutboundBestEffort :: "outbound \<Rightarrow> act" where
  "sendOutboundBestEffort m s =
     (if length (cn_outbound s) < outboundBufferSize
      then (True, s\<lparr>cn_outbound := cn_outbound s @ [m]\<rparr>)
      else (True, s))"

text \<open>\<open>Become(newClosingBehavior(cc))\<close>: the close is queued first, then the behaviour is installed.\<close>

definition becomeClosing :: "string \<Rightarrow> act" where
  "becomeClosing reason =
     andThen (sendOutbound (OCloseConnection reason)) (update (\<lambda>s. s\<lparr>cn_phase := PhClosing\<rparr>))"

subsection \<open>Heartbeat timers\<close>

definition heartbeat_start :: "conn_state \<Rightarrow> conn_state" where
  "heartbeat_start s = (if \<not> cn_heartbeat s then s else s\<lparr>cn_ping := True\<rparr>)"

definition resetWatchdog :: "conn_state \<Rightarrow> conn_state" where
  "resetWatchdog s = (if \<not> cn_heartbeat s then s else s\<lparr>cn_watchdog := True\<rparr>)"

definition ensureWatchdog :: "conn_state \<Rightarrow> conn_state" where
  "ensureWatchdog s = (if cn_watchdog s then s else resetWatchdog s)"

definition cancelWatchdog :: "conn_state \<Rightarrow> conn_state" where
  "cancelWatchdog s = s\<lparr>cn_watchdog := False\<rparr>"

definition heartbeat_stop :: "conn_state \<Rightarrow> conn_state" where
  "heartbeat_stop s = (cancelWatchdog s)\<lparr>cn_ping := False\<rparr>"

subsection \<open>Authentication\<close>

datatype auth_error = ErrTokenExpired | ErrIdentityUnavailable | ErrTokenInvalid

record conn_env =
  ce_validate :: "string \<Rightarrow> (auth_error, user_id option) result"
  ce_client :: bool
  ce_register :: "string \<Rightarrow> pid \<Rightarrow> (unit, register_response) result"
  ce_self :: pid

record rejection =
  rj_Code :: code
  rj_Message :: string
  rj_Reason :: string

definition inlineErrorClientMessage :: "code \<Rightarrow> string" where
  "inlineErrorClientMessage c =
     (if c = InvalidRequest then ''registration rejected'' else ''registration rejected'')"

definition grainPIDFromResponse :: "register_response \<Rightarrow> pid option" where
  "grainPIDFromResponse resp =
     (case rg_grain_pid resp of
        None \<Rightarrow> None
      | Some p \<Rightarrow> if pid_address p = [] \<or> pid_id p = [] then None else Some p)"

definition handleAuth :: "conn_env \<Rightarrow> string \<Rightarrow> (rejection, user_id \<times> pid option) result" where
  "handleAuth env token =
     (case ce_validate env token of
        Inl ErrTokenExpired \<Rightarrow>
          Err \<lparr>rj_Code = AuthExpiredToken, rj_Message = ''token has expired'', rj_Reason = ''expired''\<rparr>
      | Inl ErrIdentityUnavailable \<Rightarrow>
          Err \<lparr>rj_Code = ServiceUnavailable, rj_Message = ''authentication temporarily unavailable'',
               rj_Reason = ''unavailable''\<rparr>
      | Inl ErrTokenInvalid \<Rightarrow>
          Err \<lparr>rj_Code = AuthInvalidToken, rj_Message = ''invalid token'', rj_Reason = ''invalid''\<rparr>
      | Inr None \<Rightarrow>
          Err \<lparr>rj_Code = AuthInvalidToken, rj_Message = ''invalid token'',
               rj_Reason = ''contract_violation''\<rparr>
      | Inr (Some userID) \<Rightarrow>
          if \<not> ce_client env then
            Err \<lparr>rj_Code = InternalError, rj_Message = ''service unavailable'', rj_Reason = ''no_user_client''\<rparr>
          else
            (case ce_register env (user_string userID) (ce_self env) of
               Inl _ \<Rightarrow>
                 Err \<lparr>rj_Code = InternalError, rj_Message = ''service unavailable'',
                      rj_Reason = ''register_transport_error''\<rparr>
             | Inr resp \<Rightarrow>
                 (case rg_error resp of
                    Some respErr \<Rightarrow>
                      (case parse_code (ed_code respErr) (ed_status respErr) of
                         Inl _ \<Rightarrow>
                           Err \<lparr>rj_Code = InternalError, rj_Message = ''service unavailable'',
                                rj_Reason = ''register_inline_error_invalid_taxonomy''\<rparr>
                       | Inr c \<Rightarrow>
                           Err \<lparr>rj_Code = c, rj_Message = inlineErrorClientMessage c,
                                rj_Reason = ''register_inline_error''\<rparr>)
                  | None \<Rightarrow> Ok (userID, grainPIDFromResponse resp))))"

definition watch :: "pid option \<Rightarrow> conn_state \<Rightarrow> conn_state" where
  "watch p s = (case p of None \<Rightarrow> s | Some q \<Rightarrow> s\<lparr>cn_watched := cn_watched s @ [q]\<rparr>)"

subsection \<open>Re-registration\<close>

definition samePID :: "pid \<Rightarrow> pid option \<Rightarrow> bool" where
  "samePID a b = (case b of None \<Rightarrow> False | Some q \<Rightarrow> pid_address a = pid_address q \<and> pid_id a = pid_id q)"

definition reregister :: "conn_env \<Rightarrow> conn_state \<Rightarrow> (unit, pid option) result" where
  "reregister env s =
     (case ce_register env (user_string (cn_userID s)) (ce_self env) of
        Inl _ \<Rightarrow> Err ()
      | Inr resp \<Rightarrow>
          (case rg_error resp of Some _ \<Rightarrow> Err () | None \<Rightarrow> Ok (grainPIDFromResponse resp)))"

definition recordReregisterFailure :: "conn_state \<Rightarrow> bool \<times> conn_state" where
  "recordReregisterFailure s =
     (let s1 = s\<lparr>cn_attempts := Suc (cn_attempts s)\<rparr> in
      if cn_attempts s1 \<ge> reregisterMaxAttempts then (True, s1)
      else (False, s1\<lparr>cn_retry := True\<rparr>))"

definition recordReregisterSuccess :: "pid option \<Rightarrow> conn_state \<Rightarrow> conn_state" where
  "recordReregisterSuccess grainPID s = s\<lparr>cn_grainPID := grainPID, cn_attempts := 0\<rparr>"

text \<open>Whether the connection should close, and the state.\<close>

definition attemptReregister :: "conn_env \<Rightarrow> conn_state \<Rightarrow> bool \<times> conn_state" where
  "attemptReregister env s =
     (case reregister env s of
        Inl _ \<Rightarrow> recordReregisterFailure s
      | Inr grainPID \<Rightarrow> (False, watch grainPID (recordReregisterSuccess grainPID s)))"

definition cancelReregisterRetry :: "conn_state \<Rightarrow> conn_state" where
  "cancelReregisterRetry s = s\<lparr>cn_retry := False\<rparr>"

definition reregister_then_close :: "conn_env \<Rightarrow> act" where
  "reregister_then_close env s =
     (case attemptReregister env s of
        (shouldClose, s') \<Rightarrow> if shouldClose then becomeClosing ''reregister_failed'' s' else (True, s'))"

subsection \<open>Deliveries\<close>

definition roomCodeFromRef :: "proto_room_ref option \<Rightarrow> string option" where
  "roomCodeFromRef room =
     (case room of
        None \<Rightarrow> None
      | Some r \<Rightarrow>
          (case ParsePublicCode (pr_public_code r) of Inl _ \<Rightarrow> None | Inr code \<Rightarrow> Some (FormatRoom code)))"

definition userCodeFromRef :: "proto_user_ref option \<Rightarrow> string option" where
  "userCodeFromRef user =
     (case user of
        None \<Rightarrow> None
      | Some u \<Rightarrow>
          (case ParsePublicCode (pu_public_code u) of Inl _ \<Rightarrow> None | Inr code \<Rightarrow> Some (FormatUser code)))"

definition protoTime :: "instant option \<Rightarrow> instant" where
  "protoTime ts = (case ts of None \<Rightarrow> zero_time | Some t \<Rightarrow> t)"

definition forwardMessage :: "forward_request \<Rightarrow> act" where
  "forwardMessage req =
     (case roomCodeFromRef (fr_room req) of None \<Rightarrow> skip | Some roomCode \<Rightarrow>
      case userCodeFromRef (fr_sender req) of None \<Rightarrow> skip | Some senderCode \<Rightarrow>
      sendOutbound (OChatDelivered roomCode
        \<lparr>cr_ID = senderCode, cr_Name = pu_name (or_zero zero_proto_user (fr_sender req))\<rparr>
        (fr_text req) (protoTime (fr_timestamp req)) (fr_event_id req)))"

definition forwardRoomEvent :: "notify_request \<Rightarrow> act" where
  "forwardRoomEvent req =
     (if nr_event_type req \<noteq> EVENT_JOINED \<and> nr_event_type req \<noteq> EVENT_LEFT then skip
      else case roomCodeFromRef (nr_room req) of None \<Rightarrow> skip | Some roomCode \<Rightarrow>
      case userCodeFromRef (nr_user req) of None \<Rightarrow> skip | Some userCode \<Rightarrow>
      let user = \<lparr>cr_ID = userCode, cr_Name = pu_name (or_zero zero_proto_user (nr_user req))\<rparr>;
          at = protoTime (nr_timestamp req)
      in if nr_event_type req = EVENT_JOINED
         then sendOutbound (ORoomJoined roomCode user (nr_event_id req) at)
         else sendOutbound (ORoomLeft roomCode user (nr_event_id req) at))"

subsection \<open>Behaviours\<close>

definition preAuthBehavior :: "conn_env \<Rightarrow> conn_msg \<Rightarrow> act" where
  "preAuthBehavior env msg =
     (case msg of
        MInboundAuth token \<Rightarrow>
          (case handleAuth env token of
             Inl rej \<Rightarrow>
               andThen (sendOutboundBestEffort (OAuthFailed (rj_Code rej) (rj_Message rej)))
                 (becomeClosing (rj_Reason rej))
           | Inr (uid, grainPID) \<Rightarrow>
               andThen (update (\<lambda>s. watch grainPID (s\<lparr>cn_userID := uid, cn_grainPID := grainPID\<rparr>)))
                 (andThen (sendOutbound OAuthSucceeded) (update (\<lambda>s. s\<lparr>cn_phase := PhPostAuth\<rparr>))))
      | MAuthTimeoutExpired \<Rightarrow>
          andThen (sendOutboundBestEffort (OAuthFailed AuthMissingToken ''authentication timeout''))
            (becomeClosing ''auth_timeout'')
      | MProtocolViolation reason \<Rightarrow>
          andThen (sendOutboundBestEffort (OAuthFailed AuthMissingToken ''missing authentication token''))
            (becomeClosing reason)
      | MAppPingTick \<Rightarrow> sendOutbound OAppPing
      | MPongTimeoutExpired \<Rightarrow> becomeClosing ''pong_timeout''
      | _ \<Rightarrow> skip)"

definition postAuthBehavior :: "conn_env \<Rightarrow> conn_msg \<Rightarrow> act" where
  "postAuthBehavior env msg =
     (case msg of
        MForward req \<Rightarrow> forwardMessage req
      | MNotify req \<Rightarrow> forwardRoomEvent req
      | MTerminated who \<Rightarrow>
          (\<lambda>s. if \<not> samePID who (cn_grainPID s) then (True, s)
               else if cn_retry s then (True, s)
               else reregister_then_close env s)
      | MReregisterRetry \<Rightarrow> andThen (update cancelReregisterRetry) (reregister_then_close env)
      | MAppPingTick \<Rightarrow> sendOutbound OAppPing
      | MPongTimeoutExpired \<Rightarrow> becomeClosing ''pong_timeout''
      | _ \<Rightarrow> skip)"

definition behavior :: "conn_env \<Rightarrow> conn_msg \<Rightarrow> act" where
  "behavior env msg s =
     (case cn_phase s of
        PhPreAuth \<Rightarrow> preAuthBehavior env msg s
      | PhPostAuth \<Rightarrow> postAuthBehavior env msg s
      | PhClosing \<Rightarrow> (True, s)
      | PhNone \<Rightarrow> (True, s))"

definition shutdown :: "conn_state \<Rightarrow> conn_state" where
  "shutdown s = s\<lparr>cn_open := False\<rparr>"

definition request_stop :: "conn_state \<Rightarrow> conn_state" where
  "request_stop s = s\<lparr>cn_stop := True\<rparr>"

definition conn_receive :: "conn_env \<Rightarrow> conn_msg \<Rightarrow> act" where
  "conn_receive env msg =
     (case msg of
        MStarted \<Rightarrow> update (\<lambda>s. heartbeat_start (s\<lparr>cn_phase := PhPreAuth, cn_open := True\<rparr>))
      | MStopping \<Rightarrow> update (\<lambda>s. (shutdown (cancelReregisterRetry (heartbeat_stop s)))\<lparr>cn_dead := True\<rparr>)
      | MStopped \<Rightarrow> skip
      | MConnectionClosed _ \<Rightarrow> update request_stop
      | MReadPumpPanicked _ \<Rightarrow> update request_stop
      | MWritePumpFailed _ _ \<Rightarrow> update request_stop
      | MWritePumpClosed _ \<Rightarrow> update request_stop
      | MAppPingTick \<Rightarrow> andThen (behavior env msg) (update ensureWatchdog)
      | MAppPongReceived \<Rightarrow> andThen (behavior env msg) (update resetWatchdog)
      | MPongTimeoutExpired \<Rightarrow> andThen (update cancelWatchdog) (behavior env msg)
      | _ \<Rightarrow> behavior env msg)"

definition classifyConnectionFailure :: directive where
  "classifyConnectionFailure = StopDirective"

text \<open>\<open>authTimeoutMiddleware\<close>: the deadline is scheduled after the actor handled \<open>Started\<close>, once.\<close>

definition authTimeoutMiddleware :: "(conn_msg \<Rightarrow> act) \<Rightarrow> conn_msg \<Rightarrow> act" where
  "authTimeoutMiddleware nxt msg =
     (if msg = MStarted then andThen (nxt msg) (update (\<lambda>s. s\<lparr>cn_deadline := True\<rparr>)) else nxt msg)"

text \<open>
  The runtime: \<open>Started\<close> is delivered first and once; a panic is answered by the guardian's directive,
  which is always to stop; a requested stop is a system message, handled before any further message of
  the mailbox; a stopped actor handles nothing.
\<close>

definition deliver :: "conn_env \<Rightarrow> conn_msg \<Rightarrow> conn_state \<Rightarrow> conn_state" where
  "deliver env msg s =
     (if cn_dead s \<or> (cn_stop s \<and> msg \<noteq> MStopping) \<or> (msg = MStarted) \<noteq> (cn_phase s = PhNone) then s
      else case authTimeoutMiddleware (conn_receive env) msg s of
             (ok, s') \<Rightarrow>
               if ok then s'
               else if classifyConnectionFailure = StopDirective then request_stop s' else s')"

subsection \<open>The write pump\<close>

record conn_sys =
  sy_conn :: conn_state
  sy_wire :: "outbound list"
  sy_pump :: bool

datatype write_result = WriteOk | WriteDeadlineError | WriteError

text \<open>
  One turn of \<open>runWritePump\<close>, with the outcome of the socket write and what it reports. The loop selects
  between the cancelled context and the channel: when both are ready either may win, which is the
  argument \<open>done_first\<close>; a closed channel still yields what it buffered.
\<close>

definition pump_step :: "bool \<Rightarrow> write_result \<Rightarrow> conn_sys \<Rightarrow> conn_sys \<times> conn_msg option" where
  "pump_step done_first w y =
     (let s = sy_conn y in
      if \<not> sy_pump y \<or> cn_phase s = PhNone then (y, None)
      else if \<not> cn_open s \<and> (done_first \<or> cn_outbound s = []) then (y\<lparr>sy_pump := False\<rparr>, None)
      else case cn_outbound s of
        [] \<Rightarrow> (y, None)
      | m # ms \<Rightarrow>
          (let y1 = y\<lparr>sy_conn := s\<lparr>cn_outbound := ms\<rparr>\<rparr> in
           case m of
             OCloseConnection _ \<Rightarrow>
               (y1\<lparr>sy_wire := sy_wire y @ (if w = WriteOk then [m] else []), sy_pump := False\<rparr>,
                Some (MWritePumpClosed (if w = WriteOk then [] else ''close_frame_write_error'')))
           | _ \<Rightarrow>
               (case encodeOutboundMessage m of
                  None \<Rightarrow> (y1, None)
                | Some (fr, kind) \<Rightarrow>
                    (case w of
                       WriteOk \<Rightarrow> (y1\<lparr>sy_wire := sy_wire y @ [m]\<rparr>, None)
                     | WriteDeadlineError \<Rightarrow>
                         (y1\<lparr>sy_pump := False\<rparr>, Some (MWritePumpFailed ''write_deadline_error'' kind))
                     | WriteError \<Rightarrow>
                         (y1\<lparr>sy_pump := False\<rparr>, Some (MWritePumpFailed ''write_error'' kind))))))"

text \<open>
  A step of the system: a message of the mailbox is delivered (the pumps' reports, the timers' ticks and
  the grains' calls are all messages that may arrive at any moment), or the pump takes a turn.
\<close>

datatype sys_event = EvDeliver conn_env conn_msg | EvPump bool write_result

fun sys_step :: "sys_event \<Rightarrow> conn_sys \<Rightarrow> conn_sys" where
  "sys_step (EvDeliver env msg) y = y\<lparr>sy_conn := deliver env msg (sy_conn y)\<rparr>"
| "sys_step (EvPump d w) y = fst (pump_step d w y)"

definition run_sys :: "sys_event list \<Rightarrow> conn_sys \<Rightarrow> conn_sys" where
  "run_sys evs y = fold sys_step evs y"

definition new_sys :: "duration \<times> duration \<Rightarrow> conn_sys" where
  "new_sys c = \<lparr>sy_conn = new_connection c, sy_wire = [], sy_pump = True\<rparr>"

end
