(* ===== verification/ConnectionProtocol.thy ===== *)
theory ConnectionProtocol
  imports Connection
begin

text \<open>
  What the UserConnection actor of \<open>Connection\<close> guarantees on every interleaving of deliveries and
  write-pump turns: the order of the frames on the wire, authentication before delivery, public codes
  only, the bounded buffer, the timers and the re-registration budget.

  The proofs go through a Hoare rule for handlers: \<open>act_ok P a Q R\<close> says that from \<open>P\<close> the handler either
  returns in \<open>Q\<close> or panics in \<open>R\<close>.
\<close>

definition act_ok ::
  "(conn_state \<Rightarrow> bool) \<Rightarrow> act \<Rightarrow> (conn_state \<Rightarrow> bool) \<Rightarrow> (conn_state \<Rightarrow> bool) \<Rightarrow> bool" where
  "act_ok P a Q R \<longleftrightarrow> (\<forall>s. P s \<longrightarrow> (if fst (a s) then Q else R) (snd (a s)))"

lemma act_okI: "(\<And>s. P s \<Longrightarrow> (if fst (a s) then Q else R) (snd (a s))) \<Longrightarrow> act_ok P a Q R"
  by (simp add: act_ok_def)

lemma act_okD: "act_ok P a Q R \<Longrightarrow> P s \<Longrightarrow> (if fst (a s) then Q else R) (snd (a s))"
  by (simp add: act_ok_def)

lemma act_ok_skip: "(\<And>s. P s \<Longrightarrow> Q s) \<Longrightarrow> act_ok P skip Q R"
  by (simp add: act_ok_def skip_def)

lemma act_ok_update: "(\<And>s. P s \<Longrightarrow> Q (f s)) \<Longrightarrow> act_ok P (update f) Q R"
  by (simp add: act_ok_def update_def)

lemma act_ok_andThen:
  assumes "act_ok P a M R" "act_ok M b Q R"
  shows "act_ok P (andThen a b) Q R"
proof (rule act_okI)
  fix s assume "P s"
  obtain ok s' where a: "a s = (ok, s')" by (cases "a s")
  show "(if fst (andThen a b s) then Q else R) (snd (andThen a b s))"
    using act_okD [OF assms(1) \<open>P s\<close>] act_okD [OF assms(2), of s'] a by (cases ok) (simp_all add: andThen_def)
qed

lemma act_ok_sendOutbound:
  assumes "\<And>s. P s \<Longrightarrow> length (cn_outbound s) < outboundBufferSize \<Longrightarrow> Q (s\<lparr>cn_outbound := cn_outbound s @ [m]\<rparr>)"
    and "\<And>s. P s \<Longrightarrow> outboundBufferSize \<le> length (cn_outbound s) \<Longrightarrow> R s"
  shows "act_ok P (sendOutbound m) Q R"
  using assms by (auto simp: act_ok_def sendOutbound_def)

lemma act_ok_bestEffort:
  assumes "\<And>s. P s \<Longrightarrow> length (cn_outbound s) < outboundBufferSize \<Longrightarrow> Q (s\<lparr>cn_outbound := cn_outbound s @ [m]\<rparr>)"
    and "\<And>s. P s \<Longrightarrow> outboundBufferSize \<le> length (cn_outbound s) \<Longrightarrow> Q s"
  shows "act_ok P (sendOutboundBestEffort m) Q R"
  using assms by (auto simp: act_ok_def sendOutboundBestEffort_def)

lemma act_ok_weaken:
  "act_ok P a Q R \<Longrightarrow> (\<And>s. P' s \<Longrightarrow> P s) \<Longrightarrow> (\<And>s. Q s \<Longrightarrow> Q' s) \<Longrightarrow> (\<And>s. R s \<Longrightarrow> R' s) \<Longrightarrow> act_ok P' a Q' R'"
  by (auto simp: act_ok_def split: if_splits)

lemma act_ok_if:
  assumes "act_ok (\<lambda>s. P s \<and> c s) f Q R" "act_ok (\<lambda>s. P s \<and> \<not> c s) g Q R"
  shows "act_ok P (\<lambda>s. if c s then f s else g s) Q R"
  using assms by (auto simp: act_ok_def)

lemmas act_ok_rules =
  act_ok_skip act_ok_update act_ok_andThen act_ok_sendOutbound act_ok_bestEffort act_ok_if

subsection \<open>Invariants of the handlers\<close>

text \<open>
  The frames a behaviour queues: a delivery names its room and its user by a public code of the right
  type.
\<close>

definition room_code_ok :: "string \<Rightarrow> bool" where
  "room_code_ok r \<longleftrightarrow> (case ParseRoomCode r of Inl _ \<Rightarrow> False | Inr p \<Rightarrow> r = FormatRoom p)"

definition user_code_ok :: "string \<Rightarrow> bool" where
  "user_code_ok u \<longleftrightarrow> (case ParseUserCode u of Inl _ \<Rightarrow> False | Inr p \<Rightarrow> u = FormatUser p)"

fun public_frame :: "outbound \<Rightarrow> bool" where
  "public_frame (OChatDelivered r u _ _ _) = (room_code_ok r \<and> user_code_ok (cr_ID u))"
| "public_frame (ORoomJoined r u _ _) = (room_code_ok r \<and> user_code_ok (cr_ID u))"
| "public_frame (ORoomLeft r u _ _) = (room_code_ok r \<and> user_code_ok (cr_ID u))"
| "public_frame _ = True"

lemma roomCodeFromRef_ok: "roomCodeFromRef r = Some c \<Longrightarrow> room_code_ok c"
  by (auto simp: roomCodeFromRef_def room_code_ok_def ParseRoomCode_FormatRoom ParsePublicCode_valid
      split: option.splits sum.splits)

lemma userCodeFromRef_ok: "userCodeFromRef r = Some c \<Longrightarrow> user_code_ok c"
  by (auto simp: userCodeFromRef_def user_code_ok_def ParseUserCode_FormatUser ParsePublicCode_valid
      split: option.splits sum.splits)

text \<open>
  A predicate on the actor's state that survives queueing a frame, the bookkeeping of identity, phase,
  watches and budget, arming a timer of an enabled heartbeat and disarming any timer is kept by every
  delivery.
\<close>

locale conn_invariant =
  fixes I :: "conn_state \<Rightarrow> bool"
  assumes queue: "I s \<Longrightarrow> \<not> cn_dead s \<Longrightarrow> length (cn_outbound s) < outboundBufferSize \<Longrightarrow> public_frame m \<Longrightarrow>
      I (s\<lparr>cn_outbound := cn_outbound s @ [m]\<rparr>)"
    and identity: "I s \<Longrightarrow> \<not> cn_dead s \<Longrightarrow> I (s\<lparr>cn_userID := u, cn_grainPID := g\<rparr>)"
    and phases: "I s \<Longrightarrow> \<not> cn_dead s \<Longrightarrow> I (s\<lparr>cn_phase := ph\<rparr>)"
    and opened: "I s \<Longrightarrow> \<not> cn_dead s \<Longrightarrow> I (s\<lparr>cn_open := True\<rparr>)"
    and deadline: "I s \<Longrightarrow> \<not> cn_dead s \<Longrightarrow> I (s\<lparr>cn_deadline := True\<rparr>)"
    and watched: "I s \<Longrightarrow> \<not> cn_dead s \<Longrightarrow> I (s\<lparr>cn_watched := ws\<rparr>)"
    and stopping: "I s \<Longrightarrow> \<not> cn_dead s \<Longrightarrow> I (s\<lparr>cn_stop := True\<rparr>)"
    and ping: "I s \<Longrightarrow> \<not> cn_dead s \<Longrightarrow> cn_heartbeat s \<Longrightarrow> I (s\<lparr>cn_ping := True\<rparr>)"
    and watchdog: "I s \<Longrightarrow> \<not> cn_dead s \<Longrightarrow> cn_heartbeat s \<or> \<not> b \<Longrightarrow> I (s\<lparr>cn_watchdog := b\<rparr>)"
    and retry_spent: "I s \<Longrightarrow> \<not> cn_dead s \<Longrightarrow> I (s\<lparr>cn_retry := False\<rparr>)"
    and failure: "I s \<Longrightarrow> \<not> cn_dead s \<Longrightarrow> \<not> cn_retry s \<Longrightarrow> I (snd (recordReregisterFailure s))"
    and success: "I s \<Longrightarrow> \<not> cn_dead s \<Longrightarrow> \<not> cn_retry s \<Longrightarrow> I (recordReregisterSuccess p s)"
    and stopped: "I s \<Longrightarrow> \<not> cn_dead s \<Longrightarrow>
      I ((shutdown (cancelReregisterRetry (heartbeat_stop s)))\<lparr>cn_dead := True\<rparr>)"
begin

abbreviation live :: "conn_state \<Rightarrow> bool" where
  "live s \<equiv> I s \<and> \<not> cn_dead s"

lemma keeps_send: "public_frame m \<Longrightarrow> act_ok live (sendOutbound m) live live"
  by (rule act_ok_sendOutbound) (auto intro: queue)

lemma keeps_bestEffort: "public_frame m \<Longrightarrow> act_ok live (sendOutboundBestEffort m) live live"
  by (rule act_ok_bestEffort) (auto intro: queue)

lemma keeps_closing: "act_ok live (becomeClosing r) live live"
  unfolding becomeClosing_def
  by (rule act_ok_andThen [OF keeps_send act_ok_update]) (auto intro: phases)

lemma live_watch: "live s \<Longrightarrow> live (watch p s)"
  by (auto simp: watch_def intro: watched split: option.splits)

lemma live_attempt:
  assumes "live s" "\<not> cn_retry s"
  shows "live (snd (attemptReregister env s))"
  using assms live_watch [of "recordReregisterSuccess p s" p for p] success failure
  by (auto simp: attemptReregister_def recordReregisterFailure_def recordReregisterSuccess_def Let_def
      split: sum.splits)

lemma keeps_reregister:
  "act_ok (\<lambda>s. live s \<and> \<not> cn_retry s) (reregister_then_close env) live live"
proof (rule act_okI)
  fix s assume s: "live s \<and> \<not> cn_retry s"
  obtain b s' where at: "attemptReregister env s = (b, s')" by (cases "attemptReregister env s")
  then have "live s'" using live_attempt [of s env] s by auto
  from act_okD [OF keeps_closing this, of "''reregister_failed''"] at \<open>live s'\<close>
  show "(if fst (reregister_then_close env s) then live else live) (snd (reregister_then_close env s))"
    by (auto simp: reregister_then_close_def)
qed

lemma keeps_preAuth: "act_ok live (preAuthBehavior env msg) live live"
proof (cases msg)
  case (MInboundAuth tok)
  have id: "live s \<Longrightarrow> live (watch g (s\<lparr>cn_userID := u, cn_grainPID := g\<rparr>))" for s u g
    by (rule live_watch) (simp add: identity)
  show ?thesis
    by (cases "handleAuth env tok"; cases "projr (handleAuth env tok)")
      (auto simp: MInboundAuth preAuthBehavior_def intro!: act_ok_andThen [where M = live]
        act_ok_update keeps_send keeps_bestEffort keeps_closing id phases)
qed (auto simp: preAuthBehavior_def intro!: act_ok_skip keeps_send keeps_closing keeps_bestEffort
    act_ok_andThen [where M = live])

lemma keeps_forward: "act_ok live (forwardMessage req) live live"
  by (auto simp: forwardMessage_def roomCodeFromRef_ok userCodeFromRef_ok intro!: act_ok_skip keeps_send
      split: option.splits)

lemma keeps_event: "act_ok live (forwardRoomEvent req) live live"
  by (auto simp: forwardRoomEvent_def Let_def roomCodeFromRef_ok userCodeFromRef_ok
      intro!: act_ok_skip keeps_send split: option.splits)

lemma keeps_postAuth: "act_ok live (postAuthBehavior env msg) live live"
proof (cases msg)
  case (MTerminated who)
  have "act_ok live (\<lambda>s. if \<not> samePID who (cn_grainPID s) then skip s
      else if cn_retry s then skip s else reregister_then_close env s) live live"
    by (intro act_ok_if act_ok_skip act_ok_weaken [OF keeps_reregister]) auto
  then show ?thesis by (simp add: MTerminated postAuthBehavior_def skip_def cong: if_cong)
next
  case MReregisterRetry
  show ?thesis
    by (auto simp: MReregisterRetry postAuthBehavior_def cancelReregisterRetry_def
        intro!: act_ok_andThen [OF act_ok_update keeps_reregister] retry_spent)
qed (auto simp: postAuthBehavior_def intro!: act_ok_skip keeps_send keeps_closing keeps_forward keeps_event)

lemma keeps_behavior: "act_ok live (behavior env msg) live live"
  using keeps_preAuth keeps_postAuth by (auto simp: act_ok_def behavior_def split: phase.splits)

lemma live_watchdog: "live s \<Longrightarrow> live (resetWatchdog s)" "live s \<Longrightarrow> live (ensureWatchdog s)"
    "live s \<Longrightarrow> live (cancelWatchdog s)" "live s \<Longrightarrow> live (request_stop s)"
    "live s \<Longrightarrow> live (heartbeat_start (s\<lparr>cn_phase := PhPreAuth, cn_open := True\<rparr>))"
  using opened phases [of s PhPreAuth] opened [of "s\<lparr>cn_phase := PhPreAuth\<rparr>"]
    ping [of "s\<lparr>cn_phase := PhPreAuth, cn_open := True\<rparr>"]
  by (auto simp: resetWatchdog_def ensureWatchdog_def cancelWatchdog_def request_stop_def
      heartbeat_start_def intro: watchdog stopping)

lemma keeps_receive: "msg \<noteq> MStopping \<Longrightarrow> act_ok live (conn_receive env msg) live live"
  by (cases msg)
    (auto simp: conn_receive_def
      intro!: act_ok_skip act_ok_update keeps_behavior act_ok_andThen [where M = live] live_watchdog)

lemma deliver_keeps:
  assumes "I s"
  shows "I (deliver env msg s)"
proof (cases "cn_dead s \<or> (cn_stop s \<and> msg \<noteq> MStopping) \<or> (msg = MStarted) \<noteq> (cn_phase s = PhNone)")
  case True
  then show ?thesis using assms by (simp add: deliver_def)
next
  case act: False
  show ?thesis
  proof (cases "msg = MStopping")
    case True
    then show ?thesis
      using act stopped [OF assms] by (simp add: deliver_def authTimeoutMiddleware_def conn_receive_def update_def)
  next
    case False
    have "act_ok live (authTimeoutMiddleware (conn_receive env) msg) live live"
      using keeps_receive [OF False]
      by (auto simp: authTimeoutMiddleware_def intro!: act_ok_andThen [where M = live] act_ok_update deadline)
    from act_okD [OF this, of s] act assms have "live (snd (authTimeoutMiddleware (conn_receive env) msg s))"
      by simp
    then show ?thesis
      using act live_watchdog(4) [of "snd (authTimeoutMiddleware (conn_receive env) msg s)"] assms
      by (cases "authTimeoutMiddleware (conn_receive env) msg s")
        (auto simp: deliver_def classifyConnectionFailure_def)
  qed
qed

end

lemma encodeOutboundMessage_total: "encodeOutboundMessage m = None \<longleftrightarrow> (\<exists>r. m = OCloseConnection r)"
  by (simp add: encodeOutboundMessage_def split: outbound.splits)

text \<open>What a turn of the pump can do: nothing, exit, write the head of the queue, or lose it and exit.\<close>

lemma pump_step_idle:
  assumes "\<not> sy_pump y \<or> cn_phase (sy_conn y) = PhNone \<or> cn_outbound (sy_conn y) = [] \<or> \<not> cn_open (sy_conn y) \<and> d"
  shows "fst (pump_step d w y) = y \<or> fst (pump_step d w y) = y\<lparr>sy_pump := False\<rparr>"
  using assms by (auto simp: pump_step_def Let_def)

lemma pump_step_head:
  assumes "sy_pump y" "cn_phase (sy_conn y) \<noteq> PhNone" "cn_open (sy_conn y) \<or> \<not> d"
    and "cn_outbound (sy_conn y) = m # ms"
  shows "fst (pump_step d w y) =
    (if w = WriteOk
     then y\<lparr>sy_conn := sy_conn y\<lparr>cn_outbound := ms\<rparr>, sy_wire := sy_wire y @ [m],
            sy_pump := encodeOutboundMessage m \<noteq> None\<rparr>
     else y\<lparr>sy_conn := sy_conn y\<lparr>cn_outbound := ms\<rparr>, sy_pump := False\<rparr>)"
proof -
  have "y\<lparr>sy_conn := c, sy_wire := v\<rparr> = y\<lparr>sy_conn := c, sy_wire := v, sy_pump := True\<rparr>" for c v
    using assms(1) by (cases y) simp
  then show ?thesis
    using assms by (cases m; cases w) (simp_all add: pump_step_def encodeOutboundMessage_def Let_def)
qed

lemma pump_step_cases:
  obtains (idle) "fst (pump_step d w y) = y"
  | (leave) "fst (pump_step d w y) = y\<lparr>sy_pump := False\<rparr>"
  | (sent) m ms b where "sy_pump y" "cn_outbound (sy_conn y) = m # ms"
      "fst (pump_step d w y) =
         y\<lparr>sy_conn := sy_conn y\<lparr>cn_outbound := ms\<rparr>, sy_wire := sy_wire y @ [m], sy_pump := b\<rparr>"
  | (lost) m ms where "sy_pump y" "cn_outbound (sy_conn y) = m # ms"
      "fst (pump_step d w y) = y\<lparr>sy_conn := sy_conn y\<lparr>cn_outbound := ms\<rparr>, sy_pump := False\<rparr>"
proof (cases "\<not> sy_pump y \<or> cn_phase (sy_conn y) = PhNone \<or> cn_outbound (sy_conn y) = [] \<or> \<not> cn_open (sy_conn y) \<and> d")
  case True
  from pump_step_idle [OF this] show ?thesis using idle leave by blast
next
  case False
  then obtain m ms where out: "cn_outbound (sy_conn y) = m # ms" by (auto simp: neq_Nil_conv)
  show ?thesis
    using pump_step_head [OF _ _ _ out, of d w] False sent [OF _ out] lost [OF _ out] by (cases "w = WriteOk") auto
qed

text \<open>
  Such a predicate, when the write pump taking a frame keeps it too and the new actor has it, holds on
  every run.
\<close>

locale conn_run_invariant = conn_invariant I for I :: "conn_state \<Rightarrow> bool" +
  fixes cadence :: "duration \<times> duration"
  assumes start: "I (new_connection cadence)"
    and dequeue: "I s \<Longrightarrow> cn_outbound s = m # ms \<Longrightarrow> I (s\<lparr>cn_outbound := ms\<rparr>)"
begin

lemma pump_keeps: "I (sy_conn y) \<Longrightarrow> I (sy_conn (fst (pump_step d w y)))"
  by (cases d w y rule: pump_step_cases) (simp_all add: dequeue)

lemma step_keeps: "I (sy_conn y) \<Longrightarrow> I (sy_conn (sys_step e y))"
  by (cases e) (simp_all add: deliver_keeps pump_keeps)

lemma steps_keep: "I (sy_conn y) \<Longrightarrow> I (sy_conn (run_sys evs y))"
  by (induction evs arbitrary: y) (simp_all add: run_sys_def step_keeps)

lemma run_holds: "I (sy_conn (run_sys evs (new_sys cadence)))"
  by (rule steps_keep) (simp add: new_sys_def start)

end

definition outbound_bounded :: "conn_state \<Rightarrow> bool" where
  "outbound_bounded s \<longleftrightarrow> length (cn_outbound s) \<le> outboundBufferSize"

definition public_queue :: "conn_state \<Rightarrow> bool" where
  "public_queue s \<longleftrightarrow> list_all public_frame (cn_outbound s)"

definition timers_ok :: "duration \<times> duration \<Rightarrow> conn_state \<Rightarrow> bool" where
  "timers_ok c s \<longleftrightarrow>
     cn_heartbeat s = cadence_enabled c \<and> (cn_ping s \<or> cn_watchdog s \<longrightarrow> cn_heartbeat s) \<and>
     (cn_dead s \<longrightarrow> \<not> cn_ping s \<and> \<not> cn_watchdog s \<and> \<not> cn_retry s \<and> \<not> cn_open s)"

definition retry_ok :: "conn_state \<Rightarrow> bool" where
  "retry_ok s \<longleftrightarrow> (cn_retry s \<longrightarrow> 0 < cn_attempts s \<and> cn_attempts s < reregisterMaxAttempts)"

lemmas conn_update_defs =
  recordReregisterFailure_def recordReregisterSuccess_def shutdown_def cancelReregisterRetry_def
  heartbeat_stop_def cancelWatchdog_def new_connection_def Let_def

interpretation bounded: conn_run_invariant outbound_bounded c
  by unfold_locales (auto simp: outbound_bounded_def conn_update_defs)

interpretation public: conn_run_invariant public_queue c
  by unfold_locales (auto simp: public_queue_def conn_update_defs)

interpretation timers: conn_run_invariant "timers_ok c" c
  by unfold_locales (auto simp: timers_ok_def conn_update_defs)

interpretation retries: conn_run_invariant retry_ok c
  by unfold_locales (auto simp: retry_ok_def conn_update_defs)

subsection \<open>The frame stream\<close>

text \<open>
  The protocol a client sees, as an automaton: pings until authentication is decided; after \<open>auth_ok\<close> any
  delivery; after \<open>auth_error\<close> only the close; nothing after the close.
\<close>

datatype stream = SPre | SFail | SLive | SEnd

fun stream_step :: "stream \<Rightarrow> outbound \<Rightarrow> stream option" where
  "stream_step SPre OAppPing = Some SPre"
| "stream_step SPre OAuthSucceeded = Some SLive"
| "stream_step SPre (OAuthFailed _ _) = Some SFail"
| "stream_step SPre (OCloseConnection _) = Some SEnd"
| "stream_step SFail (OCloseConnection _) = Some SEnd"
| "stream_step SLive OAuthSucceeded = None"
| "stream_step SLive (OAuthFailed _ _) = None"
| "stream_step SLive (OCloseConnection _) = Some SEnd"
| "stream_step SLive _ = Some SLive"
| "stream_step _ _ = None"

fun stream_run :: "stream \<Rightarrow> outbound list \<Rightarrow> stream option" where
  "stream_run st [] = Some st"
| "stream_run st (m # ms) = (case stream_step st m of None \<Rightarrow> None | Some st' \<Rightarrow> stream_run st' ms)"

lemma stream_run_append:
  "stream_run st (ms @ ns) = (case stream_run st ms of None \<Rightarrow> None | Some st' \<Rightarrow> stream_run st' ns)"
  by (induction ms arbitrary: st) (auto split: option.splits)

lemma stream_run_prefix: "stream_run st (ms @ ns) = Some st' \<Longrightarrow> \<exists>st''. stream_run st ms = Some st''"
  by (auto simp: stream_run_append split: option.splits)

text \<open>What has been queued, given what the pump has already taken, and the phase it goes with.\<close>

definition in_stream :: "outbound list \<Rightarrow> stream \<Rightarrow> conn_state \<Rightarrow> bool" where
  "in_stream w st s \<longleftrightarrow> stream_run SPre (w @ cn_outbound s) = Some st"

definition stream_ok :: "outbound list \<Rightarrow> conn_state \<Rightarrow> bool" where
  "stream_ok w s \<longleftrightarrow> (\<exists>st. in_stream w st s \<and>
     (cn_stop s \<or> cn_dead s \<or>
      st = (case cn_phase s of PhNone \<Rightarrow> SPre | PhPreAuth \<Rightarrow> SPre | PhPostAuth \<Rightarrow> SLive | PhClosing \<Rightarrow> SEnd)))"

definition at_stream :: "outbound list \<Rightarrow> stream \<Rightarrow> phase \<Rightarrow> conn_state \<Rightarrow> bool" where
  "at_stream w st ph s \<longleftrightarrow> in_stream w st s \<and> cn_phase s = ph"

definition some_stream :: "outbound list \<Rightarrow> conn_state \<Rightarrow> bool" where
  "some_stream w s \<longleftrightarrow> (\<exists>st. in_stream w st s)"

lemma in_stream_queue:
  "in_stream w st s \<Longrightarrow> stream_step st m = Some st' \<Longrightarrow> in_stream w st' (s\<lparr>cn_outbound := cn_outbound s @ [m]\<rparr>)"
  by (auto simp: in_stream_def stream_run_append split: option.splits)

lemma stream_send:
  assumes "stream_step st m = Some st'"
  shows "act_ok (at_stream w st ph) (sendOutbound m) (at_stream w st' ph) (some_stream w)"
  using in_stream_queue [OF _ assms]
  by (intro act_ok_sendOutbound) (auto simp: at_stream_def some_stream_def)

lemma stream_closing:
  assumes "st \<noteq> SEnd"
  shows "act_ok (at_stream w st ph) (becomeClosing r) (at_stream w SEnd PhClosing) (some_stream w)"
proof -
  have "stream_step st (OCloseConnection r) = Some SEnd" using assms by (cases st) auto
  from stream_send [OF this] show ?thesis
    unfolding becomeClosing_def
    by (rule act_ok_andThen) (rule act_ok_update, simp add: at_stream_def in_stream_def)
qed

text \<open>The courtesy frame may be dropped: the close follows either way.\<close>

lemma stream_reject:
  "act_ok (at_stream w SPre ph) (andThen (sendOutboundBestEffort (OAuthFailed c m)) (becomeClosing r))
     (at_stream w SEnd PhClosing) (some_stream w)"
proof (rule act_ok_andThen)
  show "act_ok (at_stream w SPre ph) (sendOutboundBestEffort (OAuthFailed c m))
      (\<lambda>s. at_stream w SFail ph s \<or> at_stream w SPre ph s) (some_stream w)"
    by (rule act_ok_bestEffort) (auto simp: at_stream_def intro: in_stream_queue)
  show "act_ok (\<lambda>s. at_stream w SFail ph s \<or> at_stream w SPre ph s) (becomeClosing r)
      (at_stream w SEnd PhClosing) (some_stream w)"
    using stream_closing [of SFail w ph r] stream_closing [of SPre w ph r] by (auto simp: act_ok_def)
qed

lemma at_stream_ok:
  "at_stream w SPre PhPreAuth s \<Longrightarrow> stream_ok w s" "at_stream w SLive PhPostAuth s \<Longrightarrow> stream_ok w s"
  "at_stream w SEnd PhClosing s \<Longrightarrow> stream_ok w s"
  by (auto simp: at_stream_def stream_ok_def)

lemmas stream_cong_defs = at_stream_def in_stream_def some_stream_def

lemma at_stream_bookkeeping [simp]:
  "at_stream w st ph (watch p s) = at_stream w st ph s"
  "at_stream w st ph (s\<lparr>cn_userID := u, cn_grainPID := g\<rparr>) = at_stream w st ph s"
  "at_stream w st ph (cancelReregisterRetry s) = at_stream w st ph s"
  "at_stream w st ph (snd (recordReregisterFailure s)) = at_stream w st ph s"
  "at_stream w st ph (recordReregisterSuccess p s) = at_stream w st ph s"
  by (auto simp: stream_cong_defs watch_def cancelReregisterRetry_def recordReregisterFailure_def
      recordReregisterSuccess_def Let_def split: option.splits)

lemma at_stream_attempt [simp]: "at_stream w st ph (snd (attemptReregister env s)) = at_stream w st ph s"
  by (simp add: attemptReregister_def split: sum.splits)

lemma stream_reregister:
  "act_ok (at_stream w SLive PhPostAuth) (reregister_then_close env) (stream_ok w) (some_stream w)"
proof (rule act_okI)
  fix s assume "at_stream w SLive PhPostAuth s"
  moreover obtain b s' where at: "attemptReregister env s = (b, s')" by (cases "attemptReregister env s")
  ultimately have s': "at_stream w SLive PhPostAuth s'"
    using at_stream_attempt [of w SLive PhPostAuth env s] by simp
  show "(if fst (reregister_then_close env s) then stream_ok w else some_stream w)
      (snd (reregister_then_close env s))"
    using act_okD [OF stream_closing s', of "''reregister_failed''"] at at_stream_ok(2) [OF s']
    by (auto simp: reregister_then_close_def intro: at_stream_ok)
qed

lemma stream_settled:
  "act_ok (at_stream w SPre PhPreAuth) skip (stream_ok w) R"
  "act_ok (at_stream w SLive PhPostAuth) skip (stream_ok w) R"
  "act_ok (at_stream w SPre PhPreAuth) (sendOutbound OAppPing) (stream_ok w) (some_stream w)"
  "act_ok (at_stream w SPre PhPreAuth) (andThen (sendOutboundBestEffort (OAuthFailed c m)) (becomeClosing r))
     (stream_ok w) (some_stream w)"
  by (rule act_ok_skip, erule at_stream_ok)
    (rule act_ok_skip, erule at_stream_ok,
     rule act_ok_weaken [OF stream_send [of SPre OAppPing SPre]], auto intro: at_stream_ok
       act_ok_weaken [OF stream_reject])

lemma stream_closed:
  "st \<noteq> SEnd \<Longrightarrow> act_ok (at_stream w st ph) (becomeClosing r) (stream_ok w) (some_stream w)"
  by (rule act_ok_weaken [OF stream_closing]) (auto intro: at_stream_ok)

lemma stream_preAuth:
  "act_ok (at_stream w SPre PhPreAuth) (preAuthBehavior env msg) (stream_ok w) (some_stream w)"
proof (cases msg)
  case (MInboundAuth tok)
  show ?thesis
  proof (cases "handleAuth env tok")
    case (Inl rej)
    then show ?thesis by (simp add: MInboundAuth preAuthBehavior_def stream_settled)
  next
    case (Inr r)
    obtain u g where r: "r = (u, g)" by (cases r)
    have "act_ok (at_stream w SPre PhPreAuth)
        (andThen (update (\<lambda>s. watch g (s\<lparr>cn_userID := u, cn_grainPID := g\<rparr>)))
          (andThen (sendOutbound OAuthSucceeded) (update (\<lambda>s. s\<lparr>cn_phase := PhPostAuth\<rparr>))))
        (stream_ok w) (some_stream w)"
      by (rule act_ok_andThen [OF act_ok_update
            act_ok_andThen [OF stream_send [of SPre _ SLive w PhPreAuth] act_ok_update]])
        (simp, simp, rule at_stream_ok(2), simp add: stream_cong_defs)
    then show ?thesis by (simp add: MInboundAuth preAuthBehavior_def Inr r)
  qed
qed (simp_all add: preAuthBehavior_def stream_settled stream_closed)

lemma stream_delivery:
  assumes "stream_step SLive m = Some SLive"
  shows "act_ok (at_stream w SLive PhPostAuth) (sendOutbound m) (stream_ok w) (some_stream w)"
  by (rule act_ok_weaken [OF stream_send [OF assms]]) (auto intro: at_stream_ok)

lemma stream_postAuth:
  "act_ok (at_stream w SLive PhPostAuth) (postAuthBehavior env msg) (stream_ok w) (some_stream w)"
proof (cases msg)
  case (MTerminated who)
  have "act_ok (at_stream w SLive PhPostAuth) (\<lambda>s. if \<not> samePID who (cn_grainPID s) then skip s
      else if cn_retry s then skip s else reregister_then_close env s) (stream_ok w) (some_stream w)"
    by (intro act_ok_if act_ok_skip act_ok_weaken [OF stream_reregister]) (auto intro: at_stream_ok)
  then show ?thesis by (simp add: MTerminated postAuthBehavior_def skip_def cong: if_cong)
next
  case MReregisterRetry
  show ?thesis
    by (auto simp: MReregisterRetry postAuthBehavior_def
        intro!: act_ok_andThen [OF act_ok_update stream_reregister])
qed (auto simp: postAuthBehavior_def forwardMessage_def forwardRoomEvent_def Let_def
    intro!: stream_settled stream_delivery stream_closed split: option.splits)

lemma stream_behavior:
  "act_ok (\<lambda>s. stream_ok w s \<and> \<not> cn_stop s \<and> \<not> cn_dead s) (behavior env msg) (stream_ok w) (some_stream w)"
  using stream_preAuth [of w env msg] stream_postAuth [of w env msg]
  by (auto simp: act_ok_def behavior_def stream_ok_def at_stream_def split: phase.splits)

lemma stream_ok_timers [simp]:
  "stream_ok w (ensureWatchdog s) = stream_ok w s" "stream_ok w (resetWatchdog s) = stream_ok w s"
  "stream_ok w (cancelWatchdog s) = stream_ok w s" "stream_ok w (s\<lparr>cn_deadline := b\<rparr>) = stream_ok w s"
  by (simp_all add: stream_ok_def in_stream_def ensureWatchdog_def resetWatchdog_def cancelWatchdog_def)

lemma stream_ok_stop: "some_stream w s \<Longrightarrow> stream_ok w (request_stop s)"
  by (auto simp: stream_ok_def some_stream_def in_stream_def request_stop_def)

lemma stream_ok_some: "stream_ok w s \<Longrightarrow> some_stream w s"
  by (auto simp: stream_ok_def some_stream_def)

lemma stream_receive:
  assumes "msg \<noteq> MStopping" "msg \<noteq> MStarted"
  shows "act_ok (\<lambda>s. stream_ok w s \<and> \<not> cn_stop s \<and> \<not> cn_dead s) (conn_receive env msg) (stream_ok w) (some_stream w)"
proof (cases msg)
  case MPongTimeoutExpired
  have "act_ok (\<lambda>s. stream_ok w s \<and> \<not> cn_stop s \<and> \<not> cn_dead s)
      (andThen (update cancelWatchdog) (behavior env MPongTimeoutExpired)) (stream_ok w) (some_stream w)"
    by (rule act_ok_andThen [OF act_ok_update stream_behavior]) (simp, simp add: cancelWatchdog_def)
  then show ?thesis by (simp add: conn_receive_def MPongTimeoutExpired)
qed (use assms in \<open>auto simp: conn_receive_def
    intro!: act_ok_skip act_ok_update stream_behavior stream_ok_stop act_ok_andThen [OF stream_behavior]
    dest: stream_ok_some\<close>)

lemma stream_ok_started:
  "stream_ok w s \<Longrightarrow> cn_phase s = PhNone \<Longrightarrow> stream_ok w (heartbeat_start (s\<lparr>cn_phase := PhPreAuth, cn_open := True\<rparr>))"
  by (auto simp: stream_ok_def in_stream_def heartbeat_start_def)

lemma stream_ok_stopping:
  "stream_ok w s \<Longrightarrow> stream_ok w ((shutdown (cancelReregisterRetry (heartbeat_stop s)))\<lparr>cn_dead := True\<rparr>)"
  by (auto simp: stream_ok_def in_stream_def conn_update_defs)

lemma deliver_stream:
  assumes ok: "stream_ok w s"
  shows "stream_ok w (deliver env msg s)"
proof (cases "cn_dead s \<or> (cn_stop s \<and> msg \<noteq> MStopping) \<or> (msg = MStarted) \<noteq> (cn_phase s = PhNone)")
  case True
  then show ?thesis using ok by (simp add: deliver_def)
next
  case act: False
  consider "msg = MStopping" | "msg = MStarted" | "msg \<noteq> MStopping" "msg \<noteq> MStarted" by blast
  then show ?thesis
  proof cases
    case 1
    then show ?thesis
      using act stream_ok_stopping [OF ok] by (simp add: deliver_def authTimeoutMiddleware_def conn_receive_def update_def)
  next
    case 2
    then show ?thesis
      using act stream_ok_started [OF ok]
      by (simp add: deliver_def authTimeoutMiddleware_def conn_receive_def update_def andThen_def)
  next
    case 3
    from act_okD [OF stream_receive [OF 3, of w env], of s] act ok 3
    show ?thesis
      by (cases "conn_receive env msg s")
        (auto simp: deliver_def authTimeoutMiddleware_def classifyConnectionFailure_def intro: stream_ok_stop
          split: if_splits)
  qed
qed

definition sys_stream :: "conn_sys \<Rightarrow> bool" where
  "sys_stream y \<longleftrightarrow> (\<exists>st. stream_run SPre (sy_wire y) = Some st) \<and> (sy_pump y \<longrightarrow> stream_ok (sy_wire y) (sy_conn y))"

lemma pump_stream:
  assumes "sys_stream y"
  shows "sys_stream (fst (pump_step d w y))"
proof -
  have head: "stream_ok (sy_wire y @ [m]) (sy_conn y\<lparr>cn_outbound := ms\<rparr>) \<and>
      (\<exists>st. stream_run SPre (sy_wire y @ [m]) = Some st)"
    if "cn_outbound (sy_conn y) = m # ms" "sy_pump y" for m ms
    using assms that stream_run_prefix [of SPre "sy_wire y @ [m]" ms]
    by (auto simp: sys_stream_def stream_ok_def in_stream_def)
  show ?thesis
    using assms by (cases d w y rule: pump_step_cases) (auto simp: sys_stream_def head)
qed

lemma run_stream: "sys_stream y \<Longrightarrow> sys_stream (run_sys evs y)"
proof (induction evs arbitrary: y)
  case (Cons e evs)
  have "sys_stream (sys_step e y)"
    using Cons.prems deliver_stream pump_stream by (cases e) (auto simp: sys_stream_def)
  from Cons.IH [OF this] show ?case by (simp add: run_sys_def)
qed (simp add: run_sys_def)

lemma new_sys_stream: "sys_stream (new_sys c)"
  by (simp add: sys_stream_def new_sys_def stream_ok_def in_stream_def new_connection_def)

subsection \<open>Authentication before delivery\<close>

definition admits :: "conn_env \<Rightarrow> string \<Rightarrow> user_id \<Rightarrow> bool" where
  "admits env tok uid \<longleftrightarrow>
     ce_validate env tok = Inr (Some uid) \<and> ce_client env \<and>
     (case ce_register env (user_string uid) (ce_self env) of Inl _ \<Rightarrow> False | Inr resp \<Rightarrow> rg_error resp = None)"

lemma handleAuth_admits: "handleAuth env tok = Inr (uid, g) \<Longrightarrow> admits env tok uid"
  by (auto simp: handleAuth_def admits_def
      split: sum.splits option.splits auth_error.splits if_splits)

definition quiet :: "conn_state \<Rightarrow> conn_state \<Rightarrow> bool" where
  "quiet s0 s \<longleftrightarrow> cn_userID s = cn_userID s0 \<and>
     (OAuthSucceeded \<in> set (cn_outbound s) \<longrightarrow> OAuthSucceeded \<in> set (cn_outbound s0)) \<and>
     (cn_phase s = PhPostAuth \<longrightarrow> cn_phase s0 = PhPostAuth) \<and>
     (cn_phase s = PhPreAuth \<longrightarrow> cn_phase s0 = PhPreAuth \<or> cn_phase s0 = PhNone) \<and>
     (cn_phase s = PhNone \<longrightarrow> cn_phase s0 = PhNone) \<and> (cn_stop s0 \<longrightarrow> cn_stop s) \<and> (cn_dead s0 \<longrightarrow> cn_dead s)"

lemma quiet_send: "m \<noteq> OAuthSucceeded \<Longrightarrow> act_ok (quiet s0) (sendOutbound m) (quiet s0) (quiet s0)"
  by (rule act_ok_sendOutbound) (auto simp: quiet_def)

lemma quiet_bestEffort:
  "m \<noteq> OAuthSucceeded \<Longrightarrow> act_ok (quiet s0) (sendOutboundBestEffort m) (quiet s0) (quiet s0)"
  by (rule act_ok_bestEffort) (auto simp: quiet_def)

lemma quiet_closing: "act_ok (quiet s0) (becomeClosing r) (quiet s0) (quiet s0)"
  unfolding becomeClosing_def
  by (rule act_ok_andThen [OF quiet_send act_ok_update]) (auto simp: quiet_def)

lemma quiet_updates:
  "quiet s0 (cancelReregisterRetry s) = quiet s0 s" "quiet s0 (watch p s) = quiet s0 s"
  "quiet s0 (snd (recordReregisterFailure s)) = quiet s0 s"
  "quiet s0 (recordReregisterSuccess p s) = quiet s0 s"
  "quiet s0 (ensureWatchdog s) = quiet s0 s" "quiet s0 (resetWatchdog s) = quiet s0 s"
  "quiet s0 (cancelWatchdog s) = quiet s0 s" "quiet s0 (s\<lparr>cn_deadline := b\<rparr>) = quiet s0 s"
  by (auto simp: quiet_def watch_def ensureWatchdog_def resetWatchdog_def conn_update_defs split: option.splits)

lemma quiet_reregister: "act_ok (quiet s0) (reregister_then_close env) (quiet s0) (quiet s0)"
proof (rule act_okI)
  fix s assume "quiet s0 s"
  moreover obtain b s' where at: "attemptReregister env s = (b, s')" by (cases "attemptReregister env s")
  moreover have "quiet s0 (snd (attemptReregister env s)) = quiet s0 s"
    by (simp add: attemptReregister_def quiet_updates split: sum.splits)
  ultimately have "quiet s0 s'" by simp
  from act_okD [OF quiet_closing this, of "''reregister_failed''"] this at
  show "(if fst (reregister_then_close env s) then quiet s0 else quiet s0) (snd (reregister_then_close env s))"
    by (auto simp: reregister_then_close_def)
qed

lemma quiet_postAuth: "act_ok (quiet s0) (postAuthBehavior env msg) (quiet s0) (quiet s0)"
proof (cases msg)
  case (MTerminated who)
  have "act_ok (quiet s0) (\<lambda>s. if \<not> samePID who (cn_grainPID s) then skip s
      else if cn_retry s then skip s else reregister_then_close env s) (quiet s0) (quiet s0)"
    by (intro act_ok_if act_ok_skip act_ok_weaken [OF quiet_reregister]) auto
  then show ?thesis by (simp add: MTerminated postAuthBehavior_def skip_def cong: if_cong)
next
  case MReregisterRetry
  show ?thesis
    by (auto simp: MReregisterRetry postAuthBehavior_def quiet_updates
        intro!: act_ok_andThen [OF act_ok_update quiet_reregister])
qed (auto simp: postAuthBehavior_def forwardMessage_def forwardRoomEvent_def Let_def
    intro!: act_ok_skip quiet_send quiet_closing split: option.splits)

lemma quiet_preAuth:
  assumes "\<And>tok r. msg = MInboundAuth tok \<Longrightarrow> handleAuth env tok \<noteq> Inr r"
  shows "act_ok (quiet s0) (preAuthBehavior env msg) (quiet s0) (quiet s0)"
  using assms
  by (cases msg; cases "handleAuth env (case msg of MInboundAuth tok \<Rightarrow> tok | _ \<Rightarrow> [])")
    (auto simp: preAuthBehavior_def intro!: act_ok_skip quiet_send quiet_closing
      act_ok_andThen [OF quiet_bestEffort quiet_closing])

lemma quiet_behavior:
  assumes "\<And>tok r. msg = MInboundAuth tok \<Longrightarrow> handleAuth env tok \<noteq> Inr r"
  shows "act_ok (quiet s0) (behavior env msg) (quiet s0) (quiet s0)"
  using quiet_preAuth [of msg env s0, OF assms] quiet_postAuth [of s0 env msg]
  by (auto simp: act_ok_def behavior_def split: phase.splits)

lemma quiet_receive:
  assumes "\<And>tok r. msg = MInboundAuth tok \<Longrightarrow> handleAuth env tok \<noteq> Inr r" "msg = MStarted \<Longrightarrow> cn_phase s0 = PhNone"
  shows "act_ok (quiet s0) (authTimeoutMiddleware (conn_receive env) msg) (quiet s0) (quiet s0)"
  using quiet_behavior [of msg env s0, OF assms(1)] assms(2)
  by (cases msg)
    (auto simp: authTimeoutMiddleware_def conn_receive_def quiet_updates intro!: act_ok_skip act_ok_update
      act_ok_andThen [where M = "quiet s0"],
     auto simp: quiet_def conn_update_defs request_stop_def heartbeat_start_def)

lemma quiet_refl: "quiet s s"
  by (simp add: quiet_def)

text \<open>
  A delivery is quiet about identity, or it is the authentication frame that was accepted, after which
  the connection is authenticated or stopping.
\<close>

lemma deliver_identity:
  obtains "quiet s (deliver env msg s)"
  | tok uid g where "msg = MInboundAuth tok" "handleAuth env tok = Inr (uid, g)" "cn_phase s = PhPreAuth"
      "\<not> cn_stop s" "\<not> cn_dead s" "cn_userID (deliver env msg s) = uid"
      "cn_phase (deliver env msg s) = PhPostAuth \<or>
       cn_stop (deliver env msg s) \<and> cn_phase (deliver env msg s) = PhPreAuth \<and>
       cn_outbound (deliver env msg s) = cn_outbound s"
proof (cases "cn_dead s \<or> (cn_stop s \<and> msg \<noteq> MStopping) \<or> (msg = MStarted) \<noteq> (cn_phase s = PhNone)")
  case True
  then show thesis using that(1) quiet_refl by (simp add: deliver_def)
next
  case act: False
  show thesis
  proof (cases "\<exists>tok r. msg = MInboundAuth tok \<and> handleAuth env tok = Inr r")
    case False
    have "act_ok (quiet s) (authTimeoutMiddleware (conn_receive env) msg) (quiet s) (quiet s)"
      using False act by (intro quiet_receive) auto
    from act_okD [OF this quiet_refl] act have "quiet s (deliver env msg s)"
      by (cases "authTimeoutMiddleware (conn_receive env) msg s")
        (auto simp: deliver_def classifyConnectionFailure_def request_stop_def quiet_def)
    then show thesis by (rule that(1))
  next
    case True
    then obtain tok uid g where a: "msg = MInboundAuth tok" "handleAuth env tok = Inr (uid, g)" by auto
    show thesis
    proof (cases "cn_phase s = PhPreAuth")
      case True
      show thesis
        using act a True
        by (intro that(2) [OF a True])
          (auto simp: deliver_def authTimeoutMiddleware_def conn_receive_def behavior_def preAuthBehavior_def
            andThen_def update_def sendOutbound_def watch_def classifyConnectionFailure_def request_stop_def
            split: option.splits)
    next
      case False
      then have "deliver env msg s = s"
        using act a by (simp add: deliver_def authTimeoutMiddleware_def conn_receive_def behavior_def
            postAuthBehavior_def skip_def split: phase.splits)
      then show thesis using that(1) quiet_refl by simp
    qed
  qed
qed

definition auth_inv :: "(user_id \<Rightarrow> bool) \<Rightarrow> conn_sys \<Rightarrow> bool" where
  "auth_inv E y \<longleftrightarrow>
     (cn_phase (sy_conn y) = PhPostAuth \<or> OAuthSucceeded \<in> set (sy_wire y @ cn_outbound (sy_conn y)) \<longrightarrow>
        E (cn_userID (sy_conn y))) \<and>
     ((cn_phase (sy_conn y) = PhPreAuth \<or> cn_phase (sy_conn y) = PhNone) \<and>
        \<not> cn_stop (sy_conn y) \<and> \<not> cn_dead (sy_conn y) \<longrightarrow>
        OAuthSucceeded \<notin> set (sy_wire y @ cn_outbound (sy_conn y)))"

lemma auth_inv_deliver:
  assumes "auth_inv E y"
    and "\<And>u. E u \<Longrightarrow> E' u" "\<And>tok u. msg = MInboundAuth tok \<Longrightarrow> admits env tok u \<Longrightarrow> E' u"
  shows "auth_inv E' (y\<lparr>sy_conn := deliver env msg (sy_conn y)\<rparr>)"
proof (rule deliver_identity [of "sy_conn y" env msg])
  assume "quiet (sy_conn y) (deliver env msg (sy_conn y))"
  then show ?thesis using assms(1,2) by (auto simp: auth_inv_def quiet_def)
next
  fix tok uid g
  assume a: "msg = MInboundAuth tok" "handleAuth env tok = Inr (uid, g)" "cn_phase (sy_conn y) = PhPreAuth"
    "\<not> cn_stop (sy_conn y)" "\<not> cn_dead (sy_conn y)" "cn_userID (deliver env msg (sy_conn y)) = uid"
    "cn_phase (deliver env msg (sy_conn y)) = PhPostAuth \<or>
     cn_stop (deliver env msg (sy_conn y)) \<and> cn_phase (deliver env msg (sy_conn y)) = PhPreAuth \<and>
     cn_outbound (deliver env msg (sy_conn y)) = cn_outbound (sy_conn y)"
  have "E' uid" using assms(3) [OF a(1) handleAuth_admits [OF a(2)]] .
  then show ?thesis using assms(1) a(3-) by (auto simp: auth_inv_def)
qed

lemma auth_inv_pump: "auth_inv E y \<Longrightarrow> auth_inv E (fst (pump_step d w y))"
  by (cases d w y rule: pump_step_cases) (auto simp: auth_inv_def)

definition evidence :: "sys_event list \<Rightarrow> user_id \<Rightarrow> bool" where
  "evidence evs uid \<longleftrightarrow> (\<exists>env tok. EvDeliver env (MInboundAuth tok) \<in> set evs \<and> admits env tok uid)"

lemma run_auth: "auth_inv (evidence evs) (run_sys evs (new_sys c))"
proof (induction evs rule: rev_induct)
  case Nil
  show ?case by (simp add: run_sys_def new_sys_def new_connection_def auth_inv_def)
next
  case (snoc e evs)
  have mono: "evidence evs u \<Longrightarrow> evidence (evs @ [e]) u" for u by (auto simp: evidence_def)
  show ?case
  proof (cases e)
    case (EvDeliver env msg)
    have "auth_inv (evidence (evs @ [e]))
        (run_sys evs (new_sys c)\<lparr>sy_conn := deliver env msg (sy_conn (run_sys evs (new_sys c)))\<rparr>)"
      by (rule auth_inv_deliver [OF snoc.IH mono]) (auto simp: evidence_def EvDeliver)
    then show ?thesis by (simp add: run_sys_def EvDeliver)
  next
    case (EvPump d w)
    then show ?thesis
      using auth_inv_pump [OF snoc.IH, of d w] mono by (auto simp: run_sys_def auth_inv_def)
  qed
qed

fun needs_identity :: "outbound \<Rightarrow> bool" where
  "needs_identity OAppPing = False"
| "needs_identity (OAuthFailed _ _) = False"
| "needs_identity (OCloseConnection _) = False"
| "needs_identity _ = True"

lemma stream_run_SFail: "stream_run SFail ms = Some st \<Longrightarrow> list_all (\<lambda>m. \<not> needs_identity m) ms"
proof (induction ms)
  case (Cons m ms)
  then show ?case by (cases m; cases ms) auto
qed simp

lemma stream_needs_auth:
  "stream_run SPre ms = Some st \<Longrightarrow> m \<in> set ms \<Longrightarrow> needs_identity m \<Longrightarrow> OAuthSucceeded \<in> set ms"
proof (induction ms)
  case (Cons x ms)
  show ?case
  proof (cases x)
    case (OAuthFailed c t)
    then show ?thesis using Cons.prems stream_run_SFail [of ms st] by (auto simp: list_all_iff)
  next
    case (OCloseConnection r)
    then show ?thesis using Cons.prems by (cases ms) auto
  qed (use Cons in auto)
qed simp

subsection \<open>Properties\<close>

text \<open>
  C13. The frames a client receives follow the protocol. On every interleaving of mailbox deliveries and
  write-pump turns of a new connection, with socket writes failing at any point, what was written to the
  wire is accepted by the protocol automaton: pings at most until authentication is decided, at most one
  of \<open>auth_ok\<close> and \<open>auth_error\<close>, no delivery before \<open>auth_ok\<close>, only the close after \<open>auth_error\<close>, and
  nothing after the close.
\<close>

theorem wire_follows_protocol:
  "\<exists>st. stream_run SPre (sy_wire (run_sys evs (new_sys c))) = Some st"
  using run_stream [OF new_sys_stream, of evs c] by (simp add: sys_stream_def)

text \<open>
  C14. Nothing is delivered to an unauthenticated peer. When a frame other than a ping, an authentication
  failure or a close is on the wire, one of the inbound auth frames carried a token that the
  authenticator validated for the user the connection is bound to, and the user grain accepted the
  registration of that user's connection.
\<close>

theorem delivery_requires_authentication:
  assumes "m \<in> set (sy_wire (run_sys evs (new_sys c)))" "needs_identity m"
  shows "\<exists>env tok. EvDeliver env (MInboundAuth tok) \<in> set evs \<and>
    admits env tok (cn_userID (sy_conn (run_sys evs (new_sys c))))"
proof -
  let ?y = "run_sys evs (new_sys c)"
  obtain st where "stream_run SPre (sy_wire ?y) = Some st"
    using run_stream [OF new_sys_stream, of evs c] by (auto simp: sys_stream_def)
  from stream_needs_auth [OF this assms] have "evidence evs (cn_userID (sy_conn ?y))"
    using run_auth [of evs c] by (auto simp: auth_inv_def)
  then show ?thesis by (simp add: evidence_def)
qed

text \<open>A concrete environment: one token, one user, a grain that accepts.\<close>

definition demo_conn_env :: conn_env where
  "demo_conn_env = \<lparr>ce_validate = (\<lambda>t. if t = ''tok'' then Inr (Some (UserID 7)) else Inl ErrTokenInvalid),
     ce_client = True,
     ce_register = (\<lambda>_ _. Inr \<lparr>rg_error = None, rg_grain_pid = Some (demo_pid ''g2'')\<rparr>),
     ce_self = demo_pid ''c''\<rparr>"

definition demo_down :: conn_env where
  "demo_down = demo_conn_env\<lparr>ce_register := (\<lambda>_ _. Inl ())\<rparr>"

lemmas demo_run_simps =
  run_sys_def new_sys_def new_connection_def deliver_def authTimeoutMiddleware_def conn_receive_def behavior_def
  preAuthBehavior_def handleAuth_def demo_conn_env_def demo_pid_def grainPIDFromResponse_def update_def andThen_def
  sendOutbound_def watch_def heartbeat_start_def outboundBufferSize_def pump_step_def
  encodeOutboundMessage_def cadence_enabled_def

theorem delivery_requires_authentication_witness:
  "\<exists>env tok. EvDeliver env (MInboundAuth tok) \<in>
      set [EvDeliver demo_conn_env MStarted, EvDeliver demo_conn_env (MInboundAuth ''tok''), EvPump False WriteOk] \<and>
    admits env tok (UserID 7)"
proof -
  let ?evs = "[EvDeliver demo_conn_env MStarted, EvDeliver demo_conn_env (MInboundAuth ''tok''), EvPump False WriteOk]"
  have wire: "OAuthSucceeded \<in> set (sy_wire (run_sys ?evs (new_sys (0, 0))))"
    and user: "cn_userID (sy_conn (run_sys ?evs (new_sys (0, 0)))) = UserID 7"
    by (simp_all add: demo_run_simps)
  from delivery_requires_authentication [OF wire] show ?thesis unfolding user by simp
qed

text \<open>
  A client sees public codes only. Every room and every user named by a frame on the wire, on every
  run, is a well-formed \<open>R...\<close> or \<open>U...\<close> code in canonical form: a reference whose code does not parse is
  dropped, so neither an internal id nor a malformed code is sent.
\<close>

theorem wire_names_public_codes:
  "list_all public_frame (sy_wire (run_sys evs (new_sys c)))"
proof -
  have "list_all public_frame (sy_wire y @ cn_outbound (sy_conn y)) \<Longrightarrow>
      list_all public_frame (sy_wire (run_sys evs y) @ cn_outbound (sy_conn (run_sys evs y)))" for y
  proof (induction evs arbitrary: y)
    case (Cons e evs)
    have "list_all public_frame (sy_wire (sys_step e y) @ cn_outbound (sy_conn (sys_step e y)))"
    proof (cases e)
      case (EvDeliver env msg)
      then show ?thesis
        using Cons.prems public.deliver_keeps [of "sy_conn y" env msg] by (simp add: public_queue_def)
    next
      case (EvPump d w)
      then show ?thesis using Cons.prems by (cases d w y rule: pump_step_cases) auto
    qed
    from Cons.IH [OF this] show ?case by (simp add: run_sys_def)
  qed (simp add: run_sys_def)
  from this [of "new_sys c"] show ?thesis by (simp add: new_sys_def new_connection_def)
qed

text \<open>
  Bounded resources. On every run the outbound queue never exceeds its 64 entries; a connection
  whose heartbeat is disabled never has a ping timer or a watchdog, whatever the client sends; a stopped
  connection has closed its channel and has no timer pending.
\<close>

theorem connection_resources:
  "let s = sy_conn (run_sys evs (new_sys c)) in
   length (cn_outbound s) \<le> outboundBufferSize \<and>
   (cn_ping s \<or> cn_watchdog s \<longrightarrow> cadence_enabled c) \<and>
   (cn_dead s \<longrightarrow> \<not> cn_open s \<and> \<not> cn_ping s \<and> \<not> cn_watchdog s \<and> \<not> cn_retry s)"
  using bounded.run_holds [of evs c] timers.run_holds [of c evs]
  by (auto simp: outbound_bounded_def timers_ok_def Let_def)

theorem connection_resources_witness:
  "cn_dead (sy_conn (run_sys [EvDeliver demo_conn_env MStarted, EvDeliver demo_conn_env MAppPingTick,
      EvDeliver demo_conn_env MStopping] (new_sys (3, 5)))) \<and>
   \<not> cn_watchdog (sy_conn (run_sys [EvDeliver demo_conn_env MStarted, EvDeliver demo_conn_env MAppPingTick,
      EvDeliver demo_conn_env MStopping] (new_sys (3, 5))))"
proof -
  let ?s = "sy_conn (run_sys [EvDeliver demo_conn_env MStarted, EvDeliver demo_conn_env MAppPingTick,
      EvDeliver demo_conn_env MStopping] (new_sys (3, 5)))"
  have "cn_dead ?s"
    by (simp add: demo_run_simps ensureWatchdog_def resetWatchdog_def conn_update_defs)
  moreover from this have "\<not> cn_watchdog ?s"
    using connection_resources [of "[EvDeliver demo_conn_env MStarted, EvDeliver demo_conn_env MAppPingTick,
      EvDeliver demo_conn_env MStopping]" "(3, 5)"] unfolding Let_def by blast
  ultimately show ?thesis by blast
qed

text \<open>
  The repair cycle after the watched activation died: one attempt on the death signal and one on each
  retry tick, the grain's answers given by the environments.
\<close>

definition repair_run :: "pid \<Rightarrow> conn_env list \<Rightarrow> conn_state \<Rightarrow> conn_state" where
  "repair_run p envs s =
     (case envs of
        [] \<Rightarrow> s
      | e # es \<Rightarrow> fold (\<lambda>e. deliver e MReregisterRetry) es (deliver e (MTerminated p) s))"

definition authenticated :: "pid \<Rightarrow> conn_state \<Rightarrow> bool" where
  "authenticated p s \<longleftrightarrow>
     cn_phase s = PhPostAuth \<and> \<not> cn_stop s \<and> \<not> cn_dead s \<and> cn_grainPID s = Some p"

lemma deliver_terminated:
  assumes "authenticated p s"
  shows "deliver e (MTerminated p) s =
    (if cn_retry s then s
     else case reregister_then_close e s of (ok, s') \<Rightarrow> if ok then s' else request_stop s')"
  using assms
  by (auto simp: deliver_def authenticated_def authTimeoutMiddleware_def conn_receive_def behavior_def
      postAuthBehavior_def samePID_def classifyConnectionFailure_def split: prod.splits)

lemma deliver_retry:
  assumes "authenticated p s"
  shows "deliver e MReregisterRetry s =
    (case reregister_then_close e (s\<lparr>cn_retry := False\<rparr>) of (ok, s') \<Rightarrow> if ok then s' else request_stop s')"
  using assms
  by (auto simp: deliver_def authenticated_def authTimeoutMiddleware_def conn_receive_def behavior_def
      postAuthBehavior_def andThen_def update_def cancelReregisterRetry_def classifyConnectionFailure_def
      split: prod.splits)

definition refused :: "user_id \<Rightarrow> conn_env \<Rightarrow> bool" where
  "refused uid e \<longleftrightarrow> (case ce_register e (user_string uid) (ce_self e) of Inl _ \<Rightarrow> True | Inr r \<Rightarrow> rg_error r \<noteq> None)"

lemma attempt_refused:
  assumes "refused (cn_userID s) e"
  shows "attemptReregister e s = recordReregisterFailure s"
  using assms by (auto simp: attemptReregister_def reregister_def refused_def split: sum.splits option.splits)

lemma attempt_accepted:
  assumes "ce_register e (user_string (cn_userID s)) (ce_self e) = Inr r" "rg_error r = None"
  shows "attemptReregister e s =
    (False, watch (grainPIDFromResponse r) (s\<lparr>cn_grainPID := grainPIDFromResponse r, cn_attempts := 0\<rparr>))"
  using assms by (simp add: attemptReregister_def reregister_def recordReregisterSuccess_def)

lemma close_on_refusal:
  assumes "refused (cn_userID s) e" "cn_attempts s < reregisterMaxAttempts"
  shows "reregister_then_close e s =
    (if Suc (cn_attempts s) < reregisterMaxAttempts
     then (True, s\<lparr>cn_attempts := Suc (cn_attempts s), cn_retry := True\<rparr>)
     else becomeClosing ''reregister_failed'' (s\<lparr>cn_attempts := Suc (cn_attempts s)\<rparr>))"
  using assms by (simp add: reregister_then_close_def attempt_refused recordReregisterFailure_def Let_def)

lemma repair_pending:
  assumes s: "authenticated p s" "cn_attempts s = 0" "\<not> cn_retry s"
    and "list_all (refused (cn_userID s)) fs" "fs \<noteq> []" "length fs < reregisterMaxAttempts"
  shows "repair_run p fs s = s\<lparr>cn_attempts := length fs, cn_retry := True\<rparr>"
proof -
  have step: "fold (\<lambda>e. deliver e MReregisterRetry) es (s\<lparr>cn_attempts := n, cn_retry := True\<rparr>) =
      s\<lparr>cn_attempts := n + length es, cn_retry := True\<rparr>"
    if "list_all (refused (cn_userID s)) es" "n + length es < reregisterMaxAttempts" for es n
    using that
  proof (induction es arbitrary: n)
    case (Cons e es)
    have "authenticated p (s\<lparr>cn_attempts := n, cn_retry := True\<rparr>)" using s by (simp add: authenticated_def)
    from deliver_retry [OF this, of e] Cons show ?case
      by (simp add: close_on_refusal refused_def)
  qed simp
  obtain e es where fs: "fs = e # es" using assms(5) by (cases fs) auto
  have "deliver e (MTerminated p) s = s\<lparr>cn_attempts := 1, cn_retry := True\<rparr>"
    using deliver_terminated [OF s(1), of e] s(2,3) assms(4,6) fs by (simp add: close_on_refusal)
  then show ?thesis using step [of es 1] assms(4,6) fs by (simp add: repair_run_def)
qed

lemma repair_run_snoc:
  "fs \<noteq> [] \<Longrightarrow> repair_run p (fs @ [e]) s = deliver e MReregisterRetry (repair_run p fs s)"
  by (cases fs) (simp_all add: repair_run_def)

lemma authenticated_pending:
  "authenticated p s \<Longrightarrow> authenticated p (s\<lparr>cn_attempts := n, cn_retry := True\<rparr>)"
  by (simp add: authenticated_def)

lemma repair_accepted:
  assumes s: "authenticated p s" "cn_attempts s = 0" "\<not> cn_retry s"
    and refusals: "list_all (refused (cn_userID s)) fs" and short: "length fs < 3"
    and ok: "ce_register e (user_string (cn_userID s)) (ce_self e) = Inr r" "rg_error r = None"
  shows "repair_run p (fs @ [e]) s = watch (grainPIDFromResponse r) (s\<lparr>cn_grainPID := grainPIDFromResponse r\<rparr>)"
proof (cases "fs = []")
  case True
  have "s = s\<lparr>cn_attempts := 0\<rparr>" using s(2) by (cases s) simp
  then have "s\<lparr>cn_grainPID := g, cn_attempts := 0\<rparr> = s\<lparr>cn_grainPID := g\<rparr>" for g by (cases s) simp
  then show ?thesis
    using deliver_terminated [OF s(1), of e] s(3) attempt_accepted [OF ok]
    by (simp add: True repair_run_def reregister_then_close_def)
next
  case False
  have r: "repair_run p fs s = s\<lparr>cn_attempts := length fs, cn_retry := True\<rparr>"
    using repair_pending [OF s refusals False] short by (simp add: reregisterMaxAttempts_def)
  have "s\<lparr>cn_attempts := n, cn_retry := True, cn_retry := False, cn_grainPID := g, cn_attempts := 0\<rparr>
      = s\<lparr>cn_grainPID := g\<rparr>" for g n
    using s(2,3) by (cases s) simp
  then show ?thesis
    unfolding repair_run_snoc [OF False] r deliver_retry [OF authenticated_pending [OF s(1)]]
    using attempt_accepted [of e "s\<lparr>cn_attempts := length fs, cn_retry := True, cn_retry := False\<rparr>" r] ok
    by (simp add: reregister_then_close_def)
qed

lemma repair_exhausted:
  assumes s: "authenticated p s" "cn_attempts s = 0" "\<not> cn_retry s"
    and refusals: "list_all (refused (cn_userID s)) fs" and len: "length fs = 3"
  shows "if length (cn_outbound s) < 64
       then repair_run p fs s = s\<lparr>cn_attempts := 3, cn_phase := PhClosing,
              cn_outbound := cn_outbound s @ [OCloseConnection ''reregister_failed'']\<rparr>
       else cn_stop (repair_run p fs s)"
proof -
  obtain gs e where fs: "fs = gs @ [e]" using len by (cases fs rule: rev_cases) auto
  have gs: "gs \<noteq> []" "length gs = 2" "list_all (refused (cn_userID s)) gs" "refused (cn_userID s) e"
    using fs len refusals by auto
  have r: "repair_run p gs s = s\<lparr>cn_attempts := 2, cn_retry := True\<rparr>"
    using repair_pending [OF s gs(3,1)] gs(2) by (simp add: reregisterMaxAttempts_def)
  have clean: "s\<lparr>cn_attempts := n, cn_retry := False\<rparr> = s\<lparr>cn_attempts := n\<rparr>" for n
    using s(3) by (cases s) simp
  show ?thesis
    unfolding fs repair_run_snoc [OF gs(1)] r deliver_retry [OF authenticated_pending [OF s(1)]]
    using gs(4) close_on_refusal [of "s\<lparr>cn_attempts := 2\<rparr>" e]
    by (auto simp: clean becomeClosing_def andThen_def sendOutbound_def update_def outboundBufferSize_def
        reregisterMaxAttempts_def request_stop_def)
qed

text \<open>
  C30. Self-healing within a budget. For an authenticated connection whose user grain died: while fewer
  than three consecutive attempts have been refused a retry is pending and a duplicate death signal
  changes nothing; an accepted attempt adopts and watches the new activation and resets the budget,
  queueing nothing; three refusals close the connection, with the close frame queued when the queue has
  room and by stopping the actor when it has not.
\<close>

theorem reregister_repairs_or_closes:
  assumes s: "authenticated p s" "cn_attempts s = 0" "\<not> cn_retry s"
    and refusals: "list_all (refused (cn_userID s)) fs"
  shows "(fs \<noteq> [] \<and> length fs < 3 \<longrightarrow>
      deliver e (MTerminated p) (repair_run p fs s) = repair_run p fs s \<and> cn_retry (repair_run p fs s))
    \<and> (length fs < 3 \<and> ce_register e (user_string (cn_userID s)) (ce_self e) = Inr r \<and> rg_error r = None \<longrightarrow>
      repair_run p (fs @ [e]) s = watch (grainPIDFromResponse r) (s\<lparr>cn_grainPID := grainPIDFromResponse r\<rparr>))
    \<and> (length fs = 3 \<longrightarrow>
      (if length (cn_outbound s) < 64
       then repair_run p fs s = s\<lparr>cn_attempts := 3, cn_phase := PhClosing,
              cn_outbound := cn_outbound s @ [OCloseConnection ''reregister_failed'']\<rparr>
       else cn_stop (repair_run p fs s)))"
proof (intro conjI impI)
  assume fs: "fs \<noteq> [] \<and> length fs < 3"
  have r: "repair_run p fs s = s\<lparr>cn_attempts := length fs, cn_retry := True\<rparr>"
    using repair_pending [OF s refusals] fs by (simp add: reregisterMaxAttempts_def)
  show "deliver e (MTerminated p) (repair_run p fs s) = repair_run p fs s"
    unfolding r using deliver_terminated [OF authenticated_pending [OF s(1)]] by simp
  show "cn_retry (repair_run p fs s)" unfolding r by simp
next
  assume a: "length fs < 3 \<and> ce_register e (user_string (cn_userID s)) (ce_self e) = Inr r \<and> rg_error r = None"
  show "repair_run p (fs @ [e]) s = watch (grainPIDFromResponse r) (s\<lparr>cn_grainPID := grainPIDFromResponse r\<rparr>)"
    by (rule repair_accepted [OF s refusals]) (use a in auto)
next
  assume "length fs = 3"
  then show "if length (cn_outbound s) < 64
       then repair_run p fs s = s\<lparr>cn_attempts := 3, cn_phase := PhClosing,
              cn_outbound := cn_outbound s @ [OCloseConnection ''reregister_failed'']\<rparr>
       else cn_stop (repair_run p fs s)"
    by (rule repair_exhausted [OF s refusals])
qed

definition demo_live :: conn_state where
  "demo_live = (new_connection (0, 0))\<lparr>cn_phase := PhPostAuth, cn_open := True, cn_userID := UserID 7,
     cn_grainPID := Some (demo_pid ''g1'')\<rparr>"

theorem reregister_repairs_or_closes_witness:
  "cn_retry (repair_run (demo_pid ''g1'') [demo_down, demo_down] demo_live)
   \<and> repair_run (demo_pid ''g1'') [demo_down, demo_down, demo_conn_env] demo_live =
       demo_live\<lparr>cn_grainPID := Some (demo_pid ''g2''), cn_watched := [demo_pid ''g2'']\<rparr>
   \<and> cn_phase (repair_run (demo_pid ''g1'') [demo_down, demo_down, demo_down] demo_live) = PhClosing"
proof -
  have s: "authenticated (demo_pid ''g1'') demo_live" "cn_attempts demo_live = 0" "\<not> cn_retry demo_live"
    "cn_outbound demo_live = []" "cn_watched demo_live = []"
    by (simp_all add: demo_live_def authenticated_def new_connection_def)
  have down: "refused u demo_down" for u by (simp add: refused_def demo_down_def demo_conn_env_def)
  let ?r = "\<lparr>rg_error = None, rg_grain_pid = Some (demo_pid ''g2'')\<rparr>"
  have env: "ce_register demo_conn_env x y = Inr ?r" for x y by (simp add: demo_conn_env_def)
  have g: "grainPIDFromResponse ?r = Some (demo_pid ''g2'')"
    by (simp add: grainPIDFromResponse_def demo_pid_def)
  show ?thesis
    using reregister_repairs_or_closes [OF s(1-3), of "[demo_down, demo_down]" demo_conn_env ?r]
      reregister_repairs_or_closes [OF s(1-3), of "[demo_down, demo_down, demo_down]" demo_conn_env ?r] down env
    by (simp add: s g watch_def)
qed

fun client_msg :: "conn_msg \<Rightarrow> bool" where
  "client_msg (MInboundAuth tok) = (tok \<noteq> [] \<and> trim_space tok = tok)"
| "client_msg MAppPongReceived = True"
| "client_msg (MDecodeFailed _) = True"
| "client_msg (MProtocolViolation _) = True"
| "client_msg _ = False"

fun closing_report :: "conn_msg \<Rightarrow> bool" where
  "closing_report (MConnectionClosed _) = True"
| "closing_report (MReadPumpPanicked _) = True"
| "closing_report _ = False"

lemma decode_client_msg: "client_msg (decodeInboundFrame data ty tok)"
  by (auto simp: decodeInboundFrame_def NewAuthToken_def Let_def split: option.splits)

text \<open>
  What a peer can make the actor see. Whatever arrives on the socket, the read pump reports a
  sequence of authentication attempts with a non-empty trimmed token, pongs, decode failures and protocol
  violations, then at most one closing report: no frame of a client is ever a delivery, a lifecycle
  message or a timer tick.
\<close>

theorem read_pump_reports:
  "\<exists>ms t. runReadPump rs = ms @ t \<and> list_all client_msg ms \<and> list_all closing_report t \<and> length t \<le> 1"
proof (induction rs rule: runReadPump.induct)
  case (2 b r a rest)
  then show ?case
  proof (cases "b \<or> \<not> (\<exists>d ty tok. r = ReadText d ty tok) \<and> r \<noteq> ReadBinary")
    case False
    then obtain ms t where "runReadPump rest = ms @ t" "list_all client_msg ms" "list_all closing_report t" "length t \<le> 1"
      using 2 by (cases r) auto
    then show ?thesis
      using False by (intro exI [of _ "runReadPump [(b, r, a)] @ ms"] exI [of _ t]) (auto simp: decode_client_msg)
  next
    case True
    then show ?thesis
      by (intro exI [of _ "[]"] exI [of _ "runReadPump [(b, r, a)]"]) (cases r; auto)
  qed
qed simp

end
