(* ===== verification/LiveDelivery.thy ===== *)
theory LiveDelivery
  imports Cluster ConnectionProtocol
begin

text \<open>
  The path of a message from the Room grain to the sockets: the fan-out child calls the User grains
  (\<open>clusterUserNotifier\<close> of \<open>internal/grain/room/room.go\<close>), a User grain sends to the connections registered
  with it, and a connection queues the frame its write pump puts on the wire. The components are those of
  the theories before this one; here they are composed.
\<close>

section \<open>The composition\<close>

text \<open>What the generated client's call makes the User grain of a recipient do.\<close>

definition clusterUserNotifier ::
  "(user_id \<Rightarrow> user_grain) \<Rightarrow> user_id \<Rightarrow> fanout_payload \<Rightarrow> (pid \<times> connection_message) list" where
  "clusterUserNotifier ug u payload =
     (case payload of
        NotifyPayload req \<Rightarrow> NotifyRoomEvent req (ug u)
      | ForwardPayload req \<Rightarrow> ForwardMessage req (ug u))"

text \<open>The outcome of each call is \<open>outcome\<close>; a call reported as failed may still have been handled, its reply
  being lost (\<open>late\<close>).\<close>

definition handled :: "(user_id \<Rightarrow> fanout_payload \<Rightarrow> delivery) \<Rightarrow> (user_id \<Rightarrow> bool) \<Rightarrow> user_id \<Rightarrow> fanout_payload \<Rightarrow> bool" where
  "handled outcome late u payload \<longleftrightarrow> outcome u payload = Delivered \<or> late u"

definition fanout_sends ::
  "(user_id \<Rightarrow> fanout_payload \<Rightarrow> delivery) \<Rightarrow> (user_id \<Rightarrow> bool) \<Rightarrow> (user_id \<Rightarrow> user_grain) \<Rightarrow> fanout_job list
     \<Rightarrow> (pid \<times> connection_message) list" where
  "fanout_sends outcome late ug jobs =
     concat (map (\<lambda>(u, payload). if handled outcome late u payload then clusterUserNotifier ug u payload else [])
       (fanout_mailbox outcome jobs))"

definition conn_message :: "connection_message \<Rightarrow> conn_msg" where
  "conn_message m = (case m of ConnForward req \<Rightarrow> MForward req | ConnNotify req \<Rightarrow> MNotify req)"

definition deliver_send ::
  "(pid \<Rightarrow> conn_env) \<Rightarrow> pid \<times> connection_message \<Rightarrow> (pid \<Rightarrow> conn_sys) \<Rightarrow> (pid \<Rightarrow> conn_sys)" where
  "deliver_send env x cs = cs(fst x := sys_step (EvDeliver (env (fst x)) (conn_message (snd x))) (cs (fst x)))"

definition deliver_sends ::
  "(pid \<Rightarrow> conn_env) \<Rightarrow> (pid \<times> connection_message) list \<Rightarrow> (pid \<Rightarrow> conn_sys) \<Rightarrow> (pid \<Rightarrow> conn_sys)" where
  "deliver_sends env sends cs = fold (deliver_send env) sends cs"

section \<open>Each connection gets its own\<close>

lemma deliver_sends_at:
  "deliver_sends env sends cs p =
     fold (\<lambda>m y. sys_step (EvDeliver (env p) (conn_message m)) y) (map snd (filter (\<lambda>x. fst x = p) sends)) (cs p)"
  by (induction sends arbitrary: cs) (auto simp: deliver_sends_def deliver_send_def)

definition one_user_each :: "(user_id \<Rightarrow> user_grain) \<Rightarrow> bool" where
  "one_user_each ug \<longleftrightarrow> (\<forall>u v p. p \<in> connected (ug_state (ug u)) \<longrightarrow> p \<in> connected (ug_state (ug v)) \<longrightarrow> u = v)"

lemma filter_single: "distinct xs \<Longrightarrow> filter (\<lambda>x. x = p) xs = (if p \<in> set xs then [p] else [])"
  by (induction xs) auto

lemma forward_at:
  assumes "conn_inv (ug_state g)"
  shows "map snd (filter (\<lambda>x. fst x = p) (ForwardMessage req g))
    = (if p \<in> connected (ug_state g) then [ConnForward req] else [])"
  using filter_single[OF connectionPIDs_distinct[OF assms], of p] connectionPIDs_set[OF assms]
  by (simp add: ForwardMessage_def fanOut_def filter_map comp_def)

text \<open>A job none of whose calls panics: a connection gets the message once exactly when it is registered with a
  recipient whose grain was reached.\<close>

lemma sends_at:
  assumes job: "list_all (\<lambda>u. outcome u (ForwardPayload req) \<noteq> DeliveryPanicked) us" and "distinct us"
    and inv: "\<forall>u. conn_inv (ug_state (ug u))" and one: "one_user_each ug"
  shows "map snd (filter (\<lambda>x. fst x = p)
      (concat (map (\<lambda>u. if handled outcome late u (ForwardPayload req) then clusterUserNotifier ug u (ForwardPayload req) else []) us)))
    = (if \<exists>u\<in>set us. handled outcome late u (ForwardPayload req) \<and> p \<in> connected (ug_state (ug u)) then [ConnForward req] else [])"
  using assms(2)
proof (induction us)
  case (Cons u us)
  have h: "map snd (filter (\<lambda>x. fst x = p) (clusterUserNotifier ug u (ForwardPayload req)))
      = (if p \<in> connected (ug_state (ug u)) then [ConnForward req] else [])"
    using forward_at[of "ug u" p req] inv by (simp add: clusterUserNotifier_def)
  have d: "\<not> (\<exists>v\<in>set us. p \<in> connected (ug_state (ug v)))" if "p \<in> connected (ug_state (ug u))"
    using that one Cons.prems by (auto simp: one_user_each_def)
  have IH: "map snd (filter (\<lambda>x. fst x = p)
      (concat (map (\<lambda>u. if handled outcome late u (ForwardPayload req) then clusterUserNotifier ug u (ForwardPayload req) else []) us)))
    = (if \<exists>u\<in>set us. handled outcome late u (ForwardPayload req) \<and> p \<in> connected (ug_state (ug u)) then [ConnForward req] else [])"
    using Cons by simp
  show ?case
  proof (cases "p \<in> connected (ug_state (ug u))")
    case True
    then have none: "\<not> (\<exists>v\<in>set us. handled outcome late v (ForwardPayload req) \<and> p \<in> connected (ug_state (ug v)))" using d by blast
    show ?thesis
      using IH[unfolded if_not_P[OF none]] none h[unfolded if_P[OF True]] True
      by (cases "handled outcome late u (ForwardPayload req)") simp_all
  next
    case False
    show ?thesis using IH h[unfolded if_not_P[OF False]] False
      by (cases "handled outcome late u (ForwardPayload req)") simp_all
  qed
qed simp

lemma fanout_one_job:
  assumes "list_all (\<lambda>u. outcome u (fj_payload job) \<noteq> DeliveryPanicked) (fj_recipients job)"
  shows "fanout_mailbox outcome [job] = map (\<lambda>u. (u, fj_payload job)) (fj_recipients job)"
  using run_recipients_all[of outcome "fj_payload job" "fj_recipients job"] assms by (simp add: runNotify_def)

section \<open>The queue and the wire\<close>

text \<open>A connection that authenticated and is not stopping, with room in its queue.\<close>

definition ready :: "conn_sys \<Rightarrow> bool" where
  "ready y \<longleftrightarrow> (let s = sy_conn y in cn_phase s = PhPostAuth \<and> \<not> cn_dead s \<and> \<not> cn_stop s \<and> cn_open s
     \<and> length (cn_outbound s) < outboundBufferSize \<and> sy_pump y
     \<and> list_all (\<lambda>m. encodeOutboundMessage m \<noteq> None) (cn_outbound s))"

lemma deliver_forward:
  assumes "ready y" and "roomCodeFromRef (fr_room req) = Some rc" and "userCodeFromRef (fr_sender req) = Some uc"
  shows "sys_step (EvDeliver env (MForward req)) y = y\<lparr>sy_conn := (sy_conn y)\<lparr>cn_outbound := cn_outbound (sy_conn y) @
     [OChatDelivered rc \<lparr>cr_ID = uc, cr_Name = pu_name (or_zero zero_proto_user (fr_sender req))\<rparr>
       (fr_text req) (protoTime (fr_timestamp req)) (fr_event_id req)]\<rparr>\<rparr>"
  using assms by (simp add: ready_def Let_def deliver_def authTimeoutMiddleware_def conn_receive_def behavior_def
      postAuthBehavior_def forwardMessage_def sendOutbound_def)

text \<open>The same with no room left: the send panics, and the guardian stops the actor.\<close>

definition queue_full :: "conn_sys \<Rightarrow> bool" where
  "queue_full y \<longleftrightarrow> (let s = sy_conn y in cn_phase s = PhPostAuth \<and> \<not> cn_dead s \<and> \<not> cn_stop s
     \<and> outboundBufferSize \<le> length (cn_outbound s))"

lemma deliver_forward_full:
  assumes "queue_full y" and "roomCodeFromRef (fr_room req) = Some rc" and "userCodeFromRef (fr_sender req) = Some uc"
  shows "sys_step (EvDeliver env (MForward req)) y = y\<lparr>sy_conn := request_stop (sy_conn y)\<rparr>"
  using assms by (simp add: queue_full_def Let_def deliver_def authTimeoutMiddleware_def conn_receive_def behavior_def
      postAuthBehavior_def forwardMessage_def sendOutbound_def classifyConnectionFailure_def)

lemma pump_drains:
  assumes "sy_pump y" "cn_phase (sy_conn y) \<noteq> PhNone" "cn_open (sy_conn y)"
    and "list_all (\<lambda>m. encodeOutboundMessage m \<noteq> None) (cn_outbound (sy_conn y))"
  shows "sy_wire (run_sys (replicate (length (cn_outbound (sy_conn y))) (EvPump d WriteOk)) y) = sy_wire y @ cn_outbound (sy_conn y)"
  using assms
proof (induction "cn_outbound (sy_conn y)" arbitrary: y)
  case Nil
  then show ?case by (simp add: run_sys_def)
next
  case (Cons m ms)
  define z where "z = sys_step (EvPump d WriteOk) y"
  have q: "cn_outbound (sy_conn y) = m # ms" using Cons.hyps(2) by simp
  have z: "z = y\<lparr>sy_conn := sy_conn y\<lparr>cn_outbound := ms\<rparr>, sy_wire := sy_wire y @ [m], sy_pump := True\<rparr>"
    using pump_step_head[of y d m ms WriteOk] Cons.prems q by (simp add: z_def)
  have "sy_wire (run_sys (replicate (length (cn_outbound (sy_conn z))) (EvPump d WriteOk)) z) = sy_wire z @ cn_outbound (sy_conn z)"
    using Cons.prems q by (intro Cons.hyps(1)) (simp_all add: z)
  moreover have "run_sys (replicate (length (m # ms)) (EvPump d WriteOk)) y = run_sys (replicate (length ms) (EvPump d WriteOk)) z"
    by (simp add: run_sys_def z_def)
  ultimately show ?case by (simp add: q) (simp add: z)
qed

section \<open>From the post to the wire\<close>

lemma room_code_of: "valid_room_ref T r \<Longrightarrow> roomCodeFromRef (Some (protoRoomRef r)) = Some (FormatRoom (rr_code r))"
  by (simp add: roomCodeFromRef_def protoRoomRef_def valid_room_ref_def ParsePublicCode_string)

lemma sender_code_of:
  assumes "parseUserRef T p = Ok u"
  shows "userCodeFromRef (Some (protoUserRef u)) = Some (FormatUser (ur_code u))"
proof -
  have "valid_code (ur_code u)"
    using assms by (auto simp: parseUserRef_def Let_def NewUserRef_def dest: ParsePublicCode_valid split: sum.splits if_splits)
  then show ?thesis by (simp add: userCodeFromRef_def protoUserRef_def ParsePublicCode_string)
qed

text \<open>The frame of a row of the journal.\<close>

definition chat_frame :: "room_ref \<Rightarrow> user_ref \<Rightarrow> string \<Rightarrow> event_row \<Rightarrow> outbound" where
  "chat_frame ref sender body ev =
     OChatDelivered (FormatRoom (rr_code ref)) \<lparr>cr_ID = FormatUser (ur_code sender), cr_Name = ur_name sender\<rparr>
       body (ev_occurred_at ev) (event_string (EventID (ev_id ev)))"

text \<open>The connections of the members of a room whose grains the fan-out reached.\<close>

definition addressed ::
  "db \<Rightarrow> room_id \<Rightarrow> (user_id \<Rightarrow> delivery) \<Rightarrow> (user_id \<Rightarrow> bool) \<Rightarrow> (user_id \<Rightarrow> user_grain) \<Rightarrow> pid \<Rightarrow> bool" where
  "addressed d r outcome late ug p \<longleftrightarrow>
     (\<exists>u\<in>roster_ids d r. (outcome u = Delivered \<or> late u) \<and> p \<in> connected (ug_state (ug u)))"

lemma post_one_job:
  assumes "db_inv d" and "good_grain T r g d" and "g_messages g" and "tx_now env \<noteq> zero_time"
    and post: "PostMessage T env now ctx user raw g d = (resp, g', d', jobs)" "presp_error resp = None"
  shows "\<exists>ev ref sender body job req. t_events d' = t_events d @ [ev]
    \<and> ev_room ev = room_int64 r \<and> ev_user ev = user_int64 (ur_id sender) \<and> ev_payload ev = MessagePayload body
    \<and> parseUserRef T user = Ok sender \<and> ref = rs_ref (g_state g)
    \<and> jobs = [job] \<and> fj_payload job = ForwardPayload req \<and> distinct (fj_recipients job)
    \<and> set (fj_recipients job) = roster_ids d r
    \<and> (\<forall>y env. ready y \<longrightarrow> sys_step (EvDeliver env (MForward req)) y
        = y\<lparr>sy_conn := (sy_conn y)\<lparr>cn_outbound := cn_outbound (sy_conn y) @ [chat_frame ref sender body ev]\<rparr>\<rparr>)
    \<and> (\<forall>y env. queue_full y \<longrightarrow> sys_step (EvDeliver env (MForward req)) y = y\<lparr>sy_conn := request_stop (sy_conn y)\<rparr>)"
  using post(1)
proof (cases rule: PostMessage_cases)
  case (posted sender msg evt timestamp eventID st)
  let ?ref = "rs_ref (g_state g)"
  have ref: "rr_id ?ref = r" "valid_room_ref T ?ref" and coh: "coherent g d"
    using assms(2) posted(2) by (simp_all add: good_grain_def)
  have rec: "RecordMessage env r (ur_id sender) (text_string msg) d = (Ok evt, d')"
    using posted(6) assms(3) by (simp add: recordMessage_grain_def ref)
  define ev where "ev = \<lparr>ev_id = event_int64 (de_ID evt), ev_room = room_int64 r,
          ev_type = EvMessagePosted, ev_user = user_int64 (ur_id sender),
          ev_occurred_at = tx_now env, ev_payload = MessagePayload (text_string msg)\<rparr>"
  have e: "de_OccurredAt evt = tx_now env" "d' = d\<lparr>t_events := t_events d @ [ev]\<rparr>"
    using rec by (auto simp: RecordMessage_def AppendMessage_def appendEventSQL_def ev_def
        split: prod.splits sum.splits if_splits dest!: run_stmt_Ok [THEN iffD1])
  have t: "timestamp = tx_now env" "eventID = event_string (de_ID evt)"
    using posted(7,8) e(1) assms(4) by (simp_all add: evt_is_zero_def)
  have roster: "roster_ids d' r = roster_ids d r"
    using RecordMessage_tables(2)[OF assms(1) rec] by (simp add: roster_ids_def)
  define req where "req = buildForwardMessage ?ref sender (text_string msg) timestamp eventID"
  obtain job where job: "jobs = [job]" "sorted_wrt (<) (fj_recipients job)"
      "set (fj_recipients job) = roster_ids d r"
    using PostMessage_fanout[OF assms(1) coh post] by (auto simp: ref roster)
  have pay: "fj_payload job = ForwardPayload req" using job(1) posted(11) by (auto simp: fanOutForward_def req_def)
  have dist: "distinct (fj_recipients job)" using job(2) by (simp add: strict_sorted_iff)
  have "sys_step (EvDeliver env (MForward req)) y
        = y\<lparr>sy_conn := (sy_conn y)\<lparr>cn_outbound := cn_outbound (sy_conn y) @ [chat_frame ?ref sender (text_string msg) ev]\<rparr>\<rparr>"
    if "ready y" for y env
    using deliver_forward[OF that, of req] room_code_of[OF ref(2)] sender_code_of[OF posted(3)]
    by (simp add: req_def buildForwardMessage_def chat_frame_def ev_def t protoTime_def protoUserRef_def or_zero_def)
  moreover have "sys_step (EvDeliver env (MForward req)) y = y\<lparr>sy_conn := request_stop (sy_conn y)\<rparr>"
    if "queue_full y" for y env
    using room_code_of[OF ref(2)] sender_code_of[OF posted(3)]
    by (intro deliver_forward_full[OF that]) (simp_all add: req_def buildForwardMessage_def)
  ultimately show ?thesis
    using posted(3) e(2) job(1,3) pay dist
    by (intro exI[of _ ev] exI[of _ ?ref] exI[of _ sender] exI[of _ "text_string msg"] exI[of _ job] exI[of _ req])
       (simp add: ev_def)
qed (use assms in auto)

text \<open>C5. A posted message reaches the members' sockets and no other. The post is handled by a grain whose
  cached room and members agree with the tables (\<open>good_grain\<close>: the case unless a commit was applied while its
  reply was lost) and that has its message store, the database clock is not the zero time, every User grain's
  connection table is well formed and no connection is registered with two users, and no call of the fan-out
  panics. After a successful post, with the fan-out job carried out, take the connections registered with the
  grain of a member of the room that the fan-out reached. One that is ready (authenticated, not stopping, its
  socket open and its pump running, fewer than 64 frames queued, all of which encode) writes, once its pump has
  had enough turns whose writes succeed, what it had queued and then one frame with the text, the id and the
  time of the row the post appended to the journal and the public codes of the room and of the sender. One that
  is authenticated and not stopping but has 64 frames queued is stopped, the frame being dropped. Every connection not
  registered so is as it was.\<close>

theorem posted_message_reaches_the_wire:
  assumes "db_inv d" and "good_grain T r g d" and "g_messages g" and "tx_now env \<noteq> zero_time"
    and "PostMessage T env now ctx user raw g d = (resp, g', d', jobs)" and "presp_error resp = None"
    and "\<forall>u. conn_inv (ug_state (ug u))" and "one_user_each ug"
    and "\<forall>u. outcome u \<noteq> DeliveryPanicked"
  shows "\<exists>ev sender body. t_events d' = t_events d @ [ev] \<and> ev_room ev = room_int64 r
    \<and> ev_user ev = user_int64 (ur_id sender) \<and> ev_payload ev = MessagePayload body \<and> parseUserRef T user = Ok sender
    \<and> (\<forall>p. if addressed d r outcome late ug p
           then (ready (cs p) \<longrightarrow>
             sy_wire (run_sys (replicate (Suc (length (cn_outbound (sy_conn (cs p))))) (EvPump False WriteOk))
               (deliver_sends cenv (fanout_sends (\<lambda>u _. outcome u) late ug jobs) cs p))
             = sy_wire (cs p) @ cn_outbound (sy_conn (cs p)) @ [chat_frame (rs_ref (g_state g)) sender body ev])
             \<and> (queue_full (cs p) \<longrightarrow> deliver_sends cenv (fanout_sends (\<lambda>u _. outcome u) late ug jobs) cs p
                  = (cs p)\<lparr>sy_conn := request_stop (sy_conn (cs p))\<rparr>)
           else deliver_sends cenv (fanout_sends (\<lambda>u _. outcome u) late ug jobs) cs p = cs p)"
proof -
  obtain ev ref sender body job req where j: "t_events d' = t_events d @ [ev]" "ev_room ev = room_int64 r"
      "ev_user ev = user_int64 (ur_id sender)" "ev_payload ev = MessagePayload body" "parseUserRef T user = Ok sender"
      "ref = rs_ref (g_state g)" "jobs = [job]" "fj_payload job = ForwardPayload req" "distinct (fj_recipients job)"
      "set (fj_recipients job) = roster_ids d r"
    and step: "\<And>y env. ready y \<Longrightarrow> sys_step (EvDeliver env (MForward req)) y
        = y\<lparr>sy_conn := (sy_conn y)\<lparr>cn_outbound := cn_outbound (sy_conn y) @ [chat_frame ref sender body ev]\<rparr>\<rparr>"
    and full: "\<And>y env. queue_full y \<Longrightarrow> sys_step (EvDeliver env (MForward req)) y = y\<lparr>sy_conn := request_stop (sy_conn y)\<rparr>"
    using post_one_job[OF assms(1-6)] by blast
  have ok: "list_all (\<lambda>u. (\<lambda>u _. outcome u) u (ForwardPayload req) \<noteq> DeliveryPanicked) (fj_recipients job)"
    using assms(9) by (simp add: list_all_iff)
  have sends: "fanout_sends (\<lambda>u _. outcome u) late ug jobs = concat (map (\<lambda>u.
      if handled (\<lambda>u _. outcome u) late u (ForwardPayload req) then clusterUserNotifier ug u (ForwardPayload req) else []) (fj_recipients job))"
    using fanout_one_job[of "\<lambda>u _. outcome u" job] ok by (simp add: fanout_sends_def j(7,8) comp_def cong: if_cong)
  have at: "deliver_sends cenv (fanout_sends (\<lambda>u _. outcome u) late ug jobs) cs p =
      (if addressed d r outcome late ug p then sys_step (EvDeliver (cenv p) (MForward req)) (cs p) else cs p)" for p
    unfolding deliver_sends_at sends sends_at[OF ok j(9) assms(7,8)]
    by (simp only: j(10) handled_def addressed_def[symmetric]) (simp add: conn_message_def)
  have wire: "sy_wire (run_sys (replicate (Suc (length (cn_outbound (sy_conn y)))) (EvPump False WriteOk))
      (sys_step (EvDeliver env (MForward req)) y)) = sy_wire y @ cn_outbound (sy_conn y) @ [chat_frame ref sender body ev]"
    if r: "ready y" for y env
  proof -
    define z where "z = y\<lparr>sy_conn := (sy_conn y)\<lparr>cn_outbound := cn_outbound (sy_conn y) @ [chat_frame ref sender body ev]\<rparr>\<rparr>"
    have "encodeOutboundMessage (chat_frame ref sender body ev) \<noteq> None"
      by (simp add: encodeOutboundMessage_total chat_frame_def)
    then have "sy_wire (run_sys (replicate (length (cn_outbound (sy_conn z))) (EvPump False WriteOk)) z) = sy_wire z @ cn_outbound (sy_conn z)"
      using r by (intro pump_drains) (auto simp: z_def ready_def Let_def)
    then show ?thesis unfolding step[OF r] z_def[symmetric] by (simp add: z_def)
  qed
  have "if addressed d r outcome late ug p
      then (ready (cs p) \<longrightarrow>
        sy_wire (run_sys (replicate (Suc (length (cn_outbound (sy_conn (cs p))))) (EvPump False WriteOk))
          (deliver_sends cenv (fanout_sends (\<lambda>u _. outcome u) late ug jobs) cs p))
        = sy_wire (cs p) @ cn_outbound (sy_conn (cs p)) @ [chat_frame (rs_ref (g_state g)) sender body ev])
        \<and> (queue_full (cs p) \<longrightarrow> deliver_sends cenv (fanout_sends (\<lambda>u _. outcome u) late ug jobs) cs p
             = (cs p)\<lparr>sy_conn := request_stop (sy_conn (cs p))\<rparr>)
      else deliver_sends cenv (fanout_sends (\<lambda>u _. outcome u) late ug jobs) cs p = cs p" for p
    unfolding at j(6)[symmetric] using wire[of "cs p" "cenv p"] full[of "cs p" "cenv p"]
    by (cases "addressed d r outcome late ug p") (simp_all only: if_True if_False simp_thms imp_disjL, blast?)
  then show ?thesis using j(1-5) by blast
qed

definition demo_ready :: conn_sys where
  "demo_ready = \<lparr>sy_conn = (new_connection (0, 0))\<lparr>cn_phase := PhPostAuth, cn_open := True\<rparr>, sy_wire = [], sy_pump = True\<rparr>"

definition demo_users :: "user_id \<Rightarrow> user_grain" where
  "demo_users u = (if u = UserID 1 then demo_ug\<lparr>ug_state := addConnection (demo_pid ''c1'') newUserState\<rparr> else demo_ug)"

lemma demo_users_connected:
  "conn_inv (ug_state (demo_users u))" "connected (ug_state (demo_users u)) = (if u = UserID 1 then {demo_pid ''c1''} else {})"
proof -
  have p: "plain_pid (demo_pid ''c1'')" by (simp add: plain_pid_def demo_pid_def)
  show "conn_inv (ug_state (demo_users u))" "connected (ug_state (demo_users u)) = (if u = UserID 1 then {demo_pid ''c1''} else {})"
    using addConnection_conn[OF newUserState_conn(1) p] newUserState_conn by (simp_all add: demo_users_def demo_ug_def)
qed

lemma demo_good: "good_grain plain_text_lib (RoomID 4) demo_grain demo_db"
  using activate_good[OF _ demo_db_inv _ _ demo_activate] demo_world_ok
  by (simp add: world_ok_def demo_world_def routable_def max_int64_def)

theorem posted_message_reaches_the_wire_witness:
  "\<exists>resp g' d' jobs sender body ev.
     PostMessage plain_text_lib (healthy_env 9 (Ok 77)) 9 demo_ctx demo_bob ''hi '' demo_grain demo_db = (resp, g', d', jobs)
   \<and> t_events d' = t_events demo_db @ [ev]
   \<and> sy_wire (run_sys [EvPump False WriteOk]
        (deliver_sends (\<lambda>_. demo_conn_env) (fanout_sends (\<lambda>_ _. Delivered) (\<lambda>_. False) demo_users jobs) (\<lambda>_. demo_ready) (demo_pid ''c1'')))
     = [chat_frame (rs_ref (g_state demo_grain)) sender body ev]"
proof -
  obtain resp g' d' jobs where post:
    "PostMessage plain_text_lib (healthy_env 9 (Ok 77)) 9 demo_ctx demo_bob ''hi '' demo_grain demo_db = (resp, g', d', jobs)"
    "presp_error resp = None"
    using demo_post by (simp add: Let_def)
  have a: "g_messages demo_grain" "tx_now (healthy_env 9 (Ok 77)) \<noteq> zero_time"
    by (simp_all add: demo_grain_def demo_grain0_def zero_time_def)
  have "roster_ids demo_db (RoomID 4) = Mapping.keys (rs_members (g_state demo_grain))"
    using demo_coherent demo_loaded by (simp add: coherent_def demo_room_ref_def)
  then have "UserID 1 \<in> roster_ids demo_db (RoomID 4)" by (simp add: demo_keys)
  then have ad: "addressed demo_db (RoomID 4) (\<lambda>_. Delivered) (\<lambda>_. False) demo_users (demo_pid ''c1'')"
    using demo_users_connected(2)[of "UserID 1"] by (auto simp: addressed_def)
  have rd: "ready demo_ready" and q: "cn_outbound (sy_conn demo_ready) = []" "sy_wire demo_ready = []"
    by (simp_all add: ready_def demo_ready_def new_connection_def outboundBufferSize_def)
  have one: "one_user_each demo_users" by (auto simp: one_user_each_def demo_users_connected(2) split: if_splits)
  obtain ev sender body where ev: "t_events d' = t_events demo_db @ [ev]" and all: "\<And>p. if addressed demo_db (RoomID 4) (\<lambda>_. Delivered) (\<lambda>_. False) demo_users p
        then (ready demo_ready \<longrightarrow> sy_wire (run_sys (replicate (Suc (length (cn_outbound (sy_conn demo_ready)))) (EvPump False WriteOk))
            (deliver_sends (\<lambda>_. demo_conn_env) (fanout_sends (\<lambda>_ _. Delivered) (\<lambda>_. False) demo_users jobs) (\<lambda>_. demo_ready) p))
          = sy_wire demo_ready @ cn_outbound (sy_conn demo_ready) @ [chat_frame (rs_ref (g_state demo_grain)) sender body ev])
          \<and> (queue_full demo_ready \<longrightarrow> deliver_sends (\<lambda>_. demo_conn_env) (fanout_sends (\<lambda>_ _. Delivered) (\<lambda>_. False) demo_users jobs) (\<lambda>_. demo_ready) p
               = demo_ready\<lparr>sy_conn := request_stop (sy_conn demo_ready)\<rparr>)
        else deliver_sends (\<lambda>_. demo_conn_env) (fanout_sends (\<lambda>_ _. Delivered) (\<lambda>_. False) demo_users jobs) (\<lambda>_. demo_ready) p = demo_ready"
    using posted_message_reaches_the_wire[OF demo_db_inv demo_good a post _ one,
        of "\<lambda>_. Delivered" "\<lambda>_. False" "\<lambda>_. demo_ready" "\<lambda>_. demo_conn_env"] demo_users_connected(1) by auto
  show ?thesis using post(1) ev all[of "demo_pid ''c1''"] ad rd by (auto simp: q)
qed

end
