(* ===== verification/Credentials.thy ===== *)
theory Credentials
  imports DomainModel "HOL-Library.Word"
begin

unbundle bit_operations_syntax

text \<open>
  What proves that a caller is who they say: passwords (\<open>internal/auth/password.go\<close>) and e-mailed PINs
  (\<open>internal/verification/pin.go\<close>).

  \<open>crypto/sha256\<close> and \<open>encoding/base64\<close> are the standard library's and are defined here; bcrypt
  (\<open>golang.org/x/crypto\<close>) is a parameter, the record \<open>bcrypt_lib\<close>, with what it documents in
  \<open>bcrypt_laws\<close>. Random values are arguments of the functions that draw them.
\<close>

subsection \<open>SHA-256\<close>

definition sha_k :: "32 word list" where
  "sha_k =
     [1116352408, 1899447441, 3049323471, 3921009573, 961987163, 1508970993, 2453635748, 2870763221,
      3624381080, 310598401, 607225278, 1426881987, 1925078388, 2162078206, 2614888103, 3248222580,
      3835390401, 4022224774, 264347078, 604807628, 770255983, 1249150122, 1555081692, 1996064986,
      2554220882, 2821834349, 2952996808, 3210313671, 3336571891, 3584528711, 113926993, 338241895,
      666307205, 773529912, 1294757372, 1396182291, 1695183700, 1986661051, 2177026350, 2456956037,
      2730485921, 2820302411, 3259730800, 3345764771, 3516065817, 3600352804, 4094571909, 275423344,
      430227734, 506948616, 659060556, 883997877, 958139571, 1322822218, 1537002063, 1747873779,
      1955562222, 2024104815, 2227730452, 2361852424, 2428436474, 2756734187, 3204031479, 3329325298]"

definition sha_init :: "32 word list" where
  "sha_init = [1779033703, 3144134277, 1013904242, 2773480762, 1359893119, 2600822924, 528734635, 1541459225]"

definition be32 :: "string \<Rightarrow> 32 word" where
  "be32 s = foldl (\<lambda>a c. push_bit 8 a OR of_nat (byte_of c)) 0 s"

definition byte_char :: "int \<Rightarrow> char" where
  "byte_char n = char_of (n mod 256)"

definition rotr :: "nat \<Rightarrow> 32 word \<Rightarrow> 32 word" where
  "rotr n w = drop_bit n w OR push_bit (32 - n) w"

definition unbe32 :: "32 word \<Rightarrow> string" where
  "unbe32 w = map (\<lambda>i. byte_char (uint (drop_bit i w))) [24, 16, 8, 0]"

text \<open>The length in bits, in eight bytes, after a one bit and zeros to a multiple of sixty-four bytes.\<close>

definition sha_pad :: "string \<Rightarrow> string" where
  "sha_pad s =
     (let n = length s; z = (119 - n mod 64) mod 64
      in s @ [CHR 0x80] @ replicate z (CHR 0x00)
         @ map (\<lambda>i. byte_char (8 * int n div 256 ^ i)) [7, 6, 5, 4, 3, 2, 1, 0])"

fun chunks :: "nat \<Rightarrow> 'a list \<Rightarrow> 'a list list" where
  "chunks 0 xs = [xs]"
| "chunks n [] = []"
| "chunks (Suc n) (x # xs) = take (Suc n) (x # xs) # chunks (Suc n) (drop n xs)"

text \<open>The message schedule, newest word first, and one round.\<close>

fun sha_extend :: "nat \<Rightarrow> 32 word list \<Rightarrow> 32 word list" where
  "sha_extend 0 ws = ws"
| "sha_extend (Suc n) ws =
     (let a = ws ! 14; b = ws ! 1;
          s0 = rotr 7 a XOR rotr 18 a XOR drop_bit 3 a;
          s1 = rotr 17 b XOR rotr 19 b XOR drop_bit 10 b
      in sha_extend n ((ws ! 15 + s0 + ws ! 6 + s1) # ws))"

fun sha_round :: "32 word list \<Rightarrow> 32 word \<times> 32 word \<Rightarrow> 32 word list" where
  "sha_round [a, b, c, d, e, f, g, h] (k, w) =
     (let s1 = rotr 6 e XOR rotr 11 e XOR rotr 25 e;
          ch = (e AND f) XOR (NOT e AND g);
          t1 = h + s1 + ch + k + w;
          s0 = rotr 2 a XOR rotr 13 a XOR rotr 22 a;
          maj = (a AND b) XOR (a AND c) XOR (b AND c)
      in [t1 + (s0 + maj), a, b, c, d + t1, e, f, g])"
| "sha_round st _ = st"

definition sha_block :: "32 word list \<Rightarrow> string \<Rightarrow> 32 word list" where
  "sha_block st blk =
     (let ws = rev (sha_extend 48 (rev (map be32 (chunks 4 blk))))
      in map2 (+) st (foldl sha_round st (zip sha_k ws)))"

definition sha256 :: "string \<Rightarrow> string" where
  "sha256 s = concat (map unbe32 (foldl sha_block sha_init (chunks 64 (sha_pad s))))"

subsection \<open>Base64, the standard alphabet with padding\<close>

definition base64_alphabet :: string where
  "base64_alphabet = ''ABCDEFGHIJKLMNOPQRSTUVWXYZabcdefghijklmnopqrstuvwxyz0123456789+/''"

definition base64_digit :: "nat \<Rightarrow> char" where
  "base64_digit n = base64_alphabet ! (n mod 64)"

fun base64 :: "string \<Rightarrow> string" where
  "base64 (a # b # c # cs) =
     (let n = byte_of a * 65536 + byte_of b * 256 + byte_of c
      in [base64_digit (n div 262144), base64_digit (n div 4096), base64_digit (n div 64), base64_digit n]
         @ base64 cs)"
| "base64 [a, b] =
     (let n = byte_of a * 65536 + byte_of b * 256
      in [base64_digit (n div 262144), base64_digit (n div 4096), base64_digit (n div 64), CHR ''=''])"
| "base64 [a] =
     (let n = byte_of a * 65536
      in [base64_digit (n div 262144), base64_digit (n div 4096), CHR ''='', CHR ''=''])"
| "base64 [] = []"


subsection \<open>Passwords\<close>

text \<open>
  bcrypt: \<open>bc_generate r p c\<close> is \<open>GenerateFromPassword\<close> with the salt of the draw \<open>r\<close>; \<open>bc_compare\<close> is
  \<open>CompareHashAndPassword\<close> returning no error; \<open>bc_cost\<close> is \<open>Cost\<close>.
\<close>

record bcrypt_lib =
  bc_generate :: "nat \<Rightarrow> string \<Rightarrow> nat \<Rightarrow> (unit, string) result"
  bc_compare :: "string \<Rightarrow> string \<Rightarrow> bool"
  bc_cost :: "string \<Rightarrow> nat option"

definition bcrypt_laws :: "bcrypt_lib \<Rightarrow> bool" where
  "bcrypt_laws B \<longleftrightarrow>
     (\<forall>r p c h. bc_generate B r p c = Ok h \<longrightarrow> bc_compare B h p \<and> bc_cost B h = Some c)"

definition PasswordTargetCost :: nat where "PasswordTargetCost = 12"
definition MinPasswordLen :: nat where "MinPasswordLen = 12"

definition normalizePassword :: "text_lib \<Rightarrow> string \<Rightarrow> string" where
  "normalizePassword T plain = nfc T plain"

definition ValidatePasswordStrength :: "text_lib \<Rightarrow> string \<Rightarrow> bool" where
  "ValidatePasswordStrength T plain \<longleftrightarrow> \<not> length (normalizePassword T plain) < MinPasswordLen"

definition prehash :: "text_lib \<Rightarrow> string \<Rightarrow> string" where
  "prehash T plain = base64 (sha256 (normalizePassword T plain))"

definition HashPassword :: "text_lib \<Rightarrow> bcrypt_lib \<Rightarrow> nat \<Rightarrow> string \<Rightarrow> (unit, string) result" where
  "HashPassword T B r plain = bc_generate B r (prehash T plain) PasswordTargetCost"

definition VerifyPassword :: "text_lib \<Rightarrow> bcrypt_lib \<Rightarrow> string \<Rightarrow> string \<Rightarrow> bool" where
  "VerifyPassword T B hash plain = bc_compare B hash (prehash T plain)"

definition PasswordNeedsRehash :: "bcrypt_lib \<Rightarrow> string \<Rightarrow> bool" where
  "PasswordNeedsRehash B hash =
     (case bc_cost B hash of None \<Rightarrow> False | Some cost \<Rightarrow> cost < PasswordTargetCost)"

subsection \<open>PINs\<close>

definition pinDigits :: nat where "pinDigits = 6"
definition pinBound :: nat where "pinBound = 1000000"
definition pinHashCost :: nat where "pinHashCost = 10"

datatype pin = PIN (pin_string: string)

datatype pin_error = ErrRandPIN | ErrInvalidPIN | ErrBcryptPIN | ErrMismatchedPIN

definition validatePINDigits :: "string \<Rightarrow> bool" where
  "validatePINDigits s \<longleftrightarrow>
     length s = pinDigits \<and> list_all (\<lambda>p. \<not> (fst p < 48 \<or> 57 < fst p)) (runes s)"

text \<open>\<open>%0*d\<close>: the decimal digits, with zeros in front up to the width.\<close>

definition format_padded :: "nat \<Rightarrow> nat \<Rightarrow> string" where
  "format_padded w n = (let s = format_nat n in replicate (w - length s) (CHR ''0'') @ s)"

definition NewPIN :: "(unit, nat) result \<Rightarrow> (pin_error, pin) result" where
  "NewPIN rnd = (case rnd of Inl _ \<Rightarrow> Err ErrRandPIN | Inr n \<Rightarrow> Ok (PIN (format_padded pinDigits n)))"

definition ParsePIN :: "string \<Rightarrow> (pin_error, pin) result" where
  "ParsePIN raw =
     (let trimmed = trim_space raw
      in if \<not> validatePINDigits trimmed then Err ErrInvalidPIN else Ok (PIN trimmed))"

definition pin_Hash :: "bcrypt_lib \<Rightarrow> nat \<Rightarrow> pin \<Rightarrow> (pin_error, string) result" where
  "pin_Hash B r p =
     (if \<not> validatePINDigits (pin_string p) then Err ErrInvalidPIN
      else case bc_generate B r (pin_string p) pinHashCost of
             Inl _ \<Rightarrow> Err ErrBcryptPIN
           | Inr h \<Rightarrow> Ok h)"

definition pin_Verify :: "bcrypt_lib \<Rightarrow> string \<Rightarrow> string \<Rightarrow> (pin_error, unit) result" where
  "pin_Verify B hash raw =
     (case ParsePIN raw of
        Inl e \<Rightarrow> Err e
      | Inr p \<Rightarrow> if bc_compare B hash (pin_string p) then Ok () else Err ErrMismatchedPIN)"

subsection \<open>Facts\<close>

lemma sha_round_length: "length st = 8 \<Longrightarrow> length (sha_round st kw) = 8"
  by (cases "(st, kw)" rule: sha_round.cases) (auto simp: Let_def)

lemma sha_rounds_length: "length st = 8 \<Longrightarrow> length (foldl sha_round st kws) = 8"
  by (induction kws arbitrary: st) (auto simp: sha_round_length)

lemma sha_blocks_length: "length st = 8 \<Longrightarrow> length (foldl sha_block st bs) = 8"
  by (induction bs arbitrary: st) (auto simp: sha_block_def Let_def sha_rounds_length)

lemma sha256_length: "length (sha256 s) = 32"
proof -
  have "length (concat (map unbe32 ws)) = 4 * length ws" for ws
    by (induction ws) (auto simp: unbe32_def)
  moreover have "length (foldl sha_block sha_init (chunks 64 (sha_pad s))) = 8"
    by (rule sha_blocks_length) (simp add: sha_init_def)
  ultimately show ?thesis by (simp add: sha256_def)
qed

lemma base64_length: "length (base64 s) = 4 * ((length s + 2) div 3)"
proof (induction s rule: base64.induct)
  case (1 a b c cs)
  have "(length (a # b # c # cs) + 2) div 3 = (length cs + 2) div 3 + 1" by simp
  then show ?case using 1 by (simp add: Let_def)
qed (auto simp: Let_def)

text \<open>What bcrypt hashes is always 44 bytes, within its limit of 72.\<close>

lemma prehash_length: "length (prehash T plain) = 44"
  by (simp add: prehash_def base64_length sha256_length)

lemma HashPassword_verifies:
  assumes "bcrypt_laws B" and "HashPassword T B r plain = Ok h"
  shows "VerifyPassword T B h plain" and "\<not> PasswordNeedsRehash B h"
  using assms by (auto simp: bcrypt_laws_def HashPassword_def VerifyPassword_def PasswordNeedsRehash_def)

text \<open>A fresh PIN is six digits, and a client that types them is understood.\<close>

lemma format_nat_length: "n < 10 ^ k \<Longrightarrow> 0 < k \<Longrightarrow> length (format_nat n) \<le> k"
proof (induction n arbitrary: k rule: format_nat.induct)
  case (1 n)
  show ?case
  proof (cases "n < 10")
    case True
    then show ?thesis using 1(3) by (simp add: format_nat.simps [of n])
  next
    case False
    obtain j where k: "k = Suc j" using 1(3) gr0_conv_Suc by blast
    have "0 < j" using 1(2) False k by (cases j) auto
    moreover have "n div 10 < 10 ^ j" using 1(2) k by (simp add: less_mult_imp_div_less mult.commute)
    ultimately show ?thesis using 1(1) [OF False, of j] False k by (simp add: format_nat.simps [of n])
  qed
qed

lemma digits_valid_pin:
  assumes "length s = pinDigits" and "\<forall>c \<in> set s. is_digit c"
  shows "validatePINDigits s" and "ParsePIN s = Ok (PIN s)"
proof -
  have asc: "is_ascii s" using assms(2) by (auto simp: is_ascii_def list_all_iff is_digit_def)
  then have v: "validatePINDigits s"
    using assms by (auto simp: validatePINDigits_def runes_ascii list_all_iff is_digit_def)
  have "trim_space s = s"
    using asc assms(2) by (intro trim_space_ascii_id) (auto simp: is_digit_def is_space_def)
  then show "validatePINDigits s" "ParsePIN s = Ok (PIN s)" using v by (simp_all add: ParsePIN_def)
qed

lemma is_digit_zero: "is_digit (CHR ''0'')"
  by (simp add: is_digit_def)

lemma NewPIN_valid:
  assumes "n < pinBound" and "NewPIN (Ok n) = Ok p"
  shows "validatePINDigits (pin_string p)" and "ParsePIN (pin_string p) = Ok p"
proof -
  have "length (format_nat n) \<le> 6" using assms(1) format_nat_length [of n 6] by (simp add: pinBound_def)
  then have len: "length (pin_string p) = pinDigits"
    using assms(2) by (auto simp: NewPIN_def format_padded_def Let_def pinDigits_def)
  have dig: "\<forall>c \<in> set (pin_string p). is_digit c"
    using assms(2) by (auto simp: NewPIN_def format_padded_def Let_def format_nat_digits is_digit_zero)
  show "validatePINDigits (pin_string p)" "ParsePIN (pin_string p) = Ok p"
    using digits_valid_pin [OF len dig] by simp_all
qed

lemma pin_Hash_verifies:
  assumes "bcrypt_laws B" "n < pinBound" "NewPIN (Ok n) = Ok p" "pin_Hash B r p = Ok h"
  shows "pin_Verify B h (pin_string p) = Ok ()"
  using assms NewPIN_valid [OF assms(2,3)]
  by (auto simp: pin_Hash_def pin_Verify_def bcrypt_laws_def split: sum.splits)

end
