(* ===== verification/Accounts.thy ===== *)
theory Accounts
  imports Database Credentials
begin

text \<open>
  Accounts from registration to activation or removal: \<open>VerificationRepo\<close> over the table
  \<open>email_verification\<close>, \<open>RegistrationService\<close> of the gateway (\<open>registration.go\<close>, \<open>verification.go\<close>) and the
  sweep of abandoned accounts (\<open>accountgc\<close>).

  A transaction runs at READ COMMITTED: each statement sees what was committed when it starts. A
  transaction is therefore given the databases its reads see as arguments of their own, and its writes
  run on the database as it is when they happen; what other transactions do in between is the
  environment's choice.
\<close>

subsection \<open>Challenges\<close>

record verification =
  vf_UserID :: user_id
  vf_PinHash :: string
  vf_ExpiresAt :: instant
  vf_Attempts :: int
  vf_ResendCount :: int
  vf_LastSentAt :: instant
  vf_CreatedAt :: instant

definition Expired :: "verification \<Rightarrow> instant \<Rightarrow> bool" where
  "Expired v now \<longleftrightarrow> \<not> now < vf_ExpiresAt v"

definition verificationRow_toDomain :: "verification_row \<Rightarrow> (store_error, verification) result" where
  "verificationRow_toDomain vr =
     (case NewUserID (vr_user_id vr) of
        Inl e \<Rightarrow> Err (ErrRow (RowID e))
      | Inr userID \<Rightarrow>
          Ok \<lparr>vf_UserID = userID, vf_PinHash = vr_pin_hash vr, vf_ExpiresAt = vr_expires_at vr,
              vf_Attempts = vr_attempts vr, vf_ResendCount = vr_resend_count vr,
              vf_LastSentAt = (case vr_last_sent_at vr of None \<Rightarrow> zero_time | Some t \<Rightarrow> t),
              vf_CreatedAt = vr_created_at vr\<rparr>)"

record verification_params =
  vp_UserID :: user_id
  vp_PinHash :: string
  vp_ExpiresAt :: instant
  vp_SentAt :: instant

text \<open>The statements, each with the columns and the constraints it touches.\<close>

definition createSQL :: "instant \<Rightarrow> verification_params \<Rightarrow> unit stmt" where
  "createSQL now p d =
     (let uid = user_int64 (vp_UserID p)
      in if uid \<in> vr_user_id ` set (t_verifications d) then (Err (ErrUnique ''email_verification_pkey''), d)
         else if uid \<notin> su_id ` set (t_users d) then (Err ErrForeignKey, d)
         else (Ok (), d\<lparr>t_verifications := t_verifications d @
                [\<lparr>vr_user_id = uid, vr_pin_hash = vp_PinHash p, vr_expires_at = vp_ExpiresAt p,
                  vr_attempts = 0, vr_resend_count = 0, vr_last_sent_at = Some (vp_SentAt p),
                  vr_created_at = now\<rparr>]\<rparr>))"

definition update_challenge ::
  "(verification_row \<Rightarrow> bool) \<Rightarrow> (verification_row \<Rightarrow> verification_row) \<Rightarrow> db \<Rightarrow> db" where
  "update_challenge sel f d =
     d\<lparr>t_verifications := map (\<lambda>v. if sel v then f v else v) (t_verifications d)\<rparr>"

definition incrementAttemptsSQL :: "int \<Rightarrow> int option stmt" where
  "incrementAttemptsSQL uid d =
     (Ok (map_option (\<lambda>v. vr_attempts v + 1) (find (\<lambda>v. vr_user_id v = uid) (t_verifications d))),
      update_challenge (\<lambda>v. vr_user_id v = uid) (\<lambda>v. v\<lparr>vr_attempts := vr_attempts v + 1\<rparr>) d)"

record resend_policy =
  rp_PreviousSentBefore :: instant
  rp_MaxResendCount :: int

definition may_resend :: "int \<Rightarrow> resend_policy \<Rightarrow> verification_row \<Rightarrow> bool" where
  "may_resend uid policy v \<longleftrightarrow>
     vr_user_id v = uid
     \<and> (case vr_last_sent_at v of None \<Rightarrow> True | Some t \<Rightarrow> t \<le> rp_PreviousSentBefore policy)
     \<and> vr_resend_count v < rp_MaxResendCount policy"

definition resendSQL :: "verification_params \<Rightarrow> resend_policy \<Rightarrow> (bool \<times> bool) stmt" where
  "resendSQL p policy d =
     (let uid = user_int64 (vp_UserID p)
      in (Ok (list_ex (may_resend uid policy) (t_verifications d),
              list_ex (\<lambda>v. vr_user_id v = uid) (t_verifications d)),
          update_challenge (may_resend uid policy)
            (\<lambda>v. v\<lparr>vr_pin_hash := vp_PinHash p, vr_expires_at := vp_ExpiresAt p, vr_attempts := 0,
                   vr_last_sent_at := Some (vp_SentAt p), vr_resend_count := vr_resend_count v + 1\<rparr>) d))"

definition deleteSQL :: "int \<Rightarrow> nat stmt" where
  "deleteSQL uid d =
     (Ok (length (filter (\<lambda>v. vr_user_id v = uid) (t_verifications d))),
      d\<lparr>t_verifications := filter (\<lambda>v. vr_user_id v \<noteq> uid) (t_verifications d)\<rparr>)"

text \<open>The methods of \<open>VerificationRepo\<close>.\<close>

definition VerificationRepo_Create :: "outcome \<Rightarrow> instant \<Rightarrow> verification_params \<Rightarrow> unit stmt" where
  "VerificationRepo_Create oc now p = run_stmt oc (createSQL now p)"

definition FindByUser :: "outcome \<Rightarrow> user_id \<Rightarrow> db \<Rightarrow> (store_error, verification) result" where
  "FindByUser oc userID d =
     (if oc \<noteq> Acked then Err ErrConn
      else case find (\<lambda>v. vr_user_id v = user_int64 userID) (t_verifications d) of
             None \<Rightarrow> Err ErrVerificationNotFound
           | Some vr \<Rightarrow> verificationRow_toDomain vr)"

definition IncrementAttempts :: "outcome \<Rightarrow> user_id \<Rightarrow> int stmt" where
  "IncrementAttempts oc userID d =
     (case run_stmt oc (incrementAttemptsSQL (user_int64 userID)) d of
        (Inl e, d') \<Rightarrow> (Err e, d')
      | (Inr None, d') \<Rightarrow> (Err ErrVerificationNotFound, d')
      | (Inr (Some n), d') \<Rightarrow> (Ok n, d'))"

definition VerificationRepo_Resend :: "outcome \<Rightarrow> verification_params \<Rightarrow> resend_policy \<Rightarrow> unit stmt" where
  "VerificationRepo_Resend oc p policy d =
     (case run_stmt oc (resendSQL p policy) d of
        (Inl e, d') \<Rightarrow> (Err e, d')
      | (Inr (updated, found), d') \<Rightarrow>
          (if updated then Ok () else if \<not> found then Err ErrVerificationNotFound
           else Err ErrVerificationRateLimited, d'))"

definition VerificationRepo_Delete :: "outcome \<Rightarrow> user_id \<Rightarrow> unit stmt" where
  "VerificationRepo_Delete oc userID d =
     (case run_stmt oc (deleteSQL (user_int64 userID)) d of
        (Inl e, d') \<Rightarrow> (Err e, d')
      | (Inr n, d') \<Rightarrow> (if n = 0 then Err ErrVerificationNotFound else Ok (), d'))"

subsection \<open>Registration\<close>

record registration_policy =
  po_PinTTL :: duration
  po_ResendMinInterval :: duration
  po_MaxResendCount :: int
  po_MaxVerifyAttempts :: int
  po_CollisionRetries :: int

definition DefaultRegistrationPolicy :: registration_policy where
  "DefaultRegistrationPolicy =
     \<lparr>po_PinTTL = 10 * 60 * 1000000000, po_ResendMinInterval = 60 * 1000000000, po_MaxResendCount = 5,
      po_MaxVerifyAttempts = 5, po_CollisionRetries = 3\<rparr>"

record register_params =
  re_MailAddress :: mail_address
  re_Handle :: handle
  re_Password :: string

record pending_send =
  ps_to :: mail_address
  ps_pin :: pin

text \<open>
  What one transaction draws from its surroundings: the outcomes of its statements, clocks, the minted
  id, random bytes for the public code, the number of the PIN and the salts; and what other
  transactions commit before it starts, between two reads, and between its reads and its writes.
\<close>

record tx_context = txenv +
  tc_code :: "(unit, 8 word list) result"
  tc_pin :: "(unit, nat) result"
  tc_pin_salt :: nat
  tc_password_salt :: nat
  tc_clock :: instant
  tc_before :: "db \<Rightarrow> db"
  tc_reads :: "db \<Rightarrow> db"
  tc_between :: "db \<Rightarrow> db"

definition newHashedPIN :: "bcrypt_lib \<Rightarrow> tx_context \<Rightarrow> (store_error, pin \<times> string) result" where
  "newHashedPIN B env =
     (case NewPIN (tc_pin env) of
        Inl _ \<Rightarrow> Err ErrGeneratePIN
      | Inr p \<Rightarrow>
          (case pin_Hash B (tc_pin_salt env) p of Inl _ \<Rightarrow> Err ErrHashPIN | Inr h \<Rightarrow> Ok (p, h)))"

definition pending_user :: "register_params \<Rightarrow> string \<Rightarrow> user_create_params" where
  "pending_user params passwordHash =
     \<lparr>ucp_MailAddress = re_MailAddress params, ucp_Handle = re_Handle params,
      ucp_DisplayName = handle_display (re_Handle params), ucp_PasswordHash = passwordHash,
      ucp_Status = UserStatusPending\<rparr>"

definition createPending ::
  "text_lib \<Rightarrow> bcrypt_lib \<Rightarrow> registration_policy \<Rightarrow> tx_context \<Rightarrow> register_params \<Rightarrow> string \<Rightarrow> (user \<times> pin) stmt"
  where
  "createPending T B pol env params passwordHash d =
     (case newHashedPIN B env of
        Inl e \<Rightarrow> (Err e, d)
      | Inr (pin, pinHash) \<Rightarrow>
          (case UserRepo_Create T (tx_mint env) (tc_code env) (tx_now env) (tx_stmt env 1)
                  (pending_user params passwordHash) d of
             (Inl e, d') \<Rightarrow> (Err (if e = ErrMailAddressTaken then ErrMailAddressInsertRace else e), d')
           | (Inr user, d') \<Rightarrow>
               (case VerificationRepo_Create (tx_stmt env 2) (tx_now env)
                       \<lparr>vp_UserID = usr_ID user, vp_PinHash = pinHash,
                        vp_ExpiresAt = tc_clock env + po_PinTTL pol, vp_SentAt = tc_clock env\<rparr> d' of
                  (Inl e, d'') \<Rightarrow> (Err e, d'')
                | (Inr _, d'') \<Rightarrow> (Ok (user, pin), d''))))"

definition resendPending ::
  "bcrypt_lib \<Rightarrow> registration_policy \<Rightarrow> tx_context \<Rightarrow> user_id \<Rightarrow> pin stmt" where
  "resendPending B pol env userID d =
     (case newHashedPIN B env of
        Inl e \<Rightarrow> (Err e, d)
      | Inr (pin, pinHash) \<Rightarrow>
          (case VerificationRepo_Resend (tx_stmt env 1)
                  \<lparr>vp_UserID = userID, vp_PinHash = pinHash,
                   vp_ExpiresAt = tc_clock env + po_PinTTL pol, vp_SentAt = tc_clock env\<rparr>
                  \<lparr>rp_PreviousSentBefore = tc_clock env - po_ResendMinInterval pol,
                   rp_MaxResendCount = po_MaxResendCount pol\<rparr> d of
             (Inl e, d') \<Rightarrow> (Err e, d')
           | (Inr _, d') \<Rightarrow> (Ok pin, d')))"

text \<open>The closure of \<open>Register\<close>, its read on the database \<open>snap\<close>.\<close>

definition register_op ::
  "text_lib \<Rightarrow> bcrypt_lib \<Rightarrow> registration_policy \<Rightarrow> tx_context \<Rightarrow> register_params \<Rightarrow> db
     \<Rightarrow> (string \<times> pending_send) stmt" where
  "register_op T B pol env params snap d =
     (case FindByEmail T (tx_stmt env 0) (re_MailAddress params) snap of
        Inr existing \<Rightarrow>
          if usr_Status existing \<noteq> UserStatusPending then (Err ErrMailAddressTaken, d)
          else (case resendPending B pol env (usr_ID existing) d of
                  (Inl e, d') \<Rightarrow> (Err e, d')
                | (Inr pin, d') \<Rightarrow>
                    (Ok (FormatUser (usr_PublicCode existing),
                         \<lparr>ps_to = re_MailAddress params, ps_pin = pin\<rparr>), d'))
      | Inl e \<Rightarrow>
          if e \<noteq> ErrUserNotFound then (Err e, d)
          else (case HashPassword T B (tc_password_salt env) (re_Password params) of
                  Inl _ \<Rightarrow> (Err ErrHashPassword, d)
                | Inr passwordHash \<Rightarrow>
                    (case createPending T B pol env params passwordHash d of
                       (Inl e', d') \<Rightarrow> (Err e', d')
                     | (Inr (user, pin), d') \<Rightarrow>
                         (Ok (FormatUser (usr_PublicCode user),
                              \<lparr>ps_to = re_MailAddress params, ps_pin = pin\<rparr>), d'))))"

definition register_tx ::
  "text_lib \<Rightarrow> bcrypt_lib \<Rightarrow> registration_policy \<Rightarrow> register_params \<Rightarrow> tx_context \<Rightarrow> (string \<times> pending_send) stmt"
  where
  "register_tx T B pol params env d =
     (let snap = tc_before env d
      in WithinTx (txenv.truncate env) (register_op T B pol env params snap) (tc_between env snap))"

text \<open>
  \<open>runWithRegistrationRetry\<close> over the transaction \<open>tx\<close>, whose argument counts the runs; it returns that
  count too.
\<close>

function retry_loop :: "int \<Rightarrow> (nat \<Rightarrow> 'a stmt) \<Rightarrow> nat \<Rightarrow> bool \<Rightarrow> int \<Rightarrow> db \<Rightarrow> ((store_error, 'a) result \<times> db) \<times> nat" where
  "retry_loop limit tx k retriedEmailRace publicCodeCollisions d =
     (case tx k d of
        (res, d') \<Rightarrow>
          if res = Err ErrMailAddressInsertRace \<and> \<not> retriedEmailRace
          then retry_loop limit tx (Suc k) True publicCodeCollisions d'
          else if res = Err ErrUserPublicCodeCollision
          then if publicCodeCollisions \<ge> limit then ((res, d'), Suc k)
               else retry_loop limit tx (Suc k) retriedEmailRace (publicCodeCollisions + 1) d'
          else ((res, d'), Suc k))"
  by pat_completeness auto
termination
  by (relation "measure (\<lambda>(limit, _, _, retried, collisions, _).
        nat (limit - collisions) + (if retried then 0 else 1))") auto

declare retry_loop.simps [simp del]

definition Register ::
  "text_lib \<Rightarrow> bcrypt_lib \<Rightarrow> registration_policy \<Rightarrow> (nat \<Rightarrow> tx_context) \<Rightarrow> register_params
     \<Rightarrow> db \<Rightarrow> (store_error, string) result \<times> pending_send list \<times> db" where
  "Register T B pol env params d =
     (case fst (retry_loop (po_CollisionRetries pol) (\<lambda>k. register_tx T B pol params (env k)) 0 False 0 d) of
        (Inl e, d') \<Rightarrow> (Err e, [], d')
      | (Inr (code, send), d') \<Rightarrow> (Ok code, [send], d'))"

subsection \<open>Verification\<close>

text \<open>
  \<open>Verify\<close>: the closure returns whether the PIN was accepted; \<open>errVerifyInvalid\<close> is the outcome \<open>False\<close>,
  which commits. The reads see \<open>snap\<close> and \<open>snap2\<close>.
\<close>

definition verify_op ::
  "text_lib \<Rightarrow> bcrypt_lib \<Rightarrow> registration_policy \<Rightarrow> tx_context \<Rightarrow> mail_address \<Rightarrow> string \<Rightarrow> db \<Rightarrow> db \<Rightarrow> bool stmt"
  where
  "verify_op T B pol env mail rawPIN snap snap2 d =
     (case FindByEmail T (tx_stmt env 0) mail snap of
        Inl e \<Rightarrow> if e = ErrUserNotFound then (Ok False, d) else (Err e, d)
      | Inr user \<Rightarrow>
      if usr_Status user \<noteq> UserStatusPending then (Ok False, d)
      else case FindByUser (tx_stmt env 1) (usr_ID user) snap2 of
        Inl e \<Rightarrow> if e = ErrVerificationNotFound then (Ok False, d) else (Err e, d)
      | Inr challenge \<Rightarrow>
      if vf_Attempts challenge \<ge> po_MaxVerifyAttempts pol then (Ok False, d)
      else if Expired challenge (tc_clock env) then (Ok False, d)
      else case pin_Verify B (vf_PinHash challenge) rawPIN of
        Inl _ \<Rightarrow>
          (case IncrementAttempts (tx_stmt env 2) (usr_ID user) d of
             (Inl e, d') \<Rightarrow> (Err e, d')
           | (Inr _, d') \<Rightarrow> (Ok False, d'))
      | Inr _ \<Rightarrow>
          (case SetStatus (tx_stmt env 2) (tx_now env) (usr_ID user) UserStatusActive d of
             (Inl e, d') \<Rightarrow> (Err e, d')
           | (Inr _, d') \<Rightarrow>
               (case VerificationRepo_Delete (tx_stmt env 3) (usr_ID user) d' of
                  (Inl e, d'') \<Rightarrow> (Err e, d'')
                | (Inr _, d'') \<Rightarrow> (Ok True, d''))))"

datatype verify_error = ErrVerifyInvalid | ErrVerifyStore store_error

definition Verify ::
  "text_lib \<Rightarrow> bcrypt_lib \<Rightarrow> registration_policy \<Rightarrow> tx_context \<Rightarrow> mail_address \<Rightarrow> string
     \<Rightarrow> db \<Rightarrow> (verify_error, unit) result \<times> db" where
  "Verify T B pol env mail rawPIN d =
     (let snap = tc_before env d; snap2 = tc_reads env snap
      in case WithinTx (txenv.truncate env) (verify_op T B pol env mail rawPIN snap snap2) (tc_between env snap2) of
           (Inl e, d') \<Rightarrow> (Err (ErrVerifyStore e), d')
         | (Inr accepted, d') \<Rightarrow> (if accepted then Ok () else Err ErrVerifyInvalid, d'))"

text \<open>\<open>Resend\<close>; an address without a pending account is a silent success.\<close>

definition resend_op ::
  "text_lib \<Rightarrow> bcrypt_lib \<Rightarrow> registration_policy \<Rightarrow> tx_context \<Rightarrow> mail_address \<Rightarrow> db \<Rightarrow> pending_send option stmt" where
  "resend_op T B pol env mail snap d =
     (case FindByEmail T (tx_stmt env 0) mail snap of
        Inl e \<Rightarrow> if e = ErrUserNotFound then (Ok None, d) else (Err e, d)
      | Inr user \<Rightarrow>
          if usr_Status user \<noteq> UserStatusPending then (Ok None, d)
          else (case resendPending B pol env (usr_ID user) d of
                  (Inl e, d') \<Rightarrow> (Err e, d')
                | (Inr pin, d') \<Rightarrow> (Ok (Some \<lparr>ps_to = mail, ps_pin = pin\<rparr>), d')))"

definition Resend ::
  "text_lib \<Rightarrow> bcrypt_lib \<Rightarrow> registration_policy \<Rightarrow> tx_context \<Rightarrow> mail_address
     \<Rightarrow> db \<Rightarrow> (store_error, unit) result \<times> pending_send list \<times> db" where
  "Resend T B pol env mail d =
     (let snap = tc_before env d
      in case WithinTx (txenv.truncate env) (resend_op T B pol env mail snap) (tc_between env snap) of
           (Inl e, d') \<Rightarrow> (Err e, [], d')
         | (Inr send, d') \<Rightarrow> (Ok (), (case send of None \<Rightarrow> [] | Some s \<Rightarrow> [s]), d'))"

subsection \<open>The sweep of abandoned accounts\<close>

datatype sweeper_error = ErrInvalidGrace

datatype sweeper = Sweeper (sw_grace: duration)

definition NewSweeper :: "duration \<Rightarrow> (sweeper_error, sweeper) result" where
  "NewSweeper grace = (if grace < 0 then Err ErrInvalidGrace else Ok (Sweeper grace))"

text \<open>
  \<open>sweepSQL\<close>: the rows the statement's snapshot selects, locked one by one; a row that changed meanwhile is
  checked again. Rows of other tables that refer to a deleted account without \<open>ON DELETE\<close> fail the
  statement; challenges go with their account.
\<close>

definition abandoned :: "instant \<Rightarrow> db \<Rightarrow> service_user \<Rightarrow> bool" where
  "abandoned cutoff d u \<longleftrightarrow>
     su_status u = UserStatusPending
     \<and> list_ex (\<lambda>ev. vr_user_id ev = su_id u \<and> vr_expires_at ev < cutoff) (t_verifications d)"

definition swept :: "instant \<Rightarrow> db \<Rightarrow> service_user \<Rightarrow> bool" where
  "swept cutoff snap u \<longleftrightarrow>
     list_ex (\<lambda>u'. su_id u' = su_id u \<and> su_status u' = UserStatusPending) (t_users snap) \<and> abandoned cutoff snap u"

definition user_referenced :: "db \<Rightarrow> int \<Rightarrow> bool" where
  "user_referenced d uid \<longleftrightarrow>
     list_ex (\<lambda>r. rm_created_by r = uid) (t_rooms d) \<or> list_ex (\<lambda>m. mb_user m = uid) (t_memberships d)
     \<or> list_ex (\<lambda>e. ev_user e = uid) (t_events d)"

definition sweepSQL :: "instant \<Rightarrow> db \<Rightarrow> nat stmt" where
  "sweepSQL cutoff snap d =
     (let gone = filter (swept cutoff snap) (t_users d)
      in if list_ex (\<lambda>u. user_referenced d (su_id u)) gone then (Err ErrForeignKey, d)
         else (Ok (length gone),
               d\<lparr>t_users := filter (\<lambda>u. \<not> swept cutoff snap u) (t_users d),
                 t_verifications := filter (\<lambda>v. vr_user_id v \<notin> su_id ` set gone) (t_verifications d)\<rparr>))"

text \<open>\<open>Sweep\<close>, with whether the advisory lock was free.\<close>

definition sweep_op :: "tx_context \<Rightarrow> bool \<Rightarrow> instant \<Rightarrow> db \<Rightarrow> nat stmt" where
  "sweep_op env locked cutoff snap d =
     (if tx_stmt env 0 \<noteq> Acked then (Err ErrConn, d)
      else if \<not> locked then (Ok 0, d)
      else run_stmt (tx_stmt env 1) (sweepSQL cutoff snap) d)"

definition Sweep :: "sweeper \<Rightarrow> tx_context \<Rightarrow> bool \<Rightarrow> instant \<Rightarrow> db \<Rightarrow> (store_error, nat) result \<times> db" where
  "Sweep s env locked now d =
     (let snap = tc_before env d
      in WithinTx (txenv.truncate env) (sweep_op env locked (now - sw_grace s) snap) (tc_between env snap))"

subsection \<open>The invariant\<close>

text \<open>
  The constraints of the two tables, and what the service maintains on top of them: the accounts that
  await verification are exactly those with a challenge.
\<close>

definition accounts_ok :: "service_user list \<Rightarrow> verification_row list \<Rightarrow> bool" where
  "accounts_ok us vs \<longleftrightarrow>
     distinct (map su_id us) \<and> distinct (map su_public_code us)
     \<and> distinct (map su_mail_address us) \<and> distinct (map su_handle_norm us)
     \<and> distinct (map vr_user_id vs)
     \<and> vr_user_id ` set vs = {su_id u | u. u \<in> set us \<and> su_status u = UserStatusPending}
     \<and> (\<forall>v \<in> set vs. 0 \<le> vr_attempts v \<and> 0 \<le> vr_resend_count v)"

definition accounts_inv :: "db \<Rightarrow> bool" where
  "accounts_inv d \<longleftrightarrow> accounts_ok (t_users d) (t_verifications d)"

lemma map_key_update:
  "\<forall>x. g (f x) = g x \<Longrightarrow> map g (map (\<lambda>x. if p x then f x else x) xs) = map g xs"
  by (induction xs) auto

lemma accounts_okD:
  assumes "accounts_ok us vs"
  shows "distinct (map su_id us)" "distinct (map vr_user_id vs)"
    and "uid \<in> vr_user_id ` set vs \<longleftrightarrow> (\<exists>u \<in> set us. su_id u = uid \<and> su_status u = UserStatusPending)"
  using assms by (auto simp: accounts_ok_def)

text \<open>Rows of the challenge table change in place.\<close>

lemma accounts_ok_update:
  assumes "accounts_ok us vs" and "\<And>v. vr_user_id (f v) = vr_user_id v"
    and "\<And>v. 0 \<le> vr_attempts v \<Longrightarrow> 0 \<le> vr_resend_count v \<Longrightarrow> 0 \<le> vr_attempts (f v) \<and> 0 \<le> vr_resend_count (f v)"
  shows "accounts_ok us (map (\<lambda>v. if sel v then f v else v) vs)"
proof -
  define vs' where "vs' = map (\<lambda>v. if sel v then f v else v) vs"
  have ids: "map vr_user_id vs' = map vr_user_id vs"
    unfolding vs'_def using assms(2) by (intro map_key_update) simp
  then have "vr_user_id ` set vs' = vr_user_id ` set vs" by (metis list.set_map)
  moreover have "\<forall>v \<in> set vs'. 0 \<le> vr_attempts v \<and> 0 \<le> vr_resend_count v"
    using assms(1,3) by (auto simp: accounts_ok_def vs'_def)
  ultimately show ?thesis using assms(1) ids unfolding vs'_def [symmetric] by (simp add: accounts_ok_def)
qed

text \<open>A new account comes with its challenge.\<close>

lemma accounts_ok_insert:
  assumes "accounts_ok us vs" "su_status u = UserStatusPending" "vr_user_id v = su_id u"
    and "su_id u \<notin> su_id ` set us" "su_public_code u \<notin> su_public_code ` set us"
    and "su_mail_address u \<notin> su_mail_address ` set us" "su_handle_norm u \<notin> su_handle_norm ` set us"
    and "vr_attempts v = 0" "vr_resend_count v = 0"
  shows "accounts_ok (us @ [u]) (vs @ [v])"
proof -
  have "su_id u \<notin> vr_user_id ` set vs" using assms(4) accounts_okD(3) [OF assms(1), of "su_id u"] by (metis imageI)
  moreover have "{su_id x | x. x \<in> set (us @ [u]) \<and> su_status x = UserStatusPending} =
      insert (su_id u) {su_id x | x. x \<in> set us \<and> su_status x = UserStatusPending}"
    using assms(2) by auto
  ultimately show ?thesis using assms by (simp add: accounts_ok_def)
qed

text \<open>An activated account loses its challenge.\<close>

lemma accounts_ok_activate:
  assumes "accounts_ok us vs"
  shows "accounts_ok (map (\<lambda>u. if su_id u = uid then u\<lparr>su_status := UserStatusActive, su_updated_at := now\<rparr> else u) us)
    (filter (\<lambda>v. vr_user_id v \<noteq> uid) vs)"
proof -
  define us' where "us' = map (\<lambda>u. if su_id u = uid then u\<lparr>su_status := UserStatusActive, su_updated_at := now\<rparr> else u) us"
  have "map su_id us' = map su_id us" "map su_public_code us' = map su_public_code us"
    "map su_mail_address us' = map su_mail_address us" "map su_handle_norm us' = map su_handle_norm us"
    unfolding us'_def by (rule map_key_update; simp)+
  moreover have "{u. u \<in> set us' \<and> su_status u = UserStatusPending} =
      {u. u \<in> set us \<and> su_id u \<noteq> uid \<and> su_status u = UserStatusPending}"
    by (auto simp: us'_def)
  then have "{su_id u | u. u \<in> set us' \<and> su_status u = UserStatusPending} =
      {su_id u | u. u \<in> set us \<and> su_status u = UserStatusPending} - {uid}"
    unfolding set_eq_iff mem_Collect_eq by blast
  moreover have "vr_user_id ` set (filter (\<lambda>v. vr_user_id v \<noteq> uid) vs) = vr_user_id ` set vs - {uid}" by auto
  moreover have "distinct (map vr_user_id (filter (\<lambda>v. vr_user_id v \<noteq> uid) vs))"
    using assms by (simp add: accounts_ok_def distinct_map_filter)
  ultimately show ?thesis
    using assms unfolding us'_def [symmetric] accounts_ok_def by simp
qed

text \<open>A removed account takes its challenge along.\<close>

lemma accounts_ok_remove:
  assumes "accounts_ok us vs"
  shows "accounts_ok (filter (\<lambda>u. \<not> p u) us) (filter (\<lambda>v. vr_user_id v \<notin> su_id ` set (filter p us)) vs)"
proof -
  let ?us = "filter (\<lambda>u. \<not> p u) us" and ?gone = "su_id ` set (filter p us)"
  have "inj_on su_id (set us)" using assms by (simp add: accounts_ok_def distinct_map)
  then have "{su_id u | u. u \<in> set ?us \<and> su_status u = UserStatusPending} =
      {su_id u | u. u \<in> set us \<and> su_status u = UserStatusPending} - ?gone"
    by (auto dest: inj_onD)
  moreover have "vr_user_id ` set (filter (\<lambda>v. vr_user_id v \<notin> ?gone) vs) = vr_user_id ` set vs - ?gone" by auto
  ultimately show ?thesis using assms by (simp add: accounts_ok_def distinct_map_filter)
qed

subsection \<open>The statements keep it\<close>

lemma userInsertSQL_Ok:
  assumes "userInsertSQL u d = (Ok r, d')"
  shows "r = u" "d' = d\<lparr>t_users := t_users d @ [u]\<rparr>"
    and "su_id u \<notin> su_id ` set (t_users d)" "su_public_code u \<notin> su_public_code ` set (t_users d)"
    and "su_mail_address u \<notin> su_mail_address ` set (t_users d)" "su_handle_norm u \<notin> su_handle_norm ` set (t_users d)"
  using assms by (auto simp: userInsertSQL_def split: if_splits)

lemma UserRepo_Create_Ok:
  assumes "UserRepo_Create T mint rnd now oc p d = (Ok user, d')"
  obtains row where "d' = d\<lparr>t_users := t_users d @ [row]\<rparr>" "userRow_toDomain T row = Ok user"
    "su_status row = ucp_Status p" "su_mail_address row = mail_string (ucp_MailAddress p)"
    "su_password_hash row = ucp_PasswordHash p" "oc = Acked" "mint = Ok (su_id row)" "0 < su_id row"
    "su_id row \<notin> su_id ` set (t_users d)" "su_public_code row \<notin> su_public_code ` set (t_users d)"
    "su_mail_address row \<notin> su_mail_address ` set (t_users d)" "su_handle_norm row \<notin> su_handle_norm ` set (t_users d)"
proof -
  define row where "row w code = \<lparr>su_id = w, su_public_code = code_string code,
      su_mail_address = mail_string (ucp_MailAddress p), su_handle = handle_display (ucp_Handle p),
      su_handle_norm = handle_normalized (ucp_Handle p), su_display_name = ucp_DisplayName p,
      su_password_hash = ucp_PasswordHash p, su_status = ucp_Status p, su_created_at = now, su_updated_at = now\<rparr>"
    for w code
  obtain w code r where m: "mint = Ok w" "0 < w" and ins: "run_stmt oc (userInsertSQL (row w code)) d = (Ok r, d')"
    and dom: "userRow_toDomain T r = Ok user"
    using assms unfolding row_def by (auto simp: UserRepo_Create_def split: sum.splits prod.splits)
  have "oc = Acked" "userInsertSQL (row w code) d = (Ok r, d')" using ins by (simp_all add: run_stmt_Ok)
  then show thesis
    using m dom userInsertSQL_Ok [of "row w code" d r d'] by (intro that [of "row w code"]) (auto simp: row_def)
qed

lemma VerificationRepo_Create_Ok:
  assumes "VerificationRepo_Create oc now p d = (Ok u, d')"
  shows "oc = Acked" and "d' = d\<lparr>t_verifications := t_verifications d @
    [\<lparr>vr_user_id = user_int64 (vp_UserID p), vr_pin_hash = vp_PinHash p, vr_expires_at = vp_ExpiresAt p,
      vr_attempts = 0, vr_resend_count = 0, vr_last_sent_at = Some (vp_SentAt p), vr_created_at = now\<rparr>]\<rparr>"
  using assms by (cases oc; auto simp: VerificationRepo_Create_def createSQL_def Let_def split: if_splits)+

text \<open>Registration writes an account and its challenge, or nothing.\<close>

lemma createPending_Ok:
  assumes "createPending T B pol env params hash d = (Ok (user, pin), d')"
  obtains row v pinHash where "d' = d\<lparr>t_users := t_users d @ [row], t_verifications := t_verifications d @ [v]\<rparr>"
    "newHashedPIN B env = Ok (pin, pinHash)"
    "userRow_toDomain T row = Ok user" "su_status row = UserStatusPending"
    "su_mail_address row = mail_string (re_MailAddress params)" "su_password_hash row = hash"
    "tx_mint env = Ok (su_id row)" "0 < su_id row"
    "su_id row \<notin> su_id ` set (t_users d)" "su_public_code row \<notin> su_public_code ` set (t_users d)"
    "su_mail_address row \<notin> su_mail_address ` set (t_users d)" "su_handle_norm row \<notin> su_handle_norm ` set (t_users d)"
    "vr_user_id v = su_id row" "vr_pin_hash v = pinHash" "vr_expires_at v = tc_clock env + po_PinTTL pol"
    "vr_attempts v = 0" "vr_resend_count v = 0"
proof -
  obtain pinHash d1 where h: "newHashedPIN B env = Ok (pin, pinHash)"
    and c: "UserRepo_Create T (tx_mint env) (tc_code env) (tx_now env) (tx_stmt env 1) (pending_user params hash) d = (Ok user, d1)"
    and v: "VerificationRepo_Create (tx_stmt env 2) (tx_now env)
        \<lparr>vp_UserID = usr_ID user, vp_PinHash = pinHash, vp_ExpiresAt = tc_clock env + po_PinTTL pol,
         vp_SentAt = tc_clock env\<rparr> d1 = (Ok (), d')"
    using assms by (auto simp: createPending_def split: sum.splits prod.splits)
  show ?thesis
  proof (rule UserRepo_Create_Ok [OF c])
    fix row
    assume row: "d1 = d\<lparr>t_users := t_users d @ [row]\<rparr>" "userRow_toDomain T row = Ok user"
      and rest: "su_status row = ucp_Status (pending_user params hash)"
        "su_mail_address row = mail_string (ucp_MailAddress (pending_user params hash))"
        "su_password_hash row = ucp_PasswordHash (pending_user params hash)"
        "tx_mint env = Ok (su_id row)" "0 < su_id row"
        "su_id row \<notin> su_id ` set (t_users d)" "su_public_code row \<notin> su_public_code ` set (t_users d)"
        "su_mail_address row \<notin> su_mail_address ` set (t_users d)" "su_handle_norm row \<notin> su_handle_norm ` set (t_users d)"
    have "user_int64 (usr_ID user) = su_id row" using userRow_toDomain_Ok [OF row(2)] by simp
    then show thesis
      using VerificationRepo_Create_Ok(2) [OF v] row rest h by (intro that) (auto simp: pending_user_def)
  qed
qed

lemma createPending_inv:
  assumes "accounts_inv d" and "createPending T B pol env params hash d = (Ok x, d')"
  shows "accounts_inv d'"
proof -
  obtain user pin where "createPending T B pol env params hash d = (Ok (user, pin), d')"
    using assms(2) by (cases x) auto
  then show ?thesis
    by (rule createPending_Ok) (use assms(1) in \<open>simp add: accounts_inv_def accounts_ok_insert\<close>)
qed

text \<open>A resend changes at most the challenge of one account.\<close>

lemma resendSQL_inv: "accounts_inv d \<Longrightarrow> accounts_inv (snd (resendSQL p policy d))"
  by (auto simp: accounts_inv_def resendSQL_def Let_def update_challenge_def intro!: accounts_ok_update)

lemma resendPending_inv:
  assumes "accounts_inv d"
  shows "accounts_inv (snd (resendPending B pol env uid d))"
proof -
  have "accounts_inv (snd (VerificationRepo_Resend oc p policy d))" for oc p policy
    using assms resendSQL_inv [OF assms] run_stmt_inv [of accounts_inv d "resendSQL p policy" oc]
    by (auto simp: VerificationRepo_Resend_def split: sum.splits prod.splits)
  then show ?thesis using assms
    by (auto simp: resendPending_def split: sum.splits prod.splits) (metis snd_conv)+
qed

lemma register_op_inv:
  assumes "accounts_inv d" and "register_op T B pol env params snap d = (Ok x, d')"
  shows "accounts_inv d'"
  using assms(2) createPending_inv [OF assms(1)] resendPending_inv [OF assms(1), of B pol env]
  by (auto simp: register_op_def split: sum.splits prod.splits if_splits) (metis snd_conv)+

lemma resend_op_inv:
  assumes "accounts_inv d" and "resend_op T B pol env mail snap d = (Ok x, d')"
  shows "accounts_inv d'"
  using assms resendPending_inv [OF assms(1), of B pol env]
  by (auto simp: resend_op_def split: sum.splits prod.splits if_splits) (metis snd_conv)+

lemma incrementAttemptsSQL_inv: "accounts_inv d \<Longrightarrow> accounts_inv (snd (incrementAttemptsSQL uid d))"
  by (auto simp: accounts_inv_def incrementAttemptsSQL_def update_challenge_def intro!: accounts_ok_update)

lemma IncrementAttempts_inv:
  assumes "accounts_inv d"
  shows "accounts_inv (snd (IncrementAttempts oc uid d))"
  using assms incrementAttemptsSQL_inv [OF assms, of "user_int64 uid"]
    run_stmt_inv [of accounts_inv d "incrementAttemptsSQL (user_int64 uid)" oc]
  by (auto simp: IncrementAttempts_def split: sum.splits prod.splits option.splits)

lemma activation_Ok:
  assumes "SetStatus oc now uid UserStatusActive d = (Ok u, d1)" "VerificationRepo_Delete oc' uid d1 = (Ok u', d2)"
  shows "d2 = d\<lparr>t_users := map (\<lambda>u. if su_id u = user_int64 uid
        then u\<lparr>su_status := UserStatusActive, su_updated_at := now\<rparr> else u) (t_users d),
      t_verifications := filter (\<lambda>v. vr_user_id v \<noteq> user_int64 uid) (t_verifications d)\<rparr>"
    and "user_int64 uid \<in> su_id ` set (t_users d)" "user_int64 uid \<in> vr_user_id ` set (t_verifications d)"
  using assms
  by (auto simp: SetStatus_def VerificationRepo_Delete_def update_user_sql_def deleteSQL_def run_stmt_def filter_empty_conv
      split: sum.splits prod.splits outcome.splits if_splits intro: rev_image_eqI)

lemma verify_op_inv:
  assumes "accounts_inv d" and "verify_op T B pol env mail raw snap snap2 d = (Ok x, d')"
  shows "accounts_inv d'"
proof -
  have act: "accounts_inv d2"
    if "SetStatus oc now uid UserStatusActive d = (Ok u, d1)" "VerificationRepo_Delete oc' uid d1 = (Ok u', d2)"
    for oc now uid u d1 oc' u' d2
    using assms(1) unfolding activation_Ok(1) [OF that] accounts_inv_def by (simp add: accounts_ok_activate)
  show ?thesis
    using assms act IncrementAttempts_inv [OF assms(1)]
    by (auto simp: verify_op_def split: sum.splits prod.splits if_splits) (metis snd_conv)+
qed

lemma sweep_op_inv:
  assumes "accounts_inv d" and "sweep_op env locked cutoff snap d = (Ok x, d')"
  shows "accounts_inv d'"
  using assms accounts_ok_remove [of "t_users d" "t_verifications d" "swept cutoff snap"]
  by (auto simp: sweep_op_def run_stmt_Ok sweepSQL_def Let_def accounts_inv_def split: if_splits)

end
