(* ===== verification/AccountLifecycle.thy ===== *)
theory AccountLifecycle
  imports Accounts
begin

text \<open>
  What the account operations promise together: the invariant of the two tables under every
  interleaving, the decision \<open>Verify\<close> takes, the budget of wrong PINs, the sweep and the retries.
\<close>

subsection \<open>Settled accounts\<close>

text \<open>An account that is active or disabled keeps its identity and its status.\<close>

definition settled :: "db \<Rightarrow> db \<Rightarrow> bool" where
  "settled d d' \<longleftrightarrow>
     (\<forall>u \<in> set (t_users d). su_status u \<noteq> UserStatusPending \<longrightarrow>
        (\<exists>u' \<in> set (t_users d'). su_id u' = su_id u \<and> su_status u' = su_status u
           \<and> su_mail_address u' = su_mail_address u \<and> su_public_code u' = su_public_code u))"

lemma settled_refl [simp]: "settled d d"
  by (auto simp: settled_def)

lemma settled_trans: "settled d d' \<Longrightarrow> settled d' d'' \<Longrightarrow> settled d d''"
  unfolding settled_def by metis

lemma settled_users: "set (t_users d) \<subseteq> set (t_users d') \<Longrightarrow> settled d d'"
  by (auto simp: settled_def)

lemma challenge_pending:
  assumes "accounts_inv d" "u \<in> set (t_users d)" "su_id u \<in> vr_user_id ` set (t_verifications d)"
  shows "su_status u = UserStatusPending"
proof -
  have ok: "accounts_ok (t_users d) (t_verifications d)" using assms(1) by (simp add: accounts_inv_def)
  then obtain u' where "u' \<in> set (t_users d)" "su_id u' = su_id u" "su_status u' = UserStatusPending"
    using assms(3) accounts_okD(3) by metis
  moreover have "inj_on su_id (set (t_users d))" using accounts_okD(1) [OF ok] by (simp add: distinct_map)
  ultimately show ?thesis using assms(2) by (auto dest: inj_onD)
qed

text \<open>The contract of a transaction's body, and what a transaction makes of it however it ends.\<close>

locale account_tx =
  fixes body :: "'c \<Rightarrow> 'a stmt"
  assumes keeps: "accounts_inv d \<Longrightarrow> body c d = (Ok x, d') \<Longrightarrow> accounts_inv d'"
    and settles: "accounts_inv d \<Longrightarrow> body c d = (Ok x, d') \<Longrightarrow> settled d d'"
begin

lemma tx_keeps:
  assumes "accounts_inv d" and "WithinTx env (body c) d = (res, d')"
  shows "accounts_inv d'"
  using WithinTx_inv [of accounts_inv d "body c" env] assms keeps by force

lemma tx_settles:
  assumes "accounts_inv d" and "WithinTx env (body c) d = (res, d')"
  shows "settled d d'"
  using WithinTx_inv [of "settled d" d "body c" env] assms settles by force

end

lemma resendPending_users: "t_users (snd (resendPending B pol env uid d)) = t_users d"
  by (auto simp: resendPending_def VerificationRepo_Resend_def resendSQL_def run_stmt_def update_challenge_def Let_def
      split: sum.splits prod.splits outcome.splits)

lemma IncrementAttempts_users: "t_users (snd (IncrementAttempts oc uid d)) = t_users d"
  by (auto simp: IncrementAttempts_def incrementAttemptsSQL_def run_stmt_def update_challenge_def
      split: sum.splits prod.splits outcome.splits option.splits)

lemma settled_resend: "resendPending B pol env uid d = (res, d') \<Longrightarrow> settled d d'"
  using resendPending_users [of B pol env uid d] by (simp add: settled_users)

lemma settled_create: "createPending T B pol env params hash d = (Ok x, d') \<Longrightarrow> settled d d'"
  by (cases x) (auto elim!: createPending_Ok intro!: settled_users)

lemma settled_activation:
  assumes "accounts_inv d" "SetStatus oc now uid UserStatusActive d = (Ok u, d1)"
    and "VerificationRepo_Delete oc' uid d1 = (Ok u', d2)"
  shows "settled d d2"
proof -
  note act = activation_Ok [OF assms(2,3)]
  have "su_id u \<noteq> user_int64 uid" if "u \<in> set (t_users d)" "su_status u \<noteq> UserStatusPending" for u
    using challenge_pending [OF assms(1) that(1)] that(2) act(3) by metis
  then show ?thesis unfolding settled_def act(1) by force
qed

interpretation registering: account_tx
  "\<lambda>(T, B, pol, env, params, snap). register_op T B pol env params snap"
proof unfold_locales
  show "accounts_inv d'" if "accounts_inv d"
    "(case c of (T, B, pol, env, params, snap) \<Rightarrow> register_op T B pol env params snap) d = (Ok x, d')" for d c x d'
    using that by (cases c) (auto intro: register_op_inv)
  show "settled d d'" if "accounts_inv d"
    "(case c of (T, B, pol, env, params, snap) \<Rightarrow> register_op T B pol env params snap) d = (Ok x, d')" for d c x d'
    using that
    by (cases c) (auto simp: register_op_def split: sum.splits prod.splits if_splits intro: settled_resend settled_create)
qed

interpretation verifying: account_tx
  "\<lambda>(T, B, pol, env, mail, raw, snap, snap2). verify_op T B pol env mail raw snap snap2"
proof unfold_locales
  show "accounts_inv d'" if "accounts_inv d"
    "(case c of (T, B, pol, env, mail, raw, snap, snap2) \<Rightarrow> verify_op T B pol env mail raw snap snap2) d = (Ok x, d')"
    for d c x d'
    using that by (cases c) (auto intro: verify_op_inv)
  show "settled d d'" if "accounts_inv d"
    "(case c of (T, B, pol, env, mail, raw, snap, snap2) \<Rightarrow> verify_op T B pol env mail raw snap snap2) d = (Ok x, d')"
    for d c x d'
  proof -
    have "settled d d2" if "IncrementAttempts oc uid d = (res, d2)" for oc uid res d2
      using IncrementAttempts_users [of oc uid d] that by (simp add: settled_users)
    then show ?thesis using that
      by (cases c) (auto simp: verify_op_def split: sum.splits prod.splits if_splits intro: settled_activation)
  qed
qed

interpretation resending: account_tx
  "\<lambda>(T, B, pol, env, mail, snap). resend_op T B pol env mail snap"
proof unfold_locales
  show "accounts_inv d'" if "accounts_inv d"
    "(case c of (T, B, pol, env, mail, snap) \<Rightarrow> resend_op T B pol env mail snap) d = (Ok x, d')" for d c x d'
    using that by (cases c) (auto intro: resend_op_inv)
  show "settled d d'" if "accounts_inv d"
    "(case c of (T, B, pol, env, mail, snap) \<Rightarrow> resend_op T B pol env mail snap) d = (Ok x, d')" for d c x d'
    using that by (cases c) (auto simp: resend_op_def split: sum.splits prod.splits if_splits intro: settled_resend)
qed

interpretation sweeping: account_tx
  "\<lambda>(env, locked, cutoff, snap). sweep_op env locked cutoff snap"
proof unfold_locales
  show "accounts_inv d'" if "accounts_inv d"
    "(case c of (env, locked, cutoff, snap) \<Rightarrow> sweep_op env locked cutoff snap) d = (Ok x, d')" for d c x d'
    using that by (cases c) (auto intro: sweep_op_inv)
  show "settled d d'" if "accounts_inv d"
    "(case c of (env, locked, cutoff, snap) \<Rightarrow> sweep_op env locked cutoff snap) d = (Ok x, d')" for d c x d'
    using that
    by (cases c) (auto simp: sweep_op_def run_stmt_Ok sweepSQL_def Let_def settled_def swept_def abandoned_def split: if_splits)
qed

subsection \<open>The retries of a registration\<close>

lemma retry_loop_step:
  "tx k d = (res, d') \<Longrightarrow>
     retry_loop limit tx k r c d =
       (if res = Err ErrMailAddressInsertRace \<and> \<not> r then retry_loop limit tx (Suc k) True c d'
        else if res = Err ErrUserPublicCodeCollision \<and> c < limit then retry_loop limit tx (Suc k) r (c + 1) d'
        else ((res, d'), Suc k))"
  by (subst retry_loop.simps) auto

lemma retry_loop_rel:
  assumes "\<And>k d res d'. I d \<Longrightarrow> tx k d = (res, d') \<Longrightarrow> I d'" and "I d"
  shows "I (snd (fst (retry_loop limit tx k r c d)))"
  using assms
proof (induction limit tx k r c d rule: retry_loop.induct)
  case (1 limit tx k r c d)
  obtain res d' where tx: "tx k d = (res, d')" by fastforce
  have "I d'" using 1(3,4) tx by blast
  then show ?case using 1(1) [OF tx [symmetric]] 1(2) [OF tx [symmetric]] 1(3)
    by (auto simp: retry_loop_step [of tx k d, OF tx])
qed

lemma retry_loop_runs:
  fixes limit c :: int
  assumes "0 \<le> c"
  shows "snd (retry_loop limit tx k r c d) \<le> k + nat (limit - c) + (if r then 1 else 2)
    \<and> k < snd (retry_loop limit tx k r c d)
    \<and> (fst (fst (retry_loop limit tx k r c d)) = Err ErrUserPublicCodeCollision \<longrightarrow>
         k + nat (limit - c) < snd (retry_loop limit tx k r c d))"
  using assms
proof (induction limit tx k r c d rule: retry_loop.induct)
  case (1 limit tx k r c d)
  obtain res d' where tx: "tx k d = (res, d')" by fastforce
  show ?case using 1(1) [OF tx [symmetric]] 1(2) [OF tx [symmetric]] 1(3)
    by (auto simp: retry_loop_step [of tx k d, OF tx])
qed

subsection \<open>Every interleaving\<close>

text \<open>
  How the database gets from one state to another: requests of the service, whose statements interleave
  with whatever else happens in the same way, sweeps, password re-hashes, and transactions that leave
  the two tables alone.
\<close>

inductive areach :: "text_lib \<Rightarrow> bcrypt_lib \<Rightarrow> registration_policy \<Rightarrow> db \<Rightarrow> db \<Rightarrow> bool" for T B pol where
  stay: "areach T B pol d d"
| chain: "areach T B pol d d1 \<Longrightarrow> areach T B pol d1 d2 \<Longrightarrow> areach T B pol d d2"
| elsewhere: "t_users d' = t_users d \<Longrightarrow> t_verifications d' = t_verifications d \<Longrightarrow> areach T B pol d d'"
| rehash: "SetPasswordHash oc now uid hash d = (r, d') \<Longrightarrow> areach T B pol d d'"
| register: "(\<And>k d. areach T B pol d (tc_before (env k) d)) \<Longrightarrow> (\<And>k d. areach T B pol d (tc_between (env k) d)) \<Longrightarrow>
    Register T B pol env params d = (r, sends, d') \<Longrightarrow> areach T B pol d d'"
| verify: "(\<And>d. areach T B pol d (tc_before env d)) \<Longrightarrow> (\<And>d. areach T B pol d (tc_reads env d)) \<Longrightarrow>
    (\<And>d. areach T B pol d (tc_between env d)) \<Longrightarrow>
    Verify T B pol env mail raw d = (v, d') \<Longrightarrow> areach T B pol d d'"
| resend: "(\<And>d. areach T B pol d (tc_before env d)) \<Longrightarrow> (\<And>d. areach T B pol d (tc_between env d)) \<Longrightarrow>
    Resend T B pol env mail d = (u, sends, d') \<Longrightarrow> areach T B pol d d'"
| sweep: "(\<And>d. areach T B pol d (tc_before env d)) \<Longrightarrow> (\<And>d. areach T B pol d (tc_between env d)) \<Longrightarrow>
    Sweep s env locked now d = (n, d') \<Longrightarrow> areach T B pol d d'"

text \<open>A relation that the operations respect: the invariant holds and settled accounts stay.\<close>

definition sound :: "db \<Rightarrow> db \<Rightarrow> bool" where
  "sound d d' \<longleftrightarrow> (accounts_inv d \<longrightarrow> accounts_inv d' \<and> settled d d')"

lemma sound_refl [simp]: "sound d d"
  by (simp add: sound_def)

lemma sound_trans [trans]: "sound d d' \<Longrightarrow> sound d' d'' \<Longrightarrow> sound d d''"
  unfolding sound_def using settled_trans by blast

lemma register_tx_sound:
  assumes "\<And>d. sound d (tc_before env d)" "\<And>d. sound d (tc_between env d)"
    and "register_tx T B pol params env d = (res, d')"
  shows "sound d d'"
proof -
  let ?snap = "tc_before env d"
  have "sound (tc_between env ?snap) d'"
    using assms(3) registering.tx_keeps [of _ _ "(T, B, pol, env, params, ?snap)"]
      registering.tx_settles [of _ _ "(T, B, pol, env, params, ?snap)"]
    by (auto simp: register_tx_def Let_def sound_def)
  then show ?thesis using assms(1,2) sound_trans by meson
qed

lemma Register_sound:
  assumes "\<And>k d. sound d (tc_before (env k) d)" "\<And>k d. sound d (tc_between (env k) d)"
    and "Register T B pol env params d = (res, sends, d')"
  shows "sound d d'"
proof -
  let ?tx = "\<lambda>k. register_tx T B pol params (env k)"
  have "sound d (snd (fst (retry_loop (po_CollisionRetries pol) ?tx 0 False 0 d)))"
    by (rule retry_loop_rel) (use sound_trans register_tx_sound [OF assms(1,2)] in \<open>blast, simp\<close>)
  then show ?thesis using assms(3) by (auto simp: Register_def split: prod.splits sum.splits)
qed

lemma Verify_sound:
  assumes "\<And>d. sound d (tc_before env d)" "\<And>d. sound d (tc_reads env d)" "\<And>d. sound d (tc_between env d)"
    and "Verify T B pol env mail raw d = (res, d')"
  shows "sound d d'"
proof -
  let ?snap = "tc_before env d" and ?snap2 = "tc_reads env (tc_before env d)"
  have "sound (tc_between env ?snap2) d'"
    using assms(4) verifying.tx_keeps [of _ _ "(T, B, pol, env, mail, raw, ?snap, ?snap2)"]
      verifying.tx_settles [of _ _ "(T, B, pol, env, mail, raw, ?snap, ?snap2)"]
    by (auto simp: Verify_def Let_def sound_def split: prod.splits sum.splits)
  then show ?thesis using assms(1-3) sound_trans by meson
qed

lemma Resend_sound:
  assumes "\<And>d. sound d (tc_before env d)" "\<And>d. sound d (tc_between env d)"
    and "Resend T B pol env mail d = (res, sends, d')"
  shows "sound d d'"
proof -
  let ?snap = "tc_before env d"
  have "sound (tc_between env ?snap) d'"
    using assms(3) resending.tx_keeps [of _ _ "(T, B, pol, env, mail, ?snap)"]
      resending.tx_settles [of _ _ "(T, B, pol, env, mail, ?snap)"]
    by (auto simp: Resend_def Let_def sound_def split: prod.splits sum.splits)
  then show ?thesis using assms(1,2) sound_trans by meson
qed

lemma Sweep_sound:
  assumes "\<And>d. sound d (tc_before env d)" "\<And>d. sound d (tc_between env d)"
    and "Sweep s env locked now d = (res, d')"
  shows "sound d d'"
proof -
  let ?snap = "tc_before env d"
  have "sound (tc_between env ?snap) d'"
    using assms(3) sweeping.tx_keeps [of _ _ "(env, locked, now - sw_grace s, ?snap)"]
      sweeping.tx_settles [of _ _ "(env, locked, now - sw_grace s, ?snap)"]
    by (auto simp: Sweep_def Let_def sound_def)
  then show ?thesis using assms(1,2) sound_trans by meson
qed

lemma users_update_sound:
  assumes "\<And>u. su_id (f u) = su_id u \<and> su_public_code (f u) = su_public_code u \<and> su_mail_address (f u) = su_mail_address u
    \<and> su_handle_norm (f u) = su_handle_norm u \<and> su_status (f u) = su_status u"
  shows "sound d (d\<lparr>t_users := map (\<lambda>u. if p u then f u else u) (t_users d)\<rparr>)"
proof -
  define us where "us = map (\<lambda>u. if p u then f u else u) (t_users d)"
  have keys: "map su_id us = map su_id (t_users d)" "map su_public_code us = map su_public_code (t_users d)"
    "map su_mail_address us = map su_mail_address (t_users d)" "map su_handle_norm us = map su_handle_norm (t_users d)"
    unfolding us_def using assms by (auto simp only: intro!: map_key_update)
  have image: "\<exists>u' \<in> set us. su_id u' = su_id u \<and> su_status u' = su_status u \<and> su_mail_address u' = su_mail_address u
      \<and> su_public_code u' = su_public_code u" if "u \<in> set (t_users d)" for u
    using that assms unfolding us_def by (intro bexI [of _ "if p u then f u else u"]) auto
  have origin: "\<exists>u \<in> set (t_users d). su_id u' = su_id u \<and> su_status u' = su_status u" if "u' \<in> set us" for u'
    using that assms by (force simp: us_def)
  have "{su_id u | u. u \<in> set us \<and> su_status u = UserStatusPending} =
      {su_id u | u. u \<in> set (t_users d) \<and> su_status u = UserStatusPending}"
    using image origin by (auto; metis)
  then show ?thesis
    using keys image unfolding sound_def settled_def accounts_inv_def accounts_ok_def us_def [symmetric] by simp
qed

lemma areach_sound: "areach T B pol d d' \<Longrightarrow> sound d d'"
proof (induction rule: areach.induct)
  case (elsewhere d' d)
  then show ?case by (auto simp: sound_def accounts_inv_def intro: settled_users)
next
  case (rehash oc now uid hash d r d')
  have "sound d (snd (update_user_sql (user_int64 uid) (\<lambda>u. u\<lparr>su_password_hash := hash, su_updated_at := now\<rparr>) d))"
    unfolding update_user_sql_def snd_conv by (rule users_update_sound) simp
  then show ?case using rehash
    by (auto simp: SetPasswordHash_def run_stmt_def split: outcome.splits prod.splits sum.splits)
next
  case (register env params d r sends d')
  show ?case using register.IH register.hyps(3) by (rule Register_sound)
next
  case (verify env mail raw d v d')
  show ?case using verify.IH verify.hyps(4) by (rule Verify_sound)
next
  case (resend env mail d u sends d')
  show ?case using resend.IH resend.hyps(3) by (rule Resend_sound)
next
  case (sweep env s locked now d n d')
  show ?case using sweep.IH sweep.hyps(3) by (rule Sweep_sound)
qed (auto intro: sound_trans)

subsection \<open>Examples\<close>

text \<open>A bcrypt whose hash is the cost and the password, and an account that awaits its PIN.\<close>

definition tagged_bcrypt :: bcrypt_lib where
  "tagged_bcrypt =
     \<lparr>bc_generate = (\<lambda>r p c. Ok (replicate c (CHR ''x'') @ CHR ''.'' # p)),
      bc_compare = (\<lambda>h p. tl (dropWhile (\<lambda>c. c = CHR ''x'') h) = p),
      bc_cost = (\<lambda>h. Some (length (takeWhile (\<lambda>c. c = CHR ''x'') h)))\<rparr>"

lemma tagged_bcrypt_laws: "bcrypt_laws tagged_bcrypt"
proof -
  have "dropWhile (\<lambda>c. c = CHR ''x'') (replicate n (CHR ''x'') @ CHR ''.'' # p) = CHR ''.'' # p"
    "takeWhile (\<lambda>c. c = CHR ''x'') (replicate n (CHR ''x'') @ CHR ''.'' # p) = replicate n (CHR ''x'')" for n p
    by (induction n) auto
  then show ?thesis by (simp add: bcrypt_laws_def tagged_bcrypt_def)
qed

definition pending_row :: service_user where
  "pending_row =
     \<lparr>su_id = 7, su_public_code = ''0000000007'', su_mail_address = ''eve@x.io'', su_handle = ''eve'',
      su_handle_norm = ''eve'', su_display_name = ''eve'', su_password_hash = [], su_status = UserStatusPending,
      su_created_at = 0, su_updated_at = 0\<rparr>"

definition pending_challenge :: verification_row where
  "pending_challenge =
     \<lparr>vr_user_id = 7, vr_pin_hash = ''xxxxxxxxxx.123456'', vr_expires_at = 100, vr_attempts = 0, vr_resend_count = 0,
      vr_last_sent_at = Some 0, vr_created_at = 0\<rparr>"

definition pending_db :: db where
  "pending_db = \<lparr>t_users = [pending_row], t_rooms = [], t_memberships = [], t_events = [],
     t_verifications = [pending_challenge]\<rparr>"

definition quiet_context :: tx_context where
  "quiet_context =
     \<lparr>tx_begin = True, tx_stmt = (\<lambda>_. Acked), tx_commit = Acked, tx_now = 5, tx_mint = Ok 8,
      tc_code = Ok (replicate 10 0), tc_pin = Ok 42, tc_pin_salt = 0, tc_password_salt = 0, tc_clock = 5,
      tc_before = (\<lambda>d. d), tc_reads = (\<lambda>d. d), tc_between = (\<lambda>d. d)\<rparr>"

definition eve :: user where
  "eve = \<lparr>usr_ID = UserID 7, usr_PublicCode = PublicCode ''0000000007'', usr_MailAddress = MailAddress ''eve@x.io'',
     usr_Handle = Handle ''eve'', usr_DisplayName = ''eve'', usr_PasswordHash = [], usr_Status = UserStatusPending,
     usr_CreatedAt = 0, usr_UpdatedAt = 0\<rparr>"

lemma eve_mail: "NewMailAddress plain_text_lib ''eve@x.io'' = Ok (MailAddress ''eve@x.io'')"
  by (simp add: NewMailAddress_def plain_text_lib_def trim_space_ascii_id is_space_def MaxMailAddressBytes_def
      isValidMailLocalPart_def maxMailLocalPartBytes_def isMailAtext_def is_alnum_def isValidMailDomain_def
      label_ok_def maxMailDomainLabelBytes_def to_lower_ascii_def to_lower_char_def)

lemma eve_handle: "NewHandle plain_text_lib ''eve'' = Ok (Handle ''eve'')"
  by (simp add: NewHandle_def plain_text_lib_def trim_space_ascii_id runes_ascii is_space_def
      minHandleLen_def maxHandleLen_def isHandleChar_def del: runes.simps)

lemma eve_code: "ParsePublicCode ''0000000007'' = Ok (PublicCode ''0000000007'')"
  using ParsePublicCode_string [of "PublicCode ''0000000007''"]
  by (simp add: valid_code_def publicCodeLen_def crockfordAlphabet_def)

lemma pending_row_parses: "userRow_toDomain plain_text_lib pending_row = Ok eve"
  by (simp add: userRow_toDomain_def pending_row_def eve_def eve_mail eve_handle eve_code NewUserID_def
      ParseUserStatus_def handle_normalized_def to_lower_ascii_def to_lower_char_def)

lemma pending_db_inv: "accounts_inv pending_db"
  by (simp add: accounts_inv_def accounts_ok_def pending_db_def pending_row_def pending_challenge_def)

lemma pending_find [simp]: "FindByEmail plain_text_lib Acked (MailAddress ''eve@x.io'') pending_db = Ok eve"
  using pending_row_parses by (simp add: FindByEmail_def user_findOne_def pending_db_def) (simp add: pending_row_def)

lemma eve_challenge:
  "FindByUser Acked (UserID 7) pending_db = Ok \<lparr>vf_UserID = UserID 7, vf_PinHash = ''xxxxxxxxxx.123456'',
     vf_ExpiresAt = 100, vf_Attempts = 0, vf_ResendCount = 0, vf_LastSentAt = 0, vf_CreatedAt = 0\<rparr>"
  by (simp add: FindByUser_def pending_db_def pending_challenge_def verificationRow_toDomain_def NewUserID_def)

lemma eve_pin: "pin_Verify tagged_bcrypt ''xxxxxxxxxx.123456'' ''123456'' = Ok ()"
  using digits_valid_pin(2) [of "''123456''"]
  by (simp add: pin_Verify_def tagged_bcrypt_def pinDigits_def is_digit_def)

definition activated_db :: db where
  "activated_db = pending_db\<lparr>t_users := [pending_row\<lparr>su_status := UserStatusActive, su_updated_at := 5\<rparr>],
     t_verifications := []\<rparr>"

lemma eve_verifies:
  "Verify plain_text_lib tagged_bcrypt DefaultRegistrationPolicy quiet_context (MailAddress ''eve@x.io'') ''123456'' pending_db
     = (Ok (), activated_db)"
proof -
  have "SetStatus Acked 5 (UserID 7) UserStatusActive pending_db =
      (Ok (), pending_db\<lparr>t_users := [pending_row\<lparr>su_status := UserStatusActive, su_updated_at := 5\<rparr>]\<rparr>)"
    by (simp add: SetStatus_def update_user_sql_def pending_db_def) (simp add: pending_row_def)
  moreover have "VerificationRepo_Delete Acked (UserID 7)
      (pending_db\<lparr>t_users := [pending_row\<lparr>su_status := UserStatusActive, su_updated_at := 5\<rparr>]\<rparr>) = (Ok (), activated_db)"
    by (simp add: VerificationRepo_Delete_def deleteSQL_def pending_db_def activated_db_def pending_challenge_def)
  ultimately show ?thesis
    by (simp add: Verify_def verify_op_def WithinTx_def quiet_context_def txenv.defs eve_def eve_challenge eve_pin
        Expired_def DefaultRegistrationPolicy_def)
qed

text \<open>
  C16. An account awaits verification exactly when it has a challenge, whatever interleaves. From a
  database that satisfies the constraints and this equivalence, every interleaving of registrations,
  verifications, resends, sweeps and re-hashes, with reads as stale as READ COMMITTED allows and
  statements, commits or replies failing, leads to such a database; and an account that is active or
  disabled keeps its id, public code, address and status through all of them.
\<close>

theorem pending_iff_challenge:
  assumes "areach T B pol d d'" and "accounts_inv d"
  shows "accounts_inv d' \<and> settled d d'"
  using areach_sound [OF assms(1)] assms(2) by (simp add: sound_def)

theorem pending_iff_challenge_witness:
  "accounts_inv pending_db \<and> accounts_inv activated_db \<and> settled pending_db activated_db
   \<and> su_status (hd (t_users activated_db)) = UserStatusActive"
proof -
  have "areach plain_text_lib tagged_bcrypt DefaultRegistrationPolicy pending_db activated_db"
    by (rule areach.verify [OF _ _ _ eve_verifies]) (simp_all add: quiet_context_def areach.stay)
  from pending_iff_challenge [OF this pending_db_inv] pending_db_inv show ?thesis
    by (simp add: activated_db_def)
qed

subsection \<open>What a verification decides\<close>

text \<open>The guards a challenge passes before the PIN is looked at.\<close>

definition open_challenge ::
  "text_lib \<Rightarrow> registration_policy \<Rightarrow> tx_context \<Rightarrow> mail_address \<Rightarrow> db \<Rightarrow> db \<Rightarrow> user \<Rightarrow> verification \<Rightarrow> bool" where
  "open_challenge T pol env mail snap snap2 user ch \<longleftrightarrow>
     FindByEmail T (tx_stmt env 0) mail snap = Ok user \<and> usr_Status user = UserStatusPending
     \<and> FindByUser (tx_stmt env 1) (usr_ID user) snap2 = Ok ch
     \<and> vf_Attempts ch < po_MaxVerifyAttempts pol \<and> tc_clock env < vf_ExpiresAt ch"

definition activation :: "instant \<Rightarrow> int \<Rightarrow> db \<Rightarrow> db" where
  "activation now uid d =
     d\<lparr>t_users := map (\<lambda>u. if su_id u = uid then u\<lparr>su_status := UserStatusActive, su_updated_at := now\<rparr> else u) (t_users d),
       t_verifications := filter (\<lambda>v. vr_user_id v \<noteq> uid) (t_verifications d)\<rparr>"

definition count_attempt :: "int \<Rightarrow> db \<Rightarrow> db" where
  "count_attempt uid d =
     update_challenge (\<lambda>v. vr_user_id v = uid) (\<lambda>v. v\<lparr>vr_attempts := vr_attempts v + 1\<rparr>) d"

lemma IncrementAttempts_Ok:
  "IncrementAttempts oc uid d = (Ok n, d') \<Longrightarrow> oc = Acked \<and> d' = count_attempt (user_int64 uid) d
     \<and> user_int64 uid \<in> vr_user_id ` set (t_verifications d)"
  by (cases oc)
    (auto simp: IncrementAttempts_def incrementAttemptsSQL_def count_attempt_def find_Some_iff image_iff
      split: option.splits sum.splits intro!: bexI [OF _ nth_mem])

lemma verify_op_accepts:
  assumes "verify_op T B pol env mail raw snap snap2 d = (Ok True, d')"
  shows "\<exists>user ch. open_challenge T pol env mail snap snap2 user ch \<and> pin_Verify B (vf_PinHash ch) raw = Ok ()
    \<and> user_int64 (usr_ID user) \<in> su_id ` set (t_users d) \<and> user_int64 (usr_ID user) \<in> vr_user_id ` set (t_verifications d)
    \<and> d' = activation (tx_now env) (user_int64 (usr_ID user)) d"
proof -
  obtain user ch where oc: "open_challenge T pol env mail snap snap2 user ch" "pin_Verify B (vf_PinHash ch) raw = Ok ()"
    and acts: "\<exists>d1. SetStatus (tx_stmt env 2) (tx_now env) (usr_ID user) UserStatusActive d = (Ok (), d1)
      \<and> VerificationRepo_Delete (tx_stmt env 3) (usr_ID user) d1 = (Ok (), d')"
    using assms by (auto simp: verify_op_def open_challenge_def Expired_def split: sum.splits prod.splits if_splits)
  then obtain d1 where act: "SetStatus (tx_stmt env 2) (tx_now env) (usr_ID user) UserStatusActive d = (Ok (), d1)"
    "VerificationRepo_Delete (tx_stmt env 3) (usr_ID user) d1 = (Ok (), d')" by blast
  show ?thesis
    using oc activation_Ok [OF act] unfolding activation_def by blast
qed

lemma verify_op_rejects:
  assumes "verify_op T B pol env mail raw snap snap2 d = (Ok False, d')"
  shows "(d' = d \<and> (\<nexists>user ch. open_challenge T pol env mail snap snap2 user ch)) \<or>
    (\<exists>user ch e. open_challenge T pol env mail snap snap2 user ch \<and> pin_Verify B (vf_PinHash ch) raw = Err e
       \<and> d' = count_attempt (user_int64 (usr_ID user)) d)"
proof (cases "\<exists>user ch. open_challenge T pol env mail snap snap2 user ch")
  case True
  then obtain user ch where oc: "open_challenge T pol env mail snap snap2 user ch" by blast
  then have "\<exists>e n. pin_Verify B (vf_PinHash ch) raw = Err e \<and> IncrementAttempts (tx_stmt env 2) (usr_ID user) d = (Ok n, d')"
    using assms by (auto simp: verify_op_def open_challenge_def Expired_def split: sum.splits prod.splits)
  then show ?thesis using oc IncrementAttempts_Ok by blast
next
  case False
  then have "d' = d"
    using assms by (auto simp: verify_op_def open_challenge_def Expired_def split: sum.splits prod.splits if_splits)
  then show ?thesis using False by blast
qed

text \<open>
  A verification activates an account exactly on the right PIN of an open challenge. Success means
  that the address named a pending account whose challenge was read unexpired with attempts left and
  that the PIN matched its hash, and the write is that account's activation and the removal of its
  challenge, nothing else. The uniform refusal means that there was no open challenge and nothing was
  written, or that the PIN was wrong and exactly one attempt was counted. An infrastructure error
  leaves the database as it was unless only the reply to the commit was lost.
\<close>

theorem Verify_decided:
  assumes "Verify T B pol env mail raw d = (res, d')"
    and "snap = tc_before env d" "snap2 = tc_reads env snap" "d1 = tc_between env snap2"
  shows "(res = Ok () \<longrightarrow> (\<exists>user ch. open_challenge T pol env mail snap snap2 user ch
      \<and> pin_Verify B (vf_PinHash ch) raw = Ok () \<and> d' = activation (tx_now env) (user_int64 (usr_ID user)) d1))
    \<and> (res = Err ErrVerifyInvalid \<longrightarrow> (d' = d1 \<and> (\<nexists>user ch. open_challenge T pol env mail snap snap2 user ch)) \<or>
      (\<exists>user ch e. open_challenge T pol env mail snap snap2 user ch \<and> pin_Verify B (vf_PinHash ch) raw = Err e
        \<and> d' = count_attempt (user_int64 (usr_ID user)) d1))
    \<and> (\<forall>e. res = Err (ErrVerifyStore e) \<longrightarrow> d' = d1 \<or> (e = ErrCommitTx \<and> tx_commit env = Unacked))"
proof -
  let ?op = "verify_op T B pol env mail raw snap snap2"
  obtain tx where tx: "WithinTx (txenv.truncate env) ?op d1 = (tx, d')"
    and res: "res = (case tx of Inl e \<Rightarrow> Err (ErrVerifyStore e) | Inr b \<Rightarrow> if b then Ok () else Err ErrVerifyInvalid)"
    using assms by (auto simp: Verify_def Let_def split: prod.splits sum.splits)
  have commit: "tx_commit (txenv.truncate env) = tx_commit env" by (simp add: txenv.defs)
  show ?thesis
  proof (cases tx)
    case (Inl e)
    then show ?thesis using res WithinTx_Err [of "txenv.truncate env" ?op d1 e d'] tx commit by auto
  next
    case (Inr b)
    then have op: "?op d1 = (Ok b, d')" using tx by (simp add: WithinTx_Ok)
    show ?thesis
    proof (cases b)
      case True
      then show ?thesis using res Inr verify_op_accepts [of T B pol env mail raw snap snap2 d1 d'] op by auto
    next
      case False
      then show ?thesis using res Inr verify_op_rejects [of T B pol env mail raw snap snap2 d1 d'] op by auto
    qed
  qed
qed

theorem Verify_decided_witness:
  "\<exists>user ch. open_challenge plain_text_lib DefaultRegistrationPolicy quiet_context (MailAddress ''eve@x.io'')
       pending_db pending_db user ch
     \<and> pin_Verify tagged_bcrypt (vf_PinHash ch) ''123456'' = Ok ()
     \<and> activated_db = activation 5 (user_int64 (usr_ID user)) pending_db"
  using Verify_decided [OF eve_verifies refl refl refl] by (simp add: quiet_context_def)

subsection \<open>The budget of wrong PINs\<close>

text \<open>One request at a time: nothing interleaves.\<close>

datatype account_request =
  ReqRegister "nat \<Rightarrow> tx_context" register_params
  | ReqVerify tx_context mail_address string
  | ReqResend tx_context mail_address
  | ReqSweep sweeper tx_context bool instant

fun serve :: "text_lib \<Rightarrow> bcrypt_lib \<Rightarrow> registration_policy \<Rightarrow> account_request \<Rightarrow> db \<Rightarrow> db" where
  "serve T B pol (ReqRegister env params) d = snd (snd (Register T B pol env params d))"
| "serve T B pol (ReqVerify env mail raw) d = snd (Verify T B pol env mail raw d)"
| "serve T B pol (ReqResend env mail) d = snd (snd (Resend T B pol env mail d))"
| "serve T B pol (ReqSweep s env locked now) d = snd (Sweep s env locked now d)"

definition serial :: "tx_context \<Rightarrow> bool" where
  "serial env \<longleftrightarrow> tc_before env = (\<lambda>d. d) \<and> tc_reads env = (\<lambda>d. d) \<and> tc_between env = (\<lambda>d. d)"

fun serial_req :: "int \<Rightarrow> account_request \<Rightarrow> bool" where
  "serial_req uid (ReqRegister env params) \<longleftrightarrow> (\<forall>k. serial (env k) \<and> tx_mint (env k) \<noteq> Ok uid)"
| "serial_req uid (ReqVerify env mail raw) \<longleftrightarrow> serial env"
| "serial_req uid (ReqResend env mail) \<longleftrightarrow> serial env"
| "serial_req uid (ReqSweep s env locked now) \<longleftrightarrow> serial env"

text \<open>The account whose PIN a request was compared with, and whether the answer was that it is wrong.\<close>

definition compared :: "text_lib \<Rightarrow> registration_policy \<Rightarrow> tx_context \<Rightarrow> mail_address \<Rightarrow> db \<Rightarrow> int option" where
  "compared T pol env mail d =
     (case FindByEmail T (tx_stmt env 0) mail d of
        Inl _ \<Rightarrow> None
      | Inr user \<Rightarrow>
          (case FindByUser (tx_stmt env 1) (usr_ID user) d of
             Inl _ \<Rightarrow> None
           | Inr ch \<Rightarrow>
               if usr_Status user = UserStatusPending \<and> vf_Attempts ch < po_MaxVerifyAttempts pol
                  \<and> tc_clock env < vf_ExpiresAt ch
               then Some (user_int64 (usr_ID user)) else None))"

fun wrong_guess :: "text_lib \<Rightarrow> bcrypt_lib \<Rightarrow> registration_policy \<Rightarrow> int \<Rightarrow> account_request \<Rightarrow> db \<Rightarrow> bool" where
  "wrong_guess T B pol uid (ReqVerify env mail raw) d \<longleftrightarrow>
     compared T pol env mail d = Some uid \<and> fst (Verify T B pol env mail raw d) = Err ErrVerifyInvalid"
| "wrong_guess T B pol uid _ d \<longleftrightarrow> False"

fun guesses :: "text_lib \<Rightarrow> bcrypt_lib \<Rightarrow> registration_policy \<Rightarrow> int \<Rightarrow> account_request list \<Rightarrow> db \<Rightarrow> nat" where
  "guesses T B pol uid [] d = 0"
| "guesses T B pol uid (r # rs) d =
     (if wrong_guess T B pol uid r d then 1 else 0) + guesses T B pol uid rs (serve T B pol r d)"

text \<open>What is left: the attempts on the current challenge and those on each one that may follow.\<close>

definition row_budget :: "registration_policy \<Rightarrow> verification_row \<Rightarrow> int" where
  "row_budget pol v =
     max 0 (po_MaxVerifyAttempts pol - vr_attempts v)
     + max 0 (po_MaxVerifyAttempts pol) * max 0 (po_MaxResendCount pol - vr_resend_count v)"

definition budget :: "registration_policy \<Rightarrow> int \<Rightarrow> verification_row list \<Rightarrow> int" where
  "budget pol uid vs = (case find (\<lambda>v. vr_user_id v = uid) vs of None \<Rightarrow> 0 | Some v \<Rightarrow> row_budget pol v)"

lemma row_budget_nonneg: "0 \<le> row_budget pol v"
  by (simp add: row_budget_def)

lemma budget_nonneg: "0 \<le> budget pol uid vs"
  by (simp add: budget_def row_budget_nonneg split: option.splits)

lemma find_update:
  "(\<And>v. vr_user_id (f v) = vr_user_id v) \<Longrightarrow>
     find (\<lambda>v. vr_user_id v = uid) (map (\<lambda>v. if sel v then f v else v) vs) =
       map_option (\<lambda>v. if sel v then f v else v) (find (\<lambda>v. vr_user_id v = uid) vs)"
  by (induction vs) auto

lemma find_filter_key:
  "find (\<lambda>v. vr_user_id v = uid) (filter (\<lambda>v. Q (vr_user_id v)) vs) =
     (if Q uid then find (\<lambda>v. vr_user_id v = uid) vs else None)"
  by (induction vs) auto

text \<open>A wrong guess that was answered uses one up; nothing else gives any back.\<close>

lemma budget_resend:
  "budget pol uid (t_verifications (snd (resendPending B pol env u d))) \<le> budget pol uid (t_verifications d)"
proof -
  have "row_budget pol (v\<lparr>vr_pin_hash := h, vr_expires_at := t, vr_attempts := 0, vr_last_sent_at := s,
      vr_resend_count := vr_resend_count v + 1\<rparr>) \<le> row_budget pol v"
    if "vr_resend_count v < po_MaxResendCount pol" for v h t s
  proof -
    have "max 0 (po_MaxResendCount pol - vr_resend_count v) = 1 + max 0 (po_MaxResendCount pol - (vr_resend_count v + 1))"
      using that by simp
    then show ?thesis by (simp add: row_budget_def algebra_simps)
  qed
  then show ?thesis
    by (auto simp: resendPending_def VerificationRepo_Resend_def resendSQL_def run_stmt_def update_challenge_def Let_def
        budget_def find_update may_resend_def split: sum.splits prod.splits outcome.splits option.splits)
qed

lemma budget_count:
  "budget pol uid (t_verifications (count_attempt u d)) \<le> budget pol uid (t_verifications d)"
  by (auto simp: count_attempt_def update_challenge_def budget_def find_update row_budget_def split: option.splits)

lemma budget_count_open:
  assumes "find (\<lambda>v. vr_user_id v = uid) (t_verifications d) = Some v" "vr_attempts v < po_MaxVerifyAttempts pol"
  shows "budget pol uid (t_verifications (count_attempt uid d)) = budget pol uid (t_verifications d) - 1"
proof -
  have "vr_user_id v = uid" using assms(1) by (auto simp: find_Some_iff)
  then show ?thesis
    using assms by (simp add: count_attempt_def update_challenge_def budget_def find_update row_budget_def)
qed

lemma budget_IncrementAttempts:
  "IncrementAttempts oc u d = (Ok n, d') \<Longrightarrow> budget pol uid (t_verifications d') \<le> budget pol uid (t_verifications d)"
  using IncrementAttempts_Ok [of oc u d n d'] budget_count by auto

lemma budget_activate:
  "budget pol uid (t_verifications (activation now u d)) \<le> budget pol uid (t_verifications d)"
  using find_filter_key [of uid "\<lambda>x. x \<noteq> u" "t_verifications d"]
  by (simp add: activation_def budget_def row_budget_nonneg split: option.splits)

lemma budget_verify_op:
  assumes "verify_op T B pol env mail raw snap snap2 d = (Ok b, d')"
  shows "budget pol uid (t_verifications d') \<le> budget pol uid (t_verifications d)"
proof (cases b)
  case True
  then show ?thesis using verify_op_accepts [of T B pol env mail raw snap snap2 d d'] assms budget_activate by auto
next
  case False
  then show ?thesis using verify_op_rejects [of T B pol env mail raw snap snap2 d d'] assms budget_count by auto
qed

lemma budget_createPending:
  assumes "createPending T B pol env params hash d = (Ok x, d')" "tx_mint env \<noteq> Ok uid"
  shows "budget pol uid (t_verifications d') = budget pol uid (t_verifications d)"
proof -
  have "find p (vs @ [v]) = find p vs" if "\<not> p v" for p vs and v :: verification_row
    using that by (induction vs) auto
  then show ?thesis
    using assms by (cases x) (auto elim!: createPending_Ok simp: budget_def)
qed

lemma budget_register_op:
  assumes "register_op T B pol env params snap d = (Ok x, d')" "tx_mint env \<noteq> Ok uid"
  shows "budget pol uid (t_verifications d') \<le> budget pol uid (t_verifications d)"
  using assms budget_createPending [OF _ assms(2), of T B pol params _ d] budget_resend [of pol uid B env _ d]
  by (auto simp: register_op_def split: sum.splits prod.splits if_splits) (metis snd_conv order_refl)+

lemma budget_resend_op:
  assumes "resend_op T B pol env mail snap d = (Ok x, d')"
  shows "budget pol uid (t_verifications d') \<le> budget pol uid (t_verifications d)"
  using assms budget_resend [of pol uid B env _ d]
  by (auto simp: resend_op_def split: sum.splits prod.splits if_splits) (metis snd_conv)+

lemma budget_sweep_op:
  assumes "sweep_op env locked cutoff snap d = (Ok x, d')"
  shows "budget pol uid (t_verifications d') \<le> budget pol uid (t_verifications d)"
  using assms find_filter_key [of uid "\<lambda>x. x \<notin> su_id ` {u \<in> set (t_users d). swept cutoff snap u}" "t_verifications d"]
  by (auto simp: sweep_op_def run_stmt_Ok sweepSQL_def Let_def budget_def row_budget_nonneg split: if_splits option.splits)

lemma budget_tx:
  assumes "\<And>x d1. body d = (Ok x, d1) \<Longrightarrow> budget pol uid (t_verifications d1) \<le> budget pol uid (t_verifications d)"
  shows "budget pol uid (t_verifications (snd (WithinTx env body d))) \<le> budget pol uid (t_verifications d)"
  by (rule WithinTx_inv [where I = "\<lambda>d'. budget pol uid (t_verifications d') \<le> budget pol uid (t_verifications d)"])
    (use assms in auto)

lemma budget_Register:
  assumes "\<And>k. serial (env k)" "\<And>k. tx_mint (env k) \<noteq> Ok uid"
  shows "budget pol uid (t_verifications (snd (snd (Register T B pol env params d)))) \<le> budget pol uid (t_verifications d)"
proof -
  let ?tx = "\<lambda>k. register_tx T B pol params (env k)"
  have "budget pol uid (t_verifications d2) \<le> budget pol uid (t_verifications d1)" if "?tx k d1 = (res, d2)" for k d1 res d2
    using budget_tx [of "register_op T B pol (env k) params d1" d1 pol uid "txenv.truncate (env k)"]
      budget_register_op [OF _ assms(2)] that assms(1) [of k]
    by (auto simp: register_tx_def serial_def)
  then have "budget pol uid (t_verifications (snd (fst (retry_loop (po_CollisionRetries pol) ?tx 0 False 0 d))))
      \<le> budget pol uid (t_verifications d)"
    by (intro retry_loop_rel [where I = "\<lambda>d'. budget pol uid (t_verifications d') \<le> budget pol uid (t_verifications d)"])
      (use order_trans in blast, simp)
  then show ?thesis by (auto simp: Register_def split: prod.splits sum.splits)
qed

lemma compared_open:
  assumes "compared T pol env mail d = Some uid"
  shows "\<exists>user ch. open_challenge T pol env mail d d user ch \<and> user_int64 (usr_ID user) = uid"
  using assms by (auto simp: compared_def open_challenge_def split: sum.splits if_splits)

lemma open_challenge_row:
  assumes "open_challenge T pol env mail snap d user ch"
  obtains v where "find (\<lambda>v. vr_user_id v = user_int64 (usr_ID user)) (t_verifications d) = Some v"
    "vr_attempts v < po_MaxVerifyAttempts pol"
  using assms
  by (auto simp: open_challenge_def FindByUser_def verificationRow_toDomain_def
      split: if_splits option.splits sum.splits)

lemma open_challenge_unique:
  assumes "open_challenge T pol env mail snap snap2 user ch" "open_challenge T pol env mail snap snap2 user' ch'"
  shows "user' = user \<and> ch' = ch"
  using assms by (simp add: open_challenge_def)

lemma budget_wrong_guess:
  assumes "serial env" "compared T pol env mail d = Some uid" "Verify T B pol env mail raw d = (Err ErrVerifyInvalid, d')"
  shows "budget pol uid (t_verifications d') = budget pol uid (t_verifications d) - 1"
proof -
  obtain user ch where oc: "open_challenge T pol env mail d d user ch" "user_int64 (usr_ID user) = uid"
    using compared_open [OF assms(2)] by blast
  obtain tx where "WithinTx (txenv.truncate env) (verify_op T B pol env mail raw d d) d = (tx, d')" "tx = Ok False"
    using assms(1,3) by (auto simp: Verify_def Let_def serial_def split: prod.splits sum.splits if_splits)
  then have "verify_op T B pol env mail raw d d d = (Ok False, d')" by (simp add: WithinTx_Ok)
  from verify_op_rejects [OF this] have "d' = count_attempt uid d"
    using oc open_challenge_unique by metis
  then show ?thesis using oc budget_count_open by (metis open_challenge_row)
qed

lemma budget_serve:
  assumes "serial_req uid r"
  shows "budget pol uid (t_verifications (serve T B pol r d)) + (if wrong_guess T B pol uid r d then 1 else 0)
    \<le> budget pol uid (t_verifications d)"
proof (cases r)
  case (ReqRegister env params)
  then show ?thesis using assms budget_Register [of env uid pol T B params d] by simp
next
  case (ReqVerify env mail raw)
  have "budget pol uid (t_verifications (snd (Verify T B pol env mail raw d))) \<le> budget pol uid (t_verifications d)"
    using budget_tx [of "verify_op T B pol env mail raw d d" d pol uid "txenv.truncate env"] assms budget_verify_op ReqVerify
    by (auto simp: Verify_def Let_def serial_def split: prod.splits sum.splits)
  moreover have "budget pol uid (t_verifications (snd (Verify T B pol env mail raw d))) = budget pol uid (t_verifications d) - 1"
    if "wrong_guess T B pol uid r d"
    using that assms ReqVerify budget_wrong_guess [of env T pol mail d uid B raw] by (auto simp: prod_eq_iff)
  ultimately show ?thesis using ReqVerify by auto
next
  case (ReqResend env mail)
  then show ?thesis
    using assms budget_tx [of "resend_op T B pol env mail d" d pol uid "txenv.truncate env"] budget_resend_op
    by (auto simp: Resend_def Let_def serial_def split: prod.splits sum.splits)
next
  case (ReqSweep s env locked now)
  then show ?thesis
    using assms budget_tx [of "sweep_op env locked (now - sw_grace s) d" d pol uid "txenv.truncate env"] budget_sweep_op
    by (auto simp: Sweep_def Let_def serial_def)
qed

lemma guesses_budget:
  "list_all (serial_req uid) rs \<Longrightarrow> int (guesses T B pol uid rs d) \<le> budget pol uid (t_verifications d)"
proof (induction rs arbitrary: d)
  case Nil
  then show ?case by (simp add: budget_nonneg)
next
  case (Cons r rs)
  then have "int (guesses T B pol uid rs (serve T B pol r d)) \<le> budget pol uid (t_verifications (serve T B pol r d))" by simp
  then show ?case using budget_serve [of uid r pol T B d] Cons.prems by auto
qed

lemma budget_limit:
  assumes "accounts_inv d" "0 \<le> po_MaxVerifyAttempts pol" "0 \<le> po_MaxResendCount pol"
  shows "budget pol uid (t_verifications d) \<le> po_MaxVerifyAttempts pol * (po_MaxResendCount pol + 1)"
proof (cases "find (\<lambda>v. vr_user_id v = uid) (t_verifications d)")
  case None
  then show ?thesis using assms(2,3) by (simp add: budget_def)
next
  case (Some v)
  then have "v \<in> set (t_verifications d)" by (auto simp: find_Some_iff)
  then have v: "0 \<le> vr_attempts v" "0 \<le> vr_resend_count v" using assms(1) by (auto simp: accounts_inv_def accounts_ok_def)
  have "max 0 (po_MaxVerifyAttempts pol - vr_attempts v) \<le> po_MaxVerifyAttempts pol" using v assms(2) by simp
  moreover have "po_MaxVerifyAttempts pol * max 0 (po_MaxResendCount pol - vr_resend_count v)
      \<le> po_MaxVerifyAttempts pol * po_MaxResendCount pol"
    using v assms(2,3) by (intro mult_left_mono) auto
  ultimately show ?thesis using Some assms(2) by (simp add: budget_def row_budget_def algebra_simps max_def)
qed


text \<open>
  C21. One request at a time, the PIN of an account can be guessed wrong at most
  \<open>MaxVerifyAttempts * (MaxResendCount + 1)\<close> times in the life of the account (30 with the production
  policy): over any sequence of registrations, verifications, resends and sweeps, by anyone, in which
  no other account gets the same id.
\<close>

theorem wrong_pins_bounded:
  assumes "accounts_inv d" "0 \<le> po_MaxVerifyAttempts pol" "0 \<le> po_MaxResendCount pol"
    and "list_all (serial_req uid) rs"
  shows "int (guesses T B pol uid rs d) \<le> po_MaxVerifyAttempts pol * (po_MaxResendCount pol + 1)"
  using guesses_budget [OF assms(4)] budget_limit [OF assms(1-3)] by (rule order_trans)

lemma eve_wrong_pin: "pin_Verify tagged_bcrypt ''xxxxxxxxxx.123456'' ''000000'' = Err ErrMismatchedPIN"
  using digits_valid_pin(2) [of "''000000''"]
  by (simp add: pin_Verify_def tagged_bcrypt_def pinDigits_def is_digit_def)

lemma eve_wrong:
  "Verify plain_text_lib tagged_bcrypt DefaultRegistrationPolicy quiet_context (MailAddress ''eve@x.io'') ''000000'' pending_db
     = (Err ErrVerifyInvalid, count_attempt 7 pending_db)"
proof -
  have "IncrementAttempts Acked (UserID 7) pending_db = (Ok 1, count_attempt 7 pending_db)"
    by (simp add: IncrementAttempts_def incrementAttemptsSQL_def count_attempt_def pending_db_def pending_challenge_def)
  then show ?thesis
    by (simp add: Verify_def verify_op_def WithinTx_def quiet_context_def txenv.defs eve_def eve_challenge eve_wrong_pin
        Expired_def DefaultRegistrationPolicy_def)
qed

theorem wrong_pins_bounded_witness:
  "guesses plain_text_lib tagged_bcrypt DefaultRegistrationPolicy 7
     [ReqVerify quiet_context (MailAddress ''eve@x.io'') ''000000''] pending_db = 1
   \<and> int (guesses plain_text_lib tagged_bcrypt DefaultRegistrationPolicy 7
     [ReqVerify quiet_context (MailAddress ''eve@x.io'') ''000000''] pending_db) \<le> 30"
proof -
  let ?rs = "[ReqVerify quiet_context (MailAddress ''eve@x.io'') ''000000'']"
  have "compared plain_text_lib DefaultRegistrationPolicy quiet_context (MailAddress ''eve@x.io'') pending_db = Some 7"
    by (simp add: compared_def quiet_context_def eve_def eve_challenge DefaultRegistrationPolicy_def)
  moreover have "int (guesses plain_text_lib tagged_bcrypt DefaultRegistrationPolicy 7 ?rs pending_db) \<le> 5 * (5 + 1)"
    using wrong_pins_bounded [OF pending_db_inv, of DefaultRegistrationPolicy 7 ?rs plain_text_lib tagged_bcrypt]
    by (simp add: DefaultRegistrationPolicy_def quiet_context_def serial_def)
  ultimately show ?thesis using eve_wrong by simp
qed

subsection \<open>Concurrent guesses\<close>

text \<open>
  Verifications in flight: the database, what the reads of each open transaction saw, and how many wrong PINs
  were compared so far. A transaction holds a connection of the pool from its reads to its commit, so at most
  \<open>cap\<close> are open; one that ends writes to the database as it is then, everything since its reads being what
  happened between them and its write.
\<close>

inductive verify_step ::
  "text_lib \<Rightarrow> bcrypt_lib \<Rightarrow> registration_policy \<Rightarrow> tx_context \<Rightarrow> mail_address \<Rightarrow> string \<Rightarrow> int \<Rightarrow> nat
     \<Rightarrow> db \<times> db list \<times> nat \<Rightarrow> db \<times> db list \<times> nat \<Rightarrow> bool"
  for T B pol env mail raw uid cap where
  reads: "length open < cap \<Longrightarrow> verify_step T B pol env mail raw uid cap (d, open, n) (d, open @ [d], n)"
| ends: "Verify T B pol (env\<lparr>tc_between := (\<lambda>x. if x = seen then d else x)\<rparr>) mail raw seen = (r, d') \<Longrightarrow>
    m = (if compared T pol env mail seen = Some uid \<and> r = Err ErrVerifyInvalid then Suc n else n) \<Longrightarrow>
    verify_step T B pol env mail raw uid cap (d, before @ seen # after, n) (d', before @ after, m)"

text \<open>The same request again and again, all of whose reads see the first database.\<close>

definition late_write :: "db \<Rightarrow> tx_context" where
  "late_write d = quiet_context\<lparr>tc_between := (\<lambda>x. if x = pending_db then d else x)\<rparr>"

fun race :: "nat \<Rightarrow> db" where
  "race 0 = pending_db"
| "race (Suc n) = snd (Verify plain_text_lib tagged_bcrypt DefaultRegistrationPolicy (late_write (race n))
     (MailAddress ''eve@x.io'') ''000000'' pending_db)"

lemma late_wrong:
  assumes "t_verifications d = [pending_challenge\<lparr>vr_attempts := n\<rparr>]"
  shows "Verify plain_text_lib tagged_bcrypt DefaultRegistrationPolicy (late_write d) (MailAddress ''eve@x.io'') ''000000'' pending_db
    = (Err ErrVerifyInvalid, d\<lparr>t_verifications := [pending_challenge\<lparr>vr_attempts := n + 1\<rparr>]\<rparr>)"
proof -
  have "IncrementAttempts Acked (UserID 7) d = (Ok (n + 1), d\<lparr>t_verifications := [pending_challenge\<lparr>vr_attempts := n + 1\<rparr>]\<rparr>)"
    using assms
    by (simp add: IncrementAttempts_def incrementAttemptsSQL_def update_challenge_def pending_challenge_def)
  then show ?thesis
    by (simp add: Verify_def verify_op_def WithinTx_def quiet_context_def late_write_def txenv.defs eve_def eve_challenge
        eve_wrong_pin Expired_def DefaultRegistrationPolicy_def)
qed

lemma race_attempts: "t_verifications (race n) = [pending_challenge\<lparr>vr_attempts := int n\<rparr>]"
proof (induction n)
  case 0
  then show ?case by (simp add: pending_db_def pending_challenge_def)
next
  case (Suc n)
  then show ?case using late_wrong [OF Suc] by (simp add: add.commute)
qed

lemma race_areach: "areach plain_text_lib tagged_bcrypt DefaultRegistrationPolicy pending_db (race n)"
proof (induction n)
  case 0
  show ?case by (simp add: areach.stay)
next
  case (Suc n)
  have "areach plain_text_lib tagged_bcrypt DefaultRegistrationPolicy d (tc_between (late_write (race n)) d)" for d
    using Suc by (simp add: late_write_def areach.stay)
  then show ?case
    using areach.verify [where env = "late_write (race n)", OF _ _ _ prod.collapse [symmetric]]
    by (simp add: late_write_def quiet_context_def areach.stay)
qed

abbreviation "eve_step \<equiv> verify_step plain_text_lib tagged_bcrypt DefaultRegistrationPolicy quiet_context
    (MailAddress ''eve@x.io'') ''000000'' 7"

lemma race_opens: "n \<le> cap \<Longrightarrow> (eve_step cap)\<^sup>*\<^sup>* (pending_db, [], 0) (pending_db, replicate n pending_db, 0)"
proof (induction n)
  case (Suc n)
  have "eve_step cap (pending_db, replicate n pending_db, 0) (pending_db, replicate n pending_db @ [pending_db], 0)"
    using Suc.prems by (intro verify_step.reads) simp
  then show ?case using Suc by (simp add: replicate_append_same)
qed simp

lemma race_ends: "(eve_step cap)\<^sup>*\<^sup>* (race k, replicate n pending_db, k) (race (k + n), [], k + n)"
proof (induction n arbitrary: k)
  case (Suc n)
  have v: "Verify plain_text_lib tagged_bcrypt DefaultRegistrationPolicy (late_write (race k)) (MailAddress ''eve@x.io'') ''000000'' pending_db
      = (Err ErrVerifyInvalid, race (Suc k))"
    using late_wrong [OF race_attempts] by simp
  have c: "compared plain_text_lib DefaultRegistrationPolicy quiet_context (MailAddress ''eve@x.io'') pending_db = Some 7"
    by (simp add: compared_def quiet_context_def eve_def eve_challenge DefaultRegistrationPolicy_def)
  have "eve_step cap (race k, [] @ pending_db # replicate n pending_db, k) (race (Suc k), [] @ replicate n pending_db, Suc k)"
    by (rule verify_step.ends [OF v [unfolded late_write_def]]) (simp add: c)
  then show ?case using Suc.IH [of "Suc k"] by (simp del: race.simps add: converse_rtranclp_into_rtranclp)
qed simp

text \<open>
  C25. The attempt cap does not bind concurrent guesses. \<open>Verify\<close> reads the attempt count with a plain
  SELECT and increments it after the comparison, so requests that are in flight together all see the same
  count. With a pool of \<open>cap\<close> connections, the largest pool of 1000 included (so that the count stays far within
  its 32 bits), there is a run in which \<open>cap\<close> transactions read before the first of them
  writes: under the production policy (5 attempts) all \<open>cap\<close> wrong PINs are compared with the one
  challenge and the attempt count ends at \<open>cap\<close>. The database it ends in is one the account operations reach.
\<close>

theorem concurrent_guesses_pass_the_cap:
  "po_MaxVerifyAttempts DefaultRegistrationPolicy = 5
   \<and> (\<forall>cap \<le> 1000. \<exists>d.
        (verify_step plain_text_lib tagged_bcrypt DefaultRegistrationPolicy quiet_context (MailAddress ''eve@x.io'')
           ''000000'' 7 cap)\<^sup>*\<^sup>* (pending_db, [], 0) (d, [], cap)
        \<and> areach plain_text_lib tagged_bcrypt DefaultRegistrationPolicy pending_db d
        \<and> map vr_attempts (t_verifications d) = [int cap])"
proof (intro conjI allI impI)
  fix cap :: nat
  have "(eve_step cap)\<^sup>*\<^sup>* (pending_db, [], 0) (race cap, [], cap)"
    using rtranclp_trans [OF race_opens [of cap cap]] race_ends [of cap 0 cap] by simp
  then show "\<exists>d. (eve_step cap)\<^sup>*\<^sup>* (pending_db, [], 0) (d, [], cap)
      \<and> areach plain_text_lib tagged_bcrypt DefaultRegistrationPolicy pending_db d
      \<and> map vr_attempts (t_verifications d) = [int cap]"
    using race_areach race_attempts by (intro exI [of _ "race cap"]) simp
qed (simp add: DefaultRegistrationPolicy_def)

text \<open>The default pool has ten connections.\<close>

theorem concurrent_guesses_pass_the_cap_witness:
  "\<exists>d. (verify_step plain_text_lib tagged_bcrypt DefaultRegistrationPolicy quiet_context (MailAddress ''eve@x.io'')
           ''000000'' 7 10)\<^sup>*\<^sup>* (pending_db, [], 0) (d, [], 10) \<and> map vr_attempts (t_verifications d) = [10]"
  using concurrent_guesses_pass_the_cap by (auto dest!: spec [of _ "10 :: nat"])

subsection \<open>The sweep\<close>

text \<open>What a sweep is meant to leave: the challenges that have not lapsed, and the accounts that need none or have one.\<close>

definition purge :: "instant \<Rightarrow> db \<Rightarrow> db" where
  "purge cutoff d =
     (let vs = filter (\<lambda>v. cutoff \<le> vr_expires_at v) (t_verifications d)
      in d\<lparr>t_users := filter (\<lambda>u. su_status u = UserStatusPending \<longrightarrow> su_id u \<in> vr_user_id ` set vs) (t_users d),
           t_verifications := vs\<rparr>)"

lemma swept_purge:
  assumes "accounts_inv d"
  shows "d\<lparr>t_users := filter (\<lambda>u. \<not> swept cutoff d u) (t_users d),
      t_verifications := filter (\<lambda>v. vr_user_id v \<notin> su_id ` set (filter (swept cutoff d) (t_users d))) (t_verifications d)\<rparr>
    = purge cutoff d"
proof -
  let ?us = "t_users d" and ?vs = "t_verifications d"
  have ok: "accounts_ok ?us ?vs" using assms by (simp add: accounts_inv_def)
  have uniq: "inj_on vr_user_id (set ?vs)" using accounts_okD(2) [OF ok] by (simp add: distinct_map)
  have sw: "swept cutoff d u \<longleftrightarrow> su_status u = UserStatusPending \<and> (\<exists>v \<in> set ?vs. vr_user_id v = su_id u \<and> vr_expires_at v < cutoff)"
    if "u \<in> set ?us" for u
    using that by (auto simp: swept_def abandoned_def list_ex_iff)
  have users: "\<not> swept cutoff d u \<longleftrightarrow>
      (su_status u = UserStatusPending \<longrightarrow> su_id u \<in> vr_user_id ` set (filter (\<lambda>v. cutoff \<le> vr_expires_at v) ?vs))"
    if u: "u \<in> set ?us" for u
  proof (cases "su_status u = UserStatusPending")
    case True
    then obtain v where v: "v \<in> set ?vs" "vr_user_id v = su_id u" using accounts_okD(3) [OF ok, of "su_id u"] u by auto
    then have only: "v' = v" if "v' \<in> set ?vs" "vr_user_id v' = su_id u" for v'
      using that uniq by (metis inj_onD)
    have "swept cutoff d u \<longleftrightarrow> vr_expires_at v < cutoff" using sw [OF u] True v only by metis
    moreover have "su_id u \<in> vr_user_id ` set (filter (\<lambda>v. cutoff \<le> vr_expires_at v) ?vs) \<longleftrightarrow> cutoff \<le> vr_expires_at v"
    proof -
      have "su_id u \<in> vr_user_id ` set (filter (\<lambda>v. cutoff \<le> vr_expires_at v) ?vs) \<longleftrightarrow>
          (\<exists>v' \<in> set ?vs. vr_user_id v' = su_id u \<and> cutoff \<le> vr_expires_at v')"
        by (auto simp: image_iff)
      then show ?thesis using v only by metis
    qed
    ultimately show ?thesis using True by (simp add: not_less)
  qed (use sw [OF u] in simp)
  have "vr_user_id v \<notin> su_id ` set (filter (swept cutoff d) ?us) \<longleftrightarrow> cutoff \<le> vr_expires_at v" if v: "v \<in> set ?vs" for v
  proof -
    obtain u where u: "u \<in> set ?us" "su_id u = vr_user_id v" "su_status u = UserStatusPending"
      using accounts_okD(3) [OF ok, of "vr_user_id v"] v by auto
    have "v' = v" if "v' \<in> set ?vs" "vr_user_id v' = vr_user_id v" for v'
      using that v uniq by (metis inj_onD)
    moreover have "vr_user_id v \<in> su_id ` set (filter (swept cutoff d) ?us)" if "vr_expires_at v < cutoff"
      using that u v sw [OF u(1)] by (auto intro!: image_eqI [of _ su_id u])
    ultimately show ?thesis using sw by (fastforce simp: not_less)
  qed
  then show ?thesis
    unfolding purge_def Let_def using users by (auto cong: filter_cong simp del: set_filter)
qed


text \<open>
  C24. A sweep removes exactly the abandoned accounts. With nothing interleaved, a sweep that reports
  success and held the lock leaves the challenges that had not lapsed more than the grace period ago,
  the pending accounts that still have one and every other account, and reports how many accounts it
  removed; without the lock it changes nothing and reports none. A sweep that fails changes nothing,
  unless only the reply to its commit was lost. A negative grace period makes no sweeper.
\<close>

theorem sweep_exact:
  assumes "accounts_inv d" "serial env" "NewSweeper grace = Ok s" "Sweep s env locked now d = (res, d')"
  shows "0 \<le> grace
    \<and> (\<forall>n. res = Ok n \<longrightarrow> d' = (if locked then purge (now - grace) d else d)
        \<and> n = length (t_users d) - length (t_users d'))
    \<and> (\<forall>e. res = Err e \<longrightarrow> d' = d \<or> (e = ErrCommitTx \<and> tx_commit env = Unacked))"
proof -
  have s: "sw_grace s = grace" "0 \<le> grace" using assms(3) by (auto simp: NewSweeper_def split: if_splits)
  let ?op = "sweep_op env locked (now - grace) d"
  have tx: "WithinTx (txenv.truncate env) ?op d = (res, d')"
    using assms(2,4) s(1) by (simp add: Sweep_def Let_def serial_def)
  have "tx_commit (txenv.truncate env) = tx_commit env" by (simp add: txenv.defs)
  then have err: "d' = d \<or> (e = ErrCommitTx \<and> tx_commit env = Unacked)" if "res = Err e" for e
    using WithinTx_Err [of "txenv.truncate env" ?op d e d'] tx that by auto
  have ok: "d' = (if locked then purge (now - grace) d else d) \<and> n = length (t_users d) - length (t_users d')"
    if "res = Ok n" for n
  proof -
    have op: "?op d = (Ok n, d')" using tx that by (simp add: WithinTx_Ok)
    show ?thesis
    proof (cases locked)
      case True
      then have sql: "sweepSQL (now - grace) d d = (Ok n, d')"
        using op by (simp add: sweep_op_def run_stmt_Ok split: if_splits)
      then have d': "d' = purge (now - grace) d"
        using swept_purge [OF assms(1), of "now - grace"] by (simp add: sweepSQL_def Let_def split: if_splits)
      have "n = length (filter (swept (now - grace) d) (t_users d))"
        "t_users d' = filter (\<lambda>u. \<not> swept (now - grace) d u) (t_users d)"
        using sql by (auto simp: sweepSQL_def Let_def split: if_splits)
      then show ?thesis using d' True sum_length_filter_compl [of "swept (now - grace) d" "t_users d"] by simp
    next
      case False
      then show ?thesis using op by (simp add: sweep_op_def split: if_splits)
    qed
  qed
  show ?thesis using s(2) ok err by blast
qed

lemma eve_swept:
  "Sweep (Sweeper 10) quiet_context True 200 pending_db = (Ok 1, pending_db\<lparr>t_users := [], t_verifications := []\<rparr>)"
  by (simp add: Sweep_def sweep_op_def sweepSQL_def swept_def abandoned_def user_referenced_def WithinTx_def
      quiet_context_def txenv.defs pending_db_def pending_row_def pending_challenge_def)

theorem sweep_exact_witness:
  "accounts_inv pending_db \<and> NewSweeper 10 = Ok (Sweeper 10)
   \<and> Sweep (Sweeper 10) quiet_context True 200 pending_db = (Ok 1, purge 190 pending_db)
   \<and> t_users (purge 190 pending_db) = []"
proof -
  have g: "NewSweeper 10 = Ok (Sweeper 10)" by (simp add: NewSweeper_def)
  have "serial quiet_context" by (simp add: serial_def quiet_context_def)
  from sweep_exact [OF pending_db_inv this g eve_swept]
  have "pending_db\<lparr>t_users := [], t_verifications := []\<rparr> = purge 190 pending_db" by simp
  then show ?thesis using eve_swept g pending_db_inv by (simp add: purge_def pending_db_def pending_challenge_def pending_row_def)
qed

subsection \<open>The retries end\<close>

text \<open>The transactions one after another: the database the \<open>k\<close>-th starts from, and what it returns.\<close>

fun run_db :: "(nat \<Rightarrow> 'a stmt) \<Rightarrow> db \<Rightarrow> nat \<Rightarrow> db" where
  "run_db tx d 0 = d"
| "run_db tx d (Suc k) = snd (tx k (run_db tx d k))"

definition run_results :: "(nat \<Rightarrow> 'a stmt) \<Rightarrow> db \<Rightarrow> nat \<Rightarrow> nat \<Rightarrow> (store_error, 'a) result list" where
  "run_results tx d k n = map (\<lambda>i. fst (tx i (run_db tx d i))) [k..<n]"

lemma run_results_step: "k < n \<Longrightarrow> run_results tx d k n = fst (tx k (run_db tx d k)) # run_results tx d (Suc k) n"
  by (simp add: run_results_def upt_conv_Cons)

lemma run_results_one: "run_results tx d k (Suc k) = [fst (tx k (run_db tx d k))]"
  by (simp add: run_results_def)

lemma run_results_nonempty: "run_results tx d k n = [] \<longleftrightarrow> n \<le> k"
  by (auto simp: run_results_def)

text \<open>The loop, from its \<open>k\<close>-th transaction on: all results but the last are ones it retries.\<close>

lemma retry_loop_results:
  fixes limit c :: int and res :: "(store_error, 'a) result"
  assumes "retry_loop limit tx k r c (run_db tx d k) = ((res, d'), n)" and "0 \<le> c"
  defines "prior \<equiv> butlast (run_results tx d k n)"
  shows "k < n \<and> d' = run_db tx d n \<and> run_results tx d k n = prior @ [res]
    \<and> set prior \<subseteq> {Err ErrMailAddressInsertRace, Err ErrUserPublicCodeCollision}
    \<and> count_list prior (Err ErrMailAddressInsertRace) \<le> (if r then 0 else 1)
    \<and> count_list prior (Err ErrUserPublicCodeCollision) \<le> nat (limit - c)
    \<and> (res = Err ErrUserPublicCodeCollision \<longrightarrow> count_list prior (Err ErrUserPublicCodeCollision) = nat (limit - c))"
  using assms
proof (induction limit tx k r c "run_db tx d k" arbitrary: prior rule: retry_loop.induct)
  case (1 limit tx k r c)
  obtain x d2 where tx: "tx k (run_db tx d k) = (x, d2)" by fastforce
  have d2: "d2 = run_db tx d (Suc k)" using tx by simp
  have step: "retry_loop limit tx k r c (run_db tx d k) =
       (if x = Err ErrMailAddressInsertRace \<and> \<not> r then retry_loop limit tx (Suc k) True c d2
        else if x = Err ErrUserPublicCodeCollision \<and> c < limit then retry_loop limit tx (Suc k) r (c + 1) d2
        else ((x, d2), Suc k))"
    using retry_loop_step [where tx = tx and k = k and d = "run_db tx d k"] tx by blast
  have more: "run_results tx d k n = x # run_results tx d (Suc k) n" if "Suc k < n"
    using that tx by (simp add: run_results_step)
  consider (race) "x = Err ErrMailAddressInsertRace" "\<not> r" | (code) "x = Err ErrUserPublicCodeCollision" "c < limit"
    | (stop) "\<not> (x = Err ErrMailAddressInsertRace \<and> \<not> r)" "\<not> (x = Err ErrUserPublicCodeCollision \<and> c < limit)" by blast
  then show ?case
  proof cases
    case race
    note IH = 1(1) [OF tx [unfolded d2, symmetric]]
    from race 1(3) step have "retry_loop limit tx (Suc k) True c (run_db tx d (Suc k)) = ((res, d'), n)" by (simp add: d2)
    from IH [OF _ this 1(4)] race show ?thesis using more by (auto simp: run_results_nonempty)
  next
    case code
    note IH = 1(2) [OF tx [unfolded d2, symmetric]]
    from code 1(3) step have "retry_loop limit tx (Suc k) r (c + 1) (run_db tx d (Suc k)) = ((res, d'), n)" by (simp add: d2)
    from IH [OF _ _ _ this] code 1(4) show ?thesis using more by (auto simp: run_results_nonempty split: if_splits)
  next
    case stop
    then have "res = x" "d' = d2" "n = Suc k" using 1(3) unfolding step by auto
    then show ?thesis using stop tx 1(4) by (auto simp: run_results_one)
  qed
qed

text \<open>
  C32. Registration gives up after a bounded number of transactions, and only for cause. Whatever the
  transactions do, each on the database the one before left: at least one and at most
  \<open>CollisionRetries + 2\<close> of them run, and the result is the last one's. Every one before it returned one of the
  two errors that are retried, a lost race for the address at most once; and when a public-code collision is
  reported, exactly \<open>CollisionRetries + 1\<close> transactions returned that collision, the last included.
\<close>

theorem registration_retries_bounded:
  assumes "retry_loop limit tx 0 False 0 d = ((res, d'), runs)"
  shows "1 \<le> runs \<and> runs \<le> nat limit + 2 \<and> d' = run_db tx d runs
    \<and> (\<exists>prior. run_results tx d 0 runs = prior @ [res]
        \<and> set prior \<subseteq> {Err ErrMailAddressInsertRace, Err ErrUserPublicCodeCollision}
        \<and> count_list prior (Err ErrMailAddressInsertRace) \<le> 1)
    \<and> (res = Err ErrUserPublicCodeCollision \<longrightarrow>
        count_list (run_results tx d 0 runs) (Err ErrUserPublicCodeCollision) = nat limit + 1)"
proof -
  have "retry_loop limit tx 0 False 0 (run_db tx d 0) = ((res, d'), runs)" using assms by simp
  note r = retry_loop_results [OF this order_refl]
  have "runs \<le> nat limit + 2" using retry_loop_runs [of 0 limit tx 0 False d] assms by auto
  moreover have "count_list (run_results tx d 0 runs) (Err ErrUserPublicCodeCollision) = nat limit + 1"
    if "res = Err ErrUserPublicCodeCollision"
    using r that arg_cong [of _ _ "\<lambda>rs. count_list rs (Err ErrUserPublicCodeCollision :: (store_error, 'a) result)"]
    by (metis One_nat_def Suc_eq_plus1 count_list.simps(1,2) count_list_append diff_zero plus_nat.add_0)
  ultimately show ?thesis using r by (auto intro!: exI [of _ "butlast (run_results tx d 0 runs)"])
qed

theorem registration_retries_bounded_witness:
  "retry_loop 1 (\<lambda>k d. (if k = 1 then Err ErrMailAddressInsertRace else Err ErrUserPublicCodeCollision, d)) 0 False 0 pending_db
     = ((Err ErrUserPublicCodeCollision :: (store_error, nat) result, pending_db), 3)
   \<and> (3 :: nat) \<le> nat 1 + 2
   \<and> count_list (run_results (\<lambda>k d. (if k = 1 then Err ErrMailAddressInsertRace
         else Err ErrUserPublicCodeCollision :: (store_error, nat) result, d)) pending_db 0 3) (Err ErrUserPublicCodeCollision) = 2"
proof -
  have run: "retry_loop 1 (\<lambda>k d. (if k = 1 then Err ErrMailAddressInsertRace else Err ErrUserPublicCodeCollision, d)) 0 False 0 pending_db
     = ((Err ErrUserPublicCodeCollision :: (store_error, nat) result, pending_db), 3)"
    by (simp add: retry_loop.simps)
  then show ?thesis using registration_retries_bounded [OF run] by simp
qed

subsection \<open>From registration to activation\<close>

text \<open>The challenge a registration or a resend leaves, with the PIN it sends.\<close>

definition issued ::
  "text_lib \<Rightarrow> bcrypt_lib \<Rightarrow> registration_policy \<Rightarrow> tx_context \<Rightarrow> mail_address \<Rightarrow> pin \<Rightarrow> db \<Rightarrow> user \<Rightarrow> bool" where
  "issued T B pol env mail pin d user \<longleftrightarrow>
     FindByEmail T Acked mail d = Ok user \<and> usr_Status user = UserStatusPending
     \<and> (\<exists>v. find (\<lambda>v. vr_user_id v = user_int64 (usr_ID user)) (t_verifications d) = Some v \<and> vr_attempts v = 0
          \<and> vr_expires_at v = tc_clock env + po_PinTTL pol \<and> newHashedPIN B env = Ok (pin, vr_pin_hash v))"

lemma find_SomeD: "find p xs = Some x \<Longrightarrow> x \<in> set xs \<and> p x"
  by (auto simp: find_Some_iff)

lemma last_row: "p x \<Longrightarrow> \<forall>y \<in> set xs. \<not> p y \<Longrightarrow> find p (xs @ [x]) = Some x"
  by (induction xs) auto

lemma find_key: "distinct (map vr_user_id vs) \<Longrightarrow> w \<in> set vs \<Longrightarrow> find (\<lambda>v. vr_user_id v = vr_user_id w) vs = Some w"
  by (induction vs) (auto simp: image_iff)

lemma createPending_issues:
  assumes "accounts_inv d" "createPending T B pol env params hash d = (Ok (user, pin), d')"
  shows "issued T B pol env (re_MailAddress params) pin d' user"
  using assms(2)
proof (rule createPending_Ok)
  fix row v pinHash
  assume d': "d' = d\<lparr>t_users := t_users d @ [row], t_verifications := t_verifications d @ [v]\<rparr>"
    and h: "newHashedPIN B env = Ok (pin, pinHash)" and row: "userRow_toDomain T row = Ok user"
      "su_status row = UserStatusPending" "su_mail_address row = mail_string (re_MailAddress params)"
    and fresh: "su_id row \<notin> su_id ` set (t_users d)" "su_mail_address row \<notin> su_mail_address ` set (t_users d)"
    and v: "vr_user_id v = su_id row" "vr_pin_hash v = pinHash" "vr_expires_at v = tc_clock env + po_PinTTL pol" "vr_attempts v = 0"
  have uid: "user_int64 (usr_ID user) = su_id row" "usr_Status user = UserStatusPending"
    using userRow_toDomain_Ok [OF row(1)] row(2) by auto
  have "su_id row \<notin> vr_user_id ` set (t_verifications d)"
    using assms(1) fresh(1) accounts_okD(3) [of "t_users d" "t_verifications d" "su_id row"]
    unfolding accounts_inv_def by (metis imageI)
  moreover have "find (\<lambda>u. su_mail_address u = mail_string (re_MailAddress params)) (t_users d @ [row]) = Some row"
    using fresh(2) row(3) by (intro last_row ballI) (simp, metis imageI)
  moreover have "find (\<lambda>v'. vr_user_id v' = su_id row) (t_verifications d @ [v]) = Some v"
    using calculation(1) v(1) by (intro last_row ballI) (simp, metis imageI)
  ultimately show ?thesis
    using h row v uid by (auto simp: issued_def d' FindByEmail_def user_findOne_def)
qed

lemma resendPending_issues:
  assumes "accounts_inv d" "FindByEmail T Acked mail d = Ok user" "usr_Status user = UserStatusPending"
    and "resendPending B pol env (usr_ID user) d = (Ok pin, d')"
  shows "issued T B pol env mail pin d' user"
proof -
  let ?uid = "user_int64 (usr_ID user)"
  obtain h where h: "newHashedPIN B env = Ok (pin, h)"
    and r: "VerificationRepo_Resend (tx_stmt env 1)
        \<lparr>vp_UserID = usr_ID user, vp_PinHash = h, vp_ExpiresAt = tc_clock env + po_PinTTL pol, vp_SentAt = tc_clock env\<rparr>
        \<lparr>rp_PreviousSentBefore = tc_clock env - po_ResendMinInterval pol, rp_MaxResendCount = po_MaxResendCount pol\<rparr> d = (Ok (), d')"
    using assms(4) by (auto simp: resendPending_def split: sum.splits prod.splits)
  let ?pol = "\<lparr>rp_PreviousSentBefore = tc_clock env - po_ResendMinInterval pol, rp_MaxResendCount = po_MaxResendCount pol\<rparr>"
  let ?f = "\<lambda>v. v\<lparr>vr_pin_hash := h, vr_expires_at := tc_clock env + po_PinTTL pol, vr_attempts := 0,
      vr_last_sent_at := Some (tc_clock env), vr_resend_count := vr_resend_count v + 1\<rparr>"
  have ex: "list_ex (may_resend ?uid ?pol) (t_verifications d)"
    and d': "d' = update_challenge (may_resend ?uid ?pol) ?f d"
    using r by (auto simp: VerificationRepo_Resend_def run_stmt_def resendSQL_def Let_def
        split: outcome.splits prod.splits sum.splits if_splits)
  obtain w where w: "w \<in> set (t_verifications d)" "may_resend ?uid ?pol w" using ex by (auto simp: list_ex_iff)
  then have wid: "vr_user_id w = ?uid" by (simp add: may_resend_def)
  have "distinct (map vr_user_id (t_verifications d))" using assms(1) by (simp add: accounts_inv_def accounts_ok_def)
  then have "find (\<lambda>v. vr_user_id v = ?uid) (t_verifications d) = Some w"
    using find_key w(1) wid by metis
  then have "find (\<lambda>v. vr_user_id v = ?uid) (t_verifications d') = Some (?f w)"
    using w(2) by (simp add: d' update_challenge_def find_update)
  moreover have "FindByEmail T Acked mail d' = Ok user"
    using assms(2) by (simp add: d' update_challenge_def FindByEmail_def user_findOne_def)
  ultimately show ?thesis using assms(3) h by (simp add: issued_def)
qed


lemma register_op_issues:
  assumes "accounts_inv d" "register_op T B pol env params d d = (Ok (code, send), d')"
  shows "ps_to send = re_MailAddress params
    \<and> (\<exists>user. issued T B pol env (re_MailAddress params) (ps_pin send) d' user \<and> code = FormatUser (usr_PublicCode user))"
proof (cases "FindByEmail T (tx_stmt env 0) (re_MailAddress params) d")
  case (Inl e)
  then show ?thesis
    using assms createPending_issues [OF assms(1)]
    by (fastforce simp: register_op_def split: sum.splits prod.splits if_splits)
next
  case (Inr existing)
  then have "FindByEmail T Acked (re_MailAddress params) d = Ok existing"
    by (cases "tx_stmt env 0") (auto simp: FindByEmail_def user_findOne_def)
  then show ?thesis
    using Inr assms resendPending_issues [OF assms(1), of T "re_MailAddress params" existing B pol env]
    by (auto simp: register_op_def split: sum.splits prod.splits if_splits)
qed

lemma retry_loop_last:
  assumes "\<And>k d res d'. I d \<Longrightarrow> tx k d = (res, d') \<Longrightarrow> I d'" and "I d"
    and "fst (retry_loop limit tx k r c d) = (Ok x, d')"
  shows "\<exists>j d1. I d1 \<and> tx j d1 = (Ok x, d')"
  using assms
proof (induction limit tx k r c d rule: retry_loop.induct)
  case (1 limit tx k r c d)
  obtain res d2 where tx: "tx k d = (res, d2)" by fastforce
  have "I d2" using 1(3,4) tx by blast
  then show ?case using 1(1) [OF tx [symmetric]] 1(2) [OF tx [symmetric]] 1(3-5) tx
    by (auto simp: retry_loop_step [of tx k d, OF tx] split: if_splits)
qed

lemma issued_verifies:
  assumes laws: "bcrypt_laws B" and iss: "issued T B pol env mail pin d user"
    and pin: "tc_pin env = Ok n" "n < pinBound" and cap: "0 < po_MaxVerifyAttempts pol" and inv: "accounts_inv d"
    and env': "serial env'" "tx_begin env'" "tx_commit env' = Acked" "\<And>i. tx_stmt env' i = Acked"
    and early: "tc_clock env' < tc_clock env + po_PinTTL pol"
  shows "Verify T B pol env' mail (pin_string pin) d = (Ok (), activation (tx_now env') (user_int64 (usr_ID user)) d)"
proof -
  let ?uid = "user_int64 (usr_ID user)"
  from iss obtain v where user: "FindByEmail T Acked mail d = Ok user" "usr_Status user = UserStatusPending"
    and v: "find (\<lambda>v. vr_user_id v = ?uid) (t_verifications d) = Some v" "vr_attempts v = 0"
      "vr_expires_at v = tc_clock env + po_PinTTL pol" and h: "newHashedPIN B env = Ok (pin, vr_pin_hash v)"
    by (auto simp: issued_def)
  have "NewPIN (Ok n) = Ok pin" "pin_Hash B (tc_pin_salt env) pin = Ok (vr_pin_hash v)"
    using h pin(1) by (auto simp: newHashedPIN_def split: sum.splits)
  then have match: "pin_Verify B (vr_pin_hash v) (pin_string pin) = Ok ()"
    using pin_Hash_verifies [OF laws pin(2)] by blast
  obtain row where row: "row \<in> set (t_users d)" "userRow_toDomain T row = Ok user"
    using user(1) by (auto simp: FindByEmail_def user_findOne_def split: option.splits dest!: find_SomeD)
  then have id: "su_id row = ?uid" "0 < ?uid" using userRow_toDomain_Ok [OF row(2)] by auto
  have vm: "v \<in> set (t_verifications d)" "vr_user_id v = ?uid" using v(1) by (auto simp: find_Some_iff)
  obtain ch where ch: "FindByUser Acked (usr_ID user) d = Ok ch" "vf_Attempts ch = 0"
    "vf_ExpiresAt ch = tc_clock env + po_PinTTL pol" "vf_PinHash ch = vr_pin_hash v"
    using v id(2) vm(2) by (auto simp: FindByUser_def verificationRow_toDomain_def NewUserID_def split: sum.splits)
  define d1 where "d1 = snd (update_user_sql ?uid (\<lambda>u. u\<lparr>su_status := UserStatusActive, su_updated_at := tx_now env'\<rparr>) d)"
  have "filter (\<lambda>u. su_id u = ?uid) (t_users d) \<noteq> []" using row(1) id(1) by (auto simp: filter_empty_conv)
  then have set: "SetStatus Acked (tx_now env') (usr_ID user) UserStatusActive d = (Ok (), d1)"
    by (simp add: SetStatus_def update_user_sql_def d1_def)
  have "filter (\<lambda>v. vr_user_id v = ?uid) (t_verifications d) \<noteq> []" using vm by (auto simp: filter_empty_conv)
  then have del: "VerificationRepo_Delete Acked (usr_ID user) d1 = (Ok (), activation (tx_now env') ?uid d)"
    by (simp add: VerificationRepo_Delete_def deleteSQL_def d1_def update_user_sql_def activation_def)
  have "verify_op T B pol env' mail (pin_string pin) d d d = (Ok True, activation (tx_now env') ?uid d)"
    using user ch cap early match set del env'(4) by (simp add: verify_op_def Expired_def)
  then show ?thesis
    using env'(1-3) by (simp add: Verify_def serial_def WithinTx_def txenv.defs)
qed


text \<open>
  C22. A registered account can be activated. When a registration (the first one, or a repeated one for
  a pending account) reports success, it sends exactly one PIN to the registered address; the account now
  registered at that address, still pending, has the public code that was returned; and submitting the PIN
  for the address before the challenge expires makes exactly that account active and deletes its challenge,
  with nothing in between and a working database. bcrypt accepts the password a hash was made from, and the random
  number of a PIN is below a million.
\<close>

theorem registered_account_activates:
  assumes "bcrypt_laws B" "accounts_inv d" "0 < po_MaxVerifyAttempts pol"
    and "\<forall>k. serial (env k) \<and> tc_clock (env k) = t \<and> (\<exists>n < pinBound. tc_pin (env k) = Ok n)"
    and "Register T B pol env params d = (Ok code, sends, d')"
    and "serial env'" "tx_begin env'" "tx_commit env' = Acked" "\<forall>i. tx_stmt env' i = Acked" "tc_clock env' < t + po_PinTTL pol"
  shows "\<exists>send user. sends = [send] \<and> ps_to send = re_MailAddress params
    \<and> FindByEmail T Acked (re_MailAddress params) d' = Ok user \<and> usr_Status user = UserStatusPending
    \<and> code = FormatUser (usr_PublicCode user)
    \<and> Verify T B pol env' (re_MailAddress params) (pin_string (ps_pin send)) d'
        = (Ok (), activation (tx_now env') (user_int64 (usr_ID user)) d')
    \<and> (\<exists>row \<in> set (t_users (activation (tx_now env') (user_int64 (usr_ID user)) d')).
          su_mail_address row = mail_string (re_MailAddress params) \<and> su_status row = UserStatusActive
          \<and> su_id row = user_int64 (usr_ID user))
    \<and> user_int64 (usr_ID user) \<in> vr_user_id ` set (t_verifications d')"
proof -
  let ?tx = "\<lambda>k. register_tx T B pol params (env k)"
  obtain send where sends: "sends = [send]"
    and loop: "fst (retry_loop (po_CollisionRetries pol) ?tx 0 False 0 d) = (Ok (code, send), d')"
    using assms(5) by (auto simp: Register_def split: prod.splits sum.splits)
  have sound: "sound d1 d2" if "?tx k d1 = (res, d2)" for k d1 res d2
    using assms(4) by (intro register_tx_sound [OF _ _ that]) (simp_all add: serial_def)
  then obtain j d1 where d1: "accounts_inv d1" "?tx j d1 = (Ok (code, send), d')"
    using retry_loop_last [of accounts_inv ?tx d, OF _ assms(2) loop] unfolding sound_def by blast
  have inv: "accounts_inv d'" using sound [OF d1(2)] d1(1) by (simp add: sound_def)
  have "register_op T B pol (env j) params d1 d1 = (Ok (code, send), d')"
    using d1(2) assms(4) by (simp add: register_tx_def serial_def WithinTx_Ok)
  from register_op_issues [OF d1(1) this] obtain user where
    iss: "ps_to send = re_MailAddress params" "issued T B pol (env j) (re_MailAddress params) (ps_pin send) d' user"
      "code = FormatUser (usr_PublicCode user)" by blast
  have user: "FindByEmail T Acked (re_MailAddress params) d' = Ok user" "usr_Status user = UserStatusPending"
    using iss(2) by (auto simp: issued_def)
  obtain n where n: "tc_pin (env j) = Ok n" "n < pinBound" using assms(4) by blast
  have "user_int64 (usr_ID user) \<in> vr_user_id ` set (t_verifications d')"
    using iss(2) by (auto simp: issued_def dest!: find_SomeD intro: rev_image_eqI)
  moreover have "Verify T B pol env' (re_MailAddress params) (pin_string (ps_pin send)) d' =
      (Ok (), activation (tx_now env') (user_int64 (usr_ID user)) d')"
    using assms(4,9,10) by (intro issued_verifies [OF assms(1) iss(2) n assms(3) inv assms(6-8)]) auto
  moreover have "\<exists>row \<in> set (t_users (activation (tx_now env') (user_int64 (usr_ID user)) d')).
      su_mail_address row = mail_string (re_MailAddress params) \<and> su_status row = UserStatusActive
      \<and> su_id row = user_int64 (usr_ID user)"
  proof -
    obtain row where "row \<in> set (t_users d')" "su_mail_address row = mail_string (re_MailAddress params)"
        "userRow_toDomain T row = Ok user"
      using user(1) by (auto simp: FindByEmail_def user_findOne_def split: option.splits dest!: find_SomeD)
    then show ?thesis using userRow_toDomain_Ok [of T row user]
      by (auto simp: activation_def intro!: bexI [of _ "row\<lparr>su_status := UserStatusActive, su_updated_at := tx_now env'\<rparr>"]
          rev_image_eqI [of row])
  qed
  ultimately show ?thesis using sends iss(1,3) user by blast
qed


definition later_context :: tx_context where
  "later_context = quiet_context\<lparr>tc_clock := 60 * 1000000000\<rparr>"

definition eve_params :: register_params where
  "eve_params = \<lparr>re_MailAddress = MailAddress ''eve@x.io'', re_Handle = Handle ''eve'', re_Password = ''correct horse''\<rparr>"

definition resent_db :: db where
  "resent_db = pending_db\<lparr>t_verifications := [pending_challenge\<lparr>vr_pin_hash := ''xxxxxxxxxx.000042'',
     vr_expires_at := 660 * 1000000000, vr_last_sent_at := Some (60 * 1000000000), vr_resend_count := 1\<rparr>]\<rparr>"

lemma later_pin: "newHashedPIN tagged_bcrypt later_context = Ok (PIN ''000042'', ''xxxxxxxxxx.000042'')"
proof -
  have rep: "replicate 10 (CHR ''x'') = ''xxxxxxxxxx''" by (simp add: numeral_eq_Suc)
  have "format_padded 6 42 = ''000042''"
    by code_simp
  then show ?thesis
    using digits_valid_pin(1) [of "''000042''"]
    by (simp add: newHashedPIN_def later_context_def quiet_context_def NewPIN_def pinDigits_def pin_Hash_def tagged_bcrypt_def
        pinHashCost_def is_digit_def rep)
qed

lemma eve_registers_again:
  "Register plain_text_lib tagged_bcrypt DefaultRegistrationPolicy (\<lambda>_. later_context) eve_params pending_db
     = (Ok ''U0000000007'', [\<lparr>ps_to = MailAddress ''eve@x.io'', ps_pin = PIN ''000042''\<rparr>], resent_db)"
proof -
  have "resendPending tagged_bcrypt DefaultRegistrationPolicy later_context (UserID 7) pending_db = (Ok (PIN ''000042''), resent_db)"
    using later_pin
    by (simp add: resendPending_def VerificationRepo_Resend_def resendSQL_def update_challenge_def may_resend_def
        DefaultRegistrationPolicy_def later_context_def quiet_context_def pending_db_def resent_db_def pending_challenge_def)
  then have "register_tx plain_text_lib tagged_bcrypt DefaultRegistrationPolicy eve_params later_context pending_db
      = (Ok (''U0000000007'', \<lparr>ps_to = MailAddress ''eve@x.io'', ps_pin = PIN ''000042''\<rparr>), resent_db)"
    by (simp add: register_tx_def register_op_def WithinTx_def later_context_def quiet_context_def txenv.defs eve_params_def
        eve_def FormatUser_def userCodePrefix_def)
  then show ?thesis by (simp add: Register_def retry_loop.simps)
qed

theorem registered_account_activates_witness:
  "Verify plain_text_lib tagged_bcrypt DefaultRegistrationPolicy later_context (MailAddress ''eve@x.io'') ''000042'' resent_db
     = (Ok (), activation 5 7 resent_db)
   \<and> (\<exists>row \<in> set (t_users (activation 5 7 resent_db)). su_mail_address row = ''eve@x.io'' \<and> su_status row = UserStatusActive)"
proof -
  obtain user where "FindByEmail plain_text_lib Acked (MailAddress ''eve@x.io'') resent_db = Ok user"
    and v: "Verify plain_text_lib tagged_bcrypt DefaultRegistrationPolicy later_context (MailAddress ''eve@x.io'') ''000042'' resent_db
      = (Ok (), activation 5 (user_int64 (usr_ID user)) resent_db)"
      "\<exists>row \<in> set (t_users (activation 5 (user_int64 (usr_ID user)) resent_db)). su_mail_address row = ''eve@x.io'' \<and> su_status row = UserStatusActive"
    using registered_account_activates [OF tagged_bcrypt_laws pending_db_inv _ _ eve_registers_again, where t = "60 * 1000000000"
      and env' = later_context]
    by (auto simp: DefaultRegistrationPolicy_def serial_def later_context_def quiet_context_def pinBound_def eve_params_def)
  then have "user_int64 (usr_ID user) = 7"
    by (auto simp: FindByEmail_def user_findOne_def resent_db_def pending_db_def pending_row_def dest!: userRow_toDomain_Ok)
  then show ?thesis using v by simp
qed

end
