(* ===== verification/Authentication.thy ===== *)
theory Authentication
  imports AccountLifecycle
begin

text \<open>
  Who is calling: \<open>internal/auth/jwt.go\<close> with \<open>auth.go\<close> and \<open>errors.go\<close>, and the account directory behind it,
  \<open>internal/gateway/user_directory.go\<close>.

  The JWT library (\<open>golang-jwt\<close>) is a parameter, the record \<open>jwt_lib\<close>: signing, parsing under the options
  the code passes, and the rounding of a \<open>NumericDate\<close>. \<open>jwt_laws\<close> states what it documents. The comparison
  with a dummy hash that equalises timing has no effect in the model.
\<close>

subsection \<open>The account directory\<close>

datatype auth_error =
  ErrTokenInvalid | ErrTokenExpired | ErrInvalidCredentials | ErrAccountPending
  | ErrPublicCodeUnknown | ErrIdentityUnavailable
  | ErrAuthStore store_error | ErrSignToken

record verified_user =
  vu_UserID :: user_id
  vu_PublicCode :: public_code

record login_context =
  lc_find :: outcome
  lc_store :: outcome
  lc_dbnow :: instant
  lc_salt :: nat
  lc_now :: instant

definition rehashPassword ::
  "text_lib \<Rightarrow> bcrypt_lib \<Rightarrow> login_context \<Rightarrow> user_id \<Rightarrow> string \<Rightarrow> db \<Rightarrow> db" where
  "rehashPassword T B env userID password d =
     (case HashPassword T B (lc_salt env) password of
        Inl _ \<Rightarrow> d
      | Inr hash \<Rightarrow> snd (SetPasswordHash (lc_store env) (lc_dbnow env) userID hash d))"

definition VerifyCredentials ::
  "text_lib \<Rightarrow> bcrypt_lib \<Rightarrow> login_context \<Rightarrow> string \<Rightarrow> string \<Rightarrow> db \<Rightarrow> (auth_error, verified_user) result \<times> db" where
  "VerifyCredentials T B env mailAddress password d =
     (case NewMailAddress T mailAddress of
        Inl _ \<Rightarrow> (Err ErrInvalidCredentials, d)
      | Inr addr \<Rightarrow>
      case FindByEmail T (lc_find env) addr d of
        Inl e \<Rightarrow> (Err (if e = ErrUserNotFound then ErrInvalidCredentials else ErrAuthStore e), d)
      | Inr user \<Rightarrow>
      if \<not> VerifyPassword T B (usr_PasswordHash user) password then (Err ErrInvalidCredentials, d)
      else if usr_Status user = UserStatusPending then (Err ErrAccountPending, d)
      else if usr_Status user \<noteq> UserStatusActive then (Err ErrInvalidCredentials, d)
      else (Ok \<lparr>vu_UserID = usr_ID user, vu_PublicCode = usr_PublicCode user\<rparr>,
            if PasswordNeedsRehash B (usr_PasswordHash user)
            then rehashPassword T B env (usr_ID user) password d else d))"

definition ResolveUserID :: "outcome \<Rightarrow> public_code \<Rightarrow> db \<Rightarrow> (auth_error, user_id) result" where
  "ResolveUserID oc code d =
     (case ResolveByPublicCode oc code d of
        Inl e \<Rightarrow> Err (if e = ErrUserNotFound then ErrPublicCodeUnknown else ErrAuthStore e)
      | Inr userID \<Rightarrow> Ok userID)"

subsection \<open>Tokens\<close>

record jwt_claims =
  jc_Subject :: string
  jc_Issuer :: string
  jc_Audience :: "string list"
  jc_ExpiresAt :: "instant option"
  jc_IssuedAt :: "instant option"

record jwt_options =
  jo_ValidMethods :: "string list"
  jo_ExpirationRequired :: bool
  jo_Issuer :: string
  jo_Audience :: string

datatype jwt_error = JwtExpired | JwtOther

record jwt_lib =
  jl_date :: "instant \<Rightarrow> instant"
  jl_sign :: "string \<Rightarrow> jwt_claims \<Rightarrow> (unit, string) result"
  jl_parse :: "jwt_options \<Rightarrow> string \<Rightarrow> instant \<Rightarrow> string \<Rightarrow> (jwt_error, jwt_claims) result"

text \<open>
  What the library documents: dates are cut to the second; a token this key signed with HS256 parses to
  its claims when it has the required claims and has not expired; and whatever parses has them.
\<close>

definition jwt_laws :: "jwt_lib \<Rightarrow> bool" where
  "jwt_laws L \<longleftrightarrow>
     (\<forall>t. jl_date L t = (t div 1000000000) * 1000000000)
     \<and> (\<forall>opts key now c tok e. jl_sign L key c = Ok tok \<and> tok \<noteq> [] \<and> ''HS256'' \<in> set (jo_ValidMethods opts)
          \<and> jc_Issuer c = jo_Issuer opts \<and> jo_Audience opts \<in> set (jc_Audience c)
          \<and> jc_ExpiresAt c = Some e \<and> now < e \<longrightarrow> jl_parse L opts key now tok = Ok c)
     \<and> (\<forall>key c tok. jl_sign L key c = Ok tok \<longrightarrow> tok \<noteq> [])
     \<and> (\<forall>opts key now tok c. jl_parse L opts key now tok = Ok c \<longrightarrow>
          jc_Issuer c = jo_Issuer opts \<and> jo_Audience opts \<in> set (jc_Audience c)
          \<and> (jo_ExpirationRequired opts \<longrightarrow> (\<exists>e. jc_ExpiresAt c = Some e \<and> now < e)))"

definition defaultExpiration :: duration where "defaultExpiration = 10 * 60 * 1000000000"
definition Issuer :: string where "Issuer = ''blabby''"
definition Audience :: string where "Audience = ''blabby''"

record jwt_authenticator =
  ja_signingKey :: string
  ja_expiration :: duration

text \<open>\<open>NewJWTAuthenticator\<close> and its option; a panic is no authenticator.\<close>

definition NewJWTAuthenticator :: "string \<Rightarrow> duration option \<Rightarrow> jwt_authenticator option" where
  "NewJWTAuthenticator key expiration =
     (if key = [] then None
      else case expiration of
             None \<Rightarrow> Some \<lparr>ja_signingKey = key, ja_expiration = defaultExpiration\<rparr>
           | Some e \<Rightarrow> if e \<le> 0 then None else Some \<lparr>ja_signingKey = key, ja_expiration = e\<rparr>)"

record auth_result =
  ar_UserID :: user_id
  ar_Token :: string

definition Authenticate ::
  "text_lib \<Rightarrow> bcrypt_lib \<Rightarrow> jwt_lib \<Rightarrow> jwt_authenticator \<Rightarrow> login_context \<Rightarrow> string \<Rightarrow> string
     \<Rightarrow> db \<Rightarrow> (auth_error, auth_result) result \<times> db" where
  "Authenticate T B L a env mailAddress password d =
     (case VerifyCredentials T B env mailAddress password d of
        (Inl e, d') \<Rightarrow> (Err e, d')
      | (Inr user, d') \<Rightarrow>
          (case jl_sign L (ja_signingKey a)
                  \<lparr>jc_Subject = FormatUser (vu_PublicCode user), jc_Issuer = Issuer, jc_Audience = [Audience],
                   jc_ExpiresAt = Some (jl_date L (lc_now env + ja_expiration a)),
                   jc_IssuedAt = Some (jl_date L (lc_now env))\<rparr> of
             Inl _ \<Rightarrow> (Err ErrSignToken, d')
           | Inr tok \<Rightarrow> (Ok \<lparr>ar_UserID = vu_UserID user, ar_Token = tok\<rparr>, d')))"

record claims =
  cl_UserID :: user_id
  cl_Issuer :: string
  cl_Audience :: "string list"
  cl_ExpiresAt :: instant
  cl_IssuedAt :: instant

definition parse_options :: jwt_options where
  "parse_options = \<lparr>jo_ValidMethods = [''HS256''], jo_ExpirationRequired = True, jo_Issuer = Issuer, jo_Audience = Audience\<rparr>"

text \<open>\<open>ValidateToken\<close>; a token without \<open>exp\<close> never parses, so its absence would be a nil dereference.\<close>

definition ValidateToken ::
  "jwt_lib \<Rightarrow> jwt_authenticator \<Rightarrow> instant \<Rightarrow> outcome \<Rightarrow> string \<Rightarrow> db \<Rightarrow> (auth_error, claims) result option" where
  "ValidateToken L a now oc tok d =
     (if tok = [] then Some (Err ErrTokenInvalid)
      else case jl_parse L parse_options (ja_signingKey a) now tok of
        Inl e \<Rightarrow> Some (Err (if e = JwtExpired then ErrTokenExpired else ErrTokenInvalid))
      | Inr c \<Rightarrow>
      case ParseUserCode (jc_Subject c) of
        Inl _ \<Rightarrow> Some (Err ErrTokenInvalid)
      | Inr code \<Rightarrow>
      case ResolveUserID oc code d of
        Inl e \<Rightarrow> Some (Err (if e = ErrPublicCodeUnknown then ErrTokenInvalid else ErrIdentityUnavailable))
      | Inr userID \<Rightarrow>
      case jc_ExpiresAt c of
        None \<Rightarrow> None
      | Some e \<Rightarrow>
          Some (Ok \<lparr>cl_UserID = userID, cl_Issuer = jc_Issuer c, cl_Audience = jc_Audience c, cl_ExpiresAt = e,
                    cl_IssuedAt = (case jc_IssuedAt c of None \<Rightarrow> zero_time | Some t \<Rightarrow> t)\<rparr>))"

subsection \<open>Facts\<close>

lemma jwt_lawsD:
  assumes "jwt_laws L"
  shows "jl_date L t = (t div 1000000000) * 1000000000"
    and "jl_sign L key c = Ok tok \<Longrightarrow> tok \<noteq> []"
    and "jl_sign L key c = Ok tok \<Longrightarrow> ''HS256'' \<in> set (jo_ValidMethods opts) \<Longrightarrow> jc_Issuer c = jo_Issuer opts \<Longrightarrow>
      jo_Audience opts \<in> set (jc_Audience c) \<Longrightarrow> jc_ExpiresAt c = Some e \<Longrightarrow> now < e \<Longrightarrow> jl_parse L opts key now tok = Ok c"
    and "jl_parse L opts key now tok = Ok c \<Longrightarrow> jo_ExpirationRequired opts \<Longrightarrow> \<exists>e. jc_ExpiresAt c = Some e \<and> now < e"
  using assms unfolding jwt_laws_def by blast+

lemma ResolveUserID_Ok:
  "ResolveUserID oc code d = Ok u \<longleftrightarrow>
     oc = Acked \<and> (\<exists>row. find (\<lambda>u. su_public_code u = code_string code) (t_users d) = Some row \<and> 0 < su_id row \<and> u = UserID (su_id row))"
  by (auto simp: ResolveUserID_def ResolveByPublicCode_def NewUserID_def split: sum.splits option.splits if_splits)

lemma FindByEmail_row:
  assumes "FindByEmail T oc mail d = Ok user"
  obtains row where "row \<in> set (t_users d)" "su_mail_address row = mail_string mail" "userRow_toDomain T row = Ok user"
    "su_id row = user_int64 (usr_ID user)" "0 < su_id row" "usr_Status user = su_status row"
    "usr_PasswordHash user = su_password_hash row" "ParsePublicCode (su_public_code row) = Ok (usr_PublicCode user)"
proof -
  obtain row where row: "row \<in> set (t_users d)" "su_mail_address row = mail_string mail" "userRow_toDomain T row = Ok user"
    using assms by (auto simp: FindByEmail_def user_findOne_def split: if_splits option.splits dest!: find_SomeD)
  moreover have "usr_PasswordHash user = su_password_hash row"
    using row(3) by (auto simp: userRow_toDomain_def split: sum.splits if_splits)
  ultimately show thesis using userRow_toDomain_Ok [OF row(3)] by (intro that) auto
qed


lemma find_unique:
  assumes "x \<in> set xs" "p x" "\<And>y. y \<in> set xs \<Longrightarrow> p y \<Longrightarrow> y = x"
  shows "find p xs = Some x"
proof (cases "find p xs")
  case None
  then show ?thesis using assms(1,2) by (auto simp: find_None_iff)
next
  case (Some y)
  then show ?thesis using assms(3) [of y] find_SomeD [OF Some] by simp
qed

lemma VerifyCredentials_Ok:
  assumes "VerifyCredentials T B env mail pw d = (Ok vu, d')"
  obtains addr row where "NewMailAddress T mail = Ok addr" "row \<in> set (t_users d)" "su_mail_address row = mail_string addr"
    "su_status row = UserStatusActive" "VerifyPassword T B (su_password_hash row) pw" "vu_UserID vu = UserID (su_id row)"
    "0 < su_id row" "ParsePublicCode (su_public_code row) = Ok (vu_PublicCode vu)"
    "d' = d \<or> (\<exists>hash. d' = snd (SetPasswordHash (lc_store env) (lc_dbnow env) (vu_UserID vu) hash d))"
proof -
  obtain addr user where u: "NewMailAddress T mail = Ok addr" "FindByEmail T (lc_find env) addr d = Ok user"
      "VerifyPassword T B (usr_PasswordHash user) pw" "usr_Status user = UserStatusActive"
      "vu = \<lparr>vu_UserID = usr_ID user, vu_PublicCode = usr_PublicCode user\<rparr>"
    and d': "d' = (if PasswordNeedsRehash B (usr_PasswordHash user) then rehashPassword T B env (usr_ID user) pw d else d)"
    using assms by (auto simp: VerifyCredentials_def split: sum.splits if_splits)
  have eff: "d' = d \<or> (\<exists>hash. d' = snd (SetPasswordHash (lc_store env) (lc_dbnow env) (vu_UserID vu) hash d))"
    using d' u(5) by (auto simp: rehashPassword_def split: sum.splits)
  show thesis
    by (rule FindByEmail_row [OF u(2)]) (rule that [OF u(1)], use u(3-5) eff in \<open>auto simp: user_id.expand\<close>)
qed

lemma VerifyCredentials_reach:
  assumes "VerifyCredentials T B env mail pw d = (res, d')"
  shows "areach T' B' pol d d'"
proof (cases res)
  case (Inl e)
  then show ?thesis using assms by (auto simp: VerifyCredentials_def areach.stay split: sum.splits if_splits)
next
  case (Inr vu)
  with assms show ?thesis
    by (auto elim!: VerifyCredentials_Ok intro: areach.stay areach.rehash [OF prod.collapse [symmetric]])
qed

lemma Authenticate_cases:
  assumes "Authenticate T B L a env mail pw d = (res, d')"
  shows "\<exists>v. VerifyCredentials T B env mail pw d = (v, d')"
  using assms by (auto simp: Authenticate_def split: prod.splits sum.splits)

text \<open>
  C10. Only the password of an activated account logs in. A login that succeeds was for an address with
  an active account whose stored hash accepts the password; the identity returned is that account's, and the
  token is what the signer made, with the authenticator's key, of claims whose subject is the public code of
  that account's row, issued by and for the chat server now and expiring after the configured time; the only
  write is at most a new hash for the account; when the address belongs to an account that awaits verification,
  the right password is answered with the pending error and any other with the uniform refusal, and
  nothing is written.
\<close>

theorem login_needs_active_account:
  assumes "Authenticate T B L a env mail pw d = (res, d')"
  shows "(\<forall>r. res = Ok r \<longrightarrow> (\<exists>addr row. NewMailAddress T mail = Ok addr \<and> row \<in> set (t_users d)
        \<and> su_mail_address row = mail_string addr \<and> su_status row = UserStatusActive
        \<and> VerifyPassword T B (su_password_hash row) pw \<and> ar_UserID r = UserID (su_id row)
        \<and> (\<exists>code. ParsePublicCode (su_public_code row) = Ok code
             \<and> jl_sign L (ja_signingKey a)
                 \<lparr>jc_Subject = FormatUser code, jc_Issuer = Issuer, jc_Audience = [Audience],
                  jc_ExpiresAt = Some (jl_date L (lc_now env + ja_expiration a)),
                  jc_IssuedAt = Some (jl_date L (lc_now env))\<rparr> = Ok (ar_Token r))
        \<and> (d' = d \<or> (\<exists>hash. d' = snd (SetPasswordHash (lc_store env) (lc_dbnow env) (ar_UserID r) hash d)))))
    \<and> (\<forall>addr user. NewMailAddress T mail = Ok addr \<and> FindByEmail T (lc_find env) addr d = Ok user
        \<and> usr_Status user = UserStatusPending \<longrightarrow>
        d' = d \<and> res = Err (if VerifyPassword T B (usr_PasswordHash user) pw then ErrAccountPending else ErrInvalidCredentials))"
proof (intro conjI allI impI)
  fix r assume "res = Ok r"
  then obtain vu where "VerifyCredentials T B env mail pw d = (Ok vu, d')" "ar_UserID r = vu_UserID vu"
    "jl_sign L (ja_signingKey a) \<lparr>jc_Subject = FormatUser (vu_PublicCode vu), jc_Issuer = Issuer, jc_Audience = [Audience],
        jc_ExpiresAt = Some (jl_date L (lc_now env + ja_expiration a)), jc_IssuedAt = Some (jl_date L (lc_now env))\<rparr> = Ok (ar_Token r)"
    using assms by (auto simp: Authenticate_def split: prod.splits sum.splits)
  then show "\<exists>addr row. NewMailAddress T mail = Ok addr \<and> row \<in> set (t_users d)
        \<and> su_mail_address row = mail_string addr \<and> su_status row = UserStatusActive
        \<and> VerifyPassword T B (su_password_hash row) pw \<and> ar_UserID r = UserID (su_id row)
        \<and> (\<exists>code. ParsePublicCode (su_public_code row) = Ok code
             \<and> jl_sign L (ja_signingKey a)
                 \<lparr>jc_Subject = FormatUser code, jc_Issuer = Issuer, jc_Audience = [Audience],
                  jc_ExpiresAt = Some (jl_date L (lc_now env + ja_expiration a)),
                  jc_IssuedAt = Some (jl_date L (lc_now env))\<rparr> = Ok (ar_Token r))
        \<and> (d' = d \<or> (\<exists>hash. d' = snd (SetPasswordHash (lc_store env) (lc_dbnow env) (ar_UserID r) hash d)))"
    by (auto elim!: VerifyCredentials_Ok)
qed (use assms in \<open>auto simp: Authenticate_def VerifyCredentials_def split: prod.splits sum.splits if_splits\<close>)


subsection \<open>Examples\<close>

text \<open>An activated account with a password, and a signer that issues one token.\<close>

definition eve_hash :: string where
  "eve_hash = replicate 12 (CHR ''x'') @ CHR ''.'' # prehash plain_text_lib ''correct horse''"

definition active_row :: service_user where
  "active_row = pending_row\<lparr>su_status := UserStatusActive, su_password_hash := eve_hash\<rparr>"

definition login_db :: db where
  "login_db = pending_db\<lparr>t_users := [active_row], t_verifications := []\<rparr>"

definition login_env :: login_context where
  "login_env = \<lparr>lc_find = Acked, lc_store = Acked, lc_dbnow = 0, lc_salt = 0, lc_now = 0\<rparr>"

definition eve_claims :: jwt_claims where
  "eve_claims = \<lparr>jc_Subject = ''U0000000007'', jc_Issuer = Issuer, jc_Audience = [Audience],
     jc_ExpiresAt = Some (600 * 1000000000), jc_IssuedAt = Some 0\<rparr>"

definition one_token_jwt :: jwt_lib where
  "one_token_jwt =
     \<lparr>jl_date = (\<lambda>t. (t div 1000000000) * 1000000000),
      jl_sign = (\<lambda>key c. if c = eve_claims then Ok ''tok'' else Err ()),
      jl_parse = (\<lambda>opts key now tok.
        if tok = ''tok'' \<and> jo_Issuer opts = Issuer \<and> jo_Audience opts = Audience
        then if now < 600 * 1000000000 then Ok eve_claims else Err JwtExpired
        else Err JwtOther)\<rparr>"

lemma one_token_jwt_laws: "jwt_laws one_token_jwt"
  by (auto simp: jwt_laws_def one_token_jwt_def eve_claims_def split: if_splits)

definition demo_auth :: jwt_authenticator where
  "demo_auth = \<lparr>ja_signingKey = ''key'', ja_expiration = defaultExpiration\<rparr>"

lemma eve_password: "VerifyPassword plain_text_lib tagged_bcrypt eve_hash ''correct horse''"
  "\<not> PasswordNeedsRehash tagged_bcrypt eve_hash"
  using HashPassword_verifies [OF tagged_bcrypt_laws, of plain_text_lib 0 "''correct horse''" eve_hash]
  by (simp_all add: HashPassword_def tagged_bcrypt_def eve_hash_def PasswordTargetCost_def)

lemma eve_logs_in:
  "Authenticate plain_text_lib tagged_bcrypt one_token_jwt demo_auth login_env ''eve@x.io'' ''correct horse'' login_db
     = (Ok \<lparr>ar_UserID = UserID 7, ar_Token = ''tok''\<rparr>, login_db)"
proof -
  have "userRow_toDomain plain_text_lib active_row = Ok (eve\<lparr>usr_Status := UserStatusActive, usr_PasswordHash := eve_hash\<rparr>)"
    by (simp add: userRow_toDomain_def active_row_def pending_row_def eve_def eve_mail eve_handle eve_code NewUserID_def
        ParseUserStatus_def handle_normalized_def to_lower_ascii_def to_lower_char_def)
  then have find: "FindByEmail plain_text_lib Acked (MailAddress ''eve@x.io'') login_db
      = Ok (eve\<lparr>usr_Status := UserStatusActive, usr_PasswordHash := eve_hash\<rparr>)"
    by (simp add: FindByEmail_def user_findOne_def login_db_def) (simp add: active_row_def pending_row_def)
  have "VerifyCredentials plain_text_lib tagged_bcrypt login_env ''eve@x.io'' ''correct horse'' login_db
      = (Ok \<lparr>vu_UserID = UserID 7, vu_PublicCode = PublicCode ''0000000007''\<rparr>, login_db)"
    using find eve_password by (simp add: VerifyCredentials_def eve_mail login_env_def eve_def)
  then show ?thesis
    by (simp add: Authenticate_def one_token_jwt_def demo_auth_def login_env_def defaultExpiration_def eve_claims_def
        FormatUser_def userCodePrefix_def)
qed

theorem login_needs_active_account_witness:
  "\<exists>addr row. NewMailAddress plain_text_lib ''eve@x.io'' = Ok addr \<and> row \<in> set (t_users login_db)
     \<and> su_mail_address row = mail_string addr \<and> su_status row = UserStatusActive
     \<and> VerifyPassword plain_text_lib tagged_bcrypt (su_password_hash row) ''correct horse''"
  using login_needs_active_account [OF eve_logs_in] by blast

text \<open>
  C9. A token names its account for as long as it lasts. When a login succeeds, the token it returns
  is accepted until the second its expiry was cut to, on whatever database the account operations have
  led to meanwhile, and names the account that logged in; an empty token is never issued. The signing
  library accepts what it signed and the table holds canonical public codes.
\<close>

theorem token_roundtrip:
  assumes "jwt_laws L" "accounts_inv d" "list_all (\<lambda>u. valid_code (PublicCode (su_public_code u))) (t_users d)"
    and "Authenticate T B L a env mail pw d = (Ok r, d')" "areach T B pol d' d''"
    and "now < ((lc_now env + ja_expiration a) div 1000000000) * 1000000000"
  shows "ar_Token r \<noteq> [] \<and> (\<exists>c. ValidateToken L a now Acked (ar_Token r) d'' = Some (Ok c) \<and> cl_UserID c = ar_UserID r)"
proof -
  obtain vu where vc: "VerifyCredentials T B env mail pw d = (Ok vu, d')" and uid: "ar_UserID r = vu_UserID vu"
    and sign: "jl_sign L (ja_signingKey a) \<lparr>jc_Subject = FormatUser (vu_PublicCode vu), jc_Issuer = Issuer, jc_Audience = [Audience],
        jc_ExpiresAt = Some (jl_date L (lc_now env + ja_expiration a)), jc_IssuedAt = Some (jl_date L (lc_now env))\<rparr> = Ok (ar_Token r)"
    using assms(4) by (auto simp: Authenticate_def split: prod.splits sum.splits)
  obtain row where row: "row \<in> set (t_users d)" "su_status row = UserStatusActive" "vu_UserID vu = UserID (su_id row)" "0 < su_id row"
    "ParsePublicCode (su_public_code row) = Ok (vu_PublicCode vu)"
    using VerifyCredentials_Ok [OF vc] by metis
  have code: "valid_code (vu_PublicCode vu)" "code_string (vu_PublicCode vu) = su_public_code row"
    using row(1,5) assms(3) ParsePublicCode_string [of "PublicCode (su_public_code row)"] by (auto simp: list_all_iff)
  have "areach T B pol d d''"
    using VerifyCredentials_reach [OF vc] assms(5) by (rule areach.chain)
  then have inv: "accounts_inv d''" and "settled d d''" using areach_sound assms(2) by (auto simp: sound_def)
  then obtain u where u: "u \<in> set (t_users d'')" "su_id u = su_id row" "su_public_code u = su_public_code row"
    using row(1,2) by (auto simp: settled_def)
  have "inj_on su_public_code (set (t_users d''))" using inv by (simp add: accounts_inv_def accounts_ok_def distinct_map)
  then have "find (\<lambda>u. su_public_code u = code_string (vu_PublicCode vu)) (t_users d'') = Some u"
    using u(1,3) code(2) by (intro find_unique) (simp_all, metis inj_onD)
  then have "ResolveUserID Acked (vu_PublicCode vu) d'' = Ok (vu_UserID vu)"
    using row(3,4) u(2) by (simp add: ResolveUserID_Ok)
  moreover have "jl_parse L parse_options (ja_signingKey a) now (ar_Token r) =
      Ok \<lparr>jc_Subject = FormatUser (vu_PublicCode vu), jc_Issuer = Issuer, jc_Audience = [Audience],
        jc_ExpiresAt = Some (jl_date L (lc_now env + ja_expiration a)), jc_IssuedAt = Some (jl_date L (lc_now env))\<rparr>"
    using assms(6) jwt_lawsD(1) [OF assms(1)] by (intro jwt_lawsD(3) [OF assms(1) sign]) (auto simp: parse_options_def)
  ultimately show ?thesis
    using jwt_lawsD(2) [OF assms(1) sign] code(1) uid by (simp add: ValidateToken_def ParseUserCode_FormatUser)
qed


lemma login_db_inv: "accounts_inv login_db"
  by (simp add: accounts_inv_def accounts_ok_def login_db_def active_row_def pending_row_def)

theorem token_roundtrip_witness:
  "\<exists>c. ValidateToken one_token_jwt demo_auth 1000000000 Acked ''tok'' login_db = Some (Ok c) \<and> cl_UserID c = UserID 7"
proof -
  have codes: "list_all (\<lambda>u. valid_code (PublicCode (su_public_code u))) (t_users login_db)"
    by (simp add: login_db_def active_row_def pending_row_def valid_code_def publicCodeLen_def crockfordAlphabet_def)
  show ?thesis
    using token_roundtrip [OF one_token_jwt_laws login_db_inv codes eve_logs_in areach.stay, of 1000000000]
    by (simp add: login_env_def demo_auth_def defaultExpiration_def)
qed

end
