(* ===== verification/Gateway.thy ===== *)
theory Gateway
  imports Authentication ErrCode Wire
begin

text \<open>
  The HTTP surface of \<open>internal/gateway\<close>: decoding, the error envelope, the account handlers and the
  authentication middleware.

  A request is the record \<open>request\<close>: the headers, path values and query values the handlers read, and
  what the JSON decoder makes of the body under a byte cap (\<open>encoding/json\<close> over \<open>MaxBytesReader\<close>): the
  string fields of one value or a failure, and what a second read finds. \<open>http_lib\<close> holds
  \<open>mime.ParseMediaType\<close>. A response is its status and its body; log lines are not modelled.
\<close>

subsection \<open>Requests and responses\<close>

datatype decode_outcome = Decoded "string \<Rightarrow> string" | DecodeTooLarge | DecodeFailed

datatype trailing = AtEOF | TrailingTooLarge | TrailingData

record request =
  rq_content_type :: string
  rq_authorization :: string
  rq_path :: "string \<Rightarrow> string"
  rq_query :: "string \<Rightarrow> string"
  rq_body :: "nat \<Rightarrow> decode_outcome \<times> trailing"

record http_lib =
  hl_media :: "string \<Rightarrow> string option"

record descriptor =
  ds_ID :: string
  ds_Name :: string

record event_person =
  ep_ID :: string
  ep_Name :: string

record room_event =
  rv_ID :: string
  rv_Type :: string
  rv_Sender :: "event_person option"
  rv_User :: "event_person option"
  rv_Text :: string
  rv_Timestamp :: int

datatype body =
  BError error_detail
  | BEmpty
  | BToken string
  | BPublicCode string
  | BSuccess
  | BSent int
  | BRoom descriptor
  | BRooms "descriptor list"
  | BCatalogue "descriptor list" "string option"
  | BEvents "room_event list" "string option"
  | BJob bool string

record response =
  rs_status :: int
  rs_body :: body

text \<open>\<open>httpStatus\<close>, \<open>NewErrorDetail\<close>, \<open>WriteErrorResponse\<close>, \<open>FromProtoErrorDetail\<close>.\<close>

definition httpStatus :: "code \<Rightarrow> int" where
  "httpStatus c =
     (if c \<in> {AuthInvalidToken, AuthExpiredToken, AuthMissingToken, AuthAccountPending} then 401
      else if c \<in> {RoomNotMember, RoomPermissionDenied} then 403
      else if c \<in> {RoomAlreadyMember, RoomOwnerCannotLeave, EmailAlreadyRegistered, HandleAlreadyTaken} then 409
      else if c = RoomNotFound then 404
      else if c \<in> {RateLimitExceeded, VerificationRateLimited} then 429
      else if c \<in> {InvalidRequest, MissingField, InvalidEmail, WeakPassword, VerificationInvalid} then 400
      else if c = PayloadTooLarge then 413
      else if c = ServiceUnavailable then 503
      else 500)"

definition WriteErrorResponse :: "int \<Rightarrow> error_detail \<Rightarrow> response" where
  "WriteErrorResponse status detail = \<lparr>rs_status = status, rs_body = BError detail\<rparr>"

definition FromProtoErrorDetail :: "error_detail option \<Rightarrow> (unit, error_detail) result" where
  "FromProtoErrorDetail proto =
     (case proto of
        None \<Rightarrow> Err ()
      | Some p \<Rightarrow>
          (case parse_code (ed_code p) (ed_status p) of
             Inl _ \<Rightarrow> Err ()
           | Inr c \<Rightarrow> Ok (errDetail c (ed_message p))))"

subsection \<open>Decoding a body\<close>

definition contentTypeIsJSON :: "http_lib \<Rightarrow> string \<Rightarrow> bool" where
  "contentTypeIsJSON H header =
     (if header = [] then False
      else case hl_media H header of None \<Rightarrow> False | Some mediaType \<Rightarrow> mediaType = ''application/json'')"

definition decodeStrictJSONBody :: "http_lib \<Rightarrow> request \<Rightarrow> nat \<Rightarrow> (error_detail, string \<Rightarrow> string) result" where
  "decodeStrictJSONBody H r maxBytes =
     (if \<not> contentTypeIsJSON H (rq_content_type r)
      then Err (errDetail InvalidRequest ''content-type must be application/json'')
      else case rq_body r maxBytes of
             (DecodeTooLarge, _) \<Rightarrow> Err (errDetail PayloadTooLarge ''request body exceeds maximum size'')
           | (DecodeFailed, _) \<Rightarrow> Err (errDetail InvalidRequest ''malformed request body'')
           | (Decoded vals, AtEOF) \<Rightarrow> Ok vals
           | (Decoded _, TrailingTooLarge) \<Rightarrow> Err (errDetail PayloadTooLarge ''request body exceeds maximum size'')
           | (Decoded _, TrailingData) \<Rightarrow> Err (errDetail InvalidRequest ''malformed request body''))"

text \<open>\<open>decodeJSONBody\<close>: the rejection is written at once; otherwise the handler goes on with the fields.\<close>

definition decodeJSONBody ::
  "http_lib \<Rightarrow> request \<Rightarrow> nat \<Rightarrow> ((string \<Rightarrow> string) \<Rightarrow> 'w \<Rightarrow> response \<times> 'w) \<Rightarrow> 'w \<Rightarrow> response \<times> 'w" where
  "decodeJSONBody H r maxBytes k w =
     (case decodeStrictJSONBody H r maxBytes of
        Inl detail \<Rightarrow> (WriteErrorResponse (httpStatus (ed_code detail)) detail, w)
      | Inr vals \<Rightarrow> k vals w)"

subsection \<open>Login\<close>

definition maxLoginBodyBytes :: nat where "maxLoginBodyBytes = 2 ^ 20"
definition maxPasswordBytes :: nat where "maxPasswordBytes = 256"

definition login_error :: "auth_error \<Rightarrow> response" where
  "login_error e =
     (if e = ErrAccountPending
      then WriteErrorResponse 401 (errDetail AuthAccountPending ''verify your email to finish creating your account'')
      else if e = ErrInvalidCredentials then WriteErrorResponse 401 (errDetail AuthInvalidToken ''invalid credentials'')
      else WriteErrorResponse 500 (errDetail InternalError ''authentication unavailable''))"

definition handleLogin ::
  "http_lib \<Rightarrow> (string \<Rightarrow> string \<Rightarrow> 'w \<Rightarrow> (auth_error, auth_result option) result \<times> 'w) \<Rightarrow> request \<Rightarrow> 'w \<Rightarrow> response \<times> 'w" where
  "handleLogin H authenticate r =
     decodeJSONBody H r maxLoginBodyBytes (\<lambda>req w.
       let mail = req ''mail_address''; password = req ''password''
       in if trim_space mail = [] \<or> password = []
          then (WriteErrorResponse 400 (errDetail InvalidRequest ''mail address and password are required''), w)
          else if length mail > MaxMailAddressBytes \<or> length password > maxPasswordBytes
          then (WriteErrorResponse 400 (errDetail InvalidRequest ''mail address or password exceeds maximum length''), w)
          else case authenticate mail password w of
                 (Inl e, w') \<Rightarrow> (login_error e, w')
               | (Inr None, w') \<Rightarrow> (WriteErrorResponse 500 (errDetail InternalError ''authentication unavailable''), w')
               | (Inr (Some res), w') \<Rightarrow>
                   if ar_Token res = []
                   then (WriteErrorResponse 500 (errDetail InternalError ''authentication unavailable''), w')
                   else (\<lparr>rs_status = 200, rs_body = BToken (ar_Token res)\<rparr>, w'))"

subsection \<open>Registration and verification\<close>

definition is_mail_taken :: "store_error \<Rightarrow> bool" where
  "is_mail_taken e \<longleftrightarrow> e = ErrMailAddressTaken \<or> e = ErrMailAddressInsertRace"

definition writeRegisterError :: "store_error \<Rightarrow> response" where
  "writeRegisterError e =
     (if is_mail_taken e then WriteErrorResponse 409 (errDetail EmailAlreadyRegistered ''email already registered'')
      else if e = ErrHandleTaken then WriteErrorResponse 409 (errDetail HandleAlreadyTaken ''handle already taken'')
      else if e = ErrVerificationRateLimited
      then WriteErrorResponse 429 (errDetail VerificationRateLimited ''too many verification attempts; please wait and try again'')
      else WriteErrorResponse 500 (errDetail InternalError ''registration unavailable''))"

definition handleRegister ::
  "http_lib \<Rightarrow> text_lib \<Rightarrow> (register_params \<Rightarrow> 'w \<Rightarrow> (store_error, string) result \<times> 'w) \<Rightarrow> request \<Rightarrow> 'w \<Rightarrow> response \<times> 'w" where
  "handleRegister H T register r =
     decodeJSONBody H r maxLoginBodyBytes (\<lambda>req w.
       if trim_space (req ''mail_address'') = [] \<or> trim_space (req ''handle'') = [] \<or> req ''password'' = []
       then (WriteErrorResponse 400 (errDetail InvalidRequest ''mail_address, handle, and password are required''), w)
       else if length (req ''password'') > maxPasswordBytes
       then (WriteErrorResponse 400 (errDetail InvalidRequest ''password exceeds maximum length''), w)
       else case NewMailAddress T (req ''mail_address'') of
              Inl _ \<Rightarrow> (WriteErrorResponse 400 (errDetail InvalidEmail ''mail address is not a valid email''), w)
            | Inr mail \<Rightarrow>
       case NewHandle T (req ''handle'') of
              Inl _ \<Rightarrow> (WriteErrorResponse 400 (errDetail InvalidRequest
                          ''handle must be 3-30 characters of letters, digits, or underscore''), w)
            | Inr handle \<Rightarrow>
       if \<not> ValidatePasswordStrength T (req ''password'')
       then (WriteErrorResponse 400 (errDetail WeakPassword ''password is too short''), w)
       else case register \<lparr>re_MailAddress = mail, re_Handle = handle, re_Password = req ''password''\<rparr> w of
              (Inl e, w') \<Rightarrow> (writeRegisterError e, w')
            | (Inr code, w') \<Rightarrow> (\<lparr>rs_status = 201, rs_body = BPublicCode code\<rparr>, w'))"

definition maxPINBytes :: nat where "maxPINBytes = 16"

definition writeVerifyError :: "verify_error \<Rightarrow> response" where
  "writeVerifyError e =
     (if e = ErrVerifyInvalid then WriteErrorResponse 400 (errDetail VerificationInvalid ''verification failed'')
      else WriteErrorResponse 500 (errDetail InternalError ''verification unavailable''))"

definition handleVerify ::
  "http_lib \<Rightarrow> text_lib \<Rightarrow> (mail_address \<Rightarrow> string \<Rightarrow> 'w \<Rightarrow> (verify_error, unit) result \<times> 'w) \<Rightarrow> request \<Rightarrow> 'w \<Rightarrow> response \<times> 'w" where
  "handleVerify H T verify r =
     decodeJSONBody H r maxLoginBodyBytes (\<lambda>req w.
       if trim_space (req ''mail_address'') = [] \<or> req ''pin'' = []
       then (WriteErrorResponse 400 (errDetail InvalidRequest ''mail_address and pin are required''), w)
       else if length (req ''pin'') > maxPINBytes
       then (WriteErrorResponse 400 (errDetail InvalidRequest ''pin exceeds maximum length''), w)
       else case NewMailAddress T (req ''mail_address'') of
              Inl _ \<Rightarrow> (WriteErrorResponse 400 (errDetail InvalidEmail ''mail address is not a valid email''), w)
            | Inr mail \<Rightarrow>
       case verify mail (req ''pin'') w of
              (Inl e, w') \<Rightarrow> (writeVerifyError e, w')
            | (Inr _, w') \<Rightarrow> (\<lparr>rs_status = 200, rs_body = BEmpty\<rparr>, w'))"

definition handleResendVerification ::
  "http_lib \<Rightarrow> text_lib \<Rightarrow> (mail_address \<Rightarrow> 'w \<Rightarrow> (store_error, unit) result \<times> 'w) \<Rightarrow> request \<Rightarrow> 'w \<Rightarrow> response \<times> 'w" where
  "handleResendVerification H T resend r =
     decodeJSONBody H r maxLoginBodyBytes (\<lambda>req w.
       if trim_space (req ''mail_address'') = []
       then (WriteErrorResponse 400 (errDetail InvalidRequest ''mail_address is required''), w)
       else case NewMailAddress T (req ''mail_address'') of
              Inl _ \<Rightarrow> (WriteErrorResponse 400 (errDetail InvalidEmail ''mail address is not a valid email''), w)
            | Inr mail \<Rightarrow>
       case resend mail w of
              (Inl e, w') \<Rightarrow>
                (if e = ErrVerificationRateLimited
                 then WriteErrorResponse 429 (errDetail VerificationRateLimited ''too many resend requests; please wait and try again'')
                 else WriteErrorResponse 500 (errDetail InternalError ''verification unavailable''), w')
            | (Inr _, w') \<Rightarrow> (\<lparr>rs_status = 200, rs_body = BEmpty\<rparr>, w'))"

subsection \<open>The authentication middleware\<close>

definition bearerPrefix :: string where "bearerPrefix = ''Bearer ''"

definition extractBearerToken :: "string \<Rightarrow> string option" where
  "extractBearerToken h =
     (if length h \<le> length bearerPrefix \<or> take (length bearerPrefix) h \<noteq> bearerPrefix then None
      else let tok = drop (length bearerPrefix) h
           in if tok = [] then None
              else if list_ex (\<lambda>c. c \<in> {CHR '' '', CHR 0x09, CHR 0x0D, CHR 0x0A}) tok then None
              else Some tok)"

definition auth_rejection :: "auth_error \<Rightarrow> response" where
  "auth_rejection e =
     (if e = ErrTokenExpired then WriteErrorResponse 401 (errDetail AuthExpiredToken ''token has expired'')
      else if e = ErrIdentityUnavailable
      then WriteErrorResponse 503 (errDetail ServiceUnavailable ''authentication temporarily unavailable'')
      else WriteErrorResponse 401 (errDetail AuthInvalidToken ''invalid token''))"

definition authMiddleware ::
  "(string \<Rightarrow> 'w \<Rightarrow> (auth_error, claims option) result) \<Rightarrow> request \<Rightarrow> (user_id \<Rightarrow> 'w \<Rightarrow> response \<times> 'w) \<Rightarrow> 'w \<Rightarrow> response \<times> 'w" where
  "authMiddleware validate r handler w =
     (case extractBearerToken (rq_authorization r) of
        None \<Rightarrow> (WriteErrorResponse 401 (errDetail AuthMissingToken ''missing authorization header''), w)
      | Some tok \<Rightarrow>
          (case validate tok w of
             Inl e \<Rightarrow> (auth_rejection e, w)
           | Inr None \<Rightarrow> (WriteErrorResponse 401 (errDetail AuthInvalidToken ''invalid token''), w)
           | Inr (Some c) \<Rightarrow> handler (cl_UserID c) w))"

end
