(* ===== verification/Timeline.thy ===== *)
theory Timeline
  imports RoomGrain "HOL-Library.Sublist" "HOL-Library.Multiset"
begin

text \<open>
  The read side of the journal and of the room catalogue: \<open>internal/persistence/timeline.go\<close> and
  \<open>ListActive\<close> of \<open>room_repo.go\<close>. Both read one page of a keyset-paginated query, with a look-ahead row;
  the locale \<open>keyset\<close> holds what that discipline gives and is interpreted for both orders. The theory
  also relates the journal to the id generator: rows are appended in id order.

  PGroonga's \<open>&@~\<close> and the case folding of \<open>ILIKE\<close> are parameters (\<open>search_lib\<close>). The page size is a
  natural number: the code documents that it must be positive.
\<close>

subsection \<open>Entries\<close>

datatype entry_kind = EntryMessage | EntryMemberJoined | EntryMemberLeft

definition event_type_label :: "event_type \<Rightarrow> string" where
  "event_type_label t =
     (case t of EvMessagePosted \<Rightarrow> ''message_posted'' | EvMemberJoined \<Rightarrow> ''member_joined''
      | EvMemberLeft \<Rightarrow> ''member_left'')"

datatype entry_error = EntryQuery | EntryID id_error | EntryKindUnknown | EntryCode code_error

definition parseEntryKind :: "string \<Rightarrow> (entry_error, entry_kind) result" where
  "parseEntryKind s =
     (if s = ''message_posted'' then Ok EntryMessage
      else if s = ''member_joined'' then Ok EntryMemberJoined
      else if s = ''member_left'' then Ok EntryMemberLeft
      else Err EntryKindUnknown)"

record timeline_user =
  tu_Code :: public_code
  tu_Name :: string

record timeline_entry =
  te_ID :: event_id
  te_Kind :: entry_kind
  te_User :: timeline_user
  te_Text :: string
  te_OccurredAt :: instant

record timeline_params =
  tp_Query :: message_query
  tp_Before :: event_id
  tp_Limit :: nat

record search_lib =
  pgroonga :: "string \<Rightarrow> string \<Rightarrow> bool"
  ieq :: "char \<Rightarrow> char \<Rightarrow> bool"

subsection \<open>Search fragments\<close>

text \<open>\<open>strings.Fields\<close>: the maximal runs of runes that are not white space.\<close>

fun fields_segs :: "(rune \<times> string) list \<Rightarrow> string \<Rightarrow> string list" where
  "fields_segs [] cur = (if cur = [] then [] else [cur])"
| "fields_segs (p # ps) cur =
     (if is_space (fst p) then (if cur = [] then [] else [cur]) @ fields_segs ps []
      else fields_segs ps (cur @ snd p))"

definition Fields :: "string \<Rightarrow> string list" where
  "Fields s = fields_segs (runes s) []"

text \<open>\<open>strings.NewReplacer\<close> with one-byte patterns.\<close>

definition escape :: "char list \<Rightarrow> string \<Rightarrow> string" where
  "escape specials s = concat (map (\<lambda>c. if c \<in> set specials then [CHR 0x5C, c] else [c]) s)"

fun join_with :: "string \<Rightarrow> string list \<Rightarrow> string" where
  "join_with sep [] = []"
| "join_with sep [x] = x"
| "join_with sep (x # xs) = x @ sep @ join_with sep xs"

definition groongaLiteralQuery :: "message_query \<Rightarrow> string" where
  "groongaLiteralQuery q =
     join_with '' '' (map (\<lambda>w. [CHR 0x22] @ escape [CHR 0x5C, CHR 0x22] w @ [CHR 0x22])
       (Fields (mquery_string q)))"

definition likeSubstringPattern :: "room_name_query \<Rightarrow> string" where
  "likeSubstringPattern q =
     [CHR 0x25] @ escape [CHR 0x5C, CHR 0x25, CHR 0x5F] (rquery_string q) @ [CHR 0x25]"

text \<open>
  SQL's \<open>LIKE\<close> with the default escape character: \<open>%\<close> stands for any string, \<open>_\<close> for one character, a
  backslash makes the next character literal. \<open>ILIKE\<close> compares characters up to case.
\<close>

fun like_match :: "(char \<Rightarrow> char \<Rightarrow> bool) \<Rightarrow> string \<Rightarrow> string \<Rightarrow> bool" where
  "like_match eq [] s = (s = [])"
| "like_match eq (c # p) s =
     (if c = CHR 0x25 then (case s of [] \<Rightarrow> like_match eq p [] | d # s' \<Rightarrow> like_match eq p s \<or> like_match eq (c # p) s')
      else if c = CHR 0x5F then (case s of [] \<Rightarrow> False | d # s' \<Rightarrow> like_match eq p s')
      else if c = CHR 0x5C then
        (case p of [] \<Rightarrow> False
         | e # p' \<Rightarrow> (case s of [] \<Rightarrow> False | d # s' \<Rightarrow> eq e d \<and> like_match eq p' s'))
      else (case s of [] \<Rightarrow> False | d # s' \<Rightarrow> eq c d \<and> like_match eq p s'))"

subsection \<open>Timeline\<close>

definition event_text :: "event_row \<Rightarrow> string" where
  "event_text e = (case ev_payload e of MessagePayload body \<Rightarrow> body | MemberEventPayload _ \<Rightarrow> [])"

text \<open>The condition the query is built with, before the cursor and the limit.\<close>

definition timeline_match :: "search_lib \<Rightarrow> room_id \<Rightarrow> message_query \<Rightarrow> event_row \<Rightarrow> bool" where
  "timeline_match L roomID q e \<longleftrightarrow>
     ev_room e = room_int64 roomID \<and>
     (mquery_is_zero q \<or> ev_type e = EvMessagePosted \<and> pgroonga L (groongaLiteralQuery q) (event_text e))"

definition timelineSQL ::
  "search_lib \<Rightarrow> room_id \<Rightarrow> timeline_params \<Rightarrow> nat \<Rightarrow> db \<Rightarrow> (event_row \<times> service_user) list" where
  "timelineSQL L roomID params lim d =
     take lim
       [(e, u). e \<leftarrow> rev (sort_key ev_id (filter (\<lambda>e. timeline_match L roomID (tp_Query params) e \<and>
                    (event_is_zero (tp_Before params) \<or> ev_id e < event_int64 (tp_Before params))) (t_events d))),
                u \<leftarrow> filter (\<lambda>u. su_id u = ev_user e) (t_users d)]"

definition timeline_row :: "event_row \<times> service_user \<Rightarrow> (entry_error, timeline_entry) result" where
  "timeline_row = (\<lambda>(e, u).
     (case NewEventID (ev_id e) of Inl x \<Rightarrow> Err (EntryID x) | Inr eventID \<Rightarrow>
      case parseEntryKind (event_type_label (ev_type e)) of Inl x \<Rightarrow> Err x | Inr kind \<Rightarrow>
      case ParsePublicCode (su_public_code u) of Inl x \<Rightarrow> Err (EntryCode x) | Inr code \<Rightarrow>
      Ok \<lparr>te_ID = eventID, te_Kind = kind, te_User = \<lparr>tu_Code = code, tu_Name = su_display_name u\<rparr>,
          te_Text = event_text e, te_OccurredAt = ev_occurred_at e\<rparr>))"

definition collectEntries :: "(event_row \<times> service_user) list \<Rightarrow> (entry_error, timeline_entry list) result" where
  "collectEntries rows = sequence_res (map timeline_row rows)"

definition Timeline ::
  "search_lib \<Rightarrow> outcome \<Rightarrow> room_id \<Rightarrow> timeline_params \<Rightarrow> db
     \<Rightarrow> (entry_error, timeline_entry list \<times> bool) result" where
  "Timeline L oc roomID params d =
     (if oc \<noteq> Acked then Err EntryQuery
      else case collectEntries (timelineSQL L roomID params (tp_Limit params + 1) d) of
        Inl e \<Rightarrow> Err e
      | Inr entries \<Rightarrow>
          if length entries > tp_Limit params then Ok (take (tp_Limit params) entries, True)
          else Ok (entries, False))"

subsection \<open>The room catalogue\<close>

record list_active_params =
  lp_Query :: room_name_query
  lp_AfterID :: room_id
  lp_Limit :: nat

definition room_match :: "search_lib \<Rightarrow> room_name_query \<Rightarrow> room_row \<Rightarrow> bool" where
  "room_match L q r \<longleftrightarrow>
     rm_status r = RoomStatusActive \<and>
     (rquery_is_zero q \<or> like_match (ieq L) (likeSubstringPattern q) (rm_display_name r))"

definition listActiveSQL :: "search_lib \<Rightarrow> list_active_params \<Rightarrow> nat \<Rightarrow> db \<Rightarrow> room_row list" where
  "listActiveSQL L params lim d =
     take lim (sort_key rm_id (filter (\<lambda>r. room_match L (lp_Query params) r \<and>
       (room_is_zero (lp_AfterID params) \<or> rm_id r > room_int64 (lp_AfterID params))) (t_rooms d)))"

definition collectRooms :: "room_row list \<Rightarrow> (store_error, room list) result" where
  "collectRooms rows = sequence_res (map roomRow_toDomain rows)"

definition ListActive ::
  "search_lib \<Rightarrow> outcome \<Rightarrow> list_active_params \<Rightarrow> db \<Rightarrow> (store_error, room list \<times> bool) result" where
  "ListActive L oc params d =
     (if oc \<noteq> Acked then Err ErrConn
      else case collectRooms (listActiveSQL L params (lp_Limit params + 1) d) of
        Inl e \<Rightarrow> Err e
      | Inr rooms \<Rightarrow>
          if length rooms > lp_Limit params then Ok (take (lp_Limit params) rooms, True)
          else Ok (rooms, False))"

subsection \<open>A reader that walks the pages\<close>

text \<open>Asking for the next page with the last entry as the cursor while the look-ahead says there is one.\<close>

fun timeline_walk ::
  "search_lib \<Rightarrow> room_id \<Rightarrow> message_query \<Rightarrow> nat \<Rightarrow> db \<Rightarrow> nat \<Rightarrow> event_id \<Rightarrow> timeline_entry list option" where
  "timeline_walk L roomID q lim d 0 before = None"
| "timeline_walk L roomID q lim d (Suc fuel) before =
     (case Timeline L Acked roomID \<lparr>tp_Query = q, tp_Before = before, tp_Limit = lim\<rparr> d of
        Inl _ \<Rightarrow> None
      | Inr (es, again) \<Rightarrow>
          if again then map_option ((@) es) (timeline_walk L roomID q lim d fuel (te_ID (last es)))
          else Some es)"

fun rooms_walk ::
  "search_lib \<Rightarrow> room_name_query \<Rightarrow> nat \<Rightarrow> db \<Rightarrow> nat \<Rightarrow> room_id \<Rightarrow> room list option" where
  "rooms_walk L q lim d 0 after = None"
| "rooms_walk L q lim d (Suc fuel) after =
     (case ListActive L Acked \<lparr>lp_Query = q, lp_AfterID = after, lp_Limit = lim\<rparr> d of
        Inl _ \<Rightarrow> None
      | Inr (rs, again) \<Rightarrow>
          if again then map_option ((@) rs) (rooms_walk L q lim d fuel (room_ID (last rs)))
          else Some rs)"

subsection \<open>Keyset pagination\<close>

text \<open>
  Rows in strict key order, read page by page: the cursor is the key of the last row seen, one row more
  than the page is fetched, and the page is trimmed. Walking the pages yields every row once, in order.
\<close>

locale keyset =
  fixes key :: "'a \<Rightarrow> int" and precedes :: "int \<Rightarrow> int \<Rightarrow> bool"
  assumes precedes_trans: "precedes a b \<Longrightarrow> precedes b c \<Longrightarrow> precedes a c"
    and precedes_irrefl: "\<not> precedes a a"
begin

definition past :: "int option \<Rightarrow> 'a \<Rightarrow> bool" where
  "past c x = (case c of None \<Rightarrow> True | Some k \<Rightarrow> precedes k (key x))"

abbreviation ordered :: "'a list \<Rightarrow> bool" where
  "ordered \<equiv> sorted_wrt (\<lambda>x y. precedes (key x) (key y))"

lemma ordered_last:
  "ordered xs \<Longrightarrow> x \<in> set xs \<Longrightarrow> \<not> precedes (key (last xs)) (key x)"
proof (induction xs)
  case (Cons y ys)
  show ?case
  proof (cases "x = y")
    case True
    have "precedes (key y) (key (last ys))" if "ys \<noteq> []"
      using Cons.prems(1) last_in_set [OF that] by simp
    then show ?thesis
      using True precedes_irrefl [of "key y"] precedes_trans [of "key (last ys)" "key y" "key (last ys)"]
        precedes_irrefl [of "key (last ys)"] by (cases "ys = []") auto
  next
    case False
    then show ?thesis using Cons by auto
  qed
qed simp

lemma after_page:
  assumes rs: "ordered rs" and lim: "0 < lim" "lim < length rs"
  shows "filter (past (Some (key (last (take lim rs))))) rs = drop lim rs"
proof -
  let ?k = "key (last (take lim rs))"
  have "ordered (take lim rs @ drop lim rs)" using rs by simp
  then have ord: "ordered (take lim rs)"
    "\<And>x y. x \<in> set (take lim rs) \<Longrightarrow> y \<in> set (drop lim rs) \<Longrightarrow> precedes (key x) (key y)"
    unfolding sorted_wrt_append by blast+
  have "last (take lim rs) \<in> set (take lim rs)" using lim by (intro last_in_set) auto
  then have above: "x \<in> set (drop lim rs) \<Longrightarrow> precedes ?k (key x)" for x
    using ord(2) by blast
  have below: "x \<in> set (take lim rs) \<Longrightarrow> \<not> precedes ?k (key x)" for x
    using ordered_last [OF ord(1)] by blast
  have "filter (past (Some ?k)) (take lim rs @ drop lim rs) = drop lim rs"
    unfolding filter_append using above below by (simp add: past_def filter_empty_conv)
  then show ?thesis by simp
qed

lemma past_after:
  assumes "ordered rows" "0 < lim" "lim < length (filter (past c) rows)"
  shows "filter (past (Some (key (last (take lim (filter (past c) rows)))))) rows =
    drop lim (filter (past c) rows)"
proof -
  let ?rs = "filter (past c) rows"
  have ord: "ordered ?rs" using assms(1) by (rule sorted_wrt_filter)
  have "take lim ?rs \<noteq> []" using assms(2,3) by (cases ?rs) auto
  from last_in_set [OF this] have "last (take lim ?rs) \<in> set ?rs" by (rule in_set_takeD)
  then have "past c (last (take lim ?rs))" by simp
  then have weaker: "past (Some (key (last (take lim ?rs)))) x \<Longrightarrow> past c x" for x
    by (cases c) (auto simp: past_def intro: precedes_trans)
  have "filter (past (Some (key (last (take lim ?rs))))) rows =
      filter (past (Some (key (last (take lim ?rs))))) ?rs"
    unfolding filter_filter by (rule filter_cong [OF refl]) (use weaker in blast)
  then show ?thesis using after_page [OF ord assms(2,3)] by simp
qed

lemma walk_covers:
  fixes walk :: "nat \<Rightarrow> int option \<Rightarrow> 'b list option" and view :: "'a \<Rightarrow> 'b"
  assumes "ordered rows" "0 < lim"
    and step: "\<And>n c. c \<in> insert None (Some ` key ` set rows) \<Longrightarrow> walk (Suc n) c =
      (if lim < length (filter (past c) rows)
       then map_option ((@) (map view (take lim (filter (past c) rows))))
              (walk n (Some (key (last (take lim (filter (past c) rows))))))
       else Some (map view (filter (past c) rows)))"
  shows "c \<in> insert None (Some ` key ` set rows) \<Longrightarrow> length (filter (past c) rows) < n \<Longrightarrow> walk n c = Some (map view (filter (past c) rows))"
proof (induction n arbitrary: c)
  case (Suc n)
  let ?rs = "filter (past c) rows"
  show ?case
  proof (cases "lim < length ?rs")
    case True
    have next_rows: "filter (past (Some (key (last (take lim ?rs))))) rows = drop lim ?rs"
      by (rule past_after [OF assms(1,2) True])
    have "take lim ?rs \<noteq> []" using assms(2) True by (cases ?rs) auto
    from last_in_set [OF this] have "last (take lim ?rs) \<in> set rows" by (auto dest: in_set_takeD)
    moreover have "length (drop lim ?rs) < n" using Suc.prems True assms(2) by simp
    ultimately have "walk n (Some (key (last (take lim ?rs)))) = Some (map view (drop lim ?rs))"
      using Suc.IH [of "Some (key (last (take lim ?rs)))"] next_rows by simp
    then show ?thesis using True step [OF Suc.prems(1)] by (simp flip: map_append)
  next
    case False
    then show ?thesis using step [OF Suc.prems(1)] by simp
  qed
qed simp

end

interpretation newest_first: keyset ev_id "(>)"
  by unfold_locales auto

interpretation by_id: keyset rm_id "(<)"
  by unfold_locales auto

lemma map_sort_key_ids: "map f (sort_key f xs) = sort (map f (xs :: 'a list) :: int list)"
  by (rule properties_for_sort [symmetric]) simp_all

lemma sorted_wrt_subseq: "subseq xs ys \<Longrightarrow> sorted_wrt P ys \<Longrightarrow> sorted_wrt P xs"
  by (induction rule: list_emb.induct) (auto dest: list_emb_set)

subsection \<open>The pages of the timeline\<close>

text \<open>Rows a reader can parse: positive event ids and well-formed public codes.\<close>

definition readable :: "db \<Rightarrow> bool" where
  "readable d \<longleftrightarrow>
     list_all (\<lambda>e. 0 < ev_id e) (t_events d) \<and>
     list_all (\<lambda>u. valid_code (PublicCode (su_public_code u))) (t_users d)"

definition timeline_rows :: "search_lib \<Rightarrow> room_id \<Rightarrow> message_query \<Rightarrow> db \<Rightarrow> event_row list" where
  "timeline_rows L roomID q d = rev (sort_key ev_id (filter (timeline_match L roomID q) (t_events d)))"

definition author :: "db \<Rightarrow> event_row \<Rightarrow> service_user" where
  "author d e = hd (filter (\<lambda>u. su_id u = ev_user e) (t_users d))"

definition entry_of :: "db \<Rightarrow> event_row \<Rightarrow> timeline_entry" where
  "entry_of d e =
     \<lparr>te_ID = EventID (ev_id e),
      te_Kind = (case ev_type e of EvMessagePosted \<Rightarrow> EntryMessage | EvMemberJoined \<Rightarrow> EntryMemberJoined
        | EvMemberLeft \<Rightarrow> EntryMemberLeft),
      te_User = \<lparr>tu_Code = PublicCode (su_public_code (author d e)), tu_Name = su_display_name (author d e)\<rparr>,
      te_Text = event_text e, te_OccurredAt = ev_occurred_at e\<rparr>"

lemma filter_unique:
  "distinct (map f us) \<Longrightarrow> k \<in> f ` set us \<Longrightarrow> \<exists>u \<in> set us. filter (\<lambda>u. f u = k) us = [u] \<and> f u = k"
proof (induction us)
  case (Cons u us)
  show ?case
  proof (cases "f u = k")
    case True
    then have "filter (\<lambda>u. f u = k) us = []" using Cons.prems(1) by (auto simp: filter_empty_conv image_iff)
    then show ?thesis using True by simp
  next
    case False
    then show ?thesis using Cons by auto
  qed
qed simp

lemma author_unique:
  assumes "db_inv d" "e \<in> set (t_events d)"
  shows "filter (\<lambda>u. su_id u = ev_user e) (t_users d) = [author d e]" "author d e \<in> set (t_users d)"
proof -
  have "distinct (map su_id (t_users d))" "ev_user e \<in> su_id ` set (t_users d)"
    using assms by (auto simp: db_inv_def)
  from filter_unique [OF this] show "filter (\<lambda>u. su_id u = ev_user e) (t_users d) = [author d e]"
    "author d e \<in> set (t_users d)" by (auto simp: author_def)
qed

lemma join_authors:
  assumes "db_inv d" "set es \<subseteq> set (t_events d)"
  shows "[(e, u). e \<leftarrow> es, u \<leftarrow> filter (\<lambda>u. su_id u = ev_user e) (t_users d)] = map (\<lambda>e. (e, author d e)) es"
  using assms(2) by (induction es) (auto simp: author_unique [OF assms(1)])

lemma timeline_row_entry:
  assumes "db_inv d" "readable d" "e \<in> set (t_events d)"
  shows "timeline_row (e, author d e) = Ok (entry_of d e)"
proof -
  have "0 < ev_id e" "valid_code (PublicCode (su_public_code (author d e)))"
    using assms author_unique(2) [OF assms(1,3)] by (auto simp: readable_def list_all_iff)
  moreover have "ParsePublicCode (su_public_code (author d e)) = Ok (PublicCode (su_public_code (author d e)))"
    using ParsePublicCode_string [OF calculation(2)] by (simp add: code_string_def)
  ultimately show ?thesis
    by (simp add: timeline_row_def entry_of_def NewEventID_def parseEntryKind_def event_type_label_def
        split: event_type.splits)
qed

lemma timeline_rows_subset: "set (timeline_rows L roomID q d) \<subseteq> set (t_events d)"
  by (auto simp: timeline_rows_def)

lemma timeline_rows_ids:
  assumes "db_inv d"
  shows "sorted_wrt (<) (rev (map ev_id (timeline_rows L roomID q d)))"
proof -
  let ?es = "filter (timeline_match L roomID q) (t_events d)"
  have "distinct (map ev_id ?es)" using assms by (simp add: db_inv_def distinct_map_filter)
  then have "sorted (map ev_id (sort_key ev_id ?es)) \<and> distinct (map ev_id (sort_key ev_id ?es))"
    by (simp add: distinct_map)
  then have "sorted_wrt (<) (map ev_id (sort_key ev_id ?es))" by (simp add: strict_sorted_iff)
  then show ?thesis by (simp add: timeline_rows_def rev_map)
qed

lemma timeline_rows_ordered:
  assumes "db_inv d"
  shows "newest_first.ordered (timeline_rows L roomID q d)"
  using timeline_rows_ids [OF assms, of L roomID q] by (simp add: sorted_wrt_rev sorted_wrt_map)

definition cursor :: "event_id \<Rightarrow> int option" where
  "cursor before = (if event_is_zero before then None else Some (event_int64 before))"

lemma timelineSQL_rows:
  assumes "db_inv d"
  shows "timelineSQL L roomID \<lparr>tp_Query = q, tp_Before = before, tp_Limit = lim\<rparr> n d =
    take n (map (\<lambda>e. (e, author d e)) (filter (newest_first.past (cursor before)) (timeline_rows L roomID q d)))"
proof -
  have "rev (sort_key ev_id (filter (\<lambda>e. timeline_match L roomID q e \<and>
      (event_is_zero before \<or> ev_id e < event_int64 before)) (t_events d))) =
      filter (newest_first.past (cursor before)) (timeline_rows L roomID q d)"
    by (auto simp: timeline_rows_def newest_first.past_def cursor_def rev_filter [symmetric] filter_sort
        intro!: arg_cong [of _ _ "sort_key ev_id"] filter_cong)
  moreover have "set (filter (newest_first.past (cursor before)) (timeline_rows L roomID q d)) \<subseteq> set (t_events d)"
    using timeline_rows_subset [of L roomID q d] by auto
  ultimately show ?thesis using join_authors [OF assms] by (simp add: timelineSQL_def)
qed

lemma Timeline_page:
  assumes "db_inv d" "readable d"
  shows "Timeline L Acked roomID \<lparr>tp_Query = q, tp_Before = before, tp_Limit = lim\<rparr> d =
    (let rs = filter (newest_first.past (cursor before)) (timeline_rows L roomID q d)
     in Ok (map (entry_of d) (take lim rs), lim < length rs))"
proof -
  let ?rs = "filter (newest_first.past (cursor before)) (timeline_rows L roomID q d)"
  have "collectEntries (take n (map (\<lambda>e. (e, author d e)) ?rs)) = Ok (map (entry_of d) (take n ?rs))" for n
  proof -
    have "map timeline_row (take n (map (\<lambda>e. (e, author d e)) ?rs)) = map Inr (map (entry_of d) (take n ?rs))"
      using timeline_row_entry [OF assms] timeline_rows_subset [of L roomID q d]
      by (auto simp: take_map dest!: in_set_takeD)
    then show ?thesis by (simp only: collectEntries_def sequence_res_map_Inr)
  qed
  then show ?thesis
    by (simp add: Timeline_def timelineSQL_rows [OF assms(1)] Let_def take_map)
qed

lemma cursor_entry:
  assumes "readable d" "e \<in> set (t_events d)"
  shows "cursor (te_ID (entry_of d e)) = Some (ev_id e)"
  using assms by (auto simp: cursor_def entry_of_def readable_def list_all_iff event_is_zero_def zero_event_id_def)

lemma timeline_walk_rows:
  assumes "db_inv d" "readable d" "0 < lim"
  shows "timeline_walk L roomID q lim d (Suc (length (t_events d))) zero_event_id =
    Some (map (entry_of d) (timeline_rows L roomID q d))"
proof -
  let ?rows = "timeline_rows L roomID q d"
  define walk where
    "walk n c = timeline_walk L roomID q lim d n (EventID (case c of None \<Rightarrow> 0 | Some k \<Rightarrow> k))" for n c
  have step: "walk (Suc n) c =
      (if lim < length (filter (newest_first.past c) ?rows)
       then map_option ((@) (map (entry_of d) (take lim (filter (newest_first.past c) ?rows))))
              (walk n (Some (ev_id (last (take lim (filter (newest_first.past c) ?rows))))))
       else Some (map (entry_of d) (filter (newest_first.past c) ?rows)))"
    if c: "c \<in> insert None (Some ` ev_id ` set ?rows)" for n c
  proof -
    let ?rs = "filter (newest_first.past c) ?rows"
    have "\<forall>e \<in> set ?rows. ev_id e \<noteq> 0"
      using assms(2) timeline_rows_subset [of L roomID q d] by (fastforce simp: readable_def list_all_iff)
    then have cur: "cursor (EventID (case c of None \<Rightarrow> 0 | Some k \<Rightarrow> k)) = c"
      using c by (auto simp: cursor_def event_is_zero_def zero_event_id_def)
    have lst: "te_ID (last (map (entry_of d) (take lim ?rs))) = EventID (ev_id (last (take lim ?rs)))"
      if "lim < length ?rs"
    proof -
      have "take lim ?rs \<noteq> []" using that assms(3) by (cases ?rs) auto
      then show ?thesis by (simp add: last_map entry_of_def)
    qed
    show ?thesis
      by (simp add: walk_def Timeline_page [OF assms(1,2)] cur Let_def lst)
  qed
  have "filter (newest_first.past None) ?rows = ?rows" by (simp add: newest_first.past_def)
  moreover have "length ?rows < Suc (length (t_events d))"
    by (simp add: timeline_rows_def le_imp_less_Suc)
  ultimately have "walk (Suc (length (t_events d))) None = Some (map (entry_of d) ?rows)"
    using newest_first.walk_covers [where walk = walk and view = "entry_of d" and rows = ?rows and c = None,
        OF timeline_rows_ordered [OF assms(1)] assms(3) step] by simp
  then show ?thesis by (simp add: walk_def zero_event_id_def)
qed

subsection \<open>The pages of the catalogue\<close>

definition readable_rooms :: "db \<Rightarrow> bool" where
  "readable_rooms d \<longleftrightarrow>
     list_all (\<lambda>r. 0 < rm_id r \<and> 0 < rm_created_by r \<and> valid_code (PublicCode (rm_public_code r))) (t_rooms d)"

definition room_rows :: "search_lib \<Rightarrow> room_name_query \<Rightarrow> db \<Rightarrow> room_row list" where
  "room_rows L q d = sort_key rm_id (filter (room_match L q) (t_rooms d))"

definition room_of :: "room_row \<Rightarrow> room" where
  "room_of r =
     \<lparr>room_ID = RoomID (rm_id r), room_PublicCode = PublicCode (rm_public_code r),
      room_DisplayName = rm_display_name r, room_CreatedBy = UserID (rm_created_by r),
      room_Status = rm_status r, room_CreatedAt = rm_created_at r, room_UpdatedAt = rm_updated_at r\<rparr>"

lemma roomRow_toDomain_room_of:
  assumes "readable_rooms d" "r \<in> set (t_rooms d)"
  shows "roomRow_toDomain r = Ok (room_of r)"
proof -
  have r: "0 < rm_id r" "0 < rm_created_by r" "valid_code (PublicCode (rm_public_code r))"
    using assms by (auto simp: readable_rooms_def list_all_iff)
  then show ?thesis
    using ParsePublicCode_string [OF r(3)]
    by (cases "rm_status r")
      (simp_all add: roomRow_toDomain_def room_of_def NewRoomID_def NewUserID_def code_string_def
        ParseRoomStatus_def)
qed

lemma room_rows_subset: "set (room_rows L q d) \<subseteq> set (t_rooms d)"
  by (auto simp: room_rows_def)

lemma room_rows_ordered:
  assumes "db_inv d"
  shows "by_id.ordered (room_rows L q d)"
proof -
  let ?rs = "filter (room_match L q) (t_rooms d)"
  have "distinct (map rm_id ?rs)" using assms by (simp add: db_inv_def distinct_map_filter)
  then have "sorted (map rm_id (sort_key rm_id ?rs)) \<and> distinct (map rm_id (sort_key rm_id ?rs))"
    by (simp add: distinct_map)
  then have "sorted_wrt (<) (map rm_id (sort_key rm_id ?rs))" by (simp add: strict_sorted_iff)
  then show ?thesis by (simp add: room_rows_def sorted_wrt_map)
qed

definition room_cursor :: "room_id \<Rightarrow> int option" where
  "room_cursor after = (if room_is_zero after then None else Some (room_int64 after))"

lemma ListActive_page:
  assumes "readable_rooms d"
  shows "ListActive L Acked \<lparr>lp_Query = q, lp_AfterID = after, lp_Limit = lim\<rparr> d =
    (let rs = filter (by_id.past (room_cursor after)) (room_rows L q d)
     in Ok (map room_of (take lim rs), lim < length rs))"
proof -
  let ?rs = "filter (by_id.past (room_cursor after)) (room_rows L q d)"
  have sql: "listActiveSQL L \<lparr>lp_Query = q, lp_AfterID = after, lp_Limit = lim\<rparr> n d = take n ?rs" for n
    by (auto simp: listActiveSQL_def room_rows_def by_id.past_def room_cursor_def filter_sort
        intro!: arg_cong [of _ _ "\<lambda>xs. take n (sort_key rm_id xs)"] filter_cong)
  have "map roomRow_toDomain (take n ?rs) = map Inr (map room_of (take n ?rs))" for n
    using roomRow_toDomain_room_of [OF assms] room_rows_subset [of L q d] by (auto dest!: in_set_takeD)
  then have "collectRooms (take n ?rs) = Ok (map room_of (take n ?rs))" for n
    by (simp only: collectRooms_def sequence_res_map_Inr)
  then show ?thesis by (simp add: ListActive_def sql Let_def take_map)
qed

lemma rooms_walk_rows:
  assumes "db_inv d" "readable_rooms d" "0 < lim"
  shows "rooms_walk L q lim d (Suc (length (t_rooms d))) zero_room_id = Some (map room_of (room_rows L q d))"
proof -
  let ?rows = "room_rows L q d"
  define walk where
    "walk n c = rooms_walk L q lim d n (RoomID (case c of None \<Rightarrow> 0 | Some k \<Rightarrow> k))" for n c
  have step: "walk (Suc n) c =
      (if lim < length (filter (by_id.past c) ?rows)
       then map_option ((@) (map room_of (take lim (filter (by_id.past c) ?rows))))
              (walk n (Some (rm_id (last (take lim (filter (by_id.past c) ?rows))))))
       else Some (map room_of (filter (by_id.past c) ?rows)))"
    if c: "c \<in> insert None (Some ` rm_id ` set ?rows)" for n c
  proof -
    let ?rs = "filter (by_id.past c) ?rows"
    have "\<forall>r \<in> set ?rows. rm_id r \<noteq> 0"
      using assms(2) room_rows_subset [of L q d] by (fastforce simp: readable_rooms_def list_all_iff)
    then have cur: "room_cursor (RoomID (case c of None \<Rightarrow> 0 | Some k \<Rightarrow> k)) = c"
      using c by (auto simp: room_cursor_def room_is_zero_def zero_room_id_def)
    have lst: "room_ID (last (map room_of (take lim ?rs))) = RoomID (rm_id (last (take lim ?rs)))"
      if "lim < length ?rs"
    proof -
      have "take lim ?rs \<noteq> []" using that assms(3) by (cases ?rs) auto
      then show ?thesis by (simp add: last_map room_of_def)
    qed
    show ?thesis by (simp add: walk_def ListActive_page [OF assms(2)] cur Let_def lst)
  qed
  have "filter (by_id.past None) ?rows = ?rows" by (simp add: by_id.past_def)
  moreover have "length ?rows < Suc (length (t_rooms d))" by (simp add: room_rows_def le_imp_less_Suc)
  ultimately have "walk (Suc (length (t_rooms d))) None = Some (map room_of ?rows)"
    using by_id.walk_covers [where walk = walk and view = room_of and rows = ?rows and c = None,
        OF room_rows_ordered [OF assms(1)] assms(3) step] by simp
  then show ?thesis by (simp add: walk_def zero_room_id_def)
qed

subsection \<open>Literal fragments\<close>

abbreviation like_specials :: "char list" where
  "like_specials \<equiv> [CHR 0x5C, CHR 0x25, CHR 0x5F]"

lemma like_percent:
  "like_match eq (CHR 0x25 # p) s \<longleftrightarrow> (\<exists>pre rest. s = pre @ rest \<and> like_match eq p rest)"
proof (induction s)
  case (Cons d s)
  have "(\<exists>pre rest. d # s = pre @ rest \<and> like_match eq p rest) \<longleftrightarrow>
      like_match eq p (d # s) \<or> (\<exists>pre rest. s = pre @ rest \<and> like_match eq p rest)"
    by (metis append_Cons append_Nil list.exhaust list.sel(3))
  then show ?case using Cons by simp
qed simp

lemma like_escaped:
  "like_match eq (escape like_specials f @ p) s \<longleftrightarrow>
     (\<exists>mid rest. s = mid @ rest \<and> list_all2 eq f mid \<and> like_match eq p rest)"
proof (induction f arbitrary: s)
  case Nil
  then show ?case by (simp add: escape_def)
next
  case (Cons c f)
  have "like_match eq (escape like_specials (c # f) @ p) s \<longleftrightarrow>
      (\<exists>d s'. s = d # s' \<and> eq c d \<and> like_match eq (escape like_specials f @ p) s')"
    by (cases s) (auto simp: escape_def)
  also have "\<dots> \<longleftrightarrow> (\<exists>d mid rest. s = (d # mid) @ rest \<and> eq c d \<and> list_all2 eq f mid \<and> like_match eq p rest)"
    by (auto simp: Cons.IH)
  also have "\<dots> \<longleftrightarrow> (\<exists>mid rest. s = mid @ rest \<and> list_all2 eq (c # f) mid \<and> like_match eq p rest)"
    unfolding list_all2_Cons1 by blast
  finally show ?case .
qed

subsection \<open>The journal and the id generator\<close>

text \<open>One command appends at most one row, under the id minted for it.\<close>

definition journal_step :: "(mint_error, int) result \<Rightarrow> db \<Rightarrow> db \<Rightarrow> bool" where
  "journal_step mint d d' \<longleftrightarrow>
     t_events d' = t_events d \<or>
     (\<exists>e. mint = Inr (ev_id e) \<and> t_events d' = t_events d @ [e])"

lemma journal_step_refl [simp]: "journal_step mint d d"
  by (simp add: journal_step_def)

lemma append_journal:
  "journal_step mint d (snd (AppendMessage mint now oc r u body d))"
  "journal_step mint d (snd (AppendMembership mint now oc r a k d))"
  by (cases oc; auto simp: AppendMessage_def AppendMembership_def appendEventSQL_def journal_step_def NewEventID_def
      split: sum.splits prod.splits if_splits)+

lemma membership_writes_no_event:
  "t_events (snd (Add oc now r a ro d)) = t_events d"
  "t_events (snd (Remove oc r u d)) = t_events d"
  "t_events (snd (GetRole oc r u d)) = t_events d"
  "t_events (snd (UpdateRole oc r u ro d)) = t_events d"
  "t_events (snd (TransferOwnership oc r u v d)) = t_events d"
  by (cases oc; auto simp: Add_def Remove_def GetRole_def UpdateRole_def TransferOwnership_def addSQL_def
      removeSQL_def updateRoleSQL_def transferOwnershipSQL_def Let_def
      split: sum.splits prod.splits if_splits option.splits)+

lemma record_transition_journal:
  assumes "\<And>oc d. t_events (snd (mutate oc d)) = t_events d"
  shows "journal_step (tx_mint env) d (snd (record_transition env r a k mutate d))"
proof -
  obtain r1 d1 where m: "mutate (tx_stmt env 0) d = (r1, d1)" by (cases "mutate (tx_stmt env 0) d")
  obtain r2 d2 where ap: "AppendMembership (tx_mint env) (tx_now env) (tx_stmt env 1) r a k d1 = (r2, d2)"
    by (cases "AppendMembership (tx_mint env) (tx_now env) (tx_stmt env 1) r a k d1")
  have "t_events d1 = t_events d" using assms [of "tx_stmt env 0" d] m by simp
  moreover have "journal_step (tx_mint env) d1 d2" using append_journal(2) ap by (metis snd_conv)
  ultimately have "journal_step (tx_mint env) d d2" by (simp add: journal_step_def)
  then show ?thesis
    by (auto simp: record_transition_def WithinTx_def then_stmt_def return_stmt_def m ap [unfolded One_nat_def]
        split: sum.splits prod.splits outcome.splits)
qed

lemma RecordMessage_journal: "journal_step (tx_mint env) d (snd (RecordMessage env r u body d))"
  using append_journal(1) [of "tx_mint env" d "tx_now env" "tx_stmt env 0" r u body]
  by (auto simp: RecordMessage_def split: prod.splits sum.splits)

lemma role_stores_journal:
  "journal_step (tx_mint env) d (snd (RecordRoleChange env r a t ro d))"
  "journal_step (tx_mint env) d (snd (RecordOwnershipTransfer env r a n d))"
proof -
  have quiet: "t_events (snd (then_stmt s k d)) = t_events d"
    if "\<And>d. t_events (snd (s d)) = t_events d" "\<And>x d. t_events (snd (k x d)) = t_events d"
    for s :: "'x stmt" and k :: "'x \<Rightarrow> unit stmt" and d
    using that(1) [of d] that(2) by (auto simp: then_stmt_def split: prod.splits sum.splits)
  have tx: "t_events (snd (WithinTx env s d)) = t_events d" if "t_events (snd (s d)) = t_events d"
    for s :: "unit stmt" and d
    using that by (auto simp: WithinTx_def split: prod.splits sum.splits outcome.splits)
  note no_event = membership_writes_no_event return_stmt_def fail_stmt_def
  show "journal_step (tx_mint env) d (snd (RecordRoleChange env r a t ro d))"
    unfolding RecordRoleChange_def journal_step_def
    by (intro disjI1 tx quiet) (simp_all add: no_event)
  show "journal_step (tx_mint env) d (snd (RecordOwnershipTransfer env r a n d))"
    unfolding RecordOwnershipTransfer_def journal_step_def
    by (intro disjI1 tx quiet) (auto simp: no_event intro!: quiet)
qed

lemma run_cmd_journal:
  "journal_step (tx_mint env) d (fst (snd (snd (run_cmd T ctx (env, now, c) g d))))"
proof (cases c)
  case (CmdJoin u)
  have "journal_step (tx_mint env) d (snd (recordJoin_grain env a g d))" for a
    by (simp add: recordJoin_grain_def RecordJoin_def record_transition_journal membership_writes_no_event)
  then show ?thesis
    by (auto simp: CmdJoin Join_def Let_def split: prod.splits sum.splits) (metis snd_conv)+
next
  case (CmdLeave uid)
  have "journal_step (tx_mint env) d (snd (recordLeave_grain env a g d))" for a
    by (simp add: recordLeave_grain_def RecordLeave_def record_transition_journal membership_writes_no_event)
  then show ?thesis
    by (auto simp: CmdLeave Leave_def split: prod.splits sum.splits option.splits) (metis snd_conv)+
next
  case (CmdPost u raw)
  have "journal_step (tx_mint env) d (snd (recordMessage_grain env a body g d))" for a body
    by (simp add: recordMessage_grain_def RecordMessage_journal)
  then show ?thesis
    by (auto simp: CmdPost PostMessage_def Let_def split: prod.splits sum.splits) (metis snd_conv)+
next
  case (CmdSetRole req)
  then show ?thesis
    using role_stores_journal(1) [of env d]
    by (auto simp: SetMemberRole_def split: prod.splits sum.splits) (metis snd_conv)+
next
  case (CmdTransfer req)
  then show ?thesis
    using role_stores_journal(2) [of env d]
    by (auto simp: TransferOwnership_cmd_def split: prod.splits sum.splits) (metis snd_conv)+
qed

text \<open>The ids the commands of a run were given, in order.\<close>

fun minted :: "(txenv \<times> instant \<times> room_cmd) list \<Rightarrow> int list" where
  "minted [] = []"
| "minted ((env, _, _) # cs) = (case tx_mint env of Inl _ \<Rightarrow> [] | Inr v \<Rightarrow> [v]) @ minted cs"

lemma run_cmds_journal:
  "\<exists>es. t_events (fst (snd (run_cmds T ctx cs g d))) = t_events d @ es \<and> subseq (map ev_id es) (minted cs)"
proof (induction cs arbitrary: g d)
  case (Cons c cs)
  obtain env now cmd where c: "c = (env, now, cmd)" by (cases c)
  obtain a g1 d1 j1 where r: "run_cmd T ctx c g d = (a, g1, d1, j1)" by (cases "run_cmd T ctx c g d") auto
  obtain g2 d2 j2 where rs: "run_cmds T ctx cs g1 d1 = (g2, d2, j2)" by (cases "run_cmds T ctx cs g1 d1") auto
  from Cons.IH [of g1 d1] rs obtain es where es: "t_events d2 = t_events d1 @ es" "subseq (map ev_id es) (minted cs)"
    by auto
  have "journal_step (tx_mint env) d d1" using run_cmd_journal [of env d T ctx now cmd g] r c by simp
  then consider "t_events d1 = t_events d" | e where "tx_mint env = Inr (ev_id e)" "t_events d1 = t_events d @ [e]"
    by (auto simp: journal_step_def)
  then show ?case
  proof cases
    case 1
    then show ?thesis using es r rs c by (auto intro: list_emb_append2)
  next
    case 2
    then show ?thesis using es r rs c by (intro exI [of _ "e # es"]) simp
  qed
qed simp

subsection \<open>Properties\<close>

text \<open>
  C20. The journal is written in the order of its ids. When the ids a room's commands are given are those
  one Snowflake generator mints, over any interleaving of mints and lease renewals and any sequence of
  commands with any database failures, the rows the commands append to the journal have strictly
  increasing ids: reading the timeline by id is reading it in the order it was written.
\<close>

theorem journal_in_id_order:
  assumes "NewGenerator w e = Ok gen" "run_gen now ops gen i = Some (minted cs, gen', k)"
  shows "\<exists>es. t_events (fst (snd (run_cmds T ctx cs g d))) = t_events d @ es \<and> sorted_wrt (<) (map ev_id es)"
proof -
  have "gen_inv gen" using NewGenerator_inv [OF assms(1)] by simp
  then have "sorted_wrt (<) (minted cs)" using sf.mints_above [OF run_gen_mints [OF assms(2)]] by simp
  then show ?thesis
    using run_cmds_journal [of T ctx cs g d] by (meson sorted_wrt_subseq)
qed

definition demo_posts :: "(txenv \<times> instant \<times> room_cmd) list" where
  "demo_posts = [(healthy_env 9 (Ok (20971520 + 28672)), 9, CmdPost demo_bob ''hi''),
     (healthy_env 9 (Ok (20971520 + 28673)), 9, CmdLeave ''3'')]"

theorem journal_in_id_order_witness:
  "\<exists>es. t_events (fst (snd (run_cmds plain_text_lib demo_ctx demo_posts demo_grain demo_db))) = t_events demo_db @ es
     \<and> sorted_wrt (<) (map ev_id es)"
proof -
  have "minted demo_posts = [20971520 + 28672, 20971520 + 28673]" by (simp add: demo_posts_def)
  then show ?thesis using journal_in_id_order [OF demo_gen_new, of demo_clock _ 0 demo_posts] demo_run by metis
qed

text \<open>
  The pages of the timeline. A reader that asks for the newest page, then for the page before the
  last entry it got for as long as the look-ahead reports more, sees every event of the room that
  matches the search exactly once, newest first, whatever the page size; it needs no more requests than
  there are events, plus one.
\<close>

theorem timeline_pages_cover:
  assumes "db_inv d" "readable d" "0 < lim"
  shows "\<exists>es. timeline_walk L roomID q lim d (Suc (length (t_events d))) zero_event_id = Some es \<and>
    map (event_int64 \<circ> te_ID) es = rev (sort (map ev_id (filter (timeline_match L roomID q) (t_events d)))) \<and>
    distinct es"
proof (intro exI conjI)
  let ?rows = "timeline_rows L roomID q d"
  show "timeline_walk L roomID q lim d (Suc (length (t_events d))) zero_event_id = Some (map (entry_of d) ?rows)"
    by (rule timeline_walk_rows [OF assms])
  have ids: "map (event_int64 \<circ> te_ID) (map (entry_of d) ?rows) = map ev_id ?rows"
    by (simp add: entry_of_def comp_def)
  then show "map (event_int64 \<circ> te_ID) (map (entry_of d) ?rows) =
      rev (sort (map ev_id (filter (timeline_match L roomID q) (t_events d))))"
    by (simp add: timeline_rows_def rev_map [symmetric] map_sort_key_ids)
  have "distinct (map ev_id ?rows)"
    using timeline_rows_ids [OF assms(1), of L roomID q] unfolding strict_sorted_iff by simp
  then have "distinct (map (event_int64 \<circ> te_ID) (map (entry_of d) ?rows))" unfolding ids .
  then show "distinct (map (entry_of d) ?rows)" by (simp only: distinct_map)
qed

definition demo_event :: "int \<Rightarrow> event_row" where
  "demo_event i = \<lparr>ev_id = i, ev_room = 4, ev_type = EvMessagePosted, ev_user = 2, ev_occurred_at = i,
     ev_payload = MessagePayload ''hi''\<rparr>"

definition demo_journal :: db where
  "demo_journal = demo_db\<lparr>t_events := [demo_event 71, demo_event 72, demo_event 73]\<rparr>"

lemma demo_journal_ok: "db_inv demo_journal" "readable demo_journal"
proof -
  show "db_inv demo_journal"
    using demo_db_inv by (simp add: demo_journal_def db_inv_def demo_event_def) (simp add: demo_db_def demo_user_def)
  show "readable demo_journal"
    by (simp add: readable_def demo_journal_def demo_event_def demo_db_def demo_user_def valid_code_def
        publicCodeLen_def crockfordAlphabet_def)
qed

theorem timeline_pages_cover_witness:
  "\<exists>es. timeline_walk \<lparr>pgroonga = (\<lambda>_ _. True), ieq = (=)\<rparr> (RoomID 4) (MessageQuery []) 2 demo_journal 4 zero_event_id
       = Some es \<and> map (event_int64 \<circ> te_ID) es = [73, 72, 71]"
proof -
  have "filter (timeline_match \<lparr>pgroonga = (\<lambda>_ _. True), ieq = (=)\<rparr> (RoomID 4) (MessageQuery [])) (t_events demo_journal)
      = t_events demo_journal"
    by (simp add: timeline_match_def demo_journal_def demo_event_def mquery_is_zero_def)
  then show ?thesis
    using timeline_pages_cover [OF demo_journal_ok, of 2 "\<lparr>pgroonga = (\<lambda>_ _. True), ieq = (=)\<rparr>" "RoomID 4"
        "MessageQuery []"] by (auto simp: demo_journal_def demo_event_def eval_nat_numeral)
qed

text \<open>
  The pages of the room catalogue. Walking \<open>ListActive\<close> by its cursor yields every active room whose
  name matches the search exactly once, in id order, whatever the page size.
\<close>

theorem rooms_pages_cover:
  assumes "db_inv d" "readable_rooms d" "0 < lim"
  shows "\<exists>rs. rooms_walk L q lim d (Suc (length (t_rooms d))) zero_room_id = Some rs \<and>
    map (room_int64 \<circ> room_ID) rs = sort (map rm_id (filter (room_match L q) (t_rooms d))) \<and>
    list_all (\<lambda>r. room_Status r = RoomStatusActive) rs"
proof (intro exI conjI)
  let ?rows = "room_rows L q d"
  show "rooms_walk L q lim d (Suc (length (t_rooms d))) zero_room_id = Some (map room_of ?rows)"
    by (rule rooms_walk_rows [OF assms])
  show "map (room_int64 \<circ> room_ID) (map room_of ?rows) = sort (map rm_id (filter (room_match L q) (t_rooms d)))"
    by (simp add: room_of_def comp_def room_rows_def map_sort_key_ids)
  show "list_all (\<lambda>r. room_Status r = RoomStatusActive) (map room_of ?rows)"
    by (auto simp: list_all_iff room_of_def room_rows_def room_match_def)
qed

theorem rooms_pages_cover_witness:
  "\<exists>rs. rooms_walk \<lparr>pgroonga = (\<lambda>_ _. True), ieq = (=)\<rparr> (RoomNameQuery []) 1 demo_db 2 zero_room_id = Some rs
     \<and> map (room_int64 \<circ> room_ID) rs = [4]"
proof -
  have ok: "readable_rooms demo_db"
    by (simp add: readable_rooms_def demo_db_def valid_code_def publicCodeLen_def crockfordAlphabet_def)
  show ?thesis
    using rooms_pages_cover [OF demo_db_inv ok, of 1 "\<lparr>pgroonga = (\<lambda>_ _. True), ieq = (=)\<rparr>" "RoomNameQuery []"]
    by (auto simp: demo_db_def room_match_def rquery_is_zero_def eval_nat_numeral)
qed

text \<open>
  A room search is literal. The pattern built from a name fragment matches exactly the names that
  contain the fragment, character by character up to the comparison \<open>ILIKE\<close> uses: no wildcard or escape
  character in the fragment keeps its special meaning.
\<close>

theorem like_pattern_literal:
  "like_match eq (likeSubstringPattern q) name \<longleftrightarrow>
     (\<exists>pre mid post. name = pre @ mid @ post \<and> list_all2 eq (rquery_string q) mid)"
proof -
  have any: "like_match eq [CHR 0x25] s" for s using like_percent [of eq "[]" s] by auto
  have "likeSubstringPattern q = CHR 0x25 # (escape like_specials (rquery_string q) @ [CHR 0x25])"
    by (simp add: likeSubstringPattern_def)
  then have "like_match eq (likeSubstringPattern q) name \<longleftrightarrow>
      (\<exists>pre rest. name = pre @ rest \<and> (\<exists>mid post. rest = mid @ post \<and> list_all2 eq (rquery_string q) mid))"
    unfolding like_percent like_escaped using any by (simp only: like_percent like_escaped) blast
  then show ?thesis by blast
qed

end
