(* ===== verification/GatewayRooms.thy ===== *)
theory GatewayRooms
  imports Gateway Timeline UserGrain
begin

text \<open>
  The room handlers of \<open>internal/gateway\<close> (\<open>handler_room*.go\<close>), the room creation service and the readers
  behind the query handlers.

  The caller's User grain is the record \<open>user_client\<close> (\<open>user_grain_caller.go\<close>): each call fails in transport
  or answers. The world \<open>'w\<close> is whatever the calls change.
\<close>

record 'w user_client =
  uc_JoinRoom :: "user_id \<Rightarrow> string \<Rightarrow> 'w \<Rightarrow> (unit, ack) result \<times> 'w"
  uc_LeaveRoom :: "user_id \<Rightarrow> string \<Rightarrow> 'w \<Rightarrow> (unit, ack) result \<times> 'w"
  uc_SendMessage :: "user_id \<Rightarrow> string \<Rightarrow> string \<Rightarrow> 'w \<Rightarrow> (unit, post_response) result \<times> 'w"
  uc_GetJoinedRooms :: "user_id \<Rightarrow> 'w \<Rightarrow> (unit, proto_room_ref list) result \<times> 'w"
  uc_SetRoomMemberRole :: "user_id \<Rightarrow> string \<Rightarrow> string \<Rightarrow> string \<Rightarrow> 'w \<Rightarrow> (unit, ack) result \<times> 'w"
  uc_TransferRoomOwnership :: "user_id \<Rightarrow> string \<Rightarrow> string \<Rightarrow> 'w \<Rightarrow> (unit, ack) result \<times> 'w"

text \<open>What the gateway is built from, as far as the room handlers use it.\<close>

record 'w gateway =
  gw_http :: http_lib
  gw_text :: text_lib
  gw_validate :: "string \<Rightarrow> 'w \<Rightarrow> (auth_error, claims option) result"
  gw_resolve_room :: "public_code \<Rightarrow> 'w \<Rightarrow> (store_error, room_id) result"
  gw_resolve_user :: "public_code \<Rightarrow> 'w \<Rightarrow> (auth_error, user_id) result"
  gw_users :: "'w user_client"

subsection \<open>Parsing the path\<close>

definition room_resolve :: "outcome \<Rightarrow> public_code \<Rightarrow> db \<Rightarrow> (store_error, room_id) result" where
  "room_resolve oc code d = (case FindByPublicCode oc code d of Inl e \<Rightarrow> Err e | Inr room \<Rightarrow> Ok (room_ID room))"

definition requireRoomID ::
  "'w gateway \<Rightarrow> request \<Rightarrow> (room_id \<Rightarrow> 'w \<Rightarrow> response \<times> 'w) \<Rightarrow> 'w \<Rightarrow> response \<times> 'w" where
  "requireRoomID g r k w =
     (case ParseRoomCode (rq_path r ''id'') of
        Inl _ \<Rightarrow> (WriteErrorResponse 400 (errDetail InvalidRequest ''room id is invalid''), w)
      | Inr code \<Rightarrow>
          (case gw_resolve_room g code w of
             Inl e \<Rightarrow>
               (if e = ErrRoomNotFound then WriteErrorResponse 404 (errDetail RoomNotFound ''room not found'')
                else WriteErrorResponse 503 (errDetail ServiceUnavailable ''failed to resolve room''), w)
           | Inr roomID \<Rightarrow> k roomID w))"

definition requireTargetUserID ::
  "'w gateway \<Rightarrow> string \<Rightarrow> (user_id \<Rightarrow> 'w \<Rightarrow> response \<times> 'w) \<Rightarrow> 'w \<Rightarrow> response \<times> 'w" where
  "requireTargetUserID g raw k w =
     (case ParseUserCode raw of
        Inl _ \<Rightarrow> (WriteErrorResponse 400 (errDetail InvalidRequest ''user id is invalid''), w)
      | Inr code \<Rightarrow>
          (case gw_resolve_user g code w of
             Inl e \<Rightarrow>
               (if e = ErrPublicCodeUnknown then WriteErrorResponse 400 (errDetail InvalidRequest ''unknown user'')
                else WriteErrorResponse 503 (errDetail ServiceUnavailable ''failed to resolve user''), w)
           | Inr targetID \<Rightarrow> k targetID w))"

subsection \<open>Commands\<close>

definition writeBusinessErrorResponse :: "error_detail \<Rightarrow> response" where
  "writeBusinessErrorResponse pe =
     (case FromProtoErrorDetail (Some pe) of
        Inl _ \<Rightarrow> WriteErrorResponse 500 (errDetail InternalError ''internal server error'')
      | Inr ed \<Rightarrow> WriteErrorResponse (httpStatus (ed_code ed)) ed)"

text \<open>The common end of the command handlers.\<close>

definition command_response :: "(unit, ack) result \<times> 'w \<Rightarrow> response \<times> 'w" where
  "command_response res =
     (case res of
        (Inl _, w) \<Rightarrow> (WriteErrorResponse 503 (errDetail ServiceUnavailable ''failed to reach user grain''), w)
      | (Inr (Some pe), w) \<Rightarrow> (writeBusinessErrorResponse pe, w)
      | (Inr None, w) \<Rightarrow> (\<lparr>rs_status = 200, rs_body = BSuccess\<rparr>, w))"

definition handleRoomMembershipPut :: "'w gateway \<Rightarrow> request \<Rightarrow> user_id \<Rightarrow> 'w \<Rightarrow> response \<times> 'w" where
  "handleRoomMembershipPut g r userID =
     requireRoomID g r (\<lambda>roomID w. command_response (uc_JoinRoom (gw_users g) userID (room_string roomID) w))"

definition handleRoomMembershipDelete :: "'w gateway \<Rightarrow> request \<Rightarrow> user_id \<Rightarrow> 'w \<Rightarrow> response \<times> 'w" where
  "handleRoomMembershipDelete g r userID =
     requireRoomID g r (\<lambda>roomID w. command_response (uc_LeaveRoom (gw_users g) userID (room_string roomID) w))"

definition maxRoomMessageBodyBytes :: nat where "maxRoomMessageBodyBytes = 8 * 1024"

definition decodeSendMessageRequest :: "'w gateway \<Rightarrow> request \<Rightarrow> (error_detail, message_text) result" where
  "decodeSendMessageRequest g r =
     (case decodeStrictJSONBody (gw_http g) r maxRoomMessageBodyBytes of
        Inl e \<Rightarrow> Err e
      | Inr req \<Rightarrow>
          (case NewMessageText (gw_text g) (req ''text'') of
             Inr msg \<Rightarrow> Ok msg
           | Inl e \<Rightarrow>
               if e = ErrMessageTextEmpty then Err (errDetail InvalidRequest ''text is required'')
               else Err (errDetail InvalidRequest
                 ''text must be at most 4096 bytes of valid UTF-8 without control characters other than newline and tab'')))"

definition unix_milli :: "instant \<Rightarrow> int" where
  "unix_milli t = t div 1000000"

definition handleRoomSendMessage :: "'w gateway \<Rightarrow> request \<Rightarrow> user_id \<Rightarrow> 'w \<Rightarrow> response \<times> 'w" where
  "handleRoomSendMessage g r userID =
     requireRoomID g r (\<lambda>roomID w.
       case decodeSendMessageRequest g r of
         Inl detail \<Rightarrow> (WriteErrorResponse (httpStatus (ed_code detail)) detail, w)
       | Inr msg \<Rightarrow>
           (case uc_SendMessage (gw_users g) userID (room_string roomID) (text_string msg) w of
              (Inl _, w') \<Rightarrow> (WriteErrorResponse 503 (errDetail ServiceUnavailable ''failed to reach user grain''), w')
            | (Inr resp, w') \<Rightarrow>
                (case presp_error resp of
                   Some pe \<Rightarrow> (writeBusinessErrorResponse pe, w')
                 | None \<Rightarrow>
                     (\<lparr>rs_status = 200, rs_body = BSent (case presp_timestamp resp of None \<Rightarrow> 0 | Some t \<Rightarrow> unix_milli t)\<rparr>, w'))))"

definition maxRoomCommandBodyBytes :: nat where "maxRoomCommandBodyBytes = 1024"

definition handleRoomMemberRolePut :: "'w gateway \<Rightarrow> request \<Rightarrow> user_id \<Rightarrow> 'w \<Rightarrow> response \<times> 'w" where
  "handleRoomMemberRolePut g r userID =
     requireRoomID g r (\<lambda>roomID.
       requireTargetUserID g (rq_path r ''user'') (\<lambda>targetID.
         decodeJSONBody (gw_http g) r maxRoomCommandBodyBytes (\<lambda>req w.
           if trim_space (req ''role'') = [] then (WriteErrorResponse 400 (errDetail InvalidRequest ''role is required''), w)
           else command_response (uc_SetRoomMemberRole (gw_users g) userID (room_string roomID) (user_string targetID) (req ''role'') w))))"

definition handleRoomOwnerPut :: "'w gateway \<Rightarrow> request \<Rightarrow> user_id \<Rightarrow> 'w \<Rightarrow> response \<times> 'w" where
  "handleRoomOwnerPut g r userID =
     requireRoomID g r (\<lambda>roomID.
       decodeJSONBody (gw_http g) r maxRoomCommandBodyBytes (\<lambda>req w.
         if trim_space (req ''user'') = [] then (WriteErrorResponse 400 (errDetail InvalidRequest ''user is required''), w)
         else requireTargetUserID g (req ''user'') (\<lambda>newOwnerID w'.
           command_response (uc_TransferRoomOwnership (gw_users g) userID (room_string roomID) (user_string newOwnerID) w')) w))"

subsection \<open>Room creation\<close>

definition roomCreateCollisionRetryLimit :: nat where "roomCreateCollisionRetryLimit = 3"

record room_info =
  ri_ID :: room_id
  ri_Code :: public_code
  ri_Name :: string

text \<open>What one run of the creation transaction draws: two minted ids and the bytes of a public code.\<close>

record create_context = txenv +
  cc_mint_event :: "(mint_error, int) result"
  cc_code :: "(unit, 8 word list) result"

definition create_op :: "text_lib \<Rightarrow> create_context \<Rightarrow> user_id \<Rightarrow> room_name \<Rightarrow> room_info stmt" where
  "create_op T env actor name d =
     (case UserRepo_FindByID T (tx_stmt env 0) actor d of
        Inl e \<Rightarrow> (Err e, d)
      | Inr user \<Rightarrow>
      case NewUserRef T actor (usr_PublicCode user) (usr_DisplayName user) of
        Inl e \<Rightarrow> (Err (ErrRow (RowDomain e)), d)
      | Inr ownerRef \<Rightarrow>
      case RoomRepo_Create (tx_mint env) (cc_code env) (tx_now env) (tx_stmt env 1)
             \<lparr>rcp_Name = name, rcp_CreatedBy = actor\<rparr> d of
        (Inl e, d') \<Rightarrow> (Err e, d')
      | (Inr room, d') \<Rightarrow>
      case Add (tx_stmt env 2) (tx_now env) (room_ID room) ownerRef MembershipRoleOwner d' of
        (Inl e, d2) \<Rightarrow> (Err e, d2)
      | (Inr _, d2) \<Rightarrow>
      case AppendMembership (cc_mint_event env) (tx_now env) (tx_stmt env 3) (room_ID room) ownerRef MemberJoined d2 of
        (Inl e, d3) \<Rightarrow> (Err e, d3)
      | (Inr _, d3) \<Rightarrow>
          (Ok \<lparr>ri_ID = room_ID room, ri_Code = room_PublicCode room, ri_Name = room_DisplayName room\<rparr>, d3))"

function create_loop :: "(nat \<Rightarrow> 'a stmt) \<Rightarrow> nat \<Rightarrow> 'a stmt" where
  "create_loop tx attempt d =
     (case tx attempt d of
        (Inr x, d') \<Rightarrow> (Ok x, d')
      | (Inl e, d') \<Rightarrow>
          if e \<noteq> ErrRoomPublicCodeCollision then (Err e, d')
          else if attempt \<ge> roomCreateCollisionRetryLimit then (Err e, d')
          else create_loop tx (Suc attempt) d')"
  by pat_completeness auto
termination
  by (relation "measure (\<lambda>(_, attempt, _). roomCreateCollisionRetryLimit - attempt)") auto

declare create_loop.simps [simp del]

definition CreateRoom :: "text_lib \<Rightarrow> (nat \<Rightarrow> create_context) \<Rightarrow> user_id \<Rightarrow> room_name \<Rightarrow> room_info stmt" where
  "CreateRoom T env actor name =
     create_loop (\<lambda>k. WithinTx (txenv.truncate (env k)) (create_op T (env k) actor name)) 0"

definition ri_public_id :: "room_info \<Rightarrow> string" where
  "ri_public_id info = FormatRoom (ri_Code info)"

text \<open>\<open>handleRoomCreate\<close>; the join that warms the caches may fail in any way.\<close>

definition handleRoomCreate ::
  "'w gateway \<Rightarrow> (user_id \<Rightarrow> room_name \<Rightarrow> 'w \<Rightarrow> (store_error, room_info) result \<times> 'w) \<Rightarrow> request \<Rightarrow> user_id \<Rightarrow> 'w \<Rightarrow> response \<times> 'w" where
  "handleRoomCreate g create r userID =
     decodeJSONBody (gw_http g) r maxRoomCommandBodyBytes (\<lambda>req w.
       case NewRoomName (gw_text g) (req ''name'') of
         Inl _ \<Rightarrow> (WriteErrorResponse 400 (errDetail InvalidRequest ''name must be 1-64 bytes of printable characters''), w)
       | Inr name \<Rightarrow>
           (case create userID name w of
              (Inl e, w') \<Rightarrow> (WriteErrorResponse 500 (errDetail InternalError ''room creation unavailable''), w')
            | (Inr info, w') \<Rightarrow>
                (\<lparr>rs_status = 201, rs_body = BRoom \<lparr>ds_ID = ri_public_id info, ds_Name = ri_Name info\<rparr>\<rparr>,
                 snd (uc_JoinRoom (gw_users g) userID (room_string (ri_ID info)) w'))))"

subsection \<open>Queries\<close>

definition is_member :: "outcome \<Rightarrow> room_id \<Rightarrow> user_id \<Rightarrow> db \<Rightarrow> (store_error, bool) result" where
  "is_member oc roomID userID d =
     (case fst (GetRole oc roomID userID d) of
        Inl e \<Rightarrow> if e = ErrMembershipNotFound then Ok False else Err e
      | Inr _ \<Rightarrow> Ok True)"

definition roomEventsDefaultLimit :: int where "roomEventsDefaultLimit = 50"
definition roomEventsMaxLimit :: int where "roomEventsMaxLimit = 200"

definition parse_limit :: "int \<Rightarrow> int \<Rightarrow> string \<Rightarrow> (error_detail, int) result" where
  "parse_limit def maxi raw =
     (if raw = [] then Ok def
      else case parse_int raw of
             Inl _ \<Rightarrow> Err (errDetail InvalidRequest (''limit must be an integer between 1 and '' @ format_int maxi))
           | Inr limit \<Rightarrow>
               if limit < 1 \<or> limit > maxi
               then Err (errDetail InvalidRequest (''limit must be an integer between 1 and '' @ format_int maxi))
               else Ok limit)"

record room_events_params =
  rep_query :: message_query
  rep_before :: event_id
  rep_limit :: int

definition parseRoomEventsQuery :: "text_lib \<Rightarrow> request \<Rightarrow> (error_detail, room_events_params) result" where
  "parseRoomEventsQuery T r =
     (let q = trim_space (rq_query r ''q''); before = trim_space (rq_query r ''before'')
      in case (if q = [] then Ok (MessageQuery []) else NewMessageQuery T q) of
           Inl _ \<Rightarrow> Err (errDetail InvalidRequest ''q must be 1-256 bytes of valid UTF-8'')
         | Inr query \<Rightarrow>
         case (if before = [] then Ok zero_event_id else ParseEventID before) of
           Inl _ \<Rightarrow> Err (errDetail InvalidRequest ''before is not a valid event id'')
         | Inr bef \<Rightarrow>
         case parse_limit roomEventsDefaultLimit roomEventsMaxLimit (rq_query r ''limit'') of
           Inl e \<Rightarrow> Err e
         | Inr limit \<Rightarrow> Ok \<lparr>rep_query = query, rep_before = bef, rep_limit = limit\<rparr>)"

definition toRoomEvent :: "timeline_entry \<Rightarrow> room_event" where
  "toRoomEvent entry =
     (let person = Some \<lparr>ep_ID = FormatUser (tu_Code (te_User entry)), ep_Name = tu_Name (te_User entry)\<rparr>;
          base = \<lparr>rv_ID = event_string (te_ID entry), rv_Type = [], rv_Sender = None, rv_User = None, rv_Text = [],
                  rv_Timestamp = unix_milli (te_OccurredAt entry)\<rparr>
      in case te_Kind entry of
           EntryMessage \<Rightarrow> base\<lparr>rv_Type := ''message'', rv_Sender := person, rv_Text := te_Text entry\<rparr>
         | EntryMemberJoined \<Rightarrow> base\<lparr>rv_Type := ''member_joined'', rv_User := person\<rparr>
         | EntryMemberLeft \<Rightarrow> base\<lparr>rv_Type := ''member_left'', rv_User := person\<rparr>)"

definition toRoomEvents :: "timeline_entry list \<Rightarrow> room_event list" where
  "toRoomEvents entries = map toRoomEvent entries"

text \<open>\<open>handleRoomEvents\<close> over the readers of \<open>room_timeline.go\<close>, on the database \<open>w\<close> shows.\<close>

definition handleRoomEvents ::
  "'w gateway \<Rightarrow> (room_id \<Rightarrow> user_id \<Rightarrow> 'w \<Rightarrow> (store_error, bool) result)
     \<Rightarrow> (room_id \<Rightarrow> timeline_params \<Rightarrow> 'w \<Rightarrow> (entry_error, timeline_entry list \<times> bool) result)
     \<Rightarrow> request \<Rightarrow> user_id \<Rightarrow> 'w \<Rightarrow> response \<times> 'w" where
  "handleRoomEvents g member_of events r userID =
     requireRoomID g r (\<lambda>roomID w.
       case parseRoomEventsQuery (gw_text g) r of
         Inl detail \<Rightarrow> (WriteErrorResponse (httpStatus (ed_code detail)) detail, w)
       | Inr params \<Rightarrow>
       case member_of roomID userID w of
         Inl _ \<Rightarrow> (WriteErrorResponse 503 (errDetail ServiceUnavailable ''failed to check membership''), w)
       | Inr member \<Rightarrow>
       if \<not> member then (WriteErrorResponse 403 (errDetail RoomNotMember ''not a member of this room''), w)
       else case events roomID \<lparr>tp_Query = rep_query params, tp_Before = rep_before params, tp_Limit = nat (rep_limit params)\<rparr> w of
         Inl _ \<Rightarrow> (WriteErrorResponse 503 (errDetail ServiceUnavailable ''failed to load events''), w)
       | Inr (entries, hasMore) \<Rightarrow>
           (\<lparr>rs_status = 200, rs_body = BEvents (toRoomEvents entries)
              (if hasMore then Some (event_string (te_ID (last entries))) else None)\<rparr>, w))"

definition roomListDefaultLimit :: int where "roomListDefaultLimit = 50"
definition roomListMaxLimit :: int where "roomListMaxLimit = 200"

record room_list_params =
  rlp_query :: room_name_query
  rlp_after :: public_code
  rlp_limit :: int

definition parseRoomListQuery :: "text_lib \<Rightarrow> request \<Rightarrow> (error_detail, room_list_params) result" where
  "parseRoomListQuery T r =
     (let q = trim_space (rq_query r ''q''); after = trim_space (rq_query r ''after'')
      in case (if q = [] then Ok (RoomNameQuery []) else NewRoomNameQuery T q) of
           Inl _ \<Rightarrow> Err (errDetail InvalidRequest ''q must be 1-64 bytes of printable characters'')
         | Inr query \<Rightarrow>
         case (if after = [] then Ok zero_public_code else ParseRoomCode after) of
           Inl _ \<Rightarrow> Err (errDetail InvalidRequest ''after is not a valid room code'')
         | Inr code \<Rightarrow>
         case parse_limit roomListDefaultLimit roomListMaxLimit (rq_query r ''limit'') of
           Inl e \<Rightarrow> Err e
         | Inr limit \<Rightarrow> Ok \<lparr>rlp_query = query, rlp_after = code, rlp_limit = limit\<rparr>)"

definition room_descriptor :: "room \<Rightarrow> descriptor" where
  "room_descriptor room = \<lparr>ds_ID = FormatRoom (room_PublicCode room), ds_Name = room_DisplayName room\<rparr>"

definition handleRoomList ::
  "'w gateway \<Rightarrow> (list_active_params \<Rightarrow> 'w \<Rightarrow> (store_error, room list \<times> bool) result) \<Rightarrow> request \<Rightarrow> user_id \<Rightarrow> 'w \<Rightarrow> response \<times> 'w" where
  "handleRoomList g list r userID w =
     (case parseRoomListQuery (gw_text g) r of
        Inl detail \<Rightarrow> (WriteErrorResponse (httpStatus (ed_code detail)) detail, w)
      | Inr params \<Rightarrow>
      case (if code_is_zero (rlp_after params) then Ok zero_room_id else gw_resolve_room g (rlp_after params) w) of
        Inl e \<Rightarrow>
          (if e = ErrRoomNotFound then WriteErrorResponse 400 (errDetail InvalidRequest ''after references an unknown room'')
           else WriteErrorResponse 503 (errDetail ServiceUnavailable ''failed to resolve after cursor''), w)
      | Inr after \<Rightarrow>
      case list \<lparr>lp_Query = rlp_query params, lp_AfterID = after, lp_Limit = nat (rlp_limit params)\<rparr> w of
        Inl _ \<Rightarrow> (WriteErrorResponse 503 (errDetail ServiceUnavailable ''failed to list rooms''), w)
      | Inr (rooms, hasMore) \<Rightarrow>
          (\<lparr>rs_status = 200, rs_body = BCatalogue (map room_descriptor rooms)
             (if hasMore then Some (FormatRoom (room_PublicCode (last rooms))) else None)\<rparr>, w))"

definition descriptor_from_ref :: "proto_room_ref \<Rightarrow> (code_error, descriptor) result" where
  "descriptor_from_ref ref =
     (case ParsePublicCode (pr_public_code ref) of
        Inl e \<Rightarrow> Err e
      | Inr code \<Rightarrow> Ok \<lparr>ds_ID = FormatRoom code, ds_Name = pr_name ref\<rparr>)"

definition descriptorsFromRefs :: "proto_room_ref list \<Rightarrow> (code_error, descriptor list) result" where
  "descriptorsFromRefs refs = sequence_res (map descriptor_from_ref refs)"

definition handleRoomJoined :: "'w gateway \<Rightarrow> request \<Rightarrow> user_id \<Rightarrow> 'w \<Rightarrow> response \<times> 'w" where
  "handleRoomJoined g r userID w =
     (case uc_GetJoinedRooms (gw_users g) userID w of
        (Inl _, w') \<Rightarrow> (WriteErrorResponse 503 (errDetail ServiceUnavailable ''failed to reach user grain''), w')
      | (Inr refs, w') \<Rightarrow>
          (case descriptorsFromRefs refs of
             Inl _ \<Rightarrow> (WriteErrorResponse 500 (errDetail InternalError ''failed to read joined rooms''), w')
           | Inr ds \<Rightarrow> (\<lparr>rs_status = 200, rs_body = BRooms ds\<rparr>, w')))"

subsection \<open>A created room\<close>

text \<open>What the creation transaction writes: the room, the owner's membership and the founding event.\<close>

definition founded :: "user_id \<Rightarrow> room_name \<Rightarrow> room_info \<Rightarrow> db \<Rightarrow> db \<Rightarrow> bool" where
  "founded actor name info d d' \<longleftrightarrow>
     (\<exists>row room m e. d' = d\<lparr>t_rooms := t_rooms d @ [row], t_memberships := t_memberships d @ [m], t_events := t_events d @ [e]\<rparr>
        \<and> rm_id row = room_int64 (ri_ID info) \<and> 0 < rm_id row \<and> rm_id row \<notin> rm_id ` set (t_rooms d)
        \<and> rm_public_code row \<notin> rm_public_code ` set (t_rooms d) \<and> rm_public_code row = code_string (ri_Code info) \<and> valid_code (ri_Code info)
        \<and> roomRow_toDomain row = Ok room \<and> info = \<lparr>ri_ID = room_ID room, ri_Code = room_PublicCode room, ri_Name = room_DisplayName room\<rparr>
        \<and> rm_status row = RoomStatusActive \<and> rm_display_name row = name_string name \<and> rm_created_by row = user_int64 actor
        \<and> user_int64 actor \<in> su_id ` set (t_users d)
        \<and> mb_room m = rm_id row \<and> mb_user m = user_int64 actor \<and> mb_role m = MembershipRoleOwner
        \<and> ev_id e \<notin> ev_id ` set (t_events d) \<and> ev_room e = rm_id row \<and> ev_user e = user_int64 actor \<and> ev_type e = EvMemberJoined)"

text \<open>A minted code is stored in the one spelling its parse returns, so that a lookup by it finds the row.\<close>

lemma minted_code_canonical:
  assumes "NewPublicCode rnd = Ok code" and "ParsePublicCode (code_string code) = Ok c"
  shows "c = code"
proof -
  obtain buf where code: "code = PublicCode (map crockfordSymbol buf)"
    using assms(1) by (auto simp: NewPublicCode_def split: sum.splits)
  have sym: "crockfordSymbol b \<in> set crockfordAlphabet" for b
  proof -
    have "unat (b AND 31) \<le> unat (31 :: 8 word)"
      by (rule word_and_le1 [THEN word_le_nat_alt [THEN iffD1]])
    then have "unat (b AND 31) < length crockfordAlphabet" by (simp add: crockfordAlphabet_def)
    then show ?thesis unfolding crockfordSymbol_def by (rule nth_mem)
  qed
  have "\<forall>x \<in> set (code_string code). x \<in> set crockfordAlphabet" using sym by (auto simp: code)
  then have "is_ascii (code_string code)" "\<forall>x \<in> set (code_string code). \<not> is_space (byte_of x)"
    using in_crockford_ascii in_crockford_not_space by (auto simp: is_ascii_def list_all_iff in_crockford_char [symmetric])
  then have "trim_space (code_string code) = code_string code" by (rule trim_space_ascii_id)
  then have "length (code_string code) = publicCodeLen"
    using assms(2) by (auto simp: ParsePublicCode_def Let_def split: if_splits)
  then have "valid_code code" using sym by (auto simp: valid_code_def code)
  then show ?thesis using ParsePublicCode_string assms(2) by auto
qed

lemma roomRow_toDomain_code: "roomRow_toDomain row = Ok room \<Longrightarrow> ParsePublicCode (rm_public_code row) = Ok (room_PublicCode room)"
  by (auto simp: roomRow_toDomain_def split: sum.splits)

lemma RoomRepo_Create_Ok:
  assumes "RoomRepo_Create mint rnd now oc p d = (Ok room, d')"
  obtains row where "d' = d\<lparr>t_rooms := t_rooms d @ [row]\<rparr>" "roomRow_toDomain row = Ok room" "0 < rm_id row"
    "rm_id row \<notin> rm_id ` set (t_rooms d)" "rm_public_code row \<notin> rm_public_code ` set (t_rooms d)"
    "rm_created_by row \<in> su_id ` set (t_users d)" "rm_created_by row = user_int64 (rcp_CreatedBy p)"
    "rm_status row = RoomStatusActive" "rm_display_name row = name_string (rcp_Name p)"
    "rm_public_code row = code_string (room_PublicCode room)"
proof -
  define row where "row w code = \<lparr>rm_id = w, rm_public_code = code_string code, rm_display_name = name_string (rcp_Name p),
      rm_created_by = user_int64 (rcp_CreatedBy p), rm_status = RoomStatusActive, rm_created_at = now, rm_updated_at = now\<rparr>" for w code
  obtain w code r where w: "0 < w" and mint: "NewPublicCode rnd = Ok code"
    and ins: "run_stmt oc (roomInsertSQL (row w code)) d = (Ok r, d')" and dom: "roomRow_toDomain r = Ok room"
    using assms unfolding row_def by (auto simp: RoomRepo_Create_def split: sum.splits prod.splits)
  have r: "r = row w code" using ins by (auto simp: run_stmt_Ok roomInsertSQL_def split: if_splits)
  have "room_PublicCode room = code"
    using minted_code_canonical [OF mint] roomRow_toDomain_code [OF dom] by (simp add: r row_def)
  then show thesis
    using w ins dom by (intro that [of "row w code"]) (auto simp: run_stmt_Ok roomInsertSQL_def row_def split: if_splits)
qed

lemma new_room_unused:
  "db_inv d \<Longrightarrow> rid \<notin> rm_id ` set (t_rooms d) \<Longrightarrow> x \<in> set (t_memberships d) \<Longrightarrow> mb_room x \<noteq> rid"
  unfolding db_inv_def by blast

lemma create_op_founds:
  assumes "create_op T env actor name d = (Ok info, d')"
  shows "founded actor name info d d'"
proof -
  obtain user :: user and ref and room :: room and d1 d2 x where ref: "NewUserRef T actor (usr_PublicCode user) (usr_DisplayName user) = Ok ref"
    and room: "RoomRepo_Create (tx_mint env) (cc_code env) (tx_now env) (tx_stmt env 1) \<lparr>rcp_Name = name, rcp_CreatedBy = actor\<rparr> d = (Ok room, d1)"
    and add: "Add (tx_stmt env 2) (tx_now env) (room_ID room) ref MembershipRoleOwner d1 = (Ok (), d2)"
    and app: "AppendMembership (cc_mint_event env) (tx_now env) (tx_stmt env 3) (room_ID room) ref MemberJoined d2 = (Ok x, d')"
    and info: "info = \<lparr>ri_ID = room_ID room, ri_Code = room_PublicCode room, ri_Name = room_DisplayName room\<rparr>"
    using assms by (auto simp: create_op_def split: sum.splits prod.splits)
  have actor: "ur_id ref = actor" using ref by (auto simp: NewUserRef_def Let_def split: if_splits)
  obtain row where row: "d1 = d\<lparr>t_rooms := t_rooms d @ [row]\<rparr>" "roomRow_toDomain row = Ok room" "0 < rm_id row"
    "rm_id row \<notin> rm_id ` set (t_rooms d)" "rm_public_code row \<notin> rm_public_code ` set (t_rooms d)"
    "rm_created_by row \<in> su_id ` set (t_users d)" "rm_created_by row = user_int64 actor"
    "rm_status row = RoomStatusActive" "rm_display_name row = name_string name"
    "rm_public_code row = code_string (room_PublicCode room)"
    using RoomRepo_Create_Ok [OF room] by auto
  have rid: "room_int64 (room_ID room) = rm_id row" "valid_code (room_PublicCode room)"
    using roomRow_toDomain_Ok [OF row(2)] by auto
  obtain m where m: "d2 = d1\<lparr>t_memberships := t_memberships d1 @ [m]\<rparr>" "mb_room m = rm_id row" "mb_user m = user_int64 actor"
    "mb_role m = MembershipRoleOwner"
    using add actor rid(1) by (auto simp: Add_def run_stmt_Ok addSQL_def split: if_splits)
  obtain e where e: "d' = d2\<lparr>t_events := t_events d2 @ [e]\<rparr>" "ev_id e \<notin> ev_id ` set (t_events d2)" "ev_room e = rm_id row"
    "ev_user e = user_int64 actor" "ev_type e = EvMemberJoined"
    using app actor rid(1)
    by (auto simp: AppendMembership_def run_stmt_Ok appendEventSQL_def eventType_def split: sum.splits prod.splits if_splits)
  show ?thesis
    unfolding founded_def using row m e rid info
    by (intro exI [of _ row] exI [of _ room] exI [of _ m] exI [of _ e]) auto
qed

lemma find_skip: "find p xs = None \<Longrightarrow> find p (xs @ ys) = find p ys"
  by (induction xs) (auto split: if_splits)

lemma founded_resolves:
  assumes "founded actor name info d d'"
  shows "room_resolve Acked (ri_Code info) d' = Ok (ri_ID info)"
proof -
  obtain row room where row: "t_rooms d' = t_rooms d @ [row]" "rm_public_code row \<notin> rm_public_code ` set (t_rooms d)"
      "rm_public_code row = code_string (ri_Code info)" "rm_status row = RoomStatusActive" "roomRow_toDomain row = Ok room"
      "ri_ID info = room_ID room"
    using assms by (auto simp: founded_def)
  have "find (\<lambda>r. rm_public_code r = code_string (ri_Code info) \<and> rm_status r = RoomStatusActive) (t_rooms d) = None"
    using row(2,3) unfolding find_None_iff by (metis image_eqI)
  then have "find (\<lambda>r. rm_public_code r = code_string (ri_Code info) \<and> rm_status r = RoomStatusActive) (t_rooms d') = Some row"
    using row(1,3,4) by (simp add: find_skip)
  then show ?thesis using row(5,6) by (simp add: room_resolve_def FindByPublicCode_def)
qed


lemma founded_db_inv:
  assumes "db_inv d" "founded actor name info d d'"
  shows "db_inv d'"
proof -
  from assms(2) obtain row m e where
    d': "d' = d\<lparr>t_rooms := t_rooms d @ [row], t_memberships := t_memberships d @ [m], t_events := t_events d @ [e]\<rparr>"
    and row: "rm_id row \<notin> rm_id ` set (t_rooms d)" "rm_public_code row \<notin> rm_public_code ` set (t_rooms d)"
    and actor: "user_int64 actor \<in> su_id ` set (t_users d)"
    and m: "mb_room m = rm_id row" "mb_user m = user_int64 actor"
    and e: "ev_id e \<notin> ev_id ` set (t_events d)" "ev_room e = rm_id row" "ev_user e = user_int64 actor"
    by (auto simp: founded_def)
  have none: "mb_room x \<noteq> rm_id row" if "x \<in> set (t_memberships d)" for x
    using new_room_unused [OF assms(1) row(1) that] .
  have "distinct (map (\<lambda>m. (mb_room m, mb_user m)) (t_memberships d @ [m]))"
    using assms(1) none m(1) by (auto simp: db_inv_def)
  moreover have "one_owner (t_memberships d @ [m])"
    using assms(1) none m(1) by (auto simp: db_inv_def one_owner_def)
  ultimately show ?thesis
    using assms(1) row actor m e unfolding d' db_inv_def by (simp add: subset_insertI2)
qed

lemma founded_roles:
  assumes "db_inv d" "founded actor name info d d'"
  shows "role_of d' (ri_ID info) u = (if u = actor then Some MembershipRoleOwner else None)"
    and "r \<noteq> ri_ID info \<Longrightarrow> role_of d' r = role_of d r"
proof -
  from assms(2) obtain row m e where
    d': "d' = d\<lparr>t_rooms := t_rooms d @ [row], t_memberships := t_memberships d @ [m], t_events := t_events d @ [e]\<rparr>"
    and row: "rm_id row \<notin> rm_id ` set (t_rooms d)" "rm_id row = room_int64 (ri_ID info)"
    and m: "mb_room m = rm_id row" "mb_user m = user_int64 actor" "mb_role m = MembershipRoleOwner"
    by (auto simp: founded_def)
  have "mb_room x \<noteq> room_int64 (ri_ID info)" if "x \<in> set (t_memberships d)" for x
    using new_room_unused [OF assms(1) row(1) that] row(2) by simp
  then have none: "row_role (t_memberships d) (room_int64 (ri_ID info)) uid = None" for uid
    by (auto simp: row_role_None is_row_def)
  show "role_of d' (ri_ID info) u = (if u = actor then Some MembershipRoleOwner else None)"
    using none m row by (auto simp: d' role_of_def row_role_append is_row_def id_eq_iff)
  show "role_of d' r = role_of d r" if "r \<noteq> ri_ID info"
    using that m row by (auto simp: d' role_of_def row_role_append is_row_def id_eq_iff fun_eq_iff split: option.splits)
qed

lemma create_loop_result:
  assumes "\<And>k. tx k = WithinTx (env k) (op k)" and "create_loop tx k d = (res, d')"
  shows "(\<forall>x. res = Ok x \<longrightarrow> (\<exists>j. op j d = (Ok x, d')))
    \<and> (\<forall>e. res = Err e \<longrightarrow> d' = d \<or> (e = ErrCommitTx \<and> (\<exists>j. tx_commit (env j) = Unacked)))"
  using assms
proof (induction tx k d rule: create_loop.induct)
  case (1 tx k d)
  obtain r d2 where tx: "tx k d = (r, d2)" by fastforce
  have run: "WithinTx (env k) (op k) d = (r, d2)" using tx 1(2) by simp
  show ?case
  proof (cases "r = Err ErrRoomPublicCodeCollision \<and> \<not> roomCreateCollisionRetryLimit \<le> k")
    case True
    then have "d2 = d" using WithinTx_Err [of "env k" "op k" d ErrRoomPublicCodeCollision d2] run by auto
    moreover have "create_loop tx k d = create_loop tx (Suc k) d2" using True tx by (subst create_loop.simps) simp
    ultimately show ?thesis using 1(1) [OF tx [symmetric], of ErrRoomPublicCodeCollision] 1(2,3) True by metis
  next
    case False
    then have "res = r" "d' = d2" using 1(3) tx by (auto simp: create_loop.simps [of tx k d] split: sum.splits if_splits)
    then show ?thesis using run WithinTx_Err [of "env k" "op k" d _ d2] WithinTx_Ok [of "env k" "op k" d _ d2] by auto
  qed
qed

text \<open>
  C11. A created room starts with its creator as owner and only member. When room creation reports
  success, the transaction added one active room with the given name under a fresh id and public code,
  the creator's membership as owner and a founding member-joined event, and nothing else: the
  constraints hold, the room has exactly the creator as its owner and no other member, the roles in
  every other room are as before, and the returned code, parsed from a request path or looked up
  directly, resolves to the new room. When it reports an error,
  nothing was written unless only the reply to a commit was lost.
\<close>

theorem created_room_has_its_owner:
  assumes "db_inv d" "CreateRoom T env actor name d = (res, d')"
  shows "(\<forall>info. res = Ok info \<longrightarrow> founded actor name info d d' \<and> db_inv d' \<and> owned (role_of d') (ri_ID info)
      \<and> (\<forall>u. role_of d' (ri_ID info) u = (if u = actor then Some MembershipRoleOwner else None))
      \<and> (\<forall>r. r \<noteq> ri_ID info \<longrightarrow> role_of d' r = role_of d r)
      \<and> ParseRoomCode (FormatRoom (ri_Code info)) = Ok (ri_Code info)
      \<and> room_resolve Acked (ri_Code info) d' = Ok (ri_ID info))
    \<and> (\<forall>e. res = Err e \<longrightarrow> d' = d \<or> (e = ErrCommitTx \<and> (\<exists>k. tx_commit (env k) = Unacked)))"
proof -
  have commit: "tx_commit (txenv.truncate (env k)) = tx_commit (env k)" for k by (simp add: txenv.defs)
  note loop = create_loop_result [OF refl assms(2) [unfolded CreateRoom_def], unfolded commit]
  have "founded actor name info d d' \<and> db_inv d' \<and> owned (role_of d') (ri_ID info)
      \<and> (\<forall>u. role_of d' (ri_ID info) u = (if u = actor then Some MembershipRoleOwner else None))
      \<and> (\<forall>r. r \<noteq> ri_ID info \<longrightarrow> role_of d' r = role_of d r)
      \<and> ParseRoomCode (FormatRoom (ri_Code info)) = Ok (ri_Code info)
      \<and> room_resolve Acked (ri_Code info) d' = Ok (ri_ID info)" if "res = Ok info" for info
  proof -
    have f: "founded actor name info d d'" using loop that create_op_founds by blast
    note roles = founded_roles [OF assms(1) f]
    have "owned (role_of d') (ri_ID info)"
      unfolding owned_def by (rule ex1I [of _ actor]) (auto simp: roles(1) split: if_splits)
    moreover have "valid_code (ri_Code info)" using f by (auto simp: founded_def)
    ultimately show ?thesis
      using f founded_db_inv [OF assms(1) f] roles founded_resolves [OF f] ParseRoomCode_FormatRoom by blast
  qed
  then show ?thesis using loop by blast
qed


definition create_demo :: create_context where
  "create_demo = \<lparr>tx_begin = True, tx_stmt = (\<lambda>_. Acked), tx_commit = Acked, tx_now = 9, tx_mint = Ok 50,
     cc_mint_event = Ok 51, cc_code = Ok (replicate 10 0)\<rparr>"

lemma demo_ann:
  "\<exists>u. UserRepo_FindByID plain_text_lib Acked (UserID 1) demo_db = Ok u \<and> usr_PublicCode u = PublicCode ''0000000001''
     \<and> usr_DisplayName u = ''ann''"
proof -
  have mail: "NewMailAddress plain_text_lib ''ann@x.io'' = Ok (MailAddress ''ann@x.io'')"
    by (simp add: NewMailAddress_def plain_text_lib_def trim_space_ascii_id is_space_def MaxMailAddressBytes_def
        isValidMailLocalPart_def maxMailLocalPartBytes_def isMailAtext_def is_alnum_def isValidMailDomain_def
        label_ok_def maxMailDomainLabelBytes_def to_lower_ascii_def to_lower_char_def)
  have hand: "NewHandle plain_text_lib ''ann'' = Ok (Handle ''ann'')"
    by (simp add: NewHandle_def plain_text_lib_def trim_space_ascii_id runes_ascii is_space_def
        minHandleLen_def maxHandleLen_def isHandleChar_def del: runes.simps)
  show ?thesis
    by (simp add: UserRepo_FindByID_def user_findOne_def demo_db_def demo_user_def userRow_toDomain_def NewUserID_def demo_codes
        mail hand ParseUserStatus_def handle_normalized_def to_lower_ascii_def to_lower_char_def)
qed

lemma zero_code: "NewPublicCode (Ok (replicate 10 0)) = Ok (PublicCode ''0000000000'')"
    "ParsePublicCode ''0000000000'' = Ok (PublicCode ''0000000000'')"
proof -
  show "NewPublicCode (Ok (replicate 10 0)) = Ok (PublicCode ''0000000000'')"
    by (simp add: NewPublicCode_def publicCodeLen_def crockfordSymbol_def crockfordAlphabet_def numeral_eq_Suc)
  show "ParsePublicCode ''0000000000'' = Ok (PublicCode ''0000000000'')"
    using ParsePublicCode_string [of "PublicCode ''0000000000''"]
    by (simp add: valid_code_def publicCodeLen_def crockfordAlphabet_def)
qed


lemma demo_creates:
  "\<exists>info d'. CreateRoom plain_text_lib (\<lambda>_. create_demo) (UserID 1) (RoomName ''lounge'') demo_db = (Ok info, d')
     \<and> ri_ID info = RoomID 50"
proof -
  obtain u where u: "UserRepo_FindByID plain_text_lib Acked (UserID 1) demo_db = Ok u"
    "usr_PublicCode u = PublicCode ''0000000001''" "usr_DisplayName u = ''ann''" using demo_ann by blast
  have ref: "NewUserRef plain_text_lib (UserID 1) (PublicCode ''0000000001'') ''ann'' =
      Ok \<lparr>ur_id = UserID 1, ur_code = PublicCode ''0000000001'', ur_name = ''ann''\<rparr>"
    by (simp add: NewUserRef_def user_is_zero_def code_is_zero_def plain_text_lib_def demo_names maxUserNameBytes_def)
  have create: "RoomRepo_Create (Ok 50) (Ok (replicate 10 0)) 9 Acked \<lparr>rcp_Name = RoomName ''lounge'', rcp_CreatedBy = UserID 1\<rparr> demo_db
      = (Ok \<lparr>room_ID = RoomID 50, room_PublicCode = PublicCode ''0000000000'', room_DisplayName = ''lounge'', room_CreatedBy = UserID 1,
              room_Status = RoomStatusActive, room_CreatedAt = 9, room_UpdatedAt = 9\<rparr>,
         demo_db\<lparr>t_rooms := t_rooms demo_db @ [\<lparr>rm_id = 50, rm_public_code = ''0000000000'', rm_display_name = ''lounge'',
           rm_created_by = 1, rm_status = RoomStatusActive, rm_created_at = 9, rm_updated_at = 9\<rparr>]\<rparr>)"
    by (simp add: RoomRepo_Create_def NewRoomID_def zero_code roomInsertSQL_def roomRow_toDomain_def NewUserID_def ParseRoomStatus_def)
      (simp add: demo_db_def demo_user_def)
  show ?thesis
    using u
    by (simp add: CreateRoom_def create_loop.simps WithinTx_def create_demo_def txenv.defs create_op_def ref create
        Add_def addSQL_def AppendMembership_def eventType_def appendEventSQL_def NewEventID_def)
      (simp add: demo_db_def demo_user_def is_row_def)
qed

theorem created_room_has_its_owner_witness:
  "db_inv demo_db \<and> (\<exists>d'. db_inv d' \<and> owned (role_of d') (RoomID 50)
     \<and> role_of d' (RoomID 50) (UserID 1) = Some MembershipRoleOwner \<and> role_of d' (RoomID 50) (UserID 2) = None)"
proof -
  obtain info d' where c: "CreateRoom plain_text_lib (\<lambda>_. create_demo) (UserID 1) (RoomName ''lounge'') demo_db = (Ok info, d')"
    and rid: "ri_ID info = RoomID 50" using demo_creates by blast
  have "db_inv d'" "owned (role_of d') (RoomID 50)"
    "\<And>u. role_of d' (RoomID 50) u = (if u = UserID 1 then Some MembershipRoleOwner else None)"
    using created_room_has_its_owner [OF demo_db_inv c] rid by simp_all
  then show ?thesis using demo_db_inv by (intro conjI exI [of _ d']) simp_all
qed

end
