(* ===== verification/Api.thy ===== *)
theory Api
  imports GatewayRooms Cluster
begin

text \<open>
  The room API as a client meets it: the handlers of the gateway behind the authentication middleware,
  over the User grains of the cluster, the Room grains behind them and the database.

  A call of a User grain (\<open>internal/gateway/user_grain_caller.go\<close>) may be lost before or after it is
  handled, and the grain may be activated anew before it; that is the \<open>user_rpc_env\<close> of the call, and the
  calls of a run take theirs from a sequence. The environment of one request, \<open>http_env\<close>, holds the clock
  and how the gateway's own database reads end.
\<close>

subsection \<open>Calling a User grain\<close>

record user_rpc_env =
  ue_activate :: bool
  ue_directory :: outcome
  ue_joined :: outcome
  ue_deliver :: bool
  ue_reply :: bool

record api_world =
  aw_world :: world
  aw_users :: "user_id \<Rightarrow> user_grain"
  aw_calls :: "nat \<Rightarrow> user_rpc_env"

definition api_db :: "api_world \<Rightarrow> db" where
  "api_db aw = w_db (aw_world aw)"

definition activate_user ::
  "text_lib \<Rightarrow> user_rpc_env \<Rightarrow> user_id \<Rightarrow> user_grain \<Rightarrow> db \<Rightarrow> (store_error, user_grain) result" where
  "activate_user T e uid g d =
     (if ue_activate e then Init_user T (ue_directory e) (ue_joined e) (user_string uid) g d else Ok g)"

definition user_call ::
  "text_lib \<Rightarrow> user_id \<Rightarrow> (user_grain \<Rightarrow> world \<Rightarrow> 'r \<times> user_grain \<times> world) \<Rightarrow> api_world
     \<Rightarrow> (unit, 'r) result \<times> api_world" where
  "user_call T uid handler aw =
     (let e = aw_calls aw 0; aw1 = aw\<lparr>aw_calls := (\<lambda>n. aw_calls aw (Suc n))\<rparr> in
      if \<not> ue_deliver e then (Err (), aw1)
      else case activate_user T e uid (aw_users aw uid) (api_db aw) of
        Inl _ \<Rightarrow> (Err (), aw1)
      | Inr g \<Rightarrow>
          (case handler g (aw_world aw) of
             (resp, g', w') \<Rightarrow>
               (if ue_reply e then Ok resp else Err (),
                aw1\<lparr>aw_users := (aw_users aw)(uid := g'), aw_world := w'\<rparr>)))"

text \<open>The identity of the grain is the decimal user id, which \<open>LeaveRoom\<close> passes on.\<close>

definition clusterUserGrainCaller :: "text_lib \<Rightarrow> api_world user_client" where
  "clusterUserGrainCaller T =
     (let rooms = clusterRoomClient T in
      \<lparr>uc_JoinRoom = (\<lambda>uid room. user_call T uid (JoinRoom T rooms room)),
       uc_LeaveRoom = (\<lambda>uid room. user_call T uid (LeaveRoom rooms (user_string uid) room)),
       uc_SendMessage = (\<lambda>uid room body. user_call T uid (SendMessage rooms room body)),
       uc_GetJoinedRooms = (\<lambda>uid. user_call T uid (\<lambda>g w. (GetJoinedRooms g, g, w))),
       uc_SetRoomMemberRole = (\<lambda>uid room target role. user_call T uid (SetRoomMemberRole rooms room target role)),
       uc_TransferRoomOwnership = (\<lambda>uid room owner. user_call T uid (TransferRoomOwnership rooms room owner))\<rparr>)"

subsection \<open>The gateway\<close>

record api_config =
  ac_text :: text_lib
  ac_http :: http_lib
  ac_jwt :: jwt_lib
  ac_auth :: jwt_authenticator
  ac_search :: search_lib

record http_env =
  he_now :: instant
  he_identity :: outcome
  he_room :: outcome
  he_user :: outcome
  he_member :: outcome
  he_events :: outcome
  he_list :: outcome
  he_create :: "nat \<Rightarrow> create_context"

text \<open>
  \<open>ValidateToken\<close> for the middleware. A token without an expiry does not parse, so the last case, where
  the code would panic, does not arise (\<open>validate_never_panics\<close>).
\<close>

definition api_validate :: "api_config \<Rightarrow> http_env \<Rightarrow> string \<Rightarrow> api_world \<Rightarrow> (auth_error, claims option) result" where
  "api_validate cfg he tok aw =
     (case ValidateToken (ac_jwt cfg) (ac_auth cfg) (he_now he) (he_identity he) tok (api_db aw) of
        Some (Inl e) \<Rightarrow> Err e
      | Some (Inr c) \<Rightarrow> Ok (Some c)
      | None \<Rightarrow> Ok None)"

lemma validate_never_panics: "jwt_laws L \<Longrightarrow> ValidateToken L a now oc tok d \<noteq> None"
  using jwt_lawsD(4) [of L parse_options] by (fastforce simp: ValidateToken_def parse_options_def split: sum.splits option.splits)

definition NewGateway :: "api_config \<Rightarrow> http_env \<Rightarrow> api_world gateway" where
  "NewGateway cfg he =
     \<lparr>gw_http = ac_http cfg, gw_text = ac_text cfg,
      gw_validate = api_validate cfg he,
      gw_resolve_room = (\<lambda>code aw. room_resolve (he_room he) code (api_db aw)),
      gw_resolve_user = (\<lambda>code aw. ResolveUserID (he_user he) code (api_db aw)),
      gw_users = clusterUserGrainCaller (ac_text cfg)\<rparr>"

definition api_create ::
  "api_config \<Rightarrow> http_env \<Rightarrow> user_id \<Rightarrow> room_name \<Rightarrow> api_world \<Rightarrow> (store_error, room_info) result \<times> api_world" where
  "api_create cfg he actor name aw =
     (case CreateRoom (ac_text cfg) (he_create he) actor name (api_db aw) of
        (res, d') \<Rightarrow> (res, aw\<lparr>aw_world := (aw_world aw)\<lparr>w_db := d'\<rparr>\<rparr>))"

text \<open>The routes of \<open>RegisterRoutes\<close> that are behind \<open>requireAuth\<close>.\<close>

datatype room_endpoint =
  RoomList | RoomCreate | RoomJoined | RoomEvents | RoomMembershipPut | RoomMembershipDelete
  | RoomMessage | RoomMemberRole | RoomOwner

definition room_handler ::
  "api_config \<Rightarrow> http_env \<Rightarrow> room_endpoint \<Rightarrow> request \<Rightarrow> user_id \<Rightarrow> api_world \<Rightarrow> response \<times> api_world" where
  "room_handler cfg he ep =
     (let g = NewGateway cfg he in
      case ep of
        RoomList \<Rightarrow> handleRoomList g (\<lambda>params aw. ListActive (ac_search cfg) (he_list he) params (api_db aw))
      | RoomCreate \<Rightarrow> handleRoomCreate g (api_create cfg he)
      | RoomJoined \<Rightarrow> handleRoomJoined g
      | RoomEvents \<Rightarrow> handleRoomEvents g (\<lambda>roomID userID aw. is_member (he_member he) roomID userID (api_db aw))
                        (\<lambda>roomID params aw. Timeline (ac_search cfg) (he_events he) roomID params (api_db aw))
      | RoomMembershipPut \<Rightarrow> handleRoomMembershipPut g
      | RoomMembershipDelete \<Rightarrow> handleRoomMembershipDelete g
      | RoomMessage \<Rightarrow> handleRoomSendMessage g
      | RoomMemberRole \<Rightarrow> handleRoomMemberRolePut g
      | RoomOwner \<Rightarrow> handleRoomOwnerPut g)"

definition serve_room ::
  "api_config \<Rightarrow> http_env \<Rightarrow> room_endpoint \<Rightarrow> request \<Rightarrow> api_world \<Rightarrow> response \<times> api_world" where
  "serve_room cfg he ep r = authMiddleware (api_validate cfg he) r (room_handler cfg he ep r)"

subsection \<open>The invariant\<close>

text \<open>A User grain speaks for no one but its own user: its reference parses to its id or not at all.\<close>

definition own_self :: "text_lib \<Rightarrow> user_id \<Rightarrow> user_grain \<Rightarrow> bool" where
  "own_self T uid g \<longleftrightarrow> (\<forall>u. parseUserRef T (Some (ug_self g)) = Ok u \<longrightarrow> ur_id u = uid)"

definition api_ok :: "text_lib \<Rightarrow> api_world \<Rightarrow> bool" where
  "api_ok T aw \<longleftrightarrow> world_ok T (aw_world aw) \<and> (\<forall>uid. own_self T uid (aw_users aw uid))"

lemma ParsePublicCode_none: "ParsePublicCode [] \<noteq> Ok c"
  using ParsePublicCode_empty by auto

lemma parseUserRef_id: "parseUserRef T (Some p) = Ok u \<Longrightarrow> ParseUserID (pu_id p) = Ok (ur_id u)"
  by (auto simp: parseUserRef_def dest: NewUserRef_OkD split: sum.splits)

lemma resolveSelf_own:
  assumes "ug_self g = resolveSelf T oc (user_string uid) g0 d"
  shows "own_self T uid g"
proof -
  have "ur_id u = uid" if p: "parseUserRef T (Some (ug_self g)) = Ok u" for u
  proof (cases "pu_public_code (ug_self g) = []")
    case True
    then show ?thesis using p unresolved_self [OF True, of T] by auto
  next
    case False
    then obtain v ref where v: "ParseUserID (user_string uid) = Ok v" and ref: "Resolve T oc v d = Ok ref"
      and self: "pu_id (ug_self g) = user_string (ur_id ref)"
      using assms by (auto simp: resolveSelf_def Let_def split: sum.splits if_splits)
    have "ur_id ref = v" using ref by (auto simp: Resolve_def dest: NewUserRef_OkD split: sum.splits)
    then have "ParseUserID (user_string v) = Ok (ur_id u)" using parseUserRef_id [OF p] self by simp
    then show ?thesis using user_codec.parse_str_only v by metis
  qed
  then show ?thesis by (simp add: own_self_def)
qed

lemma activate_user_own:
  assumes "own_self T uid g" "activate_user T e uid g d = Ok g'"
  shows "own_self T uid g'"
proof (cases "ue_activate e")
  case True
  then have "ug_self g' = resolveSelf T (ue_directory e) (user_string uid) (g\<lparr>ug_state := newUserState\<rparr>) d"
    using assms(2)
    by (auto simp: activate_user_def Init_user_def hydrateJoinedRooms_def Let_def split: sum.splits if_splits)
  then show ?thesis by (rule resolveSelf_own)
qed (use assms in \<open>simp add: activate_user_def\<close>)

lemma user_call_cases:
  assumes ok: "api_ok T aw" and call: "user_call T uid h aw = (res, aw')"
    and self: "\<And>g w. ug_self (fst (snd (h g w))) = ug_self g"
  obtains (lost) "res = Err ()" "aw_world aw' = aw_world aw" "aw_users aw' = aw_users aw"
  | (handled) g resp g' where "own_self T uid g" "h g (aw_world aw) = (resp, g', aw_world aw')"
      "res = (if ue_reply (aw_calls aw 0) then Ok resp else Err ())"
      "aw_users aw' = (aw_users aw)(uid := g')" "own_self T uid g'"
proof (cases "ue_deliver (aw_calls aw 0) \<and> is_ok (activate_user T (aw_calls aw 0) uid (aw_users aw uid) (api_db aw))")
  case False
  then show thesis using call lost
    by (auto simp: user_call_def Let_def split: sum.splits if_splits prod.splits)
next
  case True
  then obtain g where g: "activate_user T (aw_calls aw 0) uid (aw_users aw uid) (api_db aw) = Ok g"
    by (cases "activate_user T (aw_calls aw 0) uid (aw_users aw uid) (api_db aw)") auto
  have own: "own_self T uid g" using activate_user_own [OF _ g] ok by (simp add: api_ok_def)
  obtain resp g' w' where h: "h g (aw_world aw) = (resp, g', w')" by (metis prod_cases3)
  have "own_self T uid g'" using own self [of g "aw_world aw"] h by (simp add: own_self_def)
  then show thesis using handled [OF own] call True g h by (auto simp: user_call_def Let_def)
qed

lemma JoinRoom_self: "ug_self (fst (snd (JoinRoom T rooms room g w))) = ug_self g"
  by (auto simp: JoinRoom_def Let_def split: sum.splits prod.splits option.splits)

lemma LeaveRoom_self: "ug_self (fst (snd (LeaveRoom rooms identity room g w))) = ug_self g"
  by (auto simp: LeaveRoom_def Let_def split: sum.splits prod.splits option.splits)


text \<open>What a join or a leave of a User grain does to the world behind it, whatever it answers.\<close>

lemma JoinRoom_world:
  "snd (snd (JoinRoom T rooms room g w)) =
     (case ParseRoomID room of Inl _ \<Rightarrow> w | Inr r \<Rightarrow> snd (rc_Join rooms r (Some (ug_self g)) w))"
  by (auto simp: JoinRoom_def Let_def split: sum.splits prod.splits option.splits)

lemma LeaveRoom_world:
  "snd (snd (LeaveRoom rooms identity room g w)) =
     (case ParseRoomID room of Inl _ \<Rightarrow> w | Inr r \<Rightarrow> snd (rc_Leave rooms r identity w))"
  by (auto simp: LeaveRoom_def Let_def split: sum.splits prod.splits option.splits)

lemma ParseRoomID_routable: "ParseRoomID room = Ok r \<Longrightarrow> routable r"
  using room_codec.parse_pos by (simp add: routable_def)

context room_service
begin

lemma join_effect:
  assumes "ok w" "JoinRoom T rooms room g w = (a, g', w')"
  shows "ok w'" "member w' r v \<noteq> member w r v \<Longrightarrow>
    ParseRoomID room = Ok r \<and> (\<exists>u. parseUserRef T (Some (ug_self g)) = Ok u \<and> v = ur_id u)"
proof -
  have w': "w' = (case ParseRoomID room of Inl _ \<Rightarrow> w | Inr r \<Rightarrow> snd (rc_Join rooms r (Some (ug_self g)) w))"
    using JoinRoom_world [of T rooms room g w] assms(2) by simp
  show "ok w'" using w' assms(1) join_keeps [OF assms(1) ParseRoomID_routable surjective_pairing]
    by (auto split: sum.splits)
  show "ParseRoomID room = Ok r \<and> (\<exists>u. parseUserRef T (Some (ug_self g)) = Ok u \<and> v = ur_id u)"
    if "member w' r v \<noteq> member w r v"
  proof (cases "ParseRoomID room")
    case (Inr x)
    have "rc_Join rooms x (Some (ug_self g)) w = (fst (rc_Join rooms x (Some (ug_self g)) w), w')" using w' Inr by simp
    from join_frame [OF assms(1) ParseRoomID_routable [OF Inr] this that] show ?thesis using Inr by simp
  qed (use that w' in simp)
qed

lemma leave_effect:
  assumes "ok w" "LeaveRoom rooms identity room g w = (a, g', w')"
  shows "ok w'" "member w' r v \<noteq> member w r v \<Longrightarrow> ParseRoomID room = Ok r \<and> ParseUserID identity = Ok v"
proof -
  have w': "w' = (case ParseRoomID room of Inl _ \<Rightarrow> w | Inr r \<Rightarrow> snd (rc_Leave rooms r identity w))"
    using LeaveRoom_world [of rooms identity room g w] assms(2) by simp
  show "ok w'" using w' assms(1) leave_keeps [OF assms(1) ParseRoomID_routable surjective_pairing]
    by (auto split: sum.splits)
  show "ParseRoomID room = Ok r \<and> ParseUserID identity = Ok v" if "member w' r v \<noteq> member w r v"
  proof (cases "ParseRoomID room")
    case (Inr x)
    have "rc_Leave rooms x identity w = (fst (rc_Leave rooms x identity w), w')" using w' Inr by simp
    from leave_frame [OF assms(1) ParseRoomID_routable [OF Inr] this that] show ?thesis using Inr by simp
  qed (use that w' in simp)
qed

end

definition api_member :: "api_world \<Rightarrow> room_id \<Rightarrow> user_id \<Rightarrow> bool" where
  "api_member aw r u \<longleftrightarrow> role_of (api_db aw) r u \<noteq> None"

lemma api_member_world: "api_member aw = world_member (aw_world aw)"
  by (simp add: fun_eq_iff api_member_def world_member_def api_db_def)

lemma user_join_effect:
  assumes ok: "api_ok T aw" and call: "uc_JoinRoom (clusterUserGrainCaller T) uid (room_string r) aw = (res, aw')"
  shows "api_ok T aw'" "api_member aw' r' v \<noteq> api_member aw r' v \<Longrightarrow> r' = r \<and> v = uid"
    "res = Ok None \<Longrightarrow> api_member aw' r uid"
proof -
  let ?h = "JoinRoom T (clusterRoomClient T) (room_string r)"
  have call': "user_call T uid ?h aw = (res, aw')"
    using call by (simp add: clusterUserGrainCaller_def Let_def)
  have w: "world_ok T (aw_world aw)" using ok by (simp add: api_ok_def)
  have "api_ok T aw' \<and> (api_member aw' r' v \<noteq> api_member aw r' v \<longrightarrow> r' = r \<and> v = uid) \<and>
    (res = Ok None \<longrightarrow> api_member aw' r uid)"
    using ok call' JoinRoom_self
  proof (cases rule: user_call_cases)
    case (handled g resp g')
    note eff = cluster.join_effect [OF w handled(2)]
    have "r' = r \<and> v = uid" if "api_member aw' r' v \<noteq> api_member aw r' v"
      using eff(2) [of r' v] that handled(1) room_codec.parse_str_only
      by (auto simp: api_member_world own_self_def)
    moreover have "api_member aw' r uid" if "res = Ok None"
    proof -
      have "?h g (aw_world aw) = (None, g', aw_world aw')" using that handled(2,3) by (auto split: if_splits)
      from cluster.join_sync [OF w this] show ?thesis
        using handled(1) room_codec.parse_str_only by (auto simp: api_member_world own_self_def)
    qed
    ultimately show ?thesis using eff(1) handled(4,5) ok by (auto simp: api_ok_def)
  qed (use ok in \<open>auto simp: api_ok_def api_member_world\<close>)
  then show "api_ok T aw'" "api_member aw' r' v \<noteq> api_member aw r' v \<Longrightarrow> r' = r \<and> v = uid"
    "res = Ok None \<Longrightarrow> api_member aw' r uid" by blast+
qed

lemma user_leave_effect:
  assumes ok: "api_ok T aw" and call: "uc_LeaveRoom (clusterUserGrainCaller T) uid (room_string r) aw = (res, aw')"
  shows "api_ok T aw'" "api_member aw' r' v \<noteq> api_member aw r' v \<Longrightarrow> r' = r \<and> v = uid"
    "res = Ok None \<Longrightarrow> \<not> api_member aw' r uid"
proof -
  let ?h = "LeaveRoom (clusterRoomClient T) (user_string uid) (room_string r)"
  have call': "user_call T uid ?h aw = (res, aw')"
    using call by (simp add: clusterUserGrainCaller_def Let_def)
  have w: "world_ok T (aw_world aw)" using ok by (simp add: api_ok_def)
  have "api_ok T aw' \<and> (api_member aw' r' v \<noteq> api_member aw r' v \<longrightarrow> r' = r \<and> v = uid) \<and>
    (res = Ok None \<longrightarrow> \<not> api_member aw' r uid)"
    using ok call' LeaveRoom_self
  proof (cases rule: user_call_cases)
    case (handled g resp g')
    note eff = cluster.leave_effect [OF w handled(2)]
    have "r' = r \<and> v = uid" if "api_member aw' r' v \<noteq> api_member aw r' v"
      using eff(2) [of r' v] that room_codec.parse_str_only user_codec.parse_str_only
      by (auto simp: api_member_world)
    moreover have "\<not> api_member aw' r uid" if "res = Ok None"
    proof -
      have "?h g (aw_world aw) = (None, g', aw_world aw')" using that handled(2,3) by (auto split: if_splits)
      from cluster.leave_sync [OF w this] show ?thesis
        by (auto simp: api_member_world dest!: room_codec.parse_str_only user_codec.parse_str_only)
    qed
    ultimately show ?thesis using eff(1) handled(4,5) ok by (auto simp: api_ok_def)
  qed (use ok in \<open>auto simp: api_ok_def api_member_world\<close>)
  then show "api_ok T aw'" "api_member aw' r' v \<noteq> api_member aw r' v \<Longrightarrow> r' = r \<and> v = uid"
    "res = Ok None \<Longrightarrow> \<not> api_member aw' r uid" by blast+
qed

subsection \<open>What a response says\<close>

lemma httpStatus_error: "400 \<le> httpStatus c"
  by (simp add: httpStatus_def)

lemma WriteErrorResponse_status [simp]: "rs_status (WriteErrorResponse s d) = s"
  by (simp add: WriteErrorResponse_def)

lemma writeBusinessErrorResponse_status: "400 \<le> rs_status (writeBusinessErrorResponse pe)"
  using httpStatus_error by (auto simp: writeBusinessErrorResponse_def split: sum.splits)

lemma command_response_cases:
  assumes "command_response res = (resp, w)"
  shows "w = snd res" "rs_status resp = 200 \<Longrightarrow> fst res = Ok None"
proof -
  have "rs_status (writeBusinessErrorResponse pe) \<noteq> 200" for pe
    using writeBusinessErrorResponse_status [of pe] by linarith
  then show "w = snd res" "rs_status resp = 200 \<Longrightarrow> fst res = Ok None"
    using assms by (auto simp: command_response_def split: prod.splits sum.splits option.splits)
qed

text \<open>The caller a request was authenticated as, and the room its path names.\<close>

definition caller :: "api_config \<Rightarrow> http_env \<Rightarrow> request \<Rightarrow> api_world \<Rightarrow> user_id option" where
  "caller cfg he r aw =
     (case extractBearerToken (rq_authorization r) of
        None \<Rightarrow> None
      | Some tok \<Rightarrow>
          (case api_validate cfg he tok aw of Inr (Some c) \<Rightarrow> Some (cl_UserID c) | _ \<Rightarrow> None))"

definition named_room :: "http_env \<Rightarrow> request \<Rightarrow> api_world \<Rightarrow> room_id option" where
  "named_room he r aw =
     (case ParseRoomCode (rq_path r ''id'') of
        Inl _ \<Rightarrow> None
      | Inr code \<Rightarrow> (case room_resolve (he_room he) code (api_db aw) of Inl _ \<Rightarrow> None | Inr roomID \<Rightarrow> Some roomID))"

lemma serve_room_cases:
  assumes "serve_room cfg he ep r aw = (resp, aw')"
  obtains (refused) "caller cfg he r aw = None" "aw' = aw" "rs_status resp \<in> {401, 503}"
  | (served) uid where "caller cfg he r aw = Some uid" "room_handler cfg he ep r uid aw = (resp, aw')"
  using assms
  by (auto simp: serve_room_def authMiddleware_def caller_def auth_rejection_def
      split: option.splits sum.splits if_splits)

lemma requireRoomID_cases:
  assumes "requireRoomID (NewGateway cfg he) r k aw = (resp, aw')"
  obtains (refused) "named_room he r aw = None" "aw' = aw" "rs_status resp \<in> {400, 404, 503}"
  | (resolved) roomID where "named_room he r aw = Some roomID" "k roomID aw = (resp, aw')"
  using assms
  by (auto simp: requireRoomID_def named_room_def NewGateway_def split: sum.splits if_splits)

lemma requireRoomID_eq:
  "named_room he r aw = Some roomID \<Longrightarrow> requireRoomID (NewGateway cfg he) r k aw = k roomID aw"
  by (auto simp: requireRoomID_def named_room_def NewGateway_def split: sum.splits)

lemma serve_room_eq:
  "caller cfg he r aw = Some uid \<Longrightarrow> serve_room cfg he ep r aw = room_handler cfg he ep r uid aw"
  by (auto simp: serve_room_def authMiddleware_def caller_def split: option.splits sum.splits)

text \<open>
  C4. A membership request does what its status says, end to end, in a cluster that satisfies \<open>api_ok\<close>: the
  schema's constraints hold, every loaded Room grain caches the members of the table, each User grain speaks
  for its own user, and no commit is applied while its reply is lost. Then, whatever calls between gateway,
  User grain and Room grain are lost and whatever grains are activated anew on the way: when joining a room
  by \<open>PUT\<close> is answered 200, the request carried a valid token, its path named an active room, and the
  membership table now has that caller in that room; when leaving by \<open>DELETE\<close> is answered 200, the table
  does not. With any status at all, no membership other than the caller's own in the named room has
  changed, and \<open>api_ok\<close> is kept. The condition on commits is needed: after a join whose commit was applied and
  whose reply was lost, the room does not know the member, and a \<open>DELETE\<close> is answered 200 while the row stays.
\<close>

theorem membership_request_end_to_end:
  assumes ok: "api_ok (ac_text cfg) aw" and ep: "ep \<in> {RoomMembershipPut, RoomMembershipDelete}"
    and run: "serve_room cfg he ep r aw = (resp, aw')"
  shows "api_ok (ac_text cfg) aw'
    \<and> (\<forall>room u. api_member aw' room u \<noteq> api_member aw room u \<longrightarrow>
         named_room he r aw = Some room \<and> caller cfg he r aw = Some u)
    \<and> (rs_status resp = 200 \<longrightarrow> (\<exists>room u. named_room he r aw = Some room \<and> caller cfg he r aw = Some u
         \<and> api_member aw' room u = (ep = RoomMembershipPut)))"
  using run
proof (cases rule: serve_room_cases)
  case (served uid)
  define k where "k roomID = (if ep = RoomMembershipPut
    then uc_JoinRoom (clusterUserGrainCaller (ac_text cfg)) uid (room_string roomID)
    else uc_LeaveRoom (clusterUserGrainCaller (ac_text cfg)) uid (room_string roomID))" for roomID
  have "requireRoomID (NewGateway cfg he) r (\<lambda>roomID w. command_response (k roomID w)) aw = (resp, aw')"
    using served(2) ep
    by (auto simp: room_handler_def Let_def handleRoomMembershipPut_def handleRoomMembershipDelete_def k_def NewGateway_def)
  then show ?thesis
  proof (cases rule: requireRoomID_cases)
    case (resolved roomID)
    obtain res aw2 where k: "k roomID aw = (res, aw2)" by fastforce
    then have "aw2 = aw'" "rs_status resp = 200 \<Longrightarrow> res = Ok None"
      using command_response_cases [OF resolved(2)] by auto
    moreover have "api_ok (ac_text cfg) aw2"
      "\<And>room u. api_member aw2 room u \<noteq> api_member aw room u \<Longrightarrow> room = roomID \<and> u = uid"
      "res = Ok None \<Longrightarrow> api_member aw2 roomID uid = (ep = RoomMembershipPut)"
      using k user_join_effect [OF ok] user_leave_effect [OF ok] by (auto simp: k_def split: if_splits)
    ultimately show ?thesis using served(1) resolved(1) by auto
  qed (use ok in auto)
qed (use ok in auto)

subsection \<open>Examples\<close>

definition cyd_claims :: jwt_claims where
  "cyd_claims = \<lparr>jc_Subject = ''U0000000003'', jc_Issuer = Issuer, jc_Audience = [Audience],
     jc_ExpiresAt = Some 100, jc_IssuedAt = Some 0\<rparr>"

definition cyd_jwt :: jwt_lib where
  "cyd_jwt = \<lparr>jl_date = id, jl_sign = (\<lambda>key c. Err ()),
     jl_parse = (\<lambda>opts key now tok. if tok = ''tok'' \<and> now < 100 then Ok cyd_claims else Err JwtOther)\<rparr>"

definition demo_cfg :: api_config where
  "demo_cfg = \<lparr>ac_text = plain_text_lib, ac_http = \<lparr>hl_media = (\<lambda>h. Some h)\<rparr>, ac_jwt = cyd_jwt, ac_auth = demo_auth,
     ac_search = \<lparr>pgroonga = (\<lambda>_ _. True), ieq = (=)\<rparr>\<rparr>"

definition demo_he :: http_env where
  "demo_he = \<lparr>he_now = 9, he_identity = Acked, he_room = Acked, he_user = Acked, he_member = Acked, he_events = Acked,
     he_list = Acked, he_create = (\<lambda>_. create_demo)\<rparr>"

definition demo_request :: request where
  "demo_request = \<lparr>rq_content_type = [], rq_authorization = ''Bearer tok'', rq_path = (\<lambda>_. ''R0000000004''),
     rq_query = (\<lambda>_. []), rq_body = (\<lambda>_. (DecodeFailed, AtEOF))\<rparr>"

definition nobody :: user_grain where
  "nobody = demo_ug\<lparr>ug_self := \<lparr>pu_id = [], pu_name = [], pu_public_code = []\<rparr>\<rparr>"

definition demo_api :: api_world where
  "demo_api = \<lparr>aw_world = demo_world, aw_users = (\<lambda>uid. if uid = UserID 3 then demo_ug else nobody),
     aw_calls = (\<lambda>_. \<lparr>ue_activate = False, ue_directory = Acked, ue_joined = Acked, ue_deliver = True, ue_reply = True\<rparr>)\<rparr>"

lemma demo_api_ok: "api_ok (ac_text demo_cfg) demo_api"
proof -
  have "parseUserRef plain_text_lib (Some (ug_self demo_ug)) = Ok (demo_ref 3)"
    using demo_parse_cyd by (simp add: demo_cyd_self demo_cyd_def)
  then have "own_self plain_text_lib (UserID 3) demo_ug" by (simp add: own_self_def demo_ref_def)
  moreover have "own_self plain_text_lib uid nobody" for uid
    using unresolved_self [of "ug_self nobody" plain_text_lib] by (auto simp: own_self_def nobody_def)
  ultimately show ?thesis by (simp add: api_ok_def demo_api_def demo_cfg_def demo_world_ok)
qed

lemma demo_code: "valid_code (PublicCode ''0000000003'')" "valid_code (PublicCode ''0000000004'')"
  by (simp_all add: valid_code_def publicCodeLen_def crockfordAlphabet_def)

lemma demo_typed_codes:
  "ParseUserCode ''U0000000003'' = Ok (PublicCode ''0000000003'')" "ParseRoomCode ''R0000000004'' = Ok (PublicCode ''0000000004'')"
  using ParseUserCode_FormatUser [OF demo_code(1)] ParseRoomCode_FormatRoom [OF demo_code(2)]
  by (simp_all add: FormatUser_def FormatRoom_def userCodePrefix_def roomCodePrefix_def)

lemma demo_caller:
  assumes "t_users (api_db aw) = t_users demo_db"
  shows "caller demo_cfg demo_he demo_request aw = Some (UserID 3)"
proof -
  have "ResolveUserID Acked (PublicCode ''0000000003'') (api_db aw) = Ok (UserID 3)"
    unfolding ResolveUserID_Ok assms by (simp add: demo_db_def demo_user_def)
  then show ?thesis
    by (simp add: caller_def demo_request_def extractBearerToken_def bearerPrefix_def api_validate_def demo_cfg_def demo_he_def
        cyd_jwt_def ValidateToken_def cyd_claims_def demo_typed_codes)
qed

lemma demo_named:
  assumes "t_rooms (api_db aw) = t_rooms demo_db"
  shows "named_room demo_he demo_request aw = Some (RoomID 4)"
  using assms
  by (simp add: named_room_def demo_request_def demo_typed_codes room_resolve_def FindByPublicCode_def demo_he_def)
     (simp add: demo_db_def roomRow_toDomain_def demo_parse NewRoomID_def NewUserID_def ParseRoomStatus_def)

lemma demo_put: "\<exists>aw'. serve_room demo_cfg demo_he RoomMembershipPut demo_request demo_api = (\<lparr>rs_status = 200, rs_body = BSuccess\<rparr>, aw')"
proof -
  have db: "api_db demo_api = demo_db" by (simp add: api_db_def demo_api_def demo_world_def)
  have "room_string (RoomID 4) = ''4''"
    by (simp add: room_string_def format_int_def format_nat.simps digit_char_def char_of_eq_iff)
  then obtain aw' where "uc_JoinRoom (clusterUserGrainCaller plain_text_lib) (UserID 3) (room_string (RoomID 4)) demo_api = (Ok None, aw')"
    using demo_join_world by (auto simp: clusterUserGrainCaller_def Let_def user_call_def demo_api_def activate_user_def)
  moreover have "named_room demo_he demo_request demo_api = Some (RoomID 4)" "caller demo_cfg demo_he demo_request demo_api = Some (UserID 3)"
    using demo_named [of demo_api] demo_caller [of demo_api] db by simp_all
  ultimately show ?thesis
    by (simp add: serve_room_eq room_handler_def Let_def handleRoomMembershipPut_def requireRoomID_eq)
       (simp add: NewGateway_def demo_cfg_def command_response_def)
qed

theorem membership_request_end_to_end_witness:
  "\<exists>aw'. serve_room demo_cfg demo_he RoomMembershipPut demo_request demo_api = (\<lparr>rs_status = 200, rs_body = BSuccess\<rparr>, aw')
     \<and> api_ok (ac_text demo_cfg) aw' \<and> api_member aw' (RoomID 4) (UserID 3) \<and> \<not> api_member demo_api (RoomID 4) (UserID 3)"
proof -
  have db: "api_db demo_api = demo_db" by (simp add: api_db_def demo_api_def demo_world_def)
  obtain aw' where run: "serve_room demo_cfg demo_he RoomMembershipPut demo_request demo_api = (\<lparr>rs_status = 200, rs_body = BSuccess\<rparr>, aw')"
    using demo_put by blast
  have names: "named_room demo_he demo_request demo_api = Some (RoomID 4)" "caller demo_cfg demo_he demo_request demo_api = Some (UserID 3)"
    using demo_named [of demo_api] demo_caller [of demo_api] db by simp_all
  have "api_ok (ac_text demo_cfg) aw'" "api_member aw' (RoomID 4) (UserID 3)"
    using membership_request_end_to_end [OF demo_api_ok _ run] names by auto
  moreover have "\<not> api_member demo_api (RoomID 4) (UserID 3)"
    by (simp add: api_member_def db role_of_def row_role_def demo_db_def is_row_def)
  ultimately show ?thesis using run by blast
qed

end
