(* ===== verification/Maintenance.thy ===== *)
theory Maintenance
  imports Gateway
begin

text \<open>
  The maintenance grain (\<open>internal/grain/maintenance\<close>) and its trigger in the gateway
  (\<open>handler_internal_jobs.go\<close>, \<open>maintenance_trigger.go\<close>): the sweep of abandoned accounts, run by a child
  worker, at most one at a time.

  The system around the grain is the step relation \<open>gc_step\<close>: triggers, workers that reply or die, request
  futures that resolve by a reply or by their deadline, and their continuations on the grain. Time passes
  by any amount that no worker outlives; \<open>bound\<close> is the longest a worker can take.
\<close>

subsection \<open>The grain and its worker\<close>

definition sweepFutureTimeout :: duration where "sweepFutureTimeout = 45 * 1000000000"
definition sweepDBTimeout :: duration where "sweepDBTimeout = 30 * 1000000000"

text \<open>False is the panic at wiring time.\<close>

definition validateTimeouts :: "duration \<Rightarrow> duration \<Rightarrow> bool" where
  "validateTimeouts futureTimeout dbTimeout =
     (if futureTimeout \<le> 0 then False
      else if dbTimeout \<le> 0 then False
      else if dbTimeout \<ge> futureTimeout then False
      else True)"

record gc_grain =
  gc_sweeper :: sweeper
  gc_futureTimeout :: duration
  gc_dbTimeout :: duration
  gc_running :: bool

text \<open>\<open>NewKind\<close> with its option \<open>WithTimeouts\<close>: the grain each activation starts as.\<close>

definition NewKind :: "sweeper option \<Rightarrow> (duration \<times> duration) option \<Rightarrow> gc_grain option" where
  "NewKind sw timeouts =
     (case sw of
        None \<Rightarrow> None
      | Some s \<Rightarrow>
          (case (case timeouts of None \<Rightarrow> (sweepFutureTimeout, sweepDBTimeout) | Some p \<Rightarrow> p) of
             (f, db) \<Rightarrow>
               if validateTimeouts f db
               then Some \<lparr>gc_sweeper = s, gc_futureTimeout = f, gc_dbTimeout = db, gc_running = False\<rparr>
               else None))"

text \<open>
  \<open>SweepPendingAccounts\<close>: whether the trigger is accepted, and the grain. An accepted trigger spawns a
  worker, sends it \<open>runSweep\<close> and re-enters with \<open>sweep_finished\<close> when the future resolves.
\<close>

definition SweepPendingAccounts :: "gc_grain \<Rightarrow> bool \<times> gc_grain" where
  "SweepPendingAccounts g = (if gc_running g then (False, g) else (True, g\<lparr>gc_running := True\<rparr>))"

definition sweep_finished :: "gc_grain \<Rightarrow> gc_grain" where
  "sweep_finished g = g\<lparr>gc_running := False\<rparr>"

datatype worker_message = RunSweep | WorkerOther

text \<open>\<open>sweepWorker.Receive\<close>: the reply with which it stops, if it does, and the database.\<close>

definition sweepWorker_Receive ::
  "sweeper \<Rightarrow> tx_context \<Rightarrow> bool \<Rightarrow> instant \<Rightarrow> worker_message \<Rightarrow> db \<Rightarrow> (store_error, nat) result option \<times> db" where
  "sweepWorker_Receive s env locked now msg d =
     (case msg of
        WorkerOther \<Rightarrow> (None, d)
      | RunSweep \<Rightarrow> (case Sweep s env locked now d of (res, d') \<Rightarrow> (Some res, d')))"

subsection \<open>The trigger\<close>

text \<open>\<open>TriggerPendingAccountGC\<close>: the call of the grain may fail in transport.\<close>

definition TriggerPendingAccountGC :: "(unit, bool) result \<Rightarrow> (unit, bool) result" where
  "TriggerPendingAccountGC call = (case call of Inl _ \<Rightarrow> Err () | Inr accepted \<Rightarrow> Ok accepted)"

definition handlePendingAccountGC :: "(unit, bool) result \<Rightarrow> response" where
  "handlePendingAccountGC call =
     (case TriggerPendingAccountGC call of
        Inl _ \<Rightarrow> WriteErrorResponse 503 (errDetail ServiceUnavailable ''maintenance unavailable'')
      | Inr accepted \<Rightarrow>
          if accepted then \<lparr>rs_status = 202, rs_body = BJob True []\<rparr>
          else \<lparr>rs_status = 200, rs_body = BJob False ''already_running''\<rparr>)"

subsection \<open>The system\<close>

record gc_system =
  gs_now :: instant
  gs_grain :: gc_grain
  gs_workers :: "(nat \<times> instant) list"
  gs_futures :: "(nat \<times> instant) list"
  gs_ready :: "nat list"
  gs_next :: nat
  gs_db :: db

definition settle :: "nat \<Rightarrow> gc_system \<Rightarrow> gc_system" where
  "settle n s =
     s\<lparr>gs_futures := filter (\<lambda>p. fst p \<noteq> n) (gs_futures s),
       gs_ready := (if n \<in> fst ` set (gs_futures s) then n # gs_ready s else gs_ready s)\<rparr>"

definition drop_worker :: "nat \<Rightarrow> gc_system \<Rightarrow> gc_system" where
  "drop_worker n s = s\<lparr>gs_workers := filter (\<lambda>p. fst p \<noteq> n) (gs_workers s)\<rparr>"

inductive gc_step :: "duration \<Rightarrow> gc_system \<Rightarrow> gc_system \<Rightarrow> bool" for bound where
  accepted: "SweepPendingAccounts (gs_grain s) = (True, g) \<Longrightarrow>
    gc_step bound s (s\<lparr>gs_grain := g, gs_workers := (gs_next s, gs_now s) # gs_workers s,
      gs_futures := (gs_next s, gs_now s + gc_futureTimeout (gs_grain s)) # gs_futures s, gs_next := Suc (gs_next s)\<rparr>)"
| coalesced: "SweepPendingAccounts (gs_grain s) = (False, g) \<Longrightarrow> gc_step bound s (s\<lparr>gs_grain := g\<rparr>)"
| replied: "(n, t) \<in> set (gs_workers s) \<Longrightarrow>
    sweepWorker_Receive (gc_sweeper (gs_grain s)) env locked (gs_now s) RunSweep (gs_db s) = (Some res, d') \<Longrightarrow>
    gc_step bound s (settle n (drop_worker n (s\<lparr>gs_db := d'\<rparr>)))"
| died: "(n, t) \<in> set (gs_workers s) \<Longrightarrow> gc_step bound s (drop_worker n s)"
| timed_out: "(n, deadline) \<in> set (gs_futures s) \<Longrightarrow> deadline \<le> gs_now s \<Longrightarrow> gc_step bound s (settle n s)"
| resumed: "n \<in> set (gs_ready s) \<Longrightarrow>
    gc_step bound s (s\<lparr>gs_ready := remove1 n (gs_ready s), gs_grain := sweep_finished (gs_grain s)\<rparr>)"
| elapse: "gs_now s \<le> t \<Longrightarrow> list_all (\<lambda>(n, start). t \<le> start + bound) (gs_workers s) \<Longrightarrow> gc_step bound s (s\<lparr>gs_now := t\<rparr>)"

inductive_cases gc_stepE: "gc_step bound s s'"

inductive gc_reach :: "duration \<Rightarrow> gc_system \<Rightarrow> gc_system \<Rightarrow> bool" for bound s where
  start: "gc_reach bound s s"
| onward: "gc_reach bound s s1 \<Longrightarrow> gc_step bound s1 s2 \<Longrightarrow> gc_reach bound s s2"

definition gc_initial :: "gc_grain \<Rightarrow> instant \<Rightarrow> db \<Rightarrow> gc_system" where
  "gc_initial g now d =
     \<lparr>gs_now = now, gs_grain = g, gs_workers = [], gs_futures = [], gs_ready = [], gs_next = 0, gs_db = d\<rparr>"

subsection \<open>The invariant\<close>

text \<open>
  The flag is up exactly while one future is outstanding, pending or resolved but not yet resumed; and
  what is pending started at most the future's timeout before its deadline.
\<close>

definition gc_inv :: "gc_system \<Rightarrow> bool" where
  "gc_inv s \<longleftrightarrow> length (gs_futures s) + length (gs_ready s) = (if gc_running (gs_grain s) then 1 else 0)
     \<and> (\<forall>(n, x) \<in> set (gs_workers s) \<union> set (gs_futures s). n < gs_next s)
     \<and> distinct (map fst (gs_workers s))
     \<and> (\<forall>(n, dl) \<in> set (gs_futures s). dl \<le> gs_now s + gc_futureTimeout (gs_grain s))"

text \<open>With workers that end before the future's timeout, each is still awaited.\<close>

definition gc_awaited :: "duration \<Rightarrow> gc_system \<Rightarrow> bool" where
  "gc_awaited bound s \<longleftrightarrow> (\<forall>(n, start) \<in> set (gs_workers s). gs_now s \<le> start + bound
     \<and> (n, start + gc_futureTimeout (gs_grain s)) \<in> set (gs_futures s))"

lemma gc_step_config:
  "gc_step bound s s' \<Longrightarrow> gc_futureTimeout (gs_grain s') = gc_futureTimeout (gs_grain s)
     \<and> gc_dbTimeout (gs_grain s') = gc_dbTimeout (gs_grain s) \<and> gc_sweeper (gs_grain s') = gc_sweeper (gs_grain s)"
  by (auto elim!: gc_stepE simp: SweepPendingAccounts_def sweep_finished_def settle_def drop_worker_def split: if_splits)

lemma one_future:
  assumes "gc_inv s" "(n, dl) \<in> set (gs_futures s)"
  shows "gs_futures s = [(n, dl)]" "gs_ready s = []" "gc_running (gs_grain s)"
  using assms by (cases "gs_futures s"; auto simp: gc_inv_def split: if_splits)+

lemma settle_inv:
  assumes "gc_inv s"
  shows "gc_inv (settle n s)"
proof (cases "n \<in> fst ` set (gs_futures s)")
  case True
  then obtain dl where "(n, dl) \<in> set (gs_futures s)" by auto
  from one_future [OF assms this] show ?thesis using assms by (auto simp: gc_inv_def settle_def)
next
  case False
  then have "filter (\<lambda>p. fst p \<noteq> n) (gs_futures s) = gs_futures s" by (intro filter_True) auto
  then show ?thesis using assms False by (simp add: settle_def)
qed

lemma drop_worker_inv: "gc_inv s \<Longrightarrow> gc_inv (drop_worker n s)"
  by (auto simp: gc_inv_def drop_worker_def distinct_map_filter)

lemma gc_step_inv:
  assumes "gc_step bound s s'" "gc_inv s" "0 \<le> gc_futureTimeout (gs_grain s)"
  shows "gc_inv s'"
  using assms(1)
proof cases
  case (accepted g)
  then have "gs_futures s = []" "gs_ready s = []" "g = (gs_grain s)\<lparr>gc_running := True\<rparr>" "\<not> gc_running (gs_grain s)"
    using assms(2) by (auto simp: SweepPendingAccounts_def gc_inv_def split: if_splits)
  moreover have "gs_next s \<notin> fst ` set (gs_workers s)" using assms(2) by (fastforce simp: gc_inv_def)
  ultimately show ?thesis using accepted(1) assms(2) by (auto simp: gc_inv_def)
next
  case (coalesced g)
  then show ?thesis using assms(2) by (auto simp: SweepPendingAccounts_def split: if_splits)
next
  case (replied n t env locked res d')
  have "gc_inv (s\<lparr>gs_db := d'\<rparr>)" using assms(2) by (simp add: gc_inv_def)
  then show ?thesis using replied(1) settle_inv drop_worker_inv by blast
next
  case (resumed n)
  then have "gs_ready s = [n]" "gs_futures s = []" using assms(2)
    by (cases "gs_ready s"; auto simp: gc_inv_def split: if_splits)+
  then show ?thesis using resumed(1) assms(2) by (auto simp: gc_inv_def sweep_finished_def)
next
  case (elapse t)
  then show ?thesis using assms(2) by (fastforce simp: gc_inv_def)
qed (use assms(2) settle_inv drop_worker_inv in blast)+

lemma gc_step_awaited:
  assumes "gc_step bound s s'" "gc_inv s" "gc_awaited bound s" "bound < gc_futureTimeout (gs_grain s)" "0 \<le> bound"
  shows "gc_awaited bound s'"
  using assms(1)
proof cases
  case (accepted g)
  then show ?thesis using assms(3,5) by (auto simp: SweepPendingAccounts_def gc_awaited_def split: if_splits)
next
  case (coalesced g)
  then show ?thesis using assms(3) by (auto simp: SweepPendingAccounts_def gc_awaited_def split: if_splits)
next
  case (replied n t env locked res d')
  then show ?thesis using assms(3) by (auto simp: gc_awaited_def settle_def drop_worker_def)
next
  case (died n t)
  then show ?thesis using assms(3) by (auto simp: gc_awaited_def drop_worker_def)
next
  case (timed_out n deadline)
  have "gs_workers s = []"
  proof (rule ccontr)
    assume "gs_workers s \<noteq> []"
    then obtain m st where w: "(m, st) \<in> set (gs_workers s)" by (cases "gs_workers s") auto
    then have "gs_now s \<le> st + bound" "(m, st + gc_futureTimeout (gs_grain s)) \<in> set (gs_futures s)"
      using assms(3) by (auto simp: gc_awaited_def)
    moreover have "gs_futures s = [(n, deadline)]" using one_future(1) [OF assms(2) timed_out(2)] .
    ultimately show False using timed_out(3) assms(4) by simp
  qed
  then show ?thesis using timed_out(1) by (simp add: gc_awaited_def settle_def)
next
  case (resumed n)
  then show ?thesis using assms(3) by (simp add: gc_awaited_def sweep_finished_def)
next
  case (elapse t)
  then show ?thesis using assms(3) by (auto simp: gc_awaited_def list_all_iff)
qed

lemma gc_reach_inv:
  assumes "gc_reach bound s s'" "gc_inv s" "0 \<le> gc_futureTimeout (gs_grain s)"
  shows "gc_inv s' \<and> gc_futureTimeout (gs_grain s') = gc_futureTimeout (gs_grain s)
    \<and> (gc_awaited bound s \<and> 0 \<le> bound \<and> bound < gc_futureTimeout (gs_grain s) \<longrightarrow> gc_awaited bound s')"
  using assms(1)
proof induction
  case (onward s1 s2)
  then show ?case using gc_step_inv [of bound s1 s2] gc_step_config [of bound s1 s2] gc_step_awaited [of bound s1 s2] assms(3)
    by auto
qed (use assms in simp)

lemma gc_initial_inv: "\<not> gc_running g \<Longrightarrow> gc_inv (gc_initial g now d)" "gc_awaited bound (gc_initial g now d)"
  by (simp_all add: gc_inv_def gc_awaited_def gc_initial_def)

subsection \<open>Properties\<close>

lemma NewKind_Some:
  "NewKind sw timeouts = Some g \<Longrightarrow> \<not> gc_running g \<and> 0 < gc_dbTimeout g \<and> gc_dbTimeout g < gc_futureTimeout g"
  by (auto simp: NewKind_def validateTimeouts_def split: option.splits prod.splits if_splits)

lemma awaited_one:
  assumes "gc_inv s" "gc_awaited bound s"
  shows "length (gs_workers s) \<le> 1" "gs_workers s \<noteq> [] \<Longrightarrow> gc_running (gs_grain s)"
proof -
  have fut: "fst ` set (gs_workers s) \<subseteq> fst ` set (gs_futures s)" using assms(2) by (force simp: gc_awaited_def)
  have "length (gs_workers s) = card (fst ` set (gs_workers s))"
    using assms(1) distinct_card [of "map fst (gs_workers s)"] by (simp add: gc_inv_def)
  also have "\<dots> \<le> card (fst ` set (gs_futures s))" by (rule card_mono [OF _ fut]) simp
  also have "\<dots> \<le> length (gs_futures s)" using card_length [of "map fst (gs_futures s)"] by simp
  also have "\<dots> \<le> 1" using assms(1) by (auto simp: gc_inv_def split: if_splits)
  finally show "length (gs_workers s) \<le> 1" .
  assume "gs_workers s \<noteq> []"
  then obtain m st where "(m, st) \<in> set (gs_workers s)" by (cases "gs_workers s") auto
  then show "gc_running (gs_grain s)" using assms one_future(3) by (fastforce simp: gc_awaited_def)
qed

text \<open>
  C33. One sweep at a time. In every run of the maintenance grain as it is wired, in which a worker ends
  within its database timeout, at most one worker is sweeping, and while one is, the grain answers every
  trigger with not accepted and starts nothing.
\<close>

theorem one_sweep_at_a_time:
  assumes "NewKind sw timeouts = Some g" "gc_reach (gc_dbTimeout g) (gc_initial g now d) s"
  shows "length (gs_workers s) \<le> 1
    \<and> (gs_workers s \<noteq> [] \<longrightarrow> SweepPendingAccounts (gs_grain s) = (False, gs_grain s))"
proof -
  note g = NewKind_Some [OF assms(1)]
  have "gc_futureTimeout (gs_grain (gc_initial g now d)) = gc_futureTimeout g" by (simp add: gc_initial_def)
  then have "gc_inv s" "gc_awaited (gc_dbTimeout g) s"
    using gc_reach_inv [OF assms(2)] gc_initial_inv(1) [of g now d] gc_initial_inv(2) [of "gc_dbTimeout g" g now d] g by auto
  from awaited_one [OF this] show ?thesis by (simp add: SweepPendingAccounts_def)
qed

text \<open>
  The flag cannot stick. Whatever workers do, reply, die or hang, in every run the flag is up only
  while one request future is outstanding, its deadline is at most the future's timeout away, and once
  the time has come the grain can always be resumed with the next trigger accepted.
\<close>

theorem sweep_flag_released:
  assumes "NewKind sw timeouts = Some g" "gc_reach bound (gc_initial g now d) s" "gc_running (gs_grain s)"
  shows "\<exists>n. (gs_ready s = [n] \<and> gs_futures s = []
      \<or> (\<exists>deadline. gs_ready s = [] \<and> gs_futures s = [(n, deadline)] \<and> deadline \<le> gs_now s + gc_futureTimeout g))
    \<and> (\<forall>t. (\<forall>deadline. gs_futures s = [(n, deadline)] \<longrightarrow> deadline \<le> t) \<longrightarrow>
        (\<exists>s'. gc_reach bound (s\<lparr>gs_now := t\<rparr>) s' \<and> gs_now s' = t \<and> fst (SweepPendingAccounts (gs_grain s'))))"
proof -
  note g = NewKind_Some [OF assms(1)]
  have inv: "gc_inv s" and ft: "gc_futureTimeout (gs_grain s) = gc_futureTimeout g"
    using gc_reach_inv [OF assms(2)] gc_initial_inv(1) [of g now d] g by (auto simp: gc_initial_def)
  have resume: "\<exists>s'. gc_reach bound x s' \<and> gs_now s' = gs_now x \<and> fst (SweepPendingAccounts (gs_grain s'))"
    if "gs_ready x = [n]" for x n
  proof -
    have "gc_step bound x (x\<lparr>gs_ready := remove1 n (gs_ready x), gs_grain := sweep_finished (gs_grain x)\<rparr>)"
      by (rule gc_step.resumed) (simp add: that)
    from gc_reach.onward [OF gc_reach.start this] show ?thesis
      by (rule_tac exI, intro conjI) (assumption, simp_all add: SweepPendingAccounts_def sweep_finished_def)
  qed
  show ?thesis
  proof (cases "gs_futures s")
    case Nil
    then obtain n where n: "gs_ready s = [n]" using inv assms(3) by (cases "gs_ready s") (auto simp: gc_inv_def)
    have "\<exists>s'. gc_reach bound (s\<lparr>gs_now := t\<rparr>) s' \<and> gs_now s' = t \<and> fst (SweepPendingAccounts (gs_grain s'))" for t
      using resume [of "s\<lparr>gs_now := t\<rparr>" n] n by simp
    then show ?thesis using Nil n by blast
  next
    case (Cons p ps)
    obtain n dl where p: "p = (n, dl)" by (cases p)
    have one: "gs_futures s = [(n, dl)]" "gs_ready s = []" using one_future [OF inv, of n dl] Cons p by auto
    have "dl \<le> gs_now s + gc_futureTimeout g" using inv one(1) ft by (simp add: gc_inv_def)
    moreover have "\<exists>s'. gc_reach bound (s\<lparr>gs_now := t\<rparr>) s' \<and> gs_now s' = t \<and> fst (SweepPendingAccounts (gs_grain s'))"
      if t: "dl \<le> t" for t
    proof -
      let ?x = "s\<lparr>gs_now := t\<rparr>" and ?y = "settle n (s\<lparr>gs_now := t\<rparr>)"
      have out: "gc_step bound ?x ?y" by (rule gc_step.timed_out [of n dl]) (simp_all add: one t)
      have y: "gs_ready ?y = [n]" "gs_now ?y = t" by (simp_all add: settle_def one)
      have "gc_step bound ?y (?y\<lparr>gs_ready := remove1 n (gs_ready ?y), gs_grain := sweep_finished (gs_grain ?y)\<rparr>)"
        by (rule gc_step.resumed) (simp add: y)
      from gc_reach.onward [OF gc_reach.onward [OF gc_reach.start out] this] show ?thesis
        using y(2) by (rule_tac exI, intro conjI) (assumption, simp_all add: SweepPendingAccounts_def sweep_finished_def)
    qed
    ultimately show ?thesis using one by (intro exI [of _ n]) auto
  qed
qed

subsection \<open>Examples\<close>

definition demo_gc :: gc_grain where
  "demo_gc = \<lparr>gc_sweeper = Sweeper 10, gc_futureTimeout = sweepFutureTimeout, gc_dbTimeout = sweepDBTimeout, gc_running = False\<rparr>"

lemma demo_gc_wired: "NewKind (Some (Sweeper 10)) None = Some demo_gc"
  by (simp add: NewKind_def demo_gc_def validateTimeouts_def sweepFutureTimeout_def sweepDBTimeout_def)

definition demo_swept :: gc_system where
  "demo_swept = \<lparr>gs_now = 200, gs_grain = demo_gc\<lparr>gc_running := True\<rparr>, gs_workers = [(0, 200)],
     gs_futures = [(0, 200 + sweepFutureTimeout)], gs_ready = [], gs_next = 1, gs_db = pending_db\<rparr>"

lemma demo_sweeping: "gc_reach bound (gc_initial demo_gc 200 pending_db) demo_swept"
proof -
  let ?s = "gc_initial demo_gc 200 pending_db"
  have "SweepPendingAccounts (gs_grain ?s) = (True, demo_gc\<lparr>gc_running := True\<rparr>)"
    by (simp add: SweepPendingAccounts_def gc_initial_def demo_gc_def)
  from gc_step.accepted [OF this] have "gc_step bound ?s demo_swept"
    by (simp add: gc_initial_def demo_swept_def demo_gc_def)
  then show ?thesis by (rule gc_reach.onward [OF gc_reach.start])
qed

theorem one_sweep_at_a_time_witness:
  "NewKind (Some (Sweeper 10)) None = Some demo_gc \<and> SweepPendingAccounts (gs_grain demo_swept) = (False, gs_grain demo_swept)"
proof -
  have "gs_workers demo_swept \<noteq> []" by (simp add: demo_swept_def)
  then show ?thesis using one_sweep_at_a_time [OF demo_gc_wired demo_sweeping] demo_gc_wired by blast
qed

theorem sweep_flag_released_witness:
  "gc_running (gs_grain demo_swept)
   \<and> (\<exists>s'. gc_reach 0 (demo_swept\<lparr>gs_now := 200 + sweepFutureTimeout\<rparr>) s' \<and> fst (SweepPendingAccounts (gs_grain s')))"
proof -
  have run: "gc_running (gs_grain demo_swept)" by (simp add: demo_swept_def)
  obtain n where n: "\<forall>t. (\<forall>deadline. gs_futures demo_swept = [(n, deadline)] \<longrightarrow> deadline \<le> t) \<longrightarrow>
      (\<exists>s'. gc_reach 0 (demo_swept\<lparr>gs_now := t\<rparr>) s' \<and> gs_now s' = t \<and> fst (SweepPendingAccounts (gs_grain s')))"
    using sweep_flag_released [OF demo_gc_wired demo_sweeping [of 0] run] by blast
  have "\<forall>deadline. gs_futures demo_swept = [(n, deadline)] \<longrightarrow> deadline \<le> 200 + sweepFutureTimeout"
    by (simp add: demo_swept_def)
  then show ?thesis using n run by blast
qed

end
