(* ===== verification/Routing.thy ===== *)
theory Routing
  imports Api Maintenance Connection
begin

text \<open>
  The routes of \<open>internal/gateway/gateway.go\<close> on the pattern mux of \<open>net/http\<close>, with the fallback
  handlers of \<open>handler.go\<close>, the WebSocket entry of \<open>handler_ws.go\<close>, and the two servers composed with the
  handlers behind them.

  A request path is the list of its decoded segments, a trailing slash being the segment \<open>/\<close>, as the
  mux takes it apart. Paths are canonical: the mux answers any other with a redirect to the canonical
  one before it looks at the routes.
\<close>

section \<open>The mux\<close>

datatype seg = Lit string | Wild string | Multi

definition parse_seg :: "string \<Rightarrow> seg" where
  "parse_seg s =
     (if s = [] then Multi
      else if s = ''{$}'' then Lit ''/''
      else if hd s = CHR ''{'' then Wild (butlast (tl s)) else Lit s)"

text \<open>A pattern is \<open>METHOD /path\<close> or \<open>/path\<close>; a path that ends in a slash matches every path below it,
  one that ends in \<open>{$}\<close> only the path with that slash.\<close>

definition splitMethodPath :: "string \<Rightarrow> string \<times> string" where
  "splitMethodPath pattern =
     (if CHR '' '' \<in> set pattern
      then (takeWhile (\<lambda>c. c \<noteq> CHR '' '') pattern, tl (dropWhile (\<lambda>c. c \<noteq> CHR '' '') pattern))
      else ([], pattern))"

definition parse_path :: "string \<Rightarrow> seg list" where
  "parse_path p = map parse_seg (split_on (CHR ''/'') (tl p))"

type_synonym 'h mux_entry = "string \<times> seg list \<times> 'h"

definition mux_Handle :: "string \<Rightarrow> 'h \<Rightarrow> 'h mux_entry" where
  "mux_Handle pattern h = (case splitMethodPath pattern of (m, p) \<Rightarrow> (m, parse_path p, h))"

text \<open>The children of a node of the routing tree, and what is registered at it.\<close>

definition lit_child :: "string \<Rightarrow> (seg list \<times> 'a) list \<Rightarrow> (seg list \<times> 'a) list" where
  "lit_child s ps = concat (map (\<lambda>(p, a). case p of Lit l # rest \<Rightarrow> if l = s then [(rest, a)] else [] | _ \<Rightarrow> []) ps)"

definition wild_child :: "(seg list \<times> 'a) list \<Rightarrow> (seg list \<times> 'a) list" where
  "wild_child ps = concat (map (\<lambda>(p, a). case p of Wild _ # rest \<Rightarrow> [(rest, a)] | _ \<Rightarrow> []) ps)"

definition multi_child :: "(seg list \<times> 'a) list \<Rightarrow> 'a option" where
  "multi_child ps = map_of ps [Multi]"

text \<open>Literal segments win over wildcards, wildcards over a whole subtree; a wildcard does not match the
  segment of a trailing slash. The result carries the values of the wildcards.\<close>

fun matchPath :: "(seg list \<times> 'a) list \<Rightarrow> string list \<Rightarrow> string list \<Rightarrow> ('a \<times> string list) option" where
  "matchPath ps [] vs = map_option (\<lambda>a. (a, vs)) (map_of ps [])"
| "matchPath ps (s # rest) vs =
     (case (if lit_child s ps = [] then None else matchPath (lit_child s ps) rest vs) of
        Some r \<Rightarrow> Some r
      | None \<Rightarrow>
          (case (if s = ''/'' \<or> wild_child ps = [] then None else matchPath (wild_child ps) rest (vs @ [s])) of
             Some r \<Rightarrow> Some r
           | None \<Rightarrow> map_option (\<lambda>a. (a, vs)) (multi_child ps)))"

definition of_method :: "string \<Rightarrow> 'h mux_entry list \<Rightarrow> (seg list \<times> (seg list \<times> 'h)) list" where
  "of_method m es = concat (map (\<lambda>(m', p, h). if m' = m then [(p, p, h)] else []) es)"

definition wild_names :: "seg list \<Rightarrow> string list" where
  "wild_names p = concat (map (\<lambda>s. case s of Wild n \<Rightarrow> [n] | _ \<Rightarrow> []) p)"

definition path_value :: "(string \<times> string) list \<Rightarrow> string \<Rightarrow> string" where
  "path_value bs n = (case map_of bs n of Some v \<Rightarrow> v | None \<Rightarrow> [])"

text \<open>Patterns of the method first, for HEAD those of GET, then patterns without a method.\<close>

definition mux_find :: "'h mux_entry list \<Rightarrow> string \<Rightarrow> string list \<Rightarrow> ('h \<times> (string \<Rightarrow> string)) option" where
  "mux_find es m path =
     (let found = (case matchPath (of_method m es) path [] of
                     Some r \<Rightarrow> Some r
                   | None \<Rightarrow>
                       (case (if m = ''HEAD'' then matchPath (of_method ''GET'' es) path [] else None) of
                          Some r \<Rightarrow> Some r
                        | None \<Rightarrow> matchPath (of_method [] es) path []))
      in map_option (\<lambda>((p, h), vs). (h, path_value (zip (wild_names p) vs))) found)"

section \<open>The route tables\<close>

datatype handler =
  HandleLogin | HandleRegister | HandleVerify | HandleResendVerification
  | HandleWS
  | RequireAuth room_endpoint
  | HandlePendingAccountGC | HandleMetrics
  | HandleMethodNotAllowed string
  | HandleNotFound

record routeGroup =
  rg_allow :: string
  rg_routes :: "(string \<times> handler) list"

definition registerGroups :: "routeGroup list \<Rightarrow> handler mux_entry list" where
  "registerGroups groups = concat (map (\<lambda>g.
     map (\<lambda>(p, h). mux_Handle p h) (rg_routes g)
     @ [mux_Handle (snd (splitMethodPath (fst (hd (rg_routes g))))) (HandleMethodNotAllowed (rg_allow g))]) groups)"

definition endpointLogin :: string where "endpointLogin = ''POST /login''"
definition endpointRegister :: string where "endpointRegister = ''POST /users''"
definition endpointVerify :: string where "endpointVerify = ''POST /users/verifications''"
definition endpointResendVerification :: string where
  "endpointResendVerification = ''POST /users/verifications/resend''"
definition endpointWS :: string where "endpointWS = ''GET /ws''"
definition endpointRoomList :: string where "endpointRoomList = ''GET /rooms''"
definition endpointRoomCreate :: string where "endpointRoomCreate = ''POST /rooms''"
definition endpointRoomJoined :: string where "endpointRoomJoined = ''GET /rooms/joined''"
definition endpointRoomEvents :: string where "endpointRoomEvents = ''GET /rooms/{id}/events''"
definition endpointRoomMembershipPut :: string where "endpointRoomMembershipPut = ''PUT /rooms/{id}/membership''"
definition endpointRoomMembershipDelete :: string where
  "endpointRoomMembershipDelete = ''DELETE /rooms/{id}/membership''"
definition endpointRoomMessage :: string where "endpointRoomMessage = ''POST /rooms/{id}/messages''"
definition endpointRoomMemberRole :: string where
  "endpointRoomMemberRole = ''PUT /rooms/{id}/members/{user}/role''"
definition endpointRoomOwner :: string where "endpointRoomOwner = ''PUT /rooms/{id}/owner''"
definition endpointPendingAccountGC :: string where
  "endpointPendingAccountGC = ''POST /internal/jobs/pending-account-gc''"
definition endpointMetrics :: string where "endpointMetrics = ''GET /metrics''"

lemmas endpoint_defs = endpointLogin_def endpointRegister_def endpointVerify_def endpointResendVerification_def
  endpointWS_def endpointRoomList_def endpointRoomCreate_def endpointRoomJoined_def endpointRoomEvents_def
  endpointRoomMembershipPut_def endpointRoomMembershipDelete_def endpointRoomMessage_def
  endpointRoomMemberRole_def endpointRoomOwner_def endpointPendingAccountGC_def endpointMetrics_def

definition public_groups :: "routeGroup list" where
  "public_groups =
     [ \<lparr>rg_allow = ''POST'', rg_routes = [(endpointLogin, HandleLogin)]\<rparr>,
       \<lparr>rg_allow = ''POST'', rg_routes = [(endpointRegister, HandleRegister)]\<rparr>,
       \<lparr>rg_allow = ''POST'', rg_routes = [(endpointVerify, HandleVerify)]\<rparr>,
       \<lparr>rg_allow = ''POST'', rg_routes = [(endpointResendVerification, HandleResendVerification)]\<rparr>,
       \<lparr>rg_allow = ''GET'', rg_routes = [(endpointWS, HandleWS), (''HEAD /ws'', HandleMethodNotAllowed ''GET'')]\<rparr>,
       \<lparr>rg_allow = ''GET, HEAD, POST'',
        rg_routes = [(endpointRoomList, RequireAuth RoomList), (endpointRoomCreate, RequireAuth RoomCreate)]\<rparr>,
       \<lparr>rg_allow = ''GET, HEAD'', rg_routes = [(endpointRoomJoined, RequireAuth RoomJoined)]\<rparr>,
       \<lparr>rg_allow = ''GET, HEAD'', rg_routes = [(endpointRoomEvents, RequireAuth RoomEvents)]\<rparr>,
       \<lparr>rg_allow = ''PUT, DELETE'',
        rg_routes = [(endpointRoomMembershipPut, RequireAuth RoomMembershipPut),
                     (endpointRoomMembershipDelete, RequireAuth RoomMembershipDelete)]\<rparr>,
       \<lparr>rg_allow = ''POST'', rg_routes = [(endpointRoomMessage, RequireAuth RoomMessage)]\<rparr>,
       \<lparr>rg_allow = ''PUT'', rg_routes = [(endpointRoomMemberRole, RequireAuth RoomMemberRole)]\<rparr>,
       \<lparr>rg_allow = ''PUT'', rg_routes = [(endpointRoomOwner, RequireAuth RoomOwner)]\<rparr> ]"

definition RegisterRoutes :: "handler mux_entry list" where
  "RegisterRoutes = registerGroups public_groups @ [mux_Handle ''/'' HandleNotFound]"

definition internal_groups :: "bool \<Rightarrow> routeGroup list" where
  "internal_groups metrics =
     [\<lparr>rg_allow = ''POST'', rg_routes = [(endpointPendingAccountGC, HandlePendingAccountGC)]\<rparr>]
     @ (if metrics then [\<lparr>rg_allow = ''GET, HEAD'', rg_routes = [(endpointMetrics, HandleMetrics)]\<rparr>] else [])"

definition RegisterInternalRoutes :: "bool \<Rightarrow> handler mux_entry list" where
  "RegisterInternalRoutes metrics =
     registerGroups (internal_groups metrics) @ [mux_Handle ''/'' HandleNotFound]"

section \<open>Matching one pattern\<close>

text \<open>The declarative side: when a single pattern matches a path, and the values of its wildcards.\<close>

fun matches :: "seg list \<Rightarrow> string list \<Rightarrow> bool" where
  "matches [] [] \<longleftrightarrow> True"
| "matches (Lit l # p) (s # path) \<longleftrightarrow> l = s \<and> matches p path"
| "matches (Wild _ # p) (s # path) \<longleftrightarrow> s \<noteq> ''/'' \<and> matches p path"
| "matches [Multi] (_ # _) \<longleftrightarrow> True"
| "matches _ _ \<longleftrightarrow> False"

fun wild_vals :: "seg list \<Rightarrow> string list \<Rightarrow> string list" where
  "wild_vals (Lit _ # p) (_ # path) = wild_vals p path"
| "wild_vals (Wild _ # p) (s # path) = s # wild_vals p path"
| "wild_vals _ _ = []"

fun overlap :: "seg list \<Rightarrow> seg list \<Rightarrow> bool" where
  "overlap [] [] \<longleftrightarrow> True"
| "overlap (Lit l # p) (Lit l' # q) \<longleftrightarrow> l = l' \<and> overlap p q"
| "overlap (Lit l # p) (Wild _ # q) \<longleftrightarrow> l \<noteq> ''/'' \<and> overlap p q"
| "overlap (Wild _ # p) (Lit l # q) \<longleftrightarrow> l \<noteq> ''/'' \<and> overlap p q"
| "overlap (Wild _ # p) (Wild _ # q) \<longleftrightarrow> overlap p q"
| "overlap (Multi # _) q \<longleftrightarrow> q \<noteq> []"
| "overlap p (Multi # _) \<longleftrightarrow> p \<noteq> []"
| "overlap _ _ \<longleftrightarrow> False"

lemma matches_overlap: "matches p path \<Longrightarrow> matches q path \<Longrightarrow> overlap p q"
proof (induction p path arbitrary: q rule: matches.induct)
  case 1 then show ?case by (cases q rule: list.exhaust) auto
next
  case (2 l p s path) then show ?case by (cases "(q, s # path)" rule: matches.cases) auto
next
  case (3 n p s path) then show ?case by (cases "(q, s # path)" rule: matches.cases) auto
next
  case (4 s path) then show ?case by (cases q) auto
qed auto

lemma lit_child_iff: "(p, a) \<in> set (lit_child s ps) \<longleftrightarrow> (Lit s # p, a) \<in> set ps"
  by (force simp: lit_child_def split: list.splits seg.splits)

lemma wild_child_iff: "(p, a) \<in> set (wild_child ps) \<longleftrightarrow> (\<exists>n. (Wild n # p, a) \<in> set ps)"
  by (force simp: wild_child_def split: list.splits seg.splits)

lemma multi_child_Some: "multi_child ps = Some a \<Longrightarrow> ([Multi], a) \<in> set ps"
  by (simp add: multi_child_def map_of_SomeD)

lemma matchPath_sound:
  "matchPath ps path vs = Some (a, vs') \<Longrightarrow> \<exists>p. (p, a) \<in> set ps \<and> matches p path \<and> vs' = vs @ wild_vals p path"
proof (induction ps path vs arbitrary: vs' rule: matchPath.induct)
  case (1 ps vs)
  then show ?case by (auto dest: map_of_SomeD intro: exI[of _ "[]"])
next
  case (2 ps s rest vs)
  consider (lit) "lit_child s ps \<noteq> []" "matchPath (lit_child s ps) rest vs = Some (a, vs')"
    | (wild) "(if lit_child s ps = [] then None else matchPath (lit_child s ps) rest vs) = None"
        "\<not> (s = ''/'' \<or> wild_child ps = [])" "matchPath (wild_child ps) rest (vs @ [s]) = Some (a, vs')"
    | (multi) "multi_child ps = Some a" "vs' = vs"
    using 2(3) by (auto split: if_splits option.splits)
  then show ?case
  proof cases
    case lit
    from 2(1)[OF lit] obtain p where "(p, a) \<in> set (lit_child s ps)" "matches p rest" "vs' = vs @ wild_vals p rest" by blast
    then show ?thesis by (intro exI[of _ "Lit s # p"]) (simp add: lit_child_iff)
  next
    case wild
    from 2(2)[OF wild] obtain p where p: "(p, a) \<in> set (wild_child ps)" "matches p rest"
      "vs' = (vs @ [s]) @ wild_vals p rest" by blast
    then obtain n where "(Wild n # p, a) \<in> set ps" by (auto simp: wild_child_iff)
    then show ?thesis using p wild(2) by (intro exI[of _ "Wild n # p"]) simp
  next
    case multi
    then show ?thesis by (intro exI[of _ "[Multi]"]) (simp add: multi_child_Some)
  qed
qed

lemma matchPath_complete:
  "(p, a) \<in> set ps \<Longrightarrow> matches p path \<Longrightarrow> matchPath ps path vs \<noteq> None"
proof (induction p path arbitrary: ps vs rule: matches.induct)
  case 1
  then have "map_of ps [] \<noteq> None" by (auto dest: weak_map_of_SomeI)
  then show ?case by simp
next
  case (2 l p s path)
  then have m: "(p, a) \<in> set (lit_child s ps)" by (simp add: lit_child_iff)
  then have "lit_child s ps \<noteq> []" by auto
  moreover have "matchPath (lit_child s ps) path vs \<noteq> None" using 2(1)[OF m] 2(3) by simp
  ultimately show ?case by auto
next
  case (3 n p s path)
  then have m: "(p, a) \<in> set (wild_child ps)" by (auto simp: wild_child_iff)
  then have "wild_child ps \<noteq> []" by auto
  moreover have "matchPath (wild_child ps) path (vs @ [s]) \<noteq> None" using 3(1)[OF m] 3(3) by simp
  ultimately show ?case using 3(3) by (auto split: option.splits)
next
  case (4 s path)
  then have "multi_child ps \<noteq> None" by (auto simp: multi_child_def dest: weak_map_of_SomeI)
  then show ?case by (auto split: option.splits)
qed auto

text \<open>When all the patterns that match carry the same thing, the tree finds it; when none matches, nothing.\<close>

lemma matchPath_unique:
  assumes "(p, a) \<in> set ps" "matches p path"
    and "\<And>q b. (q, b) \<in> set ps \<Longrightarrow> matches q path \<Longrightarrow> q = p \<and> b = a"
  shows "matchPath ps path vs = Some (a, vs @ wild_vals p path)"
proof -
  obtain b vs' where r: "matchPath ps path vs = Some (b, vs')"
    using matchPath_complete[OF assms(1,2), of vs] by auto
  from matchPath_sound[OF this] assms(3) show ?thesis using r by blast
qed

lemma matchPath_none: "(\<And>p a. (p, a) \<in> set ps \<Longrightarrow> \<not> matches p path) \<Longrightarrow> matchPath ps path vs = None"
  using matchPath_sound[of ps path vs] by (cases "matchPath ps path vs") auto

text \<open>The catch-all is tried last.\<close>

lemma children_append_root:
  "lit_child s (ps @ [([Multi], h)]) = lit_child s ps" "wild_child (ps @ [([Multi], h)]) = wild_child ps"
  by (simp_all add: lit_child_def wild_child_def)

lemma matchPath_root:
  assumes "\<And>p a. (p, a) \<in> set ps \<Longrightarrow> Multi \<notin> set p" "path \<noteq> []"
  shows "matchPath (ps @ [([Multi], h)]) path vs = (case matchPath ps path vs of Some r \<Rightarrow> Some r | None \<Rightarrow> Some (h, vs))"
proof (cases path)
  case (Cons s rest)
  have "multi_child ps = None" using assms(1) by (force simp: multi_child_def map_of_eq_None_iff)
  moreover have "multi_child (ps @ [([Multi], h)]) = Some h"
    using calculation by (simp add: multi_child_def map_add_def)
  ultimately show ?thesis by (simp add: Cons children_append_root split: option.splits)
qed (use assms(2) in simp)

section \<open>The tables as tables\<close>

text \<open>What \<open>registerGroups\<close> is meant to set up: find the group whose path matches; the method picks a route,
  HEAD falling back on GET; any other method is refused with the group's Allow literal.\<close>

definition group_path :: "routeGroup \<Rightarrow> seg list" where
  "group_path g = parse_path (snd (splitMethodPath (fst (hd (rg_routes g)))))"

definition group_methods :: "routeGroup \<Rightarrow> (string \<times> handler) list" where
  "group_methods g = map (\<lambda>(p, h). (fst (splitMethodPath p), h)) (rg_routes g)"

definition in_group :: "routeGroup \<Rightarrow> string \<Rightarrow> handler" where
  "in_group g m =
     (case map_of (group_methods g) m of
        Some h \<Rightarrow> h
      | None \<Rightarrow>
          (case (if m = ''HEAD'' then map_of (group_methods g) ''GET'' else None) of
             Some h \<Rightarrow> h
           | None \<Rightarrow> HandleMethodNotAllowed (rg_allow g)))"

definition route_spec :: "routeGroup list \<Rightarrow> string \<Rightarrow> string list \<Rightarrow> handler \<times> (string \<Rightarrow> string)" where
  "route_spec groups m path =
     (case find (\<lambda>g. matches (group_path g) path) groups of
        None \<Rightarrow> (HandleNotFound, \<lambda>_. [])
      | Some g \<Rightarrow> (in_group g m, path_value (zip (wild_names (group_path g)) (wild_vals (group_path g) path))))"

definition sound_groups :: "routeGroup list \<Rightarrow> bool" where
  "sound_groups groups \<longleftrightarrow>
     (\<forall>g\<in>set groups. rg_routes g \<noteq> [] \<and> Multi \<notin> set (group_path g) \<and> distinct (map fst (group_methods g))
        \<and> (\<forall>r\<in>set (rg_routes g). fst (splitMethodPath (fst r)) \<noteq> [] \<and> parse_path (snd (splitMethodPath (fst r))) = group_path g))
     \<and> sorted_wrt (\<lambda>g g'. \<not> overlap (group_path g) (group_path g')) groups"

lemma mux_Handle_path: "CHR '' '' \<notin> set p \<Longrightarrow> mux_Handle p h = ([], parse_path p, h)"
  by (simp add: mux_Handle_def splitMethodPath_def)

lemma of_method_append: "of_method m (xs @ ys) = of_method m xs @ of_method m ys"
  by (simp add: of_method_def)

definition group_fallback :: "routeGroup \<Rightarrow> bool" where
  "group_fallback g \<longleftrightarrow> CHR '' '' \<notin> set (snd (splitMethodPath (fst (hd (rg_routes g)))))"

lemma mux_Handle_iff:
  "(m, p, h) \<in> set (map (\<lambda>(p, h). mux_Handle p h) rs) \<longleftrightarrow>
    (\<exists>r\<in>set rs. m = fst (splitMethodPath (fst r)) \<and> p = parse_path (snd (splitMethodPath (fst r))) \<and> h = snd r)"
  by (induction rs) (auto simp: mux_Handle_def split: prod.splits)

lemma of_method_iff: "(p, x) \<in> set (of_method m es) \<longleftrightarrow> (\<exists>h. x = (p, h) \<and> (m, p, h) \<in> set es)"
  by (induction es) (auto simp: of_method_def)

lemma map_of_distinct: "distinct (map fst xs) \<Longrightarrow> map_of xs k = Some v \<longleftrightarrow> (k, v) \<in> set xs"
  by (rule map_of_eq_Some_iff)

locale route_table =
  fixes groups :: "routeGroup list"
  assumes sound: "sound_groups groups" and fallbacks: "\<forall>g\<in>set groups. group_fallback g"
begin

lemma route_facts:
  assumes "g \<in> set groups"
  shows "rg_routes g \<noteq> []" "Multi \<notin> set (group_path g)" "distinct (map fst (group_methods g))"
    "r \<in> set (rg_routes g) \<Longrightarrow> fst (splitMethodPath (fst r)) \<noteq> []"
    "r \<in> set (rg_routes g) \<Longrightarrow> parse_path (snd (splitMethodPath (fst r))) = group_path g"
    "mux_Handle (snd (splitMethodPath (fst (hd (rg_routes g))))) x = ([], group_path g, x)"
proof -
  have "\<forall>g\<in>set groups. rg_routes g \<noteq> [] \<and> Multi \<notin> set (group_path g) \<and> distinct (map fst (group_methods g))
        \<and> (\<forall>r\<in>set (rg_routes g). fst (splitMethodPath (fst r)) \<noteq> [] \<and> parse_path (snd (splitMethodPath (fst r))) = group_path g)"
    using sound unfolding sound_groups_def by (rule conjunct1)
  note g = bspec[OF this assms]
  from g show "rg_routes g \<noteq> []" "Multi \<notin> set (group_path g)" "distinct (map fst (group_methods g))" by blast+
  from g show "r \<in> set (rg_routes g) \<Longrightarrow> fst (splitMethodPath (fst r)) \<noteq> []"
    "r \<in> set (rg_routes g) \<Longrightarrow> parse_path (snd (splitMethodPath (fst r))) = group_path g" by blast+
  show "mux_Handle (snd (splitMethodPath (fst (hd (rg_routes g))))) x = ([], group_path g, x)"
    using bspec[OF fallbacks assms] by (simp add: mux_Handle_path group_fallback_def group_path_def)
qed

lemma group_methods_iff:
  assumes "g \<in> set groups"
  shows "map_of (group_methods g) m = Some h \<longleftrightarrow> (\<exists>r\<in>set (rg_routes g). m = fst (splitMethodPath (fst r)) \<and> h = snd r)"
  unfolding map_of_distinct[OF route_facts(3)[OF assms]] by (force simp: group_methods_def case_prod_beta)

definition entries :: "routeGroup \<Rightarrow> handler mux_entry list" where
  "entries g = map (\<lambda>(p, h). mux_Handle p h) (rg_routes g) @ [([], group_path g, HandleMethodNotAllowed (rg_allow g))]"

lemma registered: "registerGroups groups = concat (map entries groups)"
  unfolding registerGroups_def
  by (rule arg_cong[where f = concat], rule map_cong) (simp_all add: entries_def route_facts(6))

lemma entries_iff:
  assumes "g \<in> set groups"
  shows "(m, p, h) \<in> set (entries g) \<longleftrightarrow>
    p = group_path g \<and> (map_of (group_methods g) m = Some h \<or> m = [] \<and> h = HandleMethodNotAllowed (rg_allow g))"
  unfolding entries_def set_append Un_iff mux_Handle_iff group_methods_iff[OF assms]
  using route_facts(4,5)[OF assms] by auto

lemma tree_iff:
  "(p, x) \<in> set (of_method m (registerGroups groups)) \<longleftrightarrow>
    (\<exists>g\<in>set groups. p = group_path g \<and> (\<exists>h. x = (p, h) \<and>
       (map_of (group_methods g) m = Some h \<or> m = [] \<and> h = HandleMethodNotAllowed (rg_allow g))))"
  unfolding of_method_iff registered using entries_iff by auto

lemma no_empty_method: "g \<in> set groups \<Longrightarrow> map_of (group_methods g) [] = None"
  using group_methods_iff[of g "[]"] route_facts(4)[of g] by (cases "map_of (group_methods g) []") fastforce+

lemma one_group:
  assumes "g \<in> set groups" "g' \<in> set groups" "matches (group_path g) path" "matches (group_path g') path"
  shows "g = g'"
proof (rule ccontr)
  assume ne: "g \<noteq> g'"
  obtain i j where ij: "i < length groups" "j < length groups" "g = groups ! i" "g' = groups ! j"
    using assms(1,2) by (metis in_set_conv_nth)
  have w: "sorted_wrt (\<lambda>g g'. \<not> overlap (group_path g) (group_path g')) groups" using sound by (simp add: sound_groups_def)
  have o: "overlap (group_path g) (group_path g')" "overlap (group_path g') (group_path g)"
    using assms(3,4) matches_overlap by blast+
  from ne ij consider "i < j" | "j < i" by (metis linorder_neqE_nat)
  then show False using w o ij by cases (auto simp: sorted_wrt_iff_nth_less)
qed

lemma find_group: "find (\<lambda>g. matches (group_path g) path) groups = Some g \<longleftrightarrow> g \<in> set groups \<and> matches (group_path g) path"
  (is "?l \<longleftrightarrow> ?r")
proof
  assume ?l then show ?r by (auto simp: find_Some_iff)
next
  assume r: ?r
  then obtain g' where g': "find (\<lambda>g. matches (group_path g) path) groups = Some g'"
    by (metis find_None_iff option.exhaust)
  then have "g' \<in> set groups" "matches (group_path g') path" by (auto simp: find_Some_iff)
  with r one_group g' show ?l by blast
qed

lemma tree_in_group:
  assumes "g \<in> set groups" "matches (group_path g) path"
  shows "matchPath (of_method m (registerGroups groups)) path [] =
    map_option (\<lambda>h. ((group_path g, h), wild_vals (group_path g) path))
      (if m = [] then Some (HandleMethodNotAllowed (rg_allow g)) else map_of (group_methods g) m)"
proof (cases "if m = [] then Some (HandleMethodNotAllowed (rg_allow g)) else map_of (group_methods g) m")
  case None
  then show ?thesis using one_group[OF assms(1) _ assms(2)]
    by (auto intro!: matchPath_none simp: tree_iff split: if_splits)
next
  case (Some h)
  have "matchPath (of_method m (registerGroups groups)) path [] = Some ((group_path g, h), [] @ wild_vals (group_path g) path)"
  proof (rule matchPath_unique)
    show "(group_path g, group_path g, h) \<in> set (of_method m (registerGroups groups))"
      using Some assms(1) by (auto simp: tree_iff split: if_splits)
    show "q = group_path g \<and> b = (group_path g, h)"
      if "(q, b) \<in> set (of_method m (registerGroups groups))" "matches q path" for q b
      using that Some one_group[OF assms(1) _ assms(2)] no_empty_method[OF assms(1)]
      by (auto simp: tree_iff split: if_splits)
  qed (rule assms(2))
  then show ?thesis by (simp add: Some)
qed

lemma tree_outside:
  "find (\<lambda>g. matches (group_path g) path) groups = None \<Longrightarrow> matchPath (of_method m (registerGroups groups)) path [] = None"
  by (rule matchPath_none) (auto simp: tree_iff find_None_iff)

text \<open>The mux built by \<open>registerGroups\<close>, with the catch-all, is the table.\<close>

theorem mux_is_table:
  assumes "path \<noteq> []"
  shows "mux_find (registerGroups groups @ [mux_Handle ''/'' HandleNotFound]) m path = Some (route_spec groups m path)"
proof -
  define es where "es = registerGroups groups"
  have root: "mux_Handle ''/'' HandleNotFound = ([], [Multi], HandleNotFound)"
    by (simp add: mux_Handle_def splitMethodPath_def parse_path_def parse_seg_def)
  have tree: "matchPath (of_method m' (es @ [([], [Multi], HandleNotFound)])) path [] =
      (case matchPath (of_method m' es) path [] of Some r \<Rightarrow> Some r
       | None \<Rightarrow> if m' = [] then Some (([Multi], HandleNotFound), []) else None)" for m'
  proof (cases "m' = []")
    case True
    have "Multi \<notin> set p" if "(p, a) \<in> set (of_method [] es)" for p a
      using that route_facts(2) by (auto simp: es_def tree_iff)
    then have "matchPath (of_method [] es @ [([Multi], [Multi], HandleNotFound)]) path [] =
        (case matchPath (of_method [] es) path [] of Some r \<Rightarrow> Some r | None \<Rightarrow> Some (([Multi], HandleNotFound), []))"
      using assms by (rule matchPath_root)
    moreover have "of_method [] [([], [Multi], HandleNotFound)] = [([Multi], [Multi], HandleNotFound)]" by (simp add: of_method_def)
    ultimately show ?thesis using True by (simp add: of_method_append)
  next
    case False then show ?thesis by (simp add: of_method_append) (simp add: of_method_def split: option.splits)
  qed
  show ?thesis
  proof (cases "find (\<lambda>g. matches (group_path g) path) groups")
    case None
    then show ?thesis using tree_outside[OF None]
      by (simp add: mux_find_def root es_def [symmetric] tree route_spec_def) (simp add: es_def wild_names_def path_value_def fun_eq_iff)
  next
    case (Some g)
    then have g: "g \<in> set groups" "matches (group_path g) path" by (simp_all add: find_group)
    show ?thesis
      using tree_in_group[OF g] no_empty_method[OF g(1)]
      by (auto simp: mux_find_def root es_def [symmetric] tree route_spec_def Some in_group_def Let_def split: option.splits)
  qed
qed

end

section \<open>The two servers\<close>

lemma public_sound: "sound_groups public_groups" "\<forall>g\<in>set public_groups. group_fallback g"
  by code_simp+

interpretation public_mux: route_table public_groups
  by unfold_locales (rule public_sound)+

lemma internal_sound: "sound_groups (internal_groups metrics)" "\<forall>g\<in>set (internal_groups metrics). group_fallback g"
  by (cases metrics; simp only: if_True if_False internal_groups_def; code_simp)+

interpretation internal_mux: route_table "internal_groups metrics" for metrics
  by unfold_locales (rule internal_sound)+

text \<open>The mux is the route table: for both servers and every method and path, \<open>net/http\<close>'s lookup
  over the patterns that \<open>registerGroups\<close> registers finds the route of the one group whose path matches,
  with the values of its wildcards; HEAD is answered by the GET route; another method is refused with
  the group's Allow text, and a path of no group is not found.\<close>

theorem routing_is_table:
  "mux_find RegisterRoutes m (s # rest) = Some (route_spec public_groups m (s # rest))
   \<and> mux_find (RegisterInternalRoutes metrics) m (s # rest) = Some (route_spec (internal_groups metrics) m (s # rest))"
  unfolding RegisterRoutes_def RegisterInternalRoutes_def
  by (simp add: public_mux.mux_is_table internal_mux.mux_is_table)

definition methods_of :: "string \<Rightarrow> string list" where
  "methods_of allow = split_on (CHR '','') (filter (\<lambda>c. c \<noteq> CHR '' '') allow)"

definition refusal :: "handler \<Rightarrow> bool" where
  "refusal h \<longleftrightarrow> (case h of HandleMethodNotAllowed _ \<Rightarrow> True | _ \<Rightarrow> False)"

lemma public_allow:
  "\<forall>g\<in>set public_groups. (m \<in> set (methods_of (rg_allow g)) \<longleftrightarrow> \<not> refusal (in_group g m))
     \<and> (\<forall>a. in_group g m = HandleMethodNotAllowed a \<longrightarrow> a = rg_allow g)"
  by (simp add: public_groups_def in_group_def group_methods_def splitMethodPath_def endpoint_defs methods_of_def refusal_def)

lemma route_spec_cases:
  obtains (found) g where "g \<in> set groups" "matches (group_path g) path"
      "route_spec groups m path = (in_group g m, path_value (zip (wild_names (group_path g)) (wild_vals (group_path g) path)))"
      "\<And>m'. fst (route_spec groups m' path) = in_group g m'"
  | (unknown) "\<And>m'. route_spec groups m' path = (HandleNotFound, \<lambda>_. [])"
proof (cases "find (\<lambda>g. matches (group_path g) path) groups")
  case None then show thesis by (intro unknown) (simp add: route_spec_def)
next
  case (Some g)
  then have "g \<in> set groups" "matches (group_path g) path" by (auto simp: find_Some_iff)
  then show thesis by (rule found) (simp_all add: route_spec_def Some)
qed

text \<open>The Allow header tells the truth: when a method is refused for a path, the methods in the Allow
  header are exactly those the server does not refuse for that path, HEAD included where GET serves it
  and excluded for the WebSocket endpoint.\<close>

theorem allow_header_exact:
  assumes "mux_find RegisterRoutes m (s # rest) = Some (HandleMethodNotAllowed a, v)"
  shows "m' \<in> set (methods_of a) \<longleftrightarrow> (\<exists>h v'. mux_find RegisterRoutes m' (s # rest) = Some (h, v') \<and> \<not> refusal h)"
proof -
  have r: "mux_find RegisterRoutes x (s # rest) = Some (route_spec public_groups x (s # rest))" for x
    unfolding RegisterRoutes_def by (simp add: public_mux.mux_is_table)
  show ?thesis
  proof (cases rule: route_spec_cases[of public_groups "s # rest" m])
    case (found g)
    then have "in_group g m = HandleMethodNotAllowed a" using assms by (simp add: r)
    then have a: "a = rg_allow g" using bspec[OF public_allow found(1)] by blast
    have "m' \<in> set (methods_of (rg_allow g)) \<longleftrightarrow> \<not> refusal (in_group g m')" using bspec[OF public_allow found(1)] by blast
    then show ?thesis using found(4)[of m'] by (cases "route_spec public_groups m' (s # rest)") (simp add: r a)
  next
    case unknown then show ?thesis using assms by (simp add: r)
  qed
qed

section \<open>The WebSocket entry\<close>

text \<open>\<open>handleWS\<close>: the upgrade, the actor that owns the socket, and the deferred close when none was spawned
  (\<open>None\<close>: the spawn panicked).\<close>

definition defaultPingInterval :: duration where "defaultPingInterval = 30 * 1000000000"
definition defaultPongTimeout :: duration where "defaultPongTimeout = 75 * 1000000000"

datatype ws_action = WSUpgradeFailed | WSUpgraded | WSSpawned nat "duration \<times> duration" | WSClosed

definition handleWS :: "duration \<times> duration \<Rightarrow> bool \<Rightarrow> nat option \<Rightarrow> ws_action list" where
  "handleWS heartbeat upgraded spawn =
     (if \<not> upgraded then [WSUpgradeFailed]
      else WSUpgraded # (case spawn of Some pid \<Rightarrow> [WSSpawned pid heartbeat] | None \<Rightarrow> [WSClosed]))"

lemma default_heartbeat_valid:
  "NewHeartbeatCadence defaultPingInterval defaultPongTimeout = Ok (defaultPingInterval, defaultPongTimeout)"
  by (simp add: NewHeartbeatCadence_def defaultPingInterval_def defaultPongTimeout_def)

section \<open>The servers\<close>

record server_config =
  sc_api :: api_config
  sc_bcrypt :: bcrypt_lib
  sc_policy :: registration_policy

text \<open>How one request meets its surroundings: database transactions, the socket, the maintenance call.\<close>

record server_env =
  se_http :: http_env
  se_login :: login_context
  se_register :: "nat \<Rightarrow> tx_context"
  se_verify :: tx_context
  se_resend :: tx_context
  se_upgraded :: bool
  se_spawn :: "nat option"

text \<open>The world of a server and the PIN e-mails it has handed to the sender.\<close>

type_synonym server_world = "api_world \<times> pending_send list"

definition on_db :: "(db \<Rightarrow> 'r \<times> db) \<Rightarrow> server_world \<Rightarrow> 'r \<times> server_world" where
  "on_db f w =
     (case w of (aw, out) \<Rightarrow>
      (case f (api_db aw) of (r, d') \<Rightarrow> (r, (aw\<lparr>aw_world := (aw_world aw)\<lparr>w_db := d'\<rparr>\<rparr>, out))))"

definition on_db_mail :: "(db \<Rightarrow> 'r \<times> pending_send list \<times> db) \<Rightarrow> server_world \<Rightarrow> 'r \<times> server_world" where
  "on_db_mail f w =
     (case w of (aw, out) \<Rightarrow>
      (case f (api_db aw) of (r, sends, d') \<Rightarrow> (r, (aw\<lparr>aw_world := (aw_world aw)\<lparr>w_db := d'\<rparr>\<rparr>, out @ sends))))"

datatype reply = Reply response | ReplyAllow string response | ReplyWS "ws_action list"

definition notFound :: response where
  "notFound = WriteErrorResponse 404 (errDetail InvalidRequest ''not found'')"

definition methodNotAllowed :: "string \<Rightarrow> reply" where
  "methodNotAllowed allowed = ReplyAllow allowed (WriteErrorResponse 405 (errDetail InvalidRequest ''method not allowed''))"

text \<open>What \<open>NewGateway\<close> wires behind each handler of the public listener.\<close>

definition serve_handler ::
  "server_config \<Rightarrow> server_env \<Rightarrow> handler \<Rightarrow> request \<Rightarrow> server_world \<Rightarrow> reply \<times> server_world" where
  "serve_handler sc se h r w =
     (let cfg = sc_api sc; H = ac_http cfg; T = ac_text cfg; B = sc_bcrypt sc; pol = sc_policy sc in
      case h of
        HandleLogin \<Rightarrow> apfst Reply (handleLogin H
          (\<lambda>mail password. on_db (\<lambda>d. apfst (map_sum id Some) (Authenticate T B (ac_jwt cfg) (ac_auth cfg) (se_login se) mail password d))) r w)
      | HandleRegister \<Rightarrow> apfst Reply (handleRegister H T (\<lambda>params. on_db_mail (Register T B pol (se_register se) params)) r w)
      | HandleVerify \<Rightarrow> apfst Reply (handleVerify H T (\<lambda>mail pin. on_db (Verify T B pol (se_verify se) mail pin)) r w)
      | HandleResendVerification \<Rightarrow> apfst Reply (handleResendVerification H T (\<lambda>mail. on_db_mail (Resend T B pol (se_resend se) mail)) r w)
      | HandleWS \<Rightarrow> (ReplyWS (handleWS (defaultPingInterval, defaultPongTimeout) (se_upgraded se) (se_spawn se)), w)
      | RequireAuth ep \<Rightarrow> (case serve_room cfg (se_http se) ep r (fst w) of (resp, aw') \<Rightarrow> (Reply resp, (aw', snd w)))
      | HandleMethodNotAllowed allowed \<Rightarrow> (methodNotAllowed allowed, w)
      | _ \<Rightarrow> (Reply notFound, w))"

definition serve_public ::
  "server_config \<Rightarrow> server_env \<Rightarrow> string \<Rightarrow> string list \<Rightarrow> request \<Rightarrow> server_world \<Rightarrow> reply \<times> server_world" where
  "serve_public sc se m path r w =
     (case mux_find RegisterRoutes m path of
        None \<Rightarrow> (Reply notFound, w)
      | Some (h, vals) \<Rightarrow> serve_handler sc se h (r\<lparr>rq_path := vals\<rparr>) w)"

text \<open>The internal listener: \<open>call\<close> is the outcome of the call to the maintenance grain, \<open>scrape\<close> the
  metrics handler of the telemetry library when one is configured.\<close>

definition serve_internal ::
  "(unit, bool) result \<Rightarrow> response option \<Rightarrow> string \<Rightarrow> string list \<Rightarrow> reply" where
  "serve_internal call scrape m path =
     (case mux_find (RegisterInternalRoutes (scrape \<noteq> None)) m path of
        Some (HandlePendingAccountGC, _) \<Rightarrow> Reply (handlePendingAccountGC call)
      | Some (HandleMetrics, _) \<Rightarrow> Reply (case scrape of Some resp \<Rightarrow> resp | None \<Rightarrow> notFound)
      | Some (HandleMethodNotAllowed allowed, _) \<Rightarrow> methodNotAllowed allowed
      | _ \<Rightarrow> Reply notFound)"

section \<open>What the servers guarantee\<close>

lemma public_find: "mux_find RegisterRoutes m (s # rest) = Some (route_spec public_groups m (s # rest))"
  unfolding RegisterRoutes_def by (rule public_mux.mux_is_table) simp

lemma internal_find:
  "mux_find (RegisterInternalRoutes metrics) m (s # rest) = Some (route_spec (internal_groups metrics) m (s # rest))"
  unfolding RegisterInternalRoutes_def by (rule internal_mux.mux_is_table) simp

lemmas group_evals = group_path_def group_methods_def in_group_def splitMethodPath_def parse_path_def parse_seg_def endpoint_defs

definition guarded :: "handler \<Rightarrow> bool" where
  "guarded h \<longleftrightarrow> (case h of RequireAuth _ \<Rightarrow> True | HandleMethodNotAllowed _ \<Rightarrow> True | HandleNotFound \<Rightarrow> True | _ \<Rightarrow> False)"

lemma room_groups_guarded:
  "\<forall>g\<in>set public_groups. matches (group_path g) (''rooms'' # rest) \<longrightarrow> guarded (in_group g m)"
  by (simp add: public_groups_def group_evals guarded_def)

lemma rooms_guarded: "guarded (fst (route_spec public_groups m (''rooms'' # rest)))"
proof (cases rule: route_spec_cases[of public_groups "''rooms'' # rest" m])
  case (found g) then show ?thesis using bspec[OF room_groups_guarded, of g rest m] by simp
next
  case unknown then show ?thesis by (simp add: guarded_def)
qed

lemma caller_path: "caller cfg he (r\<lparr>rq_path := vals\<rparr>) aw = caller cfg he r aw"
  by (simp add: caller_def)

definition reply_status :: "reply \<Rightarrow> int" where
  "reply_status rp = (case rp of Reply resp \<Rightarrow> rs_status resp | ReplyAllow _ resp \<Rightarrow> rs_status resp | ReplyWS _ \<Rightarrow> 101)"

text \<open>C8. No room without a session: whatever the method and the rest of the path, a request below
  \<open>/rooms\<close> whose Authorization header does not carry a token the authenticator accepts changes nothing
  in the system and is answered 401, 404, 405 or, when identities cannot be looked up, 503.\<close>

theorem rooms_need_a_session:
  assumes "caller (sc_api sc) (se_http se) r (fst w) = None"
    and "serve_public sc se m (''rooms'' # rest) r w = (rp, w')"
  shows "w' = w \<and> reply_status rp \<in> {401, 404, 405, 503}"
proof -
  obtain h vals where h: "route_spec public_groups m (''rooms'' # rest) = (h, vals)" by fastforce
  have g: "guarded h" using rooms_guarded[of m rest] by (simp add: h)
  have run: "serve_handler sc se h (r\<lparr>rq_path := vals\<rparr>) w = (rp, w')"
    using assms(2) by (simp add: serve_public_def public_find h)
  show ?thesis
  proof (cases h)
    case (RequireAuth ep)
    obtain resp aw' where s: "serve_room (sc_api sc) (se_http se) ep (r\<lparr>rq_path := vals\<rparr>) (fst w) = (resp, aw')" by fastforce
    have "aw' = fst w \<and> rs_status resp \<in> {401, 503}"
      using s assms(1) by (cases rule: serve_room_cases) (simp_all add: caller_path)
    then show ?thesis using run s by (auto simp: RequireAuth serve_handler_def Let_def reply_status_def)
  next
    case (HandleMethodNotAllowed a)
    then show ?thesis using run by (auto simp: serve_handler_def Let_def methodNotAllowed_def reply_status_def WriteErrorResponse_def)
  next
    case HandleNotFound
    then show ?thesis using run by (auto simp: serve_handler_def Let_def notFound_def reply_status_def WriteErrorResponse_def)
  qed (use g in \<open>simp_all add: guarded_def\<close>)
qed

text \<open>With a session, the route hands the named room to its handler.\<close>

lemma serve_membership:
  assumes "code \<noteq> ''/''"
  shows "serve_public sc se ''PUT'' [''rooms'', code, ''membership''] r w =
      (case serve_room (sc_api sc) (se_http se) RoomMembershipPut (r\<lparr>rq_path := path_value [(''id'', code)]\<rparr>) (fst w) of
         (resp, aw') \<Rightarrow> (Reply resp, (aw', snd w)))"
  using assms
  by (simp add: serve_public_def public_find route_spec_def public_groups_def group_evals serve_handler_def Let_def
      wild_names_def)

lemma matches_literals: "matches (map Lit ls) path \<longleftrightarrow> path = ls"
  by (induction ls arbitrary: path; case_tac path) auto

lemma public_not_operational: "\<forall>g\<in>set public_groups. in_group g m \<notin> {HandlePendingAccountGC, HandleMetrics}"
  by (simp add: public_groups_def in_group_def group_methods_def splitMethodPath_def endpoint_defs)

lemma internal_routes:
  "\<forall>g\<in>set (internal_groups metrics).
     (group_path g = map Lit [''internal'', ''jobs'', ''pending-account-gc'']
        \<and> in_group g m = (if m = ''POST'' then HandlePendingAccountGC else HandleMethodNotAllowed ''POST''))
     \<or> (metrics \<and> group_path g = map Lit [''metrics'']
        \<and> in_group g m = (if m \<in> {''GET'', ''HEAD''} then HandleMetrics else HandleMethodNotAllowed ''GET, HEAD''))"
  by (simp add: internal_groups_def group_evals)

text \<open>The operational endpoints are served by the internal listener only, and it serves nothing else: no
  request to the public listener reaches the job trigger or the metrics, whatever its method and path;
  the internal listener reaches only these two, the metrics only when they are enabled.\<close>

theorem listeners_are_separate:
  "fst (the (mux_find RegisterRoutes m (s # rest))) \<notin> {HandlePendingAccountGC, HandleMetrics}
   \<and> (\<exists>h. fst (the (mux_find (RegisterInternalRoutes metrics) m (s # rest))) = h
        \<and> (h = HandlePendingAccountGC \<and> m = ''POST'' \<and> s # rest = [''internal'', ''jobs'', ''pending-account-gc'']
           \<or> h = HandleMetrics \<and> metrics \<and> m \<in> {''GET'', ''HEAD''} \<and> s # rest = [''metrics'']
           \<or> refusal h \<or> h = HandleNotFound))"
proof (intro conjI)
  show "fst (the (mux_find RegisterRoutes m (s # rest))) \<notin> {HandlePendingAccountGC, HandleMetrics}"
  proof (cases rule: route_spec_cases[of public_groups "s # rest" m])
    case (found g) then show ?thesis using bspec[OF public_not_operational found(1), of m] by (simp add: public_find)
  qed (simp add: public_find)
next
  show "\<exists>h. fst (the (mux_find (RegisterInternalRoutes metrics) m (s # rest))) = h
        \<and> (h = HandlePendingAccountGC \<and> m = ''POST'' \<and> s # rest = [''internal'', ''jobs'', ''pending-account-gc'']
           \<or> h = HandleMetrics \<and> metrics \<and> m \<in> {''GET'', ''HEAD''} \<and> s # rest = [''metrics'']
           \<or> refusal h \<or> h = HandleNotFound)"
  proof (cases rule: route_spec_cases[of "internal_groups metrics" "s # rest" m])
    case (found g)
    have h: "fst (the (mux_find (RegisterInternalRoutes metrics) m (s # rest))) = in_group g m"
      by (simp add: internal_find found(3))
    consider (gc) "group_path g = map Lit [''internal'', ''jobs'', ''pending-account-gc'']"
        "in_group g m = (if m = ''POST'' then HandlePendingAccountGC else HandleMethodNotAllowed ''POST'')"
      | (scrape) "metrics" "group_path g = map Lit [''metrics'']"
        "in_group g m = (if m \<in> {''GET'', ''HEAD''} then HandleMetrics else HandleMethodNotAllowed ''GET, HEAD'')"
      using bspec[OF internal_routes found(1), of m] by blast
    then show ?thesis
    proof cases
      case gc
      then have "s # rest = [''internal'', ''jobs'', ''pending-account-gc'']" using found(2) by (simp only: matches_literals)
      then show ?thesis unfolding h gc(2) by (simp add: refusal_def)
    next
      case scrape
      then have "s # rest = [''metrics'']" using found(2) by (simp only: matches_literals)
      then show ?thesis unfolding h scrape(3) using scrape(1) by (simp add: refusal_def)
    qed
  qed (simp add: internal_find)
qed

section \<open>Concrete requests\<close>

definition bare_request :: request where
  "bare_request = \<lparr>rq_content_type = [], rq_authorization = [], rq_path = (\<lambda>_. []), rq_query = (\<lambda>_. []),
     rq_body = (\<lambda>_. (DecodeFailed, AtEOF))\<rparr>"

theorem allow_header_exact_witness:
  "mux_find RegisterRoutes ''HEAD'' [''ws''] = Some (HandleMethodNotAllowed ''GET'', path_value [])
   \<and> ''HEAD'' \<notin> set (methods_of ''GET'')"
proof -
  have r: "mux_find RegisterRoutes ''HEAD'' [''ws''] = Some (HandleMethodNotAllowed ''GET'', path_value [])"
    by (simp add: public_find route_spec_def public_groups_def group_evals wild_names_def)
  show ?thesis using r allow_header_exact[OF r, of "''HEAD''"] by (simp add: r refusal_def)
qed

theorem rooms_need_a_session_witness:
  "\<forall>sc se w. reply_status (fst (serve_public sc se ''PUT'' [''rooms'', ''R0A1'', ''membership''] bare_request w)) = 401
   \<and> snd (serve_public sc se ''PUT'' [''rooms'', ''R0A1'', ''membership''] bare_request w) = w"
proof (intro allI)
  fix sc :: server_config and se :: server_env and w :: server_world
  have c: "caller (sc_api sc) (se_http se) bare_request (fst w) = None"
    by (simp add: caller_def bare_request_def extractBearerToken_def bearerPrefix_def)
  have m: "serve_room (sc_api sc) (se_http se) RoomMembershipPut (bare_request\<lparr>rq_path := v\<rparr>) (fst w) =
      (WriteErrorResponse 401 (errDetail AuthMissingToken ''missing authorization header''), fst w)" for v
    by (simp add: serve_room_def authMiddleware_def bare_request_def extractBearerToken_def bearerPrefix_def)
  have e: "serve_public sc se ''PUT'' [''rooms'', ''R0A1'', ''membership''] bare_request w =
      (Reply (WriteErrorResponse 401 (errDetail AuthMissingToken ''missing authorization header'')), w)"
    by (simp add: serve_membership m)
  show "reply_status (fst (serve_public sc se ''PUT'' [''rooms'', ''R0A1'', ''membership''] bare_request w)) = 401
   \<and> snd (serve_public sc se ''PUT'' [''rooms'', ''R0A1'', ''membership''] bare_request w) = w"
    using rooms_need_a_session[OF c e] e by (simp add: reply_status_def WriteErrorResponse_def)
qed

end
