(* ===== verification/Delivery.thy ===== *)
theory Delivery
  imports Bootstrap
begin

text \<open>
  Delivery of verification PINs: \<open>sender.go\<close>, \<open>console.go\<close> and \<open>smtp.go\<close> of \<open>internal/verification\<close>.

  The environment is a function from variable names to values, empty when unset. What a sender does is
  the list of lines it logs and messages it hands to \<open>net/smtp\<close>; \<open>relay\<close> says whether the mail relay takes
  a message. \<open>lower\<close> is \<open>strings.ToLower\<close> and \<open>dur\<close> the \<open>String\<close> of a duration.
\<close>

section \<open>Configuration\<close>

datatype delivery_mode = ModeConsole | ModeSMTP

record delivery_config =
  dl_Mode :: delivery_mode
  dl_SMTPAddr :: string
  dl_SMTPUsername :: string
  dl_SMTPPassword :: string
  dl_MailFrom :: "mail_address option"

datatype delivery_error =
  NoSMTPAddr | BadSMTPAddr addr_error | NoMailFrom | BadMailFrom domain_error | UnknownMode string
  | ContextDone | SendInvalidPIN | RelayRefused

definition validateSMTPAddr :: "string \<Rightarrow> (delivery_error, unit) result" where
  "validateSMTPAddr addr =
     (if addr = [] then Err NoSMTPAddr
      else case SplitHostPort addr of Inl e \<Rightarrow> Err (BadSMTPAddr e) | Inr _ \<Rightarrow> Ok ())"

definition console_config :: delivery_config where
  "console_config = \<lparr>dl_Mode = ModeConsole, dl_SMTPAddr = [], dl_SMTPUsername = [], dl_SMTPPassword = [], dl_MailFrom = None\<rparr>"

definition ConfigFromEnv :: "text_lib \<Rightarrow> (string \<Rightarrow> string) \<Rightarrow> (string \<Rightarrow> string) \<Rightarrow> (delivery_error, delivery_config) result" where
  "ConfigFromEnv T lower env =
     (let mode = lower (trim_space (env ''BLABBY_VERIFICATION_DELIVERY'')) in
      if mode = [] \<or> mode = ''console'' then Ok console_config
      else if mode = ''smtp'' then
        (let addr = trim_space (env ''BLABBY_SMTP_ADDR'') in
         case validateSMTPAddr addr of
           Inl e \<Rightarrow> Err e
         | Inr _ \<Rightarrow>
             let rawFrom = trim_space (env ''BLABBY_MAIL_FROM'') in
             if rawFrom = [] then Err NoMailFrom
             else case NewMailAddress T rawFrom of
                    Inl e \<Rightarrow> Err (BadMailFrom e)
                  | Inr from \<Rightarrow>
                      Ok \<lparr>dl_Mode = ModeSMTP, dl_SMTPAddr = addr, dl_SMTPUsername = env ''BLABBY_SMTP_USERNAME'',
                          dl_SMTPPassword = env ''BLABBY_SMTP_PASSWORD'', dl_MailFrom = Some from\<rparr>)
      else Err (UnknownMode mode))"

section \<open>Senders\<close>

record smtp_sender =
  sm_addr :: string
  sm_username :: string
  sm_password :: string
  sm_from :: mail_address

datatype sender = ConsoleSender | SMTPSender smtp_sender

definition validateSMTPConfig :: "delivery_config \<Rightarrow> (delivery_error, mail_address) result" where
  "validateSMTPConfig cfg =
     (case validateSMTPAddr (dl_SMTPAddr cfg) of
        Inl e \<Rightarrow> Err e
      | Inr _ \<Rightarrow> (case dl_MailFrom cfg of None \<Rightarrow> Err NoMailFrom | Some from \<Rightarrow> Ok from))"

definition newSMTPSender :: "delivery_config \<Rightarrow> (delivery_error, smtp_sender) result" where
  "newSMTPSender cfg =
     (case validateSMTPConfig cfg of
        Inl e \<Rightarrow> Err e
      | Inr from \<Rightarrow> Ok \<lparr>sm_addr = dl_SMTPAddr cfg, sm_username = dl_SMTPUsername cfg, sm_password = dl_SMTPPassword cfg, sm_from = from\<rparr>)"

definition NewSender :: "delivery_config \<Rightarrow> (delivery_error, sender) result" where
  "NewSender cfg =
     (case dl_Mode cfg of
        ModeConsole \<Rightarrow> Ok ConsoleSender
      | ModeSMTP \<Rightarrow> (case newSMTPSender cfg of Inl e \<Rightarrow> Err e | Inr s \<Rightarrow> Ok (SMTPSender s)))"

definition crlf :: string where "crlf = [CHR 0x0D, CHR 0x0A]"

definition buildMessage :: "(duration \<Rightarrow> string) \<Rightarrow> mail_address \<Rightarrow> mail_address \<Rightarrow> pin \<Rightarrow> duration \<Rightarrow> string" where
  "buildMessage dur from to p expiresIn =
     ''From: '' @ mail_string from @ crlf
     @ ''To: '' @ mail_string to @ crlf
     @ ''Subject: Your blabby verification code'' @ crlf
     @ ''Content-Type: text/plain; charset=utf-8'' @ crlf
     @ crlf
     @ ''Your blabby verification code is '' @ pin_string p @ ''.'' @ crlf
     @ ''It expires in '' @ dur expiresIn @ ''.'' @ crlf"

text \<open>A mail: the relay's address, the credentials with the host they are for, the envelope and the message.\<close>

datatype delivery_action =
  ConsolePIN mail_address pin string
  | SMTPMail string "(string \<times> string \<times> string) option" string "string list" string

definition console_Send :: "(duration \<Rightarrow> string) \<Rightarrow> mail_address \<Rightarrow> pin \<Rightarrow> duration \<Rightarrow> (delivery_error, unit) result \<times> delivery_action list" where
  "console_Send dur to p expiresIn =
     (if \<not> validatePINDigits (pin_string p) then (Err SendInvalidPIN, [])
      else (Ok (), [ConsolePIN to p (dur expiresIn)]))"

definition smtp_Send ::
  "(duration \<Rightarrow> string) \<Rightarrow> bool \<Rightarrow> bool \<Rightarrow> smtp_sender \<Rightarrow> mail_address \<Rightarrow> pin \<Rightarrow> duration
     \<Rightarrow> (delivery_error, unit) result \<times> delivery_action list" where
  "smtp_Send dur cancelled relay s to p expiresIn =
     (if cancelled then (Err ContextDone, [])
      else if \<not> validatePINDigits (pin_string p) then (Err SendInvalidPIN, [])
      else case (if sm_username s = [] then Ok None
                 else case SplitHostPort (sm_addr s) of
                        Inl e \<Rightarrow> Err (BadSMTPAddr e)
                      | Inr (host, _) \<Rightarrow> Ok (Some (sm_username s, sm_password s, host))) of
             Inl e \<Rightarrow> (Err e, [])
           | Inr auth \<Rightarrow>
               (if relay then Ok () else Err RelayRefused,
                [SMTPMail (sm_addr s) auth (mail_string (sm_from s)) [mail_string to] (buildMessage dur (sm_from s) to p expiresIn)]))"

definition Send ::
  "(duration \<Rightarrow> string) \<Rightarrow> bool \<Rightarrow> bool \<Rightarrow> sender \<Rightarrow> mail_address \<Rightarrow> pin \<Rightarrow> duration
     \<Rightarrow> (delivery_error, unit) result \<times> delivery_action list" where
  "Send dur cancelled relay s to p expiresIn =
     (case s of
        ConsoleSender \<Rightarrow> console_Send dur to p expiresIn
      | SMTPSender m \<Rightarrow> smtp_Send dur cancelled relay m to p expiresIn)"

section \<open>Messages\<close>

text \<open>The lines of a message, as a reader of the mail splits it.\<close>

fun crlf_lines :: "string \<Rightarrow> string list" where
  "crlf_lines [] = [[]]"
| "crlf_lines [c] = [[c]]"
| "crlf_lines (c # d # cs) =
     (if c = CHR 0x0D \<and> d = CHR 0x0A then [] # crlf_lines cs
      else (case crlf_lines (d # cs) of [] \<Rightarrow> [[c]] | l # ls \<Rightarrow> (c # l) # ls))"

definition one_line :: "string \<Rightarrow> bool" where
  "one_line s \<longleftrightarrow> CHR 0x0D \<notin> set s \<and> CHR 0x0A \<notin> set s"

lemma crlf_lines_ne: "crlf_lines s \<noteq> []"
  by (induction s rule: crlf_lines.induct) (auto split: list.splits)

lemma crlf_lines_line: "one_line l \<Longrightarrow> crlf_lines (l @ crlf @ rest) = l # crlf_lines rest"
proof (induction l)
  case (Cons c l)
  then have c: "c \<noteq> CHR 0x0D" "one_line l" by (auto simp: one_line_def)
  obtain d cs where "l @ crlf @ rest = d # cs" by (cases l) (auto simp: crlf_def)
  then show ?case using Cons.IH[OF c(2)] c(1) by simp
qed (simp add: crlf_def)

lemma one_line_append [simp]: "one_line (xs @ ys) \<longleftrightarrow> one_line xs \<and> one_line ys"
  by (auto simp: one_line_def)

lemma mail_one_line:
  assumes "NewMailAddress T raw = Ok m"
  shows "one_line (mail_string m)"
proof -
  obtain t l d where t: "split_last CHR ''@'' t = Some (l, d)" "isValidMailLocalPart l" "isValidMailDomain d"
    and m: "m = MailAddress (to_lower_ascii t)"
    using assms by (rule NewMailAddress_OkD)
  have b: "mail_byte c" if "c \<in> set t" for c
    using that split_last_Some[OF t(1)] local_part_bytes[OF t(2)] domain_bytes[OF t(3)] separators_mail_byte by auto
  have "mail_byte c" if "c \<in> set (mail_string m)" for c
    using that b mail_byte_to_lower by (auto simp: m to_lower_ascii_def)
  then show ?thesis by (force simp: one_line_def mail_byte_def is_space_def)
qed

lemma pin_one_line: "validatePINDigits s \<Longrightarrow> one_line s"
  using ascii_byte_rune[of "CHR 0x0D" s] ascii_byte_rune[of "CHR 0x0A" s]
  by (force simp: one_line_def validatePINDigits_def list_all_iff)

lemma message_lines:
  assumes "one_line (mail_string from)" "one_line (mail_string to)" "one_line (pin_string p)" "one_line (dur e)"
  shows "crlf_lines (buildMessage dur from to p e) =
    [''From: '' @ mail_string from, ''To: '' @ mail_string to, ''Subject: Your blabby verification code'',
     ''Content-Type: text/plain; charset=utf-8'', [],
     ''Your blabby verification code is '' @ pin_string p @ ''.'', ''It expires in '' @ dur e @ ''.'', []]"
proof -
  have l: "one_line ''From: ''" "one_line ''To: ''" "one_line ''Subject: Your blabby verification code''"
    "one_line ''Content-Type: text/plain; charset=utf-8''" "one_line ''Your blabby verification code is ''"
    "one_line ''.''" "one_line ''It expires in ''" "one_line []"
    by (simp_all add: one_line_def)
  have m: "buildMessage dur from to p e =
      (''From: '' @ mail_string from) @ crlf @ (''To: '' @ mail_string to) @ crlf
      @ ''Subject: Your blabby verification code'' @ crlf @ ''Content-Type: text/plain; charset=utf-8'' @ crlf
      @ [] @ crlf @ (''Your blabby verification code is '' @ pin_string p @ ''.'') @ crlf
      @ (''It expires in '' @ dur e @ ''.'') @ crlf @ []"
    by (simp add: buildMessage_def)
  show ?thesis
    unfolding m using assms l
    by (simp only: crlf_lines_line one_line_append crlf_lines.simps simp_thms)
qed

section \<open>What delivery guarantees\<close>

lemma ConfigFromEnv_smtp:
  assumes "ConfigFromEnv T lower env = Ok cfg" "dl_Mode cfg = ModeSMTP"
  obtains h p fr where "SplitHostPort (dl_SMTPAddr cfg) = Ok (h, p)" "dl_MailFrom cfg = Some fr"
    "NewMailAddress T (trim_space (env ''BLABBY_MAIL_FROM'')) = Ok fr" "dl_SMTPAddr cfg = trim_space (env ''BLABBY_SMTP_ADDR'')"
    "dl_SMTPAddr cfg \<noteq> []" "dl_SMTPUsername cfg = env ''BLABBY_SMTP_USERNAME''" "dl_SMTPPassword cfg = env ''BLABBY_SMTP_PASSWORD''"
  using assms
  by (auto simp: ConfigFromEnv_def Let_def console_config_def validateSMTPAddr_def split: if_splits sum.splits)

text \<open>C23. Nothing a registrant types can change the mail that is sent. With an accepted SMTP configuration the
  sender exists, and sending a PIN to an accepted address hands the relay at the configured address one
  message, for that recipient alone, with credentials exactly when a user name is configured; read
  line by line the message is the four header lines, an empty line and the two sentences with the PIN
  and its lifetime: neither the addresses nor the PIN can add a header, a recipient or a body.\<close>

theorem mail_cannot_be_injected:
  assumes "ConfigFromEnv T lower env = Ok cfg" and "dl_Mode cfg = ModeSMTP"
    and "NewMailAddress T raw = Ok to" and "ParsePIN typed = Ok p" and "one_line (dur e)"
  shows "\<exists>s fr auth msg. NewSender cfg = Ok s
    \<and> NewMailAddress T (trim_space (env ''BLABBY_MAIL_FROM'')) = Ok fr
    \<and> Send dur False relay s to p e = (if relay then Ok () else Err RelayRefused,
        [SMTPMail (trim_space (env ''BLABBY_SMTP_ADDR'')) auth (mail_string fr) [mail_string to] msg])
    \<and> (auth = None \<longleftrightarrow> env ''BLABBY_SMTP_USERNAME'' = [])
    \<and> crlf_lines msg =
        [''From: '' @ mail_string fr, ''To: '' @ mail_string to, ''Subject: Your blabby verification code'',
         ''Content-Type: text/plain; charset=utf-8'', [],
         ''Your blabby verification code is '' @ pin_string p @ ''.'', ''It expires in '' @ dur e @ ''.'', []]"
proof -
  obtain h pt fr where c: "SplitHostPort (dl_SMTPAddr cfg) = Ok (h, pt)" "dl_MailFrom cfg = Some fr"
    "NewMailAddress T (trim_space (env ''BLABBY_MAIL_FROM'')) = Ok fr" "dl_SMTPAddr cfg = trim_space (env ''BLABBY_SMTP_ADDR'')"
    "dl_SMTPAddr cfg \<noteq> []" "dl_SMTPUsername cfg = env ''BLABBY_SMTP_USERNAME''" "dl_SMTPPassword cfg = env ''BLABBY_SMTP_PASSWORD''"
    using ConfigFromEnv_smtp[OF assms(1,2)] by blast
  define s where "s = \<lparr>sm_addr = dl_SMTPAddr cfg, sm_username = dl_SMTPUsername cfg, sm_password = dl_SMTPPassword cfg, sm_from = fr\<rparr>"
  have new: "NewSender cfg = Ok (SMTPSender s)"
    by (simp add: NewSender_def assms(2) newSMTPSender_def validateSMTPConfig_def validateSMTPAddr_def c(1,2,5) s_def)
  have pin: "validatePINDigits (pin_string p)" using assms(4) by (auto simp: ParsePIN_def Let_def split: if_splits)
  define auth where "auth = (if dl_SMTPUsername cfg = [] then None else Some (dl_SMTPUsername cfg, dl_SMTPPassword cfg, h))"
  have send: "Send dur False relay (SMTPSender s) to p e = (if relay then Ok () else Err RelayRefused,
        [SMTPMail (dl_SMTPAddr cfg) auth (mail_string fr) [mail_string to] (buildMessage dur fr to p e)])"
    using pin c(1) by (simp add: Send_def smtp_Send_def s_def auth_def)
  have "crlf_lines (buildMessage dur fr to p e) =
        [''From: '' @ mail_string fr, ''To: '' @ mail_string to, ''Subject: Your blabby verification code'',
         ''Content-Type: text/plain; charset=utf-8'', [],
         ''Your blabby verification code is '' @ pin_string p @ ''.'', ''It expires in '' @ dur e @ ''.'', []]"
    by (rule message_lines[where e = e]) (use mail_one_line[OF c(3)] mail_one_line[OF assms(3)] pin_one_line[OF pin] assms(5) in simp_all)
  moreover have "auth = None \<longleftrightarrow> env ''BLABBY_SMTP_USERNAME'' = []" by (simp add: auth_def c)
  ultimately show ?thesis using new send c(3) unfolding c(4) by blast
qed

text \<open>The console sender never mails, and the SMTP sender never logs a PIN.\<close>

lemma senders_do_not_mix:
  "Send dur cancelled relay ConsoleSender to p e = (res, acts) \<Longrightarrow> \<forall>a\<in>set acts. \<exists>x. a = ConsolePIN to p x"
  "Send dur cancelled relay (SMTPSender s) to p e = (res, acts) \<Longrightarrow> \<forall>a\<in>set acts. \<exists>u w x. a = SMTPMail (sm_addr s) u w [mail_string to] x"
  by (auto simp: Send_def console_Send_def smtp_Send_def split: if_splits sum.splits)

definition demo_mail_env :: "string \<Rightarrow> string" where
  "demo_mail_env k =
     (if k = ''BLABBY_VERIFICATION_DELIVERY'' then ''smtp'' else if k = ''BLABBY_SMTP_ADDR'' then ''127.0.0.1:9090''
      else if k = ''BLABBY_MAIL_FROM'' then ''Al@x.io'' else [])"

theorem mail_cannot_be_injected_witness:
  "\<exists>s msg. NewSender \<lparr>dl_Mode = ModeSMTP, dl_SMTPAddr = ''127.0.0.1:9090'', dl_SMTPUsername = [], dl_SMTPPassword = [],
        dl_MailFrom = Some (MailAddress ''al@x.io'')\<rparr> = Ok s
     \<and> Send (\<lambda>_. ''15m0s'') False True s (MailAddress ''al@x.io'') (PIN ''123456'') 0
         = (Ok (), [SMTPMail ''127.0.0.1:9090'' None ''al@x.io'' [''al@x.io''] msg])
     \<and> crlf_lines msg ! 1 = ''To: al@x.io''"
proof -
  have t: "trim_space ''smtp'' = ''smtp''" "trim_space ''Al@x.io'' = ''Al@x.io''"
    by (rule trim_space_ascii_id; simp add: is_space_def)+
  have d: "demo_mail_env ''BLABBY_VERIFICATION_DELIVERY'' = ''smtp''" "demo_mail_env ''BLABBY_SMTP_ADDR'' = ''127.0.0.1:9090''"
    "demo_mail_env ''BLABBY_MAIL_FROM'' = ''Al@x.io''" "demo_mail_env ''BLABBY_SMTP_USERNAME'' = []"
    "demo_mail_env ''BLABBY_SMTP_PASSWORD'' = []"
    by (simp_all add: demo_mail_env_def)
  define cfg where "cfg = \<lparr>dl_Mode = ModeSMTP, dl_SMTPAddr = ''127.0.0.1:9090'', dl_SMTPUsername = [], dl_SMTPPassword = [],
        dl_MailFrom = Some (MailAddress ''al@x.io'')\<rparr>"
  have c: "ConfigFromEnv plain_text_lib (\<lambda>s. s) demo_mail_env = Ok cfg"
    by (simp add: ConfigFromEnv_def Let_def d t trim_defaults validateSMTPAddr_def split_defaults demo_mail cfg_def)
  have p: "ParsePIN ''123456'' = Ok (PIN ''123456'')"
  proof -
    have "is_ascii ''123456''" by simp
    from runes_ascii[OF this] have "validatePINDigits ''123456''" by (simp add: validatePINDigits_def pinDigits_def del: runes.simps)
    moreover have "trim_space ''123456'' = ''123456''" by (rule trim_space_ascii_id; simp add: is_space_def)
    ultimately show ?thesis by (simp add: ParsePIN_def)
  qed
  have m: "dl_Mode cfg = ModeSMTP" by (simp add: cfg_def)
  from mail_cannot_be_injected[OF c m demo_mail p, of "\<lambda>_. ''15m0s''" 0 True] show ?thesis
    by (auto simp: d t trim_defaults demo_mail one_line_def cfg_def)
qed

end
