(* ===== verification/Observability.thy ===== *)
theory Observability
  imports Delivery
begin

text \<open>
  What stands between the runtime and an actor, and what it leaves in the log: the receiver middleware of
  \<open>internal/middleware\<close> (\<open>logging.go\<close>, \<open>terminated.go\<close>), the dispatch generated for a grain, the supervision
  decorator (\<open>internal/supervision/strategy.go\<close> with its two users), the level floor
  (\<open>internal/logging/minlevel.go\<close>) and the subscribers of \<open>internal/clusterboot\<close>. A receiver maps an envelope
  and a state to the new state, what it logged and what the actor was given, and whether it panicked.
\<close>

section \<open>Envelopes, lines and receivers\<close>

text \<open>What the runtime delivers; a \<open>Plain\<close> carries the Go type of an ordinary message, pointer marker
  included, and \<open>'m\<close>, the message.\<close>

datatype 'm delivered =
  ActorStarted | ActorStopping | ActorRestarting | ActorStopped
| ActorTerminated pid nat
| WatchedEnd pid nat
| Plain string 'm

record 'm envelope =
  en_header :: "(string \<times> string) list"
  en_message :: "'m delivered"
  en_sender :: "pid option"

record log_line =
  ln_level :: log_level
  ln_event :: string
  ln_attrs :: "(string \<times> string) list"

datatype 'm obs = Logged log_line | Given "'m envelope"

type_synonym ('m, 's) receiver = "'m envelope \<Rightarrow> 's \<Rightarrow> 's \<times> 'm obs list \<times> bool"

definition goType :: "'m delivered \<Rightarrow> string" where
  "goType m =
     (case m of
        ActorStarted \<Rightarrow> ''*actor.Started'' | ActorStopping \<Rightarrow> ''*actor.Stopping''
      | ActorRestarting \<Rightarrow> ''*actor.Restarting'' | ActorStopped \<Rightarrow> ''*actor.Stopped''
      | ActorTerminated _ _ \<Rightarrow> ''*actor.Terminated'' | WatchedEnd _ _ \<Rightarrow> ''*middleware.WatchedTerminated''
      | Plain t _ \<Rightarrow> t)"

definition trim_pointer :: "string \<Rightarrow> string" where
  "trim_pointer t = (if t \<noteq> [] \<and> hd t = CHR ''*'' then tl t else t)"

definition typeName :: "'m delivered \<Rightarrow> string" where
  "typeName m = trim_pointer (goType m)"

section \<open>The logging middleware\<close>

definition activatorPrefix :: string where "activatorPrefix = ''partition-activator/''"

text \<open>\<open>s[:strings.LastIndex(s, c)]\<close>, or \<open>s\<close> where there is none.\<close>

definition before_last :: "char \<Rightarrow> string \<Rightarrow> string" where
  "before_last c s = (if c \<in> set s then rev (tl (dropWhile (\<lambda>x. x \<noteq> c) (rev s))) else s)"

definition grainID :: "pid option \<Rightarrow> string" where
  "grainID self =
     (case self of
        None \<Rightarrow> []
      | Some p \<Rightarrow>
          if take (length activatorPrefix) (pid_id p) \<noteq> activatorPrefix then pid_id p
          else before_last (CHR ''$'') (drop (length activatorPrefix) (pid_id p)))"

definition grain_line :: "string \<Rightarrow> string \<Rightarrow> pid option \<Rightarrow> string \<Rightarrow> log_line" where
  "grain_line event grainType self t =
     \<lparr>ln_level = LevelInfo, ln_event = event,
      ln_attrs = [(''grain_type'', grainType), (''grain_id'', grainID self), (''msg_type'', t)]\<rparr>"

definition line_first :: "log_line \<Rightarrow> 's \<times> 'm obs list \<times> bool \<Rightarrow> 's \<times> 'm obs list \<times> bool" where
  "line_first l r = (case r of (s, tr, p) \<Rightarrow> (s, Logged l # tr, p))"

text \<open>A panic of the handler skips the line that follows it.\<close>

definition line_after :: "('s \<Rightarrow> log_line) \<Rightarrow> 's \<times> 'm obs list \<times> bool \<Rightarrow> 's \<times> 'm obs list \<times> bool" where
  "line_after l r = (case r of (s, tr, p) \<Rightarrow> (s, if p then tr else tr @ [Logged (l s)], p))"

definition emitGrain :: "string \<Rightarrow> pid option \<Rightarrow> ('m, 's) receiver \<Rightarrow> ('m, 's) receiver" where
  "emitGrain grainType self nxt env s =
     (case en_message env of
        ActorStarted \<Rightarrow> line_first (grain_line ''grain.activated'' grainType self ''actor.Started'') (nxt env s)
      | ActorStopping \<Rightarrow> line_first (grain_line ''grain.passivated'' grainType self ''actor.Stopping'') (nxt env s)
      | ActorRestarting \<Rightarrow> line_first (grain_line ''grain.lifecycle'' grainType self (typeName (en_message env))) (nxt env s)
      | ActorStopped \<Rightarrow> line_first (grain_line ''grain.lifecycle'' grainType self (typeName (en_message env))) (nxt env s)
      | m \<Rightarrow> line_after (\<lambda>_. grain_line ''grain.msg'' grainType self (typeName m)) (nxt env s))"

definition GrainLogging :: "string \<Rightarrow> pid option \<Rightarrow> ('m, 's) receiver \<Rightarrow> ('m, 's) receiver" where
  "GrainLogging grainType self = emitGrain grainType self"

text \<open>\<open>pidText\<close> is the generated \<open>String\<close> of a PID, a method of the actor library.\<close>

definition actorPath :: "(pid \<Rightarrow> string) \<Rightarrow> pid option \<Rightarrow> string" where
  "actorPath pidText self = (case self of None \<Rightarrow> [] | Some p \<Rightarrow> pidText p)"

definition actor_attrs :: "(pid \<Rightarrow> string) \<Rightarrow> string \<Rightarrow> pid option \<Rightarrow> 'm delivered \<Rightarrow> (string \<times> string) list" where
  "actor_attrs pidText ty self m =
     [(''actor_type'', ty), (''actor_path'', actorPath pidText self), (''msg_type'', typeName m)]"

definition logActorMsg ::
  "(pid \<Rightarrow> string) \<Rightarrow> ('s \<Rightarrow> string) option \<Rightarrow> string \<Rightarrow> pid option \<Rightarrow> 'm delivered \<Rightarrow> 's \<Rightarrow> log_line" where
  "logActorMsg pidText userIDFunc ty self m s =
     \<lparr>ln_level = LevelInfo, ln_event = ''connection.msg'',
      ln_attrs = actor_attrs pidText ty self m @
        (case userIDFunc of None \<Rightarrow> [] | Some f \<Rightarrow> if f s = [] then [] else [(''user_id'', f s)])\<rparr>"

definition emitActor ::
  "(pid \<Rightarrow> string) \<Rightarrow> ('s \<Rightarrow> string) option \<Rightarrow> string \<Rightarrow> pid option \<Rightarrow> ('m, 's) receiver \<Rightarrow> ('m, 's) receiver" where
  "emitActor pidText userIDFunc ty self nxt env s =
     (let m = en_message env in
      if m = ActorStarted \<or> m = ActorStopping \<or> m = ActorRestarting \<or> m = ActorStopped
      then line_first \<lparr>ln_level = LevelInfo, ln_event = ''connection.lifecycle'', ln_attrs = actor_attrs pidText ty self m\<rparr> (nxt env s)
      else line_after (logActorMsg pidText userIDFunc ty self m) (nxt env s))"

definition currentUserID :: "conn_state \<Rightarrow> string" where
  "currentUserID s = (if user_is_zero (cn_userID s) then [] else user_string (cn_userID s))"

definition ActorLogging ::
  "(pid \<Rightarrow> string) \<Rightarrow> string \<Rightarrow> pid option \<Rightarrow> ('m, conn_state) receiver \<Rightarrow> ('m, conn_state) receiver" where
  "ActorLogging pidText ty self = emitActor pidText (Some currentUserID) ty self"

section \<open>Death watch\<close>

definition TranslateTerminated :: "('m, 's) receiver \<Rightarrow> ('m, 's) receiver" where
  "TranslateTerminated nxt env =
     (case en_message env of
        ActorTerminated who why \<Rightarrow>
          nxt \<lparr>en_header = en_header env, en_message = WatchedEnd who why, en_sender = en_sender env\<rparr>
      | _ \<Rightarrow> nxt env)"

text \<open>The receiver middlewares of \<open>actor.WithReceiverMiddleware\<close>: the first one is outermost.\<close>

definition middleware_chain :: "(('m, 's) receiver \<Rightarrow> ('m, 's) receiver) list \<Rightarrow> ('m, 's) receiver \<Rightarrow> ('m, 's) receiver" where
  "middleware_chain ms actor = foldr (\<lambda>m r. m r) ms actor"

text \<open>The generated \<open>Receive\<close> of a grain: what it does itself, what it discards, and what reaches the grain.
  \<open>ActorStarted\<close> passes; the automatic and the system messages, \<open>ActorTerminated\<close> among them, are
  discarded.\<close>

datatype grain_payload = ClusterInit string | ReceiveTimeout | GrainRequest nat string | OtherRequest

datatype arm = Discard | ArmInit string | ArmPassivate | ArmTerminate | ArmRequest nat string | ArmDefault

definition dispatch_arm :: "grain_payload delivered \<Rightarrow> arm" where
  "dispatch_arm m =
     (case m of
        ActorStarted \<Rightarrow> Discard
      | Plain _ (ClusterInit i) \<Rightarrow> ArmInit i
      | Plain _ ReceiveTimeout \<Rightarrow> ArmPassivate
      | ActorStopped \<Rightarrow> ArmTerminate
      | ActorStopping \<Rightarrow> Discard
      | ActorRestarting \<Rightarrow> Discard
      | ActorTerminated _ _ \<Rightarrow> Discard
      | Plain _ (GrainRequest n body) \<Rightarrow> ArmRequest n body
      | Plain _ OtherRequest \<Rightarrow> ArmDefault
      | WatchedEnd _ _ \<Rightarrow> ArmDefault)"

text \<open>The User grain's actor: \<open>others\<close> is what its other arms do.\<close>

definition user_actor ::
  "(arm \<Rightarrow> user_grain \<Rightarrow> user_grain \<times> bool) \<Rightarrow> (grain_payload, user_grain) receiver" where
  "user_actor others env g =
     (case dispatch_arm (en_message env) of
        Discard \<Rightarrow> (g, [], False)
      | ArmDefault \<Rightarrow>
          (ReceiveDefault (case en_message env of WatchedEnd who _ \<Rightarrow> WatchedTerminated who | _ \<Rightarrow> OtherMessage) g,
           [Given env], False)
      | a \<Rightarrow> (case others a g of (g', p) \<Rightarrow> (g', [Given env], p)))"

definition user_receiver ::
  "(arm \<Rightarrow> user_grain \<Rightarrow> user_grain \<times> bool) \<Rightarrow> pid option \<Rightarrow> (grain_payload, user_grain) receiver" where
  "user_receiver others self =
     middleware_chain [TranslateTerminated, GrainLogging ''UserGrain'' self] (user_actor others)"

section \<open>Supervision\<close>

text \<open>A panic value, as far as \<open>errText\<close> tells it apart: its type, and its text where it has one. A \<open>nil\<close>
  collaborator is \<open>None\<close>; an absent logger is the default one.\<close>

datatype reason = NilReason | ErrorReason string string | StringReason string | StringerReason string string | OtherReason string

definition errText :: "reason \<Rightarrow> string" where
  "errText r =
     (case r of NilReason \<Rightarrow> [] | ErrorReason _ t \<Rightarrow> t | StringReason t \<Rightarrow> t | StringerReason _ t \<Rightarrow> t | OtherReason ty \<Rightarrow> ty)"

record ('m, 's) supervision_config =
  sv_Event :: string
  sv_Decider :: "(reason \<Rightarrow> directive) option"
  sv_Attrs :: "(pid \<Rightarrow> 'm delivered \<Rightarrow> (string \<times> string) list) option"
  sv_Apply :: "(pid \<Rightarrow> reason \<Rightarrow> 'm delivered \<Rightarrow> 's \<Rightarrow> 's) option"

datatype strategy_error = EmptyEvent | NilDecider | NilAttrs | NilApply

definition NewLoggingStrategy ::
  "('m, 's) supervision_config \<Rightarrow> (strategy_error, ('m, 's) supervision_config) result" where
  "NewLoggingStrategy cfg =
     (if trim_space (sv_Event cfg) = [] then Err EmptyEvent
      else if sv_Decider cfg = None then Err NilDecider
      else if sv_Attrs cfg = None then Err NilAttrs
      else if sv_Apply cfg = None then Err NilApply
      else Ok cfg)"

definition directive_string :: "directive \<Rightarrow> string" where
  "directive_string d =
     (case d of ResumeDirective \<Rightarrow> ''ResumeDirective'' | RestartDirective \<Rightarrow> ''RestartDirective''
      | StopDirective \<Rightarrow> ''StopDirective'' | EscalateDirective \<Rightarrow> ''EscalateDirective'')"

definition logAt :: "directive \<Rightarrow> string \<Rightarrow> (string \<times> string) list \<Rightarrow> log_line" where
  "logAt d event attrs =
     \<lparr>ln_level = (if d = ResumeDirective \<or> d = RestartDirective then LevelWarn else LevelError),
      ln_event = event, ln_attrs = attrs\<rparr>"

text \<open>A nil collaborator would panic here: \<open>None\<close>.\<close>

definition HandleFailure ::
  "('m, 's) supervision_config \<Rightarrow> pid \<Rightarrow> reason \<Rightarrow> 'm delivered \<Rightarrow> 's \<Rightarrow> (log_line \<times> 's) option" where
  "HandleFailure cfg child reason m s =
     (case sv_Decider cfg of None \<Rightarrow> None | Some decide \<Rightarrow>
      case sv_Attrs cfg of None \<Rightarrow> None | Some attrs \<Rightarrow>
      case sv_Apply cfg of None \<Rightarrow> None | Some apply_it \<Rightarrow>
        Some (logAt (decide reason) (sv_Event cfg)
                (attrs child m @ [(''msg_type'', typeName m), (''directive'', directive_string (decide reason)),
                  (''error'', errText reason)]),
              apply_it child reason m s))"

text \<open>A fan-out job carries the kind and id of the grain that dispatched it.\<close>

datatype fanout_payload_msg = FanoutNotifyMsg string string | FanoutForwardMsg string string | NoFanoutMsg

definition roomGrainKind :: string where "roomGrainKind = ''RoomGrain''"

definition fanoutAttrs :: "(pid \<Rightarrow> string) \<Rightarrow> pid \<Rightarrow> fanout_payload_msg delivered \<Rightarrow> (string \<times> string) list" where
  "fanoutAttrs pidText child m =
     (case m of
        Plain _ (FanoutNotifyMsg kind i) \<Rightarrow> [(''grain_type'', kind), (''grain_id'', i)]
      | Plain _ (FanoutForwardMsg kind i) \<Rightarrow> [(''grain_type'', kind), (''grain_id'', i)]
      | _ \<Rightarrow> [(''grain_type'', roomGrainKind), (''actor_path'', pidText child)])"

definition newFanoutSupervisor ::
  "(pid \<Rightarrow> string) \<Rightarrow> (pid \<Rightarrow> reason \<Rightarrow> fanout_payload_msg delivered \<Rightarrow> 's \<Rightarrow> 's)
     \<Rightarrow> (strategy_error, (fanout_payload_msg, 's) supervision_config) result" where
  "newFanoutSupervisor pidText restarting =
     NewLoggingStrategy \<lparr>sv_Event = ''room.fanout.supervision'', sv_Decider = Some (\<lambda>_. classifyFanoutFailure),
       sv_Attrs = Some (fanoutAttrs pidText), sv_Apply = Some restarting\<rparr>"

definition actorType :: string where "actorType = ''UserConnection''"

definition connectionAttrs :: "(pid \<Rightarrow> string) \<Rightarrow> pid \<Rightarrow> 'm delivered \<Rightarrow> (string \<times> string) list" where
  "connectionAttrs pidText child m = [(''actor_type'', actorType), (''actor_path'', pidText child)]"

text \<open>\<open>oneForOne\<close> is the library's strategy for a decider.\<close>

definition newConnectionSupervisor ::
  "(pid \<Rightarrow> string) \<Rightarrow> ((reason \<Rightarrow> directive) \<Rightarrow> pid \<Rightarrow> reason \<Rightarrow> 'm delivered \<Rightarrow> 's \<Rightarrow> 's)
     \<Rightarrow> (strategy_error, ('m, 's) supervision_config) result" where
  "newConnectionSupervisor pidText oneForOne =
     NewLoggingStrategy \<lparr>sv_Event = ''connection.supervision'', sv_Decider = Some (\<lambda>_. classifyConnectionFailure),
       sv_Attrs = Some (connectionAttrs pidText), sv_Apply = Some (oneForOne (\<lambda>_. classifyConnectionFailure))\<rparr>"

section \<open>The level floor\<close>

text \<open>A handler of \<open>log/slog\<close> on states \<open>'h\<close>; \<open>'out\<close> is what handling a record gives, \<open>hd_nothing\<close> the nil error.\<close>

record ('h, 'out) slog_handler =
  hd_Enabled :: "'h \<Rightarrow> log_level \<Rightarrow> bool"
  hd_Handle :: "'h \<Rightarrow> log_line \<Rightarrow> 'out"
  hd_WithAttrs :: "(string \<times> string) list \<Rightarrow> 'h \<Rightarrow> 'h"
  hd_WithGroup :: "string \<Rightarrow> 'h \<Rightarrow> 'h"
  hd_nothing :: 'out

definition level_int :: "log_level \<Rightarrow> int" where
  "level_int l = (case l of LevelDebug \<Rightarrow> - 4 | LevelInfo \<Rightarrow> 0 | LevelWarn \<Rightarrow> 4 | LevelError \<Rightarrow> 8)"

definition NewMinLevelHandler :: "('h, 'out) slog_handler \<Rightarrow> ('h \<times> log_level, 'out) slog_handler" where
  "NewMinLevelHandler H =
     \<lparr>hd_Enabled = (\<lambda>(h, floor) l. if level_int l < level_int floor then False else hd_Enabled H h l),
      hd_Handle = (\<lambda>(h, floor) r. if level_int (ln_level r) < level_int floor then hd_nothing H else hd_Handle H h r),
      hd_WithAttrs = (\<lambda>as (h, floor). (hd_WithAttrs H as h, floor)),
      hd_WithGroup = (\<lambda>n (h, floor). (hd_WithGroup H n h, floor)),
      hd_nothing = hd_nothing H\<rparr>"

datatype derivation = DeriveAttrs "(string \<times> string) list" | DeriveGroup string

definition derive :: "('h, 'out) slog_handler \<Rightarrow> derivation \<Rightarrow> 'h \<Rightarrow> 'h" where
  "derive H d h = (case d of DeriveAttrs as \<Rightarrow> hd_WithAttrs H as h | DeriveGroup n \<Rightarrow> hd_WithGroup H n h)"

text \<open>The logger given to the actor library: warnings and errors of the process's handler.\<close>

definition protoActorLogger :: "('h, 'out) slog_handler \<Rightarrow> 'h \<Rightarrow> string \<Rightarrow> 'h \<times> log_level" where
  "protoActorLogger H h systemID =
     derive (NewMinLevelHandler H) (DeriveAttrs [(''system'', systemID)])
       (derive (NewMinLevelHandler H) (DeriveAttrs [(''lib'', ''proto.actor'')]) (h, LevelWarn))"

section \<open>Subscribers of the event stream\<close>

datatype valve = Open | Closing | Closed

record 'm dead_letter =
  dl_PID :: "pid option"
  dl_Message :: "'m delivered"
  dl_Sender :: "pid option"

record cluster_member = cm_Address :: string cm_Kinds :: "string list"

datatype 'm stream_event =
  DeadLetterEvent "'m dead_letter" | ClusterTopology "cluster_member list" "cluster_member list" | OtherEvent

definition pidString :: "(pid \<Rightarrow> string) \<Rightarrow> pid option \<Rightarrow> string" where
  "pidString pidText p = (case p of None \<Rightarrow> [] | Some q \<Rightarrow> pidText q)"

text \<open>The library's throttle is \<open>throttle\<close>, on its own state; \<open>ignored\<close> tells the messages marked
  \<open>IgnoreDeadLetterLogging\<close>.\<close>

definition deadLetterLogHandler ::
  "(pid \<Rightarrow> string) \<Rightarrow> ('m delivered \<Rightarrow> bool) \<Rightarrow> ('t \<Rightarrow> valve \<times> 't) \<Rightarrow> 'm stream_event \<Rightarrow> 't \<Rightarrow> log_line list \<times> 't" where
  "deadLetterLogHandler pidText ignored throttle evt t =
     (case evt of
        DeadLetterEvent dl \<Rightarrow>
          if ignored (dl_Message dl) then ([], t)
          else (case throttle t of (v, t') \<Rightarrow>
            if v \<noteq> Open then ([], t')
            else ([\<lparr>ln_level = LevelWarn, ln_event = ''server.deadletter.observed'',
                    ln_attrs = [(''pid'', pidString pidText (dl_PID dl)), (''msg_type'', typeName (dl_Message dl))] @
                      (case dl_Sender dl of None \<Rightarrow> [] | Some p \<Rightarrow> [(''sender'', pidText p)])\<rparr>], t'))
      | _ \<Rightarrow> ([], t))"

text \<open>A member line: the event, the address and the kinds.\<close>

definition topologyLogHandler :: "'m stream_event \<Rightarrow> (string \<times> string \<times> string list) list" where
  "topologyLogHandler evt =
     (case evt of
        ClusterTopology joined left \<Rightarrow>
          map (\<lambda>m. (''server.cluster.member_joined'', cm_Address m, cm_Kinds m)) joined @
          map (\<lambda>m. (''server.cluster.member_left'', cm_Address m, cm_Kinds m)) left
      | _ \<Rightarrow> [])"

section \<open>What the log says\<close>

definition given :: "'m obs list \<Rightarrow> 'm envelope list" where
  "given tr = concat (map (\<lambda>x. case x of Given e \<Rightarrow> [e] | Logged _ \<Rightarrow> []) tr)"

definition logged :: "'m obs list \<Rightarrow> log_line list" where
  "logged tr = concat (map (\<lambda>x. case x of Given _ \<Rightarrow> [] | Logged l \<Rightarrow> [l]) tr)"

definition lifecycle :: "'m delivered \<Rightarrow> bool" where
  "lifecycle m \<longleftrightarrow> m \<in> {ActorStarted, ActorStopping, ActorRestarting, ActorStopped}"

lemma emitGrain_shape:
  "\<exists>event. emitGrain ty self nxt env s =
     (let l = grain_line event ty self (typeName (en_message env)) in
      if lifecycle (en_message env) then line_first l (nxt env s) else line_after (\<lambda>_. l) (nxt env s))"
  by (cases "en_message env") (auto simp: emitGrain_def lifecycle_def Let_def typeName_def goType_def trim_pointer_def)

lemma dropWhile_none: "c \<notin> set t \<Longrightarrow> dropWhile (\<lambda>x. x \<noteq> c) (t @ c # s) = c # s"
  by (induction t) auto

lemma before_last_append: "c \<notin> set t \<Longrightarrow> before_last c (s @ c # t) = s"
  using dropWhile_none [of c "rev t" "rev s"] by (simp add: before_last_def)

text \<open>A PID of the partition activator: the identity and the suffix the runtime makes unique.\<close>

definition activation :: "string \<Rightarrow> string \<Rightarrow> string \<Rightarrow> pid" where
  "activation node identity uniq = \<lparr>pid_address = node, pid_id = activatorPrefix @ identity @ CHR ''$'' # uniq\<rparr>"

lemma grainID_activation: "CHR ''$'' \<notin> set uniq \<Longrightarrow> grainID (Some (activation node identity uniq)) = identity"
  by (simp add: grainID_def activation_def before_last_append)

definition attr :: "string \<Rightarrow> log_line \<Rightarrow> string option" where
  "attr k l = map_of (ln_attrs l) k"

lemma attr_grain_line:
  "attr ''grain_id'' (grain_line event ty self t) = Some (grainID self)"
  "attr ''msg_type'' (grain_line event ty self t) = Some t"
  by (simp_all add: attr_def grain_line_def)

text \<open>The log of a grain is exact. Around any handler, the logging middleware hands on the same envelope and
  returns the handler's state and panic; it writes one line for a lifecycle message, before the handler
  runs, and one for an ordinary message, after it, unless the handler panicked; and the line of an
  activation carries the id the handlers themselves log, whatever the identity is.\<close>

theorem grain_log_is_exact:
  assumes "CHR ''$'' \<notin> set uniq" and "nxt env s = (s', tr, panicked)"
  shows "\<exists>l. attr ''grain_id'' l = Some identity \<and> attr ''msg_type'' l = Some (typeName (en_message env))
    \<and> GrainLogging ty (Some (activation node identity uniq)) nxt env s
        = (s', if lifecycle (en_message env) then Logged l # tr else if panicked then tr else tr @ [Logged l], panicked)"
proof -
  let ?self = "Some (activation node identity uniq)"
  obtain event where "emitGrain ty ?self nxt env s =
     (let l = grain_line event ty ?self (typeName (en_message env)) in
      if lifecycle (en_message env) then line_first l (nxt env s) else line_after (\<lambda>_. l) (nxt env s))"
    using emitGrain_shape[of ty ?self nxt env s] by (rule exE)
  then show ?thesis
    using assms grainID_activation[OF assms(1)] attr_grain_line[of event ty ?self "typeName (en_message env)"]
    by (intro exI[of _ "grain_line event ty ?self (typeName (en_message env))"])
       (simp add: GrainLogging_def Let_def line_first_def line_after_def)
qed

definition demo_envelope :: "'m delivered \<Rightarrow> 'm envelope" where
  "demo_envelope m = \<lparr>en_header = [], en_message = m, en_sender = None\<rparr>"

theorem grain_log_is_exact_witness:
  "\<exists>l. attr ''grain_id'' l = Some ''team$alpha'' \<and> attr ''msg_type'' l = Some ''cluster.GrainRequest''
    \<and> GrainLogging ''RoomGrain'' (Some (activation ''n1:1'' ''team$alpha'' ''1a'')) (\<lambda>e n. (Suc n, [Given e], False))
        (demo_envelope (Plain ''*cluster.GrainRequest'' ())) 0
        = (1, [Given (demo_envelope (Plain ''*cluster.GrainRequest'' ())), Logged l], False)"
  using grain_log_is_exact[of "''1a''" "\<lambda>e n. (Suc n, [Given e], False)"
    "demo_envelope (Plain ''*cluster.GrainRequest'' ())" 0 1
    "[Given (demo_envelope (Plain ''*cluster.GrainRequest'' ()))]" False "''team$alpha''" "''RoomGrain''" "''n1:1''"]
  by (simp add: demo_envelope_def lifecycle_def typeName_def goType_def trim_pointer_def)

text \<open>C15. A closed connection leaves its user. The runtime reports the end of a watched process as a system
  message, which the generated dispatch discards: on its own the User grain would keep the connection. With
  the middlewares it is installed with, the grain removes exactly the process that ended, without a panic,
  and the log names the message the grain was given.\<close>

theorem ended_connection_is_removed:
  assumes "conn_inv (ug_state g)" and "plain_pid p" and "en_message env = ActorTerminated p why"
  shows "user_actor others env g = (g, [], False)
    \<and> (\<exists>g' l. user_receiver others self env g
          = (g', [Given (env\<lparr>en_message := WatchedEnd p why\<rparr>), Logged l], False)
        \<and> connected (ug_state g') = connected (ug_state g) - {p} \<and> conn_inv (ug_state g')
        \<and> attr ''msg_type'' l = Some ''middleware.WatchedTerminated'' \<and> attr ''grain_id'' l = Some (grainID self))"
  using assms removeConnection_conn[OF assms(1), of p]
  by (auto simp: user_actor_def user_receiver_def middleware_chain_def TranslateTerminated_def GrainLogging_def emitGrain_def
      dispatch_arm_def line_after_def ReceiveDefault_def typeName_def goType_def trim_pointer_def attr_def grain_line_def)

definition demo_watcher :: user_grain where
  "demo_watcher = demo_ug\<lparr>ug_state := addConnection (demo_pid ''c1'') newUserState\<rparr>"

theorem ended_connection_is_removed_witness:
  "\<exists>g' l. user_receiver (\<lambda>_ g. (g, False)) None (demo_envelope (ActorTerminated (demo_pid ''c1'') 1)) demo_watcher
        = (g', [Given (demo_envelope (WatchedEnd (demo_pid ''c1'') 1)), Logged l], False)
      \<and> connected (ug_state g') = {}"
proof -
  have p: "plain_pid (demo_pid ''c1'')" by (simp add: plain_pid_def demo_pid_def)
  have s: "ug_state demo_watcher = addConnection (demo_pid ''c1'') newUserState" by (simp add: demo_watcher_def)
  have "conn_inv (ug_state demo_watcher)" "connected (ug_state demo_watcher) = {demo_pid ''c1''}"
    using addConnection_conn[OF newUserState_conn(1) p] by (simp_all add: s newUserState_conn)
  then show ?thesis
    using ended_connection_is_removed[of demo_watcher "demo_pid ''c1''" "demo_envelope (ActorTerminated (demo_pid ''c1'') 1)" 1
        "\<lambda>_ g. (g, False)" None] p
    by (fastforce simp: demo_envelope_def)
qed

section \<open>Supervision\<close>

lemma line_attrs: "ln_attrs (logAt d event attrs) = attrs" by (simp add: logAt_def)

text \<open>A child's failure is logged and then handled. The two supervisors of the program are built, so the
  guard that would panic at start is never taken; each failure gives one line and exactly the effect of the
  library strategy, called with the failure unchanged: restart, logged as a warning, for a fan-out worker;
  stop, logged as an error, for a connection. Of a panic value that is not an error, a string or a Stringer
  the line holds only the type.\<close>

theorem failures_logged_then_handled:
  "\<exists>cfg. newFanoutSupervisor pidText restarting = Ok cfg
    \<and> (\<exists>l. HandleFailure cfg child r m s = Some (l, restarting child r m s) \<and> ln_level l = LevelWarn
        \<and> attr ''directive'' l = Some ''RestartDirective'' \<and> attr ''error'' l = Some (errText r))"
  "\<exists>cfg. newConnectionSupervisor pidText oneForOne = Ok cfg
    \<and> (\<exists>l. HandleFailure cfg child r m' s = Some (l, oneForOne (\<lambda>_. StopDirective) child r m' s) \<and> ln_level l = LevelError
        \<and> attr ''directive'' l = Some ''StopDirective'' \<and> attr ''error'' l = Some (errText r))"
  "errText (OtherReason ty) = ty"
proof -
  have ev: "trim_space ''room.fanout.supervision'' = ''room.fanout.supervision''"
      "trim_space ''connection.supervision'' = ''connection.supervision''"
    by (rule trim_space_ascii_id; simp add: is_space_def)+
  show "\<exists>cfg. newFanoutSupervisor pidText restarting = Ok cfg
    \<and> (\<exists>l. HandleFailure cfg child r m s = Some (l, restarting child r m s) \<and> ln_level l = LevelWarn
        \<and> attr ''directive'' l = Some ''RestartDirective'' \<and> attr ''error'' l = Some (errText r))"
    using ev(1)
    by (simp add: newFanoutSupervisor_def NewLoggingStrategy_def HandleFailure_def line_attrs attr_def logAt_def
        classifyFanoutFailure_def directive_string_def fanoutAttrs_def map_of_append split: delivered.splits fanout_payload_msg.splits)
  show "\<exists>cfg. newConnectionSupervisor pidText oneForOne = Ok cfg
    \<and> (\<exists>l. HandleFailure cfg child r m' s = Some (l, oneForOne (\<lambda>_. StopDirective) child r m' s) \<and> ln_level l = LevelError
        \<and> attr ''directive'' l = Some ''StopDirective'' \<and> attr ''error'' l = Some (errText r))"
    using ev(2)
    by (simp add: newConnectionSupervisor_def NewLoggingStrategy_def HandleFailure_def line_attrs attr_def logAt_def
        classifyConnectionFailure_def directive_string_def connectionAttrs_def)
qed (simp add: errText_def)

section \<open>Levels and dead letters\<close>

lemma derive_step: "derive (NewMinLevelHandler H) d (h, floor) = (derive H d h, floor)"
  by (cases d) (simp_all add: derive_def NewMinLevelHandler_def)

lemma derive_floor:
  "fold (derive (NewMinLevelHandler H)) ds (h, floor) = (fold (derive H) ds h, floor)"
  by (induction ds arbitrary: h) (simp_all add: derive_step)

text \<open>The floor holds for every derived logger. However attributes and groups are added to it, a handler with
  a floor drops a record below the floor and hands every other one to the inner handler with the same
  attributes and groups; in particular the actor library's logger writes nothing below a warning.\<close>

theorem floor_survives_derivation:
  "hd_Handle (NewMinLevelHandler H) (fold (derive (NewMinLevelHandler H)) ds (h, floor)) r
     = (if level_int (ln_level r) < level_int floor then hd_nothing H else hd_Handle H (fold (derive H) ds h) r)"
  "ln_level r \<in> {LevelDebug, LevelInfo} \<Longrightarrow> hd_Handle (NewMinLevelHandler H) (protoActorLogger H h systemID) r = hd_nothing H"
proof -
  show "hd_Handle (NewMinLevelHandler H) (fold (derive (NewMinLevelHandler H)) ds (h, floor)) r
     = (if level_int (ln_level r) < level_int floor then hd_nothing H else hd_Handle H (fold (derive H) ds h) r)"
    by (simp add: derive_floor) (simp add: NewMinLevelHandler_def)
  show "hd_Handle (NewMinLevelHandler H) (protoActorLogger H h systemID) r = hd_nothing H"
    if "ln_level r \<in> {LevelDebug, LevelInfo}"
    using that by (auto simp: protoActorLogger_def derive_def NewMinLevelHandler_def level_int_def)
qed

text \<open>The dead-letter line tells nothing of the message but its type.\<close>

lemma dead_letter_content_free:
  assumes "ignored (Plain t a) = ignored (Plain t b)" and "dl_Message d = Plain t a"
  shows "deadLetterLogHandler pidText ignored throttle (DeadLetterEvent (d\<lparr>dl_Message := Plain t b\<rparr>)) th
    = deadLetterLogHandler pidText ignored throttle (DeadLetterEvent d) th"
  using assms by (cases "throttle th") (simp add: deadLetterLogHandler_def typeName_def goType_def)

end
