(* ===== verification/Process.thy ===== *)
theory Process
  imports Delivery "HOL-Library.Multiset"
begin

text \<open>
  The life of the two server processes: \<open>main\<close>, \<open>run\<close> and \<open>serve\<close> of \<open>cmd/gateway/main.go\<close> and
  \<open>cmd/backend/main.go\<close>. A run is its result and the trace of what it opens, serves and closes. A \<open>defer\<close>
  is \<open>hold\<close>: whatever the rest of the function does, the release comes after it, so that a failed start
  releases what was opened before it and nothing else. Values that are built and only passed on (directories,
  services, handlers, server records) leave no trace.
\<close>

section \<open>Traces\<close>

datatype resource = DBPool | IDLease | Telemetry | ClusterNode | TopologyLog | DeadLetterLog | GCCron | SignalWatch
  | TempDir | DocsListener | PreviewChild

datatype act =
  Acquire resource | Release resource
  | StartClient | StartMember
  | Listen string | Drain string
  | BuildOpenAPI string | ServeDocs | ShutdownDocs

type_synonym 'e run = "'e option \<times> act list"

definition fail :: "'e \<Rightarrow> 'e run" where "fail e = (Some e, [])"

definition doing :: "act list \<Rightarrow> 'e run \<Rightarrow> 'e run" where
  "doing as r = (case r of (e, tr) \<Rightarrow> (e, as @ tr))"

definition hold :: "resource \<Rightarrow> 'e run \<Rightarrow> 'e run" where
  "hold x r = (case r of (e, tr) \<Rightarrow> (e, Acquire x # tr @ [Release x]))"

text \<open>A call that may fail before anything is opened.\<close>

definition try_call :: "('d, 'a) result \<Rightarrow> ('d \<Rightarrow> 'e) \<Rightarrow> ('a \<Rightarrow> 'e run) \<Rightarrow> 'e run" where
  "try_call res err k = (case res of Inl d \<Rightarrow> fail (err d) | Inr a \<Rightarrow> k a)"

section \<open>Serving\<close>

datatype run_error =
  RunPool string | RunManager string | RunLease string | RunSweeper string
  | RunVerification delivery_error | RunSender delivery_error | RunTelemetry string
  | RunCron cron_error | RunServe string | RunShutdown "(string \<times> string) multiset"

text \<open>How serving ends: one server returns first, with an error unless it was closed, or a signal arrives and
  each server is drained, which can fail. The servers are drained at the same time; the errors are
  joined in whatever order they come.\<close>

datatype serve_end = ServerEnded "string option" | SignalReceived "string \<Rightarrow> string option"

definition drain_errors :: "(string \<Rightarrow> string option) \<Rightarrow> string list \<Rightarrow> (string \<times> string) list" where
  "drain_errors f addrs = concat (map (\<lambda>a. case f a of None \<Rightarrow> [] | Some e \<Rightarrow> [(a, e)]) addrs)"

definition serve_until_done :: "string list \<Rightarrow> serve_end \<Rightarrow> run_error run" where
  "serve_until_done addrs e =
     hold SignalWatch (doing (map Listen addrs)
       (case e of
          ServerEnded err \<Rightarrow> (map_option RunServe err, [])
        | SignalReceived f \<Rightarrow>
            (if drain_errors f addrs = [] then None else Some (RunShutdown (mset (drain_errors f addrs))), map Drain addrs)))"

section \<open>The gateway process\<close>

record process_env =
  pe_pool :: "(string, unit) result"
  pe_manager :: "(string, unit) result"
  pe_lease :: "(string, unit) result"
  pe_telemetry :: "(string, unit) result"
  pe_sweeper :: "(string, unit) result"
  pe_serve :: serve_end

definition gateway_serving ::
  "boot_lib \<Rightarrow> process_env \<Rightarrow> gateway_config \<Rightarrow> run_error run" where
  "gateway_serving L pe cfg =
     hold ClusterNode (hold TopologyLog (hold DeadLetterLog (doing [StartClient]
       (let servers = serve_until_done [gc_listenAddr cfg, gc_internalListenAddr cfg] (pe_serve pe) in
        if gc_gcSchedule cfg = [] then servers
        else try_call (startPendingAccountGCCron L (gc_gcSchedule cfg) (gc_internalListenAddr cfg)) RunCron
               (\<lambda>_. hold GCCron servers)))))"

definition run_gateway ::
  "boot_lib \<Rightarrow> text_lib \<Rightarrow> (string \<Rightarrow> string) \<Rightarrow> (string \<Rightarrow> string) \<Rightarrow> process_env \<Rightarrow> gateway_config \<Rightarrow> run_error run" where
  "run_gateway L T lower env pe cfg =
     try_call (pe_pool pe) RunPool (\<lambda>_. hold DBPool (
     try_call (pe_manager pe) RunManager (\<lambda>_.
     try_call (pe_lease pe) RunLease (\<lambda>_. hold IDLease (
     try_call (ConfigFromEnv T lower env) RunVerification (\<lambda>verifyCfg.
     try_call (NewSender verifyCfg) RunSender (\<lambda>_.
     if gc_metrics cfg
     then try_call (pe_telemetry pe) RunTelemetry (\<lambda>_. hold Telemetry (gateway_serving L pe cfg))
     else gateway_serving L pe cfg)))))))"

text \<open>\<open>main\<close>: the exit code and what was done before it.\<close>

definition gateway_main ::
  "boot_lib \<Rightarrow> text_lib \<Rightarrow> (string \<Rightarrow> string) \<Rightarrow> (string \<Rightarrow> string) \<Rightarrow> process_env \<Rightarrow> string list \<Rightarrow> int \<times> act list" where
  "gateway_main L T lower env pe args =
     (case parse_gateway L (env ''BLABBY_DATABASE_URL'') args of
        Inl _ \<Rightarrow> (2, [])
      | Inr (cfg, dbCfg, cc) \<Rightarrow>
          (case run_gateway L T lower env pe cfg of (e, tr) \<Rightarrow> (if e = None then 0 else 1, tr)))"

section \<open>The backend process\<close>

definition serve_metrics :: "string \<Rightarrow> serve_end \<Rightarrow> run_error run" where
  "serve_metrics listen e =
     (if listen = [] then hold SignalWatch (None, [])
      else doing [Listen listen] (hold SignalWatch
        (case e of
           ServerEnded err \<Rightarrow> (map_option RunServe err, [])
         | SignalReceived f \<Rightarrow> (map_option (\<lambda>x. RunShutdown {#(listen, x)#}) (f listen), [Drain listen]))))"

definition backend_serving :: "process_env \<Rightarrow> string \<Rightarrow> run_error run" where
  "backend_serving pe listen =
     hold ClusterNode (hold TopologyLog (hold DeadLetterLog (doing [StartMember] (serve_metrics listen (pe_serve pe)))))"

definition run_backend :: "process_env \<Rightarrow> string \<Rightarrow> run_error run" where
  "run_backend pe listen =
     (let rest =
        try_call (pe_pool pe) RunPool (\<lambda>_. hold DBPool (
        try_call (pe_manager pe) RunManager (\<lambda>_.
        try_call (pe_lease pe) RunLease (\<lambda>_. hold IDLease (
        try_call (pe_sweeper pe) RunSweeper (\<lambda>_. backend_serving pe listen))))))
      in if listen = [] then rest
         else try_call (pe_telemetry pe) RunTelemetry (\<lambda>_. hold Telemetry rest))"

definition backend_main :: "boot_lib \<Rightarrow> (string \<Rightarrow> string) \<Rightarrow> process_env \<Rightarrow> string list \<Rightarrow> int \<times> act list" where
  "backend_main L env pe args =
     (case parse_backend L (env ''BLABBY_DATABASE_URL'') args of
        Inl _ \<Rightarrow> (2, [])
      | Inr (listen, dbCfg, cc) \<Rightarrow> (case run_backend pe listen of (e, tr) \<Rightarrow> (if e = None then 0 else 1, tr)))"

section \<open>The discipline\<close>

text \<open>A trace is run on the stack of what is held: opening needs what it builds on, a release must be of what
  was opened last, and requests are served and drained while everything a handler uses is there.\<close>

definition needs :: "act \<Rightarrow> resource list" where
  "needs a =
     (case a of
        Acquire IDLease \<Rightarrow> [DBPool]
      | Acquire ClusterNode \<Rightarrow> [DBPool, IDLease]
      | Acquire GCCron \<Rightarrow> [ClusterNode]
      | StartClient \<Rightarrow> [ClusterNode, TopologyLog, DeadLetterLog]
      | StartMember \<Rightarrow> [ClusterNode, TopologyLog, DeadLetterLog]
      | Listen _ \<Rightarrow> [DBPool, IDLease, ClusterNode]
      | Drain _ \<Rightarrow> [DBPool, IDLease, ClusterNode, SignalWatch]
      | _ \<Rightarrow> [])"

fun held :: "resource list \<Rightarrow> act list \<Rightarrow> resource list option" where
  "held st [] = Some st"
| "held st (Acquire x # tr) = (if x \<notin> set st \<and> set (needs (Acquire x)) \<subseteq> set st then held (x # st) tr else None)"
| "held st (Release x # tr) = (if st \<noteq> [] \<and> hd st = x then held (tl st) tr else None)"
| "held st (a # tr) = (if set (needs a) \<subseteq> set st then held st tr else None)"

text \<open>Every address that is listened on is drained later in the trace.\<close>

fun drained :: "act list \<Rightarrow> bool" where
  "drained [] \<longleftrightarrow> True"
| "drained (Listen a # tr) \<longleftrightarrow> Drain a \<in> set tr \<and> drained tr"
| "drained (_ # tr) \<longleftrightarrow> drained tr"

definition disciplined :: "resource list \<Rightarrow> 'e run \<Rightarrow> bool" where
  "disciplined st r \<longleftrightarrow> held st (snd r) = Some st"

lemma held_append: "held st (xs @ ys) = (case held st xs of None \<Rightarrow> None | Some st' \<Rightarrow> held st' ys)"
  by (induction st xs rule: held.induct) auto

lemma disciplined_fail: "disciplined st (fail e)"
  by (simp add: disciplined_def fail_def)

lemma disciplined_hold:
  "x \<notin> set st \<Longrightarrow> set (needs (Acquire x)) \<subseteq> set st \<Longrightarrow> disciplined (x # st) r \<Longrightarrow> disciplined st (hold x r)"
  by (auto simp: disciplined_def hold_def held_append split: prod.splits)

lemma disciplined_try: "(\<And>a. res = Ok a \<Longrightarrow> disciplined st (k a)) \<Longrightarrow> disciplined st (try_call res err k)"
  by (auto simp: try_call_def disciplined_fail split: sum.splits)

lemma disciplined_doing: "held st as = Some st \<Longrightarrow> disciplined st r \<Longrightarrow> disciplined st (doing as r)"
  by (auto simp: disciplined_def doing_def held_append split: prod.splits)

lemmas disciplined_rules = disciplined_try disciplined_hold disciplined_doing disciplined_fail

definition running :: "resource list" where "running = [DBPool, IDLease, ClusterNode]"

lemma held_servers:
  "set running \<subseteq> set st \<Longrightarrow> held st (map Listen addrs) = Some st"
  "set running \<subseteq> set st \<Longrightarrow> SignalWatch \<in> set st \<Longrightarrow> held st (map Drain addrs) = Some st"
  by (induction addrs) (simp_all add: needs_def running_def)

lemma disciplined_serve:
  assumes "set running \<subseteq> set st" "SignalWatch \<notin> set st"
  shows "disciplined st (serve_until_done addrs e)"
proof -
  have "set running \<subseteq> set (SignalWatch # st)" using assms by auto
  note h = held_servers[OF this]
  have "disciplined (SignalWatch # st) (case e of
          ServerEnded err \<Rightarrow> (map_option RunServe err, [])
        | SignalReceived f \<Rightarrow>
            (if drain_errors f addrs = [] then None else Some (RunShutdown (mset (drain_errors f addrs))), map Drain addrs))"
    using h by (auto simp: disciplined_def split: serve_end.splits)
  then show ?thesis unfolding serve_until_done_def using h(1) assms(2)
    by (intro disciplined_rules) (simp_all add: needs_def)
qed

lemma disciplined_metrics:
  assumes "set running \<subseteq> set st" "SignalWatch \<notin> set st"
  shows "disciplined st (serve_metrics listen e)"
  using assms
  by (auto simp: serve_metrics_def disciplined_def hold_def doing_def held_append needs_def running_def split: serve_end.splits)

lemma gateway_serving_disciplined:
  assumes "set st \<subseteq> {DBPool, IDLease, Telemetry}" "{DBPool, IDLease} \<subseteq> set st"
  shows "disciplined st (gateway_serving L pe cfg)"
  using assms unfolding gateway_serving_def Let_def
  by (auto simp: needs_def running_def intro!: disciplined_rules disciplined_serve)

lemma run_gateway_disciplined: "disciplined [] (run_gateway L T lower env pe cfg)"
  unfolding run_gateway_def
  by (auto simp: needs_def intro!: disciplined_rules gateway_serving_disciplined)

lemma run_backend_disciplined: "disciplined [] (run_backend pe listen)"
  unfolding run_backend_def backend_serving_def Let_def
  by (auto simp: needs_def running_def intro!: disciplined_rules disciplined_metrics)

section \<open>Draining\<close>

lemma drained_append_quiet: "drained tr \<Longrightarrow> drained (tr @ [Release x])"
  by (induction tr rule: drained.induct) auto

lemma drained_listeners: "(\<And>a. a \<in> set addrs \<Longrightarrow> Drain a \<in> set tr) \<Longrightarrow> drained tr \<Longrightarrow> drained (map Listen addrs @ tr)"
  by (induction addrs) auto

lemma drained_drains: "drained (map Drain addrs)"
  by (induction addrs) auto

lemma drained_hold: "drained (snd r) \<Longrightarrow> drained (snd (hold x r))"
  by (auto simp: hold_def drained_append_quiet split: prod.splits)

lemma drained_try: "(\<And>a. res = Ok a \<Longrightarrow> drained (snd (k a))) \<Longrightarrow> drained (snd (try_call res err k))"
  by (auto simp: try_call_def fail_def split: sum.splits)

lemma drained_start:
  "drained (snd r) \<Longrightarrow> drained (snd (doing [StartClient] r))"
  "drained (snd r) \<Longrightarrow> drained (snd (doing [StartMember] r))"
  by (auto simp: doing_def split: prod.splits)

lemma drained_serve: "drained (snd (serve_until_done addrs (SignalReceived f)))"
  unfolding serve_until_done_def
  by (rule drained_hold) (simp add: doing_def drained_listeners drained_drains)

lemma drained_metrics: "drained (snd (serve_metrics listen (SignalReceived f)))"
  by (simp add: serve_metrics_def hold_def doing_def)

lemmas drained_rules = drained_try drained_hold drained_start drained_serve drained_metrics

lemma run_gateway_drained: "pe_serve pe = SignalReceived f \<Longrightarrow> drained (snd (run_gateway L T lower env pe cfg))"
  unfolding run_gateway_def gateway_serving_def Let_def by (auto intro!: drained_rules)

lemma run_backend_drained: "pe_serve pe = SignalReceived f \<Longrightarrow> drained (snd (run_backend pe listen))"
  unfolding run_backend_def backend_serving_def Let_def by (auto intro!: drained_rules)

section \<open>What an exit code says\<close>

lemma try_call_done: "fst (try_call res err k) = None \<longleftrightarrow> (\<exists>a. res = Ok a \<and> fst (k a) = None)"
  by (cases res) (simp_all add: try_call_def fail_def)

lemma try_call_trace: "res = Ok a \<Longrightarrow> snd (try_call res err k) = snd (k a)"
  by (simp add: try_call_def)

lemma hold_parts: "fst (hold x r) = fst r" "set (snd (hold x r)) = {Acquire x, Release x} \<union> set (snd r)"
  by (cases r, auto simp: hold_def)+

lemma doing_parts: "fst (doing as r) = fst r" "set (snd (doing as r)) = set as \<union> set (snd r)"
  by (cases r, auto simp: doing_def)+

lemma served_and_drained:
  assumes "fst (serve_until_done addrs e) = None" and "a \<in> set addrs"
  shows "Listen a \<in> set (snd (serve_until_done addrs e))"
    and "e = SignalReceived f \<Longrightarrow> f a = None \<and> Drain a \<in> set (snd (serve_until_done addrs e))"
proof -
  show "Listen a \<in> set (snd (serve_until_done addrs e))"
    using assms(2) by (simp add: serve_until_done_def hold_parts doing_parts)
  assume e: "e = SignalReceived f"
  have "drain_errors f addrs = []" using assms(1) by (auto simp: serve_until_done_def hold_parts doing_parts e split: if_splits)
  then have "f a = None" using assms(2) by (force simp: drain_errors_def split: option.splits)
  then show "f a = None \<and> Drain a \<in> set (snd (serve_until_done addrs e))"
    using assms(2) by (simp add: serve_until_done_def hold_parts doing_parts e)
qed

lemma gateway_serving_done:
  assumes "fst (gateway_serving L pe cfg) = None"
  shows "fst (serve_until_done [gc_listenAddr cfg, gc_internalListenAddr cfg] (pe_serve pe)) = None"
    and "set (snd (serve_until_done [gc_listenAddr cfg, gc_internalListenAddr cfg] (pe_serve pe))) \<subseteq> set (snd (gateway_serving L pe cfg))"
  using assms
  by (auto simp: gateway_serving_def Let_def hold_parts doing_parts try_call_done try_call_trace split: if_splits)

lemma run_gateway_done:
  assumes "fst (run_gateway L T lower env pe cfg) = None"
  shows "fst (gateway_serving L pe cfg) = None"
    and "set (snd (gateway_serving L pe cfg)) \<subseteq> set (snd (run_gateway L T lower env pe cfg))"
  using assms
  by (auto simp: run_gateway_def hold_parts try_call_done try_call_trace split: if_splits)

text \<open>A gateway that exits with 0 after a signal has served and drained both its listeners without an error;
  one that exits with 2 has opened nothing.\<close>

lemma gateway_exit_codes:
  assumes "gateway_main L T lower env pe args = (code, tr)" and "pe_serve pe = SignalReceived f"
  shows "(code = 2 \<longrightarrow> tr = []) \<and> (code = 0 \<longrightarrow> (\<exists>cfg dc cc. parse_gateway L (env ''BLABBY_DATABASE_URL'') args = Ok (cfg, dc, cc)
    \<and> (\<forall>a\<in>{gc_listenAddr cfg, gc_internalListenAddr cfg}. Listen a \<in> set tr \<and> Drain a \<in> set tr \<and> f a = None)))"
proof (cases "parse_gateway L (env ''BLABBY_DATABASE_URL'') args")
  case Inl then show ?thesis using assms(1) by (simp add: gateway_main_def)
next
  case (Inr b)
  obtain cfg dc cc where b: "b = (cfg, dc, cc)" by (cases b)
  obtain e where r: "run_gateway L T lower env pe cfg = (e, tr)" and code: "code = (if e = None then 0 else 1)"
    using assms(1) Inr by (auto simp: gateway_main_def b split: prod.splits)
  have "Listen a \<in> set tr \<and> Drain a \<in> set tr \<and> f a = None"
    if "e = None" "a \<in> {gc_listenAddr cfg, gc_internalListenAddr cfg}" for a
  proof -
    have ok: "fst (run_gateway L T lower env pe cfg) = None" using r that(1) by simp
    have g: "fst (gateway_serving L pe cfg) = None" "set (snd (gateway_serving L pe cfg)) \<subseteq> set tr"
      using run_gateway_done[OF ok] r by simp_all
    show ?thesis
      using served_and_drained(1)[OF gateway_serving_done(1)[OF g(1)], of a]
        served_and_drained(2)[OF gateway_serving_done(1)[OF g(1)] _ assms(2), of a]
        gateway_serving_done(2)[OF g(1)] g(2) that(2)
      by auto
  qed
  then show ?thesis using Inr by (auto simp: code b split: if_splits)
qed

section \<open>What a process guarantees\<close>

text \<open>C27. However a server process ends, it cleans up in order. For every command line, environment and outcome
  of every call on the way, a failed start included: what was opened is released exactly once, in the
  reverse order, and nothing else; the worker lease is taken and given back while the pool is open; and
  servers listen and drain only while the pool, the lease and the cluster node their handlers use are
  held. When a signal ended the serving, every address that was listened on is drained afterwards, hence
  before any of these is released; and a gateway that then exits with 0 has listened on both its
  addresses and drained both without an error.\<close>

theorem processes_release_in_order:
  "held [] (snd (gateway_main L T lower env pe args)) = Some []
   \<and> held [] (snd (backend_main L env' pe' args')) = Some []
   \<and> (pe_serve pe = SignalReceived f \<longrightarrow>
        drained (snd (gateway_main L T lower env pe args))
        \<and> (fst (gateway_main L T lower env pe args) = 0 \<longrightarrow>
            (\<exists>cfg dc cc. parse_gateway L (env ''BLABBY_DATABASE_URL'') args = Ok (cfg, dc, cc)
              \<and> (\<forall>a\<in>{gc_listenAddr cfg, gc_internalListenAddr cfg}.
                    Listen a \<in> set (snd (gateway_main L T lower env pe args)) \<and> f a = None))))
   \<and> (pe_serve pe' = SignalReceived f \<longrightarrow> drained (snd (backend_main L env' pe' args')))"
proof (intro conjI impI)
  show "held [] (snd (gateway_main L T lower env pe args)) = Some []"
    using run_gateway_disciplined by (auto simp: gateway_main_def disciplined_def split: sum.splits prod.splits) (metis snd_conv)
  show "held [] (snd (backend_main L env' pe' args')) = Some []"
    using run_backend_disciplined by (auto simp: backend_main_def disciplined_def split: sum.splits prod.splits) (metis snd_conv)
  show "drained (snd (gateway_main L T lower env pe args))" if "pe_serve pe = SignalReceived f"
    using run_gateway_drained[OF that] by (auto simp: gateway_main_def split: sum.splits prod.splits) (metis snd_conv)
  show "drained (snd (backend_main L env' pe' args'))" if "pe_serve pe' = SignalReceived f"
    using run_backend_drained[OF that] by (auto simp: backend_main_def split: sum.splits prod.splits) (metis snd_conv)
  show "\<exists>cfg dc cc. parse_gateway L (env ''BLABBY_DATABASE_URL'') args = Ok (cfg, dc, cc)
              \<and> (\<forall>a\<in>{gc_listenAddr cfg, gc_internalListenAddr cfg}.
                    Listen a \<in> set (snd (gateway_main L T lower env pe args)) \<and> f a = None)"
    if "pe_serve pe = SignalReceived f" "fst (gateway_main L T lower env pe args) = 0"
  proof -
    have "gateway_main L T lower env pe args = (0, snd (gateway_main L T lower env pe args))"
      using that(2) by (metis prod.collapse)
    from gateway_exit_codes[OF this that(1)] show ?thesis by blast
  qed
qed

text \<open>A gateway started without flags, every call of which succeeds, and interrupted.\<close>

definition demo_process :: process_env where
  "demo_process = \<lparr>pe_pool = Ok (), pe_manager = Ok (), pe_lease = Ok (), pe_telemetry = Ok (), pe_sweeper = Ok (),
     pe_serve = SignalReceived (\<lambda>_. None)\<rparr>"

lemma demo_gateway_run:
  "gateway_main demo_boot T (\<lambda>s. s) (\<lambda>_. []) demo_process [] =
     (0, [Acquire DBPool, Acquire IDLease, Acquire ClusterNode, Acquire TopologyLog, Acquire DeadLetterLog, StartClient,
          Acquire GCCron, Acquire SignalWatch, Listen '':8080'', Listen ''127.0.0.1:9090'',
          Drain '':8080'', Drain ''127.0.0.1:9090'', Release SignalWatch, Release GCCron, Release DeadLetterLog,
          Release TopologyLog, Release ClusterNode, Release IDLease, Release DBPool])"
proof -
  obtain dc where p: "parse_gateway demo_boot [] [] = Ok (demo_gateway, dc, demo_cluster)"
    using flagless_parse[OF demo_cron trim_defaults(4)] by blast
  obtain tick where t: "startPendingAccountGCCron demo_boot ''@every 1m'' ''127.0.0.1:9090'' = Ok tick"
    by (simp add: startPendingAccountGCCron_def internalJobURL_def split_defaults demo_cron)
  show ?thesis
    by (simp add: gateway_main_def p run_gateway_def demo_process_def try_call_def hold_def doing_def ConfigFromEnv_def
        console_config_def NewSender_def gateway_serving_def demo_gateway_def t serve_until_done_def drain_errors_def trim_defaults)
qed

theorem processes_release_in_order_witness:
  "\<forall>T. drained (snd (gateway_main demo_boot T (\<lambda>s. s) (\<lambda>_. []) demo_process []))
     \<and> Listen '':8080'' \<in> set (snd (gateway_main demo_boot T (\<lambda>s. s) (\<lambda>_. []) demo_process []))"
proof
  fix T
  have "pe_serve demo_process = SignalReceived (\<lambda>_. None)" by (simp add: demo_process_def)
  with processes_release_in_order[of demo_boot T "\<lambda>s. s" "\<lambda>_. []" demo_process "[]"]
  have "drained (snd (gateway_main demo_boot T (\<lambda>s. s) (\<lambda>_. []) demo_process []))" by blast
  then show "drained (snd (gateway_main demo_boot T (\<lambda>s. s) (\<lambda>_. []) demo_process []))
     \<and> Listen '':8080'' \<in> set (snd (gateway_main demo_boot T (\<lambda>s. s) (\<lambda>_. []) demo_process []))"
    by (simp add: demo_gateway_run)
qed

end
