(* ===== verification/DocsPreview.thy ===== *)
theory DocsPreview
  imports Process "HOL-Library.Sublist"
begin

text \<open>
  \<open>cmd/docs-preview/main.go\<close>: the tool that serves the API contracts. It builds the OpenAPI page, starts the
  AsyncAPI preview as a child process, learns the child's address from its output, and serves a landing page
  until a signal arrives or the child ends. The child, the file system and the listener are parameters.
\<close>

section \<open>Finding the address in the child's output\<close>

text \<open>\<open>https?://(?:localhost|127\.0\.0\.1):[0-9]+\?previewServer=[...]+\<close>: the alternatives start with different
  characters and no repetition can give back a character its successor needs, so one pass decides.\<close>

definition url_tail_char :: "char \<Rightarrow> bool" where
  "url_tail_char c \<longleftrightarrow> (CHR ''A'' \<le> c \<and> c \<le> CHR ''Z'') \<or> (CHR ''a'' \<le> c \<and> c \<le> CHR ''z'') \<or> is_digit c
     \<or> c \<in> set ''._~%!$&()*+,;=:@/?+-'' \<or> byte_of c = 39"

definition strip :: "string \<Rightarrow> string \<Rightarrow> string option" where
  "strip p s = (if prefix p s then Some (drop (length p) s) else None)"

definition match_url :: "string \<Rightarrow> string option" where
  "match_url s =
     (case strip ''http'' s of None \<Rightarrow> None | Some s1 \<Rightarrow>
      case strip ''://'' (if s1 \<noteq> [] \<and> hd s1 = CHR ''s'' then tl s1 else s1) of None \<Rightarrow> None | Some s2 \<Rightarrow>
      case (case strip ''localhost:'' s2 of Some r \<Rightarrow> Some r | None \<Rightarrow> strip ''127.0.0.1:'' s2) of None \<Rightarrow> None | Some s3 \<Rightarrow>
      if takeWhile is_digit s3 = [] then None else
      case strip ''?previewServer='' (dropWhile is_digit s3) of None \<Rightarrow> None | Some s4 \<Rightarrow>
      if takeWhile url_tail_char s4 = [] then None
      else Some (take (length s - length (dropWhile url_tail_char s4)) s))"

fun FindString :: "string \<Rightarrow> string" where
  "FindString s =
     (case match_url s of Some m \<Rightarrow> m | None \<Rightarrow> (case s of [] \<Rightarrow> [] | c # cs \<Rightarrow> FindString cs))"

definition contains :: "string \<Rightarrow> string \<Rightarrow> bool" where
  "contains s p \<longleftrightarrow> list_ex (prefix p) (suffixes s)"

text \<open>\<open>ReadString\<close> until it fails: the complete lines, and what goes back into the buffer.\<close>

fun read_lines :: "string \<Rightarrow> string list \<times> string" where
  "read_lines [] = ([], [])"
| "read_lines (c # cs) =
     (case read_lines cs of (ls, rest) \<Rightarrow>
        if c = CHR 10 then ([c] # ls, rest)
        else (case ls of [] \<Rightarrow> ([], c # rest) | l # ls' \<Rightarrow> ((c # l) # ls', rest)))"

definition line_url :: "string \<Rightarrow> string option" where
  "line_url line =
     (if \<not> contains line ''Open this URL in your web browser:'' then None
      else if FindString line \<noteq> [] then Some (FindString line) else None)"

text \<open>One \<open>Write\<close>: the buffer, and the first address published, which is kept.\<close>

definition publish :: "string \<Rightarrow> string option \<Rightarrow> string option" where
  "publish url ready = (case ready of Some u \<Rightarrow> Some u | None \<Rightarrow> Some url)"

definition finder_Write :: "string \<Rightarrow> string \<times> string option \<Rightarrow> string \<times> string option" where
  "finder_Write data st =
     (case st of (buffer, ready) \<Rightarrow>
        case read_lines (buffer @ data) of (ls, rest) \<Rightarrow>
          (rest, fold (\<lambda>l r. case line_url l of None \<Rightarrow> r | Some u \<Rightarrow> publish u r) ls ready))"

lemma read_lines_append:
  "read_lines (s @ t) =
     (case read_lines s of (ls, rest) \<Rightarrow> case read_lines (rest @ t) of (ls', rest') \<Rightarrow> (ls @ ls', rest'))"
proof (induction s)
  case (Cons c s)
  then show ?case by (cases "read_lines s") (auto split: prod.splits list.splits)
qed (simp split: prod.split)

lemma finder_append: "finder_Write (a @ b) st = finder_Write b (finder_Write a st)"
proof (cases st)
  case (Pair buffer ready)
  show ?thesis
    using read_lines_append[of "buffer @ a" b] by (simp add: Pair finder_Write_def split: prod.splits)
qed

lemma finder_empty: "finder_Write [] ([], ready) = ([], ready)"
  by (simp add: finder_Write_def)

lemma finder_chunks: "fold finder_Write ws ([], None) = finder_Write (concat ws) ([], None)"
  by (induction ws rule: rev_induct) (simp_all add: finder_empty finder_append)

lemma publish_kept: "fold (\<lambda>l r. case line_url l of None \<Rightarrow> r | Some u \<Rightarrow> publish u r) ls (Some u) = Some u"
  by (induction ls) (auto simp: publish_def split: option.splits)

lemma publish_first:
  "fold (\<lambda>l r. case line_url l of None \<Rightarrow> r | Some u \<Rightarrow> publish u r) ls None
     = (case List.map_filter line_url ls of [] \<Rightarrow> None | u # _ \<Rightarrow> Some u)"
  by (induction ls) (auto simp: publish_def publish_kept List.map_filter_simps split: option.splits)

text \<open>The address does not depend on how the child's output is cut into writes: after any writes, what was
  published is the first address on a complete line of the whole output, and no later one replaces it.\<close>

theorem address_independent_of_writes:
  "snd (fold finder_Write ws ([], None))
     = (case List.map_filter line_url (fst (read_lines (concat ws))) of [] \<Rightarrow> None | u # _ \<Rightarrow> Some u)"
  by (simp add: finder_chunks finder_Write_def publish_first split: prod.split)

lemma address_found:
  "line_url (''Open this URL in your web browser: http://localhost:8082?previewServer=8082&x'' @ [CHR 10])
     = Some ''http://localhost:8082?previewServer=8082&x''"
  by (simp add: line_url_def contains_def match_url_def strip_def is_digit_def url_tail_char_def)

section \<open>The child process\<close>

text \<open>\<open>select\<close> takes one of the events that happened.\<close>

datatype await_event = URLReady string | ChildDone "string option" | CtxDone string | StartTimeout

datatype docs_run_error =
  DocsTemp string | DocsBuild string | DocsRead string | DocsListen "16 word" string | DocsStart string
| StoppedDuringStartup string | StoppedWithoutURL | DocsCancelled string | DidNotStart
| DocsServe string | PreviewStopped string | PreviewStoppedUnexpectedly

definition awaitURL :: "await_event \<Rightarrow> (docs_run_error, string) result" where
  "awaitURL e =
     (case e of
        URLReady url \<Rightarrow> Ok url
      | ChildDone (Some err) \<Rightarrow> Err (StoppedDuringStartup err)
      | ChildDone None \<Rightarrow> Err StoppedWithoutURL
      | CtxDone err \<Rightarrow> Err (DocsCancelled err)
      | StartTimeout \<Rightarrow> Err DidNotStart)"

text \<open>Ending a child: what is sent to its process group, given whether it has ended already and whether it ends
  within the budget after SIGTERM.\<close>

datatype child_signal = SIGTERM | SIGKILL

definition child_stop :: "bool \<Rightarrow> bool \<Rightarrow> child_signal list" where
  "child_stop ended ends_in_time = (if ended then [] else if ends_in_time then [SIGTERM] else [SIGTERM, SIGKILL])"

datatype command_end = Exited "string option" | Cancelled string bool

definition runCommand :: "(string, unit) result \<Rightarrow> command_end \<Rightarrow> string option \<times> child_signal list" where
  "runCommand start e =
     (case start of
        Inl err \<Rightarrow> (Some err, [])
      | Inr _ \<Rightarrow> (case e of Exited w \<Rightarrow> (w, []) | Cancelled err in_time \<Rightarrow> (Some err, child_stop False in_time)))"

definition buildOpenAPIDocs :: "(string, unit) result \<Rightarrow> command_end \<Rightarrow> (docs_run_error, unit) result" where
  "buildOpenAPIDocs start e = (case fst (runCommand start e) of Some err \<Rightarrow> Err (DocsBuild err) | None \<Rightarrow> Ok ())"

definition listenLocalWith ::
  "(string \<Rightarrow> string \<Rightarrow> (string, 'l) result) \<Rightarrow> 16 word \<Rightarrow> (docs_run_error, 'l) result" where
  "listenLocalWith listen p =
     (case listen ''tcp'' (JoinHostPort ''127.0.0.1'' (format_nat (unat p))) of
        Inl e \<Rightarrow> Err (DocsListen p e) | Inr l \<Rightarrow> Ok l)"

section \<open>Pages\<close>

datatype docs_page = LandingPage | OpenAPIPage string | RedirectTo string

definition newPreviewHandler :: "string \<Rightarrow> string \<Rightarrow> docs_page mux_entry list" where
  "newPreviewHandler openAPIHTML asyncAPIURL =
     [mux_Handle ''GET /{$}'' LandingPage, mux_Handle ''GET /openapi'' (OpenAPIPage openAPIHTML),
      mux_Handle ''GET /asyncapi'' (RedirectTo asyncAPIURL)]"

lemma preview_routes:
  "map_option fst (mux_find (newPreviewHandler html url) ''GET'' [''/'']) = Some LandingPage"
  "map_option fst (mux_find (newPreviewHandler html url) ''HEAD'' [''asyncapi'']) = Some (RedirectTo url)"
  "mux_find (newPreviewHandler html url) ''GET'' [''openapi'', ''/''] = None"
  by (simp_all add: newPreviewHandler_def mux_find_def mux_Handle_def splitMethodPath_def parse_path_def parse_seg_def
      of_method_def lit_child_def wild_child_def multi_child_def)

section \<open>The run\<close>

datatype docs_end = DocsServerEnded "string option" | PreviewEnded "string option" | DocsSignal

definition serve_docs :: "docs_end \<Rightarrow> docs_run_error run" where
  "serve_docs e = doing [ServeDocs]
     (case e of
        DocsServerEnded err \<Rightarrow> (map_option DocsServe err, [])
      | PreviewEnded (Some err) \<Rightarrow> (Some (PreviewStopped err), [ShutdownDocs])
      | PreviewEnded None \<Rightarrow> (Some PreviewStoppedUnexpectedly, [ShutdownDocs])
      | DocsSignal \<Rightarrow> (None, [ShutdownDocs]))"

record docs_env =
  de_temp :: "(string, string) result"
  de_npx :: "(string, unit) result"
  de_build :: command_end
  de_read :: "(string, string) result"
  de_listen :: "string \<Rightarrow> string \<Rightarrow> (string, unit) result"
  de_child :: "(string, unit) result"
  de_await :: await_event
  de_end :: docs_end

definition run_docs :: "docs_env \<Rightarrow> 16 word \<times> 16 word \<Rightarrow> docs_run_error run" where
  "run_docs de cfg =
     try_call (de_temp de) DocsTemp (\<lambda>dir. hold TempDir (doing [BuildOpenAPI (dir @ ''/openapi.html'')] (
     try_call (buildOpenAPIDocs (de_npx de) (de_build de)) id (\<lambda>_.
     try_call (de_read de) DocsRead (\<lambda>html.
     try_call (listenLocalWith (de_listen de) (fst cfg)) id (\<lambda>_. hold DocsListener (
     try_call (de_child de) DocsStart (\<lambda>_. hold PreviewChild (
     try_call (awaitURL (de_await de)) id (\<lambda>url. serve_docs (de_end de)))))))))))"

definition realMain :: "boot_lib \<Rightarrow> docs_env \<Rightarrow> string list \<Rightarrow> int \<times> act list" where
  "realMain L de args =
     (case docs_parseConfig L args of
        Inl _ \<Rightarrow> (2, [])
      | Inr cfg \<Rightarrow> (case hold SignalWatch (run_docs de cfg) of (e, tr) \<Rightarrow> (if e = None then 0 else 1, tr)))"

lemma serve_docs_disciplined:
  assumes "{DocsListener, PreviewChild, SignalWatch} \<subseteq> set st"
  shows "disciplined st (serve_docs e)"
  using assms by (auto simp: serve_docs_def disciplined_def doing_def needs_def split: docs_end.splits option.splits)

lemma run_docs_disciplined: "disciplined [SignalWatch] (run_docs de cfg)"
  unfolding run_docs_def
  by (auto simp: needs_def intro!: disciplined_rules serve_docs_disciplined)

text \<open>The preview leaves nothing behind. For every command line and every way its steps can end, the temporary
  directory, the listener and the child are released in reverse order, each exactly when it was opened; and
  it exits with 0 only when its own server was closed or a signal arrived, never because the child ended.\<close>

theorem preview_cleans_up:
  "held [] (snd (realMain L de args)) = Some []
   \<and> (fst (realMain L de args) = 0 \<longrightarrow> de_end de \<in> {DocsServerEnded None, DocsSignal})"
proof
  have "disciplined [] (hold SignalWatch (run_docs de cfg))" for cfg
    using run_docs_disciplined by (intro disciplined_hold) (simp_all add: needs_def)
  then show "held [] (snd (realMain L de args)) = Some []"
    by (auto simp: realMain_def disciplined_def split: sum.splits prod.splits) (metis snd_conv)
  have "de_end de \<in> {DocsServerEnded None, DocsSignal}" if "fst (run_docs de cfg) = None" for cfg
    using that
    by (auto simp: run_docs_def try_call_done hold_parts doing_parts serve_docs_def split: docs_end.splits option.splits)
  then show "fst (realMain L de args) = 0 \<longrightarrow> de_end de \<in> {DocsServerEnded None, DocsSignal}"
    by (auto simp: realMain_def hold_parts(1) split: sum.splits prod.splits if_splits) (metis fst_conv hold_parts(1))
qed

end
