(* ===== verification/ApiHistory.thy ===== *)
theory ApiHistory
  imports Api
begin

text \<open>
  Reading a room's history over HTTP, \<open>GET /rooms/{id}/events\<close>: who is served, what a page holds, and that
  a client which follows the \<open>next\<close> cursor reads the whole history.
\<close>

subsection \<open>One page\<close>

text \<open>The last part of \<open>handleRoomEvents\<close>, once the request is parsed.\<close>

definition events_page ::
  "api_config \<Rightarrow> http_env \<Rightarrow> room_id \<Rightarrow> user_id \<Rightarrow> room_events_params \<Rightarrow> api_world \<Rightarrow> response" where
  "events_page cfg he roomID uid params aw =
     (case is_member (he_member he) roomID uid (api_db aw) of
        Inl _ \<Rightarrow> WriteErrorResponse 503 (errDetail ServiceUnavailable ''failed to check membership'')
      | Inr member \<Rightarrow>
      if \<not> member then WriteErrorResponse 403 (errDetail RoomNotMember ''not a member of this room'')
      else case Timeline (ac_search cfg) (he_events he) roomID
          \<lparr>tp_Query = rep_query params, tp_Before = rep_before params, tp_Limit = nat (rep_limit params)\<rparr> (api_db aw) of
        Inl _ \<Rightarrow> WriteErrorResponse 503 (errDetail ServiceUnavailable ''failed to load events'')
      | Inr (entries, hasMore) \<Rightarrow>
          \<lparr>rs_status = 200, rs_body = BEvents (toRoomEvents entries)
             (if hasMore then Some (event_string (te_ID (last entries))) else None)\<rparr>)"

lemma room_events_handled:
  assumes "named_room he r aw = Some roomID"
  shows "room_handler cfg he RoomEvents r uid aw =
    (case parseRoomEventsQuery (ac_text cfg) r of
       Inl detail \<Rightarrow> (WriteErrorResponse (httpStatus (ed_code detail)) detail, aw)
     | Inr params \<Rightarrow> (events_page cfg he roomID uid params aw, aw))"
  unfolding room_handler_def Let_def room_endpoint.case handleRoomEvents_def requireRoomID_eq [OF assms]
  by (auto simp: NewGateway_def events_page_def split: sum.splits)

lemma parse_limit_bounds: "parse_limit def maxi raw = Ok n \<Longrightarrow> 1 \<le> def \<Longrightarrow> def \<le> maxi \<Longrightarrow> 1 \<le> n \<and> n \<le> maxi"
  by (auto simp: parse_limit_def split: if_splits sum.splits)

lemma parseRoomEventsQuery_limit:
  "parseRoomEventsQuery T r = Ok params \<Longrightarrow> 1 \<le> rep_limit params \<and> rep_limit params \<le> roomEventsMaxLimit"
  using parse_limit_bounds [of roomEventsDefaultLimit roomEventsMaxLimit]
  by (auto simp: parseRoomEventsQuery_def Let_def roomEventsDefaultLimit_def roomEventsMaxLimit_def
      split: sum.splits if_splits)

lemma is_member_role: "is_member oc r u d = Ok True \<Longrightarrow> role_of d r u \<noteq> None"
  by (auto simp: is_member_def GetRole_def role_of_def row_role_def split: if_splits sum.splits option.splits)

lemma is_member_acked: "role_of d r u \<noteq> None \<Longrightarrow> is_member Acked r u d = Ok True"
  by (cases "find (is_row (room_int64 r) (user_int64 u)) (t_memberships d)")
     (auto simp: is_member_def GetRole_def role_of_def row_role_def)

text \<open>Every entry of a page is a row of the room; the page is within its limit; a further page is announced
  by a page that is not empty.\<close>

lemma timelineSQL_room:
  "(e, u) \<in> set (timelineSQL L roomID params n d) \<Longrightarrow> e \<in> set (t_events d) \<and> ev_room e = room_int64 roomID"
  by (auto simp: timelineSQL_def timeline_match_def dest!: in_set_takeD)

lemma timeline_row_ID: "timeline_row (e, u) = Ok x \<Longrightarrow> te_ID x = EventID (ev_id e)"
  by (auto simp: timeline_row_def NewEventID_def split: sum.splits if_splits)

lemma Timeline_Ok:
  assumes "Timeline L oc roomID params d = Ok (entries, hasMore)"
  shows "length entries \<le> tp_Limit params"
    and "hasMore \<Longrightarrow> 0 < tp_Limit params \<Longrightarrow> entries \<noteq> []"
    and "x \<in> set entries \<Longrightarrow> \<exists>e \<in> set (t_events d). ev_room e = room_int64 roomID \<and> te_ID x = EventID (ev_id e)"
proof -
  let ?rows = "timelineSQL L roomID params (tp_Limit params + 1) d"
  obtain xs where xs: "map timeline_row ?rows = map Inr xs"
    and entries: "entries = take (tp_Limit params) xs" "hasMore = (tp_Limit params < length xs)"
    using assms
    by (auto simp: Timeline_def collectEntries_def sequence_res_Ok_iff split: if_splits sum.splits)
  show "length entries \<le> tp_Limit params" using entries by simp
  show "entries \<noteq> []" if "hasMore" "0 < tp_Limit params" using that entries by (cases xs) auto
  show "\<exists>e \<in> set (t_events d). ev_room e = room_int64 roomID \<and> te_ID x = EventID (ev_id e)" if "x \<in> set entries"
  proof -
    have "Inr x \<in> set (map timeline_row ?rows)" using that entries xs by (auto dest: in_set_takeD)
    then obtain e u where "(e, u) \<in> set ?rows" "timeline_row (e, u) = Ok x" by auto
    then show ?thesis using timelineSQL_room timeline_row_ID by blast
  qed
qed

lemma rv_ID_toRoomEvent [simp]: "rv_ID (toRoomEvent x) = event_string (te_ID x)"
  by (simp add: toRoomEvent_def Let_def split: entry_kind.splits)

text \<open>
  C7. History is for members. A request for a room's events changes nothing; when it is answered 200,
  the caller was authenticated and is a member of the named room in the membership table, every event
  of the page is a journal row of that room, the page has at most 200 events, and the cursor it offers
  is the id of its last event.
\<close>

theorem history_only_for_members:
  assumes "serve_room cfg he RoomEvents r aw = (resp, aw')"
  shows "aw' = aw \<and> (rs_status resp = 200 \<longrightarrow> (\<exists>room u evs nxt. caller cfg he r aw = Some u \<and> named_room he r aw = Some room
    \<and> role_of (api_db aw) room u \<noteq> None \<and> rs_body resp = BEvents evs nxt \<and> length evs \<le> 200
    \<and> (\<forall>e \<in> set evs. \<exists>row \<in> set (t_events (api_db aw)). ev_room row = room_int64 room \<and> rv_ID e = event_string (EventID (ev_id row)))
    \<and> (\<forall>c. nxt = Some c \<longrightarrow> evs \<noteq> [] \<and> c = rv_ID (last evs))))"
  using assms
proof (cases rule: serve_room_cases)
  case (served uid)
  show ?thesis
  proof (cases "named_room he r aw")
    case None
    then show ?thesis using served(2)
      by (auto simp: room_handler_def Let_def handleRoomEvents_def elim!: requireRoomID_cases)
  next
    case (Some room)
    have run: "(case parseRoomEventsQuery (ac_text cfg) r of
       Inl detail \<Rightarrow> (WriteErrorResponse (httpStatus (ed_code detail)) detail, aw)
     | Inr params \<Rightarrow> (events_page cfg he room uid params aw, aw)) = (resp, aw')"
      using served(2) room_events_handled [OF Some] by simp
    show ?thesis
    proof (cases "parseRoomEventsQuery (ac_text cfg) r")
      case (Inl detail)
      then show ?thesis using run httpStatus_error [of "ed_code detail"] by auto
    next
      case (Inr params)
      let ?p = "\<lparr>tp_Query = rep_query params, tp_Before = rep_before params, tp_Limit = nat (rep_limit params)\<rparr>"
      have "(events_page cfg he room uid params aw, aw) = (resp, aw')" using run unfolding Inr sum.case .
      then have resp: "aw' = aw" "resp = events_page cfg he room uid params aw" by blast+
      have lim: "0 < tp_Limit ?p" "tp_Limit ?p \<le> 200"
        using parseRoomEventsQuery_limit [OF Inr] by (auto simp: roomEventsMaxLimit_def nat_le_iff)
      show ?thesis
      proof (cases "rs_status resp = 200")
        case True
        then obtain entries hasMore where m: "is_member (he_member he) room uid (api_db aw) = Ok True"
          and t: "Timeline (ac_search cfg) (he_events he) room ?p (api_db aw) = Ok (entries, hasMore)"
          and body: "rs_body resp = BEvents (toRoomEvents entries) (if hasMore then Some (event_string (te_ID (last entries))) else None)"
          using resp(2) by (auto simp: events_page_def split: sum.splits if_splits)
        have rows: "\<exists>row \<in> set (t_events (api_db aw)). ev_room row = room_int64 room \<and> rv_ID e = event_string (EventID (ev_id row))"
          if e: "e \<in> set (toRoomEvents entries)" for e
        proof -
          obtain x where "x \<in> set entries" "rv_ID e = event_string (te_ID x)" using e by (auto simp: toRoomEvents_def)
          then show ?thesis using Timeline_Ok(3) [OF t] by fastforce
        qed
        show ?thesis
          using served(1) Some resp(1) is_member_role [OF m] Timeline_Ok(1,2) [OF t] lim body rows
          by (intro conjI impI exI) (auto simp: toRoomEvents_def last_map split: if_splits)
      qed (simp add: resp(1))
    qed
  qed
qed auto

subsection \<open>Following the cursor\<close>

text \<open>A client that asks for a page and, while the answer carries a cursor, for the page before it.\<close>

definition older :: "string \<Rightarrow> request \<Rightarrow> request" where
  "older c r = r\<lparr>rq_query := (rq_query r)(''before'' := c)\<rparr>"

fun history_walk :: "api_config \<Rightarrow> http_env \<Rightarrow> nat \<Rightarrow> request \<Rightarrow> api_world \<Rightarrow> room_event list option" where
  "history_walk cfg he 0 r aw = None"
| "history_walk cfg he (Suc n) r aw =
     (case serve_room cfg he RoomEvents r aw of
        (resp, aw') \<Rightarrow>
          if rs_status resp \<noteq> 200 then None
          else (case rs_body resp of
                  BEvents evs None \<Rightarrow> Some evs
                | BEvents evs (Some c) \<Rightarrow> map_option ((@) evs) (history_walk cfg he n (older c r) aw')
                | _ \<Rightarrow> None))"

lemma caller_older [simp]: "caller cfg he (older c r) aw = caller cfg he r aw"
  by (simp add: caller_def older_def)

lemma named_room_older [simp]: "named_room he (older c r) aw = named_room he r aw"
  by (simp add: named_room_def older_def)

text \<open>A cursor survives the query string: printed, trimmed and parsed, it is the same event id.\<close>

lemma cursor_roundtrip:
  assumes "0 < event_int64 x" "event_int64 x \<le> max_int64"
  shows "trim_space (event_string x) = event_string x" "event_string x \<noteq> []" "ParseEventID (event_string x) = Ok x"
proof -
  have digits: "\<forall>c \<in> set (event_string x). is_digit c"
    using assms(1) format_int_nonneg_digits [of "event_int64 x"] by (simp add: event_string_def)
  then show "trim_space (event_string x) = event_string x"
    by (intro trim_space_ascii_id) (auto simp: is_ascii_def list_all_iff is_digit_def is_space_def)
  show "event_string x \<noteq> []" using assms(1) by (simp add: event_string_def format_int_def format_nat_not_Nil)
  show "ParseEventID (event_string x) = Ok x" by (rule event_codec.parse_str [OF assms])
qed

lemma parse_older:
  assumes "parseRoomEventsQuery T r = Ok params" "0 < event_int64 x" "event_int64 x \<le> max_int64"
  shows "parseRoomEventsQuery T (older (event_string x) r) = Ok (params\<lparr>rep_before := x\<rparr>)"
  using assms(1) cursor_roundtrip [OF assms(2,3)]
  by (auto simp: parseRoomEventsQuery_def Let_def older_def split: sum.splits if_splits)

text \<open>What a reader needs: a journal whose ids fit the column type, a membership, and reads that return.\<close>

definition reader :: "http_env \<Rightarrow> api_world \<Rightarrow> room_id \<Rightarrow> user_id \<Rightarrow> bool" where
  "reader he aw room u \<longleftrightarrow> db_inv (api_db aw) \<and> readable (api_db aw)
     \<and> list_all (\<lambda>e. ev_id e \<le> max_int64) (t_events (api_db aw))
     \<and> api_member aw room u \<and> he_member he = Acked \<and> he_events he = Acked"

lemma walk_eq:
  assumes reader: "reader he aw room u"
    and "caller cfg he r aw = Some u" "named_room he r aw = Some room" "parseRoomEventsQuery (ac_text cfg) r = Ok params"
  shows "history_walk cfg he n r aw = map_option toRoomEvents
    (timeline_walk (ac_search cfg) room (rep_query params) (nat (rep_limit params)) (api_db aw) n (rep_before params))"
  using assms(2-)
proof (induction n arbitrary: r params)
  case (Suc n)
  have inv: "db_inv (api_db aw)" and rd: "readable (api_db aw)" and member: "api_member aw room u"
    and range: "\<And>e. e \<in> set (t_events (api_db aw)) \<Longrightarrow> ev_id e \<le> max_int64"
    and reads: "he_member he = Acked" "he_events he = Acked"
    using reader by (auto simp: reader_def list_all_iff)
  let ?p = "\<lparr>tp_Query = rep_query params, tp_Before = rep_before params, tp_Limit = nat (rep_limit params)\<rparr>"
  obtain es again where t: "Timeline (ac_search cfg) Acked room ?p (api_db aw) = Ok (es, again)"
    using Timeline_page [OF inv rd] by (simp add: Let_def)
  have page: "serve_room cfg he RoomEvents r aw = (\<lparr>rs_status = 200, rs_body = BEvents (toRoomEvents es)
      (if again then Some (event_string (te_ID (last es))) else None)\<rparr>, aw)"
    using member t
    by (simp add: serve_room_eq [OF Suc.prems(1)] room_events_handled [OF Suc.prems(2)] Suc.prems(3) events_page_def
        reads is_member_acked api_member_def)
  show ?case
  proof (cases again)
    case True
    have "0 < tp_Limit ?p" using parseRoomEventsQuery_limit [OF Suc.prems(3)] by simp
    then have "last es \<in> set es" using Timeline_Ok(2) [OF t True] by simp
    then obtain e where e: "e \<in> set (t_events (api_db aw))" "te_ID (last es) = EventID (ev_id e)"
      using Timeline_Ok(3) [OF t] by blast
    then have "0 < event_int64 (te_ID (last es))" "event_int64 (te_ID (last es)) \<le> max_int64"
      using rd range [OF e(1)] by (auto simp: readable_def list_all_iff)
    note parse = parse_older [OF Suc.prems(3) this]
    show ?thesis
      using Suc.IH [OF _ _ parse] Suc.prems(1,2) True t page
      by (simp add: option.map_comp comp_def toRoomEvents_def)
  next
    case False
    then show ?thesis using t page by simp
  qed
qed simp

text \<open>
  C6. A client that follows the cursor reads the whole history. A member who asks for the newest page
  of a room and then, while the answer carries a \<open>next\<close> cursor, for the page before it, receives every
  event of the room that matches the search exactly once, newest first, for any page size the gateway
  accepts; it takes no more requests than there are events, plus one.
\<close>

theorem history_read_completely:
  assumes "reader he aw room u" "caller cfg he r aw = Some u" "named_room he r aw = Some room"
    and "parseRoomEventsQuery (ac_text cfg) r = Ok params" "rep_before params = zero_event_id"
  shows "\<exists>evs. history_walk cfg he (Suc (length (t_events (api_db aw)))) r aw = Some evs
    \<and> map rv_ID evs = map (event_string \<circ> EventID) (rev (sort (map ev_id
         (filter (timeline_match (ac_search cfg) room (rep_query params)) (t_events (api_db aw))))))
    \<and> distinct evs"
proof -
  let ?d = "api_db aw" and ?n = "Suc (length (t_events (api_db aw)))"
  let ?rows = "timeline_rows (ac_search cfg) room (rep_query params) ?d"
  have r: "db_inv ?d" "readable ?d" "list_all (\<lambda>e. ev_id e \<le> max_int64) (t_events ?d)" using assms(1) by (auto simp: reader_def)
  have "0 < nat (rep_limit params)" using parseRoomEventsQuery_limit [OF assms(4)] by simp
  from timeline_walk_rows [OF r(1,2) this]
  have walk: "history_walk cfg he ?n r aw = Some (toRoomEvents (map (entry_of ?d) ?rows))"
    unfolding walk_eq [OF assms(1-4)] assms(5) by (simp only: option.map)
  have ids: "map rv_ID (toRoomEvents (map (entry_of ?d) ?rows)) = map (event_string \<circ> EventID) (map ev_id ?rows)"
    by (simp add: toRoomEvents_def entry_of_def)
  have rows: "map ev_id ?rows = rev (sort (map ev_id (filter (timeline_match (ac_search cfg) room (rep_query params)) (t_events ?d))))"
    by (simp add: timeline_rows_def rev_map [symmetric] map_sort_key_ids)
  have pos: "0 < i \<and> i \<le> max_int64" if "i \<in> set (map ev_id ?rows)" for i
    using that r(2,3) timeline_rows_subset [of "ac_search cfg" room "rep_query params" ?d]
    by (auto simp: readable_def list_all_iff)
  have "inj_on (event_string \<circ> EventID) (set (map ev_id ?rows))"
  proof (rule inj_onI)
    fix i j assume "i \<in> set (map ev_id ?rows)" "j \<in> set (map ev_id ?rows)"
      "(event_string \<circ> EventID) i = (event_string \<circ> EventID) j"
    then show "i = j" using event_codec.str_inj [of "EventID i" "EventID j"] pos by simp
  qed
  moreover have "distinct (map ev_id ?rows)"
    using timeline_rows_ids [OF r(1), of "ac_search cfg" room "rep_query params"] unfolding strict_sorted_iff by simp
  ultimately have "distinct (map rv_ID (toRoomEvents (map (entry_of ?d) ?rows)))"
    unfolding ids by (simp only: distinct_map)
  then have "distinct (toRoomEvents (map (entry_of ?d) ?rows))" by (simp only: distinct_map)
  then show ?thesis using walk ids unfolding rows by blast
qed

subsection \<open>Examples\<close>

definition history_db :: db where
  "history_db = demo_journal\<lparr>t_memberships := \<lparr>mb_room = 4, mb_user = 3, mb_role = MembershipRoleMember, mb_joined_at = 0\<rparr> # t_memberships demo_db\<rparr>"

definition history_world :: api_world where
  "history_world = demo_api\<lparr>aw_world := demo_world\<lparr>w_db := history_db\<rparr>\<rparr>"

lemma history_db [simp]: "api_db history_world = history_db"
  by (simp add: api_db_def history_world_def)

lemma history_reader: "reader demo_he history_world (RoomID 4) (UserID 3)"
proof -
  have "db_inv history_db"
    using demo_journal_ok(1) by (simp add: history_db_def db_inv_def one_owner_def demo_journal_def) (simp add: demo_db_def demo_user_def)
  moreover have "readable history_db" using demo_journal_ok(2) by (simp add: history_db_def readable_def)
  ultimately show ?thesis
    by (simp add: reader_def api_member_def role_of_def row_role_def demo_he_def)
       (simp add: history_db_def demo_journal_def demo_event_def is_row_def max_int64_def)
qed

lemma history_names:
  "caller demo_cfg demo_he demo_request history_world = Some (UserID 3)"
  "named_room demo_he demo_request history_world = Some (RoomID 4)"
  by (rule demo_caller demo_named, simp add: history_db_def demo_journal_def)+

lemma history_query:
  "parseRoomEventsQuery (ac_text demo_cfg) demo_request = Ok \<lparr>rep_query = MessageQuery [], rep_before = zero_event_id, rep_limit = 50\<rparr>"
  by (simp add: parseRoomEventsQuery_def Let_def demo_request_def trim_space_ascii_id is_ascii_def parse_limit_def roomEventsDefaultLimit_def)

lemma history_length: "length (t_events history_db) = 3"
  by (simp add: history_db_def demo_journal_def)

theorem history_read_completely_witness:
  "\<exists>evs. history_walk demo_cfg demo_he 4 demo_request history_world = Some evs \<and> map rv_ID evs = [''73'', ''72'', ''71'']"
proof -
  have all: "filter (timeline_match (ac_search demo_cfg) (RoomID 4) (MessageQuery [])) (t_events history_db) = t_events history_db"
    by (simp add: timeline_match_def history_db_def demo_journal_def demo_event_def mquery_is_zero_def)
  have ids: "map ev_id (t_events history_db) = [71, 72, 73]"
    by (simp add: history_db_def demo_journal_def demo_event_def)
  have digits: "event_string (EventID 71) = ''71''" "event_string (EventID 72) = ''72''" "event_string (EventID 73) = ''73''"
    by (simp_all add: event_string_def format_int_def format_nat.simps digit_char_def char_of_eq_iff)
  show ?thesis
    using history_read_completely [OF history_reader history_names history_query] history_length
    by (auto simp: all ids digits eval_nat_numeral simp del: history_walk.simps)
qed

theorem history_only_for_members_witness:
  "\<exists>resp evs nxt. serve_room demo_cfg demo_he RoomEvents demo_request history_world = (resp, history_world)
     \<and> rs_status resp = 200 \<and> rs_body resp = BEvents evs nxt \<and> length evs \<le> 200
     \<and> role_of history_db (RoomID 4) (UserID 3) \<noteq> None"
proof -
  obtain resp aw' where run: "serve_room demo_cfg demo_he RoomEvents demo_request history_world = (resp, aw')" by fastforce
  have "history_walk demo_cfg demo_he 4 demo_request history_world \<noteq> None"
    using walk_eq [OF history_reader history_names history_query, of 4]
      timeline_walk_rows [of history_db 50 "ac_search demo_cfg" "RoomID 4" "MessageQuery []"] history_reader history_length
    by (simp add: reader_def del: history_walk.simps timeline_walk.simps)
  then have "rs_status resp = 200" using run by (auto simp: eval_nat_numeral split: if_splits)
  then show ?thesis using history_only_for_members [OF run] history_names run by auto
qed

end
