(* ===== verification/WorkerLease.thy ===== *)
theory WorkerLease
  imports Snowflake
begin

text \<open>
  Worker-id leases (\<open>internal/persistence/workerlease\<close>): the \<open>worker_lease\<close> table with the three
  statements of \<open>repo.go\<close>, the \<open>Manager\<close> that keeps a lease alive and feeds the Snowflake generator its
  deadline, and the system of several managers against one table.

  The system interleaves sends, executions and replies freely: a statement may execute long after it was
  sent, after its sender gave up on it, or never. Every process has its own clock and the database
  another; \<open>drift_bounded\<close> says what the safety margin is for.
\<close>

subsection \<open>The table\<close>

record lease_row =
  wl_worker :: int
  wl_owner :: string
  wl_token :: nat
  wl_acquired :: instant
  wl_renewed :: instant
  wl_expires :: instant

record lease =
  le_WorkerID :: int
  le_Token :: nat

text \<open>
  \<open>acquireSQL\<close>. The sub-select runs on the statement's snapshot, the \<open>ON CONFLICT\<close> clause on the row as it
  is when the statement writes; \<open>now\<close> is the start of the statement for both.
\<close>

definition free_worker :: "lease_row list \<Rightarrow> instant \<Rightarrow> int \<Rightarrow> bool" where
  "free_worker tab now gs \<longleftrightarrow> \<not> list_ex (\<lambda>wl. wl_worker wl = gs \<and> wl_expires wl > now) tab"

definition acquireSQL ::
  "lease_row list \<Rightarrow> instant \<Rightarrow> string \<Rightarrow> nat \<Rightarrow> duration \<Rightarrow> lease_row list \<Rightarrow> int option \<times> lease_row list" where
  "acquireSQL snapshot now owner token ttl tab =
     (case find (free_worker snapshot now) [0..1023] of
        None \<Rightarrow> (None, tab)
      | Some gs \<Rightarrow>
          (let new = \<lparr>wl_worker = gs, wl_owner = owner, wl_token = token, wl_acquired = now,
                      wl_renewed = now, wl_expires = now + ttl\<rparr>
           in case find (\<lambda>wl. wl_worker wl = gs) tab of
                None \<Rightarrow> (Some gs, tab @ [new])
              | Some old \<Rightarrow>
                  if wl_expires old \<le> now
                  then (Some gs, map (\<lambda>wl. if wl_worker wl = gs then new else wl) tab)
                  else (None, tab)))"

text \<open>\<open>renewSQL\<close> and \<open>releaseSQL\<close>, the former with the number of rows it changed.\<close>

definition holds :: "lease \<Rightarrow> lease_row \<Rightarrow> bool" where
  "holds l wl \<longleftrightarrow> wl_worker wl = le_WorkerID l \<and> wl_token wl = le_Token l"

definition renewSQL :: "lease \<Rightarrow> instant \<Rightarrow> duration \<Rightarrow> lease_row list \<Rightarrow> nat \<times> lease_row list" where
  "renewSQL l now ttl tab =
     (length (filter (\<lambda>wl. holds l wl \<and> wl_expires wl > now) tab),
      map (\<lambda>wl. if holds l wl \<and> wl_expires wl > now
                then wl\<lparr>wl_renewed := now, wl_expires := now + ttl\<rparr> else wl) tab)"

definition releaseSQL :: "lease \<Rightarrow> lease_row list \<Rightarrow> lease_row list" where
  "releaseSQL l tab = filter (\<lambda>wl. \<not> holds l wl) tab"

subsection \<open>The repository\<close>

datatype lease_error = ErrStore | ErrNoCapacity | ErrToken | ErrBuildGenerator mint_error

definition acquireAttempts :: nat where "acquireAttempts = 8"

text \<open>
  \<open>Acquire\<close>: each attempt draws a token and runs the statement; no row means that another process took
  the slot or that the table is full. The results of the attempts are the argument: no token, a store
  error, or the row the statement returned.
\<close>

datatype attempt = NoToken | StoreFailed | Row nat "int option"

fun acquire_loop :: "attempt list \<Rightarrow> nat \<Rightarrow> (lease_error, lease) result" where
  "acquire_loop _ 0 = Err ErrNoCapacity"
| "acquire_loop [] (Suc n) = Err ErrStore"
| "acquire_loop (a # as) (Suc n) =
     (case a of
        NoToken \<Rightarrow> Err ErrToken
      | StoreFailed \<Rightarrow> Err ErrStore
      | Row token (Some w) \<Rightarrow> Ok \<lparr>le_WorkerID = w, le_Token = token\<rparr>
      | Row token None \<Rightarrow> acquire_loop as n)"

definition Acquire :: "attempt list \<Rightarrow> (lease_error, lease) result" where
  "Acquire as = acquire_loop as acquireAttempts"

text \<open>\<open>Renew\<close>: the rows affected, or the error of the statement.\<close>

definition Renew_repo :: "(unit, nat) result \<Rightarrow> (lease_error, bool) result" where
  "Renew_repo res = (case res of Inl _ \<Rightarrow> Err ErrStore | Inr n \<Rightarrow> Ok (n = 1))"

subsection \<open>The manager\<close>

record session =
  ss_lease :: lease
  ss_gen :: generator

record manager =
  mg_owner :: string
  mg_ttl :: duration
  mg_margin :: duration
  mg_renewInterval :: duration
  mg_cur :: "session option"

datatype cadence_fault = BadTTL | BadMargin | TTLBelowMargin | BadInterval | IntervalTooLong

definition validateCadence :: "manager \<Rightarrow> cadence_fault option" where
  "validateCadence m =
     (if mg_ttl m \<le> 0 then Some BadTTL
      else if mg_margin m < 0 then Some BadMargin
      else if mg_ttl m \<le> mg_margin m then Some TTLBelowMargin
      else if mg_renewInterval m \<le> 0 then Some BadInterval
      else if mg_renewInterval m \<ge> mg_ttl m - mg_margin m then Some IntervalTooLong
      else None)"

definition NewManager ::
  "string \<Rightarrow> duration \<Rightarrow> duration \<Rightarrow> duration \<Rightarrow> (cadence_fault, manager) result" where
  "NewManager owner ttl margin renewInterval =
     (let m = \<lparr>mg_owner = owner, mg_ttl = ttl, mg_margin = margin, mg_renewInterval = renewInterval,
               mg_cur = None\<rparr>
      in case validateCadence m of Some e \<Rightarrow> Err e | None \<Rightarrow> Ok m)"

text \<open>
  \<open>acquire\<close>, from the store's answer on. The generator gets its deadline from the clock read before the
  call. The flag says that the lease just taken must be released, because no generator accepts its id.
\<close>

definition acquire ::
  "manager \<Rightarrow> instant \<Rightarrow> (lease_error, lease) result \<Rightarrow> (lease_error, session) result \<times> bool" where
  "acquire m sendAt res =
     (case res of
        Inl e \<Rightarrow> (Err e, False)
      | Inr l \<Rightarrow>
          (case NewGenerator (le_WorkerID l) defaultEpoch of
             Inl e \<Rightarrow> (Err (ErrBuildGenerator e), True)
           | Inr gen \<Rightarrow>
               (Ok \<lparr>ss_lease = l, ss_gen = Renew gen (sendAt + (mg_ttl m - mg_margin m))\<rparr>, False)))"

text \<open>The session replaces the current one; a failed acquisition leaves it as it is.\<close>

definition install :: "manager \<Rightarrow> (lease_error, session) result \<Rightarrow> manager" where
  "install m res = (case res of Inl _ \<Rightarrow> m | Inr s \<Rightarrow> m\<lparr>mg_cur := Some s\<rparr>)"

definition set_deadline :: "instant \<Rightarrow> manager \<Rightarrow> manager" where
  "set_deadline t m =
     (case mg_cur m of None \<Rightarrow> m | Some s \<Rightarrow> m\<lparr>mg_cur := Some (s\<lparr>ss_gen := Renew (ss_gen s) t\<rparr>)\<rparr>)"

text \<open>
  \<open>beat\<close>, from the answer to the renewal on; the flag says that the lease is lost and that \<open>handleLoss\<close>,
  having halted the generator, goes on to acquire another one.
\<close>

definition beat :: "manager \<Rightarrow> instant \<Rightarrow> (lease_error, bool) result \<Rightarrow> manager \<times> bool" where
  "beat m sendAt res =
     (case res of
        Inl _ \<Rightarrow> (m, False)
      | Inr held \<Rightarrow>
          if \<not> held then (set_deadline zero_time m, True)
          else (set_deadline (sendAt + (mg_ttl m - mg_margin m)) m, False))"

text \<open>\<open>releaseAndClear\<close>: the generator is halted before the release is sent, and cleared after it.\<close>

definition halt :: "manager \<Rightarrow> manager" where
  "halt m = set_deadline zero_time m"

definition clear :: "manager \<Rightarrow> manager" where
  "clear m = m\<lparr>mg_cur := None\<rparr>"

datatype start_error = ErrAlreadyStarted | ErrStart lease_error

definition Start :: "manager \<Rightarrow> instant \<Rightarrow> (lease_error, lease) result \<Rightarrow> (start_error, unit) result \<times> manager" where
  "Start m sendAt res =
     (case mg_cur m of
        Some _ \<Rightarrow> (Err ErrAlreadyStarted, m)
      | None \<Rightarrow>
          (case fst (acquire m sendAt res) of
             Inl e \<Rightarrow> (Err (ErrStart e), m)
           | Inr s \<Rightarrow> (Ok (), install m (Ok s))))"

definition Next_manager ::
  "clock \<Rightarrow> manager \<Rightarrow> nat \<Rightarrow> (((mint_error, int) result \<times> manager) \<times> nat) option" where
  "Next_manager now m i =
     (case mg_cur m of
        None \<Rightarrow> Some ((Err ErrNotStarted, m), i)
      | Some s \<Rightarrow>
          (case Next now (ss_gen s) i of
             None \<Rightarrow> None
           | Some ((r, gen), j) \<Rightarrow> Some ((r, m\<lparr>mg_cur := Some (s\<lparr>ss_gen := gen\<rparr>)\<rparr>), j)))"

subsection \<open>Managers against one table\<close>

text \<open>
  A process waits for at most one statement: its loop is a single goroutine. A statement that was sent
  at the global time \<open>T\<close> is pending, answered, or abandoned by its sender (a timeout); an abandoned
  statement may still execute.
\<close>

datatype stmt_sent =
  StAcquire nat nat
  | StRenew lease
  | StRelease lease

datatype reply =
  RpLease "(lease_error, lease) result"
  | RpHeld "(lease_error, bool) result"
  | RpReleased

datatype waiting = Idle | Sent stmt_sent nat | Replied stmt_sent nat reply

record lsys =
  ls_time :: nat
  ls_tab :: "lease_row list"
  ls_mgr :: "nat \<Rightarrow> manager"
  ls_wait :: "nat \<Rightarrow> waiting"
  ls_orphans :: "(nat \<times> stmt_sent) set"
  ls_used :: "nat set"

text \<open>What a statement does to the table, with the answer its sender would get.\<close>

fun exec_stmt ::
  "lease_row list \<Rightarrow> instant \<Rightarrow> manager \<Rightarrow> stmt_sent \<Rightarrow> lease_row list \<Rightarrow> reply option \<times> lease_row list" where
  "exec_stmt snapshot now m (StAcquire token n) tab =
     (case acquireSQL snapshot now (mg_owner m) token (mg_ttl m) tab of
        (Some w, tab') \<Rightarrow> (Some (RpLease (Ok \<lparr>le_WorkerID = w, le_Token = token\<rparr>)), tab')
      | (None, tab') \<Rightarrow>
          (if Suc n < acquireAttempts then None else Some (RpLease (Err ErrNoCapacity)), tab'))"
| "exec_stmt snapshot now m (StRenew l) tab =
     (case renewSQL l now (mg_ttl m) tab of (n, tab') \<Rightarrow> (Some (RpHeld (Renew_repo (Ok n))), tab'))"
| "exec_stmt snapshot now m (StRelease l) tab = (Some RpReleased, releaseSQL l tab)"

text \<open>How the loop of a process goes on with an answer; the flag asks for a fresh acquisition.\<close>

fun receive :: "instant \<Rightarrow> reply \<Rightarrow> manager \<Rightarrow> manager \<times> bool" where
  "receive sendAt (RpLease res) m = (install m (fst (acquire m sendAt res)), False)"
| "receive sendAt (RpHeld res) m = beat m sendAt res"
| "receive sendAt RpReleased m = (clear m, False)"

text \<open>The answer of a statement that was given up on.\<close>

fun gave_up :: "stmt_sent \<Rightarrow> reply" where
  "gave_up (StAcquire _ _) = RpLease (Err ErrStore)"
| "gave_up (StRenew _) = RpHeld (Err ErrStore)"
| "gave_up (StRelease _) = RpReleased"

text \<open>
  The steps. \<open>local p\<close> is the clock of the process \<open>p\<close> and \<open>server\<close> the clock of the database, at a
  global time. A statement executes at one moment, which is its \<open>now()\<close>, but its sub-select may have seen
  any table. Tokens are fresh when drawn, as random UUIDs are.
\<close>

inductive lstep ::
  "(nat \<Rightarrow> nat \<Rightarrow> instant) \<Rightarrow> (nat \<Rightarrow> instant) \<Rightarrow> lsys \<Rightarrow> lsys \<Rightarrow> bool" for local server where
  tick: "ls_time y \<le> t \<Longrightarrow> lstep local server y (y\<lparr>ls_time := t\<rparr>)"
| start: "ls_wait y p = Idle \<Longrightarrow> mg_cur (ls_mgr y p) = None \<Longrightarrow> token \<notin> ls_used y \<Longrightarrow>
    lstep local server y (y\<lparr>ls_wait := (ls_wait y)(p := Sent (StAcquire token 0) (ls_time y)),
      ls_used := insert token (ls_used y)\<rparr>)"
| beat_sent: "ls_wait y p = Idle \<Longrightarrow> mg_cur (ls_mgr y p) = Some s \<Longrightarrow>
    lstep local server y (y\<lparr>ls_wait := (ls_wait y)(p := Sent (StRenew (ss_lease s)) (ls_time y))\<rparr>)"
| stop: "ls_wait y p = Idle \<Longrightarrow> mg_cur (ls_mgr y p) = Some s \<Longrightarrow>
    lstep local server y (y\<lparr>ls_mgr := (ls_mgr y)(p := halt (ls_mgr y p)),
      ls_wait := (ls_wait y)(p := Sent (StRelease (ss_lease s)) (ls_time y))\<rparr>)"
| execute: "ls_wait y p = Sent st T \<Longrightarrow>
    exec_stmt snapshot (server (ls_time y)) (ls_mgr y p) st (ls_tab y) = (Some rp, tab) \<Longrightarrow>
    lstep local server y (y\<lparr>ls_tab := tab, ls_wait := (ls_wait y)(p := Replied st T rp)\<rparr>)"
| retry: "ls_wait y p = Sent (StAcquire tok n) T \<Longrightarrow>
    exec_stmt snapshot (server (ls_time y)) (ls_mgr y p) (StAcquire tok n) (ls_tab y) = (None, tab) \<Longrightarrow>
    token \<notin> ls_used y \<Longrightarrow>
    lstep local server y (y\<lparr>ls_tab := tab, ls_wait := (ls_wait y)(p := Sent (StAcquire token (Suc n)) T),
      ls_used := insert token (ls_used y)\<rparr>)"
| timeout: "ls_wait y p = Sent st T \<Longrightarrow>
    lstep local server y (y\<lparr>ls_wait := (ls_wait y)(p := Replied st T (gave_up st)),
      ls_orphans := insert (p, st) (ls_orphans y)\<rparr>)"
| execute_orphan: "(p, st) \<in> ls_orphans y \<Longrightarrow>
    exec_stmt snapshot (server (ls_time y)) (ls_mgr y p) st (ls_tab y) = (rp, tab) \<Longrightarrow>
    lstep local server y (y\<lparr>ls_tab := tab\<rparr>)"
| received: "ls_wait y p = Replied st T rp \<Longrightarrow> receive (local p T) rp (ls_mgr y p) = (m, again) \<Longrightarrow> \<not> again \<Longrightarrow>
    lstep local server y (y\<lparr>ls_mgr := (ls_mgr y)(p := m), ls_wait := (ls_wait y)(p := Idle)\<rparr>)"
| lost: "ls_wait y p = Replied st T rp \<Longrightarrow> receive (local p T) rp (ls_mgr y p) = (m, again) \<Longrightarrow> again \<Longrightarrow>
    token \<notin> ls_used y \<Longrightarrow>
    lstep local server y (y\<lparr>ls_mgr := (ls_mgr y)(p := m),
      ls_wait := (ls_wait y)(p := Sent (StAcquire token 0) (ls_time y)), ls_used := insert token (ls_used y)\<rparr>)"
| mint: "Next_manager (\<lambda>_. local p (ls_time y)) (ls_mgr y p) 0 = Some ((r, m), k) \<Longrightarrow>
    lstep local server y (y\<lparr>ls_mgr := (ls_mgr y)(p := m)\<rparr>)"

text \<open>
  Clocks run forward; over any stretch of time the server's clock advances at most by the margin more
  than the clock of a process does; and no clock reads before the year one.
\<close>

definition drift_bounded :: "(nat \<Rightarrow> nat \<Rightarrow> instant) \<Rightarrow> (nat \<Rightarrow> instant) \<Rightarrow> (nat \<Rightarrow> duration) \<Rightarrow> bool" where
  "drift_bounded local server margin \<longleftrightarrow>
     mono server \<and> (\<forall>p. mono (local p)) \<and> (\<forall>p t. zero_time \<le> local p t) \<and>
     (\<forall>p s t. s \<le> t \<longrightarrow> server t - server s \<le> (local p t - local p s) + margin p)"

definition initial :: "(nat \<Rightarrow> manager) \<Rightarrow> lsys" where
  "initial ms = \<lparr>ls_time = 0, ls_tab = [], ls_mgr = ms, ls_wait = (\<lambda>_. Idle), ls_orphans = {}, ls_used = {}\<rparr>"

subsection \<open>What a process may rely on\<close>

fun stmt_token :: "stmt_sent \<Rightarrow> nat" where
  "stmt_token (StAcquire tok _) = tok"
| "stmt_token (StRenew l) = le_Token l"
| "stmt_token (StRelease l) = le_Token l"

fun is_release :: "stmt_sent \<Rightarrow> bool" where
  "is_release (StRelease _) = True"
| "is_release _ = False"

fun wait_stmt :: "waiting \<Rightarrow> stmt_sent option" where
  "wait_stmt Idle = None"
| "wait_stmt (Sent st _) = Some st"
| "wait_stmt (Replied st _ _) = Some st"

fun wait_time :: "waiting \<Rightarrow> nat option" where
  "wait_time Idle = None"
| "wait_time (Sent _ T) = Some T"
| "wait_time (Replied _ T _) = Some T"

definition releasing :: "waiting \<Rightarrow> bool" where
  "releasing w \<longleftrightarrow> (\<exists>l. wait_stmt w = Some (StRelease l))"

definition released :: "waiting \<Rightarrow> stmt_sent set \<Rightarrow> nat set" where
  "released w orphans = {le_Token l | l. wait_stmt w = Some (StRelease l) \<or> StRelease l \<in> orphans}"

text \<open>The leases a process holds or has been granted, with the deadline each one gives it.\<close>

definition claims :: "(nat \<Rightarrow> instant) \<Rightarrow> manager \<Rightarrow> waiting \<Rightarrow> (lease \<times> instant) set" where
  "claims clock m w =
     {(ss_lease s, leaseDeadline (ss_gen s)) | s. mg_cur m = Some s} \<union>
     {(l, clock T + (mg_ttl m - mg_margin m)) | l T st. w = Replied st T (RpLease (Ok l))} \<union>
     {(l, clock T + (mg_ttl m - mg_margin m)) | l T. w = Replied (StRenew l) T (RpHeld (Ok True))}"

text \<open>
  A claim is backed when its deadline has passed, or when the table has the row with the claim's token,
  whose expiry leaves the margin.
\<close>

definition backed ::
  "(nat \<Rightarrow> instant) \<Rightarrow> (nat \<Rightarrow> instant) \<Rightarrow> manager \<Rightarrow> nat \<Rightarrow> lease_row list \<Rightarrow> lease \<Rightarrow> instant \<Rightarrow> bool" where
  "backed clock server m time tab l dl \<longleftrightarrow>
     dl \<le> clock time \<or>
     (\<exists>T \<le> time. dl \<le> clock T + (mg_ttl m - mg_margin m) \<and>
        (\<exists>r \<in> set tab. holds l r \<and> server T + mg_ttl m \<le> wl_expires r))"

definition tokens :: "manager \<Rightarrow> waiting \<Rightarrow> stmt_sent set \<Rightarrow> nat set" where
  "tokens m w orphans =
     {le_Token (ss_lease s) | s. mg_cur m = Some s} \<union> {stmt_token st | st. wait_stmt w = Some st}
     \<union> stmt_token ` orphans"

definition wait_shape :: "manager \<Rightarrow> waiting \<Rightarrow> bool" where
  "wait_shape m w \<longleftrightarrow>
     (\<forall>l. wait_stmt w = Some (StRenew l) \<longrightarrow> (\<exists>s. mg_cur m = Some s \<and> ss_lease s = l)) \<and>
     (\<forall>st T res. w = Replied st T (RpLease res) \<longrightarrow>
        (\<exists>tok n. st = StAcquire tok n \<and> (\<forall>l. res = Ok l \<longrightarrow> le_Token l = tok))) \<and>
     (\<forall>st T b. w = Replied st T (RpHeld b) \<longrightarrow> (\<exists>l. st = StRenew l))"

definition pinv ::
  "(nat \<Rightarrow> instant) \<Rightarrow> (nat \<Rightarrow> instant) \<Rightarrow> manager \<Rightarrow> nat \<Rightarrow> lease_row list \<Rightarrow> manager \<Rightarrow> waiting \<Rightarrow> stmt_sent set \<Rightarrow> bool"
  where
  "pinv clock server m0 time tab m w orphans \<longleftrightarrow>
     mg_ttl m = mg_ttl m0 \<and> mg_margin m = mg_margin m0 \<and>
     (\<forall>s. mg_cur m = Some s \<longrightarrow> workerID (ss_gen s) = le_WorkerID (ss_lease s)) \<and>
     (\<forall>T. wait_time w = Some T \<longrightarrow> T \<le> time) \<and>
     wait_shape m w \<and>
     (\<forall>(l, dl) \<in> claims clock m w. backed clock server m time tab l dl) \<and>
     (if releasing w then \<forall>(l, dl) \<in> claims clock m w. dl \<le> clock time
      else (\<forall>s. mg_cur m = Some s \<longrightarrow> le_Token (ss_lease s) \<notin> released w orphans) \<and>
           (\<forall>st. wait_stmt w = Some st \<longrightarrow> stmt_token st \<notin> released w orphans))"

text \<open>The processes with their abandoned statements.\<close>

definition orphans_of :: "lsys \<Rightarrow> nat \<Rightarrow> stmt_sent set" where
  "orphans_of y p = {st. (p, st) \<in> ls_orphans y}"

definition linv :: "(nat \<Rightarrow> nat \<Rightarrow> instant) \<Rightarrow> (nat \<Rightarrow> instant) \<Rightarrow> (nat \<Rightarrow> manager) \<Rightarrow> lsys \<Rightarrow> bool" where
  "linv local server ms y \<longleftrightarrow>
     distinct (map wl_worker (ls_tab y)) \<and>
     (\<forall>p. pinv (local p) server (ms p) (ls_time y) (ls_tab y) (ls_mgr y p) (ls_wait y p) (orphans_of y p)) \<and>
     (\<forall>p. tokens (ls_mgr y p) (ls_wait y p) (orphans_of y p) \<subseteq> ls_used y) \<and>
     (\<forall>p q. p \<noteq> q \<longrightarrow> tokens (ls_mgr y p) (ls_wait y p) (orphans_of y p) \<inter>
        tokens (ls_mgr y q) (ls_wait y q) (orphans_of y q) = {})"

subsection \<open>The table under the statements\<close>

lemma acquireSQL_cases:
  assumes "acquireSQL snapshot now owner token ttl tab = (res, tab')"
  obtains "res = None" "tab' = tab"
  | gs new where "res = Some gs" "wl_worker new = gs" "wl_token new = token" "wl_expires new = now + ttl"
      "gs \<notin> wl_worker ` set tab" "tab' = tab @ [new]"
  | gs new where "res = Some gs" "wl_worker new = gs" "wl_token new = token" "wl_expires new = now + ttl"
      "gs \<in> wl_worker ` set tab" "\<exists>old \<in> set tab. wl_worker old = gs \<and> wl_expires old \<le> now"
      "tab' = map (\<lambda>wl. if wl_worker wl = gs then new else wl) tab"
proof (cases "find (free_worker snapshot now) [0..1023]")
  case None
  then show ?thesis using that(1) assms by (simp add: acquireSQL_def)
next
  case (Some gs)
  let ?new = "\<lparr>wl_worker = gs, wl_owner = owner, wl_token = token, wl_acquired = now, wl_renewed = now,
    wl_expires = now + ttl\<rparr>"
  show ?thesis
  proof (cases "find (\<lambda>wl. wl_worker wl = gs) tab")
    case None
    then have "gs \<notin> wl_worker ` set tab" by (auto simp: find_None_iff)
    then show ?thesis
      using assms Some None that(2) [of gs ?new] by (simp add: acquireSQL_def)
  next
    case old: (Some old)
    then have mem: "old \<in> set tab" "wl_worker old = gs" by (auto simp: find_Some_iff)
    have eq: "(if wl_expires old \<le> now
        then (Some gs, map (\<lambda>wl. if wl_worker wl = gs then ?new else wl) tab) else (None, tab)) = (res, tab')"
      using assms Some old by (simp add: acquireSQL_def)
    show ?thesis
    proof (cases "wl_expires old \<le> now")
      case True
      then show ?thesis using eq mem by (intro that(3) [of gs ?new]) auto
    next
      case False
      then show ?thesis using eq by (intro that(1)) auto
    qed
  qed
qed

lemma acquireSQL_distinct:
  assumes "acquireSQL snapshot now owner token ttl tab = (res, tab')" "distinct (map wl_worker tab)"
  shows "distinct (map wl_worker tab')"
proof -
  have keep: "map wl_worker (map (\<lambda>wl. if wl_worker wl = gs then new else wl) tab) = map wl_worker tab"
    if "wl_worker new = gs" for gs new
    using that by (induction tab) auto
  show ?thesis
  proof (rule acquireSQL_cases [OF assms(1)])
    fix gs new
    assume "wl_worker new = gs" "tab' = map (\<lambda>wl. if wl_worker wl = gs then new else wl) tab"
    then show ?thesis using keep assms(2) by metis
  qed (use assms(2) in auto)
qed

lemma renewSQL_workers: "map wl_worker (snd (renewSQL l now ttl tab)) = map wl_worker tab"
  by (simp add: renewSQL_def comp_def if_distrib cong: if_cong)

lemma exec_distinct:
  assumes "exec_stmt snapshot now m st tab = (rp, tab')" "distinct (map wl_worker tab)"
  shows "distinct (map wl_worker tab')"
proof (cases st)
  case (StAcquire tok n)
  then show ?thesis
    using assms acquireSQL_distinct [of snapshot now "mg_owner m" tok "mg_ttl m" tab]
    by (auto split: prod.splits option.splits)
next
  case (StRenew l)
  then show ?thesis using assms renewSQL_workers [of l now "mg_ttl m" tab] by (auto split: prod.splits)
next
  case (StRelease l)
  then show ?thesis using assms by (auto simp: releaseSQL_def distinct_map_filter)
qed

text \<open>
  A live claim keeps its row: an acquisition only takes an expired row, a renewal only prolongs, and a
  release with the claim's token comes after the claim was given up.
\<close>

lemma backed_unexpired:
  assumes drift: "\<And>s t. s \<le> t \<Longrightarrow> server t - server s \<le> (clock t - clock s) + mg_margin m"
    and "T \<le> time" "dl \<le> clock T + (mg_ttl m - mg_margin m)" "server T + mg_ttl m \<le> wl_expires r"
    and "clock time < dl"
  shows "server time < wl_expires r"
  using drift [OF assms(2)] assms(3-5) by linarith

lemma backed_exec:
  assumes drift: "\<And>s t. s \<le> t \<Longrightarrow> server t - server s \<le> (clock t - clock s) + mg_margin m"
    and mono: "mono server"
    and ex: "exec_stmt snapshot (server time) mq st tab = (rp, tab')"
    and dist: "distinct (map wl_worker tab)"
    and b: "backed clock server m time tab l dl"
    and renew: "\<And>l'. st = StRenew l' \<Longrightarrow> le_Token l' = le_Token l \<Longrightarrow> mg_ttl mq = mg_ttl m"
    and release: "\<And>l'. st = StRelease l' \<Longrightarrow> le_Token l' = le_Token l \<Longrightarrow> dl \<le> clock time"
  shows "backed clock server m time tab' l dl"
proof (cases "dl \<le> clock time")
  case True
  then show ?thesis by (simp add: backed_def)
next
  case False
  then obtain T r where r: "T \<le> time" "dl \<le> clock T + (mg_ttl m - mg_margin m)" "r \<in> set tab" "holds l r"
    "server T + mg_ttl m \<le> wl_expires r"
    using b by (auto simp: backed_def)
  have unexp: "server time < wl_expires r"
    by (rule backed_unexpired [where T = T and dl = dl and m = m and clock = clock])
      (use drift r False in auto)
  have still: ?thesis if "r' \<in> set tab'" "holds l r'" "server T + mg_ttl m \<le> wl_expires r'" for r'
    using that r(1,2) by (auto simp: backed_def)
  show ?thesis
  proof (cases st)
    case (StAcquire tok n)
    obtain res where a: "acquireSQL snapshot (server time) (mg_owner mq) tok (mg_ttl mq) tab = (res, tab')"
      using ex StAcquire by (auto split: prod.splits option.splits if_splits)
    have same: "old = r" if "old \<in> set tab" "wl_worker old = wl_worker r" for old
      using that r(3) dist by (auto simp: distinct_map dest: inj_onD)
    have "r \<in> set tab'"
    proof (rule acquireSQL_cases [OF a])
      fix gs new
      assume old: "\<exists>old \<in> set tab. wl_worker old = gs \<and> wl_expires old \<le> server time"
        and tab': "tab' = map (\<lambda>wl. if wl_worker wl = gs then new else wl) tab"
      have "wl_worker r \<noteq> gs" using old same unexp by force
      then show "r \<in> set tab'" using r(3) by (auto simp: tab' image_iff)
    qed (use r(3) in auto)
    then show ?thesis using still r(4,5) by blast
  next
    case (StRenew l')
    define r' where "r' = (if holds l' r \<and> wl_expires r > server time
      then r\<lparr>wl_renewed := server time, wl_expires := server time + mg_ttl mq\<rparr> else r)"
    have "tab' = snd (renewSQL l' (server time) (mg_ttl mq) tab)" using ex StRenew by (auto split: prod.splits)
    then have "r' \<in> set tab'" using r(3) by (auto simp: renewSQL_def r'_def)
    moreover have "holds l r'" using r(4) by (simp add: r'_def holds_def)
    moreover have "server T + mg_ttl m \<le> wl_expires r'"
    proof (cases "holds l' r")
      case True
      then have "mg_ttl mq = mg_ttl m" using renew [OF StRenew] r(4) by (simp add: holds_def)
      moreover have "server T \<le> server time" using mono r(1) by (simp add: monoD)
      ultimately show ?thesis using r(5) by (simp add: r'_def)
    next
      case False
      then show ?thesis using r(5) by (simp add: r'_def)
    qed
    ultimately show ?thesis by (rule still)
  next
    case (StRelease l')
    then have "tab' = releaseSQL l' tab" using ex by simp
    moreover have "\<not> holds l' r" using release [OF StRelease] False r(4) by (auto simp: holds_def)
    ultimately show ?thesis using still [of r] r(3-5) by (simp add: releaseSQL_def)
  qed
qed

text \<open>What an answer to one's own statement grants.\<close>

lemma exec_grants:
  assumes "exec_stmt snapshot (server time) m st tab = (Some rp, tab')"
    and "T \<le> time" "mono server"
    and "rp = RpLease (Ok l) \<or> st = StRenew l \<and> rp = RpHeld (Ok True)"
  shows "backed clock server m time tab' l (clock T + (mg_ttl m - mg_margin m))"
proof -
  have sT: "server T \<le> server time" using assms(2,3) by (simp add: monoD)
  have "\<exists>r \<in> set tab'. holds l r \<and> server T + mg_ttl m \<le> wl_expires r"
  proof (cases st)
    case (StAcquire tok n)
    then obtain w where a: "acquireSQL snapshot (server time) (mg_owner m) tok (mg_ttl m) tab = (Some w, tab')"
      "l = \<lparr>le_WorkerID = w, le_Token = tok\<rparr>"
      using assms(1,4) by (auto split: prod.splits option.splits if_splits)
    show ?thesis
      using a(2) sT by (rule_tac acquireSQL_cases [OF a(1)]) (auto simp: holds_def)
  next
    case (StRenew l')
    then have n: "fst (renewSQL l (server time) (mg_ttl m) tab) = 1"
      and tab': "tab' = snd (renewSQL l (server time) (mg_ttl m) tab)"
      using assms(1,4) by (auto simp: Renew_repo_def split: prod.splits)
    from n have "filter (\<lambda>wl. holds l wl \<and> wl_expires wl > server time) tab \<noteq> []"
      by (auto simp: renewSQL_def)
    then obtain r where "r \<in> set tab" "holds l r" "wl_expires r > server time" by (auto simp: filter_empty_conv)
    then have "r\<lparr>wl_renewed := server time, wl_expires := server time + mg_ttl m\<rparr> \<in> set tab'"
      by (force simp: tab' renewSQL_def)
    then show ?thesis using \<open>holds l r\<close> sT by (intro bexI) (auto simp: holds_def)
  next
    case (StRelease l')
    then show ?thesis using assms(1,4) by auto
  qed
  then show ?thesis using assms(2) by (auto simp: backed_def)
qed

subsection \<open>The invariant\<close>

lemma pinv_config: "pinv clock server m0 time tab m w orphans \<Longrightarrow> mg_ttl m = mg_ttl m0 \<and> mg_margin m = mg_margin m0"
  by (simp add: pinv_def)

text \<open>Time passes: clocks run forward.\<close>

lemma backed_time:
  assumes "mono clock" "time \<le> time'" "backed clock server m time tab l dl"
  shows "backed clock server m time' tab l dl"
proof -
  have "clock time \<le> clock time'" using assms(1,2) by (simp add: monoD)
  then show ?thesis using assms(2,3) unfolding backed_def by (meson order_trans)
qed

lemma pinv_time:
  assumes "mono clock" "time \<le> time'" "pinv clock server m0 time tab m w orphans"
  shows "pinv clock server m0 time' tab m w orphans"
proof -
  have "clock time \<le> clock time'" using assms(1,2) by (simp add: monoD)
  then show ?thesis
    using assms(3) backed_time [OF assms(1,2)] assms(2) unfolding pinv_def
    by (auto intro: order_trans split: if_splits)
qed

text \<open>Another table: what every claim needs is that it stays backed.\<close>

lemma pinv_table:
  assumes "pinv clock server m0 time tab m w orphans"
    and "\<And>l dl. (l, dl) \<in> claims clock m w \<Longrightarrow> backed clock server m time tab l dl \<Longrightarrow>
      backed clock server m time tab' l dl"
  shows "pinv clock server m0 time tab' m w orphans"
  using assms unfolding pinv_def by (auto split: if_splits)

lemma claim_token:
  assumes "wait_shape m w" "(l, dl) \<in> claims clock m w"
  shows "le_Token l \<in> tokens m w orphans"
  using assms unfolding claims_def tokens_def wait_shape_def by fastforce

lemma released_tokens: "released w orphans \<subseteq> tokens m w orphans"
  by (force simp: released_def tokens_def)

lemma claim_released:
  assumes "pinv clock server m0 time tab m w orphans" "(l, dl) \<in> claims clock m w"
    and "le_Token l \<in> released w orphans"
  shows "dl \<le> clock time"
  using assms unfolding pinv_def claims_def wait_shape_def
  by (fastforce split: if_splits)

lemma pinv_shape: "pinv clock server m0 time tab m w orphans \<Longrightarrow> wait_shape m w"
  by (simp add: pinv_def)

definition drifts :: "(nat \<Rightarrow> instant) \<Rightarrow> (nat \<Rightarrow> instant) \<Rightarrow> duration \<Rightarrow> bool" where
  "drifts clock server margin \<longleftrightarrow>
     mono server \<and> mono clock \<and> (\<forall>t. zero_time \<le> clock t) \<and>
     (\<forall>s t. s \<le> t \<longrightarrow> server t - server s \<le> (clock t - clock s) + margin)"

text \<open>A statement of another process, whose tokens are its own, cannot hurt.\<close>

lemma pinv_exec_other:
  assumes "drifts clock server (mg_margin m0)" "pinv clock server m0 time tab m w orphans"
    and "exec_stmt snapshot (server time) mq st tab = (rp, tab')" "distinct (map wl_worker tab)"
    and "stmt_token st \<notin> tokens m w orphans"
  shows "pinv clock server m0 time tab' m w orphans"
proof (rule pinv_table [OF assms(2)])
  fix l dl assume c: "(l, dl) \<in> claims clock m w" "backed clock server m time tab l dl"
  have ne: "stmt_token st \<noteq> le_Token l" using claim_token [OF pinv_shape [OF assms(2)] c(1)] assms(5) by metis
  show "backed clock server m time tab' l dl"
    by (rule backed_exec [where mq = mq and st = st and rp = rp and snapshot = snapshot and tab = tab])
      (use assms c(2) ne pinv_config [OF assms(2)] in \<open>auto simp: drifts_def\<close>)
qed

text \<open>A statement of the process itself, pending or abandoned.\<close>

lemma pinv_exec_own:
  assumes "drifts clock server (mg_margin m0)" "pinv clock server m0 time tab m w orphans"
    and "exec_stmt snapshot (server time) m st tab = (rp, tab')" "distinct (map wl_worker tab)"
    and "wait_stmt w = Some st \<or> st \<in> orphans"
  shows "pinv clock server m0 time tab' m w orphans"
proof (rule pinv_table [OF assms(2)])
  fix l dl assume c: "(l, dl) \<in> claims clock m w" "backed clock server m time tab l dl"
  have rel: "dl \<le> clock time" if "st = StRelease l'" "le_Token l' = le_Token l" for l'
  proof -
    have "le_Token l' \<in> released w orphans" using assms(5) that(1) unfolding released_def by blast
    then show ?thesis using claim_released [OF assms(2) c(1)] that(2) by simp
  qed
  show "backed clock server m time tab' l dl"
    by (rule backed_exec [where mq = m and st = st and rp = rp and snapshot = snapshot and tab = tab])
      (use assms c(2) rel pinv_config [OF assms(2)] in \<open>auto simp: drifts_def\<close>)
qed

text \<open>The moves of a process that leave the table alone.\<close>

lemma claims_sent [simp]: "claims clock m (Sent st T) = claims clock m Idle"
  by (auto simp: claims_def)

lemma released_simps [simp]:
  "released Idle orphans = {le_Token l | l. StRelease l \<in> orphans}"
  "\<not> is_release st \<Longrightarrow> released (Sent st T) orphans = released Idle orphans"
  "\<not> is_release st \<Longrightarrow> released (Replied st T rp) orphans = released Idle orphans"
  by (auto simp: released_def)

lemma releasing_simps [simp]:
  "\<not> releasing Idle" "releasing (Sent st T) = is_release st" "releasing (Replied st T rp) = is_release st"
  by (cases st; simp add: releasing_def)+

lemma pinv_send:
  assumes "pinv clock server m0 time tab m w orphans" "w = Idle \<or> (\<exists>st0 T. w = Sent st0 T \<and> \<not> is_release st0)"
    and "T \<le> time" "st = StAcquire token n" "token \<notin> tokens m w orphans"
  shows "pinv clock server m0 time tab m (Sent st T) orphans"
proof -
  have "token \<notin> released w orphans" using assms(5) released_tokens by blast
  moreover have "released w orphans = released Idle orphans" using assms(2) by auto
  ultimately have "\<And>l. StRelease l \<in> orphans \<Longrightarrow> le_Token l \<noteq> token" by auto
  then show ?thesis
    using assms(1-4) unfolding pinv_def wait_shape_def by (auto split: if_splits)
qed

lemma pinv_beat:
  assumes "pinv clock server m0 time tab m Idle orphans" "mg_cur m = Some s"
  shows "pinv clock server m0 time tab m (Sent (StRenew (ss_lease s)) time) orphans"
  using assms unfolding pinv_def wait_shape_def by (auto split: if_splits)

lemma set_deadline_simps [simp]:
  "mg_ttl (set_deadline t m) = mg_ttl m" "mg_margin (set_deadline t m) = mg_margin m"
  "mg_cur (set_deadline t m) = map_option (\<lambda>s. s\<lparr>ss_gen := Renew (ss_gen s) t\<rparr>) (mg_cur m)"
  by (auto simp: set_deadline_def split: option.splits)

lemma claims_deadline:
  "claims clock (set_deadline t m) Idle = {(ss_lease s, t) | s. mg_cur m = Some s}"
  by (auto simp: claims_def Renew_def)

lemma pinv_stop:
  assumes "drifts clock server margin" "pinv clock server m0 time tab m Idle orphans" "mg_cur m = Some s"
  shows "pinv clock server m0 time tab (halt m) (Sent (StRelease (ss_lease s)) time) orphans"
  using assms unfolding pinv_def wait_shape_def drifts_def
  by (auto simp: halt_def claims_deadline backed_def Renew_def split: if_splits)

lemma exec_reply_shape:
  assumes "exec_stmt snapshot now m st tab = (Some rp, tab')"
  shows "(\<forall>res. rp = RpLease res \<longrightarrow> (\<exists>tok n. st = StAcquire tok n \<and> (\<forall>l. res = Ok l \<longrightarrow> le_Token l = tok)))
    \<and> (\<forall>b. rp = RpHeld b \<longrightarrow> (\<exists>l. st = StRenew l))"
  using assms by (cases st) (auto split: prod.splits option.splits if_splits)

lemma pinv_reply:
  assumes "drifts clock server (mg_margin m0)" "pinv clock server m0 time tab m (Sent st T) orphans"
    and ex: "exec_stmt snapshot (server time) m st tab = (Some rp, tab')" and "distinct (map wl_worker tab)"
  shows "pinv clock server m0 time tab' m (Replied st T rp) orphans"
proof -
  have p: "pinv clock server m0 time tab' m (Sent st T) orphans"
    by (rule pinv_exec_own [OF assms(1,2) ex assms(4)]) simp
  have T: "T \<le> time" and "mono server" using p assms(1) by (auto simp: pinv_def drifts_def)
  have shape: "wait_shape m (Replied st T rp)"
    using exec_reply_shape [OF ex] pinv_shape [OF p] by (auto simp: wait_shape_def)
  have new: "(l, dl) \<in> claims clock m Idle \<or>
      dl = clock T + (mg_ttl m - mg_margin m) \<and> (rp = RpLease (Ok l) \<or> st = StRenew l \<and> rp = RpHeld (Ok True))"
    if "(l, dl) \<in> claims clock m (Replied st T rp)" for l dl
    using that by (auto simp: claims_def)
  have grounds: "backed clock server m time tab' l dl" if "(l, dl) \<in> claims clock m (Replied st T rp)" for l dl
    using new [OF that] exec_grants [OF ex T \<open>mono server\<close>] p by (auto simp: pinv_def)
  have quiet: "is_release st \<Longrightarrow> claims clock m (Replied st T rp) = claims clock m Idle"
    using ex by (cases st) (auto simp: claims_def)
  show ?thesis
  proof (cases "is_release st")
    case True
    then show ?thesis using p shape grounds quiet by (auto simp: pinv_def split: if_splits)
  next
    case False
    then show ?thesis using p shape grounds by (auto simp: pinv_def split: if_splits)
  qed
qed

lemma pinv_timeout:
  assumes "pinv clock server m0 time tab m (Sent st T) orphans"
  shows "pinv clock server m0 time tab m (Replied st T (gave_up st)) (insert st orphans)"
proof -
  have "claims clock m (Replied st T (gave_up st)) = claims clock m Idle"
    by (cases st) (auto simp: claims_def)
  moreover have "wait_shape m (Replied st T (gave_up st))"
    using pinv_shape [OF assms] by (cases st) (auto simp: wait_shape_def)
  moreover have "released Idle (insert st orphans) = released (Sent st T) orphans"
    by (cases st) (auto simp: released_def)
  ultimately show ?thesis using assms unfolding pinv_def by (cases "is_release st") auto
qed

lemma Next_keeps_lease:
  assumes "Next now g i = Some ((r, g'), j)"
  shows "workerID g' = workerID g \<and> leaseDeadline g' = leaseDeadline g"
  using assms by (auto simp: Next_def Let_def commit_id_def split: if_splits option.splits sum.splits)

lemma Next_manager_cases:
  assumes "Next_manager now m i = Some ((r, m'), j)"
  obtains "m' = m"
  | s gen where "mg_cur m = Some s" "m' = m\<lparr>mg_cur := Some (s\<lparr>ss_gen := gen\<rparr>)\<rparr>"
      "workerID gen = workerID (ss_gen s)" "leaseDeadline gen = leaseDeadline (ss_gen s)"
proof (cases "mg_cur m")
  case None
  then show ?thesis using assms that(1) by (simp add: Next_manager_def)
next
  case (Some s)
  then obtain r' gen k where n: "Next now (ss_gen s) i = Some ((r', gen), k)"
    "m' = m\<lparr>mg_cur := Some (s\<lparr>ss_gen := gen\<rparr>)\<rparr>"
    using assms by (auto simp: Next_manager_def split: option.splits prod.splits)
  from Next_keeps_lease [OF n(1)] show ?thesis by (intro that(2) [OF Some n(2)]) auto
qed

lemma pinv_mint:
  assumes "pinv clock server m0 time tab m w orphans" "Next_manager now m i = Some ((r, m'), j)"
  shows "pinv clock server m0 time tab m' w orphans \<and> tokens m' w orphans = tokens m w orphans"
proof (rule Next_manager_cases [OF assms(2)])
  fix s gen
  assume g: "mg_cur m = Some s" "m' = m\<lparr>mg_cur := Some (s\<lparr>ss_gen := gen\<rparr>)\<rparr>"
    "workerID gen = workerID (ss_gen s)" "leaseDeadline gen = leaseDeadline (ss_gen s)"
  have "claims clock m' w = claims clock m w" using g by (simp add: claims_def)
  moreover have "backed clock server m' = backed clock server m" using g by (simp add: backed_def fun_eq_iff)
  moreover have "wait_shape m' w = wait_shape m w" using g by (simp add: wait_shape_def)
  moreover have "tokens m' w orphans = tokens m w orphans" using g by (simp add: tokens_def)
  ultimately show ?thesis using assms(1) g by (simp add: pinv_def)
qed (use assms(1) in simp)

lemma NewGenerator_fields: "NewGenerator w e = Ok gen \<Longrightarrow> workerID gen = w"
  by (auto simp: NewGenerator_def split: if_splits)

lemma pinv_received:
  assumes d: "drifts clock server margin" and p: "pinv clock server m0 time tab m (Replied st T rp) orphans"
    and r: "receive (clock T) rp m = (m', again)"
  shows "pinv clock server m0 time tab m' Idle orphans"
    "tokens m' Idle orphans \<subseteq> tokens m (Replied st T rp) orphans"
proof -
  have keep: "pinv clock server m0 time tab m Idle orphans" if "\<not> is_release st"
    using p that unfolding pinv_def by (auto simp: claims_def wait_shape_def split: if_splits)
  have "pinv clock server m0 time tab m' Idle orphans \<and> tokens m' Idle orphans \<subseteq> tokens m (Replied st T rp) orphans"
  proof (cases rp)
    case (RpLease res)
    then obtain tok n where st: "st = StAcquire tok n" "\<And>l. res = Ok l \<Longrightarrow> le_Token l = tok"
      using pinv_shape [OF p] by (auto simp: wait_shape_def)
    show ?thesis
    proof (cases "\<exists>l gen. res = Ok l \<and> NewGenerator (le_WorkerID l) defaultEpoch = Ok gen")
      case False
      then have "m' = m" using r RpLease by (auto simp: acquire_def install_def split: sum.splits)
      then show ?thesis using keep st by (auto simp: tokens_def)
    next
      case True
      then obtain l gen where l: "res = Ok l" "NewGenerator (le_WorkerID l) defaultEpoch = Ok gen" by auto
      let ?dl = "clock T + (mg_ttl m - mg_margin m)"
      have m': "m' = m\<lparr>mg_cur := Some \<lparr>ss_lease = l, ss_gen = Renew gen ?dl\<rparr>\<rparr>"
        using r l RpLease by (simp add: acquire_def install_def)
      have "(l, ?dl) \<in> claims clock m (Replied st T rp)" using RpLease l by (auto simp: claims_def)
      then have "backed clock server m time tab l ?dl" using p by (auto simp: pinv_def)
      then have bk: "backed clock server m' time tab l ?dl" by (simp add: backed_def m')
      have cl: "claims clock m' Idle = {(l, ?dl)}" by (auto simp: claims_def m' Renew_def)
      have "le_Token l \<notin> released Idle orphans"
        using p st l RpLease unfolding pinv_def by (auto split: if_splits)
      then have "pinv clock server m0 time tab m' Idle orphans"
        using p bk cl NewGenerator_fields [OF l(2)]
        by (auto simp: pinv_def m' wait_shape_def Renew_def)
      then show ?thesis using st l by (auto simp: tokens_def m')
    qed
  next
    case (RpHeld res)
    then obtain l s where st: "st = StRenew l" and s: "mg_cur m = Some s" "ss_lease s = l"
      using pinv_shape [OF p] by (auto simp: wait_shape_def)
    have z: "zero_time \<le> clock time" using d by (simp add: drifts_def)
    have upd: "pinv clock server m0 time tab (set_deadline t m) Idle orphans"
      if "backed clock server m time tab l t" for t
    proof -
      have "backed clock server (set_deadline t m) = backed clock server m" by (simp add: backed_def fun_eq_iff)
      then show ?thesis
        using keep st s that by (auto simp: pinv_def wait_shape_def claims_deadline Renew_def)
    qed
    have toks: "tokens (set_deadline t m) Idle orphans \<subseteq> tokens m (Replied st T rp) orphans" for t
      using s by (auto simp: tokens_def)
    consider e where "res = Err e" | "res = Ok True" | "res = Ok False" by (cases res) auto
    then show ?thesis
    proof cases
      case 1
      then have "m' = m" using r RpHeld by (simp add: beat_def)
      then show ?thesis using keep st by (auto simp: tokens_def)
    next
      case 2
      then have "m' = set_deadline (clock T + (mg_ttl m - mg_margin m)) m" using r RpHeld by (simp add: beat_def)
      moreover have "(l, clock T + (mg_ttl m - mg_margin m)) \<in> claims clock m (Replied st T rp)"
        using st RpHeld 2 by (auto simp: claims_def)
      then have "backed clock server m time tab l (clock T + (mg_ttl m - mg_margin m))"
        using p by (auto simp: pinv_def)
      ultimately show ?thesis using upd toks by simp
    next
      case 3
      then have "m' = set_deadline zero_time m" using r RpHeld by (simp add: beat_def)
      moreover have "backed clock server m time tab l zero_time" using z by (simp add: backed_def)
      ultimately show ?thesis using upd toks by simp
    qed
  next
    case RpReleased
    then show ?thesis
      using r p unfolding pinv_def by (auto simp: clear_def claims_def wait_shape_def tokens_def)
  qed
  then show "pinv clock server m0 time tab m' Idle orphans"
    "tokens m' Idle orphans \<subseteq> tokens m (Replied st T rp) orphans" by auto
qed

subsection \<open>Every step keeps the invariant\<close>

abbreviation proc_ok :: "(nat \<Rightarrow> nat \<Rightarrow> instant) \<Rightarrow> (nat \<Rightarrow> instant) \<Rightarrow> (nat \<Rightarrow> manager) \<Rightarrow> lsys \<Rightarrow> nat \<Rightarrow> bool" where
  "proc_ok local server ms y q \<equiv>
     pinv (local q) server (ms q) (ls_time y) (ls_tab y) (ls_mgr y q) (ls_wait y q) (orphans_of y q)"

abbreviation proc_tokens :: "lsys \<Rightarrow> nat \<Rightarrow> nat set" where
  "proc_tokens y q \<equiv> tokens (ls_mgr y q) (ls_wait y q) (orphans_of y q)"

lemma linvD:
  assumes "linv local server ms y"
  shows "distinct (map wl_worker (ls_tab y))" "proc_ok local server ms y q" "proc_tokens y q \<subseteq> ls_used y"
    "q \<noteq> q' \<Longrightarrow> proc_tokens y q \<inter> proc_tokens y q' = {}"
  using assms by (simp_all add: linv_def)

lemma linv_fresh: "linv local server ms y \<Longrightarrow> token \<notin> ls_used y \<Longrightarrow> token \<notin> proc_tokens y q"
  using linvD(3) by blast

lemma linv_local:
  assumes inv: "linv local server ms y"
    and same: "\<And>q. q \<noteq> p \<Longrightarrow> ls_mgr y' q = ls_mgr y q \<and> ls_wait y' q = ls_wait y q \<and> orphans_of y' q = orphans_of y q"
    and tab: "distinct (map wl_worker (ls_tab y'))"
    and proc: "proc_ok local server ms y' p"
    and others: "\<And>q. q \<noteq> p \<Longrightarrow> proc_ok local server ms y' q"
    and toks: "proc_tokens y' p \<subseteq> proc_tokens y p \<union> fresh" "fresh \<inter> ls_used y = {}"
      "ls_used y \<union> fresh \<subseteq> ls_used y'"
  shows "linv local server ms y'"
proof -
  have old: "\<And>q. proc_tokens y q \<subseteq> ls_used y" "\<And>q q'. q \<noteq> q' \<Longrightarrow> proc_tokens y q \<inter> proc_tokens y q' = {}"
    using inv by (auto simp: linv_def)
  have eq: "proc_tokens y' q = proc_tokens y q" if "q \<noteq> p" for q using same [OF that] by simp
  have sub: "proc_tokens y' q \<subseteq> ls_used y'" for q
  proof (cases "q = p")
    case True
    then show ?thesis using toks old(1) [of p] by blast
  next
    case False
    then show ?thesis using eq old(1) [of q] toks(3) by blast
  qed
  have apart: "proc_tokens y' p \<inter> proc_tokens y' q = {}" if "q \<noteq> p" for q
    using toks(1,2) old(1) [of q] old(2) [of p q] eq [OF that] that by blast
  have "proc_tokens y' q \<inter> proc_tokens y' q' = {}" if "q \<noteq> q'" for q q'
    using that apart [of q] apart [of q'] old(2) [OF that] eq by (cases "q = p"; cases "q' = p") auto
  then show ?thesis
    unfolding linv_def using tab proc others sub by metis
qed

lemma drift_boundedD:
  "drift_bounded local server (\<lambda>p. mg_margin (ms p)) \<Longrightarrow> drifts (local p) server (mg_margin (ms p))"
  by (simp add: drift_bounded_def drifts_def)

text \<open>The table changes by a statement of \<open>p\<close>: the others are not touched.\<close>

lemma exec_others:
  assumes "linv local server ms y" "drift_bounded local server (\<lambda>p. mg_margin (ms p))" "q \<noteq> p"
    and "exec_stmt snapshot (server (ls_time y)) (ls_mgr y p) st (ls_tab y) = (rp, tab')"
    and "stmt_token st \<in> proc_tokens y p"
  shows "pinv (local q) server (ms q) (ls_time y) tab' (ls_mgr y q) (ls_wait y q) (orphans_of y q)"
proof (rule pinv_exec_other [OF drift_boundedD [OF assms(2)] _ assms(4)])
  show "proc_ok local server ms y q" "distinct (map wl_worker (ls_tab y))" using linvD [OF assms(1)] by auto
  show "stmt_token st \<notin> proc_tokens y q" using linvD(4) [OF assms(1), of q p] assms(3,5) by blast
qed

lemma orphans_of_simps [simp]:
  "orphans_of (y\<lparr>ls_tab := a\<rparr>) q = orphans_of y q" "orphans_of (y\<lparr>ls_mgr := b\<rparr>) q = orphans_of y q"
  "orphans_of (y\<lparr>ls_wait := c\<rparr>) q = orphans_of y q" "orphans_of (y\<lparr>ls_used := e\<rparr>) q = orphans_of y q"
  "orphans_of (y\<lparr>ls_time := t\<rparr>) q = orphans_of y q"
  "orphans_of (y\<lparr>ls_wait := c, ls_orphans := insert (p, st) (ls_orphans y)\<rparr>) q =
     (if q = p then insert st (orphans_of y q) else orphans_of y q)"
  by (auto simp: orphans_of_def)

lemma linv_step:
  assumes "lstep local server y y'" "linv local server ms y" "drift_bounded local server (\<lambda>p. mg_margin (ms p))"
  shows "linv local server ms y'"
  using assms(1)
proof cases
  case (tick t)
  have "mono (local p)" for p using assms(3) by (simp add: drift_bounded_def)
  then show ?thesis using assms(2) tick pinv_time by (auto simp: linv_def)
next
  case (start p token)
  note ok = linvD(2) [OF assms(2), of p] linv_fresh [OF assms(2) start(4), of p]
  have "pinv (local p) server (ms p) (ls_time y) (ls_tab y) (ls_mgr y p)
      (Sent (StAcquire token 0) (ls_time y)) (orphans_of y p)"
    by (rule pinv_send [OF ok(1)]) (use ok(2) start in auto)
  then show ?thesis
    using linvD(1-3) [OF assms(2)] start
    by (intro linv_local [OF assms(2), where p = p and fresh = "{token}"]) (auto simp: tokens_def)
next
  case (beat_sent p s)
  have "pinv (local p) server (ms p) (ls_time y) (ls_tab y) (ls_mgr y p)
      (Sent (StRenew (ss_lease s)) (ls_time y)) (orphans_of y p)"
    by (rule pinv_beat) (use linvD(2) [OF assms(2), of p] beat_sent in auto)
  then show ?thesis
    using linvD(1-3) [OF assms(2)] beat_sent
    by (intro linv_local [OF assms(2), where p = p and fresh = "{}"]) (auto simp: tokens_def)
next
  case (stop p s)
  have "pinv (local p) server (ms p) (ls_time y) (ls_tab y) (halt (ls_mgr y p))
      (Sent (StRelease (ss_lease s)) (ls_time y)) (orphans_of y p)"
    by (rule pinv_stop [OF drift_boundedD [OF assms(3)]]) (use linvD(2) [OF assms(2), of p] stop in auto)
  then show ?thesis
    using linvD(1-3) [OF assms(2)] stop
    by (intro linv_local [OF assms(2), where p = p and fresh = "{}"]) (auto simp: tokens_def halt_def)
next
  case (execute p st T snapshot rp tab)
  note inv = linvD(2) [OF assms(2), of p] linvD(1) [OF assms(2)]
  have "pinv (local p) server (ms p) (ls_time y) tab (ls_mgr y p) (Replied st T rp) (orphans_of y p)"
    by (rule pinv_reply [OF drift_boundedD [OF assms(3)] _ execute(3)]) (use inv execute in auto)
  moreover have "stmt_token st \<in> proc_tokens y p" using execute by (auto simp: tokens_def)
  note exec_others [OF assms(2,3) _ execute(3) this]
  ultimately show ?thesis
    using execute exec_distinct [OF execute(3) inv(2)] assms(2)
    by (intro linv_local [OF assms(2), where p = p and fresh = "{}"]) (auto simp: tokens_def)
next
  case (retry p tok n T snapshot tab token)
  note inv = linvD(2) [OF assms(2), of p] linvD(1) [OF assms(2)] linv_fresh [OF assms(2) retry(4), of p]
  have own: "pinv (local p) server (ms p) (ls_time y) tab (ls_mgr y p) (ls_wait y p) (orphans_of y p)"
    by (rule pinv_exec_own [OF drift_boundedD [OF assms(3)] inv(1) retry(3) inv(2)]) (use retry in auto)
  have "T \<le> ls_time y" using inv(1) retry(2) by (simp add: pinv_def)
  then have "pinv (local p) server (ms p) (ls_time y) tab (ls_mgr y p)
      (Sent (StAcquire token (Suc n)) T) (orphans_of y p)"
    by (intro pinv_send [OF own]) (use inv(3) retry(2) in auto)
  moreover have "stmt_token (StAcquire tok n) \<in> proc_tokens y p" using retry by (auto simp: tokens_def)
  note exec_others [OF assms(2,3) _ retry(3) this]
  ultimately show ?thesis
    using retry exec_distinct [OF retry(3) inv(2)] assms(2)
    by (intro linv_local [OF assms(2), where p = p and fresh = "{token}"]) (auto simp: tokens_def)
next
  case (timeout p st T)
  have "pinv (local p) server (ms p) (ls_time y) (ls_tab y) (ls_mgr y p) (Replied st T (gave_up st))
      (insert st (orphans_of y p))"
    by (rule pinv_timeout) (use linvD(2) [OF assms(2), of p] timeout in auto)
  then show ?thesis
    using linvD(1-3) [OF assms(2)] timeout
    by (intro linv_local [OF assms(2), where p = p and fresh = "{}"]) (auto simp: tokens_def)
next
  case (execute_orphan p st snapshot rp tab)
  have "st \<in> orphans_of y p" using execute_orphan by (simp add: orphans_of_def)
  note inv = linvD(2) [OF assms(2), of p] linvD(1) [OF assms(2)] this
  have "pinv (local p) server (ms p) (ls_time y) tab (ls_mgr y p) (ls_wait y p) (orphans_of y p)"
    by (rule pinv_exec_own [OF drift_boundedD [OF assms(3)] inv(1) execute_orphan(3) inv(2)]) (use inv(3) in auto)
  moreover have "stmt_token st \<in> proc_tokens y p" using inv(3) by (auto simp: tokens_def)
  note exec_others [OF assms(2,3) _ execute_orphan(3) this]
  ultimately show ?thesis
    using execute_orphan exec_distinct [OF execute_orphan(3) inv(2)]
    by (intro linv_local [OF assms(2), where p = p and fresh = "{}"]) auto
next
  case (received p st T rp m again)
  note r = pinv_received [OF drift_boundedD [OF assms(3)] linvD(2) [OF assms(2), of p, unfolded received(2)] received(3)]
  show ?thesis
    using linvD(1-3) [OF assms(2)] received r
    by (intro linv_local [OF assms(2), where p = p and fresh = "{}"]) auto
next
  case (lost p st T rp m again token)
  note ok = linvD(2) [OF assms(2), of p] linv_fresh [OF assms(2) lost(5), of p]
  note r = pinv_received [OF drift_boundedD [OF assms(3)] ok(1) [unfolded lost(2)] lost(3)]
  have "token \<notin> tokens m Idle (orphans_of y p)" using r(2) ok(2) lost(2) by auto
  from pinv_send [OF r(1) _ _ _ this] have "pinv (local p) server (ms p) (ls_time y) (ls_tab y) m
      (Sent (StAcquire token 0) (ls_time y)) (orphans_of y p)" by auto
  moreover have "tokens m (Sent (StAcquire token 0) (ls_time y)) (orphans_of y p) \<subseteq> proc_tokens y p \<union> {token}"
    using r(2) lost(2) by (auto simp: tokens_def)
  ultimately show ?thesis
    using linvD(1-3) [OF assms(2)] lost
    by (intro linv_local [OF assms(2), where p = p and fresh = "{token}"]) auto
next
  case (mint p r m k)
  note r = pinv_mint [OF linvD(2) [OF assms(2), of p] mint(2)]
  show ?thesis
    using linvD(1-3) [OF assms(2)] mint r
    by (intro linv_local [OF assms(2), where p = p and fresh = "{}"]) auto
qed

lemma linv_initial:
  assumes "\<And>p. mg_cur (ms p) = None"
  shows "linv local server ms (initial ms)"
  using assms
  by (simp add: linv_def initial_def pinv_def claims_def wait_shape_def tokens_def orphans_of_def)

lemma linv_reachable:
  assumes "(lstep local server)\<^sup>*\<^sup>* (initial ms) y" "\<And>p. mg_cur (ms p) = None"
    and "drift_bounded local server (\<lambda>p. mg_margin (ms p))"
  shows "linv local server ms y"
  using assms(1) by (induction rule: rtranclp_induct) (auto intro: linv_initial [OF assms(2)] linv_step [OF _ _ assms(3)])

text \<open>A live session owns the row of its worker id, unexpired.\<close>

lemma live_row:
  assumes inv: "linv local server ms y" and drift: "drift_bounded local server (\<lambda>p. mg_margin (ms p))"
    and s: "mg_cur (ls_mgr y p) = Some s" and live: "local p (ls_time y) < leaseDeadline (ss_gen s)"
  shows "\<exists>r \<in> set (ls_tab y). holds (ss_lease s) r \<and> server (ls_time y) < wl_expires r"
proof -
  let ?m = "ls_mgr y p"
  have p: "proc_ok local server ms y p" by (rule linvD(2) [OF inv])
  have "(ss_lease s, leaseDeadline (ss_gen s)) \<in> claims (local p) ?m (ls_wait y p)"
    using s by (auto simp: claims_def)
  then obtain T r where r: "T \<le> ls_time y" "leaseDeadline (ss_gen s) \<le> local p T + (mg_ttl ?m - mg_margin ?m)"
    "r \<in> set (ls_tab y)" "holds (ss_lease s) r" "server T + mg_ttl ?m \<le> wl_expires r"
    using p live unfolding pinv_def backed_def by fastforce
  have "server (ls_time y) < wl_expires r"
    by (rule backed_unexpired [where T = T and clock = "local p" and m = ?m and dl = "leaseDeadline (ss_gen s)"])
      (use drift pinv_config [OF p] r live in \<open>auto simp: drift_bounded_def\<close>)
  then show ?thesis using r by blast
qed

lemma Next_live:
  assumes "Next_manager (\<lambda>_. t) m i = Some ((Ok v, m'), j)"
  obtains s where "mg_cur m = Some s" "t < leaseDeadline (ss_gen s)"
proof -
  obtain s gen k where s: "mg_cur m = Some s" "Next (\<lambda>_. t) (ss_gen s) i = Some ((Ok v, gen), k)"
    using assms by (auto simp: Next_manager_def split: option.splits prod.splits)
  then have "t < leaseDeadline (ss_gen s)"
    by (auto simp: Next_def Let_def split: if_splits)
  with s(1) show thesis by (rule that)
qed

subsection \<open>Properties\<close>

text \<open>
  C17. A worker id has one minter at a time. In every reachable state of any number of processes sharing
  one lease table, with statements delayed, lost, executed after their sender gave up, and renewals,
  losses, stops and restarts interleaved at will, a process that can mint an id holds the unexpired row
  of its worker id under its own token, and no other process can mint under the same worker id at that
  moment. The clocks need not agree; the server's may only gain the safety margin on a process's.
\<close>

theorem one_minter_per_worker:
  assumes "(lstep local server)\<^sup>*\<^sup>* (initial ms) y" "\<And>p. mg_cur (ms p) = None"
    and "drift_bounded local server (\<lambda>p. mg_margin (ms p))"
    and "Next_manager (\<lambda>_. local p (ls_time y)) (ls_mgr y p) 0 = Some ((Ok v, m), k)"
  shows "\<exists>s r. mg_cur (ls_mgr y p) = Some s \<and> r \<in> set (ls_tab y) \<and> holds (ss_lease s) r \<and>
      server (ls_time y) < wl_expires r \<and> wl_worker r = workerID (ss_gen s) \<and>
      (\<forall>q v' m' k'. q \<noteq> p \<longrightarrow>
        Next_manager (\<lambda>_. local q (ls_time y)) (ls_mgr y q) 0 = Some ((Ok v', m'), k') \<longrightarrow>
        (\<exists>s'. mg_cur (ls_mgr y q) = Some s' \<and> workerID (ss_gen s') \<noteq> workerID (ss_gen s)))"
proof -
  have inv: "linv local server ms y" by (rule linv_reachable [OF assms(1-3)])
  have wid: "workerID (ss_gen s) = le_WorkerID (ss_lease s)" if "mg_cur (ls_mgr y q) = Some s" for q s
    using linvD(2) [OF inv, of q] that by (simp add: pinv_def)
  obtain s where s: "mg_cur (ls_mgr y p) = Some s" "local p (ls_time y) < leaseDeadline (ss_gen s)"
    using Next_live [OF assms(4)] by blast
  obtain r where r: "r \<in> set (ls_tab y)" "holds (ss_lease s) r" "server (ls_time y) < wl_expires r"
    using live_row [OF inv assms(3) s] by blast
  have "\<exists>s'. mg_cur (ls_mgr y q) = Some s' \<and> workerID (ss_gen s') \<noteq> workerID (ss_gen s)"
    if q: "q \<noteq> p" "Next_manager (\<lambda>_. local q (ls_time y)) (ls_mgr y q) 0 = Some ((Ok v', m'), k')" for q v' m' k'
  proof -
    obtain s' where s': "mg_cur (ls_mgr y q) = Some s'" "local q (ls_time y) < leaseDeadline (ss_gen s')"
      using Next_live [OF q(2)] by blast
    obtain r' where r': "r' \<in> set (ls_tab y)" "holds (ss_lease s') r'"
      using live_row [OF inv assms(3) s'] by blast
    have "le_Token (ss_lease s) \<noteq> le_Token (ss_lease s')"
      using linvD(4) [OF inv q(1)] s(1) s'(1) by (auto simp: tokens_def)
    then have "r \<noteq> r'" using r(2) r'(2) by (auto simp: holds_def)
    then have "wl_worker r \<noteq> wl_worker r'"
      using linvD(1) [OF inv] r(1) r'(1) by (auto simp: distinct_map dest: inj_onD)
    then show ?thesis using s' r(2) r'(2) wid [OF s(1)] wid [OF s'(1)] by (auto simp: holds_def)
  qed
  then show ?thesis using s(1) r wid [OF s(1)] by (auto simp: holds_def)
qed

definition demo_managers :: "nat \<Rightarrow> manager" where
  "demo_managers p = \<lparr>mg_owner = ''n1'', mg_ttl = 30, mg_margin = 5, mg_renewInterval = 10, mg_cur = None\<rparr>"

definition demo_local :: "nat \<Rightarrow> nat \<Rightarrow> instant" where
  "demo_local p t = defaultEpoch + 5000000"

definition demo_session :: session where
  "demo_session = \<lparr>ss_lease = \<lparr>le_WorkerID = 0, le_Token = 0\<rparr>,
     ss_gen = \<lparr>workerID = 0, epoch = defaultEpoch, lastMillis = - 1, sequence = 0,
               leaseDeadline = defaultEpoch + 5000025\<rparr>\<rparr>"

definition demo_leased :: lsys where
  "demo_leased = \<lparr>ls_time = 0,
     ls_tab = [\<lparr>wl_worker = 0, wl_owner = ''n1'', wl_token = 0, wl_acquired = 0, wl_renewed = 0, wl_expires = 30\<rparr>],
     ls_mgr = demo_managers(0 := (demo_managers 0)\<lparr>mg_cur := Some demo_session\<rparr>),
     ls_wait = (\<lambda>_. Idle), ls_orphans = {}, ls_used = {0}\<rparr>"

lemma demo_acquire:
  "exec_stmt [] 0 (demo_managers 0) (StAcquire 0 0) [] =
     (Some (RpLease (Ok \<lparr>le_WorkerID = 0, le_Token = 0\<rparr>)), ls_tab demo_leased)"
  by (simp add: acquireSQL_def free_worker_def upto_rec1 demo_managers_def demo_leased_def)

lemma demo_reachable: "(lstep demo_local (\<lambda>_. 0))\<^sup>*\<^sup>* (initial demo_managers) demo_leased"
proof -
  let ?w = "\<lambda>x. (\<lambda>_. Idle)(0 := x)"
  define y1 where "y1 = (initial demo_managers)\<lparr>ls_wait := ?w (Sent (StAcquire 0 0) 0), ls_used := {0}\<rparr>"
  define y2 where "y2 = y1\<lparr>ls_tab := ls_tab demo_leased,
    ls_wait := ?w (Replied (StAcquire 0 0) 0 (RpLease (Ok \<lparr>le_WorkerID = 0, le_Token = 0\<rparr>)))\<rparr>"
  have "lstep demo_local (\<lambda>_. 0) (initial demo_managers) y1"
    using lstep.start [of "initial demo_managers" 0 0 demo_local "\<lambda>_. 0"]
    by (simp add: y1_def initial_def demo_managers_def)
  moreover have "lstep demo_local (\<lambda>_. 0) y1 y2"
    using lstep.execute [of y1 0 "StAcquire 0 0" 0 "[]" "\<lambda>_. 0" _ _ demo_local] demo_acquire
    by (simp add: y1_def y2_def initial_def)
  moreover have r: "receive (demo_local 0 0) (RpLease (Ok \<lparr>le_WorkerID = 0, le_Token = 0\<rparr>)) (demo_managers 0) =
      ((demo_managers 0)\<lparr>mg_cur := Some demo_session\<rparr>, False)"
    by (simp add: acquire_def install_def NewGenerator_def bound_defs Renew_def demo_session_def demo_managers_def
        demo_local_def)
  have "lstep demo_local (\<lambda>_. 0) y2 demo_leased"
    using lstep.received [of y2 0 _ 0 _ demo_local _ False "\<lambda>_. 0"] r
    by (simp add: y1_def y2_def initial_def demo_leased_def fun_upd_idem)
  ultimately show ?thesis by (meson converse_rtranclp_into_rtranclp rtranclp.rtrancl_refl)
qed

lemma demo_drift: "drift_bounded demo_local (\<lambda>_. 0) (\<lambda>p. mg_margin (demo_managers p))"
  by (simp add: drift_bounded_def demo_local_def demo_managers_def mono_def defaultEpoch_def zero_time_def)

lemma demo_mint:
  "Next_manager (\<lambda>_. demo_local 0 0) (ls_mgr demo_leased 0) 0 =
     Some ((Ok 20971520, (demo_managers 0)\<lparr>mg_cur := Some (demo_session\<lparr>ss_gen :=
       (ss_gen demo_session)\<lparr>lastMillis := 5, sequence := 0\<rparr>\<rparr>)\<rparr>), 1)"
  by (simp add: Next_manager_def demo_leased_def demo_session_def demo_local_def Next_def Let_def
      millisSinceEpoch_def demo_millis commit_id_def compose_id_eq bound_defs)

theorem one_minter_per_worker_witness:
  "\<exists>s r. mg_cur (ls_mgr demo_leased 0) = Some s \<and> r \<in> set (ls_tab demo_leased) \<and> holds (ss_lease s) r \<and>
     0 < wl_expires r \<and> wl_worker r = workerID (ss_gen s)"
  using one_minter_per_worker [OF demo_reachable _ demo_drift, of 0 20971520 _ 1] demo_mint
  by (auto simp: demo_managers_def demo_leased_def)

text \<open>
  The manager is fail-closed. It mints nothing before it was started, after it was stopped or when
  it has learnt that the lease is lost; a renewal that got no answer leaves the deadline as it was; and a
  deadline a renewal or an acquisition sets lies the margin before the end of the term counted from the
  moment the request was sent.
\<close>

theorem manager_fail_closed:
  assumes "\<And>i. zero_time \<le> now i"
  shows "(mg_cur m = None \<longrightarrow> Next_manager now m i = Some ((Err ErrNotStarted, m), i))
    \<and> (\<exists>e k. Next_manager now (fst (beat m sendAt (Ok False))) i = Some ((Err e, fst (beat m sendAt (Ok False))), k))
    \<and> (\<exists>e k. Next_manager now (halt m) i = Some ((Err e, halt m), k))
    \<and> fst (beat m sendAt (Err err)) = m
    \<and> (\<forall>s. mg_cur (fst (beat m sendAt (Ok True))) = Some s \<longrightarrow>
         leaseDeadline (ss_gen s) = sendAt + (mg_ttl m - mg_margin m))
    \<and> (\<forall>s. fst (acquire m sendAt res) = Ok s \<longrightarrow>
         leaseDeadline (ss_gen s) = sendAt + (mg_ttl m - mg_margin m))"
proof -
  have halted: "\<exists>e k. Next_manager now (set_deadline zero_time m) i = Some ((Err e, set_deadline zero_time m), k)"
  proof (cases "mg_cur m")
    case None
    then show ?thesis by (simp add: Next_manager_def set_deadline_def)
  next
    case (Some s)
    have "\<not> now i < zero_time" using assms [of i] by simp
    then have "Next now (Renew (ss_gen s) zero_time) i = Some ((Err ErrLeaseExpired, Renew (ss_gen s) zero_time), Suc i)"
      by (simp add: Next_def Renew_def)
    then show ?thesis by (simp add: Next_manager_def set_deadline_def Some)
  qed
  have "\<forall>s. fst (acquire m sendAt res) = Ok s \<longrightarrow> leaseDeadline (ss_gen s) = sendAt + (mg_ttl m - mg_margin m)"
    by (auto simp: acquire_def Renew_def split: sum.splits)
  moreover have "\<forall>s. mg_cur (fst (beat m sendAt (Ok True))) = Some s \<longrightarrow>
      leaseDeadline (ss_gen s) = sendAt + (mg_ttl m - mg_margin m)"
    by (auto simp: beat_def Renew_def)
  ultimately show ?thesis
    using halted by (simp add: beat_def halt_def Next_manager_def)
qed

theorem manager_fail_closed_witness:
  "Next_manager (\<lambda>_. 0) (demo_managers 0) 0 = Some ((Err ErrNotStarted, demo_managers 0), 0)
   \<and> (\<exists>e k. Next_manager (\<lambda>_. 0) (halt (ls_mgr demo_leased 0)) 0 = Some ((Err e, halt (ls_mgr demo_leased 0)), k))"
proof -
  have z: "zero_time \<le> (0 :: int)" by (simp add: zero_time_def)
  show ?thesis
    using manager_fail_closed [of "\<lambda>_. 0" "demo_managers 0", OF z] manager_fail_closed [of "\<lambda>_. 0" "ls_mgr demo_leased 0", OF z]
    by (simp add: demo_managers_def)
qed

subsection \<open>Handing a worker id over\<close>

text \<open>Two hosts whose clocks run alike, the first ten milliseconds ahead of the second.\<close>

definition skew_local :: "nat \<Rightarrow> nat \<Rightarrow> instant" where
  "skew_local p t = defaultEpoch + (if p = 0 then 10000000 else 0) + int t * 1000000"

definition skew_server :: "nat \<Rightarrow> instant" where
  "skew_server t = int t * 1000000"

definition skew_manager :: manager where
  "skew_manager = \<lparr>mg_owner = ''n'', mg_ttl = 30000000000, mg_margin = 5000000000,
     mg_renewInterval = 10000000000, mg_cur = None\<rparr>"

definition skew_row :: "nat \<Rightarrow> nat \<Rightarrow> lease_row" where
  "skew_row tok t = \<lparr>wl_worker = 0, wl_owner = ''n'', wl_token = tok, wl_acquired = skew_server t,
     wl_renewed = skew_server t, wl_expires = skew_server t + 30000000000\<rparr>"

definition skew_session :: "nat \<Rightarrow> instant \<Rightarrow> int \<Rightarrow> session" where
  "skew_session tok deadline millis = \<lparr>ss_lease = \<lparr>le_WorkerID = 0, le_Token = tok\<rparr>,
     ss_gen = \<lparr>workerID = 0, epoch = defaultEpoch, lastMillis = millis, sequence = 0, leaseDeadline = deadline\<rparr>\<rparr>"

text \<open>The state: the time, the table, the sessions and the waits of the two hosts, the tokens drawn.\<close>

definition skew_sys ::
  "nat \<Rightarrow> lease_row list \<Rightarrow> session option \<Rightarrow> waiting \<Rightarrow> session option \<Rightarrow> waiting \<Rightarrow> nat set \<Rightarrow> lsys" where
  "skew_sys t tab s0 w0 s1 w1 used = \<lparr>ls_time = t, ls_tab = tab,
     ls_mgr = (\<lambda>p. skew_manager\<lparr>mg_cur := if p = 0 then s0 else if p = 1 then s1 else None\<rparr>),
     ls_wait = (\<lambda>p. if p = 0 then w0 else if p = 1 then w1 else Idle), ls_orphans = {}, ls_used = used\<rparr>"

abbreviation skew_step :: "lsys \<Rightarrow> lsys \<Rightarrow> bool" where
  "skew_step \<equiv> lstep skew_local skew_server"

definition skew_dl :: "nat \<Rightarrow> nat \<Rightarrow> instant" where
  "skew_dl p t = skew_local p t + 25000000000"

abbreviation skew_lease :: "nat \<Rightarrow> (lease_error, lease) result" where
  "skew_lease tok \<equiv> Ok \<lparr>le_WorkerID = 0, le_Token = tok\<rparr>"

lemma skew_exec:
  "exec_stmt [] (skew_server t) (skew_manager\<lparr>mg_cur := c\<rparr>) (StAcquire tok 0) [] =
     (Some (RpLease (skew_lease tok)), [skew_row tok t])"
  by (simp add: acquireSQL_def free_worker_def upto_rec1 skew_manager_def skew_row_def)

lemma skew_receive:
  "receive (skew_local p T) (RpLease (skew_lease tok)) (skew_manager\<lparr>mg_cur := c\<rparr>) =
     (skew_manager\<lparr>mg_cur := Some (skew_session tok (skew_dl p T) (- 1))\<rparr>, False)"
  by (simp add: acquire_def install_def NewGenerator_def bound_defs Renew_def skew_session_def skew_manager_def skew_dl_def)

lemma skew_millis: "milliseconds (time_sub (defaultEpoch + 10000000) defaultEpoch) = 10"
  by (simp add: milliseconds_def time_sub_def clamp_int64_def max_int64_def min_int64_def)

lemma skew_next:
  assumes "skew_local p t = defaultEpoch + 10000000" "defaultEpoch + 10000000 < d"
  shows "Next_manager (\<lambda>_. skew_local p t) (skew_manager\<lparr>mg_cur := Some (skew_session tok d (- 1))\<rparr>) 0 =
    Some ((Ok 41943040, skew_manager\<lparr>mg_cur := Some (skew_session tok d 10)\<rparr>), 1)"
  using assms
  by (simp add: Next_manager_def skew_session_def Next_def Let_def millisSinceEpoch_def skew_millis commit_id_def
      compose_id_eq bound_defs)

lemma skew_sys_simps [simp]:
  "ls_time (skew_sys t tab s0 w0 s1 w1 u) = t" "ls_tab (skew_sys t tab s0 w0 s1 w1 u) = tab"
  "ls_used (skew_sys t tab s0 w0 s1 w1 u) = u"
  "ls_mgr (skew_sys t tab s0 w0 s1 w1 u) 0 = skew_manager\<lparr>mg_cur := s0\<rparr>"
  "ls_mgr (skew_sys t tab s0 w0 s1 w1 u) (Suc 0) = skew_manager\<lparr>mg_cur := s1\<rparr>"
  "ls_wait (skew_sys t tab s0 w0 s1 w1 u) 0 = w0" "ls_wait (skew_sys t tab s0 w0 s1 w1 u) (Suc 0) = w1"
  by (simp_all add: skew_sys_def)

lemma skew_sys_upds [simp]:
  "(skew_sys t tab s0 w0 s1 w1 u)\<lparr>ls_time := t'\<rparr> = skew_sys t' tab s0 w0 s1 w1 u"
  "(skew_sys t tab s0 w0 s1 w1 u)\<lparr>ls_tab := tab'\<rparr> = skew_sys t tab' s0 w0 s1 w1 u"
  "(skew_sys t tab s0 w0 s1 w1 u)\<lparr>ls_used := u'\<rparr> = skew_sys t tab s0 w0 s1 w1 u'"
  "(skew_sys t tab s0 w0 s1 w1 u)\<lparr>ls_wait := (ls_wait (skew_sys t tab' s0' w0 s1' w1 u'))(0 := w)\<rparr> =
     skew_sys t tab s0 w s1 w1 u"
  "(skew_sys t tab s0 w0 s1 w1 u)\<lparr>ls_wait := (ls_wait (skew_sys t tab' s0' w0 s1' w1 u'))(Suc 0 := w)\<rparr> =
     skew_sys t tab s0 w0 s1 w u"
  "(skew_sys t tab s0 w0 s1 w1 u)\<lparr>ls_mgr := (ls_mgr (skew_sys t tab' s0 w0' s1 w1' u'))(0 := skew_manager\<lparr>mg_cur := c\<rparr>)\<rparr> =
     skew_sys t tab c w0 s1 w1 u"
  "(skew_sys t tab s0 w0 s1 w1 u)\<lparr>ls_mgr := (ls_mgr (skew_sys t tab' s0 w0' s1 w1' u'))(Suc 0 := skew_manager\<lparr>mg_cur := c\<rparr>)\<rparr> =
     skew_sys t tab s0 w0 c w1 u"
  by (auto simp: skew_sys_def fun_eq_iff)

text \<open>Host 0 acquires worker 0, mints, stops and releases; ten milliseconds later host 1 acquires it.\<close>

lemma skew_acquire0:
  "skew_step\<^sup>*\<^sup>* (skew_sys 0 [] None Idle None Idle {})
     (skew_sys 0 [skew_row 0 0] (Some (skew_session 0 (skew_dl 0 0) (- 1))) Idle None Idle {0})"
proof -
  have "skew_step (skew_sys 0 [] None Idle None Idle {})
      (skew_sys 0 [] None (Sent (StAcquire 0 0) 0) None Idle {0})"
    using lstep.start [of "(skew_sys 0 [] None Idle None Idle {})" 0 0 skew_local skew_server] by simp
  moreover have "skew_step (skew_sys 0 [] None (Sent (StAcquire 0 0) 0) None Idle {0})
      (skew_sys 0 [skew_row 0 0] None (Replied (StAcquire 0 0) 0 (RpLease (skew_lease 0))) None Idle {0})"
    using lstep.execute [of "(skew_sys 0 [] None (Sent (StAcquire 0 0) 0) None Idle {0})" 0 "StAcquire 0 0" 0 "[]"
        skew_server _ _ skew_local] skew_exec [of 0 None 0] by simp
  moreover have "skew_step (skew_sys 0 [skew_row 0 0] None (Replied (StAcquire 0 0) 0 (RpLease (skew_lease 0))) None Idle {0})
      (skew_sys 0 [skew_row 0 0] (Some (skew_session 0 (skew_dl 0 0) (- 1))) Idle None Idle {0})"
    using lstep.received [of "(skew_sys 0 [skew_row 0 0] None (Replied (StAcquire 0 0) 0 (RpLease (skew_lease 0))) None Idle {0})" 0 _ 0 _ skew_local
        "(skew_manager\<lparr>mg_cur := (Some (skew_session 0 (skew_dl 0 0) (- 1)))\<rparr>)" False skew_server] skew_receive [of 0 0 0 None] by simp
  ultimately show ?thesis by (meson converse_rtranclp_into_rtranclp rtranclp.rtrancl_refl)
qed

lemma skew_handover:
  "skew_step\<^sup>*\<^sup>* (skew_sys 0 [skew_row 0 0] (Some (skew_session 0 (skew_dl 0 0) 10)) Idle None Idle {0})
     (skew_sys 0 [] None Idle None Idle {0})"
proof -
  have "skew_step (skew_sys 0 [skew_row 0 0] (Some (skew_session 0 (skew_dl 0 0) 10)) Idle None Idle {0})
      (skew_sys 0 [skew_row 0 0] (Some (skew_session 0 zero_time 10)) (Sent (StRelease \<lparr>le_WorkerID = 0, le_Token = 0\<rparr>) 0) None Idle {0})"
    using lstep.stop [of "(skew_sys 0 [skew_row 0 0] (Some (skew_session 0 (skew_dl 0 0) 10)) Idle None Idle {0})" 0 _ skew_local skew_server]
    by (simp add: halt_def set_deadline_def Renew_def skew_session_def)
  moreover have "skew_step (skew_sys 0 [skew_row 0 0] (Some (skew_session 0 zero_time 10)) (Sent (StRelease \<lparr>le_WorkerID = 0, le_Token = 0\<rparr>) 0) None Idle {0})
      (skew_sys 0 [] (Some (skew_session 0 zero_time 10)) (Replied (StRelease \<lparr>le_WorkerID = 0, le_Token = 0\<rparr>) 0 RpReleased) None Idle {0})"
    using lstep.execute [of "(skew_sys 0 [skew_row 0 0] (Some (skew_session 0 zero_time 10)) (Sent (StRelease \<lparr>le_WorkerID = 0, le_Token = 0\<rparr>) 0) None Idle {0})" 0 "StRelease \<lparr>le_WorkerID = 0, le_Token = 0\<rparr>" 0 "[]"
        skew_server RpReleased "[]" skew_local] by (simp add: releaseSQL_def holds_def skew_row_def)
  moreover have "skew_step (skew_sys 0 [] (Some (skew_session 0 zero_time 10)) (Replied (StRelease \<lparr>le_WorkerID = 0, le_Token = 0\<rparr>) 0 RpReleased) None Idle {0})
      (skew_sys 0 [] None Idle None Idle {0})"
    using lstep.received [of "(skew_sys 0 [] (Some (skew_session 0 zero_time 10)) (Replied (StRelease \<lparr>le_WorkerID = 0, le_Token = 0\<rparr>) 0 RpReleased) None Idle {0})" 0 _ 0 _ skew_local "(skew_manager\<lparr>mg_cur := None\<rparr>)" False skew_server]
    by (simp add: clear_def)
  ultimately show ?thesis by (meson converse_rtranclp_into_rtranclp rtranclp.rtrancl_refl)
qed

lemma skew_acquire1:
  "skew_step\<^sup>*\<^sup>* (skew_sys 0 [] None Idle None Idle {0})
     (skew_sys 10 [skew_row 1 10] None Idle (Some (skew_session 1 (skew_dl 1 10) (- 1))) Idle {0, 1})"
proof -
  have "skew_step (skew_sys 0 [] None Idle None Idle {0})
      (skew_sys 10 [] None Idle None Idle {0})"
    using lstep.tick [of "(skew_sys 0 [] None Idle None Idle {0})" 10 skew_local skew_server] by simp
  moreover have "skew_step (skew_sys 10 [] None Idle None Idle {0})
      (skew_sys 10 [] None Idle None (Sent (StAcquire 1 0) 10) {0, 1})"
    using lstep.start [of "(skew_sys 10 [] None Idle None Idle {0})" 1 1 skew_local skew_server] by (simp add: insert_commute)
  moreover have "skew_step (skew_sys 10 [] None Idle None (Sent (StAcquire 1 0) 10) {0, 1})
      (skew_sys 10 [skew_row 1 10] None Idle None (Replied (StAcquire 1 0) 10 (RpLease (skew_lease 1))) {0, 1})"
    using lstep.execute [of "(skew_sys 10 [] None Idle None (Sent (StAcquire 1 0) 10) {0, 1})" 1 "StAcquire 1 0" 10 "[]"
        skew_server _ _ skew_local] skew_exec [of 10 None 1] by simp
  moreover have "skew_step (skew_sys 10 [skew_row 1 10] None Idle None (Replied (StAcquire 1 0) 10 (RpLease (skew_lease 1))) {0, 1})
      (skew_sys 10 [skew_row 1 10] None Idle (Some (skew_session 1 (skew_dl 1 10) (- 1))) Idle {0, 1})"
    using lstep.received [of "(skew_sys 10 [skew_row 1 10] None Idle None (Replied (StAcquire 1 0) 10 (RpLease (skew_lease 1))) {0, 1})" 1 _ 10 _ skew_local
        "(skew_manager\<lparr>mg_cur := (Some (skew_session 1 (skew_dl 1 10) (- 1)))\<rparr>)" False skew_server] skew_receive [of 1 10 1 None] by simp
  ultimately show ?thesis by (meson converse_rtranclp_into_rtranclp rtranclp.rtrancl_refl)
qed

lemma skew_drift: "drift_bounded skew_local skew_server (\<lambda>p. mg_margin skew_manager)"
  by (auto simp: drift_bounded_def skew_local_def skew_server_def skew_manager_def mono_def defaultEpoch_def zero_time_def)

text \<open>
  C31. A handed-over worker id can repeat ids. One minter at a time does not make ids unique across a
  handover: with clocks that drift within the margin but differ by ten milliseconds, a process mints an
  id, stops and releases its worker id, and another process acquires it and mints the same id. The
  generator orders ids by the wall clock of its own process only, and a released worker id is free at
  once.
\<close>

theorem handover_can_repeat_ids:
  "\<exists>local server ms y y' v m k m' k'.
     drift_bounded local server (\<lambda>p. mg_margin (ms p)) \<and> (\<forall>p. mg_cur (ms p) = None \<and> validateCadence (ms p) = None) \<and>
     (lstep local server)\<^sup>*\<^sup>* (initial ms) y \<and>
     Next_manager (\<lambda>_. local 0 (ls_time y)) (ls_mgr y 0) 0 = Some ((Ok v, m), k) \<and>
     (lstep local server)\<^sup>*\<^sup>* (y\<lparr>ls_mgr := (ls_mgr y)(0 := m)\<rparr>) y' \<and>
     Next_manager (\<lambda>_. local 1 (ls_time y')) (ls_mgr y' 1) 0 = Some ((Ok v, m'), k')"
proof -
  let ?ms = "\<lambda>p :: nat. skew_manager"
  let ?y = "(skew_sys 0 [skew_row 0 0] (Some (skew_session 0 (skew_dl 0 0) (- 1))) Idle None Idle {0})"
  let ?y' = "(skew_sys 10 [skew_row 1 10] None Idle (Some (skew_session 1 (skew_dl 1 10) (- 1))) Idle {0, 1})"
  let ?m = "(skew_manager\<lparr>mg_cur := (Some (skew_session 0 (skew_dl 0 0) 10))\<rparr>)"
  have init: "initial ?ms = (skew_sys 0 [] None Idle None Idle {})"
    by (auto simp: initial_def skew_sys_def skew_manager_def fun_eq_iff)
  have cad: "mg_cur skew_manager = None \<and> validateCadence skew_manager = None"
    by (simp add: skew_manager_def validateCadence_def)
  have first: "skew_step\<^sup>*\<^sup>* (initial ?ms) ?y" unfolding init by (rule skew_acquire0)
  have n0: "Next_manager (\<lambda>_. skew_local 0 (ls_time ?y)) (ls_mgr ?y 0) 0 = Some ((Ok 41943040, ?m), 1)"
    using skew_next [of 0 0 "skew_dl 0 0" 0] by (simp add: skew_local_def skew_dl_def)
  have eq: "?y\<lparr>ls_mgr := (ls_mgr ?y)(0 := ?m)\<rparr> = (skew_sys 0 [skew_row 0 0] (Some (skew_session 0 (skew_dl 0 0) 10)) Idle None Idle {0})"
    by simp
  have second: "skew_step\<^sup>*\<^sup>* (?y\<lparr>ls_mgr := (ls_mgr ?y)(0 := ?m)\<rparr>) ?y'"
    unfolding eq by (rule rtranclp_trans [OF skew_handover skew_acquire1])
  have n1: "Next_manager (\<lambda>_. skew_local 1 (ls_time ?y')) (ls_mgr ?y' 1) 0 =
      Some ((Ok 41943040, (skew_manager\<lparr>mg_cur := (Some (skew_session 1 (skew_dl 1 10) 10))\<rparr>)), 1)"
    using skew_next [of 1 10 "skew_dl 1 10" 1] by (simp add: skew_local_def skew_dl_def)
  show ?thesis
    by (rule exI [of _ skew_local], rule exI [of _ skew_server], rule exI [of _ ?ms], rule exI [of _ ?y],
        rule exI [of _ ?y'], rule exI [of _ 41943040], rule exI [of _ ?m], rule exI [of _ 1],
        rule exI [of _ "skew_manager\<lparr>mg_cur := (Some (skew_session 1 (skew_dl 1 10) 10))\<rparr>"], rule exI [of _ 1])
      (intro conjI allI skew_drift cad [THEN conjunct1] cad [THEN conjunct2] first n0 second n1)
qed

end
