(* ===== verification/ClientScrollback.thy ===== *)
theory ClientScrollback
  imports Identifiers "HOL-Library.Monad_Syntax"
begin

text \<open>
  The scrollback of the terminal client: \<open>cmd/client/internal/timeline\<close> (the event id a frame
  or a history entry is ordered by), \<open>panes/mainview\<close> (messages, physical rows, the visible
  window and the text of a row), \<open>chrome/layout.go\<close> (pane dimensions), \<open>app/chat.go\<close> (the
  per-room buckets every frame and every history entry is inserted into) and \<open>app/scroll.go\<close>
  (the scroll offset and its re-anchoring).

  Go's \<open>int\<close> values are \<open>int\<close>; a slice expression that would panic is \<open>None\<close>. A map that can be
  \<open>nil\<close> is a \<open>gomap\<close>: reading it is total, an assignment to a \<open>nil\<close> map is the panic \<open>None\<close>, and every
  \<open>if m.x == nil\<close> of the code is a \<open>map_make\<close>. The
  local-time renderings \<open>Format(\"2006-01-02\")\<close> and \<open>Format(\"15:04:05\")\<close> depend on the machine's
  time zone and are the parameters \<open>day\<close> and \<open>clock\<close>; the terminal styles of \<open>ui\<close> are
  rendered by a third-party package and are the parameter \<open>subtle\<close>.

  The lemmas show that a bucket always holds the newest \<open>cap\<close> of the ids inserted into it, in
  order and once each, whatever the order of arrival; that no slice of the window arithmetic is
  ever out of range; that a rendered row is one line of at most the pane's width; and that a
  scrolled-up view does not move when newer messages arrive or an older page is prepended, as
  long as the bucket is not full.
\<close>

section \<open>Maps that can be nil\<close>

type_synonym ('k, 'v) gomap = "('k \<rightharpoonup> 'v) option"

text \<open>A read, the guard \<open>if x == nil { x = map[k]v{} }\<close>, and the assignment \<open>x[k] = v\<close>, which panics on \<open>nil\<close>.\<close>

definition map_get :: "('k, 'v) gomap \<Rightarrow> 'k \<Rightarrow> 'v option" where
  "map_get x k = (case x of None \<Rightarrow> None | Some f \<Rightarrow> f k)"

definition map_make :: "('k, 'v) gomap \<Rightarrow> ('k, 'v) gomap" where
  "map_make x = (case x of None \<Rightarrow> Some Map.empty | Some f \<Rightarrow> Some f)"

definition map_assign :: "('k, 'v) gomap \<Rightarrow> 'k \<Rightarrow> 'v \<Rightarrow> ('k, 'v) gomap option" where
  "map_assign x k v = (case x of None \<Rightarrow> None | Some f \<Rightarrow> Some (Some (f(k \<mapsto> v))))"

text \<open>What the guard and the assignment leave together.\<close>

definition map_put :: "('k, 'v) gomap \<Rightarrow> 'k \<Rightarrow> 'v \<Rightarrow> ('k, 'v) gomap" where
  "map_put x k v = Some ((map_get x)(k \<mapsto> v))"

lemma map_assign_made [simp]: "map_assign (map_make x) k v = Some (map_put x k v)"
  by (cases x) (simp_all add: map_assign_def map_make_def map_put_def map_get_def fun_eq_iff)

lemma map_assign_put [simp]: "map_assign (map_put x k v) k' v' = Some (map_put (map_put x k v) k' v')"
  by (simp add: map_assign_def map_put_def map_get_def fun_eq_iff)

lemma map_get_made [simp]: "map_get (map_make x) k = map_get x k"
  by (cases x) (simp_all add: map_get_def map_make_def)

lemma map_get_put [simp]: "map_get (map_put x k v) k' = (if k' = k then Some v else map_get x k')"
  by (simp add: map_get_def map_put_def)

text \<open>A Go loop whose body may panic.\<close>

fun for_each :: "('a \<Rightarrow> 's \<Rightarrow> 's option) \<Rightarrow> 'a list \<Rightarrow> 's \<Rightarrow> 's option" where
  "for_each f [] s = Some s"
| "for_each f (x # xs) s = (case f x s of None \<Rightarrow> None | Some s' \<Rightarrow> for_each f xs s')"

lemma for_each_total: "(\<And>x s. f x s = Some (g x s)) \<Longrightarrow> for_each f xs s = Some (foldl (\<lambda>s x. g x s) s xs)"
  by (induction xs arbitrary: s) simp_all

section \<open>Event ids\<close>

type_synonym client_event_id = int

datatype client_id_error = ClientErrInvalidEventID | ClientErrParse num_error

definition client_NewEventID :: "int \<Rightarrow> (client_id_error, client_event_id) result" where
  "client_NewEventID v = (if v \<le> 0 then Err ClientErrInvalidEventID else Ok v)"

definition client_ParseEventID :: "string \<Rightarrow> (client_id_error, client_event_id) result" where
  "client_ParseEventID s =
     (case parse_int s of Inl e \<Rightarrow> Err (ClientErrParse e) | Inr v \<Rightarrow> client_NewEventID v)"

definition client_event_string :: "client_event_id \<Rightarrow> string" where
  "client_event_string e = format_int e"

text \<open>\<open>millisToTime\<close>: the server's \<open>0\<close> is the zero time.\<close>

definition millisToTime :: "int \<Rightarrow> instant" where
  "millisToTime ms = (if ms = 0 then zero_time else ms * 1000000)"

section \<open>Messages and physical rows\<close>

datatype message_kind = KindChat | KindJoined | KindLeft

record message =
  ms_ID :: client_event_id
  ms_Kind :: message_kind
  ms_Sender :: string
  ms_Text :: string
  ms_At :: instant
  ms_Self :: bool

record line =
  ln_Separator :: bool
  ln_Date :: string
  ln_Msg :: message

definition zero_message :: message where
  "zero_message = \<lparr>ms_ID = 0, ms_Kind = KindChat, ms_Sender = [], ms_Text = [],
     ms_At = zero_time, ms_Self = False\<rparr>"

definition separator_line :: "string \<Rightarrow> line" where
  "separator_line d = \<lparr>ln_Separator = True, ln_Date = d, ln_Msg = zero_message\<rparr>"

definition message_line :: "message \<Rightarrow> line" where
  "message_line m = \<lparr>ln_Separator = False, ln_Date = [], ln_Msg = m\<rparr>"

text \<open>The loop of \<open>Lines\<close>, with \<open>lastDate\<close> as its state.\<close>

fun lines_from :: "(instant \<Rightarrow> string) \<Rightarrow> string \<Rightarrow> message list \<Rightarrow> line list" where
  "lines_from day lastDate [] = []"
| "lines_from day lastDate (m # ms) =
     (if ms_At m \<noteq> zero_time then
        (let d = day (ms_At m) in
           (if lastDate \<noteq> [] \<and> d \<noteq> lastDate then [separator_line d] else [])
             @ message_line m # lines_from day d ms)
      else message_line m # lines_from day lastDate ms)"

definition Lines :: "(instant \<Rightarrow> string) \<Rightarrow> message list \<Rightarrow> line list" where
  "Lines day msgs = lines_from day [] msgs"

section \<open>The visible window\<close>

text \<open>A Go slice expression \<open>xs[a:b]\<close>; \<open>None\<close> is the run-time panic.\<close>

definition go_slice :: "'a list \<Rightarrow> int \<Rightarrow> int \<Rightarrow> 'a list option" where
  "go_slice xs a b =
     (if 0 \<le> a \<and> a \<le> b \<and> b \<le> int (length xs) then Some (take (nat (b - a)) (drop (nat a) xs)) else None)"

definition reservedRows :: int where "reservedRows = 5"

definition availableRows :: "int \<Rightarrow> bool \<Rightarrow> int" where
  "availableRows height hasError =
     (let reserved = (if hasError then reservedRows + 1 else reservedRows);
          avail = height - reserved
      in if avail > 1 then avail else 1)"

definition VisibleCapacity :: "int \<Rightarrow> bool \<Rightarrow> int" where
  "VisibleCapacity height hasError = availableRows height hasError"

definition clampWindowOffset :: "int \<Rightarrow> int \<Rightarrow> int" where
  "clampWindowOffset offset maxOffset =
     (if offset < 0 then 0 else if offset > maxOffset then maxOffset else offset)"

definition visibleLines :: "line list \<Rightarrow> int \<Rightarrow> bool \<Rightarrow> int \<Rightarrow> line list option" where
  "visibleLines lines height hasError offset =
     (if lines = [] \<or> height \<le> 0 then Some lines
      else let avail = availableRows height hasError in
        if int (length lines) \<le> avail then Some lines
        else let off = clampWindowOffset offset (int (length lines) - avail);
                 stop = int (length lines) - off
             in go_slice lines (stop - avail) stop)"

section \<open>The text of a row\<close>

definition sanitize_char :: "char \<Rightarrow> char" where
  "sanitize_char c = (if byte_of c = 10 \<or> byte_of c = 13 \<or> byte_of c = 9 then CHR '' '' else c)"

definition sanitize :: "string \<Rightarrow> string" where
  "sanitize s = map sanitize_char s"

text \<open>\<open>string(r[:width])\<close> encodes the runes again: an invalid byte, read as U+FFFD, becomes the
  three bytes of that rune.\<close>

definition replacement :: string where
  "replacement = [CHR 0xEF, CHR 0xBF, CHR 0xBD]"

definition encode_seg :: "rune \<times> string \<Rightarrow> string" where
  "encode_seg p = (if seg_valid p then snd p else replacement)"

definition clip :: "string \<Rightarrow> int \<Rightarrow> string" where
  "clip s width =
     (if width \<le> 0 then s
      else if int (length (runes s)) \<le> width then s
      else concat (map encode_seg (take (nat width) (runes s))))"

definition zeroTimeGlyph :: string where "zeroTimeGlyph = ''--:--:--''"

definition timestampGlyph :: "(instant \<Rightarrow> string) \<Rightarrow> instant \<Rightarrow> string" where
  "timestampGlyph clock at = (if at = zero_time then zeroTimeGlyph else clock at)"

definition rune_len :: "string \<Rightarrow> int" where
  "rune_len s = int (length (runes s))"

definition formatMessageLine :: "(instant \<Rightarrow> string) \<Rightarrow> (string \<Rightarrow> string) \<Rightarrow> message \<Rightarrow> int \<Rightarrow> string" where
  "formatMessageLine clock subtle m width =
     (let ts = timestampGlyph clock (ms_At m);
          name = sanitize (ms_Sender m);
          prefix = ts @ ''  '' @ name @ ''  ''
      in if width > 0 \<and> rune_len prefix \<ge> width
         then clip (ts @ ''  '' @ name @ ''  '' @ sanitize (ms_Text m)) width
         else let body = sanitize (ms_Text m);
                  text' = (if width > 0 then clip body (width - rune_len prefix) else body);
                  sender = (if ms_Self m then subtle name else name)
              in ts @ ''  '' @ sender @ ''  '' @ text')"

text \<open>The em dash of the system and separator rows, U+2014.\<close>

definition em_dash :: string where "em_dash = [CHR 0xE2, CHR 0x80, CHR 0x94]"

definition formatSystemLine :: "(instant \<Rightarrow> string) \<Rightarrow> (string \<Rightarrow> string) \<Rightarrow> message \<Rightarrow> int \<Rightarrow> string" where
  "formatSystemLine clock subtle m width =
     (let ts = timestampGlyph clock (ms_At m);
          verb = (if ms_Kind m = KindLeft then ''left'' else ''joined'');
          body = em_dash @ '' '' @ sanitize (ms_Sender m) @ '' '' @ verb @ '' '' @ em_dash;
          prefix = ts @ ''  ''
      in if width > 0 \<and> rune_len prefix \<ge> width then clip (prefix @ body) width
         else let body' = (if width > 0 then clip body (width - rune_len prefix) else body)
              in prefix @ subtle body')"

definition formatSeparatorLine :: "(string \<Rightarrow> string) \<Rightarrow> string \<Rightarrow> int \<Rightarrow> string" where
  "formatSeparatorLine subtle date width = subtle (clip (em_dash @ '' '' @ date @ '' '' @ em_dash) width)"

definition renderLine :: "(instant \<Rightarrow> string) \<Rightarrow> (string \<Rightarrow> string) \<Rightarrow> line \<Rightarrow> int \<Rightarrow> string" where
  "renderLine clock subtle ln width =
     (if ln_Separator ln then formatSeparatorLine subtle (ln_Date ln) width
      else if ms_Kind (ln_Msg ln) = KindChat then formatMessageLine clock subtle (ln_Msg ln) width
      else formatSystemLine clock subtle (ln_Msg ln) width)"

fun join_rows :: "string list \<Rightarrow> string" where
  "join_rows [] = []"
| "join_rows [r] = r"
| "join_rows (r # rs) = r @ [CHR 0x0A] @ join_rows rs"

definition scrollback :: "(instant \<Rightarrow> string) \<Rightarrow> (instant \<Rightarrow> string) \<Rightarrow> (string \<Rightarrow> string) \<Rightarrow> message list
    \<Rightarrow> int \<Rightarrow> int \<Rightarrow> bool \<Rightarrow> int \<Rightarrow> string option" where
  "scrollback day clock subtle msgs width height hasError offset =
     (case visibleLines (Lines day msgs) height hasError offset of
        None \<Rightarrow> None
      | Some visible \<Rightarrow>
          if visible = [] then Some (subtle ''(no messages yet)'')
          else Some (join_rows (map (\<lambda>ln. renderLine clock subtle ln width) visible)))"

section \<open>Pane dimensions\<close>

definition MinWidth :: int where "MinWidth = 60"
definition MinHeight :: int where "MinHeight = 20"

record layout =
  ly_Width :: int
  ly_Height :: int
  ly_LeftW :: int
  ly_MiddleW :: int
  ly_RightW :: int

text \<open>\<open>Compute\<close>: the fractions are 0.20 and 0.25; on every terminal width below \<open>2^50\<close> the floor of
  the floating-point product is the integer quotient. \<open>None\<close> is \<open>ErrTerminalTooSmall\<close>.\<close>

definition Compute :: "int \<Rightarrow> int \<Rightarrow> layout option" where
  "Compute width height =
     (if width < MinWidth \<or> height < MinHeight then None
      else let left = width div 5; right = width div 4; middle = width - left - right
           in Some \<lparr>ly_Width = width, ly_Height = height, ly_LeftW = left, ly_MiddleW = middle,
                    ly_RightW = right\<rparr>)"

definition innerWidth :: "int \<Rightarrow> int" where
  "innerWidth span = (let w = span - 2 in if w < 1 then 1 else w)"

definition innerHeight :: "int \<Rightarrow> int" where
  "innerHeight span = (let h = span - 2 in if h < 1 then 1 else h)"

definition MiddleInnerWidth :: "layout \<Rightarrow> int" where
  "MiddleInnerWidth l = innerWidth (ly_MiddleW l)"

definition InnerHeight :: "layout \<Rightarrow> int" where
  "InnerHeight l = innerHeight (ly_Height l)"

definition mainInnerDims :: "int \<Rightarrow> int \<Rightarrow> int \<times> int" where
  "mainInnerDims termWidth termHeight =
     (case Compute termWidth termHeight of
        None \<Rightarrow> (0, 0)
      | Some l \<Rightarrow> (MiddleInnerWidth l, InnerHeight l))"

definition minComposerWidth :: int where "minComposerWidth = 10"

definition composerWidth :: "int \<Rightarrow> int \<Rightarrow> int" where
  "composerWidth termWidth termHeight =
     (let w = fst (mainInnerDims termWidth termHeight) - 2
      in if w < minComposerWidth then minComposerWidth else w)"

section \<open>Buckets\<close>

text \<open>\<open>sort.Search\<close>: the least index in \<open>[i, j)\<close> at which the predicate holds, by halving.\<close>

function sort_search :: "(nat \<Rightarrow> bool) \<Rightarrow> nat \<Rightarrow> nat \<Rightarrow> nat" where
  "sort_search f i j =
     (if i < j then
        (let h = (i + j) div 2 in if \<not> f h then sort_search f (h + 1) j else sort_search f i h)
      else i)"
  by pat_completeness auto
termination
  by (relation "measure (\<lambda>(f, i, j). j - i)") auto

declare sort_search.simps [simp del]

definition eventBucketCap :: nat where "eventBucketCap = 1000"

definition insertOrdered :: "message list \<Rightarrow> message \<Rightarrow> nat \<Rightarrow> message list \<times> bool \<times> nat" where
  "insertOrdered bucket msg cap =
     (let idx = sort_search (\<lambda>i. ms_ID (bucket ! i) \<ge> ms_ID msg) 0 (length bucket) in
      if idx < length bucket \<and> ms_ID (bucket ! idx) = ms_ID msg then (bucket, False, 0)
      else let nxt = take idx bucket @ [msg] @ drop idx bucket in
        if length nxt > cap
        then (drop (length nxt - cap) nxt, True, length nxt - cap)
        else (nxt, True, 0))"

record roomHistory =
  rh_fetched :: bool
  rh_loading :: bool
  rh_next :: string
  rh_exhausted :: bool

definition zero_history :: roomHistory where
  "zero_history = \<lparr>rh_fetched = False, rh_loading = False, rh_next = [], rh_exhausted = False\<rparr>"

text \<open>The part of \<open>app.Model\<close> the scrollback reads and writes; the root model extends it.\<close>

record chat_state =
  m_userID :: string
  m_activeRoomID :: string
  m_messages :: "(string, message list) gomap"
  m_histories :: "(string, roomHistory) gomap"
  m_mainError :: string
  m_scrollOffset :: int
  m_width :: int
  m_height :: int

definition bucket_of :: "('a chat_state_scheme) \<Rightarrow> string \<Rightarrow> message list" where
  "bucket_of m roomID = (case map_get (m_messages m) roomID of None \<Rightarrow> [] | Some b \<Rightarrow> b)"

definition history_of :: "('a chat_state_scheme) \<Rightarrow> string \<Rightarrow> roomHistory" where
  "history_of m roomID = (case map_get (m_histories m) roomID of None \<Rightarrow> zero_history | Some h \<Rightarrow> h)"

text \<open>The guard \<open>if m.histories == nil\<close>, and \<open>m.histories[roomID] = h\<close>.\<close>

definition make_histories :: "('a chat_state_scheme) \<Rightarrow> 'a chat_state_scheme" where
  "make_histories m = m\<lparr>m_histories := map_make (m_histories m)\<rparr>"

definition assign_history :: "string \<Rightarrow> roomHistory \<Rightarrow> ('a chat_state_scheme) \<Rightarrow> 'a chat_state_scheme option" where
  "assign_history roomID h m = do { x \<leftarrow> map_assign (m_histories m) roomID h; Some (m\<lparr>m_histories := x\<rparr>) }"

definition healTrimmedHistory :: "string \<Rightarrow> message list \<Rightarrow> ('a chat_state_scheme) \<Rightarrow> 'a chat_state_scheme option" where
  "healTrimmedHistory roomID bucket m =
     (case bucket of
        [] \<Rightarrow> Some m
      | b # _ \<Rightarrow>
          (let m1 = make_histories m in
           assign_history roomID
             ((history_of m1 roomID)\<lparr>rh_fetched := True, rh_next := client_event_string (ms_ID b),
                rh_exhausted := False\<rparr>) m1))"

definition appendEvent :: "string \<Rightarrow> message \<Rightarrow> ('a chat_state_scheme) \<Rightarrow> 'a chat_state_scheme option" where
  "appendEvent roomID msg m =
     (let m1 = m\<lparr>m_messages := map_make (m_messages m)\<rparr>;
          (nxt, inserted, trimmed) = insertOrdered (bucket_of m1 roomID) msg eventBucketCap
      in do {
        x \<leftarrow> map_assign (m_messages m1) roomID nxt;
        let m2 = m1\<lparr>m_messages := x\<rparr>;
        if trimmed > 0 then healTrimmedHistory roomID nxt m2 else Some m2 })"

record UserRef =
  ur_ID :: string
  ur_Name :: string

record ChatMessageReceived =
  cm_RoomID :: string
  cm_Sender :: UserRef
  cm_Text :: string
  cm_EventID :: client_event_id
  cm_At :: instant

datatype MemberEventKind = MemberJoined | MemberLeft

record MemberEventReceived =
  me_RoomID :: string
  me_User :: UserRef
  me_Kind :: MemberEventKind
  me_EventID :: client_event_id
  me_At :: instant

datatype TimelineKind = TimelineMessage | TimelineJoined | TimelineLeft

record TimelineEvent =
  tv_EventID :: client_event_id
  tv_Kind :: TimelineKind
  tv_Person :: UserRef
  tv_Text :: string
  tv_At :: instant

definition display_name :: "UserRef \<Rightarrow> string" where
  "display_name u = (if ur_Name u = [] then ur_ID u else ur_Name u)"

definition appendChatMessage :: "ChatMessageReceived \<Rightarrow> ('a chat_state_scheme) \<Rightarrow> 'a chat_state_scheme option" where
  "appendChatMessage cm m =
     appendEvent (cm_RoomID cm)
       \<lparr>ms_ID = cm_EventID cm, ms_Kind = KindChat, ms_Sender = display_name (cm_Sender cm),
        ms_Text = cm_Text cm, ms_At = cm_At cm, ms_Self = (ur_ID (cm_Sender cm) = m_userID m)\<rparr> m"

definition appendMemberEvent :: "MemberEventReceived \<Rightarrow> ('a chat_state_scheme) \<Rightarrow> 'a chat_state_scheme option" where
  "appendMemberEvent me m =
     appendEvent (me_RoomID me)
       \<lparr>ms_ID = me_EventID me, ms_Kind = (if me_Kind me = MemberLeft then KindLeft else KindJoined),
        ms_Sender = display_name (me_User me), ms_Text = [], ms_At = me_At me, ms_Self = False\<rparr> m"

fun render_kind :: "TimelineKind \<Rightarrow> message_kind" where
  "render_kind TimelineMessage = KindChat"
| "render_kind TimelineJoined = KindJoined"
| "render_kind TimelineLeft = KindLeft"

definition appendTimelineEvent :: "string \<Rightarrow> TimelineEvent \<Rightarrow> ('a chat_state_scheme) \<Rightarrow> 'a chat_state_scheme option" where
  "appendTimelineEvent roomID te m =
     appendEvent roomID
       \<lparr>ms_ID = tv_EventID te, ms_Kind = render_kind (tv_Kind te), ms_Sender = display_name (tv_Person te),
        ms_Text = tv_Text te, ms_At = tv_At te, ms_Self = (ur_ID (tv_Person te) = m_userID m)\<rparr> m"

section \<open>The scroll offset\<close>

definition clampOffset :: "int \<Rightarrow> int \<Rightarrow> int" where
  "clampOffset offset maxOffset =
     (if offset < 0 then 0 else if offset > maxOffset then maxOffset else offset)"

definition maxScrollOffset :: "int \<Rightarrow> int \<Rightarrow> int" where
  "maxScrollOffset totalLines avail = (let over = totalLines - avail in if over > 0 then over else 0)"

definition scroll_pageStep :: "int \<Rightarrow> int" where
  "scroll_pageStep avail = (if avail > 1 then avail - 1 else 1)"

definition lineIdentityEqual :: "line \<Rightarrow> line \<Rightarrow> bool" where
  "lineIdentityEqual a b \<longleftrightarrow>
     (if ln_Separator a \<noteq> ln_Separator b then False
      else if ln_Separator a then ln_Date a = ln_Date b
      else ms_ID (ln_Msg a) = ms_ID (ln_Msg b))"

text \<open>The loop of \<open>trailingLinesEqual\<close> from index \<open>i\<close>, with \<open>k\<close> rounds left.\<close>

fun trailing_from :: "line list \<Rightarrow> line list \<Rightarrow> nat \<Rightarrow> nat \<Rightarrow> bool" where
  "trailing_from oldLines newLines i 0 \<longleftrightarrow> True"
| "trailing_from oldLines newLines i (Suc k) \<longleftrightarrow>
     (if length oldLines < i \<or> length newLines < i then False
      else if \<not> lineIdentityEqual (oldLines ! (length oldLines - i)) (newLines ! (length newLines - i)) then False
      else trailing_from oldLines newLines (Suc i) k)"

definition trailingLinesEqual :: "line list \<Rightarrow> line list \<Rightarrow> int \<Rightarrow> bool" where
  "trailingLinesEqual oldLines newLines n \<longleftrightarrow> trailing_from oldLines newLines 1 (nat n)"

definition adjustOffset :: "line list \<Rightarrow> line list \<Rightarrow> int \<Rightarrow> int" where
  "adjustOffset oldLines newLines offset =
     (if offset \<le> 0 then 0
      else let delta = int (length newLines) - int (length oldLines) in
        if delta \<le> 0 then offset
        else let tail = (if offset > int (length oldLines) then int (length oldLines) else offset) in
          if trailingLinesEqual oldLines newLines tail then offset else offset + delta)"

definition activeLines :: "(instant \<Rightarrow> string) \<Rightarrow> ('a chat_state_scheme) \<Rightarrow> line list" where
  "activeLines day m = Lines day (bucket_of m (m_activeRoomID m))"

definition scrollAvail :: "('a chat_state_scheme) \<Rightarrow> int" where
  "scrollAvail m = VisibleCapacity (snd (mainInnerDims (m_width m) (m_height m))) (m_mainError m \<noteq> [])"

definition reanchor :: "(instant \<Rightarrow> string) \<Rightarrow> line list \<Rightarrow> ('a chat_state_scheme) \<Rightarrow> 'a chat_state_scheme" where
  "reanchor day oldActiveLines m =
     (if m_scrollOffset m = 0 then m
      else let newLines = activeLines day m;
               off = adjustOffset oldActiveLines newLines (m_scrollOffset m)
           in m\<lparr>m_scrollOffset := clampOffset off (maxScrollOffset (int (length newLines)) (scrollAvail m))\<rparr>)"

text \<open>What \<open>View\<close> passes to the Main pane: the rows of the active room that are on the screen.\<close>

definition shown_lines :: "(instant \<Rightarrow> string) \<Rightarrow> ('a chat_state_scheme) \<Rightarrow> line list option" where
  "shown_lines day m =
     visibleLines (activeLines day m) (snd (mainInnerDims (m_width m) (m_height m)))
       (m_mainError m \<noteq> []) (m_scrollOffset m)"

section \<open>Binary search and ordered insertion\<close>

lemma sort_search_spec:
  assumes "i \<le> j" "j \<le> n"
    and "\<And>a b. a \<le> b \<Longrightarrow> b < n \<Longrightarrow> f a \<Longrightarrow> f b"
    and "\<And>a. a < i \<Longrightarrow> \<not> f a" and "\<And>a. j \<le> a \<Longrightarrow> a < n \<Longrightarrow> f a"
  shows "sort_search f i j \<le> n \<and> (\<forall>a < sort_search f i j. \<not> f a)
    \<and> (\<forall>a. sort_search f i j \<le> a \<and> a < n \<longrightarrow> f a)"
  using assms
proof (induction f i j rule: sort_search.induct)
  case (1 f i j)
  show ?case
  proof (cases "i < j")
    case False
    then show ?thesis using 1(3-) by (subst (1 2 3) sort_search.simps) auto
  next
    case True
    define h where "h = (i + j) div 2"
    have h: "i \<le> h" "h < j" using True by (auto simp: h_def)
    show ?thesis
    proof (cases "f h")
      case True
      have "sort_search f i j = sort_search f i h"
        using \<open>i < j\<close> True by (subst sort_search.simps) (simp add: h_def Let_def)
      moreover have above: "f a" if "h \<le> a" "a < n" for a using 1(5)[of h a] that True by blast
      have "sort_search f i h \<le> n \<and> (\<forall>a < sort_search f i h. \<not> f a)
          \<and> (\<forall>a. sort_search f i h \<le> a \<and> a < n \<longrightarrow> f a)"
        using 1(2)[OF \<open>i < j\<close> h_def _ h(1) _ 1(5) 1(6) above] True h 1(4) by simp
      ultimately show ?thesis by simp
    next
      case False
      have "sort_search f i j = sort_search f (h + 1) j"
        using \<open>i < j\<close> False by (subst sort_search.simps) (simp add: h_def Let_def)
      moreover have below: "\<not> f a" if "a < h + 1" for a
      proof -
        have "a \<le> h" "h < n" using that h 1(4) by simp_all
        then show ?thesis using 1(5)[of a h] False by blast
      qed
      have "sort_search f (h + 1) j \<le> n \<and> (\<forall>a < sort_search f (h + 1) j. \<not> f a)
          \<and> (\<forall>a. sort_search f (h + 1) j \<le> a \<and> a < n \<longrightarrow> f a)"
        using 1(1)[OF \<open>i < j\<close> h_def False _ 1(4) 1(5) below 1(7)] h by simp
      ultimately show ?thesis by simp
    qed
  qed
qed

text \<open>A bucket is ascending when its ids strictly increase.\<close>

definition ascending :: "message list \<Rightarrow> bool" where
  "ascending b \<longleftrightarrow> sorted_wrt (<) (map ms_ID b)"

lemma ascending_simps [simp]:
  "ascending []"
  "ascending (m # b) \<longleftrightarrow> (\<forall>x\<in>set b. ms_ID m < ms_ID x) \<and> ascending b"
  by (auto simp: ascending_def)

lemma ascending_append:
  "ascending (a @ b) \<longleftrightarrow> ascending a \<and> ascending b \<and> (\<forall>x\<in>set a. \<forall>y\<in>set b. ms_ID x < ms_ID y)"
  by (auto simp: ascending_def sorted_wrt_append)

lemma ascending_drop: "ascending b \<Longrightarrow> ascending (drop k b)"
  by (simp add: ascending_def drop_map [symmetric] sorted_wrt_drop)

lemma ascending_nth: "ascending b \<Longrightarrow> i < j \<Longrightarrow> j < length b \<Longrightarrow> ms_ID (b ! i) < ms_ID (b ! j)"
  unfolding ascending_def using sorted_wrt_nth_less by fastforce

lemma split_at_filter:
  assumes "\<forall>a<r. P (b ! a)" "\<forall>a. r \<le> a \<and> a < length b \<longrightarrow> \<not> P (b ! a)" "r \<le> length b"
  shows "take r b = filter P b" "drop r b = filter (\<lambda>x. \<not> P x) b"
proof -
  have t: "\<forall>x\<in>set (take r b). P x" using assms(1,3) by (auto simp: in_set_conv_nth)
  have d: "\<forall>x\<in>set (drop r b). \<not> P x" using assms(2,3) by (auto simp: in_set_conv_nth)
  have "filter P (take r b @ drop r b) = take r b"
    using t d by (simp only: filter_append) (simp add: filter_empty_conv)
  then show "take r b = filter P b" by simp
  have "filter (\<lambda>x. \<not> P x) (take r b @ drop r b) = drop r b"
    using t d by (simp only: filter_append) (simp add: filter_empty_conv)
  then show "drop r b = filter (\<lambda>x. \<not> P x) b" by simp
qed

definition place :: "message \<Rightarrow> message list \<Rightarrow> message list" where
  "place msg b = (if ms_ID msg \<in> ms_ID ` set b then b
     else filter (\<lambda>x. ms_ID x < ms_ID msg) b @ msg # filter (\<lambda>x. \<not> ms_ID x < ms_ID msg) b)"

definition newest :: "nat \<Rightarrow> 'a list \<Rightarrow> 'a list" where
  "newest cap xs = drop (length xs - cap) xs"

lemma place_dup: "ms_ID msg \<in> ms_ID ` set b \<Longrightarrow> place msg b = b"
  by (simp add: place_def)

lemma insertOrdered_place:
  assumes "ascending b" "length b \<le> cap"
  shows "fst (insertOrdered b msg cap) = newest cap (place msg b)"
    and "snd (insertOrdered b msg cap) =
      (ms_ID msg \<notin> ms_ID ` set b, length (place msg b) - cap)"
proof -
  define f where "f = (\<lambda>i. ms_ID (b ! i) \<ge> ms_ID msg)"
  define r where "r = sort_search f 0 (length b)"
  have mono: "f c" if "a \<le> c" "c < length b" "f a" for a c
  proof (cases "a = c")
    case False
    then show ?thesis using that ascending_nth[OF assms(1), of a c] by (auto simp: f_def)
  qed (use that in simp)
  have r: "r \<le> length b" "\<forall>a<r. \<not> f a" "\<forall>a. r \<le> a \<and> a < length b \<longrightarrow> f a"
    using sort_search_spec[of 0 "length b" "length b" f, OF _ _ mono] by (auto simp: r_def)
  have split: "take r b = filter (\<lambda>x. ms_ID x < ms_ID msg) b"
    "drop r b = filter (\<lambda>x. \<not> ms_ID x < ms_ID msg) b"
    using split_at_filter[of r "\<lambda>x. ms_ID x < ms_ID msg" b] r by (simp_all add: f_def not_le not_less)
  have dup: "(r < length b \<and> ms_ID (b ! r) = ms_ID msg) \<longleftrightarrow> ms_ID msg \<in> ms_ID ` set b"
  proof
    assume "ms_ID msg \<in> ms_ID ` set b"
    then obtain k where k: "k < length b" "ms_ID (b ! k) = ms_ID msg" by (auto simp: in_set_conv_nth)
    have "r \<le> k" using r(2) k by (force simp: f_def not_less [symmetric])
    moreover have "\<not> r < k" using ascending_nth[OF assms(1), of r k] k r(3) by (force simp: f_def)
    ultimately show "r < length b \<and> ms_ID (b ! r) = ms_ID msg" using k by auto
  qed (metis image_eqI nth_mem)
  have io: "insertOrdered b msg cap =
     (if ms_ID msg \<in> ms_ID ` set b then (b, False, 0)
      else if length (place msg b) > cap
        then (drop (length (place msg b) - cap) (place msg b), True, length (place msg b) - cap)
      else (place msg b, True, 0))"
    unfolding insertOrdered_def f_def [symmetric] r_def [symmetric] Let_def dup split
    by (simp add: place_def)
  show "fst (insertOrdered b msg cap) = newest cap (place msg b)"
    using assms(2) by (cases "ms_ID msg \<in> ms_ID ` set b") (simp_all add: io newest_def place_dup)
  show "snd (insertOrdered b msg cap) = (ms_ID msg \<notin> ms_ID ` set b, length (place msg b) - cap)"
    using assms(2) by (cases "ms_ID msg \<in> ms_ID ` set b") (simp_all add: io place_dup)
qed

lemma set_place: "set (place msg b) = (if ms_ID msg \<in> ms_ID ` set b then set b else insert msg (set b))"
  by (auto simp: place_def)

lemma ids_place: "ms_ID ` set (place msg b) = insert (ms_ID msg) (ms_ID ` set b)"
  by (auto simp: set_place)

lemma ascending_filter: "ascending b \<Longrightarrow> ascending (filter P b)"
  by (induction b) auto

lemma ascending_place: "ascending b \<Longrightarrow> ascending (place msg b)"
  by (auto simp: place_def ascending_append ascending_filter image_iff less_le)

lemma ascending_newest: "ascending b \<Longrightarrow> ascending (newest cap b)"
  by (simp add: newest_def ascending_drop)

lemma length_newest: "length (newest cap b) = min cap (length b)"
  by (simp add: newest_def)

lemma newest_append: "cap \<le> length ys \<Longrightarrow> newest cap (xs @ ys) = newest cap ys"
  by (simp add: newest_def)

lemma newest_id: "length b \<le> cap \<Longrightarrow> newest cap b = b"
  by (simp add: newest_def)

lemma newest_map: "newest cap (map f b) = map f (newest cap b)"
  by (simp add: newest_def drop_map)

lemma place_low: "\<forall>z\<in>set b. ms_ID msg < ms_ID z \<Longrightarrow> place msg b = msg # b"
proof -
  assume low: "\<forall>z\<in>set b. ms_ID msg < ms_ID z"
  have "filter (\<lambda>x. ms_ID x < ms_ID msg) b = []" "filter (\<lambda>x. \<not> ms_ID x < ms_ID msg) b = b"
    using low by (auto simp: filter_id_conv filter_empty_conv)
  then show ?thesis using low by (auto simp: place_def)
qed

lemma place_high:
  assumes "\<forall>y\<in>set ys. ms_ID y < ms_ID msg" "ms_ID msg \<notin> ms_ID ` set zs"
  shows "place msg (ys @ zs) = ys @ place msg zs"
proof -
  have "ms_ID msg \<notin> ms_ID ` set ys" using assms(1) by auto
  moreover have "filter (\<lambda>x. ms_ID x < ms_ID msg) ys = ys" "filter (\<lambda>x. \<not> ms_ID x < ms_ID msg) ys = []"
    using assms(1) by (auto simp: filter_id_conv filter_empty_conv)
  ultimately show ?thesis using assms(2) by (auto simp: place_def)
qed

lemma place_middle:
  assumes "\<forall>z\<in>set zs. ms_ID msg < ms_ID z"
  shows "\<exists>xs. place msg (ys @ zs) = xs @ zs"
proof -
  have "filter (\<lambda>x. \<not> ms_ID x < ms_ID msg) zs = zs" "filter (\<lambda>x. ms_ID x < ms_ID msg) zs = []"
    using assms by (auto simp: filter_id_conv filter_empty_conv)
  then show ?thesis by (auto simp: place_def)
qed

text \<open>Forgetting what the cap has cut off loses nothing for later insertions.\<close>

lemma newest_place:
  assumes "ascending b"
  shows "newest cap (place msg (newest cap b)) = newest cap (place msg b)"
proof (cases "length b \<le> cap")
  case False
  define ys where "ys = take (length b - cap) b"
  define zs where "zs = newest cap b"
  have b: "b = ys @ zs" by (simp add: ys_def zs_def newest_def)
  have len: "length zs = cap" using False by (simp add: zs_def length_newest)
  have lt: "\<forall>y\<in>set ys. \<forall>z\<in>set zs. ms_ID y < ms_ID z" using assms b by (simp add: ascending_append)
  consider "ms_ID msg \<in> ms_ID ` set zs" | "ms_ID msg \<notin> ms_ID ` set zs" "\<forall>y\<in>set ys. ms_ID y < ms_ID msg"
    | y where "y \<in> set ys" "ms_ID msg \<le> ms_ID y" by fastforce
  then show ?thesis
  proof cases
    case 1
    then have "place msg zs = zs" "place msg b = b" by (auto simp: place_def b)
    then show ?thesis by (simp add: zs_def [symmetric] newest_id len)
  next
    case 2
    have "length (place msg zs) \<ge> cap" using 2(1) len by (simp add: place_def sum_length_filter_compl)
    then show ?thesis using place_high[OF 2(2,1)] by (simp add: zs_def [symmetric]) (simp add: b newest_append)
  next
    case 3
    have low: "\<forall>z\<in>set zs. ms_ID msg < ms_ID z" using 3 lt by fastforce
    obtain xs where xs: "place msg b = xs @ zs" using place_middle[OF low] b by blast
    have "newest cap (place msg zs) = zs"
      using place_low[OF low] newest_append[of cap zs "[msg]"] by (simp add: len newest_id)
    moreover have "newest cap (place msg b) = zs" by (simp add: xs newest_append newest_id len)
    ultimately show ?thesis by (simp add: zs_def)
  qed
qed (simp add: newest_id)

text \<open>The bucket without a cap, as a fold of \<open>place\<close>.\<close>

definition all_placed :: "message list \<Rightarrow> message list" where
  "all_placed es = foldl (\<lambda>b m. place m b) [] es"

lemma all_placed_simps [simp]:
  "all_placed [] = []" "all_placed (es @ [m]) = place m (all_placed es)"
  by (simp_all add: all_placed_def)

lemma all_placed_props:
  "ascending (all_placed es) \<and> ms_ID ` set (all_placed es) = ms_ID ` set es
   \<and> map (\<lambda>x. find (\<lambda>m. ms_ID m = ms_ID x) es) (all_placed es) = map Some (all_placed es)"
proof (induction es rule: rev_induct)
  case (snoc m es)
  then have IH: "ascending (all_placed es)" "ms_ID ` set (all_placed es) = ms_ID ` set es"
    "\<And>x. x \<in> set (all_placed es) \<Longrightarrow> find (\<lambda>m. ms_ID m = ms_ID x) es = Some x" by (auto simp: map_eq_conv)
  have app: "find P (es @ [m]) = (case find P es of None \<Rightarrow> if P m then Some m else None | Some y \<Rightarrow> Some y)" for P
    by (induction es) auto
  have new: "find (\<lambda>y. ms_ID y = ms_ID m) es = None" if "ms_ID m \<notin> ms_ID ` set (all_placed es)"
    using that unfolding IH(2) by (metis (mono_tags) find_None_iff image_eqI)
  have "find (\<lambda>y. ms_ID y = ms_ID x) (es @ [m]) = Some x" if "x \<in> set (place m (all_placed es))" for x
    using that IH(3)[of x] new by (auto simp: set_place app split: if_splits)
  then show ?case using IH(1,2) by (auto simp: ascending_place ids_place)
qed simp

lemma insert_fold_newest:
  "foldl (\<lambda>b m. fst (insertOrdered b m cap)) [] es = newest cap (all_placed es)"
proof (induction es rule: rev_induct)
  case (snoc m es)
  have asc: "ascending (all_placed es)" using all_placed_props by blast
  then show ?case
    using snoc insertOrdered_place(1)[of "newest cap (all_placed es)" cap m]
    by (simp add: ascending_newest length_newest newest_place)
qed (simp add: newest_def)

lemma ascending_ids: "ascending b \<Longrightarrow> map ms_ID b = sorted_list_of_set (ms_ID ` set b)"
  unfolding ascending_def using strict_sorted_equal[of "map ms_ID b" "sorted_list_of_set (ms_ID ` set b)"]
  by simp

text \<open>The guards make every assignment total: what the operations leave.\<close>

definition set_history :: "string \<Rightarrow> roomHistory \<Rightarrow> ('a chat_state_scheme) \<Rightarrow> 'a chat_state_scheme" where
  "set_history roomID h m = m\<lparr>m_histories := map_put (m_histories m) roomID h\<rparr>"

definition healed :: "string \<Rightarrow> message list \<Rightarrow> ('a chat_state_scheme) \<Rightarrow> 'a chat_state_scheme" where
  "healed roomID bucket m =
     (case bucket of
        [] \<Rightarrow> m
      | b # _ \<Rightarrow>
          set_history roomID
            ((history_of m roomID)\<lparr>rh_fetched := True, rh_next := client_event_string (ms_ID b),
               rh_exhausted := False\<rparr>) m)"

definition appended :: "string \<Rightarrow> message \<Rightarrow> ('a chat_state_scheme) \<Rightarrow> 'a chat_state_scheme" where
  "appended roomID msg m =
     (let (nxt, inserted, trimmed) = insertOrdered (bucket_of m roomID) msg eventBucketCap;
          m' = m\<lparr>m_messages := map_put (m_messages m) roomID nxt\<rparr>
      in if trimmed > 0 then healed roomID nxt m' else m')"

lemma history_of_made [simp]: "history_of (make_histories m) r = history_of m r"
  by (simp add: history_of_def make_histories_def)

lemma assign_history_made [simp]: "assign_history r h (make_histories m) = Some (set_history r h m)"
  by (simp add: assign_history_def make_histories_def set_history_def)

lemma healTrimmedHistory_total: "healTrimmedHistory r bucket m = Some (healed r bucket m)"
  by (simp add: healTrimmedHistory_def healed_def Let_def split: list.splits)

lemma appendEvent_total: "appendEvent r msg m = Some (appended r msg m)"
  by (simp add: appendEvent_def appended_def Let_def healTrimmedHistory_total bucket_of_def split: prod.splits)

lemma append_all_total:
  "for_each (\<lambda>(room, msg). appendEvent room msg) evs m = Some (foldl (\<lambda>m (room, msg). appended room msg m) m evs)"
  using for_each_total[of "\<lambda>(room, msg). appendEvent room msg" "\<lambda>(room, msg). appended room msg" evs m]
  by (simp add: appendEvent_total case_prod_unfold)

lemma append_room_total:
  "for_each (appendEvent room) es m = Some (foldl (\<lambda>m e. appended room e m) m es)"
  by (rule for_each_total) (rule appendEvent_total)

lemma bucket_of_appended:
  "bucket_of (appended room msg m) r =
     (if r = room then fst (insertOrdered (bucket_of m r) msg eventBucketCap) else bucket_of m r)"
  by (auto simp: appended_def bucket_of_def healed_def set_history_def Let_def
      split: prod.splits list.splits option.splits)

lemma bucket_of_appends:
  "bucket_of (foldl (\<lambda>m (room, msg). appended room msg m) m0 evs) r =
     foldl (\<lambda>b m. fst (insertOrdered b m eventBucketCap)) (bucket_of m0 r)
       (map snd (filter (\<lambda>e. fst e = r) evs))"
  by (induction evs rule: rev_induct) (auto simp: bucket_of_appended split: prod.splits)

text \<open>C37. Whatever the order in which live frames and history entries of several rooms arrive, the
  bucket of a room holds the newest \<open>eventBucketCap\<close> distinct event ids ever inserted for that room,
  in ascending order, each with the content that arrived first: the scrollback is ordered and
  deduplicated, and the cap always drops the oldest entries. No insertion panics, the maps being \<open>nil\<close> or not.\<close>

theorem scrollback_keeps_newest:
  assumes "bucket_of m0 r = []"
    and "es = map snd (filter (\<lambda>e. fst e = r) evs)"
  shows "\<exists>m. for_each (\<lambda>(room, msg). appendEvent room msg) evs m0 = Some m
    \<and> map ms_ID (bucket_of m r) = newest eventBucketCap (sorted_list_of_set (ms_ID ` set es))
    \<and> map (\<lambda>x. find (\<lambda>y. ms_ID y = ms_ID x) es) (bucket_of m r) = map Some (bucket_of m r)"
proof -
  define m where "m = foldl (\<lambda>m (room, msg). appended room msg m) m0 evs"
  have run: "for_each (\<lambda>(room, msg). appendEvent room msg) evs m0 = Some m"
    by (simp add: m_def append_all_total)
  have b: "bucket_of m r = newest eventBucketCap (all_placed es)"
    unfolding m_def bucket_of_appends assms(1) assms(2) [symmetric] by (rule insert_fold_newest)
  have "map ms_ID (all_placed es) = sorted_list_of_set (ms_ID ` set es)"
    using all_placed_props[of es] ascending_ids by metis
  moreover have "map (\<lambda>x. find (\<lambda>y. ms_ID y = ms_ID x) es) (newest eventBucketCap (all_placed es)) =
      map Some (newest eventBucketCap (all_placed es))"
    using all_placed_props[of es] by (metis newest_map)
  ultimately have "map ms_ID (bucket_of m r) = newest eventBucketCap (sorted_list_of_set (ms_ID ` set es))
    \<and> map (\<lambda>x. find (\<lambda>y. ms_ID y = ms_ID x) es) (bucket_of m r) = map Some (bucket_of m r)"
    by (simp add: b newest_map [symmetric])
  then show ?thesis using run by blast
qed

section \<open>The window is always in range\<close>

lemma availableRows_pos: "1 \<le> availableRows h e"
  by (simp add: availableRows_def Let_def)

lemma visibleLines_short:
  "int (length lines) \<le> availableRows h e \<Longrightarrow> visibleLines lines h e off = Some lines"
  by (simp add: visibleLines_def Let_def)

lemma visibleLines_window:
  assumes "0 < h" and "availableRows h e < int (length lines)"
    and "0 \<le> off" and "off \<le> int (length lines) - availableRows h e"
  shows "visibleLines lines h e off =
    Some (take (nat (availableRows h e)) (drop (nat (int (length lines) - off - availableRows h e)) lines))"
proof -
  have "lines \<noteq> []" using assms(2) availableRows_pos[of h e] by auto
  then show ?thesis
    using assms availableRows_pos[of h e]
    by (simp add: visibleLines_def Let_def clampWindowOffset_def go_slice_def)
qed

lemma visibleLines_clamped:
  "visibleLines lines h e off = visibleLines lines h e (clampWindowOffset off (int (length lines) - availableRows h e))"
  by (auto simp: visibleLines_def Let_def clampWindowOffset_def)

text \<open>Whatever the pane height and the scroll offset (out of range ones included), the window
  arithmetic of \<open>visibleLines\<close> never slices out of range; the rows shown are a contiguous part of
  the scrollback, and once the pane has a height they fill exactly the rows available or, when
  there are fewer, are the whole scrollback.\<close>

theorem visible_window_in_range:
  "\<exists>above shown below. visibleLines lines height hasError offset = Some shown
     \<and> lines = above @ shown @ below
     \<and> length shown = (if height \<le> 0 then length lines
                        else min (nat (availableRows height hasError)) (length lines))"
proof (cases "lines = [] \<or> height \<le> 0 \<or> int (length lines) \<le> availableRows height hasError")
  case True
  then have "visibleLines lines height hasError offset = Some lines"
    by (auto simp: visibleLines_def Let_def)
  moreover have "length lines = (if height \<le> 0 then length lines
      else min (nat (availableRows height hasError)) (length lines))" using True by auto
  ultimately show ?thesis by (metis append.left_neutral append.right_neutral)
next
  case False
  define a where "a = availableRows height hasError"
  define off where "off = clampWindowOffset offset (int (length lines) - a)"
  define k where "k = nat (int (length lines) - off - a)"
  have r: "0 \<le> off" "off \<le> int (length lines) - a" "1 \<le> a"
    using False availableRows_pos[of height hasError] by (auto simp: off_def a_def clampWindowOffset_def)
  have vis: "visibleLines lines height hasError offset = Some (take (nat a) (drop k lines))"
    using visibleLines_window[of height hasError lines off] False r
    by (subst visibleLines_clamped) (simp add: k_def a_def off_def)
  have len: "length (take (nat a) (drop k lines)) = min (nat a) (length lines)"
    using r by (simp add: k_def)
  have "lines = take k lines @ take (nat a) (drop k lines) @ drop (nat a) (drop k lines)"
    by (metis append_take_drop_id)
  then show ?thesis using vis len False by (metis a_def not_le)
qed

section \<open>Rows\<close>

definition last_date :: "(instant \<Rightarrow> string) \<Rightarrow> string \<Rightarrow> message list \<Rightarrow> string" where
  "last_date day d ms = foldl (\<lambda>d m. if ms_At m \<noteq> zero_time then day (ms_At m) else d) d ms"

lemma last_date_simps [simp]:
  "last_date day d [] = d"
  "last_date day d (m # ms) = last_date day (if ms_At m \<noteq> zero_time then day (ms_At m) else d) ms"
  by (simp_all add: last_date_def)

lemma lines_from_append:
  "lines_from day d (a @ b) = lines_from day d a @ lines_from day (last_date day d a) b"
  by (induction a arbitrary: d) (auto simp: Let_def)

lemma lines_from_dated:
  "b \<noteq> [] \<Longrightarrow> ms_At (hd b) \<noteq> zero_time \<Longrightarrow> \<exists>sep. lines_from day d b = sep @ lines_from day [] b"
  by (cases b) (auto simp: Let_def)

lemma lines_from_Nil_iff [simp]: "lines_from day d ms = [] \<longleftrightarrow> ms = []"
  by (cases ms) (auto simp: Let_def)

lemma last_lines_from: "ms \<noteq> [] \<Longrightarrow> last (lines_from day d ms) = message_line (last ms)"
  by (induction ms arbitrary: d) (auto simp: Let_def)

section \<open>Anchoring\<close>

lemma lineIdentityEqual_refl [simp]: "lineIdentityEqual a a"
  by (simp add: lineIdentityEqual_def)

lemma lineIdentityEqual_messages [simp]:
  "lineIdentityEqual (message_line a) (message_line b) \<longleftrightarrow> ms_ID a = ms_ID b"
  by (simp add: lineIdentityEqual_def message_line_def)

lemma trailing_from_prepend: "0 < i \<Longrightarrow> i + k \<le> length old + 1 \<Longrightarrow> trailing_from old (pre @ old) i k"
  by (induction k arbitrary: i) (auto simp: nth_append)

lemma trailingLinesEqual_prepend: "n \<le> int (length old) \<Longrightarrow> trailingLinesEqual old (pre @ old) n"
  unfolding trailingLinesEqual_def by (rule trailing_from_prepend) auto

lemma trailingLinesEqual_last:
  assumes "0 < n" "old \<noteq> []" "new \<noteq> []" "\<not> lineIdentityEqual (last old) (last new)"
  shows "\<not> trailingLinesEqual old new n"
proof -
  obtain k where "nat n = Suc k" using assms(1) by (cases "nat n") auto
  then show ?thesis using assms by (simp add: trailingLinesEqual_def last_conv_nth)
qed

text \<open>The rows of the old window, found again in the new list of rows.\<close>

lemma window_shift:
  assumes "0 \<le> off" "off \<le> int (length old) - a" "0 \<le> a"
  shows "take (nat a) (drop (nat (int (length (pre @ old @ post)) - (off + int (length post)) - a)) (pre @ old @ post))
       = take (nat a) (drop (nat (int (length old) - off - a)) old)"
proof -
  have "nat (int (length (pre @ old @ post)) - (off + int (length post)) - a)
      = length pre + nat (int (length old) - off - a)"
    using assms by (simp add: nat_add_distrib [symmetric])
  then show ?thesis using assms by simp
qed

lemma adjustOffset_anchor:
  assumes "0 < off" "off \<le> int (length old)"
    and "post = [] \<or> pre = [] \<and> \<not> lineIdentityEqual (last old) (last post)"
  shows "adjustOffset old (pre @ old @ post) off = off + int (length post)"
proof (cases "post = []")
  case True
  then show ?thesis using assms trailingLinesEqual_prepend[of off old pre]
    by (simp add: adjustOffset_def Let_def)
next
  case False
  have "old \<noteq> []" using assms(1,2) by auto
  then have "\<not> trailingLinesEqual old (old @ post) off"
    using assms False by (intro trailingLinesEqual_last) auto
  then show ?thesis using assms False by (simp add: adjustOffset_def Let_def)
qed

text \<open>The offset is in range for the rows of the active room.\<close>

definition offset_in_range :: "(instant \<Rightarrow> string) \<Rightarrow> ('a chat_state_scheme) \<Rightarrow> bool" where
  "offset_in_range day m \<longleftrightarrow>
     0 \<le> m_scrollOffset m
     \<and> m_scrollOffset m \<le> maxScrollOffset (int (length (activeLines day m))) (scrollAvail m)"

lemma reanchor_keeps_window:
  assumes same: "m_width m' = m_width m" "m_height m' = m_height m" "m_mainError m' = m_mainError m"
      "m_scrollOffset m' = m_scrollOffset m"
    and layout: "Compute (m_width m) (m_height m) \<noteq> None"
    and off: "0 < m_scrollOffset m" "offset_in_range day m"
    and lines: "activeLines day m' = pre @ activeLines day m @ post"
    and post: "post = [] \<or> pre = [] \<and> \<not> lineIdentityEqual (last (activeLines day m)) (last post)"
  shows "shown_lines day (reanchor day (activeLines day m) m') = shown_lines day m"
proof -
  define a where "a = scrollAvail m"
  define h where "h = snd (mainInnerDims (m_width m) (m_height m))"
  define old where "old = activeLines day m"
  define n where "n = pre @ old @ post"
  have h: "0 < h" using layout by (auto simp: h_def mainInnerDims_def InnerHeight_def innerHeight_def Let_def split: option.splits)
  have a: "a = availableRows h (m_mainError m \<noteq> [])" "1 \<le> a"
    by (simp_all add: a_def h_def scrollAvail_def VisibleCapacity_def availableRows_pos)
  have o: "m_scrollOffset m \<le> int (length old) - a" "0 < int (length old) - a"
    using off by (auto simp: offset_in_range_def maxScrollOffset_def Let_def a_def old_def split: if_splits)
  have adj: "adjustOffset old n (m_scrollOffset m) = m_scrollOffset m + int (length post)"
    unfolding n_def using off(1) o a(2) post by (intro adjustOffset_anchor) (auto simp: old_def)
  have new: "activeLines day m' = n" by (simp add: n_def lines old_def)
  have "scrollAvail m' = a" by (simp add: a_def scrollAvail_def same)
  moreover have "m_scrollOffset m + int (length post) \<le> int (length n) - a" using o by (simp add: n_def)
  ultimately have r: "reanchor day old m' = m'\<lparr>m_scrollOffset := m_scrollOffset m + int (length post)\<rparr>"
    using off(1) o by (simp add: reanchor_def Let_def same new adj clampOffset_def maxScrollOffset_def)
  have "shown_lines day (reanchor day old m') =
      visibleLines n h (m_mainError m \<noteq> []) (m_scrollOffset m + int (length post))"
    unfolding r by (simp add: shown_lines_def activeLines_def bucket_of_def h_def same
        new [symmetric, unfolded activeLines_def bucket_of_def])
  also have "\<dots> = visibleLines old h (m_mainError m \<noteq> []) (m_scrollOffset m)"
  proof -
    have 1: "visibleLines n h (m_mainError m \<noteq> []) (m_scrollOffset m + int (length post)) =
        Some (take (nat a) (drop (nat (int (length n) - (m_scrollOffset m + int (length post)) - a)) n))"
      using visibleLines_window[of h "m_mainError m \<noteq> []" n "m_scrollOffset m + int (length post)"] h o off(1)
      by (simp add: a(1) [symmetric] n_def)
    have 2: "visibleLines old h (m_mainError m \<noteq> []) (m_scrollOffset m) =
        Some (take (nat a) (drop (nat (int (length old) - m_scrollOffset m - a)) old))"
      using visibleLines_window[of h "m_mainError m \<noteq> []" old "m_scrollOffset m"] h o off(1)
      by (simp add: a(1) [symmetric])
    show ?thesis unfolding 1 2
      using window_shift[of "m_scrollOffset m" old a pre post, folded n_def] o off(1) a(2) by simp
  qed
  finally show ?thesis by (simp add: shown_lines_def old_def h_def)
qed

lemma place_after:
  assumes "\<forall>y\<in>set ys. ms_ID y < ms_ID msg"
  shows "place msg (ys @ zs) = ys @ place msg zs"
  using place_high[OF assms, of zs] by (cases "ms_ID msg \<in> ms_ID ` set zs") (auto simp: place_dup)

lemma place_before:
  assumes "\<forall>z\<in>set zs. ms_ID msg < ms_ID z"
  shows "place msg (ys @ zs) = place msg ys @ zs"
proof -
  have "filter (\<lambda>x. \<not> ms_ID x < ms_ID msg) zs = zs" "filter (\<lambda>x. ms_ID x < ms_ID msg) zs = []"
    using assms by (auto simp: filter_id_conv filter_empty_conv)
  moreover have "ms_ID msg \<notin> ms_ID ` set zs" using assms by auto
  ultimately show ?thesis by (simp add: place_def image_Un)
qed

lemma places_after:
  "\<forall>e\<in>set es. \<forall>x\<in>set b. ms_ID x < ms_ID e \<Longrightarrow> foldl (\<lambda>b m. place m b) b es = b @ all_placed es"
  by (induction es rule: rev_induct) (auto simp: place_after)

lemma places_before:
  "\<forall>e\<in>set es. \<forall>x\<in>set b. ms_ID e < ms_ID x \<Longrightarrow> foldl (\<lambda>b m. place m b) b es = all_placed es @ b"
  by (induction es rule: rev_induct) (auto simp: place_before)

lemma length_place: "length (place msg b) \<le> Suc (length b)"
  by (simp add: place_def sum_length_filter_compl)

lemma length_places: "length (foldl (\<lambda>b m. place m b) b es) \<le> length b + length es"
  by (induction es rule: rev_induct) (auto intro: order_trans [OF length_place])

lemma ascending_places: "ascending b \<Longrightarrow> ascending (foldl (\<lambda>b m. place m b) b es)"
  by (induction es rule: rev_induct) (auto intro: ascending_place)

lemma inserts_within_cap:
  "ascending b \<Longrightarrow> length b + length es \<le> cap
   \<Longrightarrow> foldl (\<lambda>b m. fst (insertOrdered b m cap)) b es = foldl (\<lambda>b m. place m b) b es"
proof (induction es rule: rev_induct)
  case (snoc e es)
  define c where "c = foldl (\<lambda>b m. place m b) b es"
  have "length c \<le> length b + length es" "ascending c"
    using length_places[of b es] ascending_places snoc(2) by (auto simp: c_def)
  moreover have "length (place e c) \<le> cap" using length_place[of e c] calculation(1) snoc(3) by simp
  ultimately show ?case
    using snoc insertOrdered_place(1)[of c cap e] by (simp add: c_def newest_id)
qed simp

lemma appended_fields [simp]:
  "m_userID (appended r e m) = m_userID m" "m_activeRoomID (appended r e m) = m_activeRoomID m"
  "m_mainError (appended r e m) = m_mainError m" "m_scrollOffset (appended r e m) = m_scrollOffset m"
  "m_width (appended r e m) = m_width m" "m_height (appended r e m) = m_height m"
  by (simp_all add: appended_def healed_def set_history_def Let_def
      split: prod.splits list.splits)

lemma appends_fields:
  "m_userID (foldl (\<lambda>m e. appended r e m) m es) = m_userID m"
  "m_activeRoomID (foldl (\<lambda>m e. appended r e m) m es) = m_activeRoomID m"
  "m_mainError (foldl (\<lambda>m e. appended r e m) m es) = m_mainError m"
  "m_scrollOffset (foldl (\<lambda>m e. appended r e m) m es) = m_scrollOffset m"
  "m_width (foldl (\<lambda>m e. appended r e m) m es) = m_width m"
  "m_height (foldl (\<lambda>m e. appended r e m) m es) = m_height m"
  by (induction es rule: rev_induct) simp_all

lemma bucket_of_appends_one:
  "bucket_of (foldl (\<lambda>m e. appended r e m) m es) r =
     foldl (\<lambda>b m. fst (insertOrdered b m eventBucketCap)) (bucket_of m r) es"
  by (induction es rule: rev_induct) (simp_all add: bucket_of_appended)

text \<open>The rows of a bucket, found again below the rows of older entries or above those of newer ones.\<close>

lemma rows_around:
  assumes ne: "b \<noteq> []"
    and order: "(\<forall>e\<in>set es. \<forall>x\<in>set b. ms_ID x < ms_ID e)
      \<or> ms_At (hd b) \<noteq> zero_time \<and> (\<forall>e\<in>set es. \<forall>x\<in>set b. ms_ID e < ms_ID x)"
  shows "\<exists>pre post. Lines day (foldl (\<lambda>b m. place m b) b es) = pre @ Lines day b @ post
      \<and> (post = [] \<or> pre = [] \<and> \<not> lineIdentityEqual (last (Lines day b)) (last post))"
  using order unfolding Lines_def
proof
  assume newer: "\<forall>e\<in>set es. \<forall>x\<in>set b. ms_ID x < ms_ID e"
  define old where "old = lines_from day [] b"
  define post where "post = lines_from day (last_date day [] b) (all_placed es)"
  have l: "lines_from day [] (foldl (\<lambda>b m. place m b) b es) = old @ post"
    by (simp add: places_after[OF newer] lines_from_append old_def post_def)
  have "\<not> lineIdentityEqual (last old) (last post)" if "post \<noteq> []"
  proof -
    have ap: "all_placed es \<noteq> []" using that by (simp add: post_def)
    then have "ms_ID (last (all_placed es)) \<in> ms_ID ` set es"
      using all_placed_props[of es] by (metis image_eqI last_in_set)
    then have "ms_ID (last b) < ms_ID (last (all_placed es))" using newer ne by auto
    then show ?thesis using ap ne by (simp add: old_def post_def last_lines_from)
  qed
  then show "\<exists>pre post. lines_from day [] (foldl (\<lambda>b m. place m b) b es) = pre @ lines_from day [] b @ post
      \<and> (post = [] \<or> pre = [] \<and> \<not> lineIdentityEqual (last (lines_from day [] b)) (last post))"
    using l unfolding old_def by (metis append_Nil)
next
  assume o: "ms_At (hd b) \<noteq> zero_time \<and> (\<forall>e\<in>set es. \<forall>x\<in>set b. ms_ID e < ms_ID x)"
  then obtain sep where "lines_from day (last_date day [] (all_placed es)) b = sep @ lines_from day [] b"
    using lines_from_dated ne by metis
  then have "lines_from day [] (foldl (\<lambda>b m. place m b) b es)
      = (lines_from day [] (all_placed es) @ sep) @ lines_from day [] b @ []"
    using o by (simp add: places_before lines_from_append)
  then show "\<exists>pre post. lines_from day [] (foldl (\<lambda>b m. place m b) b es) = pre @ lines_from day [] b @ post
      \<and> (post = [] \<or> pre = [] \<and> \<not> lineIdentityEqual (last (lines_from day [] b)) (last post))" by blast
qed

text \<open>A scrolled-up view does not move: when entries are inserted into the active room that are
  all newer than its bucket (live frames), or all older than it (a page of history, the bucket's
  first entry being dated), the rows on the screen after re-anchoring are exactly the rows before,
  as long as the bucket stays within its cap.\<close>

theorem scrolled_view_stays:
  assumes "Compute (m_width m) (m_height m) \<noteq> None"
    and "0 < m_scrollOffset m" and "offset_in_range day m"
    and b: "b = bucket_of m (m_activeRoomID m)" and asc: "ascending b"
    and cap: "length b + length es \<le> eventBucketCap"
    and order: "(\<forall>e\<in>set es. \<forall>x\<in>set b. ms_ID x < ms_ID e)
      \<or> ms_At (hd b) \<noteq> zero_time \<and> (\<forall>e\<in>set es. \<forall>x\<in>set b. ms_ID e < ms_ID x)"
  shows "\<exists>m'. for_each (appendEvent (m_activeRoomID m)) es m = Some m'
    \<and> shown_lines day (reanchor day (activeLines day m) m') = shown_lines day m"
proof -
  define m' where "m' = foldl (\<lambda>m' e. appended (m_activeRoomID m) e m') m es"
  note same = appends_fields[of "m_activeRoomID m" m es, folded m'_def]
  have ne: "b \<noteq> []"
    using assms(2,3) availableRows_pos[of "snd (mainInnerDims (m_width m) (m_height m))" "m_mainError m \<noteq> []"]
    by (auto simp: offset_in_range_def maxScrollOffset_def activeLines_def Lines_def b [symmetric]
        scrollAvail_def VisibleCapacity_def Let_def not_less split: if_splits)
  have "bucket_of m' (m_activeRoomID m) = foldl (\<lambda>b m. place m b) b es"
    using inserts_within_cap[OF asc cap] by (simp add: m'_def bucket_of_appends_one b)
  then have "\<exists>pre post. activeLines day m' = pre @ activeLines day m @ post
      \<and> (post = [] \<or> pre = [] \<and> \<not> lineIdentityEqual (last (activeLines day m)) (last post))"
    using rows_around[OF ne order, of day] by (simp add: activeLines_def same b [symmetric])
  then obtain pre post where "activeLines day m' = pre @ activeLines day m @ post"
    "post = [] \<or> pre = [] \<and> \<not> lineIdentityEqual (last (activeLines day m)) (last post)" by blast
  then have "shown_lines day (reanchor day (activeLines day m) m') = shown_lines day m"
    using assms(1-3) by (intro reanchor_keeps_window) (simp_all add: same)
  moreover have "for_each (appendEvent (m_activeRoomID m)) es m = Some m'"
    by (simp add: m'_def append_room_total)
  ultimately show ?thesis by blast
qed

section \<open>One entry, one row\<close>

lemma runes_append: "valid_utf8 a \<Longrightarrow> runes (a @ b) = runes a @ runes b"
proof (induction a rule: runes.induct)
  case (2 c cs)
  obtain r w where d: "decode_rune c cs = (r, w)" by fastforce
  have v: "\<not> (r = rune_error \<and> w = 1)" "valid_utf8 (drop (w - 1) cs)" using 2(2) valid_utf8_step[OF d] by auto
  have w: "w - 1 \<le> length cs" using decode_rune_width[OF d] by simp
  have "decode_rune c (cs @ b) = (r, w)" using decode_rune_append[OF d v(1)] .
  then show ?case using 2(1)[OF d [symmetric] v(2)] d w by simp
qed simp

lemma rune_len_append: "valid_utf8 a \<Longrightarrow> rune_len (a @ b) = rune_len a + rune_len b"
  by (simp add: rune_len_def runes_append)

lemma valid_utf8_append: "valid_utf8 a \<Longrightarrow> valid_utf8 b \<Longrightarrow> valid_utf8 (a @ b)"
  by (simp add: valid_utf8_def runes_append [unfolded valid_utf8_def])

lemma clip_valid:
  assumes "valid_utf8 s" "0 < width"
  shows "rune_len (clip s width) \<le> width" and "valid_utf8 (clip s width)" and "set (clip s width) \<subseteq> set s"
proof -
  have e: "map encode_seg (take (nat width) (runes s)) = map snd (take (nat width) (runes s))"
    using assms(1) by (auto simp: valid_utf8_def list_all_iff encode_seg_def dest: in_set_takeD)
  have r: "runes (concat (map snd (take (nat width) (runes s)))) = take (nat width) (runes s)"
    by (rule runes_take_segs)
  show "rune_len (clip s width) \<le> width"
    using assms(2) by (simp add: clip_def rune_len_def e r)
  show "valid_utf8 (clip s width)"
    using assms by (auto simp: clip_def valid_utf8_def e r list_all_iff dest: in_set_takeD)
  have "set (concat (map snd (take (nat width) (runes s)))) \<subseteq> set (concat (map snd (runes s)))"
    by (auto dest: in_set_takeD)
  then show "set (clip s width) \<subseteq> set s"
    unfolding runes_concat by (auto simp: clip_def e)
qed

lemma map_replace1: "replace1 a [b] s = map (\<lambda>c. if c = a then b else c) s"
  by (induction s) auto

lemma sanitize_replace:
  "sanitize s = replace1 (CHR 0x0A) '' '' (replace1 (CHR 0x0D) '' '' (replace1 (CHR 0x09) '' '' s))"
proof -
  have c: "byte_of (CHR 0x0A) = 10" "byte_of (CHR 0x0D) = 13" "byte_of (CHR 0x09) = 9" by simp_all
  have inj: "byte_of c = byte_of d \<longleftrightarrow> c = d" for c d by (rule of_char_eq_iff)
  have "byte_of c = 10 \<longleftrightarrow> c = CHR 0x0A" for c using inj[of c "CHR 0x0A"] unfolding c(1) .
  moreover have "byte_of c = 13 \<longleftrightarrow> c = CHR 0x0D" for c using inj[of c "CHR 0x0D"] unfolding c(2) .
  moreover have "byte_of c = 9 \<longleftrightarrow> c = CHR 0x09" for c using inj[of c "CHR 0x09"] unfolding c(3) .
  ultimately have "sanitize_char x = (if x = CHR 0x0A \<or> x = CHR 0x0D \<or> x = CHR 0x09 then CHR '' '' else x)" for x
    by (simp add: sanitize_char_def)
  then show ?thesis by (simp add: sanitize_def map_replace1)
qed

lemma sanitize_valid: "valid_utf8 s \<Longrightarrow> valid_utf8 (sanitize s)"
  unfolding sanitize_replace by (intro valid_utf8_replace1) simp_all

lemma sanitize_no_newline: "CHR 0x0A \<notin> set (sanitize s)"
  by (auto simp: sanitize_def sanitize_char_def)

lemma valid_literals: "valid_utf8 ''  ''" "valid_utf8 '' ''" "valid_utf8 em_dash" "valid_utf8 ''joined''"
    "valid_utf8 ''left''" "valid_utf8 zeroTimeGlyph"
  by (simp_all add: valid_utf8_ascii_Cons em_dash_def zeroTimeGlyph_def)
    (simp add: valid_utf8_def decode_rune.simps second_range_def lead_width_def in_range_def cont_bits_def seg_valid_def rune_error_def Let_def)

text \<open>A time rendering is printable ASCII.\<close>

definition plain_format :: "(instant \<Rightarrow> string) \<Rightarrow> bool" where
  "plain_format f \<longleftrightarrow> (\<forall>t. valid_utf8 (f t) \<and> CHR 0x0A \<notin> set (f t))"

lemma timestampGlyph_plain:
  assumes "plain_format clock"
  shows "valid_utf8 (timestampGlyph clock t)" "CHR 0x0A \<notin> set (timestampGlyph clock t)"
  using assms valid_literals by (auto simp: timestampGlyph_def plain_format_def zeroTimeGlyph_def)

lemma row_shape:
  assumes "0 < width" "valid_utf8 prefix" "valid_utf8 body"
    and "CHR 0x0A \<notin> set prefix" "CHR 0x0A \<notin> set body"
    and "row = (if width \<le> rune_len prefix then clip (prefix @ body) width
                else prefix @ clip body (width - rune_len prefix))"
  shows "rune_len row \<le> width \<and> CHR 0x0A \<notin> set row"
proof (cases "width \<le> rune_len prefix")
  case True
  then show ?thesis
    using clip_valid[OF valid_utf8_append[OF assms(2,3)] assms(1)] assms(4-6) by auto
next
  case False
  then show ?thesis
    using clip_valid[OF assms(3), of "width - rune_len prefix"] assms(4-6) by (auto simp: rune_len_append[OF assms(2)])
qed

lemmas row_intros = valid_utf8_append valid_literals sanitize_valid timestampGlyph_plain

text \<open>Every scrollback entry takes exactly one terminal row: for a positive pane width and
  well-formed strings, the unstyled text of a chat message, a membership line or a date separator
  has no line break and at most as many characters as the pane is wide, however long the name and
  the text are and whatever line breaks they contain.\<close>

theorem row_fits_pane:
  assumes "0 < width" and "plain_format clock"
    and "valid_utf8 (ms_Sender (ln_Msg ln))" "valid_utf8 (ms_Text (ln_Msg ln))"
    and "valid_utf8 (ln_Date ln)" "CHR 0x0A \<notin> set (ln_Date ln)"
  shows "rune_len (renderLine clock (\<lambda>s. s) ln width) \<le> width
    \<and> CHR 0x0A \<notin> set (renderLine clock (\<lambda>s. s) ln width)"
proof -
  define ts where "ts = timestampGlyph clock (ms_At (ln_Msg ln))"
  define name where "name = sanitize (ms_Sender (ln_Msg ln))"
  define verb where "verb = (if ms_Kind (ln_Msg ln) = KindLeft then ''left'' else ''joined'')"
  have ts: "valid_utf8 ts" "CHR 0x0A \<notin> set ts" using timestampGlyph_plain[OF assms(2)] by (simp_all add: ts_def)
  have name: "valid_utf8 name" "CHR 0x0A \<notin> set name"
    using assms(3) by (simp_all add: name_def sanitize_valid sanitize_no_newline)
  have verb: "valid_utf8 verb" "CHR 0x0A \<notin> set verb" using valid_literals by (simp_all add: verb_def)
  have dash: "CHR 0x0A \<notin> set em_dash" by (simp add: em_dash_def)
  have chat: ?thesis if "\<not> ln_Separator ln" "ms_Kind (ln_Msg ln) = KindChat"
  proof (rule row_shape[OF assms(1), of "ts @ ''  '' @ name @ ''  ''" "sanitize (ms_Text (ln_Msg ln))"])
    show "valid_utf8 (ts @ ''  '' @ name @ ''  '')" by (intro row_intros ts name)
  qed (use that ts name assms(1,4) in \<open>auto simp: renderLine_def formatMessageLine_def Let_def ts_def name_def
      sanitize_no_newline sanitize_valid\<close>)
  have system: ?thesis if "\<not> ln_Separator ln" "ms_Kind (ln_Msg ln) \<noteq> KindChat"
  proof (rule row_shape[OF assms(1), of "ts @ ''  ''" "em_dash @ '' '' @ name @ '' '' @ verb @ '' '' @ em_dash"])
    show "valid_utf8 (ts @ ''  '')" by (intro row_intros ts)
    show "valid_utf8 (em_dash @ '' '' @ name @ '' '' @ verb @ '' '' @ em_dash)" by (intro row_intros name verb)
  qed (use that ts name verb dash assms(1) in \<open>auto simp: renderLine_def formatSystemLine_def Let_def ts_def
      name_def verb_def\<close>)
  have sep: ?thesis if "ln_Separator ln"
  proof -
    have "valid_utf8 (em_dash @ '' '' @ ln_Date ln @ '' '' @ em_dash)" by (intro row_intros assms)
    from clip_valid[OF this assms(1)] show ?thesis
      using that dash assms(6) by (auto simp: renderLine_def formatSeparatorLine_def)
  qed
  show ?thesis using chat system sep by blast
qed

section \<open>Concrete runs\<close>

definition demo_message :: "int \<Rightarrow> message" where
  "demo_message i = \<lparr>ms_ID = i, ms_Kind = KindChat, ms_Sender = ''ann'', ms_Text = ''hi'',
     ms_At = 1767225600000000000, ms_Self = False\<rparr>"

definition demo_chat :: "message list \<Rightarrow> int \<Rightarrow> chat_state" where
  "demo_chat b off = \<lparr>m_userID = ''Ux'', m_activeRoomID = ''R1'', m_messages = Some [''R1'' \<mapsto> b],
     m_histories = None, m_mainError = [], m_scrollOffset = off, m_width = 80, m_height = 20\<rparr>"

theorem scrollback_keeps_newest_witness:
  "\<exists>m. for_each (\<lambda>(room, msg). appendEvent room msg)
     [(''R1'', demo_message 5), (''R2'', demo_message 7), (''R1'', demo_message 3), (''R1'', demo_message 5)] (demo_chat [] 0) = Some m
   \<and> map ms_ID (bucket_of m ''R1'') = [3, 5]"
proof -
  have "bucket_of (demo_chat [] 0) ''R1'' = []" by (simp add: bucket_of_def demo_chat_def map_get_def)
  from scrollback_keeps_newest[OF this refl, of
      "[(''R1'', demo_message 5), (''R2'', demo_message 7), (''R1'', demo_message 3), (''R1'', demo_message 5)]"]
  show ?thesis by (auto simp: demo_message_def newest_def eventBucketCap_def insert_Diff_if simp del: for_each.simps)
qed

theorem scrolled_view_stays_witness:
  "\<exists>m'. for_each (appendEvent ''R1'') [demo_message 26]
        (demo_chat (map demo_message [10,11,12,13,14,15,16,17,18,19,20,21,22,23,24,25]) 2) = Some m'
   \<and> shown_lines (\<lambda>_. ''2026-01-01'') (reanchor (\<lambda>_. ''2026-01-01'')
      (activeLines (\<lambda>_. ''2026-01-01'') (demo_chat (map demo_message [10,11,12,13,14,15,16,17,18,19,20,21,22,23,24,25]) 2)) m')
   = shown_lines (\<lambda>_. ''2026-01-01'') (demo_chat (map demo_message [10,11,12,13,14,15,16,17,18,19,20,21,22,23,24,25]) 2)"
proof -
  define b where "b = map demo_message [10,11,12,13,14,15,16,17,18,19,20,21,22,23,24,25]"
  have "Compute 80 20 \<noteq> None" by (simp add: Compute_def MinWidth_def MinHeight_def Let_def)
  moreover have "offset_in_range (\<lambda>_. ''2026-01-01'') (demo_chat b 2)"
    by (simp add: offset_in_range_def demo_chat_def activeLines_def bucket_of_def map_get_def Lines_def b_def demo_message_def
        Let_def maxScrollOffset_def scrollAvail_def VisibleCapacity_def availableRows_def mainInnerDims_def Compute_def
        MinWidth_def MinHeight_def InnerHeight_def innerHeight_def reservedRows_def zero_time_def)
  moreover have "ascending b" by (simp add: b_def demo_message_def)
  moreover have "length b + length [demo_message 26] \<le> eventBucketCap" by (simp add: b_def eventBucketCap_def)
  moreover have "\<forall>e\<in>set [demo_message 26]. \<forall>x\<in>set b. ms_ID x < ms_ID e" by (simp add: b_def demo_message_def)
  moreover have "b = bucket_of (demo_chat b 2) (m_activeRoomID (demo_chat b 2))"
    by (simp add: bucket_of_def demo_chat_def map_get_def)
  ultimately show ?thesis
    using scrolled_view_stays[of "demo_chat b 2" "\<lambda>_. ''2026-01-01''" b "[demo_message 26]"]
    unfolding b_def [symmetric] by (simp add: demo_chat_def del: for_each.simps)
qed

theorem row_fits_pane_witness:
  "rune_len (renderLine (\<lambda>_. ''12:00:00'') (\<lambda>s. s) (message_line (demo_message 5)) 16) \<le> 16
   \<and> CHR 0x0A \<notin> set (renderLine (\<lambda>_. ''12:00:00'') (\<lambda>s. s) (message_line (demo_message 5)) 16)"
  by (rule row_fits_pane)
    (simp_all add: plain_format_def message_line_def demo_message_def valid_utf8_ascii_Cons)

end
