(* ===== verification/ClientApi.thy ===== *)
theory ClientApi
  imports ClientScrollback
begin

text \<open>
  The transport of the terminal client, \<open>cmd/client/internal/api\<close>: the messages its commands emit,
  the HTTP commands (login, registration, rooms, history, posting), the WebSocket handshake and read
  loop, the decoding of inbound frames and the mapping of error statuses to text.

  A command is a function from what the network did to the one message it emits. The network is the
  parameter \<open>transport\<close> (an HTTP exchange: \<open>net/http\<close>) and the handshake script \<open>ws_script\<close>
  (gorilla/websocket); \<open>encoding/json\<close>, \<open>encoding/base64\<close>, the printable-character table and the quoting of \<open>%q\<close> are the
  fields of \<open>client_json\<close>: one decoder per struct, with the decoder's error text on the left.
  \<open>url.PathEscape\<close>, \<open>Values.Encode\<close> and \<open>http.StatusText\<close> are written out.

  The lemmas show that a connection is handed over exactly when the handshake succeeds and closed
  otherwise, that a read loop reports one disconnect and reports it last, and that every room command
  emits one message carrying the generation it was dispatched with.
\<close>

section \<open>Messages\<close>

type_synonym conn_ref = nat
type_synonym generation = nat

record client_room =
  crm_ID :: string
  crm_Name :: string

record key =
  k_String :: string
  k_Runes :: "rune list"

datatype chrome_msg =
  WindowSizeMsg int int
  | TickMsg instant
  | KeyMsg key
  | QuitMsg

text \<open>Arguments in the order of the struct fields; an HTTP status of 0 is a transport failure.\<close>

datatype session_msg =
  LoginSucceeded string string
  | LoginRejected string string int string
  | LoginTransportError string
  | LoginProtocolError string
  | CreateAccountRequested
  | RegisterCancelled string
  | VerifyCancelled string
  | RegisterSucceeded string
  | VerifySucceeded string
  | WSAuthSucceeded conn_ref string generation
  | WSAuthRejected string string generation
  | WSDialFailed string generation
  | WSAuthTimedOut generation
  | WSDisconnected string generation

datatype rooms_msg =
  JoinedRoomsLoaded "client_room list" generation
  | JoinedRoomsLoadFailed string string int generation
  | RoomsLoaded "client_room list" string string string generation
  | RoomsLoadFailed string string int string string generation
  | RoomJoined string string generation
  | RoomJoinFailed string string string int generation
  | RoomCreated client_room generation
  | RoomCreateFailed string string int generation
  | RoomLeft string string generation
  | RoomLeaveFailed string string string int generation
  | CreateRoomRequested
  | CreateRoomCancelled

datatype chat_msg =
  RoomEventsLoaded string "TimelineEvent list" string string generation
  | RoomEventsLoadFailed string string string int string generation
  | WSFrameReceived string string generation
  | SendMessageSucceeded string generation instant
  | SendMessageFailed string generation string string string int

text \<open>What only an open modal reacts to.\<close>

datatype modal_msg =
  RegisterRejected string string int
  | RegisterTransportError string
  | VerifyRejected string string int
  | VerifyTransportError string
  | ResendSucceeded
  | ResendRejected string string int
  | ResendTransportError string
  | SearchTick nat
  | BlinkMsg

datatype tea_msg =
  Chrome chrome_msg
  | Session session_msg
  | Rooms rooms_msg
  | Chat chat_msg
  | ForModal modal_msg

section \<open>Error text\<close>

definition errorMessages :: "(string \<times> string) list" where
  "errorMessages =
     [ (''AUTH_INVALID_TOKEN'', ''Invalid credentials''),
       (''AUTH_EXPIRED_TOKEN'', ''Session expired '' @ em_dash @ '' please sign in again''),
       (''AUTH_MISSING_TOKEN'', ''Authentication timed out''),
       (''AUTH_ACCOUNT_PENDING'', ''Verify your email to finish creating your account''),
       (''INVALID_REQUEST'', ''Invalid request''),
       (''MISSING_FIELD'', ''A required field is missing''),
       (''PAYLOAD_TOO_LARGE'', ''Request too large''),
       (''INVALID_EMAIL'', ''Enter a valid email address''),
       (''WEAK_PASSWORD'', ''Choose a stronger password''),
       (''INTERNAL_ERROR'', ''Server error '' @ em_dash @ '' please try again''),
       (''SERVICE_UNAVAILABLE'', ''Server unavailable '' @ em_dash @ '' please try again''),
       (''RATE_LIMIT_EXCEEDED'', ''Too many attempts '' @ em_dash @ '' please wait and try again''),
       (''VERIFICATION_RATE_LIMITED'', ''Too many verification attempts '' @ em_dash @ '' please wait and try again''),
       (''ROOM_ALREADY_MEMBER'', ''Already joined this room''),
       (''ROOM_NOT_FOUND'', ''Room not found''),
       (''ROOM_NOT_MEMBER'', ''Not a member of this room''),
       (''ROOM_OWNER_CANNOT_LEAVE'', ''Transfer ownership before leaving this room''),
       (''ROOM_PERMISSION_DENIED'', ''You don'' @ [CHR 0x27] @ ''t have permission to do that in this room''),
       (''EMAIL_ALREADY_REGISTERED'', ''Email already registered''),
       (''HANDLE_ALREADY_TAKEN'', ''Handle already taken''),
       (''VERIFICATION_INVALID'', ''Verification code is invalid or expired'')]"

definition Humanise :: "string \<Rightarrow> string \<Rightarrow> string" where
  "Humanise status fallback =
     (case map_of errorMessages status of
        Some msg \<Rightarrow> msg
      | None \<Rightarrow> if fallback \<noteq> [] then fallback else ''Unexpected error from server'')"

text \<open>\<open>http.StatusText\<close>.\<close>

definition status_texts :: "(int \<times> string) list" where
  "status_texts =
     [(100, ''Continue''), (101, ''Switching Protocols''), (102, ''Processing''), (103, ''Early Hints''),
      (200, ''OK''), (201, ''Created''), (202, ''Accepted''), (203, ''Non-Authoritative Information''),
      (204, ''No Content''), (205, ''Reset Content''), (206, ''Partial Content''), (207, ''Multi-Status''),
      (208, ''Already Reported''), (226, ''IM Used''), (300, ''Multiple Choices''),
      (301, ''Moved Permanently''), (302, ''Found''), (303, ''See Other''), (304, ''Not Modified''),
      (305, ''Use Proxy''), (307, ''Temporary Redirect''), (308, ''Permanent Redirect''),
      (400, ''Bad Request''), (401, ''Unauthorized''), (402, ''Payment Required''), (403, ''Forbidden''),
      (404, ''Not Found''), (405, ''Method Not Allowed''), (406, ''Not Acceptable''),
      (407, ''Proxy Authentication Required''), (408, ''Request Timeout''), (409, ''Conflict''),
      (410, ''Gone''), (411, ''Length Required''), (412, ''Precondition Failed''),
      (413, ''Request Entity Too Large''), (414, ''Request URI Too Long''),
      (415, ''Unsupported Media Type''), (416, ''Requested Range Not Satisfiable''),
      (417, ''Expectation Failed''), (418, ''I'' @ [CHR 0x27] @ ''m a teapot''),
      (421, ''Misdirected Request''), (422, ''Unprocessable Entity''), (423, ''Locked''),
      (424, ''Failed Dependency''), (425, ''Too Early''), (426, ''Upgrade Required''),
      (428, ''Precondition Required''), (429, ''Too Many Requests''),
      (431, ''Request Header Fields Too Large''), (451, ''Unavailable For Legal Reasons''),
      (500, ''Internal Server Error''), (501, ''Not Implemented''), (502, ''Bad Gateway''),
      (503, ''Service Unavailable''), (504, ''Gateway Timeout''), (505, ''HTTP Version Not Supported''),
      (506, ''Variant Also Negotiates''), (507, ''Insufficient Storage''), (508, ''Loop Detected''),
      (510, ''Not Extended''), (511, ''Network Authentication Required'')]"

definition StatusText :: "int \<Rightarrow> string" where
  "StatusText code = (case map_of status_texts code of Some t \<Rightarrow> t | None \<Rightarrow> [])"

section \<open>Wire structs and their decoders\<close>

record message_frame =
  mf_Type :: string
  mf_RoomID :: string
  mf_EventID :: string
  mf_Sender :: UserRef
  mf_Text :: string
  mf_Timestamp :: int

record member_frame =
  bf_Type :: string
  bf_RoomID :: string
  bf_EventID :: string
  bf_User :: UserRef
  bf_Timestamp :: int

record error_frame =
  ef_Type :: string
  ef_Status :: string
  ef_Message :: string

record RoomEvent =
  ev_ID :: string
  ev_Type :: string
  ev_Sender :: "UserRef option"
  ev_User :: "UserRef option"
  ev_Text :: string
  ev_Timestamp :: int

datatype request_body =
  LoginBody string string
  | RegisterBody string string string
  | VerifyBody string string
  | ResendBody string
  | CreateRoomBody string
  | SendMessageBody string

record client_json =
  cj_marshal :: "request_body \<Rightarrow> (string, string) result"
  cj_envelope :: "string \<Rightarrow> (string, string \<times> string) result"
  cj_login :: "string \<Rightarrow> (string, string) result"
  cj_rooms :: "string \<Rightarrow> (string, client_room list \<times> string option) result"
  cj_success :: "string \<Rightarrow> (string, bool) result"
  cj_send :: "string \<Rightarrow> (string, bool \<times> int) result"
  cj_room :: "string \<Rightarrow> (string, client_room) result"
  cj_events :: "string \<Rightarrow> (string, RoomEvent list \<times> string option) result"
  cj_type :: "string \<Rightarrow> (string, string) result"
  cj_message :: "string \<Rightarrow> (string, message_frame) result"
  cj_member :: "string \<Rightarrow> (string, member_frame) result"
  cj_error :: "string \<Rightarrow> (string, error_frame) result"
  cj_sub :: "string \<Rightarrow> (string, string) result"
  cj_base64_raw :: "string \<Rightarrow> string option"
  cj_base64_padded :: "string \<Rightarrow> string option"
  cj_is_print :: "rune \<Rightarrow> bool"
  cj_quote :: "string \<Rightarrow> string"

definition decodeErrorEnvelope :: "client_json \<Rightarrow> string \<Rightarrow> string \<Rightarrow> string \<times> string" where
  "decodeErrorEnvelope J raw fallbackStatus =
     (case cj_envelope J raw of
        Inl _ \<Rightarrow> ([], ''server returned '' @ fallbackStatus)
      | Inr (status, message) \<Rightarrow>
          if status = [] then ([], ''server returned '' @ fallbackStatus) else (status, message))"

definition parseErrorEnvelope :: "client_json \<Rightarrow> string \<Rightarrow> int \<Rightarrow> string \<times> string" where
  "parseErrorEnvelope J raw httpStatus =
     decodeErrorEnvelope J raw (format_int httpStatus @ '' '' @ StatusText httpStatus)"

section \<open>Inbound frames\<close>

definition DecodeChatMessage :: "client_json \<Rightarrow> string \<Rightarrow> ChatMessageReceived option" where
  "DecodeChatMessage J raw =
     (case cj_message J raw of
        Inl _ \<Rightarrow> None
      | Inr f \<Rightarrow>
          if mf_Type f \<noteq> ''message'' then None
          else case client_ParseEventID (mf_EventID f) of
            Inl _ \<Rightarrow> None
          | Inr eventID \<Rightarrow>
              Some \<lparr>cm_RoomID = mf_RoomID f, cm_Sender = mf_Sender f, cm_Text = mf_Text f,
                    cm_EventID = eventID, cm_At = millisToTime (mf_Timestamp f)\<rparr>)"

definition DecodeMemberEvent :: "client_json \<Rightarrow> string \<Rightarrow> MemberEventReceived option" where
  "DecodeMemberEvent J raw =
     (case cj_member J raw of
        Inl _ \<Rightarrow> None
      | Inr f \<Rightarrow>
          case (if bf_Type f = ''joined'' then Some MemberJoined
                else if bf_Type f = ''left'' then Some MemberLeft else None) of
            None \<Rightarrow> None
          | Some kind \<Rightarrow>
          case client_ParseEventID (bf_EventID f) of
            Inl _ \<Rightarrow> None
          | Inr eventID \<Rightarrow>
              Some \<lparr>me_RoomID = bf_RoomID f, me_User = bf_User f, me_Kind = kind,
                    me_EventID = eventID, me_At = millisToTime (bf_Timestamp f)\<rparr>)"

definition DecodeErrorFrame :: "client_json \<Rightarrow> string \<Rightarrow> (string \<times> string) option" where
  "DecodeErrorFrame J raw =
     (case cj_error J raw of
        Inl _ \<Rightarrow> None
      | Inr f \<Rightarrow> if ef_Type f \<noteq> ''error'' then None else Some (ef_Status f, ef_Message f))"

text \<open>\<open>parseTimelineEvents\<close>: a known entry that breaks the contract fails the page, an unknown kind is
  skipped. The error is the entry's id with the reason.\<close>

datatype event_error = MissingPerson string string | BadEventID string client_id_error

fun parseTimelineEvents :: "RoomEvent list \<Rightarrow> (event_error, TimelineEvent list) result" where
  "parseTimelineEvents [] = Ok []"
| "parseTimelineEvents (e # es) =
     (let known = (if ev_Type e = ''message'' then Some (TimelineMessage, ev_Sender e)
                   else if ev_Type e = ''member_joined'' then Some (TimelineJoined, ev_User e)
                   else if ev_Type e = ''member_left'' then Some (TimelineLeft, ev_User e)
                   else None)
      in case known of
           None \<Rightarrow> parseTimelineEvents es
         | Some (kind, None) \<Rightarrow> Err (MissingPerson (ev_ID e) (ev_Type e))
         | Some (kind, Some person) \<Rightarrow>
             (case client_ParseEventID (ev_ID e) of
                Inl err \<Rightarrow> Err (BadEventID (ev_ID e) err)
              | Inr eventID \<Rightarrow>
                  bind_res (parseTimelineEvents es) (\<lambda>rest.
                    Ok (\<lparr>tv_EventID = eventID, tv_Kind = kind, tv_Person = person, tv_Text = ev_Text e,
                         tv_At = millisToTime (ev_Timestamp e)\<rparr> # rest))))"

section \<open>URLs\<close>

definition url_alnum :: "char \<Rightarrow> bool" where
  "url_alnum c \<longleftrightarrow> in_range 48 57 c \<or> in_range 65 90 c \<or> in_range 97 122 c"

definition hex_digit :: "nat \<Rightarrow> char" where
  "hex_digit d = (if d < 10 then char_of (48 + d) else char_of (55 + d))"

definition percent :: "char \<Rightarrow> string" where
  "percent c = [CHR ''%'', hex_digit (byte_of c div 16), hex_digit (byte_of c mod 16)]"

definition PathEscape :: "string \<Rightarrow> string" where
  "PathEscape s = concat (map (\<lambda>c. if url_alnum c \<or> c \<in> set ''-_.~$&+=:@'' then [c] else percent c) s)"

definition QueryEscape :: "string \<Rightarrow> string" where
  "QueryEscape s = concat (map (\<lambda>c. if url_alnum c \<or> c \<in> set ''-_.~'' then [c]
     else if c = CHR '' '' then ''+'' else percent c) s)"

definition trim_right_slash :: "string \<Rightarrow> string" where
  "trim_right_slash s = rev (dropWhile (\<lambda>c. c = CHR ''/'') (rev s))"

section \<open>HTTP commands\<close>

record http_request =
  hq_method :: string
  hq_url :: string
  hq_bearer :: "string option"
  hq_body :: "string option"

text \<open>What became of a request: it could not be built, \<open>client.Do\<close> failed, reading the body failed, or a
  response with its code, its status line and its body.\<close>

datatype http_outcome =
  BuildFailed string
  | DoFailed string
  | ReadBodyFailed string
  | HttpResponse int string string

type_synonym transport = "http_request \<Rightarrow> http_outcome"

definition defaultReadLimitBytes :: nat where "defaultReadLimitBytes = 1048576"

text \<open>The pre-login calls read through \<open>MaxBytesReader\<close>: a longer body is an error.\<close>

definition LoginCmd :: "client_json \<Rightarrow> transport \<Rightarrow> string \<Rightarrow> string \<Rightarrow> string \<Rightarrow> session_msg" where
  "LoginCmd J T server email password =
     (case cj_marshal J (LoginBody email password) of
        Inl e \<Rightarrow> LoginTransportError (''encode login request: '' @ e)
      | Inr body \<Rightarrow>
      case T \<lparr>hq_method = ''POST'', hq_url = trim_right_slash server @ ''/login'', hq_bearer = None, hq_body = Some body\<rparr> of
        BuildFailed e \<Rightarrow> LoginTransportError (''build login request: '' @ e)
      | DoFailed e \<Rightarrow> LoginTransportError e
      | ReadBodyFailed e \<Rightarrow> LoginTransportError (''read login response: '' @ e)
      | HttpResponse code line raw \<Rightarrow>
          if length raw > defaultReadLimitBytes
          then LoginProtocolError (''login response exceeds '' @ format_nat defaultReadLimitBytes @ '' bytes'')
          else if code = 200 then
            (case cj_login J raw of
               Inl _ \<Rightarrow> LoginProtocolError ''malformed login response from server''
             | Inr token \<Rightarrow>
                 if token = [] then LoginProtocolError ''malformed login response from server''
                 else LoginSucceeded token (trim_space email))
          else (case decodeErrorEnvelope J raw line of
                  (status, message) \<Rightarrow> LoginRejected status message code (trim_space email)))"

definition postRegistrationJSON ::
  "client_json \<Rightarrow> transport \<Rightarrow> string \<Rightarrow> string \<Rightarrow> request_body \<Rightarrow> (string, int \<times> string \<times> string) result" where
  "postRegistrationJSON J T server path payload =
     (case cj_marshal J payload of
        Inl e \<Rightarrow> Err (''encode request: '' @ e)
      | Inr body \<Rightarrow>
      case T \<lparr>hq_method = ''POST'', hq_url = trim_right_slash server @ path, hq_bearer = None, hq_body = Some body\<rparr> of
        BuildFailed e \<Rightarrow> Err (''build request: '' @ e)
      | DoFailed e \<Rightarrow> Err e
      | ReadBodyFailed e \<Rightarrow> Err (''read response: '' @ e)
      | HttpResponse code line raw \<Rightarrow>
          if length raw > defaultReadLimitBytes then Err (''read response: '' @ ''http: request body too large'')
          else if code \<ge> 400 then
            (case decodeErrorEnvelope J raw line of (status, message) \<Rightarrow> Ok (code, status, message))
          else Ok (code, [], []))"

definition RegisterCmd :: "client_json \<Rightarrow> transport \<Rightarrow> string \<Rightarrow> string \<Rightarrow> string \<Rightarrow> string \<Rightarrow> tea_msg" where
  "RegisterCmd J T server email handle password =
     (case postRegistrationJSON J T server ''/users'' (RegisterBody email handle password) of
        Inl e \<Rightarrow> ForModal (RegisterTransportError e)
      | Inr (code, status, message) \<Rightarrow>
          if code = 201 then Session (RegisterSucceeded (trim_space email))
          else ForModal (RegisterRejected status message code))"

definition VerifyEmailCmd :: "client_json \<Rightarrow> transport \<Rightarrow> string \<Rightarrow> string \<Rightarrow> string \<Rightarrow> tea_msg" where
  "VerifyEmailCmd J T server email pin =
     (case postRegistrationJSON J T server ''/users/verifications'' (VerifyBody email pin) of
        Inl e \<Rightarrow> ForModal (VerifyTransportError e)
      | Inr (code, status, message) \<Rightarrow>
          if code = 200 then Session (VerifySucceeded (trim_space email))
          else ForModal (VerifyRejected status message code))"

definition ResendVerificationCmd :: "client_json \<Rightarrow> transport \<Rightarrow> string \<Rightarrow> string \<Rightarrow> tea_msg" where
  "ResendVerificationCmd J T server email =
     (case postRegistrationJSON J T server ''/users/verifications/resend'' (ResendBody email) of
        Inl e \<Rightarrow> ForModal (ResendTransportError e)
      | Inr (code, status, message) \<Rightarrow>
          if code = 200 then ForModal ResendSucceeded else ForModal (ResendRejected status message code))"

text \<open>\<open>doRoomRequest\<close>: the body is read up to the limit and cut there; every error is reported without a
  status to the callers, which drop it.\<close>

definition doRoomRequest ::
  "transport \<Rightarrow> string \<Rightarrow> string \<Rightarrow> string \<Rightarrow> string \<Rightarrow> string option \<Rightarrow> (string, string \<times> int) result" where
  "doRoomRequest T meth server path token body =
     (case T \<lparr>hq_method = meth, hq_url = trim_right_slash server @ path, hq_bearer = Some token, hq_body = body\<rparr> of
        BuildFailed e \<Rightarrow> Err (''build '' @ meth @ '' '' @ path @ '': '' @ e)
      | DoFailed e \<Rightarrow> Err e
      | ReadBodyFailed e \<Rightarrow> Err (''read '' @ meth @ '' '' @ path @ '' response: '' @ e)
      | HttpResponse code line raw \<Rightarrow> Ok (take defaultReadLimitBytes raw, code))"

definition LoadJoinedRoomsCmd :: "client_json \<Rightarrow> transport \<Rightarrow> string \<Rightarrow> string \<Rightarrow> generation \<Rightarrow> rooms_msg" where
  "LoadJoinedRoomsCmd J T server token g =
     (case doRoomRequest T ''GET'' server ''/rooms/joined'' token None of
        Inl e \<Rightarrow> JoinedRoomsLoadFailed [] e 0 g
      | Inr (raw, code) \<Rightarrow>
          if code = 200 then
            (case cj_rooms J raw of
               Inl e \<Rightarrow> JoinedRoomsLoadFailed [] (''decode joined rooms: '' @ e) code g
             | Inr (rooms, nxt) \<Rightarrow> JoinedRoomsLoaded rooms g)
          else (case parseErrorEnvelope J raw code of
                  (status, message) \<Rightarrow> JoinedRoomsLoadFailed status message code g))"

text \<open>\<open>params.Encode()\<close> sorts the keys: \<open>after\<close> before \<open>q\<close>.\<close>

definition room_query_path :: "string \<Rightarrow> string \<Rightarrow> string" where
  "room_query_path query after =
     (let params = (if after \<noteq> [] then [''after='' @ QueryEscape after] else [])
                 @ (if query \<noteq> [] then [''q='' @ QueryEscape query] else [])
      in case params of
           [] \<Rightarrow> ''/rooms''
         | [a] \<Rightarrow> ''/rooms?'' @ a
         | a # b # _ \<Rightarrow> ''/rooms?'' @ a @ ''&'' @ b)"

definition LoadRoomsCmd :: "client_json \<Rightarrow> transport \<Rightarrow> string \<Rightarrow> string \<Rightarrow> string \<Rightarrow> string \<Rightarrow> generation \<Rightarrow> rooms_msg" where
  "LoadRoomsCmd J T server token query after g =
     (case doRoomRequest T ''GET'' server (room_query_path query after) token None of
        Inl e \<Rightarrow> RoomsLoadFailed [] e 0 query after g
      | Inr (raw, code) \<Rightarrow>
          if code = 200 then
            (case cj_rooms J raw of
               Inl e \<Rightarrow> RoomsLoadFailed [] (''decode room list: '' @ e) code query after g
             | Inr (rooms, nxt) \<Rightarrow>
                 RoomsLoaded rooms (case nxt of None \<Rightarrow> [] | Some n \<Rightarrow> n) query after g)
          else (case parseErrorEnvelope J raw code of
                  (status, message) \<Rightarrow> RoomsLoadFailed status message code query after g))"

definition membership_path :: "string \<Rightarrow> string" where
  "membership_path roomID = ''/rooms/'' @ PathEscape roomID @ ''/membership''"

definition JoinRoomCmd :: "client_json \<Rightarrow> transport \<Rightarrow> string \<Rightarrow> string \<Rightarrow> string \<Rightarrow> string \<Rightarrow> generation \<Rightarrow> rooms_msg" where
  "JoinRoomCmd J T server token roomID roomName g =
     (case doRoomRequest T ''PUT'' server (membership_path roomID) token None of
        Inl e \<Rightarrow> RoomJoinFailed roomID [] e 0 g
      | Inr (raw, code) \<Rightarrow>
          if code = 200 then
            (if cj_success J raw \<noteq> Ok True
             then RoomJoinFailed roomID [] ''server reported join with no success flag'' code g
             else RoomJoined roomID roomName g)
          else (case parseErrorEnvelope J raw code of
                  (status, message) \<Rightarrow> RoomJoinFailed roomID status message code g))"

definition CreateRoomCmd :: "client_json \<Rightarrow> transport \<Rightarrow> string \<Rightarrow> string \<Rightarrow> string \<Rightarrow> generation \<Rightarrow> rooms_msg" where
  "CreateRoomCmd J T server token name g =
     (case cj_marshal J (CreateRoomBody name) of
        Inl e \<Rightarrow> RoomCreateFailed [] (''encode create-room request: '' @ e) 0 g
      | Inr body \<Rightarrow>
      case doRoomRequest T ''POST'' server ''/rooms'' token (Some body) of
        Inl e \<Rightarrow> RoomCreateFailed [] e 0 g
      | Inr (raw, code) \<Rightarrow>
          if code = 201 then
            (case cj_room J raw of
               Inl _ \<Rightarrow> RoomCreateFailed [] ''server reported creation with no room descriptor'' code g
             | Inr room \<Rightarrow>
                 if crm_ID room = [] then RoomCreateFailed [] ''server reported creation with no room descriptor'' code g
                 else RoomCreated room g)
          else (case parseErrorEnvelope J raw code of
                  (status, message) \<Rightarrow> RoomCreateFailed status message code g))"

definition LeaveRoomCmd :: "client_json \<Rightarrow> transport \<Rightarrow> string \<Rightarrow> string \<Rightarrow> string \<Rightarrow> string \<Rightarrow> generation \<Rightarrow> rooms_msg" where
  "LeaveRoomCmd J T server token roomID roomName g =
     (case doRoomRequest T ''DELETE'' server (membership_path roomID) token None of
        Inl e \<Rightarrow> RoomLeaveFailed roomID [] e 0 g
      | Inr (raw, code) \<Rightarrow>
          if code = 200 then
            (if cj_success J raw \<noteq> Ok True
             then RoomLeaveFailed roomID [] ''server reported leave with no success flag'' code g
             else RoomLeft roomID roomName g)
          else (case parseErrorEnvelope J raw code of
                  (status, message) \<Rightarrow> RoomLeaveFailed roomID status message code g))"

text \<open>The text of a page error.\<close>

definition id_error_text :: "client_json \<Rightarrow> string \<Rightarrow> client_id_error \<Rightarrow> string" where
  "id_error_text J s e =
     (case e of
        ClientErrInvalidEventID \<Rightarrow> ''event_id: must be a positive snowflake''
      | ClientErrParse ErrSyntax \<Rightarrow> ''event_id: strconv.ParseInt: parsing '' @ cj_quote J s @ '': invalid syntax''
      | ClientErrParse ErrRange \<Rightarrow> ''event_id: strconv.ParseInt: parsing '' @ cj_quote J s @ '': value out of range'')"

definition event_error_text :: "client_json \<Rightarrow> event_error \<Rightarrow> string" where
  "event_error_text J e =
     (case e of
        MissingPerson s ty \<Rightarrow>
          ''event '' @ cj_quote J s @ '': '' @ ty @ (if ty = ''message'' then '' without sender'' else '' without user'')
      | BadEventID s err \<Rightarrow> ''event '' @ cj_quote J s @ '': '' @ id_error_text J s err)"

definition events_path :: "string \<Rightarrow> string \<Rightarrow> string" where
  "events_path roomID before =
     ''/rooms/'' @ PathEscape roomID @ ''/events'' @ (if before \<noteq> [] then ''?before='' @ QueryEscape before else [])"

definition LoadEventsCmd ::
  "client_json \<Rightarrow> transport \<Rightarrow> string \<Rightarrow> string \<Rightarrow> string \<Rightarrow> string \<Rightarrow> generation \<Rightarrow> chat_msg" where
  "LoadEventsCmd J T server token roomID before g =
     (case doRoomRequest T ''GET'' server (events_path roomID before) token None of
        Inl e \<Rightarrow> RoomEventsLoadFailed roomID [] e 0 before g
      | Inr (raw, code) \<Rightarrow>
          if code = 200 then
            (case cj_events J raw of
               Inl e \<Rightarrow> RoomEventsLoadFailed roomID [] (''decode room events: '' @ e) code before g
             | Inr (evs, nxt) \<Rightarrow>
             case parseTimelineEvents evs of
               Inl e \<Rightarrow> RoomEventsLoadFailed roomID [] (''decode room events: '' @ event_error_text J e) code before g
             | Inr events \<Rightarrow>
                 RoomEventsLoaded roomID events (case nxt of None \<Rightarrow> [] | Some n \<Rightarrow> n) before g)
          else (case parseErrorEnvelope J raw code of
                  (status, message) \<Rightarrow> RoomEventsLoadFailed roomID status message code before g))"

definition sendResponseFailureMessage :: "(string, 'a) result \<Rightarrow> string" where
  "sendResponseFailureMessage r =
     (case r of Inl e \<Rightarrow> ''decode send response: '' @ e | Inr _ \<Rightarrow> ''server reported send with no success flag'')"

definition SendMessageCmd ::
  "client_json \<Rightarrow> transport \<Rightarrow> string \<Rightarrow> string \<Rightarrow> generation \<Rightarrow> string \<Rightarrow> string \<Rightarrow> chat_msg" where
  "SendMessageCmd J T server token g roomID body =
     (case cj_marshal J (SendMessageBody body) of
        Inl e \<Rightarrow> SendMessageFailed roomID g [] e body 0
      | Inr json \<Rightarrow>
      case doRoomRequest T ''POST'' server (''/rooms/'' @ PathEscape roomID @ ''/messages'') token (Some json) of
        Inl e \<Rightarrow> SendMessageFailed roomID g [] e body 0
      | Inr (raw, code) \<Rightarrow>
          if code = 200 then
            (case cj_send J raw of
               Inr (True, ts) \<Rightarrow> SendMessageSucceeded roomID g (millisToTime ts)
             | r \<Rightarrow> SendMessageFailed roomID g [] (sendResponseFailureMessage r) body code)
          else (case parseErrorEnvelope J raw code of
                  (status, message) \<Rightarrow> SendMessageFailed roomID g status message body code))"

section \<open>The token's subject\<close>

datatype sub_error = ErrMalformedJWT

definition maxSubBytes :: nat where "maxSubBytes = 128"

definition DecodeSub :: "client_json \<Rightarrow> string \<Rightarrow> (sub_error, string) result" where
  "DecodeSub J token =
     (case split_on (CHR ''.'') token of
        [_, part, _] \<Rightarrow>
          (case (case cj_base64_raw J part of Some p \<Rightarrow> Some p | None \<Rightarrow> cj_base64_padded J part) of
             None \<Rightarrow> Err ErrMalformedJWT
           | Some payload \<Rightarrow>
           case cj_sub J payload of
             Inl _ \<Rightarrow> Err ErrMalformedJWT
           | Inr sub \<Rightarrow>
               if sub = [] then Err ErrMalformedJWT
               else if length sub > maxSubBytes then Err ErrMalformedJWT
               else if \<not> list_all (\<lambda>p. cj_is_print J (fst p)) (runes sub) then Err ErrMalformedJWT
               else Ok sub)
      | _ \<Rightarrow> Err ErrMalformedJWT)"

section \<open>The WebSocket handshake\<close>

record parsed_url =
  pu_Scheme :: string
  pu_Host :: string
  pu_Path :: string
  pu_RawQuery :: string
  pu_Fragment :: string

text \<open>\<open>wsURL\<close> over \<open>url.Parse\<close>; the result is the URL before \<open>String()\<close>.\<close>

definition wsURL :: "(string \<Rightarrow> string) \<Rightarrow> (string \<Rightarrow> (string, parsed_url) result) \<Rightarrow> string \<Rightarrow> (string, parsed_url) result" where
  "wsURL quote parse_url server =
     (case parse_url server of
        Inl e \<Rightarrow> Err (''parse server URL: '' @ e)
      | Inr u \<Rightarrow>
      case (if pu_Scheme u = ''http'' then Some ''ws'' else if pu_Scheme u = ''https'' then Some ''wss'' else None) of
        None \<Rightarrow> Err (''unsupported scheme '' @ quote (pu_Scheme u) @ '' (want http or https)'')
      | Some scheme \<Rightarrow>
          if pu_Host u = [] then Err ''server URL has no host''
          else Ok (u\<lparr>pu_Scheme := scheme, pu_Path := trim_right_slash (pu_Path u) @ ''/ws'', pu_RawQuery := [],
                     pu_Fragment := []\<rparr>))"

text \<open>What the socket does during a handshake: the dial, writing the auth frame, arming the read deadline,
  the first read (an error with its \<open>Timeout()\<close> flag, or a frame) and clearing the deadline.\<close>

record ws_script =
  wd_dial :: "parsed_url \<Rightarrow> (string, conn_ref) result"
  wd_write :: "string option"
  wd_arm :: "string option"
  wd_read :: "(string \<times> bool, string) result"
  wd_clear :: "string option"

text \<open>\<open>DialAndAuthCmd\<close>: the message and the connection it closed, if it closed one.\<close>

definition DialAndAuthCmd ::
  "client_json \<Rightarrow> (string \<Rightarrow> (string, parsed_url) result) \<Rightarrow> ws_script \<Rightarrow> string \<Rightarrow> string \<Rightarrow> generation
     \<Rightarrow> session_msg \<times> conn_ref option" where
  "DialAndAuthCmd J parse_url W server token g =
     (case wsURL (cj_quote J) parse_url server of
        Inl e \<Rightarrow> (WSDialFailed e g, None)
      | Inr addr \<Rightarrow>
      case wd_dial W addr of
        Inl e \<Rightarrow> (WSDialFailed e g, None)
      | Inr conn \<Rightarrow>
      case wd_write W of
        Some e \<Rightarrow> (WSDialFailed (''send auth frame: '' @ e) g, Some conn)
      | None \<Rightarrow>
      case wd_arm W of
        Some e \<Rightarrow> (WSDialFailed (''set auth read deadline: '' @ e) g, Some conn)
      | None \<Rightarrow>
      case wd_read W of
        Inl (e, timeout) \<Rightarrow> (if timeout then WSAuthTimedOut g else WSDialFailed e g, Some conn)
      | Inr frame \<Rightarrow>
      case wd_clear W of
        Some e \<Rightarrow> (WSDialFailed (''clear read deadline: '' @ e) g, Some conn)
      | None \<Rightarrow>
      case cj_type J frame of
        Inl e \<Rightarrow> (WSDialFailed (''decode auth response: '' @ e) g, Some conn)
      | Inr ty \<Rightarrow>
          if ty = ''auth_ok'' then
            (WSAuthSucceeded conn (case DecodeSub J token of Inl _ \<Rightarrow> [] | Inr sub \<Rightarrow> sub) g, None)
          else if ty = ''auth_error'' then
            (case cj_error J frame of
               Inl e \<Rightarrow> (WSDialFailed (''decode auth_error frame: '' @ e) g, Some conn)
             | Inr ae \<Rightarrow> (WSAuthRejected (ef_Status ae) (ef_Message ae) g, Some conn))
          else (WSDialFailed (''unexpected first frame type '' @ cj_quote J ty) g, Some conn))"

section \<open>The read loop\<close>

text \<open>One round of the loop: what \<open>ReadMessage\<close> returned, and what writing the pong would return.\<close>

type_synonym read_round = "(string, string) result \<times> string option"

text \<open>\<open>ReadLoopCmd\<close>: what the goroutine sends into the program, the number of pongs it wrote, and whether
  it has returned (and so closed the connection) within the given rounds.\<close>

fun ReadLoopCmd :: "client_json \<Rightarrow> generation \<Rightarrow> read_round list \<Rightarrow> tea_msg list \<times> nat \<times> bool" where
  "ReadLoopCmd J g [] = ([], 0, False)"
| "ReadLoopCmd J g ((read, pong) # rest) =
     (case read of
        Inl e \<Rightarrow> ([Session (WSDisconnected e g)], 0, True)
      | Inr frame \<Rightarrow>
          (case cj_type J frame of
             Inl _ \<Rightarrow> ReadLoopCmd J g rest
           | Inr ty \<Rightarrow>
               if ty = ''ping'' then
                 (case pong of
                    Some e \<Rightarrow> ([Session (WSDisconnected e g)], 0, True)
                  | None \<Rightarrow> (case ReadLoopCmd J g rest of (sent, pongs, fin) \<Rightarrow> (sent, Suc pongs, fin)))
               else (case ReadLoopCmd J g rest of
                       (sent, pongs, fin) \<Rightarrow> (Chat (WSFrameReceived ty frame g) # sent, pongs, fin))))"

section \<open>Commands\<close>

text \<open>The commands the update loop returns (\<open>tea.Cmd\<close>; \<open>tea.Batch\<close> is a list). \<open>CEmit\<close> is a closure that
  returns a message; \<open>CCloseGracefully\<close> and \<open>CClose\<close> are what the loop itself does to a connection.\<close>

datatype cmd =
  CBlink
  | CTick
  | CQuit
  | CLogin string string
  | CRegister string string string
  | CVerify string string
  | CResend string
  | CDial string generation
  | CReadLoop conn_ref generation
  | CLoadJoined string generation
  | CLoadRooms string string string generation
  | CJoin string string string generation
  | CCreateRoom string string generation
  | CLeave string string string generation
  | CLoadEvents string string string generation
  | CSend string generation string string
  | CEmit tea_msg
  | CSearchTick nat
  | CCloseGracefully conn_ref
  | CClose conn_ref

text \<open>The world a command runs in.\<close>

record client_net =
  cn_json :: client_json
  cn_http :: transport
  cn_parse_url :: "string \<Rightarrow> (string, parsed_url) result"
  cn_ws :: ws_script
  cn_clock :: instant

text \<open>The message a one-shot command emits; a read loop emits its own through the program.\<close>

fun perform_cmd :: "client_net \<Rightarrow> string \<Rightarrow> cmd \<Rightarrow> tea_msg option" where
  "perform_cmd N server CBlink = Some (ForModal BlinkMsg)"
| "perform_cmd N server CTick = Some (Chrome (TickMsg (cn_clock N)))"
| "perform_cmd N server CQuit = Some (Chrome QuitMsg)"
| "perform_cmd N server (CLogin email pw) = Some (Session (LoginCmd (cn_json N) (cn_http N) server email pw))"
| "perform_cmd N server (CRegister email handle pw) = Some (RegisterCmd (cn_json N) (cn_http N) server email handle pw)"
| "perform_cmd N server (CVerify email pin) = Some (VerifyEmailCmd (cn_json N) (cn_http N) server email pin)"
| "perform_cmd N server (CResend email) = Some (ResendVerificationCmd (cn_json N) (cn_http N) server email)"
| "perform_cmd N server (CDial token g) = Some (Session (fst (DialAndAuthCmd (cn_json N) (cn_parse_url N) (cn_ws N) server token g)))"
| "perform_cmd N server (CReadLoop c g) = None"
| "perform_cmd N server (CLoadJoined token g) = Some (Rooms (LoadJoinedRoomsCmd (cn_json N) (cn_http N) server token g))"
| "perform_cmd N server (CLoadRooms token q a g) = Some (Rooms (LoadRoomsCmd (cn_json N) (cn_http N) server token q a g))"
| "perform_cmd N server (CJoin token r n g) = Some (Rooms (JoinRoomCmd (cn_json N) (cn_http N) server token r n g))"
| "perform_cmd N server (CCreateRoom token n g) = Some (Rooms (CreateRoomCmd (cn_json N) (cn_http N) server token n g))"
| "perform_cmd N server (CLeave token r n g) = Some (Rooms (LeaveRoomCmd (cn_json N) (cn_http N) server token r n g))"
| "perform_cmd N server (CLoadEvents token r b g) =
     Some (Chat (LoadEventsCmd (cn_json N) (cn_http N) server token r b g))"
| "perform_cmd N server (CSend token g r t) = Some (Chat (SendMessageCmd (cn_json N) (cn_http N) server token g r t))"
| "perform_cmd N server (CEmit m) = Some m"
| "perform_cmd N server (CSearchTick n) = Some (ForModal (SearchTick n))"
| "perform_cmd N server (CCloseGracefully c) = None"
| "perform_cmd N server (CClose c) = None"

section \<open>Handshake and read loop\<close>

text \<open>A dialled connection is either handed over or closed, never both and never neither.\<close>

lemma handshake_conn:
  assumes "wsURL (cj_quote J) parse_url server = Ok addr" "wd_dial W addr = Ok conn"
  shows "(\<exists>u. DialAndAuthCmd J parse_url W server token g = (WSAuthSucceeded conn u g, None))
     \<or> (\<exists>m. DialAndAuthCmd J parse_url W server token g = (m, Some conn) \<and> (\<forall>c u h. m \<noteq> WSAuthSucceeded c u h))"
  using assms
  by (auto simp: DialAndAuthCmd_def split: option.splits sum.splits prod.splits if_splits)

lemma handshake_generation:
  assumes "DialAndAuthCmd J parse_url W server token g = (WSAuthSucceeded c u h, closed)"
  shows "h = g"
proof (cases "wsURL (cj_quote J) parse_url server")
  case (Inl e)
  then show ?thesis using assms by (simp add: DialAndAuthCmd_def)
next
  case (Inr addr)
  then show ?thesis
  proof (cases "wd_dial W addr")
    case (Inl e)
    then show ?thesis using assms Inr by (simp add: DialAndAuthCmd_def)
  next
    case (Inr conn)
    with \<open>wsURL (cj_quote J) parse_url server = Inr addr\<close> handshake_conn[of J parse_url server addr W conn token g]
    show ?thesis unfolding assms by blast
  qed
qed

text \<open>A read loop that has returned has sent exactly one disconnect, as its last message; one that
  is still reading has sent none. Pings and malformed frames never reach the program, every other
  frame does, tagged with the session's generation.\<close>

theorem read_loop_disconnects_once:
  assumes "ReadLoopCmd J g rounds = (sent, pongs, fin)"
  shows "\<exists>frames. (fin \<longrightarrow> (\<exists>e. sent = frames @ [Session (WSDisconnected e g)])) \<and> (\<not> fin \<longrightarrow> sent = frames)
    \<and> list_all (\<lambda>m. \<exists>ty raw. m = Chat (WSFrameReceived ty raw g) \<and> ty \<noteq> ''ping'' \<and> cj_type J raw = Ok ty) frames"
  using assms
proof (induction rounds arbitrary: sent pongs)
  case (Cons r rest)
  obtain read pong where r: "r = (read, pong)" by fastforce
  obtain sent' pongs' fin' where rec: "ReadLoopCmd J g rest = (sent', pongs', fin')" by (cases "ReadLoopCmd J g rest") auto
  show ?case
  proof (cases read)
    case (Inl e)
    then show ?thesis using Cons(2) by (auto simp: r intro!: exI[of _ "[] :: tea_msg list"])
  next
    case (Inr frame)
    consider e where "cj_type J frame = Inl e" | "cj_type J frame = Inr ''ping''"
      | ty where "cj_type J frame = Inr ty" "ty \<noteq> ''ping''" by (cases "cj_type J frame") auto
    then show ?thesis
    proof cases
      case 1
      then show ?thesis using Cons r Inr by simp
    next
      case 2
      then show ?thesis using Cons r Inr rec by (cases pong) (auto intro!: exI[of _ "[] :: tea_msg list"])
    next
      case 3
      have eq: "sent = Chat (WSFrameReceived ty frame g) # sent'" "fin = fin'"
        using Cons(2) r Inr rec 3 by auto
      from Cons(1)[of sent' pongs'] rec eq(2) obtain frames where
        f: "fin \<longrightarrow> (\<exists>e. sent' = frames @ [Session (WSDisconnected e g)])" "\<not> fin \<longrightarrow> sent' = frames"
        "list_all (\<lambda>m. \<exists>ty raw. m = Chat (WSFrameReceived ty raw g) \<and> ty \<noteq> ''ping'' \<and> cj_type J raw = Ok ty) frames"
        by auto
      show ?thesis
        using f eq 3 by (intro exI[of _ "Chat (WSFrameReceived ty frame g) # frames"]) auto
    qed
  qed
qed simp

end
