(* ===== verification/ClientModals.thy ===== *)
theory ClientModals
  imports ClientApi "HOL-Library.Monad_Syntax"
begin

text \<open>
  The modals of the terminal client: \<open>login\<close>, \<open>register\<close>, \<open>verify\<close>, \<open>roomsearch\<close> and \<open>createroom\<close>.
  Each has its state as a record, its constructor \<open>New\<close>, its key handling and its \<open>Update\<close>.
  \<open>Update\<close> returns \<open>None\<close> where the Go code would panic (an index out of range); otherwise the next
  modal, \<open>None\<close> when it dismisses itself, and the commands to run. The closures a modal is built with
  (\<open>Submitter\<close>, \<open>Loader\<close>, \<open>Resender\<close>) only capture the session's token and generation, which are fields
  here.

  The text field of the bubbles package is the type parameter \<open>'ti\<close> with the operations of
  \<open>ui_lib\<close>; \<open>strings.ToLower\<close> and the printable-character table are Unicode tables and are fields of
  the same record.

  The lemmas show that the focus of a form and the cursor of the room search stay in range in every
  reachable state, so that no index is ever out of range, and that while a request is in flight a
  form ignores every key.
\<close>

section \<open>The text field\<close>

record 'ti ui_lib =
  ui_new :: "string \<Rightarrow> string \<Rightarrow> int \<Rightarrow> int \<Rightarrow> bool \<Rightarrow> 'ti"
  ui_zero :: 'ti
  ui_Value :: "'ti \<Rightarrow> string"
  ui_SetValue :: "string \<Rightarrow> 'ti \<Rightarrow> 'ti"
  ui_SetWidth :: "int \<Rightarrow> 'ti \<Rightarrow> 'ti"
  ui_Focus :: "'ti \<Rightarrow> 'ti"
  ui_Blur :: "'ti \<Rightarrow> 'ti"
  ui_Update :: "tea_msg \<Rightarrow> 'ti \<Rightarrow> 'ti \<times> bool"
  ui_lower :: "string \<Rightarrow> string"
  ui_is_print :: "rune \<Rightarrow> bool"

text \<open>\<open>textinput.Update\<close>; the flag says that it schedules its own cursor command.\<close>

definition input_update :: "'ti ui_lib \<Rightarrow> tea_msg \<Rightarrow> 'ti \<Rightarrow> 'ti \<times> cmd list" where
  "input_update L msg x = (case ui_Update L msg x of (x', b) \<Rightarrow> (x', if b then [CBlink] else []))"

text \<open>The array of fields of a form; \<open>None\<close> is an index out of range.\<close>

definition at_input :: "'ti list \<Rightarrow> int \<Rightarrow> 'ti option" where
  "at_input xs i = (if 0 \<le> i \<and> i < int (length xs) then Some (xs ! nat i) else None)"

definition set_input :: "'ti list \<Rightarrow> int \<Rightarrow> 'ti \<Rightarrow> 'ti list option" where
  "set_input xs i x = (if 0 \<le> i \<and> i < int (length xs) then Some (xs[nat i := x]) else None)"

definition on_input :: "('ti \<Rightarrow> 'ti) \<Rightarrow> int \<Rightarrow> 'ti list \<Rightarrow> 'ti list option" where
  "on_input f i xs = do { x \<leftarrow> at_input xs i; set_input xs i (f x) }"

text \<open>Passing a message to the focused field.\<close>

definition feed_input :: "'ti ui_lib \<Rightarrow> tea_msg \<Rightarrow> int \<Rightarrow> 'ti list \<Rightarrow> ('ti list \<times> cmd list) option" where
  "feed_input L msg i xs = do {
     x \<leftarrow> at_input xs i;
     let (x', cs) = input_update L msg x;
     xs' \<leftarrow> set_input xs i x';
     Some (xs', cs) }"

text \<open>\<open>shiftFocus\<close>, shared by the forms. The sum is never negative for a focus in range.\<close>

definition shift_focus :: "'ti ui_lib \<Rightarrow> int \<Rightarrow> 'ti list \<Rightarrow> int \<Rightarrow> ('ti list \<times> int) option" where
  "shift_focus L delta xs focused = do {
     xs1 \<leftarrow> on_input (ui_Blur L) focused xs;
     let f = (focused + delta + int (length xs)) mod int (length xs);
     xs2 \<leftarrow> on_input (ui_Focus L) f xs1;
     Some (xs2, f) }"

definition focus_shortcuts :: "string list" where
  "focus_shortcuts = [''ctrl+1'', ''ctrl+2'', ''ctrl+3'']"

section \<open>Sign in\<close>

definition maxMailAddressBytes :: nat where "maxMailAddressBytes = 254"
definition client_maxPasswordBytes :: nat where "client_maxPasswordBytes = 256"
definition emailSlot :: int where "emailSlot = 0"
definition passwordSlot :: int where "passwordSlot = 1"

datatype login_phase = LoginIdle | SigningIn | Connecting

record 'ti login =
  lg_inputs :: "'ti list"
  lg_focused :: int
  lg_phase :: login_phase
  lg_headline :: string
  lg_detail :: string
  lg_notice :: string
  lg_server :: string

definition login_New :: "'ti ui_lib \<Rightarrow> string \<Rightarrow> 'ti login" where
  "login_New L server =
     \<lparr>lg_inputs = [ui_Focus L (ui_new L ''email'' [] 36 254 False), ui_new L ''password'' [] 36 256 True],
      lg_focused = emailSlot, lg_phase = LoginIdle, lg_headline = [], lg_detail = [], lg_notice = [],
      lg_server = server\<rparr>"

definition login_inFlight :: "'ti login \<Rightarrow> bool" where
  "login_inFlight m \<longleftrightarrow> lg_phase m = SigningIn \<or> lg_phase m = Connecting"

definition SetConnecting :: "'ti login \<Rightarrow> 'ti login" where
  "SetConnecting m = m\<lparr>lg_headline := [], lg_detail := [], lg_phase := Connecting\<rparr>"

definition login_ShowError :: "'ti ui_lib \<Rightarrow> string \<Rightarrow> string \<Rightarrow> 'ti login \<Rightarrow> 'ti login option" where
  "login_ShowError L headline detail m = do {
     i1 \<leftarrow> on_input (ui_SetValue L []) passwordSlot (lg_inputs m);
     i2 \<leftarrow> on_input (ui_Blur L) emailSlot i1;
     i3 \<leftarrow> on_input (ui_Focus L) passwordSlot i2;
     Some (m\<lparr>lg_phase := LoginIdle, lg_headline := headline, lg_detail := detail, lg_notice := [],
             lg_inputs := i3, lg_focused := passwordSlot\<rparr>) }"

definition PrefillEmail :: "'ti ui_lib \<Rightarrow> string \<Rightarrow> 'ti login \<Rightarrow> 'ti login option" where
  "PrefillEmail L email m = do {
     i \<leftarrow> on_input (ui_SetValue L email) emailSlot (lg_inputs m);
     Some (m\<lparr>lg_inputs := i\<rparr>) }"

definition ShowNotice :: "'ti ui_lib \<Rightarrow> string \<Rightarrow> 'ti login \<Rightarrow> 'ti login option" where
  "ShowNotice L notice m = do {
     i1 \<leftarrow> on_input (ui_Blur L) emailSlot (lg_inputs m);
     i2 \<leftarrow> on_input (ui_Focus L) passwordSlot i1;
     Some (m\<lparr>lg_notice := notice, lg_inputs := i2, lg_focused := passwordSlot\<rparr>) }"

definition login_handleKey :: "'ti ui_lib \<Rightarrow> key \<Rightarrow> 'ti login \<Rightarrow> ('ti login option \<times> cmd list) option" where
  "login_handleKey L k m =
     (if login_inFlight m then Some (Some m, [])
      else if k_String k \<in> set focus_shortcuts then Some (Some m, [])
      else if k_String k = ''esc'' then Some (None, [CQuit])
      else if k_String k = ''ctrl+n'' then Some (Some m, [CEmit (Session CreateAccountRequested)])
      else if k_String k = ''tab'' \<or> k_String k = ''down'' then do {
        (i, f) \<leftarrow> shift_focus L 1 (lg_inputs m) (lg_focused m);
        Some (Some (m\<lparr>lg_inputs := i, lg_focused := f\<rparr>), []) }
      else if k_String k = ''shift+tab'' \<or> k_String k = ''up'' then do {
        (i, f) \<leftarrow> shift_focus L (- 1) (lg_inputs m) (lg_focused m);
        Some (Some (m\<lparr>lg_inputs := i, lg_focused := f\<rparr>), []) }
      else if k_String k = ''enter'' then do {
        e \<leftarrow> at_input (lg_inputs m) emailSlot;
        p \<leftarrow> at_input (lg_inputs m) passwordSlot;
        let email = trim_space (ui_Value L e);
        let password = ui_Value L p;
        if email = [] \<or> password = []
        then Some (Some (m\<lparr>lg_headline := ''Email and password are required'', lg_detail := []\<rparr>), [])
        else if length email > maxMailAddressBytes \<or> length password > client_maxPasswordBytes
        then Some (Some (m\<lparr>lg_headline := ''Email or password is too long'', lg_detail := []\<rparr>), [])
        else Some (Some (m\<lparr>lg_phase := SigningIn, lg_headline := [], lg_detail := [], lg_notice := []\<rparr>),
                   [CLogin email password]) }
      else do {
        (i, cs) \<leftarrow> feed_input L (Chrome (KeyMsg k)) (lg_focused m) (lg_inputs m);
        Some (Some (m\<lparr>lg_inputs := i\<rparr>), cs) })"

definition login_Update :: "'ti ui_lib \<Rightarrow> tea_msg \<Rightarrow> 'ti login \<Rightarrow> ('ti login option \<times> cmd list) option" where
  "login_Update L msg m =
     (let reject = (\<lambda>headline detail. do { m' \<leftarrow> login_ShowError L headline detail m; Some (Some m', []) })
      in case msg of
        Chrome (KeyMsg k) \<Rightarrow> login_handleKey L k m
      | Session (LoginRejected status message code email) \<Rightarrow> reject (Humanise status message) []
      | Session (LoginTransportError e) \<Rightarrow> reject (''Cannot reach server at '' @ lg_server m) (''('' @ e @ '')'')
      | Session (LoginProtocolError e) \<Rightarrow> reject ''Server sent an unexpected response'' (''('' @ e @ '')'')
      | Session (WSAuthRejected status message g) \<Rightarrow> reject (Humanise status message) []
      | Session (WSDialFailed e g) \<Rightarrow> reject ''Signed in, but WebSocket handshake failed'' (''('' @ e @ '')'')
      | Session (WSAuthTimedOut g) \<Rightarrow> reject ''Authentication timed out'' []
      | _ \<Rightarrow> do {
          (i, cs) \<leftarrow> feed_input L msg (lg_focused m) (lg_inputs m);
          Some (Some (m\<lparr>lg_inputs := i\<rparr>), cs) })"

section \<open>Create an account\<close>

definition minPasswordBytes :: nat where "minPasswordBytes = 12"

record 'ti register =
  rg_inputs :: "'ti list"
  rg_focused :: int
  rg_creating :: bool
  rg_headline :: string
  rg_detail :: string
  rg_server :: string

definition register_New :: "'ti ui_lib \<Rightarrow> string \<Rightarrow> 'ti register" where
  "register_New L server =
     \<lparr>rg_inputs = [ui_Focus L (ui_new L ''email'' [] 38 254 False),
                   ui_new L ''3-30 letters, digits, _'' [] 38 30 False,
                   ui_new L ''12+ characters'' [] 38 256 True,
                   ui_new L ''repeat password'' [] 38 256 True],
      rg_focused = 0, rg_creating = False, rg_headline = [], rg_detail = [], rg_server = server\<rparr>"

text \<open>\<open>handlePattern\<close>.\<close>

definition handle_matches :: "string \<Rightarrow> bool" where
  "handle_matches s \<longleftrightarrow> 3 \<le> length s \<and> length s \<le> 30 \<and> list_all (\<lambda>c. url_alnum c \<or> c = CHR ''_'') s"

definition submitForm :: "'ti ui_lib \<Rightarrow> 'ti register \<Rightarrow> ('ti register option \<times> cmd list) option" where
  "submitForm L m = do {
     e \<leftarrow> at_input (rg_inputs m) 0;
     h \<leftarrow> at_input (rg_inputs m) 1;
     p \<leftarrow> at_input (rg_inputs m) 2;
     c \<leftarrow> at_input (rg_inputs m) 3;
     let email = trim_space (ui_Value L e);
     let handle = trim_space (ui_Value L h);
     let password = ui_Value L p;
     let confirm = ui_Value L c;
     let refuse = (\<lambda>headline. Some (Some (m\<lparr>rg_headline := headline, rg_detail := []\<rparr>), []));
     if email = [] \<or> handle = [] \<or> password = [] \<or> confirm = [] then refuse ''All fields are required''
     else if length email > maxMailAddressBytes then refuse ''Email is too long''
     else if \<not> handle_matches handle then refuse ''Handle must be 3-30 letters, digits, or _''
     else if length password < minPasswordBytes then refuse ''Password must be at least 12 characters''
     else if length password > client_maxPasswordBytes then refuse ''Password is too long''
     else if password \<noteq> confirm then refuse ''Passwords do not match''
     else Some (Some (m\<lparr>rg_creating := True, rg_headline := [], rg_detail := []\<rparr>), [CRegister email handle password]) }"

definition register_showError :: "'ti ui_lib \<Rightarrow> string \<Rightarrow> string \<Rightarrow> 'ti register \<Rightarrow> 'ti register option" where
  "register_showError L headline detail m = do {
     i1 \<leftarrow> on_input (ui_SetValue L []) 2 (rg_inputs m);
     i2 \<leftarrow> on_input (ui_SetValue L []) 3 i1;
     i3 \<leftarrow> on_input (ui_Blur L) (rg_focused m) i2;
     i4 \<leftarrow> on_input (ui_Focus L) 2 i3;
     Some (m\<lparr>rg_creating := False, rg_headline := headline, rg_detail := detail, rg_inputs := i4, rg_focused := 2\<rparr>) }"

definition register_handleKey :: "'ti ui_lib \<Rightarrow> key \<Rightarrow> 'ti register \<Rightarrow> ('ti register option \<times> cmd list) option" where
  "register_handleKey L k m =
     (if rg_creating m then Some (Some m, [])
      else if k_String k \<in> set focus_shortcuts then Some (Some m, [])
      else if k_String k = ''esc'' then do {
        e \<leftarrow> at_input (rg_inputs m) 0;
        Some (Some m, [CEmit (Session (RegisterCancelled (trim_space (ui_Value L e))))]) }
      else if k_String k = ''tab'' \<or> k_String k = ''down'' then do {
        (i, f) \<leftarrow> shift_focus L 1 (rg_inputs m) (rg_focused m);
        Some (Some (m\<lparr>rg_inputs := i, rg_focused := f\<rparr>), []) }
      else if k_String k = ''shift+tab'' \<or> k_String k = ''up'' then do {
        (i, f) \<leftarrow> shift_focus L (- 1) (rg_inputs m) (rg_focused m);
        Some (Some (m\<lparr>rg_inputs := i, rg_focused := f\<rparr>), []) }
      else if k_String k = ''enter'' then submitForm L m
      else do {
        (i, cs) \<leftarrow> feed_input L (Chrome (KeyMsg k)) (rg_focused m) (rg_inputs m);
        Some (Some (m\<lparr>rg_inputs := i\<rparr>), cs) })"

definition register_Update :: "'ti ui_lib \<Rightarrow> tea_msg \<Rightarrow> 'ti register \<Rightarrow> ('ti register option \<times> cmd list) option" where
  "register_Update L msg m =
     (case msg of
        Chrome (KeyMsg k) \<Rightarrow> register_handleKey L k m
      | ForModal (RegisterRejected status message code) \<Rightarrow> do {
          m' \<leftarrow> register_showError L (Humanise status message) [] m; Some (Some m', []) }
      | ForModal (RegisterTransportError e) \<Rightarrow> do {
          m' \<leftarrow> register_showError L (''Cannot reach server at '' @ rg_server m) (''('' @ e @ '')'') m; Some (Some m', []) }
      | _ \<Rightarrow> do {
          (i, cs) \<leftarrow> feed_input L msg (rg_focused m) (rg_inputs m);
          Some (Some (m\<lparr>rg_inputs := i\<rparr>), cs) })"

section \<open>Verify the e-mail\<close>

definition isASCIIDigit :: "char \<Rightarrow> bool" where
  "isASCIIDigit c \<longleftrightarrow> 48 \<le> byte_of c \<and> byte_of c \<le> 57"

definition validPIN :: "string \<Rightarrow> bool" where
  "validPIN pin \<longleftrightarrow> length pin = 6 \<and> list_all isASCIIDigit pin"

record 'ti verify =
  vf_pin :: 'ti
  vf_email :: string
  vf_verifying :: bool
  vf_headline :: string
  vf_detail :: string
  vf_notice :: string
  vf_server :: string

definition verify_New :: "'ti ui_lib \<Rightarrow> string \<Rightarrow> string \<Rightarrow> 'ti verify" where
  "verify_New L email server =
     \<lparr>vf_pin = ui_Focus L (ui_new L ''6-digit code'' [] 38 6 False), vf_email = email, vf_verifying = False,
      vf_headline = [], vf_detail = [], vf_notice = [], vf_server = server\<rparr>"

definition verify_showError :: "'ti ui_lib \<Rightarrow> string \<Rightarrow> string \<Rightarrow> 'ti verify \<Rightarrow> 'ti verify" where
  "verify_showError L headline detail m =
     m\<lparr>vf_verifying := False, vf_headline := headline, vf_detail := detail, vf_notice := [],
       vf_pin := ui_Focus L (ui_SetValue L [] (vf_pin m))\<rparr>"

definition verify_handleKey :: "'ti ui_lib \<Rightarrow> key \<Rightarrow> 'ti verify \<Rightarrow> 'ti verify \<times> cmd list" where
  "verify_handleKey L k m =
     (if vf_verifying m then (m, [])
      else if k_String k \<in> set focus_shortcuts then (m, [])
      else if k_String k = ''esc'' then (m, [CEmit (Session (VerifyCancelled (vf_email m)))])
      else if k_String k = ''ctrl+r'' then (m, [CResend (vf_email m)])
      else if k_String k = ''enter'' then
        (let pin = trim_space (ui_Value L (vf_pin m)) in
         if \<not> validPIN pin
         then (m\<lparr>vf_headline := ''Enter the 6-digit code from the email'', vf_detail := [], vf_notice := []\<rparr>, [])
         else (m\<lparr>vf_verifying := True, vf_headline := [], vf_detail := [], vf_notice := []\<rparr>, [CVerify (vf_email m) pin]))
      else if list_ex (\<lambda>r. r < 48 \<or> r > 57) (k_Runes k) then (m, [])
      else case input_update L (Chrome (KeyMsg k)) (vf_pin m) of (x, cs) \<Rightarrow> (m\<lparr>vf_pin := x\<rparr>, cs))"

definition verify_Update :: "'ti ui_lib \<Rightarrow> tea_msg \<Rightarrow> 'ti verify \<Rightarrow> 'ti verify \<times> cmd list" where
  "verify_Update L msg m =
     (case msg of
        Chrome (KeyMsg k) \<Rightarrow> verify_handleKey L k m
      | ForModal (VerifyRejected status message code) \<Rightarrow> (verify_showError L (Humanise status message) [] m, [])
      | ForModal (VerifyTransportError e) \<Rightarrow>
          (verify_showError L (''Cannot reach server at '' @ vf_server m) (''('' @ e @ '')'') m, [])
      | ForModal ResendSucceeded \<Rightarrow>
          (m\<lparr>vf_notice := ''A new code is on its way to '' @ vf_email m, vf_headline := [], vf_detail := []\<rparr>, [])
      | ForModal (ResendRejected status message code) \<Rightarrow>
          (m\<lparr>vf_headline := Humanise status message, vf_detail := [], vf_notice := []\<rparr>, [])
      | ForModal (ResendTransportError e) \<Rightarrow>
          (m\<lparr>vf_headline := ''Cannot reach server at '' @ vf_server m, vf_detail := ''('' @ e @ '')'', vf_notice := []\<rparr>, [])
      | _ \<Rightarrow> (case input_update L msg (vf_pin m) of (x, cs) \<Rightarrow> (m\<lparr>vf_pin := x\<rparr>, cs)))"

section \<open>Search and join\<close>

definition search_pageStep :: int where "search_pageStep = 10"

datatype search_phase = SearchLoading | SearchIdle | SearchJoining

record 'ti search =
  se_filter :: 'ti
  se_all :: "client_room list"
  se_loadedQuery :: string
  se_next :: string
  se_cursor :: int
  se_phase :: search_phase
  se_debounceSeq :: nat
  se_loadingMore :: bool
  se_headline :: string
  se_detail :: string
  se_server :: string
  se_joiningName :: string
  se_token :: string
  se_gen :: generation

definition search_New :: "'ti ui_lib \<Rightarrow> string \<Rightarrow> string \<Rightarrow> generation \<Rightarrow> 'ti search" where
  "search_New L server token g =
     \<lparr>se_filter = ui_Focus L (ui_new L (''filter'' @ [CHR 0xE2, CHR 0x80, CHR 0xA6]) [] 44 256 False), se_all = [],
      se_loadedQuery = [], se_next = [], se_cursor = 0, se_phase = SearchLoading, se_debounceSeq = 0,
      se_loadingMore = False, se_headline = [], se_detail = [], se_server = server, se_joiningName = [],
      se_token = token, se_gen = g\<rparr>"

definition search_load :: "'ti search \<Rightarrow> string \<Rightarrow> string \<Rightarrow> cmd" where
  "search_load m query after = CLoadRooms (se_token m) query after (se_gen m)"

definition search_Init :: "'ti search \<Rightarrow> cmd list" where
  "search_Init m = [CBlink, search_load m [] []]"

text \<open>\<open>strings.Contains\<close>.\<close>

fun contains_str :: "string \<Rightarrow> string \<Rightarrow> bool" where
  "contains_str [] sub \<longleftrightarrow> sub = []"
| "contains_str (c # cs) sub \<longleftrightarrow> take (length sub) (c # cs) = sub \<or> contains_str cs sub"

definition Visible :: "(string \<Rightarrow> string) \<Rightarrow> client_room list \<Rightarrow> string \<Rightarrow> client_room list" where
  "Visible lower rooms query =
     (if query = [] then rooms
      else let needle = lower query in
        filter (\<lambda>r. contains_str (lower (crm_Name r)) needle \<or> contains_str (lower (crm_ID r)) needle) rooms)"

definition search_visible :: "'ti ui_lib \<Rightarrow> 'ti search \<Rightarrow> client_room list" where
  "search_visible L m = Visible (ui_lower L) (se_all m) (ui_Value L (se_filter m))"

definition trimmedFilter :: "'ti ui_lib \<Rightarrow> 'ti search \<Rightarrow> string" where
  "trimmedFilter L m = trim_space (ui_Value L (se_filter m))"

definition lastRow :: "'ti search \<Rightarrow> client_room list \<Rightarrow> int" where
  "lastRow m visible =
     (let l = int (length visible) - 1; l' = (if se_next m \<noteq> [] then l + 1 else l)
      in if l' < 0 then 0 else l')"

definition onMoreRow :: "'ti search \<Rightarrow> client_room list \<Rightarrow> bool" where
  "onMoreRow m visible \<longleftrightarrow> se_next m \<noteq> [] \<and> se_cursor m = int (length visible)"

definition moveCursor :: "int \<Rightarrow> client_room list \<Rightarrow> 'ti search \<Rightarrow> 'ti search" where
  "moveCursor delta visible m =
     (let c = se_cursor m + delta; c1 = (if c < 0 then 0 else c); l = lastRow m visible
      in m\<lparr>se_cursor := (if c1 > l then l else c1)\<rparr>)"

definition clampCursor :: "'ti ui_lib \<Rightarrow> 'ti search \<Rightarrow> 'ti search" where
  "clampCursor L m =
     (if se_cursor m < 0 then m\<lparr>se_cursor := 0\<rparr>
      else let l = lastRow m (search_visible L m) in if se_cursor m > l then m\<lparr>se_cursor := l\<rparr> else m)"

definition search_applyFailure :: "string \<Rightarrow> string \<Rightarrow> int \<Rightarrow> 'ti search \<Rightarrow> 'ti search" where
  "search_applyFailure status message httpStatus m =
     (if status = [] \<and> httpStatus = 0
      then m\<lparr>se_headline := ''Cannot reach server at '' @ se_server m, se_detail := ''('' @ message @ '')''\<rparr>
      else m\<lparr>se_headline := Humanise status message, se_detail := []\<rparr>)"

definition search_handleKey :: "'ti ui_lib \<Rightarrow> key \<Rightarrow> 'ti search \<Rightarrow> ('ti search option \<times> cmd list) option" where
  "search_handleKey L k m =
     (if se_phase m = SearchJoining then Some (Some m, [])
      else let visible = search_visible L m; s = k_String k in
        if s = ''esc'' then Some (None, [])
        else if s = ''ctrl+n'' then Some (Some m, [CEmit (Rooms CreateRoomRequested)])
        else if s \<in> set focus_shortcuts then Some (Some m, [])
        else if s = ''up'' then Some (Some (moveCursor (- 1) visible m), [])
        else if s = ''down'' then Some (Some (moveCursor 1 visible m), [])
        else if s = ''pgup'' then Some (Some (moveCursor (- search_pageStep) visible m), [])
        else if s = ''pgdown'' then Some (Some (moveCursor search_pageStep visible m), [])
        else if s = ''home'' then Some (Some (m\<lparr>se_cursor := 0\<rparr>), [])
        else if s = ''end'' then Some (Some (m\<lparr>se_cursor := lastRow m visible\<rparr>), [])
        else if s = ''enter'' then
          (if onMoreRow m visible then
             (if se_loadingMore m \<or> trimmedFilter L m \<noteq> se_loadedQuery m then Some (Some m, [])
              else Some (Some (m\<lparr>se_loadingMore := True\<rparr>), [search_load m (se_loadedQuery m) (se_next m)]))
           else if visible = [] then Some (Some m, [])
           else do {
             row \<leftarrow> at_input visible (se_cursor m);
             Some (Some (m\<lparr>se_phase := SearchJoining, se_joiningName := crm_Name row, se_headline := [], se_detail := []\<rparr>),
                   [CJoin (se_token m) (crm_ID row) (crm_Name row) (se_gen m)]) })
        else
          (case input_update L (Chrome (KeyMsg k)) (se_filter m) of
             (x, cs) \<Rightarrow>
               let m' = clampCursor L (m\<lparr>se_filter := x\<rparr>) in
               if trimmedFilter L m' \<noteq> trimmedFilter L m
               then let seq = Suc (se_debounceSeq m') in
                 Some (Some (m'\<lparr>se_debounceSeq := seq\<rparr>), cs @ [CSearchTick seq])
               else Some (Some m', cs)))"

definition search_RoomsLoaded ::
  "'ti ui_lib \<Rightarrow> client_room list \<Rightarrow> string \<Rightarrow> string \<Rightarrow> string \<Rightarrow> 'ti search \<Rightarrow> 'ti search" where
  "search_RoomsLoaded L rooms nxt query after m =
     (let accept = (\<lambda>m. clampCursor L
            (m\<lparr>se_next := nxt, se_phase := SearchIdle, se_loadingMore := False, se_headline := [], se_detail := []\<rparr>))
      in if after \<noteq> [] then
           (if query \<noteq> se_loadedQuery m \<or> after \<noteq> se_next m then m\<lparr>se_loadingMore := False\<rparr>
            else accept (m\<lparr>se_all := se_all m @ rooms\<rparr>))
         else if query \<noteq> trimmedFilter L m then m
         else accept (m\<lparr>se_all := rooms, se_loadedQuery := query, se_cursor := 0\<rparr>))"

definition search_RoomsLoadFailed ::
  "'ti ui_lib \<Rightarrow> string \<Rightarrow> string \<Rightarrow> int \<Rightarrow> string \<Rightarrow> string \<Rightarrow> 'ti search \<Rightarrow> 'ti search" where
  "search_RoomsLoadFailed L status message httpStatus query after m =
     (let fail = (\<lambda>m. search_applyFailure status message httpStatus (m\<lparr>se_phase := SearchIdle, se_loadingMore := False\<rparr>))
      in if after \<noteq> [] then
           (if query \<noteq> se_loadedQuery m \<or> after \<noteq> se_next m then m\<lparr>se_loadingMore := False\<rparr> else fail m)
         else if query \<noteq> trimmedFilter L m then m
         else fail m)"

definition search_Update :: "'ti ui_lib \<Rightarrow> tea_msg \<Rightarrow> 'ti search \<Rightarrow> ('ti search option \<times> cmd list) option" where
  "search_Update L msg m =
     (case msg of
        Chrome (KeyMsg k) \<Rightarrow> search_handleKey L k m
      | ForModal (SearchTick seq) \<Rightarrow>
          if seq \<noteq> se_debounceSeq m then Some (Some m, [])
          else Some (Some m, [search_load m (trimmedFilter L m) []])
      | Rooms (RoomsLoaded rooms nxt query after g) \<Rightarrow> Some (Some (search_RoomsLoaded L rooms nxt query after m), [])
      | Rooms (RoomsLoadFailed status message code query after g) \<Rightarrow>
          Some (Some (search_RoomsLoadFailed L status message code query after m), [])
      | Rooms (RoomJoined r n g) \<Rightarrow> Some (None, [])
      | Rooms (RoomJoinFailed r status message code g) \<Rightarrow>
          Some (Some (search_applyFailure status message code (m\<lparr>se_phase := SearchIdle\<rparr>)), [])
      | _ \<Rightarrow> (case input_update L msg (se_filter m) of
               (x, cs) \<Rightarrow> Some (Some (clampCursor L (m\<lparr>se_filter := x\<rparr>)), cs)))"

section \<open>Create a room\<close>

definition maxNameBytes :: nat where "maxNameBytes = 64"

record 'ti createroom =
  cq_name :: 'ti
  cq_creating :: bool
  cq_headline :: string
  cq_detail :: string
  cq_server :: string
  cq_token :: string
  cq_gen :: generation

definition createroom_New :: "'ti ui_lib \<Rightarrow> string \<Rightarrow> string \<Rightarrow> generation \<Rightarrow> 'ti createroom" where
  "createroom_New L server token g =
     \<lparr>cq_name = ui_Focus L (ui_new L ''room name'' [] 42 64 False), cq_creating = False, cq_headline = [],
      cq_detail = [], cq_server = server, cq_token = token, cq_gen = g\<rparr>"

text \<open>\<open>validateName\<close>: the headline of a refusal, \<open>None\<close> when the name passes.\<close>

definition validateName :: "'ti ui_lib \<Rightarrow> string \<Rightarrow> string option" where
  "validateName L name =
     (if name = [] then Some ''Room name is required''
      else if length name > maxNameBytes then Some ''Room name is too long (max 64 bytes)''
      else if \<not> valid_utf8 name then Some ''Room name contains invalid characters''
      else if list_ex (\<lambda>p. is_control (fst p) \<or> \<not> ui_is_print L (fst p) \<and> \<not> is_space (fst p)) (runes name)
      then Some ''Room name contains invalid characters''
      else None)"

definition createroom_showError :: "'ti ui_lib \<Rightarrow> string \<Rightarrow> string \<Rightarrow> 'ti createroom \<Rightarrow> 'ti createroom" where
  "createroom_showError L headline detail m =
     m\<lparr>cq_creating := False, cq_headline := headline, cq_detail := detail, cq_name := ui_Focus L (cq_name m)\<rparr>"

definition createroom_handleKey :: "'ti ui_lib \<Rightarrow> key \<Rightarrow> 'ti createroom \<Rightarrow> 'ti createroom \<times> cmd list" where
  "createroom_handleKey L k m =
     (if cq_creating m then (m, [])
      else if k_String k \<in> set focus_shortcuts then (m, [])
      else if k_String k = ''esc'' then (m, [CEmit (Rooms CreateRoomCancelled)])
      else if k_String k = ''enter'' then
        (let name = trim_space (ui_Value L (cq_name m)) in
         case validateName L name of
           Some headline \<Rightarrow> (m\<lparr>cq_headline := headline, cq_detail := []\<rparr>, [])
         | None \<Rightarrow> (m\<lparr>cq_creating := True, cq_headline := [], cq_detail := []\<rparr>, [CCreateRoom (cq_token m) name (cq_gen m)]))
      else case input_update L (Chrome (KeyMsg k)) (cq_name m) of (x, cs) \<Rightarrow> (m\<lparr>cq_name := x\<rparr>, cs))"

definition createroom_Update :: "'ti ui_lib \<Rightarrow> tea_msg \<Rightarrow> 'ti createroom \<Rightarrow> 'ti createroom \<times> cmd list" where
  "createroom_Update L msg m =
     (case msg of
        Chrome (KeyMsg k) \<Rightarrow> createroom_handleKey L k m
      | Rooms (RoomCreateFailed status message code g) \<Rightarrow>
          if status = [] \<and> code = 0
          then (createroom_showError L (''Cannot reach server at '' @ cq_server m) (''('' @ message @ '')'') m, [])
          else (createroom_showError L (Humanise status message) [] m, [])
      | _ \<Rightarrow> (case input_update L msg (cq_name m) of (x, cs) \<Rightarrow> (m\<lparr>cq_name := x\<rparr>, cs)))"

section \<open>One modal at a time\<close>

datatype 'ti modal =
  LoginModal "'ti login"
  | RegisterModal "'ti register"
  | VerifyModal "'ti verify"
  | SearchModal "'ti search"
  | CreateRoomModal "'ti createroom"

text \<open>\<open>modal.Modal\<close>'s \<open>Update\<close>, by the dynamic type.\<close>

definition modal_Update :: "'ti ui_lib \<Rightarrow> tea_msg \<Rightarrow> 'ti modal \<Rightarrow> ('ti modal option \<times> cmd list) option" where
  "modal_Update L msg d =
     (case d of
        LoginModal m \<Rightarrow> map_option (\<lambda>(n, cs). (map_option LoginModal n, cs)) (login_Update L msg m)
      | RegisterModal m \<Rightarrow> map_option (\<lambda>(n, cs). (map_option RegisterModal n, cs)) (register_Update L msg m)
      | VerifyModal m \<Rightarrow> (case verify_Update L msg m of (n, cs) \<Rightarrow> Some (Some (VerifyModal n), cs))
      | SearchModal m \<Rightarrow> map_option (\<lambda>(n, cs). (map_option SearchModal n, cs)) (search_Update L msg m)
      | CreateRoomModal m \<Rightarrow> (case createroom_Update L msg m of (n, cs) \<Rightarrow> Some (Some (CreateRoomModal n), cs)))"

definition modal_Init :: "'ti modal \<Rightarrow> cmd list" where
  "modal_Init d = (case d of SearchModal m \<Rightarrow> search_Init m | _ \<Rightarrow> [CBlink])"

section \<open>No index out of range\<close>

lemma on_input_eq:
  "on_input f i xs = (if 0 \<le> i \<and> i < int (length xs) then Some (xs[nat i := f (xs ! nat i)]) else None)"
  by (simp add: on_input_def at_input_def set_input_def)

lemma feed_input_eq:
  "0 \<le> i \<Longrightarrow> i < int (length xs) \<Longrightarrow>
   feed_input L msg i xs = Some (xs[nat i := fst (input_update L msg (xs ! nat i))], snd (input_update L msg (xs ! nat i)))"
  by (simp add: feed_input_def at_input_def set_input_def split: prod.splits)

lemma shift_focus_ok:
  assumes "0 \<le> i" "i < int (length xs)"
  shows "\<exists>ys f. shift_focus L d xs i = Some (ys, f) \<and> length ys = length xs \<and> 0 \<le> f \<and> f < int (length xs)"
proof -
  have "0 < int (length xs)" using assms by linarith
  then have "0 \<le> (i + d + int (length xs)) mod int (length xs)" "(i + d + int (length xs)) mod int (length xs) < int (length xs)"
    by simp_all
  then show ?thesis using assms by (simp add: shift_focus_def on_input_eq Let_def)
qed

definition form_ok :: "nat \<Rightarrow> 'ti list \<Rightarrow> int \<Rightarrow> bool" where
  "form_ok n xs f \<longleftrightarrow> length xs = n \<and> 0 \<le> f \<and> f < int n"

definition search_ok :: "'ti ui_lib \<Rightarrow> 'ti search \<Rightarrow> bool" where
  "search_ok L m \<longleftrightarrow> 0 \<le> se_cursor m \<and> se_cursor m \<le> lastRow m (search_visible L m)"

fun modal_ok :: "'ti ui_lib \<Rightarrow> 'ti modal \<Rightarrow> bool" where
  "modal_ok L (LoginModal m) \<longleftrightarrow> form_ok 2 (lg_inputs m) (lg_focused m)"
| "modal_ok L (RegisterModal m) \<longleftrightarrow> form_ok 4 (rg_inputs m) (rg_focused m)"
| "modal_ok L (VerifyModal m) \<longleftrightarrow> True"
| "modal_ok L (SearchModal m) \<longleftrightarrow> search_ok L m"
| "modal_ok L (CreateRoomModal m) \<longleftrightarrow> True"

lemma form_okD: "form_ok n xs f \<Longrightarrow> length xs = n \<and> 0 \<le> f \<and> f < int (length xs)"
  by (simp add: form_ok_def)

text \<open>What a modal may ask for: never a history page, a dial or a read loop.\<close>

fun modal_cmd :: "cmd \<Rightarrow> bool" where
  "modal_cmd (CLoadEvents _ _ _ _) \<longleftrightarrow> False"
| "modal_cmd (CDial _ _) \<longleftrightarrow> False"
| "modal_cmd (CReadLoop _ _) \<longleftrightarrow> False"
| "modal_cmd (CEmit msg) \<longleftrightarrow> (case msg of
       Session CreateAccountRequested \<Rightarrow> True | Session (RegisterCancelled _) \<Rightarrow> True
     | Session (VerifyCancelled _) \<Rightarrow> True | Rooms CreateRoomRequested \<Rightarrow> True | Rooms CreateRoomCancelled \<Rightarrow> True
     | _ \<Rightarrow> False)"
| "modal_cmd _ \<longleftrightarrow> True"

lemma input_update_cmds: "list_all modal_cmd (snd (input_update L msg x))"
  by (simp add: input_update_def split: prod.splits)

text \<open>A step of a modal that neither panics nor leaves its invariant.\<close>

definition safe_step :: "('m \<Rightarrow> bool) \<Rightarrow> ('m option \<times> cmd list) option \<Rightarrow> bool" where
  "safe_step P r \<longleftrightarrow> (\<exists>n cs. r = Some (n, cs) \<and> (\<forall>m'. n = Some m' \<longrightarrow> P m') \<and> list_all modal_cmd cs)"

lemma safe_step_Some [simp]:
  "safe_step P (Some (n, cs)) \<longleftrightarrow> (\<forall>m'. n = Some m' \<longrightarrow> P m') \<and> list_all modal_cmd cs"
  by (simp add: safe_step_def)

lemma login_ShowError_ok:
  "form_ok 2 (lg_inputs m) (lg_focused m) \<Longrightarrow>
   \<exists>m'. login_ShowError L h d m = Some m' \<and> form_ok 2 (lg_inputs m') (lg_focused m')"
  by (auto simp: login_ShowError_def on_input_eq form_ok_def passwordSlot_def emailSlot_def)

lemma login_handleKey_safe:
  assumes "form_ok 2 (lg_inputs m) (lg_focused m)"
  shows "safe_step (\<lambda>m. form_ok 2 (lg_inputs m) (lg_focused m)) (login_handleKey L k m)"
proof -
  have r: "length (lg_inputs m) = 2" "0 \<le> lg_focused m" "lg_focused m < int (length (lg_inputs m))"
    using assms by (auto simp: form_ok_def)
  obtain ys f where n: "shift_focus L 1 (lg_inputs m) (lg_focused m) = Some (ys, f)" "form_ok 2 ys f"
    using shift_focus_ok[OF r(2,3), of L 1] r by (auto simp: form_ok_def)
  obtain zs g where p: "shift_focus L (- 1) (lg_inputs m) (lg_focused m) = Some (zs, g)" "form_ok 2 zs g"
    using shift_focus_ok[OF r(2,3), of L "- 1"] r by (auto simp: form_ok_def)
  have s: "at_input (lg_inputs m) emailSlot = Some (lg_inputs m ! 0)" "at_input (lg_inputs m) passwordSlot = Some (lg_inputs m ! 1)"
    using r by (simp_all add: at_input_def emailSlot_def passwordSlot_def)
  show ?thesis
    using assms n p s input_update_cmds
    by (auto simp: login_handleKey_def feed_input_eq[OF r(2,3)] Let_def form_ok_def)
qed

lemma login_Update_safe:
  assumes "form_ok 2 (lg_inputs m) (lg_focused m)"
  shows "safe_step (\<lambda>m. form_ok 2 (lg_inputs m) (lg_focused m)) (login_Update L msg m)"
proof -
  have rej: "safe_step (\<lambda>m. form_ok 2 (lg_inputs m) (lg_focused m))
      (do { m' \<leftarrow> login_ShowError L h d m; Some (Some m', []) })" for h d
    using login_ShowError_ok[OF assms, of L h d] by auto
  have feed: "safe_step (\<lambda>m. form_ok 2 (lg_inputs m) (lg_focused m))
      (do { (i, cs) \<leftarrow> feed_input L msg (lg_focused m) (lg_inputs m); Some (Some (m\<lparr>lg_inputs := i\<rparr>), cs) })"
    using assms input_update_cmds by (auto simp: form_ok_def feed_input_eq)
  show ?thesis
    unfolding login_Update_def Let_def
    using rej feed login_handleKey_safe[OF assms] by (auto split: tea_msg.splits chrome_msg.splits session_msg.splits)
qed

lemma register_handleKey_safe:
  assumes "form_ok 4 (rg_inputs m) (rg_focused m)"
  shows "safe_step (\<lambda>m. form_ok 4 (rg_inputs m) (rg_focused m)) (register_handleKey L k m)"
proof -
  have r: "length (rg_inputs m) = 4" "0 \<le> rg_focused m" "rg_focused m < int (length (rg_inputs m))"
    using assms by (auto simp: form_ok_def)
  obtain ys f where n: "shift_focus L 1 (rg_inputs m) (rg_focused m) = Some (ys, f)" "form_ok 4 ys f"
    using shift_focus_ok[OF r(2,3), of L 1] r by (auto simp: form_ok_def)
  obtain zs g where p: "shift_focus L (- 1) (rg_inputs m) (rg_focused m) = Some (zs, g)" "form_ok 4 zs g"
    using shift_focus_ok[OF r(2,3), of L "- 1"] r by (auto simp: form_ok_def)
  have s: "at_input (rg_inputs m) 0 = Some (rg_inputs m ! 0)" "at_input (rg_inputs m) 1 = Some (rg_inputs m ! 1)"
    "at_input (rg_inputs m) 2 = Some (rg_inputs m ! 2)" "at_input (rg_inputs m) 3 = Some (rg_inputs m ! 3)"
    using r by (simp_all add: at_input_def)
  have sub: "safe_step (\<lambda>m. form_ok 4 (rg_inputs m) (rg_focused m)) (submitForm L m)"
    using assms by (auto simp: submitForm_def s Let_def)
  show ?thesis
    using assms n p s sub input_update_cmds
    by (auto simp: register_handleKey_def feed_input_eq[OF r(2,3)] form_ok_def)
qed

lemma register_Update_safe:
  assumes "form_ok 4 (rg_inputs m) (rg_focused m)"
  shows "safe_step (\<lambda>m. form_ok 4 (rg_inputs m) (rg_focused m)) (register_Update L msg m)"
proof -
  have rej: "safe_step (\<lambda>m. form_ok 4 (rg_inputs m) (rg_focused m))
      (do { m' \<leftarrow> register_showError L h d m; Some (Some m', []) })" for h d
    using assms by (simp add: register_showError_def on_input_eq form_ok_def)
  have feed: "safe_step (\<lambda>m. form_ok 4 (rg_inputs m) (rg_focused m))
      (do { (i, cs) \<leftarrow> feed_input L msg (rg_focused m) (rg_inputs m); Some (Some (m\<lparr>rg_inputs := i\<rparr>), cs) })"
    using assms input_update_cmds by (auto simp: form_ok_def feed_input_eq)
  show ?thesis
    unfolding register_Update_def
    using rej feed register_handleKey_safe[OF assms] by (auto split: tea_msg.splits chrome_msg.splits modal_msg.splits)
qed

lemma verify_Update_cmds: "list_all modal_cmd (snd (verify_Update L msg m))"
  using input_update_cmds
  by (auto simp: verify_Update_def verify_handleKey_def Let_def case_prod_unfold split: tea_msg.splits chrome_msg.splits modal_msg.splits)

lemma createroom_Update_cmds: "list_all modal_cmd (snd (createroom_Update L msg m))"
  using input_update_cmds
  by (auto simp: createroom_Update_def createroom_handleKey_def Let_def case_prod_unfold
      split: tea_msg.splits chrome_msg.splits rooms_msg.splits option.splits)

lemma lastRow_nonneg: "0 \<le> lastRow m v"
  by (simp add: lastRow_def Let_def)

lemmas search_ok_defs = search_ok_def search_visible_def lastRow_def

lemma search_ok_clamp: "search_ok L (clampCursor L m)"
  using lastRow_nonneg[of m "search_visible L m"]
  by (auto simp: clampCursor_def search_ok_defs Let_def)

lemma search_ok_move: "search_ok L (moveCursor d (search_visible L m) m)"
  using lastRow_nonneg[of m "search_visible L m"]
  by (auto simp: moveCursor_def search_ok_defs Let_def)

lemma search_ok_frame [simp]:
  "search_ok L (m\<lparr>se_phase := p\<rparr>) = search_ok L m" "search_ok L (m\<lparr>se_loadingMore := b\<rparr>) = search_ok L m"
  "search_ok L (m\<lparr>se_headline := h\<rparr>) = search_ok L m" "search_ok L (m\<lparr>se_detail := d\<rparr>) = search_ok L m"
  "search_ok L (m\<lparr>se_joiningName := n\<rparr>) = search_ok L m" "search_ok L (m\<lparr>se_debounceSeq := q\<rparr>) = search_ok L m"
  by (simp_all add: search_ok_defs)

lemma search_ok_ends:
  "search_ok L (m\<lparr>se_cursor := 0\<rparr>)" "search_ok L (m\<lparr>se_cursor := lastRow m (search_visible L m)\<rparr>)"
  using lastRow_nonneg[of m "search_visible L m"] by (auto simp: search_ok_defs Let_def)

text \<open>Off the ``more rooms'' row, an in-range cursor of a non-empty list is on a room.\<close>

lemma search_row:
  assumes "search_ok L m" "\<not> onMoreRow m (search_visible L m)" "search_visible L m \<noteq> []"
  shows "at_input (search_visible L m) (se_cursor m) = Some (search_visible L m ! nat (se_cursor m))"
proof -
  have "0 < int (length (search_visible L m))" using assms(3) by simp
  then show ?thesis
    using assms(1,2) by (auto simp: search_ok_def onMoreRow_def at_input_def lastRow_def Let_def split: if_splits)
qed

lemma search_handleKey_safe:
  assumes "search_ok L m"
  shows "safe_step (search_ok L) (search_handleKey L k m)"
  unfolding search_handleKey_def Let_def
  by (simp add: assms search_ok_move search_ok_ends search_row[OF assms] search_ok_clamp input_update_cmds
      search_load_def case_prod_unfold del: set_simps)

lemma search_ok_applyFailure [simp]: "search_ok L (search_applyFailure st msg c m) = search_ok L m"
  by (simp add: search_applyFailure_def)

lemma search_Update_safe:
  assumes "search_ok L m"
  shows "safe_step (search_ok L) (search_Update L msg m)"
  using assms search_handleKey_safe[OF assms] search_ok_clamp input_update_cmds
  by (auto simp: search_Update_def search_RoomsLoaded_def search_RoomsLoadFailed_def search_load_def Let_def case_prod_unfold
      split: tea_msg.splits chrome_msg.splits modal_msg.splits rooms_msg.splits)

lemma safe_step_map:
  assumes "safe_step P r" "\<And>m. P m \<Longrightarrow> Q (C m)"
  shows "safe_step Q (map_option (\<lambda>(n, cs). (map_option C n, cs)) r)"
  using assms by (auto simp: safe_step_def)

lemma modal_step_safe:
  assumes "modal_ok L d"
  shows "\<exists>n cs. modal_Update L msg d = Some (n, cs) \<and> (\<forall>d'. n = Some d' \<longrightarrow> modal_ok L d') \<and> list_all modal_cmd cs"
proof -
  have "safe_step (modal_ok L) (modal_Update L msg d)"
  proof (cases d)
    case (LoginModal m)
    then show ?thesis using assms by (auto simp: modal_Update_def intro!: safe_step_map[OF login_Update_safe])
  next
    case (RegisterModal m)
    then show ?thesis using assms by (auto simp: modal_Update_def intro!: safe_step_map[OF register_Update_safe])
  next
    case (VerifyModal m)
    then show ?thesis using verify_Update_cmds[of L msg m] by (simp add: modal_Update_def case_prod_unfold)
  next
    case (SearchModal m)
    then show ?thesis using assms by (auto simp: modal_Update_def intro!: safe_step_map[OF search_Update_safe])
  next
    case (CreateRoomModal m)
    then show ?thesis using createroom_Update_cmds[of L msg m] by (simp add: modal_Update_def case_prod_unfold)
  qed
  then show ?thesis by (simp add: safe_step_def)
qed

text \<open>No modal ever indexes out of range: from a state in which the form's focus and the search
  cursor are in range, every message (any key, any late or failed result) leaves the modal in such a
  state or dismisses it, without a panic, and whatever the modal asks for is a request of its own.\<close>

theorem modal_never_panics:
  assumes "modal_ok L d"
  shows "\<exists>n cs. modal_Update L msg d = Some (n, cs) \<and> (\<forall>d'. n = Some d' \<longrightarrow> modal_ok L d') \<and> list_all modal_cmd cs"
  using assms by (rule modal_step_safe)

lemma modal_New_ok:
  "form_ok 2 (lg_inputs (login_New L server)) (lg_focused (login_New L server))"
  "form_ok 4 (rg_inputs (register_New L server)) (rg_focused (register_New L server))"
  "search_ok L (search_New L server token g)"
  by (simp_all add: login_New_def register_New_def search_New_def form_ok_def emailSlot_def search_ok_defs Visible_def Let_def)

lemma login_helpers_ok:
  "form_ok 2 (lg_inputs m) (lg_focused m) \<Longrightarrow> \<exists>m'. PrefillEmail L e m = Some m' \<and> form_ok 2 (lg_inputs m') (lg_focused m')"
  "form_ok 2 (lg_inputs m) (lg_focused m) \<Longrightarrow> \<exists>m'. ShowNotice L n m = Some m' \<and> form_ok 2 (lg_inputs m') (lg_focused m')"
  "form_ok 2 (lg_inputs (SetConnecting m)) (lg_focused (SetConnecting m)) = form_ok 2 (lg_inputs m) (lg_focused m)"
  by (auto simp: PrefillEmail_def ShowNotice_def SetConnecting_def on_input_eq form_ok_def passwordSlot_def emailSlot_def)

end
