(* ===== verification/ClientApp.thy ===== *)
theory ClientApp
  imports ClientModals
begin

text \<open>
  The root model of the terminal client, \<open>cmd/client/internal/app\<close>, and its Rooms pane
  (\<open>panes/rooms\<close>): the state of a session, the one update function every message goes through, and
  the commands it returns. \<open>Update\<close> is \<open>None\<close> where the Go code would panic: at an index or a slice out of
  range in a modal, at a missing program, and at an assignment to a \<open>nil\<close> map. The maps of a model are \<open>nil\<close> when it is made and after
  every reset of the session, and each writer guards its own (\<open>map_make\<close>). A handshake that succeeded
  carries an open connection (\<open>DialAndAuthCmd\<close>), so that the \<open>nil\<close> checks of \<open>v.Conn\<close> have no counterpart. \<open>tea.Batch\<close> is list
  concatenation, a \<open>nil\<close> command the empty list. The window of the clock and the rendering of panes
  are not part of the state; \<open>mainviewState\<close> contributes its room label, \<open>infoState\<close> its four fields.
  The session generation is a \<open>uint64\<close> that counts logins; it is a natural number here.

  On top of it, \<open>client_step\<close> is the client with its pending commands: the user presses a key or
  resizes, a pending command completes with whatever the network did, or a read loop delivers a frame
  or its disconnect. The lemmas show that in every reachable state no message makes the client panic,
  that at most one history page per room is in flight in the current session, and that results of an
  earlier session change nothing.
\<close>

section \<open>Focus\<close>

datatype focusTarget = FocusRooms | FocusMainView | FocusMainInput

fun focus_next :: "focusTarget \<Rightarrow> focusTarget" where
  "focus_next FocusRooms = FocusMainView"
| "focus_next FocusMainView = FocusMainInput"
| "focus_next FocusMainInput = FocusRooms"

fun focus_prev :: "focusTarget \<Rightarrow> focusTarget" where
  "focus_prev FocusRooms = FocusMainInput"
| "focus_prev FocusMainView = FocusRooms"
| "focus_prev FocusMainInput = FocusMainView"

definition interpret_key :: "string \<Rightarrow> focusTarget \<Rightarrow> focusTarget \<times> bool" where
  "interpret_key keyString current =
     (if keyString = ''ctrl+1'' then (FocusRooms, True)
      else if keyString = ''ctrl+2'' then (FocusMainView, True)
      else if keyString = ''ctrl+3'' then (FocusMainInput, True)
      else if keyString = ''tab'' then (focus_next current, True)
      else if keyString = ''shift+tab'' then (focus_prev current, True)
      else (current, False))"

section \<open>The Rooms pane\<close>

definition rooms_pageStep :: int where "rooms_pageStep = 10"

record rooms_state =
  rp_JoinedIDs :: "string list"
  rp_Cursor :: int
  rp_Loading :: bool
  rp_LoadError :: string
  rp_NameForID :: "(string, string) gomap"
  rp_PendingLeaveID :: string
  rp_ActionError :: string

definition zero_rooms :: rooms_state where
  "zero_rooms = \<lparr>rp_JoinedIDs = [], rp_Cursor = 0, rp_Loading = False, rp_LoadError = [],
     rp_NameForID = None, rp_PendingLeaveID = [], rp_ActionError = []\<rparr>"

datatype rooms_outcome = OutcomeNone | OutcomeSwitchActiveRoom | OutcomeRetryLoad | OutcomeLeaveRoom

definition ClampCursor :: "rooms_state \<Rightarrow> rooms_state" where
  "ClampCursor s =
     (if rp_JoinedIDs s = [] \<or> rp_Cursor s < 0 then s\<lparr>rp_Cursor := 0\<rparr>
      else let l = int (length (rp_JoinedIDs s)) - 1 in if rp_Cursor s > l then s\<lparr>rp_Cursor := l\<rparr> else s)"

definition ActiveID :: "rooms_state \<Rightarrow> string" where
  "ActiveID s =
     (if rp_JoinedIDs s = [] then []
      else if rp_Cursor s < 0 \<or> rp_Cursor s \<ge> int (length (rp_JoinedIDs s)) then []
      else rp_JoinedIDs s ! nat (rp_Cursor s))"

definition ResolveName :: "rooms_state \<Rightarrow> string \<Rightarrow> string" where
  "ResolveName s roomID =
     (case map_get (rp_NameForID s) roomID of Some name \<Rightarrow> if name \<noteq> [] then name else roomID | None \<Rightarrow> roomID)"

definition HandleKey :: "rooms_state \<Rightarrow> string \<Rightarrow> rooms_state \<times> rooms_outcome" where
  "HandleKey st key =
     (let s1 = st\<lparr>rp_ActionError := []\<rparr>;
          s = (if key \<noteq> ''x'' then s1\<lparr>rp_PendingLeaveID := []\<rparr> else s1);
          move = (\<lambda>c. (ClampCursor (s\<lparr>rp_Cursor := c\<rparr>), OutcomeNone))
      in if key = ''up'' \<or> key = ''k'' then move (rp_Cursor s - 1)
         else if key = ''down'' \<or> key = ''j'' then move (rp_Cursor s + 1)
         else if key = ''pgup'' then move (rp_Cursor s - rooms_pageStep)
         else if key = ''pgdown'' then move (rp_Cursor s + rooms_pageStep)
         else if key = ''home'' then (s\<lparr>rp_Cursor := 0\<rparr>, OutcomeNone)
         else if key = ''end'' then move (int (length (rp_JoinedIDs s)) - 1)
         else if key = ''enter'' then
           (if rp_JoinedIDs s = [] then (s, OutcomeNone) else (s, OutcomeSwitchActiveRoom))
         else if key = ''r'' then
           (if rp_LoadError s = [] then (s, OutcomeNone) else (s, OutcomeRetryLoad))
         else if key = ''x'' then
           (let active = ActiveID s in
            if active = [] then (s\<lparr>rp_PendingLeaveID := []\<rparr>, OutcomeNone)
            else if rp_PendingLeaveID s = active then (s\<lparr>rp_PendingLeaveID := []\<rparr>, OutcomeLeaveRoom)
            else (s\<lparr>rp_PendingLeaveID := active\<rparr>, OutcomeNone))
         else (s, OutcomeNone))"

section \<open>The model\<close>

record 'ti app = chat_state +
  m_server :: string
  m_program :: bool
  m_now :: instant
  m_focus :: focusTarget
  m_rooms :: rooms_state
  m_roomLabel :: string
  m_infoEmail :: string
  m_infoUserID :: string
  m_infoServer :: string
  m_infoNow :: instant
  m_modal :: "'ti modal option"
  m_token :: string
  m_email :: string
  m_conn :: "conn_ref option"
  m_gen :: generation
  m_nameForID :: "(string, string) gomap"
  m_composer :: 'ti
  m_connected :: bool

type_synonym 'ti out = "('ti app \<times> cmd list) option"

definition app_New :: "'ti ui_lib \<Rightarrow> string \<Rightarrow> instant \<Rightarrow> 'ti app" where
  "app_New L server now =
     \<lparr>m_userID = [], m_activeRoomID = [], m_messages = None, m_histories = None, m_mainError = [],
      m_scrollOffset = 0, m_width = 0, m_height = 0,
      m_server = server, m_program = False, m_now = now, m_focus = FocusRooms, m_rooms = zero_rooms,
      m_roomLabel = [], m_infoEmail = [], m_infoUserID = [], m_infoServer = server, m_infoNow = now,
      m_modal = None, m_token = [], m_email = [], m_conn = None, m_gen = 0, m_nameForID = None,
      m_composer = ui_zero L, m_connected = False\<rparr>"

definition SetProgram :: "'ti app \<Rightarrow> 'ti app" where
  "SetProgram m = m\<lparr>m_program := True\<rparr>"

definition OpenLoginModal :: "'ti ui_lib \<Rightarrow> 'ti app \<Rightarrow> 'ti app" where
  "OpenLoginModal L m = m\<lparr>m_modal := Some (LoginModal (login_New L (m_server m)))\<rparr>"

definition app_Init :: "cmd list" where
  "app_Init = [CBlink, CTick]"

definition composerCharLimit :: int where "composerCharLimit = 4096"

definition newComposer :: "'ti ui_lib \<Rightarrow> int \<Rightarrow> 'ti" where
  "newComposer L width =
     ui_new L (''type a message'' @ [CHR 0xE2, CHR 0x80, CHR 0xA6]) ''> '' width composerCharLimit False"

text \<open>The modals the root opens.\<close>

definition openVerifyModal :: "'ti ui_lib \<Rightarrow> 'ti app \<Rightarrow> string \<Rightarrow> 'ti modal" where
  "openVerifyModal L m email = VerifyModal (verify_New L email (m_server m))"

definition reopenLoginModal :: "'ti ui_lib \<Rightarrow> 'ti app \<Rightarrow> string \<Rightarrow> 'ti modal option" where
  "reopenLoginModal L m prefillEmail =
     map_option LoginModal
       (if prefillEmail \<noteq> [] then PrefillEmail L prefillEmail (login_New L (m_server m))
        else Some (login_New L (m_server m)))"

definition openLoginModalWithError :: "'ti ui_lib \<Rightarrow> 'ti app \<Rightarrow> string \<Rightarrow> string \<Rightarrow> 'ti modal option" where
  "openLoginModalWithError L m headline prefillEmail = do {
     base \<leftarrow> (if prefillEmail \<noteq> [] then PrefillEmail L prefillEmail (login_New L (m_server m))
             else Some (login_New L (m_server m)));
     lm \<leftarrow> login_ShowError L headline [] base;
     Some (LoginModal lm) }"

definition openRoomSearchModal :: "'ti ui_lib \<Rightarrow> 'ti app \<Rightarrow> 'ti modal" where
  "openRoomSearchModal L m = SearchModal (search_New L (m_server m) (m_token m) (m_gen m))"

definition advanceLoginToConnecting :: "'ti app \<Rightarrow> 'ti modal option" where
  "advanceLoginToConnecting m =
     (case m_modal m of Some (LoginModal lm) \<Rightarrow> Some (LoginModal (SetConnecting lm)) | d \<Rightarrow> d)"

text \<open>Installing a modal and running its \<open>Init\<close>.\<close>

definition open_modal :: "'ti modal \<Rightarrow> 'ti app \<Rightarrow> 'ti app \<times> cmd list" where
  "open_modal d m = (m\<lparr>m_modal := Some d\<rparr>, modal_Init d)"

text \<open>Handing a message to the open modal, if there is one.\<close>

definition to_modal :: "'ti ui_lib \<Rightarrow> tea_msg \<Rightarrow> 'ti app \<Rightarrow> 'ti out" where
  "to_modal L msg m =
     (case m_modal m of
        None \<Rightarrow> Some (m, [])
      | Some d \<Rightarrow> do { (n, cs) \<leftarrow> modal_Update L msg d; Some (m\<lparr>m_modal := n\<rparr>, cs) })"

section \<open>Sessions\<close>

definition hasLiveSession :: "'ti app \<Rightarrow> bool" where
  "hasLiveSession m \<longleftrightarrow> m_token m \<noteq> [] \<and> m_conn m \<noteq> None"

definition liveRoomResult :: "'ti app \<Rightarrow> generation \<Rightarrow> bool" where
  "liveRoomResult m g \<longleftrightarrow> hasLiveSession m \<and> g = m_gen m"

definition resetSession :: "'ti ui_lib \<Rightarrow> 'ti app \<Rightarrow> 'ti app \<times> string" where
  "resetSession L m =
     (m\<lparr>m_conn := None, m_token := [], m_email := [], m_userID := [], m_infoEmail := [], m_infoUserID := [],
        m_activeRoomID := [], m_nameForID := None, m_roomLabel := [], m_rooms := zero_rooms,
        m_connected := False, m_messages := None, m_histories := None, m_scrollOffset := 0,
        m_composer := ui_zero L, m_mainError := []\<rparr>, m_email m)"

definition lost_session :: "'ti ui_lib \<Rightarrow> string \<Rightarrow> 'ti app \<Rightarrow> 'ti out" where
  "lost_session L headline m =
     (case resetSession L m of (m', previousEmail) \<Rightarrow> do {
        d \<leftarrow> openLoginModalWithError L m' headline previousEmail;
        Some (open_modal d m') })"

definition handleSessionExpiry :: "'ti ui_lib \<Rightarrow> 'ti app \<Rightarrow> 'ti out" where
  "handleSessionExpiry L m = do {
     (m', cs) \<leftarrow> lost_session L (''Session expired '' @ em_dash @ '' please sign in again'') m;
     Some (m', (case m_conn m of Some c \<Rightarrow> [CCloseGracefully c] | None \<Rightarrow> []) @ cs) }"

definition activateRoom :: "string \<Rightarrow> string \<Rightarrow> 'ti app \<Rightarrow> 'ti app" where
  "activateRoom roomID roomName m =
     m\<lparr>m_activeRoomID := roomID, m_roomLabel := roomName, m_mainError := [], m_scrollOffset := 0\<rparr>"

definition beginBackfill :: "string \<Rightarrow> 'ti app \<Rightarrow> 'ti out" where
  "beginBackfill roomID m =
     (let m1 = make_histories m; h = history_of m1 roomID in
      if rh_loading h then Some (m1, [])
      else do {
        m2 \<leftarrow> assign_history roomID (h\<lparr>rh_loading := True\<rparr>) m1;
        Some (m2, [CLoadEvents (m_token m2) roomID [] (m_gen m2)]) })"

definition fetchOlder :: "'ti app \<Rightarrow> 'ti out" where
  "fetchOlder m =
     (let h = history_of m (m_activeRoomID m) in
      if rh_loading h \<or> rh_exhausted h \<or> rh_next h = [] then Some (m, [])
      else do {
        m2 \<leftarrow> assign_history (m_activeRoomID m) (h\<lparr>rh_loading := True\<rparr>) (make_histories m);
        Some (m2, [CLoadEvents (m_token m2) (m_activeRoomID m2) (rh_next h) (m_gen m2)]) })"

definition setHistoryLoading :: "string \<Rightarrow> bool \<Rightarrow> 'ti app \<Rightarrow> 'ti app option" where
  "setHistoryLoading roomID isLoading m =
     (let m1 = make_histories m in assign_history roomID ((history_of m1 roomID)\<lparr>rh_loading := isLoading\<rparr>) m1)"

definition load_joined :: "'ti app \<Rightarrow> cmd" where
  "load_joined m = CLoadJoined (m_token m) (m_gen m)"

section \<open>Keys\<close>

definition handleScrollKey :: "(instant \<Rightarrow> string) \<Rightarrow> string \<Rightarrow> 'ti app \<Rightarrow> 'ti out" where
  "handleScrollKey day key m =
     (let avail = scrollAvail m;
          maxOffset = maxScrollOffset (int (length (activeLines day m))) avail;
          atTop = m_scrollOffset m \<ge> maxOffset;
          offset = m_scrollOffset m;
          moved = (if key = ''up'' \<or> key = ''k'' then Some (offset + 1)
                   else if key = ''down'' \<or> key = ''j'' then Some (offset - 1)
                   else if key = ''pgup'' then Some (offset + scroll_pageStep avail)
                   else if key = ''pgdown'' then Some (offset - scroll_pageStep avail)
                   else if key = ''home'' then Some maxOffset
                   else if key = ''end'' then Some 0
                   else None)
      in case moved of
           None \<Rightarrow> Some (m, [])
         | Some off \<Rightarrow>
             let m' = m\<lparr>m_scrollOffset := clampOffset off maxOffset\<rparr> in
             if (key = ''up'' \<or> key = ''k'' \<or> key = ''pgup'' \<or> key = ''home'') \<and> atTop then fetchOlder m'
             else Some (m', []))"

definition rooms_key :: "string \<Rightarrow> 'ti app \<Rightarrow> 'ti out" where
  "rooms_key key m =
     (case HandleKey (m_rooms m) key of
        (nextState, outcome) \<Rightarrow>
          let m1 = m\<lparr>m_rooms := nextState\<rparr>; roomID = ActiveID nextState in
          case outcome of
            OutcomeSwitchActiveRoom \<Rightarrow>
              if roomID \<noteq> [] then beginBackfill roomID (activateRoom roomID (ResolveName nextState roomID) m1) else Some (m1, [])
          | OutcomeRetryLoad \<Rightarrow> Some (m1\<lparr>m_rooms := nextState\<lparr>rp_Loading := True, rp_LoadError := []\<rparr>\<rparr>, [load_joined m1])
          | OutcomeLeaveRoom \<Rightarrow>
              if roomID = [] then Some (m1, [])
              else Some (m1, [CLeave (m_token m1) roomID (ResolveName nextState roomID) (m_gen m1)])
          | OutcomeNone \<Rightarrow> Some (m1, []))"

definition composer_key :: "'ti ui_lib \<Rightarrow> key \<Rightarrow> 'ti app \<Rightarrow> 'ti app \<times> cmd list" where
  "composer_key L k m =
     (if k_String k = ''enter'' then
        (let body = trim_space (ui_Value L (m_composer m)) in
         if body = [] \<or> m_activeRoomID m = [] then (m, [])
         else (m\<lparr>m_composer := ui_SetValue L [] (m_composer m)\<rparr>, [CSend (m_token m) (m_gen m) (m_activeRoomID m) body]))
      else case input_update L (Chrome (KeyMsg k)) (m_composer m) of (x, cs) \<Rightarrow> (m\<lparr>m_composer := x\<rparr>, cs))"

definition focus_key :: "'ti ui_lib \<Rightarrow> focusTarget \<Rightarrow> 'ti app \<Rightarrow> 'ti app \<times> cmd list" where
  "focus_key L nextFocus m =
     (let m1 = (if m_focus m = FocusMainInput then m\<lparr>m_composer := ui_Blur L (m_composer m)\<rparr> else m);
          m2 = m1\<lparr>m_focus := nextFocus\<rparr>
      in if nextFocus = FocusMainInput \<and> m_activeRoomID m \<noteq> []
         then (m2\<lparr>m_composer := ui_Focus L (m_composer m2)\<rparr>, [CBlink]) else (m2, []))"

definition handleKey :: "'ti ui_lib \<Rightarrow> (instant \<Rightarrow> string) \<Rightarrow> key \<Rightarrow> 'ti app \<Rightarrow> 'ti out" where
  "handleKey L day k m =
     (if k_String k = ''ctrl+c'' then Some (m, [CQuit])
      else if m_modal m \<noteq> None then to_modal L (Chrome (KeyMsg k)) m
      else if k_String k = ''/'' \<and> m_focus m \<noteq> FocusMainInput then Some (open_modal (openRoomSearchModal L m) m)
      else case interpret_key (k_String k) (m_focus m) of
        (nextFocus, True) \<Rightarrow> Some (focus_key L nextFocus m)
      | (_, False) \<Rightarrow>
          (case m_focus m of
             FocusRooms \<Rightarrow> rooms_key (k_String k) m
           | FocusMainInput \<Rightarrow> Some (composer_key L k m)
           | FocusMainView \<Rightarrow> handleScrollKey day (k_String k) m))"

section \<open>The update function\<close>

definition updateChrome :: "'ti ui_lib \<Rightarrow> (instant \<Rightarrow> string) \<Rightarrow> chrome_msg \<Rightarrow> 'ti app \<Rightarrow> 'ti out" where
  "updateChrome L day msg m =
     (case msg of
        WindowSizeMsg w h \<Rightarrow>
          (let w' = (if w > 0 then w else 0); h' = (if h > 0 then h else 0) in
           Some (m\<lparr>m_width := w', m_height := h', m_composer := ui_SetWidth L (composerWidth w' h') (m_composer m)\<rparr>, []))
      | TickMsg t \<Rightarrow> Some (m\<lparr>m_now := t, m_infoNow := t\<rparr>, [CTick])
      | KeyMsg k \<Rightarrow> handleKey L day k m
      | QuitMsg \<Rightarrow> Some (m, case m_conn m of Some c \<Rightarrow> [CCloseGracefully c] | None \<Rightarrow> []))"

definition enter_session :: "'ti ui_lib \<Rightarrow> conn_ref \<Rightarrow> string \<Rightarrow> 'ti app \<Rightarrow> 'ti app \<times> cmd list" where
  "enter_session L conn userID m =
     (m\<lparr>m_conn := Some conn, m_userID := userID, m_infoEmail := m_email m, m_infoUserID := userID, m_modal := None,
        m_focus := FocusRooms, m_rooms := (m_rooms m)\<lparr>rp_Loading := True\<rparr>, m_connected := True,
        m_messages := Some Map.empty, m_composer := newComposer L (composerWidth (m_width m) (m_height m))\<rparr>,
      [CReadLoop conn (m_gen m), load_joined m])"

definition updateSession :: "'ti ui_lib \<Rightarrow> session_msg \<Rightarrow> 'ti app \<Rightarrow> 'ti out" where
  "updateSession L msg m =
     (case msg of
        LoginSucceeded token email \<Rightarrow>
          (let m1 = m\<lparr>m_token := token, m_email := email, m_gen := Suc (m_gen m)\<rparr> in
           Some (m1\<lparr>m_modal := advanceLoginToConnecting m1\<rparr>, [CDial (m_token m1) (m_gen m1)]))
      | WSAuthSucceeded conn userID g \<Rightarrow>
          if g \<noteq> m_gen m then Some (m, [CClose conn])
          else (case m_modal m of
                  Some (LoginModal _) \<Rightarrow> if \<not> m_program m then None else Some (enter_session L conn userID m)
                | _ \<Rightarrow> Some (m, [CClose conn]))
      | LoginRejected status message code email \<Rightarrow>
          if status = ''AUTH_ACCOUNT_PENDING'' then Some (open_modal (openVerifyModal L m email) m)
          else to_modal L (Session msg) m
      | LoginTransportError e \<Rightarrow> to_modal L (Session msg) m
      | LoginProtocolError e \<Rightarrow> to_modal L (Session msg) m
      | CreateAccountRequested \<Rightarrow> Some (open_modal (RegisterModal (register_New L (m_server m))) m)
      | RegisterCancelled email \<Rightarrow> do { d \<leftarrow> reopenLoginModal L m email; Some (open_modal d m) }
      | VerifyCancelled email \<Rightarrow> do { d \<leftarrow> reopenLoginModal L m email; Some (open_modal d m) }
      | RegisterSucceeded email \<Rightarrow> Some (open_modal (openVerifyModal L m email) m)
      | VerifySucceeded email \<Rightarrow> do {
          l1 \<leftarrow> PrefillEmail L email (login_New L (m_server m));
          l2 \<leftarrow> ShowNotice L (''Account verified '' @ em_dash @ '' sign in'') l1;
          Some (open_modal (LoginModal l2) m) }
      | WSAuthRejected status message g \<Rightarrow> if g \<noteq> m_gen m then Some (m, []) else to_modal L (Session msg) m
      | WSDialFailed e g \<Rightarrow> if g \<noteq> m_gen m then Some (m, []) else to_modal L (Session msg) m
      | WSAuthTimedOut g \<Rightarrow> if g \<noteq> m_gen m then Some (m, []) else to_modal L (Session msg) m
      | WSDisconnected e g \<Rightarrow>
          if g \<noteq> m_gen m then Some (m, [])
          else lost_session L (''Connection lost '' @ em_dash @ '' please sign in again'') m)"

text \<open>A room the user has just entered: \<open>RoomJoined\<close> and \<open>RoomCreated\<close>.\<close>

definition enter_room :: "string \<Rightarrow> string \<Rightarrow> 'ti app \<Rightarrow> 'ti out" where
  "enter_room roomID roomName m = do {
     names \<leftarrow> map_assign (map_make (m_nameForID m)) roomID roomName;
     let m1 = (activateRoom roomID roomName
                 (m\<lparr>m_nameForID := names, m_rooms := (m_rooms m)\<lparr>rp_NameForID := names\<rparr>\<rparr>))\<lparr>m_modal := None\<rparr>;
     (m2, cs) \<leftarrow> beginBackfill roomID m1;
     Some (m2, load_joined m2 # cs) }"

text \<open>The failure of a room request: an expired session, or \<open>otherwise\<close>.\<close>

definition room_failure :: "'ti ui_lib \<Rightarrow> generation \<Rightarrow> int \<Rightarrow> 'ti app \<Rightarrow> 'ti out \<Rightarrow> 'ti out" where
  "room_failure L g code m otherwise =
     (if \<not> liveRoomResult m g then Some (m, []) else if code = 401 then handleSessionExpiry L m else otherwise)"

definition updateRooms :: "'ti ui_lib \<Rightarrow> rooms_msg \<Rightarrow> 'ti app \<Rightarrow> 'ti out" where
  "updateRooms L msg m =
     (case msg of
        JoinedRoomsLoaded rooms g \<Rightarrow>
          if \<not> liveRoomResult m g then Some (m, [])
          else do {
            names \<leftarrow> for_each (\<lambda>r n. map_assign n (crm_ID r) (crm_Name r)) rooms (map_make (m_nameForID m));
            Some (m\<lparr>m_nameForID := names,
                    m_rooms := ClampCursor ((m_rooms m)\<lparr>rp_JoinedIDs := map crm_ID rooms, rp_NameForID := names,
                      rp_Loading := False, rp_LoadError := [], rp_PendingLeaveID := []\<rparr>)\<rparr>, []) }
      | JoinedRoomsLoadFailed status message code g \<Rightarrow>
          room_failure L g code m
            (Some (m\<lparr>m_rooms := (m_rooms m)\<lparr>rp_Loading := False, rp_LoadError := Humanise status message\<rparr>\<rparr>, []))
      | RoomJoined roomID roomName g \<Rightarrow>
          if \<not> liveRoomResult m g then Some (m, []) else enter_room roomID roomName m
      | CreateRoomRequested \<Rightarrow>
          if \<not> hasLiveSession m then Some (m, [])
          else (case m_modal m of
                  Some (SearchModal _) \<Rightarrow>
                    Some (open_modal (CreateRoomModal (createroom_New L (m_server m) (m_token m) (m_gen m))) m)
                | _ \<Rightarrow> Some (m, []))
      | CreateRoomCancelled \<Rightarrow>
          if \<not> hasLiveSession m then Some (m, [])
          else (case m_modal m of
                  Some (CreateRoomModal _) \<Rightarrow> Some (open_modal (openRoomSearchModal L m) m)
                | _ \<Rightarrow> Some (m, []))
      | RoomCreated room g \<Rightarrow>
          if \<not> liveRoomResult m g then Some (m, []) else enter_room (crm_ID room) (crm_Name room) m
      | RoomCreateFailed status message code g \<Rightarrow> room_failure L g code m (to_modal L (Rooms msg) m)
      | RoomLeft roomID roomName g \<Rightarrow>
          if \<not> liveRoomResult m g then Some (m, [])
          else (let m1 = (if m_activeRoomID m = roomID
                          then m\<lparr>m_activeRoomID := [], m_roomLabel := [], m_mainError := []\<rparr> else m);
                    m2 = m1\<lparr>m_rooms := (m_rooms m1)\<lparr>rp_ActionError := []\<rparr>\<rparr>
                in Some (m2, [load_joined m2]))
      | RoomLeaveFailed roomID status message code g \<Rightarrow>
          room_failure L g code m (Some (m\<lparr>m_rooms := (m_rooms m)\<lparr>rp_ActionError := Humanise status message\<rparr>\<rparr>, []))
      | RoomsLoaded rooms nxt query after g \<Rightarrow>
          if \<not> liveRoomResult m g then Some (m, []) else to_modal L (Rooms msg) m
      | RoomsLoadFailed status message code query after g \<Rightarrow> room_failure L g code m (to_modal L (Rooms msg) m)
      | RoomJoinFailed roomID status message code g \<Rightarrow> room_failure L g code m (to_modal L (Rooms msg) m))"

definition events_loaded ::
  "(instant \<Rightarrow> string) \<Rightarrow> string \<Rightarrow> TimelineEvent list \<Rightarrow> string \<Rightarrow> string \<Rightarrow> 'ti app \<Rightarrow> 'ti app option" where
  "events_loaded day roomID events nxt before m =
     (let oldActive = activeLines day m;
          m0 = make_histories m;
          h = history_of m0 roomID;
          h1 = h\<lparr>rh_loading := False, rh_fetched := True\<rparr>;
          h2 = (if before \<noteq> [] \<or> \<not> rh_fetched h then h1\<lparr>rh_next := nxt, rh_exhausted := (nxt = [])\<rparr> else h1)
      in do {
        m1 \<leftarrow> assign_history roomID h2 m0;
        m2 \<leftarrow> for_each (appendTimelineEvent roomID) events m1;
        Some (reanchor day oldActive m2) })"

definition frame_received :: "client_json \<Rightarrow> (instant \<Rightarrow> string) \<Rightarrow> string \<Rightarrow> string \<Rightarrow> 'ti app \<Rightarrow> 'ti app option" where
  "frame_received J day ty raw m =
     (let oldActive = activeLines day m in do {
        m1 \<leftarrow> (if ty = ''message'' then
                  (case DecodeChatMessage J raw of Some cm \<Rightarrow> appendChatMessage cm m | None \<Rightarrow> Some m)
                else if ty = ''joined'' \<or> ty = ''left'' then
                  (case DecodeMemberEvent J raw of Some me \<Rightarrow> appendMemberEvent me m | None \<Rightarrow> Some m)
                else if ty = ''error'' then
                  (case DecodeErrorFrame J raw of
                     Some (status, message) \<Rightarrow> Some (m\<lparr>m_mainError := Humanise status message\<rparr>)
                   | None \<Rightarrow> Some m)
                else Some m);
        Some (reanchor day oldActive m1) })"

text \<open>A model without a command.\<close>

definition quietly :: "'ti app option \<Rightarrow> 'ti out" where
  "quietly x = map_option (\<lambda>m. (m, [])) x"

definition updateChat :: "'ti ui_lib \<Rightarrow> client_json \<Rightarrow> (instant \<Rightarrow> string) \<Rightarrow> chat_msg \<Rightarrow> 'ti app \<Rightarrow> 'ti out" where
  "updateChat L J day msg m =
     (case msg of
        RoomEventsLoaded roomID events nxt before g \<Rightarrow>
          if \<not> liveRoomResult m g then Some (m, []) else quietly (events_loaded day roomID events nxt before m)
      | RoomEventsLoadFailed roomID status message code before g \<Rightarrow>
          room_failure L g code m
            (do { m1 \<leftarrow> setHistoryLoading roomID False m;
                  Some (if roomID = m_activeRoomID m1 then m1\<lparr>m_mainError := Humanise status message\<rparr> else m1, []) })
      | WSFrameReceived ty raw g \<Rightarrow> if g \<noteq> m_gen m then Some (m, []) else quietly (frame_received J day ty raw m)
      | SendMessageSucceeded roomID g t \<Rightarrow>
          if m_token m = [] \<or> m_conn m = None \<or> g \<noteq> m_gen m then Some (m, []) else Some (m\<lparr>m_mainError := []\<rparr>, [])
      | SendMessageFailed roomID g status message body code \<Rightarrow>
          if m_token m = [] \<or> m_conn m = None \<or> g \<noteq> m_gen m then Some (m, [])
          else if code = 401 then handleSessionExpiry L m
          else (let m1 = (if roomID = m_activeRoomID m \<and> trim_space (ui_Value L (m_composer m)) = []
                          then m\<lparr>m_composer := ui_SetValue L body (m_composer m)\<rparr> else m)
                in Some (m1\<lparr>m_mainError := Humanise status message\<rparr>, [])))"

text \<open>\<open>Update\<close>: the families claim disjoint message types; what none claims goes to the open modal.\<close>

definition Update :: "'ti ui_lib \<Rightarrow> client_json \<Rightarrow> (instant \<Rightarrow> string) \<Rightarrow> tea_msg \<Rightarrow> 'ti app \<Rightarrow> 'ti out" where
  "Update L J day msg m =
     (case msg of
        Chrome c \<Rightarrow> updateChrome L day c m
      | Session s \<Rightarrow> updateSession L s m
      | Rooms r \<Rightarrow> updateRooms L r m
      | Chat c \<Rightarrow> updateChat L J day c m
      | ForModal _ \<Rightarrow> to_modal L msg m)"

section \<open>The \<open>--server\<close> flag\<close>

definition parseServerURL ::
  "(string \<Rightarrow> string) \<Rightarrow> (string \<Rightarrow> (string, parsed_url) result) \<Rightarrow> string \<Rightarrow> (string, parsed_url) result" where
  "parseServerURL quote parse_url raw =
     (if raw = [] then Err ''server URL must not be empty''
      else if \<not> contains_str raw ''://'' then Err (''missing scheme '' @ em_dash @ '' expected http:// or https://'')
      else case parse_url raw of
        Inl e \<Rightarrow> Err (''parse: '' @ e)
      | Inr u \<Rightarrow>
          if pu_Scheme u \<noteq> ''http'' \<and> pu_Scheme u \<noteq> ''https''
          then Err (''unsupported scheme '' @ quote (pu_Scheme u) @ '' '' @ em_dash @ '' expected http:// or https://'')
          else if pu_Host u = [] then Err ''missing host''
          else Ok u)"

text \<open>What passes the flag check has a WebSocket address, so a dial never fails on the URL.\<close>

lemma parsed_server_has_ws:
  assumes "parseServerURL quote parse_url raw = Ok u" and "parse_url server = Ok u"
  shows "\<exists>addr. wsURL quote parse_url server = Ok addr \<and> pu_Host addr = pu_Host u"
  using assms by (auto simp: parseServerURL_def wsURL_def split: if_splits sum.splits)

section \<open>The client with its pending commands\<close>

text \<open>The events of a run: the user, a completed one-shot command, a frame or the end of a read loop, and
  the connection operations, which answer nothing.\<close>

inductive client_step ::
  "'ti ui_lib \<Rightarrow> client_json \<Rightarrow> (instant \<Rightarrow> string) \<Rightarrow> 'ti app \<times> cmd list \<Rightarrow> 'ti app \<times> cmd list \<Rightarrow> bool"
  for L J day where
  user: "Update L J day (Chrome (KeyMsg k)) m = Some (m', cs) \<Longrightarrow> client_step L J day (m, ps) (m', ps @ cs)"
| resize: "Update L J day (Chrome (WindowSizeMsg w h)) m = Some (m', cs) \<Longrightarrow> client_step L J day (m, ps) (m', ps @ cs)"
| complete: "\<lbrakk>c \<in> set ps; perform_cmd N (m_server m) c = Some msg; Update L J day msg m = Some (m', cs)\<rbrakk>
    \<Longrightarrow> client_step L J day (m, ps) (m', remove1 c ps @ cs)"
| frame: "\<lbrakk>CReadLoop conn g \<in> set ps; Update L J day (Chat (WSFrameReceived ty raw g)) m = Some (m', cs)\<rbrakk>
    \<Longrightarrow> client_step L J day (m, ps) (m', ps @ cs)"
| disconnect: "\<lbrakk>CReadLoop conn g \<in> set ps; Update L J day (Session (WSDisconnected e g)) m = Some (m', cs)\<rbrakk>
    \<Longrightarrow> client_step L J day (m, ps) (m', remove1 (CReadLoop conn g) ps @ cs)"
| closed: "\<lbrakk>c \<in> set ps; c = CClose conn \<or> c = CCloseGracefully conn\<rbrakk>
    \<Longrightarrow> client_step L J day (m, ps) (m, remove1 c ps)"

inductive client_reach ::
  "'ti ui_lib \<Rightarrow> client_json \<Rightarrow> (instant \<Rightarrow> string) \<Rightarrow> string \<Rightarrow> 'ti app \<times> cmd list \<Rightarrow> bool"
  for L J day server where
  start: "client_reach L J day server (OpenLoginModal L (SetProgram (app_New L server now)), app_Init)"
| step: "client_reach L J day server s \<Longrightarrow> client_step L J day s s' \<Longrightarrow> client_reach L J day server s'"

section \<open>What an update may do to the history latch\<close>

definition loading :: "'ti app \<Rightarrow> string \<Rightarrow> bool" where
  "loading m r \<longleftrightarrow> rh_loading (history_of m r)"

fun is_events :: "cmd \<Rightarrow> bool" where
  "is_events (CLoadEvents _ _ _ _) \<longleftrightarrow> True"
| "is_events _ \<longleftrightarrow> False"

fun events_of :: "string \<Rightarrow> generation \<Rightarrow> cmd \<Rightarrow> bool" where
  "events_of r g (CLoadEvents _ r' _ g') \<longleftrightarrow> r' = r \<and> g' = g"
| "events_of r g _ \<longleftrightarrow> False"

text \<open>The history pages of a room that are in flight for a session.\<close>

definition in_flight :: "string \<Rightarrow> generation \<Rightarrow> cmd list \<Rightarrow> nat" where
  "in_flight r g cs = length (filter (events_of r g) cs)"

fun app_cmd :: "cmd \<Rightarrow> bool" where
  "app_cmd (CEmit msg) \<longleftrightarrow> modal_cmd (CEmit msg)"
| "app_cmd _ \<longleftrightarrow> True"

lemma events_of_is_events: "events_of r g c \<Longrightarrow> is_events c"
  by (cases c) auto

lemma in_flight_append [simp]: "in_flight r g (a @ b) = in_flight r g a + in_flight r g b"
  by (simp add: in_flight_def)

lemma in_flight_none: "list_all (\<lambda>c. \<not> is_events c) cs \<Longrightarrow> in_flight r g cs = 0"
  by (auto simp: in_flight_def list_all_iff filter_empty_conv dest: events_of_is_events)

lemma modal_cmds_app:
  assumes "list_all modal_cmd cs"
  shows "list_all app_cmd cs" "list_all (\<lambda>c. \<not> is_events c) cs"
proof -
  have "app_cmd c \<and> \<not> is_events c" if "modal_cmd c" for c using that by (cases c) auto
  then show "list_all app_cmd cs" "list_all (\<lambda>c. \<not> is_events c) cs" using assms by (auto simp: list_all_iff)
qed

definition modals_fine :: "'ti ui_lib \<Rightarrow> 'ti app \<Rightarrow> bool" where
  "modals_fine L m \<longleftrightarrow> m_program m \<and> (\<forall>d. m_modal m = Some d \<longrightarrow> modal_ok L d)"

text \<open>Either the session goes on, and a page is requested only for a room whose latch is free and is
  then set, or the session is over.\<close>

definition keeps_latch :: "'ti app \<Rightarrow> 'ti app \<Rightarrow> cmd list \<Rightarrow> bool" where
  "keeps_latch m m' cs \<longleftrightarrow> m_gen m' = m_gen m \<and>
     (m_token m' = [] \<and> list_all (\<lambda>c. \<not> is_events c) cs
      \<or> m_token m' = m_token m \<and> (\<forall>t r b g. CLoadEvents t r b g \<in> set cs \<longrightarrow> g = m_gen m)
        \<and> (\<forall>r. loading m r \<longrightarrow> loading m' r \<and> in_flight r (m_gen m) cs = 0)
        \<and> (\<forall>r. \<not> loading m r \<longrightarrow> in_flight r (m_gen m) cs \<le> (if loading m' r then 1 else 0)))"

definition fine_out :: "'ti ui_lib \<Rightarrow> 'ti app \<Rightarrow> 'ti out \<Rightarrow> bool" where
  "fine_out L m res \<longleftrightarrow> (\<exists>m' cs. res = Some (m', cs) \<and> m_server m' = m_server m \<and> modals_fine L m'
      \<and> list_all app_cmd cs \<and> keeps_latch m m' cs)"

lemma fine_out_Some:
  "fine_out L m (Some (m', cs)) \<longleftrightarrow> m_server m' = m_server m \<and> modals_fine L m' \<and> list_all app_cmd cs \<and> keeps_latch m m' cs"
  by (simp add: fine_out_def)

lemma keeps_latch_quiet:
  assumes "m_gen m' = m_gen m" "m_token m' = m_token m" "\<And>r. loading m' r = loading m r"
    and "list_all (\<lambda>c. \<not> is_events c) cs"
  shows "keeps_latch m m' cs"
  using assms by (auto simp: keeps_latch_def in_flight_none list_all_iff)

lemma keeps_latch_over: "m_gen m' = m_gen m \<Longrightarrow> m_token m' = [] \<Longrightarrow> list_all (\<lambda>c. \<not> is_events c) cs \<Longrightarrow> keeps_latch m m' cs"
  by (simp add: keeps_latch_def)

lemma make_histories_fields [simp]:
  "m_gen (make_histories m) = m_gen m" "m_token (make_histories m) = m_token m"
  "m_server (make_histories m) = m_server m" "m_program (make_histories m) = m_program m"
  "m_modal (make_histories m) = m_modal m" "m_conn (make_histories m) = m_conn m"
  "m_rooms (make_histories m) = m_rooms m" "m_activeRoomID (make_histories m) = m_activeRoomID m"
  "loading (make_histories m) r = loading m r"
  by (simp_all add: make_histories_def loading_def history_of_def)

lemma loading_eq: "m_histories m' = m_histories m \<Longrightarrow> loading m' r = loading m r"
  by (simp add: loading_def history_of_def)

lemma loading_mainError: "loading (m\<lparr>m_mainError := h\<rparr>) r = loading m r"
  by (rule loading_eq) simp

lemma setHistoryLoading_total:
  "setHistoryLoading r b m = Some (set_history r ((history_of m r)\<lparr>rh_loading := b\<rparr>) m)"
  by (simp add: setHistoryLoading_def Let_def)

lemma history_of_set_history: "history_of (set_history r h m) r' = (if r' = r then h else history_of m r')"
  by (simp add: history_of_def set_history_def)

lemma loading_set_history: "loading (set_history r h m) r' = (if r' = r then rh_loading h else loading m r')"
  by (simp add: loading_def history_of_def set_history_def)

lemma set_history_fields [simp]:
  "m_gen (set_history r h m) = m_gen m" "m_token (set_history r h m) = m_token m"
  "m_server (set_history r h m) = m_server m" "m_program (set_history r h m) = m_program m"
  "m_modal (set_history r h m) = m_modal m" "m_conn (set_history r h m) = m_conn m"
  "m_rooms (set_history r h m) = m_rooms m" "m_activeRoomID (set_history r h m) = m_activeRoomID m"
  by (simp_all add: set_history_def)

lemma to_modal_fine:
  assumes "modals_fine L m"
  shows "fine_out L m (to_modal L msg m)"
proof (cases "m_modal m")
  case None
  then show ?thesis using assms by (auto simp: fine_out_Some to_modal_def intro!: keeps_latch_quiet)
next
  case (Some d)
  then have "modal_ok L d" using assms by (simp add: modals_fine_def)
  from modal_step_safe[OF this, of msg] obtain n cs where
    n: "modal_Update L msg d = Some (n, cs)" "\<forall>d'. n = Some d' \<longrightarrow> modal_ok L d'" "list_all modal_cmd cs" by blast
  show ?thesis using Some n assms modal_cmds_app[OF n(3)]
    by (auto simp: fine_out_Some to_modal_def modals_fine_def intro!: keeps_latch_quiet loading_eq)
qed

lemma open_modal_fine:
  assumes "m_program m" "modal_ok L d"
  shows "fine_out L m (Some (open_modal d m))"
  using assms
  by (auto simp: fine_out_Some open_modal_def modals_fine_def modal_Init_def search_Init_def search_load_def
      intro!: keeps_latch_quiet loading_eq split: modal.splits)

lemma openLoginModalWithError_ok:
  "\<exists>d. openLoginModalWithError L m h e = Some d \<and> modal_ok L d"
proof -
  obtain base where b: "(if e \<noteq> [] then PrefillEmail L e (login_New L (m_server m)) else Some (login_New L (m_server m))) = Some base"
    "form_ok 2 (lg_inputs base) (lg_focused base)"
    using login_helpers_ok(1)[OF modal_New_ok(1), of L e L "m_server m"] modal_New_ok(1)[of L "m_server m"]
    by (cases "e = []") auto
  obtain lm where "login_ShowError L h [] base = Some lm" "form_ok 2 (lg_inputs lm) (lg_focused lm)"
    using login_ShowError_ok[OF b(2), of L h "[]"] by blast
  then show ?thesis unfolding openLoginModalWithError_def b(1) by simp
qed

lemma reopenLoginModal_ok: "\<exists>d. reopenLoginModal L m e = Some d \<and> modal_ok L d"
  using login_helpers_ok(1)[OF modal_New_ok(1), of L e L "m_server m"] modal_New_ok(1)[of L "m_server m"]
  by (auto simp: reopenLoginModal_def)

lemma modal_Init_cmds: "list_all app_cmd (modal_Init d)" "list_all (\<lambda>c. \<not> is_events c) (modal_Init d)"
  by (simp_all add: modal_Init_def search_Init_def search_load_def split: modal.splits)

lemma lost_session_over:
  assumes "m_program m"
  shows "\<exists>m' cs. lost_session L h m = Some (m', cs) \<and> m_token m' = [] \<and> m_conn m' = None \<and> m_gen m' = m_gen m
    \<and> m_server m' = m_server m \<and> modals_fine L m' \<and> list_all app_cmd cs \<and> list_all (\<lambda>c. \<not> is_events c) cs"
proof -
  obtain m1 e where r: "resetSession L m = (m1, e)" by fastforce
  obtain d where d: "openLoginModalWithError L m1 h e = Some d" "modal_ok L d"
    using openLoginModalWithError_ok by blast
  have l: "lost_session L h m = Some (open_modal d m1)" by (simp add: lost_session_def r d)
  have f: "m_token m1 = []" "m_conn m1 = None" "m_gen m1 = m_gen m" "m_program m1" "m_server m1 = m_server m"
    using r assms by (auto simp: resetSession_def)
  show ?thesis using f d(2) modal_Init_cmds[of d] by (simp add: l open_modal_def modals_fine_def)
qed

lemma lost_session_fine: "m_program m \<Longrightarrow> fine_out L m (lost_session L h m)"
  using lost_session_over[of m L h] by (auto simp: fine_out_Some intro!: keeps_latch_over)

lemma handleSessionExpiry_over:
  assumes "m_program m"
  shows "\<exists>m' cs. handleSessionExpiry L m = Some (m', cs) \<and> m_token m' = [] \<and> m_conn m' = None \<and> m_gen m' = m_gen m
    \<and> m_server m' = m_server m \<and> modals_fine L m' \<and> list_all app_cmd cs \<and> list_all (\<lambda>c. \<not> is_events c) cs"
proof -
  define h where "h = ''Session expired '' @ em_dash @ '' please sign in again''"
  show ?thesis
    using lost_session_over[OF assms, of L h] unfolding handleSessionExpiry_def h_def [symmetric]
    by (auto split: option.splits)
qed

lemma handleSessionExpiry_fine: "m_program m \<Longrightarrow> fine_out L m (handleSessionExpiry L m)"
  using handleSessionExpiry_over[of m L] by (auto simp: fine_out_Some intro!: keeps_latch_over)

lemma beginBackfill_fine:
  assumes "modals_fine L m"
  shows "fine_out L m (beginBackfill r m)"
  using assms
  by (auto simp: fine_out_Some beginBackfill_def Let_def modals_fine_def keeps_latch_def history_of_set_history loading_def in_flight_def)

lemma fetchOlder_fine:
  assumes "modals_fine L m"
  shows "fine_out L m (fetchOlder m)"
  using assms
  by (auto simp: fine_out_Some fetchOlder_def Let_def modals_fine_def keeps_latch_def history_of_set_history loading_def in_flight_def)

text \<open>A change that leaves the session, the latches and the modal alone.\<close>

lemma fine_quiet:
  assumes "modals_fine L m" "m_gen m' = m_gen m" "m_token m' = m_token m" "m_server m' = m_server m"
    "m_program m' = m_program m" "m_modal m' = m_modal m" "m_histories m' = m_histories m"
    "list_all app_cmd cs" "list_all (\<lambda>c. \<not> is_events c) cs"
  shows "fine_out L m (Some (m', cs))"
  using assms by (auto simp: fine_out_Some modals_fine_def intro!: keeps_latch_quiet loading_eq)

text \<open>Composition: a quiet change first.\<close>

lemma fine_after:
  assumes "fine_out L m1 res" "m_gen m1 = m_gen m" "m_token m1 = m_token m" "m_server m1 = m_server m"
    "\<And>r. loading m1 r = loading m r"
  shows "fine_out L m res"
  using assms by (auto simp: fine_out_def keeps_latch_def)

lemma rooms_key_fine:
  assumes "modals_fine L m"
  shows "fine_out L m (rooms_key key m)"
proof -
  obtain st out where h: "HandleKey (m_rooms m) key = (st, out)" by fastforce
  define m1 where "m1 = m\<lparr>m_rooms := st\<rparr>"
  have q: "fine_out L m (Some (m1, cs))" if "list_all app_cmd cs" "list_all (\<lambda>c. \<not> is_events c) cs" for cs
    using assms that by (intro fine_quiet) (simp_all add: m1_def)
  have b: "fine_out L m (beginBackfill r (activateRoom r n m1))" for r n
    using assms by (intro fine_after[OF beginBackfill_fine])
      (simp_all add: m1_def activateRoom_def modals_fine_def loading_def history_of_def)
  have t: "fine_out L m (Some (m1\<lparr>m_rooms := st'\<rparr>, [load_joined m1]))" for st'
    using assms by (intro fine_quiet) (simp_all add: m1_def load_joined_def)
  show ?thesis
    using q b t by (cases out) (simp_all add: rooms_key_def h Let_def m1_def)
qed

lemma composer_key_fine:
  assumes "modals_fine L m"
  shows "fine_out L m (Some (composer_key L k m))"
proof -
  have "list_all app_cmd (snd (input_update L msg x))" "list_all (\<lambda>c. \<not> is_events c) (snd (input_update L msg x))" for msg x
    by (rule modal_cmds_app(1)[OF input_update_cmds], rule modal_cmds_app(2)[OF input_update_cmds])
  then have typed: "fine_out L m (Some (case input_update L msg (m_composer m) of (x, cs) \<Rightarrow> (m\<lparr>m_composer := x\<rparr>, cs)))" for msg
    unfolding case_prod_unfold by (intro fine_quiet[OF assms]) simp_all
  have "fine_out L m (Some (m, []))" by (intro fine_quiet[OF assms]) simp_all
  moreover have "fine_out L m (Some (m\<lparr>m_composer := x\<rparr>, [CSend t g r body]))" for x t g r body
    by (intro fine_quiet[OF assms]) simp_all
  ultimately show ?thesis using typed unfolding composer_key_def Let_def by presburger
qed

lemma handleScrollKey_fine:
  assumes "modals_fine L m"
  shows "fine_out L m (handleScrollKey day key m)"
proof -
  have q: "fine_out L m (Some (m\<lparr>m_scrollOffset := off\<rparr>, []))" "fine_out L m (Some (m, []))" for off
    using assms by (intro fine_quiet; simp)+
  have f: "fine_out L m (fetchOlder (m\<lparr>m_scrollOffset := off\<rparr>))" for off
    using assms by (intro fine_after[OF fetchOlder_fine]) (simp_all add: modals_fine_def loading_def history_of_def)
  show ?thesis using q f by (simp add: handleScrollKey_def Let_def split: option.splits)
qed

lemma handleKey_fine:
  assumes "modals_fine L m"
  shows "fine_out L m (handleKey L day k m)"
proof -
  have quit: "fine_out L m (Some (m, [CQuit]))" using assms by (intro fine_quiet) simp_all
  have search: "fine_out L m (Some (open_modal (openRoomSearchModal L m) m))"
    using assms modal_New_ok(3) by (intro open_modal_fine) (simp_all add: modals_fine_def openRoomSearchModal_def)
  have focus: "fine_out L m (Some (focus_key L f m))" for f
    using assms by (simp only: focus_key_def Let_def) (auto intro!: fine_quiet)
  show ?thesis
    using quit search focus to_modal_fine[OF assms] rooms_key_fine[OF assms] composer_key_fine[OF assms]
      handleScrollKey_fine[OF assms]
    by (simp add: handleKey_def split: prod.splits bool.splits focusTarget.splits)
qed

lemma updateChrome_fine:
  assumes "modals_fine L m"
  shows "fine_out L m (updateChrome L day msg m)"
  using handleKey_fine[OF assms] assms
  by (auto simp: updateChrome_def Let_def intro!: fine_quiet split: chrome_msg.splits option.splits)

lemma updateSession_fine:
  assumes "modals_fine L m" "\<And>t e. msg \<noteq> LoginSucceeded t e"
  shows "fine_out L m (updateSession L msg m)"
proof -
  have p: "m_program m" using assms by (simp add: modals_fine_def)
  have same: "fine_out L m (Some (m, []))" "fine_out L m (Some (m, [CClose c]))" for c
    using assms(1) by (intro fine_quiet; simp)+
  have auth: "fine_out L m (Some (enter_session L c u m))" for c u
    using p by (auto simp: fine_out_Some enter_session_def modals_fine_def load_joined_def intro!: keeps_latch_quiet loading_eq)
  have reopen: "fine_out L m (do { d \<leftarrow> reopenLoginModal L m e; Some (open_modal d m) })" for e
    using reopenLoginModal_ok[of L m e] open_modal_fine[OF p] by auto
  have verified: "fine_out L m (do { l1 \<leftarrow> PrefillEmail L em (login_New L (m_server m)); l2 \<leftarrow> ShowNotice L n l1;
      Some (open_modal (LoginModal l2) m) })" for em n
  proof -
    obtain l1 where l1: "PrefillEmail L em (login_New L (m_server m)) = Some l1" "form_ok 2 (lg_inputs l1) (lg_focused l1)"
      using login_helpers_ok(1)[OF modal_New_ok(1), of L em] by blast
    obtain l2 where "ShowNotice L n l1 = Some l2" "form_ok 2 (lg_inputs l2) (lg_focused l2)"
      using login_helpers_ok(2)[OF l1(2), of L n] by blast
    then show ?thesis using l1(1) open_modal_fine[OF p] by simp
  qed
  have opened: "fine_out L m (Some (open_modal (openVerifyModal L m e) m))"
      "fine_out L m (Some (open_modal (RegisterModal (register_New L (m_server m))) m))" for e
    using modal_New_ok(2) by (intro open_modal_fine[OF p]; simp add: openVerifyModal_def)+
  show ?thesis
  proof (cases msg)
    case (LoginSucceeded t e)
    then show ?thesis using assms(2) by blast
  next
    case (WSAuthSucceeded c u g)
    then show ?thesis using same auth p by (simp add: updateSession_def split: option.splits modal.splits)
  next
    case (VerifySucceeded e)
    then show ?thesis using verified unfolding updateSession_def by simp
  next
    case (WSDisconnected e g)
    then show ?thesis using same lost_session_fine[OF p] unfolding updateSession_def by simp
  next
    case (LoginRejected s t c e)
    then show ?thesis using opened to_modal_fine[OF assms(1)] unfolding updateSession_def by simp
  qed (use same reopen opened to_modal_fine[OF assms(1)] in \<open>simp_all add: updateSession_def\<close>)
qed

lemma room_failure_fine:
  assumes "modals_fine L m" "fine_out L m res"
  shows "fine_out L m (room_failure L g code m res)"
  using assms handleSessionExpiry_fine[of m L]
  by (auto simp: room_failure_def modals_fine_def intro!: fine_quiet)

lemma enter_room_fine:
  assumes "modals_fine L m"
  shows "fine_out L m (enter_room r n m)"
proof -
  define names where "names = map_put (m_nameForID m) r n"
  define m1 where "m1 = (activateRoom r n
      (m\<lparr>m_nameForID := names, m_rooms := (m_rooms m)\<lparr>rp_NameForID := names\<rparr>\<rparr>))\<lparr>m_modal := None\<rparr>"
  have f: "m_gen m1 = m_gen m" "m_token m1 = m_token m" "m_server m1 = m_server m" "\<And>x. loading m1 x = loading m x"
    "modals_fine L m1"
    using assms by (simp_all add: m1_def activateRoom_def loading_def history_of_def modals_fine_def)
  have b: "fine_out L m (beginBackfill r m1)" using fine_after[OF beginBackfill_fine[OF f(5), of r] f(1-4)] .
  then obtain m2 cs where m2: "beginBackfill r m1 = Some (m2, cs)" by (auto simp: fine_out_def)
  then have "fine_out L m (Some (m2, load_joined m2 # cs))"
    using b by (auto simp: fine_out_Some keeps_latch_def load_joined_def in_flight_def)
  then show ?thesis by (simp add: enter_room_def names_def [symmetric] Let_def m1_def [symmetric] m2)
qed

lemma names_total:
  "\<exists>y. for_each (\<lambda>r n. map_assign n (crm_ID r) (crm_Name r)) rooms (map_make x) = Some y"
proof -
  have "\<exists>y. for_each (\<lambda>r n. map_assign n (crm_ID r) (crm_Name r)) rooms (Some f) = Some y" for f
    by (induction rooms arbitrary: f) (simp_all add: map_assign_def)
  then show ?thesis by (cases x) (simp_all add: map_make_def)
qed

lemma updateRooms_fine:
  assumes "modals_fine L m"
  shows "fine_out L m (updateRooms L msg m)"
proof -
  note quiet = fine_quiet[OF assms]
  have p: "m_program m" using assms by (simp add: modals_fine_def)
  have same: "fine_out L m (Some (m, []))" by (intro quiet) simp_all
  have rooms: "fine_out L m (Some (m\<lparr>m_rooms := s\<rparr>, []))" for s by (intro quiet) simp_all
  have named: "fine_out L m (Some (m\<lparr>m_nameForID := n, m_rooms := s\<rparr>, []))" for n s by (intro quiet) simp_all
  have left: "fine_out L m (Some (m\<lparr>m_rooms := s\<rparr>, [load_joined (m\<lparr>m_rooms := s\<rparr>)]))"
      "fine_out L m (Some (m\<lparr>m_activeRoomID := [], m_roomLabel := [], m_mainError := [], m_rooms := s\<rparr>,
         [load_joined (m\<lparr>m_activeRoomID := [], m_roomLabel := [], m_mainError := [], m_rooms := s\<rparr>)]))" for s
    by (intro quiet; simp add: load_joined_def)+
  have opened: "fine_out L m (Some (open_modal (openRoomSearchModal L m) m))"
      "fine_out L m (Some (open_modal (CreateRoomModal c) m))" for c
    using modal_New_ok(3)[of L "m_server m" "m_token m" "m_gen m"]
      open_modal_fine[OF p, of L "openRoomSearchModal L m"] open_modal_fine[OF p, of L "CreateRoomModal c"]
    by (simp_all add: openRoomSearchModal_def)
  show ?thesis
  proof (cases msg)
    case CreateRoomRequested
    then show ?thesis using same opened by (simp add: updateRooms_def split: option.splits modal.splits)
  next
    case CreateRoomCancelled
    then show ?thesis using same opened by (simp add: updateRooms_def split: option.splits modal.splits)
  next
    case (JoinedRoomsLoaded rooms g)
    obtain names where "for_each (\<lambda>r n. map_assign n (crm_ID r) (crm_Name r)) rooms (map_make (m_nameForID m)) = Some names"
      using names_total by blast
    then show ?thesis using JoinedRoomsLoaded same named by (simp add: updateRooms_def)
  qed (use same rooms named left enter_room_fine[OF assms] to_modal_fine[OF assms] room_failure_fine[OF assms] in
      \<open>simp_all add: updateRooms_def Let_def\<close>)
qed

lemma appended_app [simp]:
  fixes m :: "'ti app"
  shows "m_gen (appended r e m) = m_gen m" "m_token (appended r e m) = m_token m"
    "m_server (appended r e m) = m_server m" "m_program (appended r e m) = m_program m"
    "m_modal (appended r e m) = m_modal m" "m_conn (appended r e m) = m_conn m"
    "m_rooms (appended r e m) = m_rooms m" "loading (appended r e m) x = loading m x"
  by (simp_all add: appended_def healed_def set_history_def loading_def history_of_def Let_def
      split: prod.splits list.splits option.splits)

text \<open>What appending frames or history entries never touches.\<close>

definition same_session :: "'ti app \<Rightarrow> 'ti app \<Rightarrow> bool" where
  "same_session m m' \<longleftrightarrow> m_gen m' = m_gen m \<and> m_token m' = m_token m \<and> m_server m' = m_server m
     \<and> m_program m' = m_program m \<and> m_modal m' = m_modal m \<and> m_conn m' = m_conn m \<and> m_rooms m' = m_rooms m
     \<and> m_activeRoomID m' = m_activeRoomID m"

lemma same_session_reanchor: "same_session m m' \<Longrightarrow> same_session m (reanchor day old m')"
  by (simp add: same_session_def reanchor_def Let_def)

lemma loading_reanchor [simp]: "loading (reanchor day old m) r = loading m r"
  by (simp add: loading_def history_of_def reanchor_def Let_def)

lemma same_session_trans: "same_session m m1 \<Longrightarrow> same_session m1 m2 \<Longrightarrow> same_session m m2"
  by (simp add: same_session_def)

lemma appends_same:
  fixes m :: "'ti app"
  shows "\<exists>m'. appendChatMessage cm m = Some m' \<and> same_session m m' \<and> (\<forall>x. loading m' x = loading m x)"
    "\<exists>m'. appendMemberEvent me m = Some m' \<and> same_session m m' \<and> (\<forall>x. loading m' x = loading m x)"
    "\<exists>m'. appendTimelineEvent r te m = Some m' \<and> same_session m m' \<and> (\<forall>x. loading m' x = loading m x)"
  by (simp_all add: appendChatMessage_def appendMemberEvent_def appendTimelineEvent_def appendEvent_total same_session_def)

lemma append_timeline_events:
  fixes m :: "'ti app"
  shows "\<exists>m'. for_each (appendTimelineEvent r) evs m = Some m' \<and> same_session m m' \<and> (\<forall>x. loading m' x = loading m x)"
proof (induction evs arbitrary: m)
  case Nil
  then show ?case by (simp add: same_session_def)
next
  case (Cons e evs)
  obtain m1 where m1: "appendTimelineEvent r e m = Some m1" "same_session m m1" "\<forall>x. loading m1 x = loading m x"
    using appends_same(3) by blast
  obtain m2 where "for_each (appendTimelineEvent r) evs m1 = Some m2" "same_session m1 m2" "\<forall>x. loading m2 x = loading m1 x"
    using Cons.IH by blast
  then show ?case using m1 same_session_trans by auto
qed

lemma frame_received_same:
  fixes m :: "'ti app"
  shows "\<exists>m'. frame_received J day ty raw m = Some m' \<and> same_session m m' \<and> (\<forall>x. loading m' x = loading m x)"
proof -
  define ok where "ok x \<longleftrightarrow> (\<exists>m1. x = Some m1 \<and> same_session m m1 \<and> (\<forall>x. loading m1 x = loading m x))" for x
  have anchored: "ok (x \<bind> (\<lambda>m1. Some (reanchor day old m1)))" if "ok x" for x old
    using that same_session_reanchor by (auto simp: ok_def)
  have "ok (Some m)" "ok (Some (m\<lparr>m_mainError := h\<rparr>))" "ok (appendChatMessage cm m)" "ok (appendMemberEvent me m)" for h cm me
    unfolding ok_def using appends_same by (simp_all add: same_session_def loading_mainError)
  then have "ok (frame_received J day ty raw m)"
    unfolding frame_received_def Let_def by (intro anchored) (simp split: option.splits prod.splits)
  then show ?thesis by (simp add: ok_def)
qed

lemma events_loaded_same:
  fixes m :: "'ti app"
  shows "\<exists>m'. events_loaded day r evs nxt before m = Some m' \<and> same_session m m'
    \<and> (\<forall>x. loading m' x = (x \<noteq> r \<and> loading m x))"
proof -
  define h where "h = (let h1 = (history_of m r)\<lparr>rh_loading := False, rh_fetched := True\<rparr> in
     if before \<noteq> [] \<or> \<not> rh_fetched (history_of m r) then h1\<lparr>rh_next := nxt, rh_exhausted := (nxt = [])\<rparr> else h1)"
  obtain m2 where m2: "for_each (appendTimelineEvent r) evs (set_history r h m) = Some m2"
      "same_session (set_history r h m) m2" "\<forall>x. loading m2 x = loading (set_history r h m) x"
    using append_timeline_events by blast
  have e: "events_loaded day r evs nxt before m = Some (reanchor day (activeLines day m) m2)"
    using m2(1) by (cases "before \<noteq> [] \<or> \<not> rh_fetched (history_of m r)") (auto simp: events_loaded_def h_def Let_def)
  have "\<not> rh_loading h" by (simp add: h_def Let_def)
  moreover have "same_session m m2" using m2(2) by (simp add: same_session_def)
  ultimately show ?thesis
    unfolding e using m2(3) by (auto intro!: same_session_reanchor simp: loading_set_history)
qed

lemma updateChat_fine:
  assumes "modals_fine L m" "\<And>r evs n b g. msg \<noteq> RoomEventsLoaded r evs n b g"
    "\<And>r st t c b g. msg \<noteq> RoomEventsLoadFailed r st t c b g"
  shows "fine_out L m (updateChat L J day msg m)"
proof -
  note quiet = fine_quiet[OF assms(1)]
  have p: "m_program m" using assms by (simp add: modals_fine_def)
  have same: "fine_out L m (Some (m, []))" "fine_out L m (Some (m\<lparr>m_mainError := h\<rparr>, []))"
      "fine_out L m (Some (m\<lparr>m_composer := x, m_mainError := h\<rparr>, []))" for h x
    by (intro quiet; simp)+
  have frame: "fine_out L m (quietly (frame_received J day ty raw m))" for ty raw
    using frame_received_same[of J day ty raw m] assms(1)
    by (auto simp: quietly_def fine_out_Some same_session_def modals_fine_def intro!: keeps_latch_quiet)
  show ?thesis
  proof (cases msg)
    case (SendMessageFailed r g st t b c)
    then show ?thesis using same handleSessionExpiry_fine[OF p] by (simp add: updateChat_def Let_def)
  qed (use assms(2,3) same frame in \<open>auto simp: updateChat_def\<close>)
qed

section \<open>The invariant of a run\<close>

definition client_inv :: "'ti ui_lib \<Rightarrow> 'ti app \<times> cmd list \<Rightarrow> bool" where
  "client_inv L s \<longleftrightarrow> (case s of (m, ps) \<Rightarrow>
     modals_fine L m \<and> list_all app_cmd ps
     \<and> (\<forall>t r b g. CLoadEvents t r b g \<in> set ps \<longrightarrow> g \<le> m_gen m)
     \<and> (m_token m \<noteq> [] \<longrightarrow> (\<forall>r. in_flight r (m_gen m) ps \<le> (if loading m r then 1 else 0))))"

lemma in_flight_remove1: "in_flight r g (remove1 c ps) = in_flight r g ps - (if c \<in> set ps \<and> events_of r g c then 1 else 0)"
  by (simp add: in_flight_def filter_remove1 length_remove1)

lemma client_inv_fine:
  assumes inv: "client_inv L (m, ps)" and res: "fine_out L m (Some (m', cs))" and sub: "set ps' \<subseteq> set ps"
    and less: "\<And>r. in_flight r (m_gen m) ps' \<le> in_flight r (m_gen m) ps"
  shows "client_inv L (m', ps' @ cs)"
proof -
  have k: "modals_fine L m'" "list_all app_cmd cs" "keeps_latch m m' cs" using res by (auto simp: fine_out_Some)
  have g: "m_gen m' = m_gen m" using k(3) by (simp add: keeps_latch_def)
  have ev: "\<forall>t r b g. CLoadEvents t r b g \<in> set cs \<longrightarrow> g = m_gen m"
    using k(3) by (auto simp: keeps_latch_def list_all_iff)
  have old: "list_all app_cmd ps'" "\<forall>t r b g. CLoadEvents t r b g \<in> set ps' \<longrightarrow> g \<le> m_gen m"
    using inv sub by (auto simp: client_inv_def list_all_iff)
  have lim: "in_flight r (m_gen m) (ps' @ cs) \<le> (if loading m' r then 1 else 0)" if t: "m_token m' \<noteq> []" for r
  proof -
    have latch: "m_token m' = m_token m" "loading m r \<longrightarrow> loading m' r \<and> in_flight r (m_gen m) cs = 0"
        "\<not> loading m r \<longrightarrow> in_flight r (m_gen m) cs \<le> (if loading m' r then 1 else 0)"
      using k(3) t by (auto simp: keeps_latch_def)
    have "in_flight r (m_gen m) ps \<le> (if loading m r then 1 else 0)"
      using inv t latch(1) by (simp add: client_inv_def)
    then show ?thesis using latch(2,3) less[of r] by (cases "loading m r") auto
  qed
  have "\<forall>t r b g. CLoadEvents t r b g \<in> set (ps' @ cs) \<longrightarrow> g \<le> m_gen m'" using ev old(2) g by auto
  then show ?thesis using k(1,2) old(1) lim g by (simp add: client_inv_def)
qed

lemma client_inv_events:
  assumes inv: "client_inv L (m, ps)" and c: "CLoadEvents t r b g \<in> set ps"
    and msg: "msg = RoomEventsLoaded r evs nxt before g \<or> msg = RoomEventsLoadFailed r st tx code before g"
    and upd: "updateChat L J day msg m = Some (m', cs)"
  shows "client_inv L (m', remove1 (CLoadEvents t r b g) ps @ cs)"
proof -
  have fine: "modals_fine L m" and p: "m_program m" using inv by (auto simp: client_inv_def modals_fine_def)
  have sub: "set (remove1 (CLoadEvents t r b g) ps) \<subseteq> set ps" by (rule set_remove1_subset)
  have less: "in_flight x h (remove1 (CLoadEvents t r b g) ps) \<le> in_flight x h ps" for x h
    by (simp add: in_flight_remove1)
  have over: "client_inv L (m', remove1 (CLoadEvents t r b g) ps @ cs)" if "fine_out L m (Some (m', cs))"
    using client_inv_fine[OF inv that sub less] .
  show ?thesis
  proof (cases "liveRoomResult m g \<and> (\<forall>st tx before. msg \<noteq> RoomEventsLoadFailed r st tx 401 before g)")
    case False
    have "fine_out L m (updateChat L J day msg m)"
      using False msg handleSessionExpiry_fine[OF p, of L] fine_quiet[OF fine, of m "[]"]
      by (auto simp: updateChat_def room_failure_def)
    then show ?thesis using over upd by simp
  next
    case True
    have g: "g = m_gen m" using True by (simp add: liveRoomResult_def)
    have free: "in_flight x (m_gen m) (remove1 (CLoadEvents t r b g) ps) \<le> (if x \<noteq> r \<and> loading m x then 1 else 0)" for x
    proof -
      have "m_token m \<noteq> []" using True by (simp add: liveRoomResult_def hasLiveSession_def)
      then have "in_flight x (m_gen m) ps \<le> (if loading m x then 1 else 0)" using inv by (simp add: client_inv_def)
      then show ?thesis using c g by (cases "loading m x") (auto simp: in_flight_remove1)
    qed
    have s: "same_session m m' \<and> cs = [] \<and> (\<forall>x. loading m' x = (x \<noteq> r \<and> loading m x))"
      using msg
    proof
      assume "msg = RoomEventsLoaded r evs nxt before g"
      then show ?thesis using upd True events_loaded_same[of day r evs nxt before m] by (auto simp: updateChat_def quietly_def)
    next
      assume m: "msg = RoomEventsLoadFailed r st tx code before g"
      then have "code \<noteq> 401" using True by blast
      then show ?thesis using upd True m
        by (auto simp: updateChat_def room_failure_def setHistoryLoading_total Let_def same_session_def loading_set_history
            loading_mainError split: if_splits)
    qed
    then show ?thesis
      using inv sub free g
      by (auto simp: client_inv_def same_session_def modals_fine_def list_all_iff dest: subsetD)
  qed
qed

lemma LoginCmd_token: "LoginCmd J T server email pw = LoginSucceeded token e \<Longrightarrow> token \<noteq> []"
  by (auto simp: LoginCmd_def split: sum.splits http_outcome.splits if_splits prod.splits)

lemma LoadEventsCmd_echo:
  "(\<exists>evs nxt. LoadEventsCmd J T server token r b g = RoomEventsLoaded r evs nxt b g)
   \<or> (\<exists>st tx code. LoadEventsCmd J T server token r b g = RoomEventsLoadFailed r st tx code b g)"
  by (simp add: LoadEventsCmd_def split: sum.splits prod.splits)

text \<open>Which commands answer with which messages.\<close>

lemma perform_login:
  assumes "perform_cmd N server c = Some (Session (LoginSucceeded token e))" "app_cmd c"
  shows "token \<noteq> []"
proof (cases c)
  case (CLogin em pw)
  then show ?thesis using assms LoginCmd_token by auto
next
  case (CDial t g)
  then show ?thesis using assms by (auto simp: DialAndAuthCmd_def split: sum.splits option.splits prod.splits if_splits)
next
  case (CRegister a b p)
  then show ?thesis using assms by (auto simp: RegisterCmd_def split: sum.splits if_splits)
next
  case (CVerify a b)
  then show ?thesis using assms by (auto simp: VerifyEmailCmd_def split: sum.splits if_splits)
next
  case (CResend a)
  then show ?thesis using assms by (auto simp: ResendVerificationCmd_def split: sum.splits if_splits)
next
  case (CEmit x)
  then show ?thesis using assms by (auto split: tea_msg.splits session_msg.splits)
qed (use assms in auto)

fun history_result :: "chat_msg \<Rightarrow> bool" where
  "history_result (RoomEventsLoaded _ _ _ _ _) \<longleftrightarrow> True"
| "history_result (RoomEventsLoadFailed _ _ _ _ _ _) \<longleftrightarrow> True"
| "history_result _ \<longleftrightarrow> False"

lemma perform_events:
  assumes "perform_cmd N server c = Some (Chat msg)" "app_cmd c" and "history_result msg"
  shows "\<exists>t r b g. c = CLoadEvents t r b g \<and>
    ((\<exists>evs nxt. msg = RoomEventsLoaded r evs nxt b g) \<or> (\<exists>st tx code. msg = RoomEventsLoadFailed r st tx code b g))"
proof (cases c)
  case (CLoadEvents t r b g)
  then show ?thesis using assms LoadEventsCmd_echo[of "cn_json N" "cn_http N" server t r b g] by auto
next
  case (CSend t g r b)
  then show ?thesis using assms by (auto simp: SendMessageCmd_def split: sum.splits prod.splits if_splits bool.splits)
next
  case (CRegister a b p)
  then show ?thesis using assms by (auto simp: RegisterCmd_def split: sum.splits if_splits)
next
  case (CVerify a b)
  then show ?thesis using assms by (auto simp: VerifyEmailCmd_def split: sum.splits if_splits)
next
  case (CResend a)
  then show ?thesis using assms by (auto simp: ResendVerificationCmd_def split: sum.splits if_splits)
next
  case (CEmit x)
  then show ?thesis using assms by (auto split: tea_msg.splits)
qed (use assms in auto)

text \<open>Every message a run can deliver, apart from a login and the two history results, is harmless.\<close>

lemma Update_fine:
  assumes "modals_fine L m"
    and "\<And>t e. msg \<noteq> Session (LoginSucceeded t e)"
    and "\<And>r evs n b g. msg \<noteq> Chat (RoomEventsLoaded r evs n b g)"
    and "\<And>r st t c b g. msg \<noteq> Chat (RoomEventsLoadFailed r st t c b g)"
  shows "fine_out L m (Update L J day msg m)"
proof (cases msg)
  case (Chat c)
  then show ?thesis using assms updateChat_fine[OF assms(1), of c J day] by (simp add: Update_def)
qed (use assms updateChrome_fine[OF assms(1)] updateSession_fine[OF assms(1)] updateRooms_fine[OF assms(1)]
    to_modal_fine[OF assms(1)] in \<open>simp_all add: Update_def\<close>)

lemma client_inv_login:
  assumes inv: "client_inv L (m, ps)" and tok: "token \<noteq> []" and sub: "set ps' \<subseteq> set ps"
    and upd: "Update L J day (Session (LoginSucceeded token e)) m = Some (m', cs)"
  shows "client_inv L (m', ps' @ cs)"
proof -
  have e: "m_gen m' = Suc (m_gen m)" "cs = [CDial token (Suc (m_gen m))]" "m_program m' = m_program m"
    using upd by (auto simp: Update_def updateSession_def Let_def)
  have d: "m_modal m' = advanceLoginToConnecting m"
    using upd by (auto simp: Update_def updateSession_def Let_def advanceLoginToConnecting_def)
  have "modals_fine L m'"
    using inv e(3)
    by (auto simp: client_inv_def modals_fine_def d advanceLoginToConnecting_def login_helpers_ok(3)
        split: option.splits modal.splits)
  moreover have old: "g \<le> m_gen m" if "CLoadEvents t r b g \<in> set ps'" for t r b g
    using inv sub that by (auto simp: client_inv_def)
  moreover have "\<not> events_of r (Suc (m_gen m)) c" if "c \<in> set ps'" for r c
    using old that by (cases c) fastforce+
  then have "in_flight r (Suc (m_gen m)) ps' = 0" for r by (auto simp: in_flight_def filter_empty_conv)
  ultimately show ?thesis
    using inv sub e by (auto simp: client_inv_def list_all_iff in_flight_def le_SucI)
qed

lemma client_inv_message:
  assumes inv: "client_inv L (m, ps)" and upd: "Update L J day msg m = Some (m', cs)"
    and harmless: "\<And>t e. msg \<noteq> Session (LoginSucceeded t e)" "\<And>r evs n b g. msg \<noteq> Chat (RoomEventsLoaded r evs n b g)"
      "\<And>r st t c b g. msg \<noteq> Chat (RoomEventsLoadFailed r st t c b g)"
    and sub: "set ps' \<subseteq> set ps" and less: "\<And>r. in_flight r (m_gen m) ps' \<le> in_flight r (m_gen m) ps"
  shows "client_inv L (m', ps' @ cs)"
proof -
  have "modals_fine L m" using inv by (simp add: client_inv_def)
  from Update_fine[OF this harmless, of J day] have "fine_out L m (Some (m', cs))" by (simp add: upd)
  then show ?thesis using client_inv_fine[OF inv _ sub less] by blast
qed

lemma client_inv_step:
  assumes "client_step L J day s s'" "client_inv L s"
  shows "client_inv L s'"
  using assms
proof (cases rule: client_step.cases)
  case (complete c ps N m msg m' cs)
  have inv: "client_inv L (m, ps)" using assms(2) complete by simp
  have app: "app_cmd c" using inv complete by (simp add: client_inv_def list_all_iff)
  have sub: "set (remove1 c ps) \<subseteq> set ps" by (rule set_remove1_subset)
  have less: "in_flight r (m_gen m) (remove1 c ps) \<le> in_flight r (m_gen m) ps" for r by (simp add: in_flight_remove1)
  show ?thesis
  proof (cases "\<exists>t e. msg = Session (LoginSucceeded t e)")
    case True
    then obtain t e where m: "msg = Session (LoginSucceeded t e)" by blast
    then have "t \<noteq> []" using perform_login complete(4) app by blast
    then show ?thesis using client_inv_login[OF inv _ sub] complete m by blast
  next
    case login: False
    show ?thesis
    proof (cases "\<exists>x. msg = Chat x \<and> history_result x")
      case True
      then obtain x where x: "msg = Chat x" "history_result x" by blast
      obtain t r b g where c: "c = CLoadEvents t r b g"
        and y: "(\<exists>evs nxt. x = RoomEventsLoaded r evs nxt b g) \<or> (\<exists>st tx code. x = RoomEventsLoadFailed r st tx code b g)"
        using perform_events[OF complete(4)[unfolded x(1)] app x(2)] by (elim exE conjE) (rule that)
      have u: "updateChat L J day x m = Some (m', cs)" using complete(5) x(1) by (simp add: Update_def)
      have c': "CLoadEvents t r b g \<in> set ps" using complete(3) c by simp
      have "client_inv L (m', remove1 (CLoadEvents t r b g) ps @ cs)"
      proof (cases "\<exists>evs nxt. x = RoomEventsLoaded r evs nxt b g")
        case True
        then obtain evs nxt where e: "x = RoomEventsLoaded r evs nxt b g" by blast
        show ?thesis by (rule client_inv_events[OF inv c' disjI1[OF e] u])
      next
        case False
        then obtain st tx code where e: "x = RoomEventsLoadFailed r st tx code b g" using y by blast
        show ?thesis by (rule client_inv_events[OF inv c' disjI2[OF e] u])
      qed
      then show ?thesis using complete(2) c by simp
    next
      case False
      have "client_inv L (m', remove1 c ps @ cs)"
        using login False by (intro client_inv_message[OF inv complete(5) _ _ _ sub less]) auto
      then show ?thesis using complete(2) by simp
    qed
  qed
next
  case (disconnect conn g ps e m m' cs)
  then show ?thesis using assms(2)
    by (auto intro!: client_inv_message simp: in_flight_remove1 dest: subsetD[OF set_remove1_subset])
next
  case (closed c ps conn m)
  then have inv: "client_inv L (m, ps)" using assms(2) by simp
  then have "fine_out L m (Some (m, []))" by (intro fine_quiet) (simp_all add: client_inv_def)
  then have "client_inv L (m, remove1 c ps @ [])"
    by (rule client_inv_fine[OF inv _ set_remove1_subset]) (simp add: in_flight_remove1)
  then show ?thesis using closed by simp
qed (use assms(2) in \<open>auto intro!: client_inv_message\<close>)

lemma client_inv_start: "client_inv L (OpenLoginModal L (SetProgram (app_New L server now)), app_Init)"
  using modal_New_ok(1)
  by (simp add: client_inv_def OpenLoginModal_def SetProgram_def app_New_def app_Init_def modals_fine_def in_flight_def)

lemma client_reach_inv: "client_reach L J day server s \<Longrightarrow> client_inv L s"
  by (induction rule: client_reach.induct) (auto intro: client_inv_start client_inv_step)

text \<open>C34. In every reachable state of the client, with any commands pending and completing in any
  order, no message makes it panic: \<open>Update\<close> always returns. In particular no history entry, frame,
  joined-rooms list, join, creation or scroll is ever written to a map that is still \<open>nil\<close>, although a fresh model
  and every session reset leave the names, the messages and the histories \<open>nil\<close>; no input field of a modal is indexed out of
  range; and the read loop's program is there when a handshake completes (with an open connection, as \<open>DialAndAuthCmd\<close> reports it).\<close>

theorem client_never_panics:
  assumes "client_reach L J day server (m, ps)"
  shows "Update L J day msg m \<noteq> None"
proof -
  have f: "modals_fine L m" using client_reach_inv[OF assms] by (simp add: client_inv_def)
  then have p: "m_program m" by (simp add: modals_fine_def)
  show ?thesis
  proof (cases "(\<exists>t e. msg = Session (LoginSucceeded t e)) \<or> (\<exists>x. msg = Chat x \<and> history_result x)")
    case True
    then show ?thesis using handleSessionExpiry_over[OF p, of L] events_loaded_same[where m = m]
      by (fastforce simp: Update_def updateSession_def updateChat_def room_failure_def setHistoryLoading_total quietly_def Let_def
          split: chat_msg.splits)
  next
    case False
    then have "fine_out L m (Update L J day msg m)" using f by (intro Update_fine) auto
    then show ?thesis by (auto simp: fine_out_def)
  qed
qed

text \<open>C35. History loading is single-flight: in every reachable state of a session at most one page request
  per room is in flight, and none while the room's latch is free, whatever the order of key presses,
  room switches, joins, frames, failures, disconnects and logins.\<close>

theorem one_history_fetch_per_room:
  assumes "client_reach L J day server (m, ps)" and "hasLiveSession m"
  shows "in_flight r (m_gen m) ps \<le> 1 \<and> (\<not> rh_loading (history_of m r) \<longrightarrow> in_flight r (m_gen m) ps = 0)"
proof -
  have "in_flight r (m_gen m) ps \<le> (if loading m r then 1 else 0)"
    using client_reach_inv[OF assms(1)] assms(2) by (simp add: client_inv_def hasLiveSession_def)
  then show ?thesis by (auto simp: loading_def split: if_splits)
qed

end
