(* ===== verification/ClientSession.thy ===== *)
theory ClientSession
  imports ClientApp
begin

text \<open>
  What the invariants of \<open>ClientApp\<close> do not cover: results of an earlier session, the two-press leave
  gesture, the boundary of the scrollback cap, and a session that ends twice. The concrete runs at the
  end sign in on a trivial text field and network and instantiate the theorems of \<open>ClientApp\<close>.
\<close>

section \<open>Results of an earlier session\<close>

fun msg_generation :: "tea_msg \<Rightarrow> generation option" where
  "msg_generation (Session (WSAuthSucceeded _ _ g)) = Some g"
| "msg_generation (Session (WSAuthRejected _ _ g)) = Some g"
| "msg_generation (Session (WSDialFailed _ g)) = Some g"
| "msg_generation (Session (WSAuthTimedOut g)) = Some g"
| "msg_generation (Session (WSDisconnected _ g)) = Some g"
| "msg_generation (Rooms (JoinedRoomsLoaded _ g)) = Some g"
| "msg_generation (Rooms (JoinedRoomsLoadFailed _ _ _ g)) = Some g"
| "msg_generation (Rooms (RoomsLoaded _ _ _ _ g)) = Some g"
| "msg_generation (Rooms (RoomsLoadFailed _ _ _ _ _ g)) = Some g"
| "msg_generation (Rooms (RoomJoined _ _ g)) = Some g"
| "msg_generation (Rooms (RoomJoinFailed _ _ _ _ g)) = Some g"
| "msg_generation (Rooms (RoomCreated _ g)) = Some g"
| "msg_generation (Rooms (RoomCreateFailed _ _ _ g)) = Some g"
| "msg_generation (Rooms (RoomLeft _ _ g)) = Some g"
| "msg_generation (Rooms (RoomLeaveFailed _ _ _ _ g)) = Some g"
| "msg_generation (Chat (RoomEventsLoaded _ _ _ _ g)) = Some g"
| "msg_generation (Chat (RoomEventsLoadFailed _ _ _ _ _ g)) = Some g"
| "msg_generation (Chat (WSFrameReceived _ _ g)) = Some g"
| "msg_generation (Chat (SendMessageSucceeded _ g _)) = Some g"
| "msg_generation (Chat (SendMessageFailed _ g _ _ _ _)) = Some g"
| "msg_generation _ = None"

text \<open>C36. A result of an earlier session changes nothing: whatever a handshake, a read loop or a room
  request of another login reports, a 401 included, the model stays as it is and no command is
  started; at most the connection of a stale handshake is closed.\<close>

theorem stale_results_ignored:
  assumes "msg_generation msg = Some g" and "g \<noteq> m_gen m"
  shows "Update L J day msg m =
    Some (m, case msg of Session (WSAuthSucceeded conn _ _) \<Rightarrow> [CClose conn] | _ \<Rightarrow> [])"
  using assms
  by (cases msg rule: msg_generation.cases)
    (simp_all add: Update_def updateSession_def updateRooms_def updateChat_def room_failure_def liveRoomResult_def)

section \<open>Leaving a room takes two presses\<close>

lemma HandleKey_leave:
  assumes "HandleKey st key = (st', OutcomeLeaveRoom)"
  shows "key = ''x'' \<and> ActiveID st \<noteq> [] \<and> rp_PendingLeaveID st = ActiveID st \<and> ActiveID st' = ActiveID st"
  using assms by (auto simp: HandleKey_def Let_def ActiveID_def split: if_splits)

lemma HandleKey_arms:
  assumes "HandleKey st key = (st', out)" "rp_PendingLeaveID st' \<noteq> []"
  shows "key = ''x'' \<and> rp_PendingLeaveID st' = ActiveID st \<and> ActiveID st' = ActiveID st"
proof (cases "key = ''x''")
  case True
  then show ?thesis using assms by (auto simp: HandleKey_def Let_def ActiveID_def split: if_splits)
next
  case False
  have c: "rp_PendingLeaveID (ClampCursor s) = rp_PendingLeaveID s" for s by (simp add: ClampCursor_def Let_def)
  have "rp_PendingLeaveID st' = []" using assms(1) False by (auto simp: HandleKey_def Let_def c split: if_splits)
  then show ?thesis using assms(2) by simp
qed

text \<open>Leaving is a two-press gesture: when a key makes the Rooms pane ask to leave, it and the key before
  it were both \<open>x\<close>, and the room to leave is the one that was under the cursor at both presses.\<close>

theorem leave_takes_two_presses:
  assumes "HandleKey st k1 = (st1, out1)" and "HandleKey st1 k2 = (st2, OutcomeLeaveRoom)"
  shows "k1 = ''x'' \<and> k2 = ''x'' \<and> ActiveID st \<noteq> [] \<and> ActiveID st1 = ActiveID st \<and> ActiveID st2 = ActiveID st"
proof -
  have b: "k2 = ''x''" "ActiveID st1 \<noteq> []" "rp_PendingLeaveID st1 = ActiveID st1" "ActiveID st2 = ActiveID st1"
    using HandleKey_leave[OF assms(2)] by auto
  then have "rp_PendingLeaveID st1 \<noteq> []" by simp
  from HandleKey_arms[OF assms(1) this] b show ?thesis by simp
qed

section \<open>The cap of the scrollback\<close>

lemma insert_older_full:
  assumes "ascending b" "length b = cap" "\<forall>x\<in>set b. ms_ID e < ms_ID x"
  shows "insertOrdered b e cap = (b, True, 1)"
proof -
  have "fst (insertOrdered b e cap) = b"
    using assms place_low[OF assms(3)] newest_append[of cap b "[e]"]
    by (simp add: insertOrdered_place(1) newest_id)
  moreover have "snd (insertOrdered b e cap) = (True, 1)"
    using assms place_low[OF assms(3)] by (auto simp: insertOrdered_place(2))
  ultimately show ?thesis by (metis prod.collapse)
qed

lemma append_older_full:
  fixes m :: "'ti app"
  assumes "ascending (bucket_of m r)" "length (bucket_of m r) = eventBucketCap" "\<forall>x\<in>set (bucket_of m r). ms_ID e < ms_ID x"
  shows "bucket_of (appended r e m) r = bucket_of m r
    \<and> history_of (appended r e m) r = (history_of m r)\<lparr>rh_fetched := True,
        rh_next := client_event_string (ms_ID (hd (bucket_of m r))), rh_exhausted := False\<rparr>"
proof -
  have ne: "bucket_of m r \<noteq> []" using assms(2) by (auto simp: eventBucketCap_def)
  then obtain b bs where b: "bucket_of m r = b # bs" by (cases "bucket_of m r") auto
  show ?thesis
    using insert_older_full[OF assms] b
    by (simp add: appended_def Let_def healed_def bucket_of_def history_of_def set_history_def
        split: option.splits)
qed

text \<open>A page of older entries merged into a full bucket.\<close>

lemma older_page_full:
  fixes m :: "'ti app"
  assumes "ascending b" and "length b = eventBucketCap" and "evs \<noteq> []"
    and "\<forall>e\<in>set evs. \<forall>x\<in>set b. tv_EventID e < ms_ID x" and "bucket_of m r = b"
  shows "\<exists>m'. for_each (appendTimelineEvent r) evs m = Some m' \<and> bucket_of m' r = b
    \<and> \<not> rh_exhausted (history_of m' r) \<and> rh_next (history_of m' r) = client_event_string (ms_ID (hd b))"
  using assms(3-5)
proof (induction evs arbitrary: m)
  case (Cons e es)
  obtain m1 where m1: "appendTimelineEvent r e m = Some m1" "bucket_of m1 r = b" "\<not> rh_exhausted (history_of m1 r)"
      "rh_next (history_of m1 r) = client_event_string (ms_ID (hd b))"
    using append_older_full[of m r] assms(1,2) Cons.prems by (simp add: appendTimelineEvent_def appendEvent_total)
  show ?case using m1 Cons.IH[OF _ _ m1(2)] Cons.prems(2) by (cases "es = []") auto
qed simp

text \<open>C38. Once a room's bucket is full, scrolling up shows nothing older, however often. Take a live session whose
  active room has a full bucket and whose backfill cursor is the bucket's oldest entry (where every trim
  puts it), and let scrolling up request a page: it is requested from that cursor. When it arrives, with
  entries older than the bucket and no frame having come in between, the merge leaves the bucket exactly as it was and the
  cursor where it was, and scrolling up again requests the same page of the same room once more. (The comment
  on \<open>eventBucketCap\<close> says that the trimmed region can be re-fetched by scrolling up.)\<close>

theorem full_bucket_hides_history:
  fixes m :: "'ti app"
  assumes "hasLiveSession m" and "r = m_activeRoomID m"
    and "ascending (bucket_of m r)" and "length (bucket_of m r) = eventBucketCap"
    and "rh_next (history_of m r) = client_event_string (ms_ID (hd (bucket_of m r)))"
    and "fetchOlder m = Some (m1, [CLoadEvents t r before g])"
    and "evs \<noteq> []" and "\<forall>e\<in>set evs. \<forall>x\<in>set (bucket_of m r). tv_EventID e < ms_ID x"
  shows "before = client_event_string (ms_ID (hd (bucket_of m r)))
    \<and> (\<exists>m2 m3. Update L J day (Chat (RoomEventsLoaded r evs nxt before g)) m1 = Some (m2, [])
        \<and> bucket_of m2 r = bucket_of m r \<and> rh_next (history_of m2 r) = before
        \<and> fetchOlder m2 = Some (m3, [CLoadEvents t r before g]))"
proof -
  define b where "b = bucket_of m r"
  have f: "m1 = set_history r ((history_of m r)\<lparr>rh_loading := True\<rparr>) m" "t = m_token m" "g = m_gen m"
      "before = client_event_string (ms_ID (hd b))" "before \<noteq> []"
    using assms(2,5,6) by (auto simp: fetchOlder_def Let_def b_def split: if_splits)
  have live: "liveRoomResult m1 g" using assms(1) by (simp add: liveRoomResult_def hasLiveSession_def f)
  have b1: "bucket_of m1 r = b" by (simp add: f(1) set_history_def bucket_of_def b_def)
  define h where "h = (history_of m1 r)\<lparr>rh_loading := False, rh_fetched := True, rh_next := nxt, rh_exhausted := (nxt = [])\<rparr>"
  obtain m' where m': "for_each (appendTimelineEvent r) evs (set_history r h m1) = Some m'" "bucket_of m' r = b"
      "\<not> rh_exhausted (history_of m' r)" "rh_next (history_of m' r) = before"
    using older_page_full[of b evs "set_history r h m1" r] assms(3,4,7,8) b1
    by (auto simp: b_def f(4) set_history_def bucket_of_def)
  define m2 where "m2 = reanchor day (activeLines day m1) m'"
  have e: "events_loaded day r evs nxt before m1 = Some m2"
    using m'(1) f(5) by (simp add: events_loaded_def Let_def h_def m2_def)
  then have s: "same_session m1 m2" "\<not> rh_loading (history_of m2 r)"
    using events_loaded_same[of day r evs nxt before m1] by (auto simp: loading_def)
  have m2: "bucket_of m2 r = b" "\<not> rh_exhausted (history_of m2 r)" "rh_next (history_of m2 r) = before"
    using m' by (simp_all add: m2_def reanchor_def Let_def bucket_of_def history_of_def)
  have "fetchOlder m2 = Some (set_history r ((history_of m2 r)\<lparr>rh_loading := True\<rparr>) m2, [CLoadEvents t r before g])"
    using s m2(2,3) f assms(2) by (simp add: fetchOlder_def Let_def same_session_def)
  moreover have "Update L J day (Chat (RoomEventsLoaded r evs nxt before g)) m1 = Some (m2, [])"
    using live e by (simp add: Update_def updateChat_def quietly_def)
  ultimately show ?thesis using m2(1,3) f(4) by (auto simp: b_def)
qed

section \<open>A session that ends twice\<close>

text \<open>An expired token closes the socket, so the read loop of the session then reports its disconnect. The
  generation has not changed, so the report is not stale: it ends the session again, with no e-mail
  address left to prefill, and replaces whatever modal is open by then.\<close>

lemma expiry_then_disconnect:
  assumes "handleSessionExpiry L m = Some (m1, cs)"
    and "m2 = m1\<lparr>m_modal := d\<rparr>"
  shows "\<exists>m3 cs'. Update L J day (Session (WSDisconnected e (m_gen m))) m2 = Some (m3, cs')
    \<and> m_modal m3 = openLoginModalWithError L m3 (''Connection lost '' @ em_dash @ '' please sign in again'') []"
proof -
  obtain m' where r: "resetSession L m = (m', m_email m)" "m_email m' = []" "m_gen m' = m_gen m"
    by (simp add: resetSession_def)
  have m1: "m_email m1 = []" "m_gen m1 = m_gen m"
    using assms(1) by (auto simp: handleSessionExpiry_def lost_session_def resetSession_def open_modal_def bind_eq_Some_conv)
  define h where "h = ''Connection lost '' @ em_dash @ '' please sign in again''"
  obtain m2' where m2': "resetSession L m2 = (m2', [])" "m_server m2' = m_server m2"
    using m1 assms(2) by (simp add: resetSession_def)
  obtain d' where d': "openLoginModalWithError L m2' h [] = Some d'" using openLoginModalWithError_ok by blast
  have eq: "openLoginModalWithError L (m2'\<lparr>m_modal := x\<rparr>) h [] = openLoginModalWithError L m2' h []" for x
    by (simp add: openLoginModalWithError_def)
  have "Update L J day (Session (WSDisconnected e (m_gen m))) m2 = Some (open_modal d' m2')"
    using m1(2) assms(2) m2' d' by (simp add: Update_def updateSession_def lost_session_def h_def)
  then show ?thesis using eq d' by (simp add: open_modal_def h_def)
qed

text \<open>A catalogue page that arrives while a join is in flight unlocks the search modal.\<close>

lemma page_unlocks_join:
  assumes "se_phase m = SearchJoining" and "query = trimmedFilter L m"
  shows "\<exists>m'. search_Update L (Rooms (RoomsLoaded rooms nxt query [] g)) m = Some (Some m', []) \<and> se_phase m' = SearchIdle"
  using assms by (simp add: search_Update_def search_RoomsLoaded_def Let_def clampCursor_def)

section \<open>Concrete runs\<close>

definition demo_ui :: "string ui_lib" where
  "demo_ui = \<lparr>ui_new = \<lambda>_ _ _ _ _. ''ann'', ui_zero = [], ui_Value = \<lambda>x. x, ui_SetValue = \<lambda>v _. v,
     ui_SetWidth = \<lambda>_ x. x, ui_Focus = \<lambda>x. x, ui_Blur = \<lambda>x. x, ui_Update = \<lambda>_ x. (x, False),
     ui_lower = \<lambda>s. s, ui_is_print = \<lambda>_. True\<rparr>"

definition demo_json :: client_json where
  "demo_json = \<lparr>cj_marshal = \<lambda>_. Ok [], cj_envelope = \<lambda>_. Err [], cj_login = \<lambda>_. Ok ''tok'', cj_rooms = \<lambda>_. Err [],
     cj_success = \<lambda>_. Err [], cj_send = \<lambda>_. Err [], cj_room = \<lambda>_. Err [], cj_events = \<lambda>_. Err [],
     cj_type = \<lambda>_. Ok ''auth_ok'', cj_message = \<lambda>_. Err [], cj_member = \<lambda>_. Err [], cj_error = \<lambda>_. Err [],
     cj_sub = \<lambda>_. Err [], cj_base64_raw = \<lambda>_. None, cj_base64_padded = \<lambda>_. None, cj_is_print = \<lambda>_. True,
     cj_quote = \<lambda>s. s\<rparr>"

definition demo_net :: client_net where
  "demo_net = \<lparr>cn_json = demo_json, cn_http = \<lambda>_. HttpResponse 200 [] [],
     cn_parse_url = \<lambda>_. Ok \<lparr>pu_Scheme = ''http'', pu_Host = ''h'', pu_Path = [], pu_RawQuery = [], pu_Fragment = []\<rparr>,
     cn_ws = \<lparr>wd_dial = \<lambda>_. Ok 7, wd_write = None, wd_arm = None, wd_read = Ok [], wd_clear = None\<rparr>, cn_clock = 0\<rparr>"

definition demo_start :: "string app \<times> cmd list" where
  "demo_start = (OpenLoginModal demo_ui (SetProgram (app_New demo_ui ''http://h'' 0)), app_Init)"

theorem client_never_panics_witness:
  "Update demo_ui demo_json (\<lambda>_. []) (Chrome (KeyMsg \<lparr>k_String = ''enter'', k_Runes = []\<rparr>)) (fst demo_start) \<noteq> None"
proof -
  have "client_reach demo_ui demo_json (\<lambda>_. []) ''http://h'' (fst demo_start, snd demo_start)"
    unfolding demo_start_def fst_conv snd_conv by (rule client_reach.start)
  then show ?thesis by (rule client_never_panics)
qed

lemmas demo_client_eval = Update_def updateChrome_def updateSession_def handleKey_def to_modal_def modal_Update_def login_Update_def
  login_handleKey_def login_inFlight_def focus_shortcuts_def at_input_def OpenLoginModal_def SetProgram_def app_New_def
  login_New_def emailSlot_def passwordSlot_def maxMailAddressBytes_def client_maxPasswordBytes_def advanceLoginToConnecting_def
  SetConnecting_def enter_session_def load_joined_def

lemma demo_trim: "trim_space ''ann'' = ''ann''"
  by (rule trim_space_ascii_id) (simp_all add: is_space_def)

text \<open>Signing in: enter, the HTTP login, the handshake.\<close>

lemma demo_enter:
  "\<exists>m1 lm. Update demo_ui demo_json day (Chrome (KeyMsg \<lparr>k_String = ''enter'', k_Runes = []\<rparr>)) (fst demo_start)
      = Some (m1, [CLogin ''ann'' ''ann''])
    \<and> m_modal m1 = Some (LoginModal lm) \<and> m_gen m1 = 0 \<and> m_program m1 \<and> m_server m1 = ''http://h''"
  by (simp add: demo_client_eval demo_start_def demo_ui_def demo_trim Let_def)

lemma demo_login_cmd: "perform_cmd demo_net ''http://h'' (CLogin ''ann'' ''ann'') = Some (Session (LoginSucceeded ''tok'' ''ann''))"
  unfolding perform_cmd.simps LoginCmd_def by (simp add: demo_net_def demo_json_def demo_trim)

lemma demo_dial_cmd: "perform_cmd demo_net ''http://h'' (CDial ''tok'' 1) = Some (Session (WSAuthSucceeded 7 [] 1))"
  by (simp add: demo_net_def demo_json_def DialAndAuthCmd_def wsURL_def DecodeSub_def)

lemma demo_live: "\<exists>m ps. client_reach demo_ui demo_json day ''http://h'' (m, ps) \<and> hasLiveSession m \<and> m_gen m = 1"
proof -
  obtain m1 lm where m1: "Update demo_ui demo_json day (Chrome (KeyMsg \<lparr>k_String = ''enter'', k_Runes = []\<rparr>)) (fst demo_start)
      = Some (m1, [CLogin ''ann'' ''ann''])"
    and f1: "m_modal m1 = Some (LoginModal lm)" "m_gen m1 = 0" "m_program m1" "m_server m1 = ''http://h''"
    using demo_enter by blast
  have r0: "client_reach demo_ui demo_json day ''http://h'' (fst demo_start, app_Init)"
    unfolding demo_start_def fst_conv by (rule client_reach.start)
  have r1: "client_reach demo_ui demo_json day ''http://h'' (m1, app_Init @ [CLogin ''ann'' ''ann''])"
    by (rule client_reach.step[OF r0 client_step.user[OF m1]])
  obtain m2 where u2: "Update demo_ui demo_json day (Session (LoginSucceeded ''tok'' ''ann'')) m1 = Some (m2, [CDial ''tok'' 1])"
    and f2: "m_modal m2 = Some (LoginModal (SetConnecting lm))" "m_gen m2 = 1" "m_program m2" "m_server m2 = ''http://h''"
      "m_token m2 = ''tok''"
    using f1 by (simp add: Update_def updateSession_def Let_def advanceLoginToConnecting_def)
  have "client_step demo_ui demo_json day (m1, app_Init @ [CLogin ''ann'' ''ann''])
      (m2, remove1 (CLogin ''ann'' ''ann'') (app_Init @ [CLogin ''ann'' ''ann'']) @ [CDial ''tok'' 1])"
    by (rule client_step.complete[where N = demo_net, OF _ _ u2]) (simp_all add: f1(4) demo_login_cmd del: perform_cmd.simps)
  then have r2: "client_reach demo_ui demo_json day ''http://h'' (m2, app_Init @ [CDial ''tok'' 1])"
    using client_reach.step[OF r1] by (simp add: app_Init_def)
  obtain m3 cs where u3: "Update demo_ui demo_json day (Session (WSAuthSucceeded 7 [] 1)) m2 = Some (m3, cs)"
    and f3: "hasLiveSession m3" "m_gen m3 = 1"
    using f2 by (simp add: Update_def updateSession_def enter_session_def hasLiveSession_def)
  have "client_step demo_ui demo_json day (m2, app_Init @ [CDial ''tok'' 1])
      (m3, remove1 (CDial ''tok'' 1) (app_Init @ [CDial ''tok'' 1]) @ cs)"
    by (rule client_step.complete[where N = demo_net, OF _ _ u3]) (simp_all add: f2(4) demo_dial_cmd [unfolded One_nat_def] del: perform_cmd.simps)
  then show ?thesis using client_reach.step[OF r2] f3 by blast
qed

theorem one_history_fetch_per_room_witness:
  "\<exists>m ps. client_reach demo_ui demo_json (\<lambda>_. []) ''http://h'' (m, ps) \<and> hasLiveSession m \<and> in_flight ''R1'' 1 ps \<le> 1"
proof -
  obtain m ps where r: "client_reach demo_ui demo_json (\<lambda>_. []) ''http://h'' (m, ps)" "hasLiveSession m" "m_gen m = 1"
    using demo_live by blast
  from one_history_fetch_per_room[OF r(1,2), of "''R1''"] r show ?thesis by auto
qed

theorem stale_results_ignored_witness:
  "Update demo_ui demo_json (\<lambda>_. []) (Chat (WSFrameReceived ''message'' [] 9)) (fst demo_start) = Some (fst demo_start, [])"
  using stale_results_ignored[of "Chat (WSFrameReceived ''message'' [] 9)" 9 "fst demo_start" demo_ui demo_json "\<lambda>_. []"]
  by (simp add: demo_start_def OpenLoginModal_def SetProgram_def app_New_def)

theorem leave_takes_two_presses_witness:
  "ActiveID (fst (HandleKey (fst (HandleKey (zero_rooms\<lparr>rp_JoinedIDs := [''R1'']\<rparr>) ''x'')) ''x'')) = ''R1''"
proof -
  define st where "st = zero_rooms\<lparr>rp_JoinedIDs := [''R1'']\<rparr>"
  have a: "HandleKey st ''x'' = (st\<lparr>rp_PendingLeaveID := ''R1''\<rparr>, OutcomeNone)"
    by (simp add: st_def HandleKey_def Let_def ActiveID_def zero_rooms_def)
  have b: "HandleKey (st\<lparr>rp_PendingLeaveID := ''R1''\<rparr>) ''x'' = (st, OutcomeLeaveRoom)"
    by (simp add: st_def HandleKey_def Let_def ActiveID_def zero_rooms_def)
  show ?thesis
    using leave_takes_two_presses[OF a b] by (simp add: st_def [symmetric] a b) (simp add: st_def ActiveID_def zero_rooms_def)
qed

lemma digits_01: "char_of (48::nat) = CHR ''0''" "char_of (49::nat) = CHR ''1''"
  by code_simp+

lemma demo_bucket_ascending: "ascending (map (\<lambda>n. demo_message (int n)) [a..<b])"
  by (simp add: ascending_def comp_def demo_message_def sorted_wrt_map sorted_wrt_upt)

definition demo_full :: "string app" where
  "demo_full = (fst demo_start)\<lparr>m_token := ''tok'', m_conn := Some 7, m_activeRoomID := ''R1'',
     m_messages := Some [''R1'' \<mapsto> map (\<lambda>n. demo_message (int n)) [1000..<2000]],
     m_histories := Some [''R1'' \<mapsto> \<lparr>rh_fetched = True, rh_loading = False, rh_next = ''1000'', rh_exhausted = False\<rparr>]\<rparr>"

theorem full_bucket_hides_history_witness:
  "\<exists>m1 m2 m3. fetchOlder demo_full = Some (m1, [CLoadEvents ''tok'' ''R1'' ''1000'' 0])
    \<and> Update demo_ui demo_json (\<lambda>_. []) (Chat (RoomEventsLoaded ''R1''
      [\<lparr>tv_EventID = 999, tv_Kind = TimelineMessage, tv_Person = \<lparr>ur_ID = ''U1'', ur_Name = ''ann''\<rparr>, tv_Text = ''hi'', tv_At = 0\<rparr>]
      ''999'' ''1000'' 0)) m1 = Some (m2, [])
    \<and> fetchOlder m2 = Some (m3, [CLoadEvents ''tok'' ''R1'' ''1000'' 0])"
proof -
  note no_upt = upt_rec_numeral
  define b where "b = bucket_of demo_full ''R1''"
  have eq: "b = map (\<lambda>n. demo_message (int n)) [1000..<2000]"
    by (simp add: b_def demo_full_def bucket_of_def map_get_def del: no_upt)
  have asc: "ascending b" unfolding eq by (rule demo_bucket_ascending)
  have len: "length b = eventBucketCap" by (simp add: eq eventBucketCap_def del: no_upt)
  have live: "hasLiveSession demo_full" and act: "''R1'' = m_activeRoomID demo_full"
    by (simp_all add: demo_full_def demo_start_def OpenLoginModal_def SetProgram_def app_New_def hasLiveSession_def del: no_upt)
  have "ms_ID (hd b) = 1000" by (simp add: eq hd_map demo_message_def del: no_upt)
  then have h: "client_event_string (ms_ID (hd b)) = ''1000''"
    by (simp add: client_event_string_def format_int_def format_nat.simps digit_char_def digits_01)
  have nxt: "rh_next (history_of demo_full ''R1'') = client_event_string (ms_ID (hd b))"
    unfolding h by (simp add: demo_full_def history_of_def map_get_def del: no_upt)
  obtain m1 where f: "fetchOlder demo_full = Some (m1, [CLoadEvents ''tok'' ''R1'' ''1000'' 0])"
    by (simp add: fetchOlder_def act [symmetric] Let_def)
      (simp add: demo_full_def demo_start_def OpenLoginModal_def SetProgram_def app_New_def history_of_def map_get_def
        set_history_def del: no_upt)
  have older: "\<forall>e\<in>set [\<lparr>tv_EventID = 999, tv_Kind = TimelineMessage, tv_Person = \<lparr>ur_ID = ''U1'', ur_Name = ''ann''\<rparr>,
      tv_Text = ''hi'', tv_At = 0\<rparr>]. \<forall>x\<in>set b. tv_EventID e < ms_ID x"
    by (auto simp: eq demo_message_def simp del: no_upt)
  show ?thesis
    using full_bucket_hides_history[OF live act asc[unfolded b_def] len[unfolded b_def] nxt[unfolded b_def] f _ older[unfolded b_def],
        of demo_ui demo_json "\<lambda>_. []" "''999''"] f by auto
qed

end
