(* ===== verification/ClientWire.thy ===== *)
theory ClientWire
  imports ClientApi GatewayRooms Connection
begin

text \<open>
  The two ends of the wire put together: what \<open>internal/gateway\<close> and \<open>internal/actor/connection\<close> write
  against what \<open>cmd/client/internal/api\<close> reads. The client declares its own copies of the wire structs;
  the functions \<open>wire_event\<close> and \<open>wire_message\<close> say which field of the one is which field of the other
  (the JSON names are equal), and the hypotheses of the theorems are the round trip of \<open>encoding/json\<close>
  on them.
\<close>

section \<open>A history page\<close>

definition wire_ref :: "event_person \<Rightarrow> UserRef" where
  "wire_ref p = \<lparr>ur_ID = ep_ID p, ur_Name = ep_Name p\<rparr>"

definition wire_event :: "room_event \<Rightarrow> RoomEvent" where
  "wire_event e = \<lparr>ev_ID = rv_ID e, ev_Type = rv_Type e, ev_Sender = map_option wire_ref (rv_Sender e),
     ev_User = map_option wire_ref (rv_User e), ev_Text = rv_Text e, ev_Timestamp = rv_Timestamp e\<rparr>"

fun timeline_kind :: "entry_kind \<Rightarrow> TimelineKind" where
  "timeline_kind EntryMessage = TimelineMessage"
| "timeline_kind EntryMemberJoined = TimelineJoined"
| "timeline_kind EntryMemberLeft = TimelineLeft"

text \<open>What the client should make of an entry: its id, its kind, the public code and name of the person, the
  text of a message, and the time to the millisecond.\<close>

definition client_entry :: "timeline_entry \<Rightarrow> TimelineEvent" where
  "client_entry e = \<lparr>tv_EventID = event_int64 (te_ID e), tv_Kind = timeline_kind (te_Kind e),
     tv_Person = \<lparr>ur_ID = FormatUser (tu_Code (te_User e)), ur_Name = tu_Name (te_User e)\<rparr>,
     tv_Text = (if te_Kind e = EntryMessage then te_Text e else []),
     tv_At = millisToTime (unix_milli (te_OccurredAt e))\<rparr>"

definition sound_id :: "event_id \<Rightarrow> bool" where
  "sound_id e \<longleftrightarrow> 0 < event_int64 e \<and> event_int64 e \<le> max_int64"

lemma client_parse_event_string: "sound_id e \<Longrightarrow> client_ParseEventID (event_string e) = Ok (event_int64 e)"
  using parse_int_format_int[of "event_int64 e"]
  by (simp add: sound_id_def client_ParseEventID_def client_NewEventID_def event_string_def min_int64_def max_int64_def)

lemma parse_server_event:
  assumes "sound_id (te_ID e)"
  shows "parseTimelineEvents (wire_event (toRoomEvent e) # ws)
    = bind_res (parseTimelineEvents ws) (\<lambda>rest. Ok (client_entry e # rest))"
  using client_parse_event_string[OF assms]
  by (cases "te_Kind e") (simp_all add: toRoomEvent_def wire_event_def wire_ref_def client_entry_def Let_def)

lemma parse_server_events:
  "list_all (\<lambda>e. sound_id (te_ID e)) entries \<Longrightarrow>
   parseTimelineEvents (map wire_event (toRoomEvents entries)) = Ok (map client_entry entries)"
  by (induction entries) (simp_all add: toRoomEvents_def parse_server_event del: parseTimelineEvents.simps(2))

text \<open>C39. A page of history survives the wire: when the server answers a page request with the entries of
  the timeline and the client decodes that body, the load command reports exactly those entries in the
  server's order, with the ids, kinds, people, texts and times of the journal, the continuation cursor
  and the request's own room, cursor and session.\<close>

theorem history_page_roundtrip:
  assumes "T \<lparr>hq_method = ''GET'', hq_url = trim_right_slash server @ events_path roomID before,
              hq_bearer = Some token, hq_body = None\<rparr> = HttpResponse 200 line raw"
    and "length raw \<le> defaultReadLimitBytes"
    and "cj_events J raw = Ok (map wire_event (toRoomEvents entries), nxt)"
    and "list_all (\<lambda>e. sound_id (te_ID e)) entries"
  shows "LoadEventsCmd J T server token roomID before g =
    RoomEventsLoaded roomID (map client_entry entries) (case nxt of None \<Rightarrow> [] | Some n \<Rightarrow> n) before g"
  using assms parse_server_events[OF assms(4)]
  by (simp add: LoadEventsCmd_def doRoomRequest_def)

section \<open>A live frame\<close>

definition field_str :: "frame \<Rightarrow> string \<Rightarrow> string" where
  "field_str f k = (case map_of f k of Some (FStr s) \<Rightarrow> s | _ \<Rightarrow> [])"

definition field_num :: "frame \<Rightarrow> string \<Rightarrow> int" where
  "field_num f k = (case map_of f k of Some (FNum n) \<Rightarrow> n | _ \<Rightarrow> 0)"

definition field_ref :: "frame \<Rightarrow> string \<Rightarrow> UserRef" where
  "field_ref f k = (case map_of f k of Some (FRef r) \<Rightarrow> \<lparr>ur_ID = cr_ID r, ur_Name = cr_Name r\<rparr> | _ \<Rightarrow> \<lparr>ur_ID = [], ur_Name = []\<rparr>)"

definition wire_message :: "frame \<Rightarrow> message_frame" where
  "wire_message f = \<lparr>mf_Type = field_str f ''type'', mf_RoomID = field_str f ''room_id'', mf_EventID = field_str f ''event_id'',
     mf_Sender = field_ref f ''sender'', mf_Text = field_str f ''text'', mf_Timestamp = field_num f ''timestamp''\<rparr>"

lemma decode_server_message:
  assumes "encodeOutboundMessage (OChatDelivered room sender body t (event_string e)) = Some (f, label)"
    and "cj_message J raw = Ok (wire_message f)" and "sound_id e"
  shows "DecodeChatMessage J raw = Some \<lparr>cm_RoomID = room, cm_Sender = \<lparr>ur_ID = cr_ID sender, ur_Name = cr_Name sender\<rparr>,
    cm_Text = body, cm_EventID = event_int64 e, cm_At = millisToTime (timestampMillis t)\<rparr>"
  using assms client_parse_event_string[OF assms(3)]
  by (auto simp: DecodeChatMessage_def encodeOutboundMessage_def encodeMessage_def wire_message_def field_str_def
      field_num_def field_ref_def)

text \<open>C40. A message that reaches the client twice, as a live frame and in a page of history, is the same
  scrollback entry both times: decoding the frame the connection actor encodes and decoding the entry
  the history handler serves update the client in exactly the same way, so that the second arrival is
  a duplicate by id and content.\<close>

theorem live_frame_matches_history:
  assumes "te_Kind entry = EntryMessage" and "sound_id (te_ID entry)" and "te_OccurredAt entry \<noteq> zero_time"
    and "encodeOutboundMessage (OChatDelivered room
           \<lparr>cr_ID = FormatUser (tu_Code (te_User entry)), cr_Name = tu_Name (te_User entry)\<rparr>
           (te_Text entry) (te_OccurredAt entry) (event_string (te_ID entry))) = Some (f, label)"
    and "cj_message J raw = Ok (wire_message f)"
    and "DecodeChatMessage J raw = Some cm"
    and "parseTimelineEvents [wire_event (toRoomEvent entry)] = Ok [te]"
  shows "\<exists>m'. appendChatMessage cm m = Some m' \<and> appendTimelineEvent room te m = Some m'"
proof -
  have te: "te = client_entry entry"
    using parse_server_events[of "[entry]"] assms(2,7) by (simp add: toRoomEvents_def)
  have "cm = \<lparr>cm_RoomID = room,
      cm_Sender = \<lparr>ur_ID = FormatUser (tu_Code (te_User entry)), ur_Name = tu_Name (te_User entry)\<rparr>,
      cm_Text = te_Text entry, cm_EventID = event_int64 (te_ID entry),
      cm_At = millisToTime (timestampMillis (te_OccurredAt entry))\<rparr>"
    using decode_server_message[OF assms(4,5,2)] assms(6) by simp
  then show ?thesis
    using assms(1,3)
    by (simp add: te appendChatMessage_def appendTimelineEvent_def client_entry_def timestampMillis_def unix_milli_def
        appendEvent_total)
qed

section \<open>Concrete instances\<close>

definition null_json :: client_json where
  "null_json = \<lparr>cj_marshal = \<lambda>_. Ok [], cj_envelope = \<lambda>_. Err [], cj_login = \<lambda>_. Ok ''tok'', cj_rooms = \<lambda>_. Err [],
     cj_success = \<lambda>_. Err [], cj_send = \<lambda>_. Err [], cj_room = \<lambda>_. Err [], cj_events = \<lambda>_. Err [], cj_type = \<lambda>_. Ok ''auth_ok'',
     cj_message = \<lambda>_. Err [], cj_member = \<lambda>_. Err [], cj_error = \<lambda>_. Err [], cj_sub = \<lambda>_. Err [],
     cj_base64_raw = \<lambda>_. None, cj_base64_padded = \<lambda>_. None, cj_is_print = \<lambda>_. True, cj_quote = \<lambda>s. s\<rparr>"

definition demo_entry :: timeline_entry where
  "demo_entry = \<lparr>te_ID = EventID 42, te_Kind = EntryMessage, te_User = \<lparr>tu_Code = PublicCode ''0A1'', tu_Name = ''ann''\<rparr>,
     te_Text = ''hi'', te_OccurredAt = 1767225600000000000\<rparr>"

theorem history_page_roundtrip_witness:
  "LoadEventsCmd (null_json\<lparr>cj_events := \<lambda>_. Ok (map wire_event (toRoomEvents [demo_entry]), None)\<rparr>)
     (\<lambda>_. HttpResponse 200 [] []) ''http://h'' ''tok'' ''R1'' [] 1 = RoomEventsLoaded ''R1'' [client_entry demo_entry] [] [] 1"
  using history_page_roundtrip[of "\<lambda>_. HttpResponse 200 [] []" "''http://h''" "''R1''" "[]" "''tok''" "[]" "[]"
      "null_json\<lparr>cj_events := \<lambda>_. Ok (map wire_event (toRoomEvents [demo_entry]), None)\<rparr>" "[demo_entry]" None 1]
  by (simp add: demo_entry_def sound_id_def max_int64_def)

definition demo_frame :: frame where
  "demo_frame = encodeMessage ''R1'' \<lparr>cr_ID = FormatUser (PublicCode ''0A1''), cr_Name = ''ann''\<rparr> ''hi''
     (timestampMillis 1767225600000000000) (event_string (EventID 42))"

theorem live_frame_matches_history_witness:
  "\<exists>m'. appendChatMessage (the (DecodeChatMessage (null_json\<lparr>cj_message := \<lambda>_. Ok (wire_message demo_frame)\<rparr>) []))
     (demo_chat [] 0) = Some m'
   \<and> appendTimelineEvent ''R1'' (client_entry demo_entry) (demo_chat [] 0) = Some m'"
proof -
  have id: "sound_id (te_ID demo_entry)" by (simp add: demo_entry_def sound_id_def max_int64_def)
  have enc: "encodeOutboundMessage (OChatDelivered ''R1''
      \<lparr>cr_ID = FormatUser (tu_Code (te_User demo_entry)), cr_Name = tu_Name (te_User demo_entry)\<rparr>
      (te_Text demo_entry) (te_OccurredAt demo_entry) (event_string (te_ID demo_entry))) = Some (demo_frame, ''message'')"
    by (simp add: encodeOutboundMessage_def demo_frame_def demo_entry_def)
  have j: "cj_message (null_json\<lparr>cj_message := \<lambda>_. Ok (wire_message demo_frame)\<rparr>) [] = Ok (wire_message demo_frame)" by simp
  obtain cm where cm: "DecodeChatMessage (null_json\<lparr>cj_message := \<lambda>_. Ok (wire_message demo_frame)\<rparr>) [] = Some cm"
    using decode_server_message[OF enc j id] by blast
  have te: "parseTimelineEvents [wire_event (toRoomEvent demo_entry)] = Ok [client_entry demo_entry]"
    using parse_server_events[of "[demo_entry]"] id by (simp add: toRoomEvents_def)
  have k: "te_Kind demo_entry = EntryMessage" "te_OccurredAt demo_entry \<noteq> zero_time"
    by (simp_all add: demo_entry_def zero_time_def)
  show ?thesis using live_frame_matches_history[OF k(1) id k(2) enc j cm te, of "demo_chat [] 0"] cm by simp
qed

end
