(* ===== verification/Spec2Isabelle.thy ===== *)
theory Spec2Isabelle
  imports LiveDelivery Observability DocsPreview ApiHistory ConnectionProtocol WorkerLease Maintenance ClientSession ClientWire
begin

text \<open>
  Verification of blabby, a chat system: an HTTP and WebSocket gateway in front of virtual actors
  (Proto.Actor grains), over one PostgreSQL database, and its terminal client. Paths below are under
  \<open>src/\<close>.

  \<^bold>\<open>How the parts work together.\<close> A client logs in over HTTP (\<open>internal/gateway\<close>, \<open>internal/auth\<close>) and
  gets a token. Room commands arrive as HTTP requests; behind the authentication middleware the gateway
  resolves public codes to internal ids and calls the caller's User grain (\<open>internal/grain/user\<close>), which
  calls the Room grain of the room (\<open>internal/grain/room\<close>). The Room grain writes membership and events to
  the database in one transaction (\<open>internal/persistence\<close>) before it updates its cache and hands the event
  to a child that fans it out to the members' User grains, which forward it to their connections
  (\<open>internal/actor/connection\<close>), one actor per WebSocket. Ids come from a Snowflake generator
  (\<open>internal/snowflake\<close>) gated by a worker lease in the database (\<open>internal/persistence/workerlease\<close>).
  Accounts are registered, verified by an e-mailed PIN, and swept when abandoned (\<open>internal/gateway\<close>,
  \<open>internal/verification\<close>, \<open>internal/persistence/accountgc\<close>, \<open>internal/grain/maintenance\<close>). The terminal
  client (\<open>cmd/client\<close>) is one update function over messages: keys, and the results of the commands it
  started (HTTP calls, the WebSocket handshake, the read loop), each tagged with the login session it
  belongs to.

  \<^bold>\<open>Theories and sources.\<close>
  \<^item> \<open>GoPrelude\<close>: what the code uses of Go and its standard library (UTF-8, trimming, decimal integers,
    instants, maps), and the lemmas the components share.
  \<^item> \<open>Identifiers\<close> (\<open>internal/id\<close>), \<open>Snowflake\<close> (\<open>internal/snowflake\<close>), \<open>ErrCode\<close> (\<open>internal/errcode\<close>),
    \<open>DomainModel\<close> (\<open>internal/domain\<close>), \<open>Wire\<close> (the messages of \<open>gen/\<close> the grains exchange, with the parsers of
    their receivers).
  \<^item> \<open>Database\<close> (the tables, \<open>postgres/tx.go\<close>, \<open>user_repo.go\<close>, \<open>room_repo.go\<close>), \<open>Membership\<close>
    (\<open>membership_repo.go\<close>, \<open>journal.go\<close> and the stores of \<open>internal/grain/room\<close>), \<open>Timeline\<close> (\<open>timeline.go\<close> and
    the room catalogue), \<open>WorkerLease\<close> (\<open>workerlease\<close>).
  \<^item> \<open>RoomGrain\<close>, \<open>UserGrain\<close> (the two grains), \<open>Cluster\<close> (the calls between them), \<open>Connection\<close> and
    \<open>ConnectionProtocol\<close> (the connection actor, its pumps, and what they guarantee), \<open>LiveDelivery\<close> (the path
    of a message from the Room grain through the User grains to the sockets), \<open>Maintenance\<close> (the
    maintenance grain and its trigger).
  \<^item> \<open>Credentials\<close> (\<open>internal/auth/password.go\<close>, \<open>internal/verification/pin.go\<close>), \<open>Accounts\<close> and
    \<open>AccountLifecycle\<close> (\<open>verification_repo.go\<close>, \<open>registration.go\<close>, \<open>verification.go\<close>, \<open>accountgc\<close>),
    \<open>Authentication\<close> (\<open>internal/auth/jwt.go\<close>, \<open>user_directory.go\<close>).
  \<^item> \<open>Gateway\<close> and \<open>GatewayRooms\<close> (the handlers of \<open>internal/gateway\<close>), \<open>Api\<close> and \<open>ApiHistory\<close> (the handlers
    composed with middleware, grains and database), \<open>Routing\<close> (the route tables of \<open>gateway.go\<close> on the mux
    of \<open>net/http\<close>, \<open>handler_ws.go\<close>, and the two listeners composed with what stands behind them).
  \<^item> \<open>Delivery\<close> (the senders of \<open>internal/verification\<close> and their configuration), \<open>Bootstrap\<close> (flags and
    configuration: \<open>parseConfig\<close> of \<open>cmd/gateway\<close> and \<open>cmd/backend\<close>, \<open>clusterboot/config.go\<close>,
    \<open>postgres/config.go\<close>, \<open>cmd/gateway/cron.go\<close>, \<open>logging/setup.go\<close>), \<open>Process\<close> (\<open>main\<close>, \<open>run\<close> and \<open>serve\<close> of both
    servers as traces of what is opened and released), \<open>Observability\<close> (\<open>internal/middleware\<close>,
    \<open>internal/supervision\<close>, \<open>logging/minlevel.go\<close>, the subscribers of \<open>clusterboot\<close>), \<open>DocsPreview\<close>
    (\<open>cmd/docs-preview\<close>).
  \<^item> \<open>ClientScrollback\<close> (\<open>timeline\<close>, \<open>panes/mainview\<close>, \<open>chrome/layout.go\<close>, \<open>app/chat.go\<close>, \<open>app/scroll.go\<close> of
    \<open>cmd/client/internal\<close>), \<open>ClientApi\<close> (\<open>api\<close>), \<open>ClientModals\<close> (\<open>login\<close>, \<open>register\<close>, \<open>verify\<close>, \<open>roomsearch\<close>,
    \<open>createroom\<close>), \<open>ClientApp\<close> and \<open>ClientSession\<close> (\<open>app\<close>, \<open>panes/rooms\<close>), \<open>ClientWire\<close> (what the server
    writes against what the client reads).

  \<^bold>\<open>Modelling.\<close> A struct is a record, an interface the code calls through is a record of functions, a
  fallible call returns a sum with the error on the left, a panic is an error value or \<open>None\<close>. A map of the
  client that may be \<open>nil\<close> is an optional map (\<open>gomap\<close>): it reads as empty, and an assignment to it is \<open>None\<close>. The state a
  handler changes is passed and returned. SQL statements act on tables that are lists of rows and check
  the constraints of the schema. What a network, a server or a scheduler may do is an explicit argument:
  the \<open>outcome\<close> of a statement or a commit (acknowledged, failed, or applied with the reply lost), the
  \<open>rpc_env\<close> of a call between grains (lost, replied, grain activated anew), the databases a READ COMMITTED
  transaction's reads see (\<open>tx_context\<close>, and \<open>verify_step\<close> for the requests one pool can have in flight), the readings of a clock, random bytes. Concurrency is a step
  relation: \<open>conn_sys\<close> (actor and write pump), \<open>lstep\<close> (managers and the lease table with messages under
  way), \<open>areach\<close> (account operations in any interleaving), \<open>gc_step\<close> (triggers, workers and futures), \<open>client_step\<close>
  (the client's model with its pending commands, completing in any order with any reply of the network).

  \<^bold>\<open>Contracts.\<close> A locale states what one component relies on, and is interpreted on the model of the
  component that provides it: \<open>id_codec\<close> (three id types), \<open>membership_store\<close> (the Room grain's store, on the
  repository and the transaction), \<open>room_service\<close> (the User grain's view of Room grains, on the cluster),
  \<open>keyset\<close> (paging, for both orders), \<open>account_tx\<close> (the four account transactions), \<open>id_source\<close> (the
  generator), \<open>conn_invariant\<close> (predicates a connection's handlers keep), \<open>route_table\<close> (a mux built from
  sound route groups is the table one reads, for both listeners).

  \<^bold>\<open>What is shown.\<close>
  \<^item> Membership: the stores refine an abstract roster and write the journal with it; every room keeps
    exactly one owner; the grain's cache is the roster; errors change nothing; the decision of each
    command; who is notified. End to end, a \<open>PUT\<close> or \<open>DELETE\<close> of a membership answered 200 has taken effect
    in the table for the token's user, and no request touches another membership. The statements about the
    grains' caches name their condition: no commit was applied while its reply was lost (\<open>world_ok\<close>, \<open>api_ok\<close>,
    \<open>coherent\<close>); \<open>Cluster.stale_join_example\<close> shows what happens otherwise. A created room is found again
    under the code that was returned.
  \<^item> Messages and history: a message is durable before it is visible; after a post, exactly the ready
    connections of the members the fan-out reached write one frame with the text, id and time of the stored row,
    and one whose queue is full is stopped; rows are appended in id order; a
    client that follows the cursor reads every event once; only members read.
  \<^item> Connections: the frames on the wire follow the protocol, nothing is delivered before authentication
    or for another user, buffers and timers are bounded, re-registration repairs or closes.
  \<^item> Ids: strictly increasing per generator, one minter per worker id at a time; and the handover that can
    repeat ids.
  \<^item> Accounts: a pending account is one with a challenge, under every interleaving; what \<open>Verify\<close> decides;
    a registration that succeeded can be activated with the PIN it mailed; how often it retries; the budget of
    wrong PINs and the interleaving that exceeds it; what a sweep removes; login needs an
    active account; a token names its account until it expires; one sweep at a time.
  \<^item> Client: the scrollback holds the newest distinct events in order, a scrolled view does not move, a row
    fits its pane; no message panics (at an index, or at a map
    that is still \<open>nil\<close>), results of an earlier session are ignored, one history request per
    room is in flight; a page of history and a live frame survive the wire; and the full bucket that can
    show no older history.

  \<^item> Servers: every path below \<open>rooms\<close> needs a session, the two listeners share no route, a 405 names exactly
    the methods the path has; an accepted command line gives a configuration that can run; however a server
    process ends, it releases what it opened in reverse order, and a signal drains its listeners first; a mail holds no header but the program's.
  \<^item> Around the actors: the death-watch notice the generated dispatch would discard reaches the User grain
    and removes the connection that ended; the log has one line per message, absent only for a panic, under
    the id the handlers log; a child's failure is logged and then handled by the strategy it names.

  \<^bold>\<open>Loops and bounds.\<close> Retry loops are functions with a measure (\<open>retry_loop\<close>, \<open>create_loop\<close>, \<open>Acquire\<close>). The
  busy wait of the generator is a \<open>partial_function\<close> and a theorem says when it returns. Readers that walk
  pages take fuel; one more than the number of rows is enough, and the theorems say so.

  \<^bold>\<open>Parameters and hypotheses.\<close> Unicode normalisation and the print table (\<open>nfc_laws\<close>), bcrypt
  (\<open>bcrypt_laws\<close>), the JWT library (\<open>jwt_laws\<close>), PGroonga matching and case folding (\<open>search_lib\<close>),
  \<open>mime.ParseMediaType\<close>, the JSON codec (\<open>client_json\<close> on the client's side), the text field of the terminal
  library (\<open>ui_lib\<close>), the parsers of \<open>flag\<close> values, of IP addresses and of cron specifications (\<open>boot_lib\<close>), the HTTP transport and the socket (\<open>client_net\<close>). Each law is documented behaviour and is shown to hold of a
  concrete instance. The grains' coherence assumes that no commit is applied with its reply lost, since
  the code then keeps a cache it cannot know to be stale; the store theorems cover that case too.

  \<^bold>\<open>Not modelled.\<close> The log lines inside handlers, metrics and traces (\<open>telemetry/prometheus.go\<close> only calls the
  OpenTelemetry library); generated code beyond the dispatch of a grain; the wiring of the cluster library
  (\<open>clusterboot.Build\<close>) and of the pool (\<open>postgres/pool.go\<close>), whose success is a parameter of \<open>Process\<close>; a
  signal during start-up, which ends the process without releases; the redirect of the mux for paths that
  are not canonical; the page text and the process groups of \<open>cmd/docs-preview\<close>; the drawing of the terminal
  client (the \<open>View\<close> functions beyond the rows of the scrollback, \<open>ui\<close>, \<open>modal\<close>, \<open>panes/info\<close>) and the start of
  its event loop; the test utilities.
\<close>

end
